(* ===== verification/Prelude.thy ===== *)
theory Prelude
  imports "HOL-Library.Word" "HOL-Library.Code_Target_Nat"
begin

text \<open>
  Shared vocabulary of the development: machine integers, the part of the Rust standard
  library that the modelled code calls (strings as UTF-8 byte lists, number formatting and
  parsing, IEEE comparison of floats, \<open>Vec\<close> operations) and the generic lemmas about them.

  Conventions used by every other theory.
  \<^item> A Rust \<open>String\<close> or \<open>&str\<close> is an Isabelle \<open>string\<close> that holds its UTF-8 bytes. Operations
    that work on Unicode scalars (\<open>trim\<close>, \<open>split_whitespace\<close>, \<open>chars\<close>) go through \<open>utf8_chars\<close>, which
    cuts the bytes into scalars; operations on ASCII needles work on the bytes, which is the
    same because no byte of a multi-byte scalar is an ASCII byte.
  \<^item> A Rust \<open>Result<T, E>\<close> is the sum type with \<open>Inl\<close> for \<open>Err\<close> and \<open>Inr\<close> for \<open>Ok\<close>.
  \<^item> A \<open>&mut Vec<Diagnostic>\<close> parameter that is only pushed to is modelled by returning the list of
    pushed entries; the caller appends it.
  \<^item> \<open>f32\<close> and \<open>f64\<close> values are their IEEE bit patterns. The code compares and copies floats but
    never computes with them in the modelled part, so comparison on bit patterns is exact.
\<close>

type_synonym u8 = "8 word"
type_synonym u16 = "16 word"
type_synonym u32 = "32 word"
type_synonym u64 = "64 word"
type_synonym f32 = "32 word"
type_synonym f64 = "64 word"
type_synonym uuid = "128 word"

named_theorems diag_simps \<open>which diagnostic codes an operation can push\<close>

section \<open>Results\<close>

fun map_res :: "('a \<Rightarrow> 'b) \<Rightarrow> 'e + 'a \<Rightarrow> 'e + 'b" where
  "map_res f (Inl e) = Inl e"
| "map_res f (Inr a) = Inr (f a)"

lemma map_res_Inr_iff [simp]: "map_res f r = Inr b \<longleftrightarrow> (\<exists>a. r = Inr a \<and> b = f a)"
  by (cases r) auto

lemma map_res_Inl_iff [simp]: "map_res f r = Inl e \<longleftrightarrow> r = Inl e"
  by (cases r) auto

text \<open>\<open>Option::ok_or\<close> and \<open>Result::ok\<close>.\<close>

definition ok_or :: "'e \<Rightarrow> 'a option \<Rightarrow> 'e + 'a" where
  "ok_or e x = (case x of None \<Rightarrow> Inl e | Some a \<Rightarrow> Inr a)"

lemma ok_or_simps [simp]: "ok_or e None = Inl e" "ok_or e (Some a) = Inr a"
  by (simp_all add: ok_or_def)

lemma ok_or_Inr_iff [simp]: "ok_or e x = Inr a \<longleftrightarrow> x = Some a"
  by (cases x) auto

lemma ok_or_Inl_iff [simp]: "ok_or e x = Inl e' \<longleftrightarrow> x = None \<and> e' = e"
  by (cases x) auto

text \<open>\<open>Option::or_else\<close>.\<close>

definition or_else :: "'a option \<Rightarrow> 'a option \<Rightarrow> 'a option" where
  "or_else x y = (case x of None \<Rightarrow> y | Some a \<Rightarrow> Some a)"

lemma or_else_simps [simp]: "or_else None y = y" "or_else (Some a) y = Some a"
  by (simp_all add: or_else_def)

lemma or_else_None_right [simp]: "or_else x None = x"
  by (cases x) auto

lemma or_else_eq_None [simp]: "or_else x y = None \<longleftrightarrow> x = None \<and> y = None"
  by (cases x) auto

lemma or_else_assoc: "or_else (or_else x y) z = or_else x (or_else y z)"
  by (cases x) auto

text \<open>
  Results of fallible operations that push to a list (diagnostics): on success the value and what
  was pushed, in order.
\<close>

fun wbind :: "'e + ('a \<times> 'd list) \<Rightarrow> ('a \<Rightarrow> 'e + ('b \<times> 'd list)) \<Rightarrow> 'e + ('b \<times> 'd list)" where
  "wbind (Inl e) f = Inl e"
| "wbind (Inr (a, ds)) f = map_res (\<lambda>(b, ds'). (b, ds @ ds')) (f a)"

lemma wbind_Inr_iff [simp]:
  "wbind r f = Inr (b, es) \<longleftrightarrow> (\<exists>a ds ds'. r = Inr (a, ds) \<and> f a = Inr (b, ds') \<and> es = ds @ ds')"
  by (cases "(r, f)" rule: wbind.cases) auto

section \<open>Characters and strings\<close>

definition ascii_digit :: "char \<Rightarrow> bool" where
  "ascii_digit c \<longleftrightarrow> 48 \<le> (of_char c :: nat) \<and> (of_char c :: nat) \<le> 57"

definition ascii_lower :: "char \<Rightarrow> bool" where
  "ascii_lower c \<longleftrightarrow> 97 \<le> (of_char c :: nat) \<and> (of_char c :: nat) \<le> 122"

definition ascii_upper :: "char \<Rightarrow> bool" where
  "ascii_upper c \<longleftrightarrow> 65 \<le> (of_char c :: nat) \<and> (of_char c :: nat) \<le> 90"

definition to_lower_char :: "char \<Rightarrow> char" where
  "to_lower_char c = (if ascii_upper c then char_of ((of_char c :: nat) + 32) else c)"

text \<open>\<open>str::to_ascii_lowercase\<close>.\<close>

definition to_ascii_lowercase :: "string \<Rightarrow> string" where
  "to_ascii_lowercase s = map to_lower_char s"

text \<open>The length in bytes of the scalar whose first byte is \<open>b\<close>.\<close>

definition utf8_len :: "char \<Rightarrow> nat" where
  "utf8_len b =
     (let n = (of_char b :: nat)
      in if n < 192 then 1 else if n < 224 then 2 else if n < 240 then 3 else 4)"

type_synonym uchar = string

fun utf8_chars :: "string \<Rightarrow> uchar list" where
  "utf8_chars [] = []"
| "utf8_chars (b # bs) =
     (b # take (utf8_len b - 1) bs) # utf8_chars (drop (utf8_len b - 1) bs)"

lemma concat_utf8_chars [simp]: "concat (utf8_chars s) = s"
  by (induction s rule: utf8_chars.induct) simp_all

lemma utf8_chars_ne: "c \<in> set (utf8_chars s) \<Longrightarrow> c \<noteq> []"
  by (induction s rule: utf8_chars.induct) auto

lemma length_utf8_chars: "length (utf8_chars s) \<le> length s"
  by (induction s rule: utf8_chars.induct) (auto intro: le_trans)

text \<open>The scalars with Unicode property White\_Space, as UTF-8 (\<open>char::is_whitespace\<close>).\<close>

definition is_whitespace :: "uchar \<Rightarrow> bool" where
  "is_whitespace c \<longleftrightarrow>
     (case c of
        [b] \<Rightarrow> (of_char b :: nat) \<in> {9, 10, 11, 12, 13, 32}
      | [b1, b2] \<Rightarrow> (of_char b1 :: nat) = 194 \<and> (of_char b2 :: nat) \<in> {133, 160}
      | [b1, b2, b3] \<Rightarrow>
          (let x = (of_char b1 :: nat); y = (of_char b2 :: nat); z = (of_char b3 :: nat)
           in x = 225 \<and> y = 154 \<and> z = 128
              \<or> x = 226 \<and> y = 128 \<and> (128 \<le> z \<and> z \<le> 138 \<or> z = 168 \<or> z = 169 \<or> z = 175)
              \<or> x = 226 \<and> y = 129 \<and> z = 159
              \<or> x = 227 \<and> y = 128 \<and> z = 128)
      | _ \<Rightarrow> False)"

text \<open>\<open>str::trim\<close>.\<close>

definition trim :: "string \<Rightarrow> string" where
  "trim s = concat (rev (dropWhile is_whitespace (rev (dropWhile is_whitespace (utf8_chars s)))))"

text \<open>\<open>str::split_whitespace\<close>: maximal runs of scalars that are not white space.\<close>

fun words_aux :: "uchar list \<Rightarrow> uchar list \<Rightarrow> string list" where
  "words_aux cur [] = (if cur = [] then [] else [concat (rev cur)])"
| "words_aux cur (c # cs) =
     (if is_whitespace c
      then (if cur = [] then words_aux [] cs else concat (rev cur) # words_aux [] cs)
      else words_aux (c # cur) cs)"

definition split_whitespace :: "string \<Rightarrow> string list" where
  "split_whitespace s = words_aux [] (utf8_chars s)"

text \<open>\<open>str::split\<close> on a set of ASCII bytes: always at least one piece.\<close>

fun split_on :: "(char \<Rightarrow> bool) \<Rightarrow> string \<Rightarrow> string list" where
  "split_on p [] = [[]]"
| "split_on p (c # cs) =
     (if p c then [] # split_on p cs
      else (case split_on p cs of [] \<Rightarrow> [[c]] | w # ws \<Rightarrow> (c # w) # ws))"

lemma split_on_ne [simp]: "split_on p s \<noteq> []"
  by (induction s) (auto split: list.splits)

definition split_char :: "char \<Rightarrow> string \<Rightarrow> string list" where
  "split_char d = split_on (\<lambda>c. c = d)"

text \<open>\<open>str::split_once\<close> on one ASCII byte.\<close>

fun split_once :: "char \<Rightarrow> string \<Rightarrow> (string \<times> string) option" where
  "split_once d [] = None"
| "split_once d (c # cs) =
     (if c = d then Some ([], cs)
      else map_option (\<lambda>(a, b). (c # a, b)) (split_once d cs))"

lemma split_once_SomeD: "split_once d s = Some (a, b) \<Longrightarrow> s = a @ d # b \<and> d \<notin> set a"
  by (induction s arbitrary: a) (auto split: if_splits)

text \<open>\<open>str::strip_prefix\<close> on one ASCII byte.\<close>

definition strip_prefix_char :: "char \<Rightarrow> string \<Rightarrow> string option" where
  "strip_prefix_char d s = (case s of [] \<Rightarrow> None | c # cs \<Rightarrow> if c = d then Some cs else None)"

text \<open>\<open>str::contains\<close>.\<close>

fun has_prefix :: "string \<Rightarrow> string \<Rightarrow> bool" where
  "has_prefix [] s = True"
| "has_prefix (c # cs) [] = False"
| "has_prefix (c # cs) (d # ds) = (c = d \<and> has_prefix cs ds)"

fun str_contains :: "string \<Rightarrow> string \<Rightarrow> bool" where
  "str_contains [] n = (n = [])"
| "str_contains (c # cs) n = (has_prefix n (c # cs) \<or> str_contains cs n)"

lemma has_prefix_iff: "has_prefix n s \<longleftrightarrow> (\<exists>r. s = n @ r)"
  by (induction n s rule: has_prefix.induct) auto

lemma str_contains_iff: "str_contains s n \<longleftrightarrow> (\<exists>a b. s = a @ n @ b)"
proof (induction s)
  case Nil
  show ?case by auto
next
  case (Cons c cs)
  have "(\<exists>a b. c # cs = a @ n @ b) \<longleftrightarrow>
    (\<exists>b. c # cs = n @ b) \<or> (\<exists>a b. cs = a @ n @ b)"
    by (metis append_Cons append_Nil append_eq_Cons_conv)
  with Cons.IH show ?case by (simp add: has_prefix_iff)
qed

text \<open>\<open>[String]::join\<close>.\<close>

fun join :: "string \<Rightarrow> string list \<Rightarrow> string" where
  "join sep [] = []"
| "join sep [s] = s"
| "join sep (s # t # ts) = s @ sep @ join sep (t # ts)"

text \<open>The non-ASCII characters that the modelled messages contain.\<close>

definition em_dash :: string where "em_dash = [char_of (226::nat), char_of (128::nat), char_of (148::nat)]"
definition section_sign :: string where "section_sign = [char_of (194::nat), char_of (167::nat)]"
definition logical_and_sign :: string where
  "logical_and_sign = [char_of (226::nat), char_of (136::nat), char_of (167::nat)]"
definition logical_or_sign :: string where
  "logical_or_sign = [char_of (226::nat), char_of (136::nat), char_of (168::nat)]"
definition right_arrow :: string where
  "right_arrow = [char_of (226::nat), char_of (134::nat), char_of (146::nat)]"

text \<open>A name in single quotes, as the messages print it.\<close>

definition quoted :: "string \<Rightarrow> string" where
  "quoted s = [CHR 0x27] @ s @ [CHR 0x27]"

section \<open>Numbers as text\<close>

definition digit_char :: "nat \<Rightarrow> char" where
  "digit_char n = char_of (48 + n)"

fun show_nat :: "nat \<Rightarrow> string" where
  "show_nat n = (if n < 10 then [digit_char n] else show_nat (n div 10) @ [digit_char (n mod 10)])"

declare show_nat.simps [simp del]

definition show_word :: "'a::len word \<Rightarrow> string" where
  "show_word w = show_nat (unat w)"

definition show_int :: "int \<Rightarrow> string" where
  "show_int i = (if i < 0 then CHR ''-'' # show_nat (nat (- i)) else show_nat (nat i))"

definition digit_val :: "char \<Rightarrow> nat" where
  "digit_val c = (of_char c :: nat) - 48"

fun digits_val :: "nat \<Rightarrow> string \<Rightarrow> nat option" where
  "digits_val acc [] = Some acc"
| "digits_val acc (c # cs) =
     (if ascii_digit c then digits_val (acc * 10 + digit_val c) cs else None)"

lemma of_char_digit_char [simp]: "n < 10 \<Longrightarrow> of_char (digit_char n) = 48 + n"
  by (simp add: digit_char_def)

lemma ascii_digit_digit_char [simp]: "n < 10 \<Longrightarrow> ascii_digit (digit_char n)"
  by (simp add: ascii_digit_def)

lemma digit_val_digit_char [simp]: "n < 10 \<Longrightarrow> digit_val (digit_char n) = n"
  by (simp add: digit_val_def)

lemma show_nat_ne [simp]: "show_nat n \<noteq> []"
  by (subst show_nat.simps) simp

lemma show_nat_digits: "list_all ascii_digit (show_nat n)"
proof (induction n rule: show_nat.induct)
  case (1 n)
  then show ?case by (subst show_nat.simps) auto
qed

lemma digits_val_append:
  "digits_val a (s @ t) = (case digits_val a s of None \<Rightarrow> None | Some b \<Rightarrow> digits_val b t)"
  by (induction s arbitrary: a) auto

lemma digits_val_show_nat: "digits_val 0 (show_nat n) = Some n"
proof (induction n rule: show_nat.induct)
  case (1 n)
  show ?case
  proof (cases "n < 10")
    case True
    then show ?thesis by (subst show_nat.simps) simp
  next
    case False
    with 1 have "digits_val 0 (show_nat (n div 10)) = Some (n div 10)" by simp
    with False show ?thesis by (subst show_nat.simps) (simp add: digits_val_append)
  qed
qed

lemma show_nat_inj: "show_nat m = show_nat n \<Longrightarrow> m = n"
  by (metis digits_val_show_nat option.inject)

text \<open>
  \<open>str::parse\<close> for integers: an optional sign (\<open>+\<close> always, \<open>-\<close> for signed types), at least one
  digit, nothing else, and a value in range.
\<close>

definition parse_digits :: "string \<Rightarrow> nat option" where
  "parse_digits s = (if s = [] then None else digits_val 0 s)"

definition strip_plus :: "string \<Rightarrow> string" where
  "strip_plus s = (case s of [] \<Rightarrow> [] | c # cs \<Rightarrow> if c = CHR ''+'' then cs else s)"

definition parse_word :: "string \<Rightarrow> 'a::len word option" where
  "parse_word s =
     (case parse_digits (strip_plus s) of
        None \<Rightarrow> None
      | Some n \<Rightarrow> if n < 2 ^ LENGTH('a) then Some (of_nat n) else None)"

definition parse_i64 :: "string \<Rightarrow> int option" where
  "parse_i64 s =
     (case s of
        [] \<Rightarrow> None
      | c # cs \<Rightarrow>
          if c = CHR ''-''
          then (case parse_digits cs of
                  None \<Rightarrow> None
                | Some n \<Rightarrow> if n \<le> 2 ^ 63 then Some (- int n) else None)
          else (case parse_digits (strip_plus s) of
                  None \<Rightarrow> None
                | Some n \<Rightarrow> if n < 2 ^ 63 then Some (int n) else None))"

lemma show_nat_hd_digit: "show_nat n = c # cs \<Longrightarrow> ascii_digit c"
  using show_nat_digits [of n] by simp

lemma strip_plus_show_nat [simp]: "strip_plus (show_nat n) = show_nat n"
proof (cases "show_nat n")
  case Nil
  then show ?thesis by simp
next
  case (Cons c cs)
  then have "c \<noteq> CHR ''+''" using show_nat_hd_digit [OF Cons] by (auto simp: ascii_digit_def)
  with Cons show ?thesis by (simp add: strip_plus_def)
qed

lemma parse_digits_show_nat [simp]: "parse_digits (show_nat n) = Some n"
  by (simp add: parse_digits_def digits_val_show_nat)

lemma parse_word_show_word: "parse_word (show_word w) = Some (w :: 'a::len word)"
  by (simp add: parse_word_def show_word_def)

lemma parse_i64_show_int:
  assumes "- (2 ^ 63) \<le> i" and "i < 2 ^ 63"
  shows "parse_i64 (show_int i) = Some i"
proof (cases "i < 0")
  case True
  with assms have "nat (- i) \<le> 2 ^ 63" by simp
  with True show ?thesis by (simp add: parse_i64_def show_int_def)
next
  case False
  obtain c cs where c: "show_nat (nat i) = c # cs" by (cases "show_nat (nat i)") auto
  then have "c \<noteq> CHR ''-''" using show_nat_hd_digit [OF c] by (auto simp: ascii_digit_def)
  moreover from False assms have "nat i < 2 ^ 63" by simp
  ultimately show ?thesis using False c strip_plus_show_nat [of "nat i"] parse_digits_show_nat [of "nat i"]
    by (simp add: parse_i64_def show_int_def)
qed

lemma parse_word_bound: "parse_word s = Some (w :: 'a::len word) \<Longrightarrow> \<exists>n. parse_digits (strip_plus s) = Some n \<and> unat w = n"
  by (auto simp: parse_word_def unat_of_nat split: option.splits if_splits)

text \<open>Lower-case hexadecimal, as \<open>{:x}\<close> prints it.\<close>

definition hex_digit :: "nat \<Rightarrow> char" where
  "hex_digit n = (if n < 10 then char_of (48 + n) else char_of (87 + n))"

fun show_hex_pad :: "nat \<Rightarrow> nat \<Rightarrow> string" where
  "show_hex_pad 0 n = []"
| "show_hex_pad (Suc k) n = show_hex_pad k (n div 16) @ [hex_digit (n mod 16)]"

lemma length_show_hex_pad [simp]: "length (show_hex_pad k n) = k"
  by (induction k arbitrary: n) auto

section \<open>IEEE comparison of \<open>f32\<close> bit patterns\<close>

unbundle bit_operations_syntax

definition f32_is_finite :: "f32 \<Rightarrow> bool" where
  "f32_is_finite x \<longleftrightarrow> x AND 0x7F800000 \<noteq> 0x7F800000"

definition f32_is_nan :: "f32 \<Rightarrow> bool" where
  "f32_is_nan x \<longleftrightarrow> x AND 0x7F800000 = 0x7F800000 \<and> x AND 0x007FFFFF \<noteq> 0"

definition f32_is_zero :: "f32 \<Rightarrow> bool" where
  "f32_is_zero x \<longleftrightarrow> x AND 0x7FFFFFFF = 0"

definition f32_sign :: "f32 \<Rightarrow> bool" where
  "f32_sign x \<longleftrightarrow> x AND 0x80000000 \<noteq> 0"

text \<open>\<open>==\<close> on floats: NaN equals nothing, the two zeros are equal.\<close>

definition f32_eq :: "f32 \<Rightarrow> f32 \<Rightarrow> bool" where
  "f32_eq x y \<longleftrightarrow>
     \<not> f32_is_nan x \<and> \<not> f32_is_nan y \<and> (x = y \<or> f32_is_zero x \<and> f32_is_zero y)"

lemma f32_eq_sym: "f32_eq x y \<longleftrightarrow> f32_eq y x"
  by (auto simp: f32_eq_def)

lemma f32_eq_refl: "f32_eq x x \<longleftrightarrow> \<not> f32_is_nan x"
  by (auto simp: f32_eq_def)

lemma f32_eq_trans: "f32_eq x y \<Longrightarrow> f32_eq y z \<Longrightarrow> f32_eq x z"
  by (auto simp: f32_eq_def)

lemma f32_finite_not_nan: "f32_is_finite x \<Longrightarrow> \<not> f32_is_nan x"
  by (simp add: f32_is_finite_def f32_is_nan_def)

section \<open>\<open>Vec\<close> operations\<close>

text \<open>\<open>Iterator::position\<close>.\<close>

fun position_of :: "('a \<Rightarrow> bool) \<Rightarrow> 'a list \<Rightarrow> nat option" where
  "position_of p [] = None"
| "position_of p (x # xs) = (if p x then Some 0 else map_option Suc (position_of p xs))"

lemma position_of_None: "position_of p xs = None \<longleftrightarrow> (\<forall>x\<in>set xs. \<not> p x)"
  by (induction xs) auto

lemma position_of_Some:
  "position_of p xs = Some i \<Longrightarrow> i < length xs \<and> p (xs ! i) \<and> (\<forall>j<i. \<not> p (xs ! j))"
proof (induction xs arbitrary: i)
  case Nil
  then show ?case by simp
next
  case (Cons x xs)
  then show ?case by (auto split: if_splits simp: nth_Cons split: nat.splits)
qed

text \<open>\<open>Vec::insert\<close> and \<open>Vec::remove\<close>, for indices in range (the callers check them).\<close>

definition vec_insert :: "nat \<Rightarrow> 'a \<Rightarrow> 'a list \<Rightarrow> 'a list" where
  "vec_insert i x xs = take i xs @ x # drop i xs"

definition vec_remove :: "nat \<Rightarrow> 'a list \<Rightarrow> 'a list" where
  "vec_remove i xs = take i xs @ drop (Suc i) xs"

lemma length_vec_insert [simp]: "i \<le> length xs \<Longrightarrow> length (vec_insert i x xs) = Suc (length xs)"
  by (simp add: vec_insert_def)

lemma length_vec_remove [simp]: "i < length xs \<Longrightarrow> length (vec_remove i xs) = length xs - 1"
  by (simp add: vec_remove_def)

lemma vec_remove_insert [simp]: "i \<le> length xs \<Longrightarrow> vec_remove i (vec_insert i x xs) = xs"
  by (simp add: vec_remove_def vec_insert_def)

lemma vec_insert_remove: "i < length xs \<Longrightarrow> vec_insert i (xs ! i) (vec_remove i xs) = xs"
  by (simp add: vec_remove_def vec_insert_def id_take_nth_drop [symmetric])

lemma nth_vec_insert_same [simp]: "i \<le> length xs \<Longrightarrow> vec_insert i x xs ! i = x"
  by (simp add: vec_insert_def nth_append)

text \<open>Pushing a value unless it is already there: the \<open>if !out.contains(x) { out.push(x) }\<close> idiom.\<close>

definition push_new :: "'a \<Rightarrow> 'a list \<Rightarrow> 'a list" where
  "push_new x xs = (if x \<in> set xs then xs else xs @ [x])"

lemma set_push_new [simp]: "set (push_new x xs) = insert x (set xs)"
  by (auto simp: push_new_def)

lemma distinct_push_new [simp]: "distinct (push_new x xs) = distinct xs"
  by (auto simp: push_new_def)

lemma set_fold_push_new [simp]: "set (fold push_new ys xs) = set xs \<union> set ys"
  by (induction ys arbitrary: xs) auto

lemma distinct_fold_push_new [simp]: "distinct (fold push_new ys xs) = distinct xs"
  by (induction ys arbitrary: xs) auto

end
