(* ===== verification/Authoring.thy ===== *)
theory Authoring
  imports Prelude
begin

text \<open>
  The authoring model, \<^verbatim>\<open>SentinelQuesting/shared/src/authoring\<close>: what an author (or the importer)
  writes and every later stage reads. One record per struct, one datatype per enum; field names
  carry a short prefix of the struct because record selectors share one name space.
\<close>

section \<open>Enumerations (enums.rs)\<close>

datatype Faction = Alliance | Horde | Neutral

datatype Race =
    Human | Orc | Dwarf | NightElf | Undead | Tauren | Gnome | Troll | BloodElf | Draenei

datatype Class =
    Warrior | Paladin | Hunter | Rogue | Priest | Shaman | Mage | Warlock | Druid

datatype CoordinateMode = World

datatype Severity = Info | Warning | Error

datatype NpcRole =
    RoleQuestGiver | RoleVendor | RoleTrainer | RoleRepair | RoleFlightMaster | RoleInnkeeper
  | RoleMailbox | RoleBanker | RoleAuctioneer | RoleGeneric

datatype VariableType = TyBool | TyInt | TyFloat | TyString | TyQuestId | TyNpcId

datatype VariableValue =
    VBool bool
  | VInt "64 word"
  | VFloat f64
  | VString string
  | VQuestId u32
  | VNpcId u32

section \<open>Positions, areas and library entries\<close>

record Position =
  pos_map :: u32
  pos_world_x :: f32
  pos_world_y :: f32
  pos_world_z :: f32
  pos_orientation :: "f32 option"

record Area =
  area_id :: uuid
  area_zone :: "string option"
  area_name :: string
  area_points :: "Position list"
  area_tags :: "string list"

record NPCReference =
  npc_id :: uuid
  npc_entry :: "u32 option"
  npc_guid :: "u64 option"
  npc_name :: string
  npc_faction :: "Faction option"
  npc_roles :: "NpcRole list"
  npc_position :: "Position option"
  npc_source :: "string option"
  npc_notes :: "string option"

record GameObjectReference =
  obj_id :: uuid
  obj_entry :: u32
  obj_name :: string
  obj_position :: Position
  obj_type :: string
  obj_source :: "string option"

record QuestReference =
  quest_uuid :: uuid
  quest_quest_id :: u32
  quest_title :: "string option"
  quest_level :: "u8 option"
  quest_minimum_level :: "u8 option"
  quest_suggested_group :: "u8 option"
  quest_giver_npc :: "uuid option"
  quest_finisher_npc :: "uuid option"
  quest_chain :: "string option"
  quest_prerequisites :: "u32 list"
  quest_exclusive_with :: "u32 list"
  quest_repeatable :: bool
  quest_source :: "string option"

record Variable =
  var_id :: uuid
  var_name :: string
  var_type :: VariableType
  var_default_value :: VariableValue
  var_current_value :: "VariableValue option"
  var_description :: "string option"

section \<open>Guide-level annotations (guide.rs)\<close>

datatype GuideGate = GuideGate string

record 'a Gated =
  gated_value :: 'a
  gated_gate :: "GuideGate option"
  gated_line :: nat

datatype CompleteWithTarget = Next | Label string

record GuideHeaders =
  gh_name :: "string Gated list"
  gh_group :: "string Gated list"
  gh_subgroup :: "string Gated list"
  gh_source_version :: "u32 option"
  gh_next :: "string Gated list"

record GuideDirective =
  dir_name :: string
  dir_value :: "string option"
  dir_gate :: "GuideGate option"
  dir_line :: nat

section \<open>Actions (action.rs)\<close>

datatype TravelMedium = MediumAny | MediumGround | MediumAir

text \<open>
  \<open>TravelMedium::for_command\<close>: \<open>command\<close> may carry its leading dot; anything that is not a movement
  command is \<open>None\<close>.
\<close>

definition for_command :: "string \<Rightarrow> TravelMedium option" where
  "for_command command =
     (let name = (case strip_prefix_char (CHR ''.'') command of Some r \<Rightarrow> r | None \<Rightarrow> command)
      in if name = ''goto'' \<or> name = ''waypoint'' then Some MediumAny
         else if name = ''groundgoto'' then Some MediumGround
         else if name = ''flygoto'' then Some MediumAir
         else None)"

record TravelAction =
  travel_destination :: string
  travel_position :: "Position option"
  travel_tolerance :: f32
  travel_authored_radius :: "u16 option"
  travel_medium :: TravelMedium
  travel_source_line :: "u32 option"
  travel_mount :: "string option"
  travel_allow_flight :: bool
  travel_timeout :: "u32 option"

record AcceptQuestAction =
  accept_quest :: u32
  accept_npc :: "uuid option"
  accept_auto_complete_dialog :: bool
  accept_optional :: bool

record TurnInQuestAction =
  turnin_quest :: u32
  turnin_npc :: "uuid option"
  turnin_choose_reward :: "u32 option"
  turnin_optional :: bool

record CreatureRef =
  creature_entry :: u32
  creature_name :: string

record KillTargetAction =
  kill_creature_entries :: "u32 list"
  kill_creatures :: "CreatureRef list"
  kill_watch :: bool
  kill_quantity :: "u32 option"
  kill_loot :: bool
  kill_ignore_elites :: bool

record GrindAreaAction =
  grind_polygon :: "uuid option"
  grind_targets :: "u32 list"
  grind_loot :: bool
  grind_timeout :: "u32 option"
  grind_minimum_kills :: "u32 option"
  grind_maximum_kills :: "u32 option"
  grind_stop_condition :: "string option"

record LootObjectAction =
  loot_object :: uuid
  loot_count :: "u32 option"

record InteractNpcAction =
  interact_npc :: uuid
  interact_gossip :: "string option"

record VendorAction =
  vendor_npc :: uuid
  vendor_sell_grey :: bool
  vendor_repair :: bool
  vendor_buy_items :: "u32 list"
  vendor_minimum_free_slots :: "u32 option"

record RepairAction =
  repair_npc :: uuid

record TrainerAction =
  trainer_npc :: uuid
  trainer_spells :: "u32 list"
  trainer_trainer_type :: "string option"
  trainer_minimum_level :: "u8 option"

record LearnFlightPathAction =
  learn_npc :: uuid

record UseItemAction =
  use_item :: u32
  use_target :: "uuid option"

record FlightAction =
  flight_npc :: uuid
  flight_destination :: string

record SetHearthAction =
  sethearth_npc :: "uuid option"

record HearthAction =
  hearth_innkeeper :: "uuid option"
  hearth_destination :: "string option"

record WaitAction =
  wait_duration :: u32

record EscortAction =
  escort_npc :: uuid
  escort_area :: "uuid option"
  escort_timeout :: "u32 option"

record PatrolAction =
  patrol_area :: "uuid option"
  patrol_waypoints :: "Position list"

record MailboxAction =
  mailbox_npc :: uuid

record BankAction =
  bank_npc :: uuid

datatype ConditionRole = Completion | Applicability

record ConditionAction =
  cond_expression :: string
  cond_role :: ConditionRole

record SetVariableAction =
  setvar_name :: string
  setvar_value :: VariableValue

record CommentAction =
  comment_text :: string

datatype ActionPayload =
    AcceptQuest AcceptQuestAction
  | TurnInQuest TurnInQuestAction
  | Travel TravelAction
  | Kill KillTargetAction
  | GrindArea GrindAreaAction
  | LootObject LootObjectAction
  | InteractNPC InteractNpcAction
  | Vendor VendorAction
  | Repair RepairAction
  | Train TrainerAction
  | LearnFlightPath LearnFlightPathAction
  | UseItem UseItemAction
  | Flight FlightAction
  | SetHearth SetHearthAction
  | Hearth HearthAction
  | Wait WaitAction
  | Escort EscortAction
  | Patrol PatrolAction
  | Mailbox MailboxAction
  | Bank BankAction
  | Condition ConditionAction
  | SetVariable SetVariableAction
  | Comment CommentAction

record Action =
  act_id :: uuid
  act_enabled :: bool
  act_condition :: "string option"
  act_note :: "string option"
  act_class_restriction :: "string option"
  act_gate :: "GuideGate option"
  act_payload :: ActionPayload

section \<open>Operations and projects\<close>

record Operation =
  op_id :: uuid
  op_name :: string
  op_description :: "string option"
  op_minimum_level :: "u8 option"
  op_maximum_level :: "u8 option"
  op_enabled :: bool
  op_conditions :: "string list"
  op_sticky :: bool
  op_looping :: bool
  op_labels :: "string Gated list"
  op_requires :: "string Gated list"
  op_complete_with :: "CompleteWithTarget Gated list"
  op_optional :: "unit Gated option"
  op_gate :: "GuideGate option"
  op_directives :: "GuideDirective list"
  op_placeholder :: bool
  op_source_line_start :: "u32 option"
  op_source_line_end :: "u32 option"
  op_actions :: "Action list"
  op_notes :: "string option"

text \<open>\<open>Operation::new\<close>; the fresh id it draws is an argument.\<close>

definition Operation_new :: "uuid \<Rightarrow> string \<Rightarrow> Operation" where
  "Operation_new fresh name =
     \<lparr>op_id = fresh, op_name = name, op_description = None, op_minimum_level = None,
      op_maximum_level = None, op_enabled = True, op_conditions = [], op_sticky = False,
      op_looping = False, op_labels = [], op_requires = [], op_complete_with = [],
      op_optional = None, op_gate = None, op_directives = [], op_placeholder = False,
      op_source_line_start = None, op_source_line_end = None, op_actions = [],
      op_notes = None\<rparr>"

record ProjectMetadata =
  meta_id :: uuid
  meta_name :: string
  meta_author :: string
  meta_description :: string
  meta_version :: string
  meta_schema_version :: string
  meta_game_version :: string
  meta_faction :: "Faction option"
  meta_race :: "Race option"
  meta_class :: "Class option"
  meta_minimum_level :: "u8 option"
  meta_maximum_level :: "u8 option"
  meta_created_at :: string
  meta_updated_at :: string

definition default_game_version :: string where
  "default_game_version = ''2.4.3''"

record ProjectSettings =
  set_auto_repair :: bool
  set_auto_vendor :: bool
  set_auto_train :: bool
  set_learn_flight_paths :: bool
  set_auto_hearth :: bool
  set_skip_optional :: bool
  set_stop_on_death :: bool
  set_stop_on_validation_errors :: bool
  set_compile_optimization :: bool
  set_coordinate_mode :: CoordinateMode

definition ProjectSettings_default :: ProjectSettings where
  "ProjectSettings_default =
     \<lparr>set_auto_repair = False, set_auto_vendor = False, set_auto_train = False,
      set_learn_flight_paths = False, set_auto_hearth = False, set_skip_optional = False,
      set_stop_on_death = False, set_stop_on_validation_errors = False,
      set_compile_optimization = False, set_coordinate_mode = World\<rparr>"

record Diagnostic =
  diag_severity :: Severity
  diag_code :: string
  diag_message :: string
  diag_entity :: "string option"
  diag_action :: "string option"

text \<open>A diagnostic literal with its fields in order.\<close>

definition diagnostic :: "Severity \<Rightarrow> string \<Rightarrow> string \<Rightarrow> string option \<Rightarrow> string option \<Rightarrow> Diagnostic" where
  "diagnostic severity code message entity action =
     \<lparr>diag_severity = severity, diag_code = code, diag_message = message, diag_entity = entity,
      diag_action = action\<rparr>"

record ImportMetadata =
  imp_importer :: string
  imp_imported_at :: string
  imp_source_file :: string
  imp_checksum :: string
  imp_guide_version :: string

record Project =
  prj_metadata :: ProjectMetadata
  prj_guide_headers :: GuideHeaders
  prj_settings :: ProjectSettings
  prj_variables :: "Variable list"
  prj_npc_library :: "NPCReference list"
  prj_quest_library :: "QuestReference list"
  prj_object_library :: "GameObjectReference list"
  prj_areas :: "Area list"
  prj_operations :: "Operation list"
  prj_diagnostics :: "Diagnostic list"
  prj_import_metadata :: "ImportMetadata option"

text \<open>\<open>new_project\<close>; the fresh id and the clock reading it takes are arguments.\<close>

definition GuideHeaders_default :: GuideHeaders where
  "GuideHeaders_default =
     \<lparr>gh_name = [], gh_group = [], gh_subgroup = [], gh_source_version = None, gh_next = []\<rparr>"

definition new_project :: "uuid \<Rightarrow> string \<Rightarrow> string \<Rightarrow> Project" where
  "new_project fresh now name =
     \<lparr>prj_metadata =
        \<lparr>meta_id = fresh, meta_name = name, meta_author = [], meta_description = [],
         meta_version = ''0.1.0'', meta_schema_version = ''1.0.0'',
         meta_game_version = default_game_version, meta_faction = None, meta_race = None,
         meta_class = None, meta_minimum_level = None, meta_maximum_level = None,
         meta_created_at = now, meta_updated_at = now\<rparr>,
      prj_guide_headers = GuideHeaders_default,
      prj_settings = ProjectSettings_default,
      prj_variables = [], prj_npc_library = [], prj_quest_library = [], prj_object_library = [],
      prj_areas = [], prj_operations = [], prj_diagnostics = [], prj_import_metadata = None\<rparr>"

section \<open>The split directory form of a project (project.rs)\<close>

record OperationIndex =
  opix_id :: uuid
  opix_title :: string

record AreaIndex =
  arix_id :: uuid
  arix_name :: string

record ProjectDirIndex =
  pdi_metadata :: ProjectMetadata
  pdi_guide_headers :: GuideHeaders
  pdi_settings :: ProjectSettings
  pdi_variables :: "Variable list"
  pdi_npc_library :: "NPCReference list"
  pdi_quest_library :: "QuestReference list"
  pdi_object_library :: "GameObjectReference list"
  pdi_operations :: "OperationIndex list"
  pdi_areas :: "AreaIndex list"
  pdi_diagnostics :: "Diagnostic list"
  pdi_import_metadata :: "ImportMetadata option"

definition dir_index_of :: "Project \<Rightarrow> ProjectDirIndex" where
  "dir_index_of project =
     \<lparr>pdi_metadata = prj_metadata project,
      pdi_guide_headers = prj_guide_headers project,
      pdi_settings = prj_settings project,
      pdi_variables = prj_variables project,
      pdi_npc_library = prj_npc_library project,
      pdi_quest_library = prj_quest_library project,
      pdi_object_library = prj_object_library project,
      pdi_operations = map (\<lambda>o1. \<lparr>opix_id = op_id o1, opix_title = op_name o1\<rparr>) (prj_operations project),
      pdi_areas = map (\<lambda>a. \<lparr>arix_id = area_id a, arix_name = area_name a\<rparr>) (prj_areas project),
      pdi_diagnostics = prj_diagnostics project,
      pdi_import_metadata = prj_import_metadata project\<rparr>"

definition into_project :: "ProjectDirIndex \<Rightarrow> Operation list \<Rightarrow> Area list \<Rightarrow> Project" where
  "into_project ix operations areas =
     \<lparr>prj_metadata = pdi_metadata ix,
      prj_guide_headers = pdi_guide_headers ix,
      prj_settings = pdi_settings ix,
      prj_variables = pdi_variables ix,
      prj_npc_library = pdi_npc_library ix,
      prj_quest_library = pdi_quest_library ix,
      prj_object_library = pdi_object_library ix,
      prj_areas = areas,
      prj_operations = operations,
      prj_diagnostics = pdi_diagnostics ix,
      prj_import_metadata = pdi_import_metadata ix\<rparr>"

lemma into_project_dir_index_of [simp]:
  "into_project (dir_index_of p) (prj_operations p) (prj_areas p) = p"
  by (simp add: into_project_def dir_index_of_def)

end
