(* ===== verification/Runtime_Model.thy ===== *)
theory Runtime_Model
  imports Authoring
begin

text \<open>
  The ADR-05 runtime artifact, \<^verbatim>\<open>SentinelQuesting/shared/src/runtime\<close>: what the in-game Lua runtime
  loads. Constructors carry an \<open>R\<close> prefix where the authoring model has one of the same name.
\<close>

section \<open>Conditions and waypoints\<close>

datatype RuntimeCondition =
    AlwaysTrue
  | QuestAccepted u32
  | QuestCompleted u32
  | QuestRewarded u32
  | ObjectiveComplete u32 u8
  | LevelAtLeast u8
  | LevelBelow u8
  | HasItem u32
  | ItemCountAtLeast u32 u32
  | GoldAtLeast u64
  | ProfessionSkillAtLeast string u32
  | ItemCooldownReady u32
  | ReputationAtLeast string "32 word"
  | RaceIs string
  | ClassIs string
  | FactionIs string
  | CNot RuntimeCondition
  | CAll "RuntimeCondition list"
  | CAny "RuntimeCondition list"

record RuntimeWaypoint =
  wp_map :: u32
  wp_world_x :: f32
  wp_world_y :: f32
  wp_world_z :: f32

definition RuntimeWaypoint_new :: "u32 \<Rightarrow> f32 \<Rightarrow> f32 \<Rightarrow> f32 \<Rightarrow> RuntimeWaypoint" where
  "RuntimeWaypoint_new m x y z =
     \<lparr>wp_map = m, wp_world_x = x, wp_world_y = y, wp_world_z = z\<rparr>"

section \<open>Actions (action.rs)\<close>

record RuntimeTravel =
  rtravel_destination :: string
  rtravel_position :: RuntimeWaypoint
  rtravel_tolerance :: f32
  rtravel_allow_flight :: bool
  rtravel_timeout :: "u32 option"

record RuntimeAcceptQuest =
  raccept_quest_id :: u32
  raccept_npc_entry :: u32
  raccept_auto_complete_dialog :: bool
  raccept_optional :: bool

record RuntimeTurnInQuest =
  rturnin_quest_id :: u32
  rturnin_npc_entry :: u32
  rturnin_choose_reward :: "u32 option"
  rturnin_optional :: bool

record RuntimeVendor =
  rvendor_npc_entry :: u32
  rvendor_sell_grey :: bool
  rvendor_repair :: bool
  rvendor_buy_items :: "u32 list"
  rvendor_minimum_free_slots :: "u32 option"

record RuntimeRepair =
  rrepair_npc_entry :: u32

record RuntimeTrain =
  rtrain_npc_entry :: u32
  rtrain_spells :: "u32 list"
  rtrain_trainer_type :: "string option"
  rtrain_minimum_level :: "u8 option"

record RuntimeInteractNpc =
  rinteract_npc_entry :: u32
  rinteract_gossip :: "string option"

record RuntimeUseItem =
  ruse_item :: u32
  ruse_target_entry :: "u32 option"

record RuntimeMailbox =
  rmailbox_npc_entry :: u32

record RuntimeBank =
  rbank_npc_entry :: u32

record RuntimeWait =
  rwait_duration :: u32

record RuntimeEscort =
  rescort_npc_entry :: u32
  rescort_area :: "uuid option"
  rescort_timeout :: "u32 option"

record RuntimePatrol =
  rpatrol_area :: "uuid option"
  rpatrol_waypoints :: "RuntimeWaypoint list"

record RuntimeConditionAction =
  rcond_condition :: RuntimeCondition
  rcond_role :: ConditionRole

record RuntimeSetVariable =
  rsetvar_name :: string
  rsetvar_value :: VariableValue

record RuntimeComment =
  rcomment_text :: string

record RuntimeGrind =
  rgrind_polygon :: "uuid option"
  rgrind_targets :: "u32 list"
  rgrind_loot :: bool
  rgrind_timeout :: "u32 option"
  rgrind_minimum_kills :: "u32 option"
  rgrind_maximum_kills :: "u32 option"
  rgrind_stop_condition :: "string option"

record RuntimeKill =
  rkill_creature_entries :: "u32 list"
  rkill_quantity :: "u32 option"
  rkill_loot :: bool
  rkill_ignore_elites :: bool

record RuntimeLoot =
  rloot_object_entry :: u32
  rloot_count :: "u32 option"

record RuntimeFlight =
  rflight_npc_entry :: u32
  rflight_destination :: string

record RuntimeHearth =
  rhearth_innkeeper_entry :: "u32 option"
  rhearth_destination :: "string option"

record RuntimeLearnFlightPath =
  rlearn_npc_entry :: u32

record RuntimeAbandonQuest =
  rabandon_quest_id :: u32

datatype RuntimeAction =
    RTravel RuntimeTravel
  | RAcceptQuest RuntimeAcceptQuest
  | RTurnInQuest RuntimeTurnInQuest
  | RVendor RuntimeVendor
  | RRepair RuntimeRepair
  | RTrain RuntimeTrain
  | RInteractNpc RuntimeInteractNpc
  | RUseItem RuntimeUseItem
  | RMailbox RuntimeMailbox
  | RBank RuntimeBank
  | RWait RuntimeWait
  | REscort RuntimeEscort
  | RPatrol RuntimePatrol
  | RCondition RuntimeConditionAction
  | RSetVariable RuntimeSetVariable
  | RComment RuntimeComment
  | RGrind RuntimeGrind
  | RKill RuntimeKill
  | RLoot RuntimeLoot
  | RFlight RuntimeFlight
  | RHearth RuntimeHearth
  | RLearnFlightPath RuntimeLearnFlightPath
  | RAbandonQuest RuntimeAbandonQuest

record GuardedAction =
  ga_action :: RuntimeAction
  ga_guard :: "RuntimeCondition option"

section \<open>Operations and profiles\<close>

record RuntimeOperation =
  rop_id :: uuid
  rop_name :: string
  rop_entry_conditions :: "RuntimeCondition list"
  rop_exit_conditions :: "RuntimeCondition list"
  rop_actions :: "GuardedAction list"

record RuntimeNpc =
  rnpc_entry :: u32
  rnpc_name :: string
  rnpc_position :: Position
  rnpc_roles :: "string list"

definition RuntimeNpc_new :: "u32 \<Rightarrow> string \<Rightarrow> Position \<Rightarrow> RuntimeNpc" where
  "RuntimeNpc_new entry name position =
     \<lparr>rnpc_entry = entry, rnpc_name = name, rnpc_position = position, rnpc_roles = []\<rparr>"

record RuntimeArea =
  rarea_id :: uuid
  rarea_name :: string
  rarea_polygon :: "RuntimeWaypoint list"
  rarea_tags :: "string list"

record RuntimeQuest =
  rquest_id :: u32
  rquest_title :: string

record RuntimeVariable =
  rvar_id :: uuid
  rvar_name :: string
  rvar_type :: VariableType
  rvar_default_value :: VariableValue
  rvar_current_value :: VariableValue

record RuntimeProfile =
  rp_schema_version :: string
  rp_name :: string
  rp_description :: string
  rp_game :: string
  rp_faction :: "Faction option"
  rp_operations :: "RuntimeOperation list"
  rp_variables :: "RuntimeVariable list"
  rp_areas :: "RuntimeArea list"
  rp_npcs :: "RuntimeNpc list"
  rp_quests :: "RuntimeQuest list"
  rp_content_hash :: string

definition RuntimeProfile_new :: "string \<Rightarrow> RuntimeOperation list \<Rightarrow> RuntimeProfile" where
  "RuntimeProfile_new name operations =
     \<lparr>rp_schema_version = ''1.0.0'', rp_name = name, rp_description = [],
      rp_game = default_game_version, rp_faction = None, rp_operations = operations,
      rp_variables = [], rp_areas = [], rp_npcs = [], rp_quests = [], rp_content_hash = []\<rparr>"

definition total_actions :: "RuntimeProfile \<Rightarrow> nat" where
  "total_actions p = sum_list (map (\<lambda>r. length (rop_actions r)) (rp_operations p))"

text \<open>
  \<open>compute_content_hash\<close>: the polynomial hash of the serialised operations, wrapping at 64 bits,
  printed as sixteen hexadecimal digits. The serialiser is a third-party crate, so the function
  it computes (\<open>None\<close> for an error) is the argument \<open>to_json\<close>.
\<close>

definition hash_bytes :: "u64 \<Rightarrow> string \<Rightarrow> u64" where
  "hash_bytes h bs = foldl (\<lambda>h b. h * 31 + of_char b) h bs"

definition compute_content_hash ::
  "(RuntimeOperation list \<Rightarrow> string option) \<Rightarrow> RuntimeProfile \<Rightarrow> string" where
  "compute_content_hash to_json profile =
     (let ops_json = (case to_json (rp_operations profile) of None \<Rightarrow> [] | Some s \<Rightarrow> s)
      in show_hex_pad 16 (unat (hash_bytes 0 ops_json)))"

lemma length_compute_content_hash [simp]: "length (compute_content_hash j p) = 16"
  by (simp add: compute_content_hash_def Let_def)

end
