(* ===== verification/Kernel_Model.thy ===== *)
theory Kernel_Model
  imports Authoring
begin

text \<open>
  The ADR-07 kernel artifact, \<^verbatim>\<open>SentinelQuesting/shared/src/kernel\<close>: ops, predicates, tasks and the
  profile header, with the hand-written parts of their wire form (digests, magic, finite floats,
  the goal band). Constructors carry a prefix (\<open>Op\<close>, \<open>P\<close>, ...) where another model uses the name.
\<close>

section \<open>Identifiers, magic and digests (ids.rs)\<close>

type_synonym TaskId = u32
type_synonym QuestId = u32
type_synonym ItemId = u32
type_synonym SpellId = u32

definition MAGIC :: "u8 list" where
  "MAGIC = [83, 78, 84, 76]"

definition MAGIC_STR :: string where
  "MAGIC_STR = ''SNTL''"

definition as_bytes :: "string \<Rightarrow> u8 list" where
  "as_bytes s = map of_char s"

text \<open>\<open>magic::serialize\<close> and \<open>magic::deserialize\<close>; the error text is left out.\<close>

definition magic_serialize :: "u8 list \<Rightarrow> string option" where
  "magic_serialize value = (if value \<noteq> MAGIC then None else Some MAGIC_STR)"

definition magic_deserialize :: "string \<Rightarrow> u8 list option" where
  "magic_deserialize raw = (if as_bytes raw = MAGIC then Some MAGIC else None)"

definition lower_digit :: "u8 \<Rightarrow> char" where
  "lower_digit n = ''0123456789abcdef'' ! unat n"

definition hex_encode :: "u8 list \<Rightarrow> string" where
  "hex_encode value =
     concat (map (\<lambda>byte. [lower_digit (drop_bit 4 byte), lower_digit (byte AND 0x0f)]) value)"

definition nibble :: "char \<Rightarrow> u8 option" where
  "nibble c =
     (let byte = (of_char c :: nat)
      in if 48 \<le> byte \<and> byte \<le> 57 then Some (of_nat (byte - 48))
         else if 97 \<le> byte \<and> byte \<le> 102 then Some (of_nat (byte - 97 + 10))
         else None)"

fun hex_decode_pairs :: "string \<Rightarrow> u8 list option" where
  "hex_decode_pairs [] = Some []"
| "hex_decode_pairs [c] = None"
| "hex_decode_pairs (c # d # cs) =
     (case nibble c of
        None \<Rightarrow> None
      | Some high \<Rightarrow>
          (case nibble d of
             None \<Rightarrow> None
           | Some low \<Rightarrow>
               map_option (\<lambda>out. (push_bit 4 high OR low) # out) (hex_decode_pairs cs)))"

definition hex_decode :: "string \<Rightarrow> u8 list option" where
  "hex_decode s = (if length s \<noteq> 64 then None else hex_decode_pairs s)"

section \<open>Finite floats (finite.rs)\<close>

text \<open>
  \<open>finite::serialize\<close> refuses what JSON cannot spell; \<open>None\<close> is the refusal, the accepted value is
  handed to the serialiser unchanged.
\<close>

definition finite_serialize :: "f32 \<Rightarrow> f32 option" where
  "finite_serialize value = (if \<not> f32_is_finite value then None else Some value)"

definition finite_serialize_option :: "f32 option \<Rightarrow> f32 option option" where
  "finite_serialize_option value =
     (case value of Some inner \<Rightarrow> map_option Some (finite_serialize inner) | None \<Rightarrow> Some None)"

section \<open>Ops (op.rs)\<close>

record Point =
  pt_map_id :: u32
  pt_x :: f32
  pt_y :: f32
  pt_z :: "f32 option"

text \<open>The derived \<open>PartialEq\<close> of \<open>Point\<close>: float fields compare with IEEE equality.\<close>

definition f32_opt_eq :: "f32 option \<Rightarrow> f32 option \<Rightarrow> bool" where
  "f32_opt_eq a b =
     (case (a, b) of (None, None) \<Rightarrow> True | (Some x, Some y) \<Rightarrow> f32_eq x y | _ \<Rightarrow> False)"

definition point_eq :: "Point \<Rightarrow> Point \<Rightarrow> bool" where
  "point_eq p q \<longleftrightarrow>
     pt_map_id p = pt_map_id q \<and> f32_eq (pt_x p) (pt_x q) \<and> f32_eq (pt_y p) (pt_y q)
     \<and> f32_opt_eq (pt_z p) (pt_z q)"

record NpcRef =
  nref_entry :: u32
  nref_expect_name :: string
  nref_pos :: "u32 option"

datatype RouteKind = Destination | Corridor | Circuit bool

datatype TravelMode = ModeAny | ModeGround | ModeAir

record Route =
  route_kind :: RouteKind
  route_mode :: TravelMode
  route_points :: "u32 list"
  route_radii :: "u16 list"

datatype GossipPolicy = GossipNone | AutoAdvance | GossipIndex u8 | GossipOptionId u32

datatype BehaviorId =
    BhVendor | BhTrainer | BhFlightPath | BhHearth | BhBank | BhStable | BhCorpse

datatype VendorMode = VendorSell | VendorBuy

datatype FlightMode = FlightFly | FlightDiscover

datatype HearthMode = HearthUse | HearthBind

datatype BankMode = BankWithdraw | BankDeposit

datatype StableMode = StableVisit | StableStore | StableRetrieve

datatype CorpseIntent = Accidental | DeliberateDeath

datatype DelegatePayload =
    DelVendor NpcRef VendorMode "ItemId list" "u32 option"
  | DelTrainer NpcRef "SpellId option"
  | DelFlightPath NpcRef FlightMode "string option"
  | DelHearth HearthMode "NpcRef option"
  | DelBank NpcRef BankMode "ItemId list"
  | DelStable NpcRef StableMode
  | DelCorpse CorpseIntent "u32 option"

record LootRule =
  lr_item :: ItemId
  lr_for_quest :: "QuestId option"

text \<open>
  Struct-like variants list their fields in the source's order: \<open>OpAccept quest repeatable\<close>,
  \<open>OpTurnIn quest any_of reward_choice optional repeatable\<close>, \<open>OpEquip slot item\<close>,
  \<open>OpWait secs label\<close>.
\<close>

datatype Op =
    OpTravel Route
  | OpAccept QuestId bool
  | OpTurnIn QuestId "QuestId list" "u8 option" bool bool
  | OpAbandon "QuestId list"
  | OpUntrackQuest QuestId
  | OpInteract NpcRef GossipPolicy
  | OpUseItem ItemId
  | OpCast SpellId
  | OpDestroyItem ItemId
  | OpEquip u8 ItemId
  | OpEnterVehicle
  | OpWait u16 string
  | OpDelegate BehaviorId DelegatePayload

section \<open>Predicates (predicate.rs)\<close>

datatype Cmp = CmpLt | CmpLe | CmpEq | CmpGe | CmpGt

datatype UnitRef = UnitPlayer | UnitTarget

datatype SkillLine =
    Cooking | Enchanting | Engineering | FirstAid | Herbalism | Lockpicking | Mining | Riding
  | Skinning | Tailoring

datatype Standing =
    StandUnfriendly | StandNeutral | StandFriendly | StandHonored | StandRevered | StandExalted

datatype CooldownKind = CooldownItem | CooldownSpell

datatype AreaKind = Zone | SubArea

datatype ItemStat = Quality | DamagePerSecond

datatype Predicate =
    PAnd "Predicate list"
  | POr "Predicate list"
  | PNot Predicate
  | PQuestComplete QuestId
  | PQuestObjective QuestId u8 u32
  | PAtLocation u32 f32
  | PLevelAtLeast u8
  | PAuraPresent SpellId UnitRef
  | PFlag string
  | PQuestInLog QuestId
  | PQuestTurnedIn QuestId
  | PQuestAvailable QuestId
  | PItemCount ItemId Cmp u32
  | PMoneyCmp Cmp u64
  | PSkillCmp SkillLine Cmp u16
  | PReputationCmp u32 Standing Cmp "32 word"
  | PXpAtLeast u8 "32 word"
  | PCooldownCmp CooldownKind u32 Cmp f32
  | PInArea u32 AreaKind
  | PHearthBoundTo u32
  | PItemStatCmp u8 ItemStat Cmp f32
  | PInGroup Cmp u8
  | PSpellKnown SpellId
  | PLevelAtMost u8

section \<open>The profile header (profile.rs)\<close>

definition SCHEMA_VERSION :: u16 where
  "SCHEMA_VERSION = 1"

datatype Expansion = ExpClassic | ExpTbc | ExpWotlk

datatype Allegiance = Aldor | Scryer

datatype DungeonId =
    Bf | Bfd | Crypts | Dm | Gnomer | Mara | Mt | Ramparts | Rfd | Rfk | Sfk | Sm | Sp | St
  | Stockades | Ub | Ulda | Wc | Zf

datatype ProfileMode = SpeedRoute | QuestGuide | Dungeon DungeonId

record ContentIntegrity =
  ci_content_hash :: "u8 list"
  ci_world_source :: string
  ci_world_build :: string

record Archetype =
  arch_class :: Class
  arch_race :: Race
  arch_faction :: Faction
  arch_expansion :: Expansion
  arch_allegiance :: "Allegiance option"
  arch_hardcore :: bool
  arch_self_found :: bool
  arch_can_fly :: bool
  arch_content_phase :: "u8 option"
  arch_mode :: ProfileMode
  arch_xp_rate_milli :: u32
  arch_hardcore_server :: bool
  arch_season :: "u8 option"

record GuideMeta =
  gm_name :: string
  gm_group :: string
  gm_subgroup :: "string option"
  gm_source_version :: u32
  gm_next :: "string list"

datatype CombatStance = StanceAvoid | StanceDefensive | StanceObjective | StanceAggressive

datatype GroupExpectation = GroupSolo | GroupParty u8 | GroupDungeon

record CombatPolicy =
  cp_stance :: CombatStance
  cp_targets :: "NpcRef list"
  cp_watch_units :: "NpcRef list"
  cp_leash_yards :: u16
  cp_allow_adds :: bool
  cp_expect_group :: GroupExpectation

section \<open>Tasks (task.rs)\<close>

record SourceSpan =
  span_file :: string
  span_line_start :: u32
  span_line_end :: u32

datatype Channel =
    ChMovement | ChFacing | ChCasting | ChTargeting | ChInteraction | ChItems | ChCamera

definition GOAL_BAND_start :: u8 where "GOAL_BAND_start = 30"
definition GOAL_BAND_end :: u8 where "GOAL_BAND_end = 49"

definition in_goal_band :: "u8 \<Rightarrow> bool" where
  "in_goal_band band \<longleftrightarrow> GOAL_BAND_start \<le> band \<and> band \<le> GOAL_BAND_end"

text \<open>\<open>deserialize_band\<close>: the loader refuses a band outside the goal band (\<open>None\<close>).\<close>

definition deserialize_band :: "u8 \<Rightarrow> u8 option" where
  "deserialize_band band = (if \<not> in_goal_band band then None else Some band)"

datatype Lifetime = Exclusive | Background "Channel list" u8 Predicate

datatype CompletionSource = OwnPredicate | LinkedTo TaskId

datatype UnknownPolicy = Block | Defer u16 | TreatFalse | TreatTrue

record Task =
  task_id :: TaskId
  task_deps :: "TaskId list"
  task_blocking :: bool
  task_lifetime :: Lifetime
  task_completion :: CompletionSource
  task_applies_when :: "Predicate option"
  task_complete_when :: "Predicate option"
  task_abort_when :: "Predicate option"
  task_unknown_policy :: UnknownPolicy
  task_ops :: "Op list"
  task_interact_target :: "NpcRef option"
  task_combat :: "CombatPolicy option"
  task_loot_filter :: "LootRule list"
  task_serves_quests :: "QuestId list"
  task_suppress :: "BehaviorId list"
  task_jump_to :: "TaskId option"
  task_source :: SourceSpan

record ProfileDefaults =
  pd_combat :: CombatPolicy
  pd_unknown_policy :: UnknownPolicy

record KernelProfile =
  kp_magic :: "u8 list"
  kp_schema_version :: u16
  kp_schema_hash :: "u8 list"
  kp_tags_used :: "string list"
  kp_integrity :: ContentIntegrity
  kp_archetype :: Archetype
  kp_meta :: GuideMeta
  kp_defaults :: ProfileDefaults
  kp_waypoint_pool :: "Point list"
  kp_tasks :: "Task list"

section \<open>Lemmas on the wire helpers\<close>

lemma in_goal_band_iff: "in_goal_band b \<longleftrightarrow> 30 \<le> unat b \<and> unat b \<le> 49"
  by (simp add: in_goal_band_def GOAL_BAND_start_def GOAL_BAND_end_def word_le_nat_alt)

lemma nibble_table: "list_all (\<lambda>k. nibble (''0123456789abcdef'' ! k) = Some (of_nat k)) [0..<16]"
  by (simp add: upt_rec nibble_def)

lemma nibble_lower_digit: "unat n < 16 \<Longrightarrow> nibble (lower_digit n) = Some n"
  using nibble_table by (auto simp: list_all_iff lower_digit_def)

lemma byte_nibbles: "push_bit 4 (drop_bit 4 b) OR (b AND 0x0f) = (b :: u8)"
proof (rule bit_eqI)
  fix i
  assume "possible_bit TYPE(u8) i"
  then have i: "i < 8" by simp
  have m: "bit (0x0f :: u8) i \<longleftrightarrow> i < 4"
  proof -
    have e: "(0x0f :: u8) = mask 4" by (simp add: mask_eq_exp_minus_1)
    show ?thesis unfolding e using i by (simp only: bit_mask_iff) simp
  qed
  show "bit (push_bit 4 (drop_bit 4 b) OR (b AND 0x0f)) i = bit b i"
    using i m by (auto simp: bit_or_iff bit_and_iff bit_push_bit_iff bit_drop_bit_eq)
qed

lemma unat_drop_bit_4: "unat (drop_bit 4 (b :: u8)) < 16"
proof -
  have "unat (drop_bit 4 b) = unat b div 16" by (subst unat_drop_bit_eq) (simp add: drop_bit_eq_div)
  moreover have "unat b < 256" using unsigned_less [of b] by simp
  ultimately show ?thesis by simp
qed

lemma unat_and_15: "unat ((b :: u8) AND 0x0f) < 16"
  using word_and_le1 [of b "0x0f"] by (simp add: word_le_nat_alt)

lemma hex_decode_pairs_encode: "hex_decode_pairs (hex_encode bs) = Some bs"
  by (induction bs)
    (simp_all add: hex_encode_def nibble_lower_digit unat_drop_bit_4 unat_and_15 byte_nibbles)

lemma length_hex_encode [simp]: "length (hex_encode bs) = 2 * length bs"
  by (induction bs) (simp_all add: hex_encode_def)

end
