(* ===== verification/Condition.thy ===== *)
theory Condition
  imports Runtime_Model
begin

text \<open>
  The condition language of \<^verbatim>\<open>SentinelQuesting/compiler/src/condition.rs\<close>: the lexer, the recursive
  descent parser with its two resource limits, and the ADR-05 target of the parser.

  The Rust parser is generic over a \<open>ConditionSink\<close>; here the sink is a record of functions that
  is passed along. The parser state \<open>pos\<close> is the list of tokens not read yet, and \<open>depth\<close>, which the
  code increments on the way in and decrements on the way out of a nesting level, is an argument.
  The four mutually recursive parser methods take fuel; \<open>parse_or_enough_fuel\<close> shows that
  four units per token and four more always suffice.
\<close>

section \<open>Sinks\<close>

record ('o, 'e) ConditionSink =
  sk_any :: "'o list \<Rightarrow> 'o"
  sk_all :: "'o list \<Rightarrow> 'o"
  sk_not :: "'o \<Rightarrow> 'o"
  sk_leaf :: "string \<Rightarrow> int list \<Rightarrow> 'e + 'o"
  sk_from :: "string \<Rightarrow> 'e"

section \<open>The lexer\<close>

definition MAX_CONDITION_DEPTH :: nat where "MAX_CONDITION_DEPTH = 64"
definition MAX_CONDITION_TOKENS :: nat where "MAX_CONDITION_TOKENS = 4096"

datatype Token =
    LParen | RParen | Comma | TAnd | TOr | TNot | Ident string | Number int

definition u_digit :: "uchar \<Rightarrow> bool" where
  "u_digit c \<longleftrightarrow> (case c of [b] \<Rightarrow> ascii_digit b | _ \<Rightarrow> False)"

definition u_alpha :: "uchar \<Rightarrow> bool" where
  "u_alpha c \<longleftrightarrow> (case c of [b] \<Rightarrow> ascii_lower b \<or> ascii_upper b | _ \<Rightarrow> False)"

definition u_ident :: "uchar \<Rightarrow> bool" where
  "u_ident c \<longleftrightarrow> u_alpha c \<or> u_digit c \<or> c = ''_''"

definition next_is :: "(uchar \<Rightarrow> bool) \<Rightarrow> uchar list \<Rightarrow> bool" where
  "next_is p cs \<longleftrightarrow> (case cs of [] \<Rightarrow> False | d # _ \<Rightarrow> p d)"

definition invalid_number_msg :: "string \<Rightarrow> string" where
  "invalid_number_msg text = ''invalid number '' @ [CHR 0x27] @ text @ [CHR 0x27]"

definition unexpected_char_msg :: "uchar \<Rightarrow> nat \<Rightarrow> string" where
  "unexpected_char_msg c i =
     ''unexpected character '' @ [CHR 0x27] @ c @ [CHR 0x27] @ '' at offset '' @ show_nat i"

text \<open>\<open>tokenize_at i cs\<close> reads the characters \<open>cs\<close> that start at offset \<open>i\<close> of the input.\<close>

function tokenize_at :: "nat \<Rightarrow> uchar list \<Rightarrow> string + Token list" where
  "tokenize_at i [] = Inr []"
| "tokenize_at i (c # cs) =
     (if is_whitespace c then tokenize_at (i + 1) cs
      else if c = ''('' then map_res ((#) LParen) (tokenize_at (i + 1) cs)
      else if c = '')'' then map_res ((#) RParen) (tokenize_at (i + 1) cs)
      else if c = '','' then map_res ((#) Comma) (tokenize_at (i + 1) cs)
      else if c = ''&'' \<and> next_is (\<lambda>d. d = ''&'') cs
        then map_res ((#) TAnd) (tokenize_at (i + 2) (drop 1 cs))
      else if c = ''|'' \<and> next_is (\<lambda>d. d = ''|'') cs
        then map_res ((#) TOr) (tokenize_at (i + 2) (drop 1 cs))
      else if u_digit c \<or> c = ''-'' \<and> next_is u_digit cs
        then (let text = concat (c # takeWhile u_digit cs)
              in case parse_i64 text of
                   None \<Rightarrow> Inl (invalid_number_msg text)
                 | Some n \<Rightarrow>
                     map_res ((#) (Number n))
                       (tokenize_at (i + 1 + length (takeWhile u_digit cs)) (dropWhile u_digit cs)))
      else if u_alpha c
        then (let text = concat (c # takeWhile u_ident cs)
              in map_res ((#) (if text = ''NOT'' then TNot else Ident text))
                   (tokenize_at (i + 1 + length (takeWhile u_ident cs)) (dropWhile u_ident cs)))
      else Inl (unexpected_char_msg c i))"
  by pat_completeness auto
termination
  by (relation "measure (\<lambda>(i, cs). length cs)") (auto simp: le_imp_less_Suc length_dropWhile_le)

definition tokenize :: "string \<Rightarrow> string + Token list" where
  "tokenize input = tokenize_at 0 (utf8_chars input)"

section \<open>The parser\<close>

text \<open>The derived \<open>Debug\<close> text of \<open>Option<&Token>\<close>, which the error messages quote.\<close>

definition show_token :: "Token \<Rightarrow> string" where
  "show_token t =
     (case t of
        LParen \<Rightarrow> ''LParen'' | RParen \<Rightarrow> ''RParen'' | Comma \<Rightarrow> ''Comma''
      | TAnd \<Rightarrow> ''And'' | TOr \<Rightarrow> ''Or'' | TNot \<Rightarrow> ''Not''
      | Ident s \<Rightarrow> ''Ident('' @ [CHR 0x22] @ s @ [CHR 0x22] @ '')''
      | Number n \<Rightarrow> ''Number('' @ show_int n @ '')'')"

definition show_found :: "Token list \<Rightarrow> string" where
  "show_found ts =
     (case ts of [] \<Rightarrow> ''None'' | t # _ \<Rightarrow> ''Some('' @ show_token t @ '')'')"

definition depth_msg :: string where
  "depth_msg = ''condition expression exceeds max nesting depth ('' @ show_nat MAX_CONDITION_DEPTH @ '')''"

definition close_msg :: "Token list \<Rightarrow> string" where
  "close_msg ts = ''expected closing '' @ [CHR 0x27] @ '')'' @ [CHR 0x27] @ '', found '' @ show_found ts"

definition expression_msg :: "Token list \<Rightarrow> string" where
  "expression_msg ts = ''expected an expression, found '' @ show_found ts"

definition open_msg :: "string \<Rightarrow> string" where
  "open_msg name =
     ''expected '' @ [CHR 0x27] @ ''('' @ [CHR 0x27] @ '' after predicate '' @ [CHR 0x27] @ name @ [CHR 0x27]"

definition argument_msg :: "string \<Rightarrow> Token list \<Rightarrow> string" where
  "argument_msg name ts =
     ''expected a numeric argument in '' @ [CHR 0x27] @ name @ ''(...)'' @ [CHR 0x27] @ '', found ''
     @ show_found ts"

definition close_args_msg :: "string \<Rightarrow> string" where
  "close_args_msg name =
     ''expected '' @ [CHR 0x27] @ '')'' @ [CHR 0x27] @ '' to close '' @ [CHR 0x27] @ name @ ''(...)'' @ [CHR 0x27]"

text \<open>The argument loop of \<open>parse_predicate\<close>: numbers separated by commas.\<close>

fun parse_args :: "string \<Rightarrow> int list \<Rightarrow> Token list \<Rightarrow> string + (int list \<times> Token list)" where
  "parse_args name args [] = Inl (argument_msg name [])"
| "parse_args name args (t # ts) =
     (case t of
        Number n \<Rightarrow>
          (case ts of
             Comma # ts' \<Rightarrow> parse_args name (args @ [n]) ts'
           | _ \<Rightarrow> Inr (args @ [n], ts))
      | _ \<Rightarrow> Inl (argument_msg name (t # ts)))"

definition parse_predicate ::
  "('o, 'e) ConditionSink \<Rightarrow> string \<Rightarrow> Token list \<Rightarrow> 'e + ('o \<times> Token list)" where
  "parse_predicate S name ts =
     (case ts of
        LParen # ts1 \<Rightarrow>
          (case (case ts1 of RParen # _ \<Rightarrow> Inr ([], ts1) | _ \<Rightarrow> parse_args name [] ts1) of
             Inl m \<Rightarrow> Inl (sk_from S m)
           | Inr (args, ts2) \<Rightarrow>
               (case ts2 of
                  RParen # ts3 \<Rightarrow> map_res (\<lambda>out. (out, ts3)) (sk_leaf S name args)
                | _ \<Rightarrow> Inl (sk_from S (close_args_msg name))))
      | _ \<Rightarrow> Inl (sk_from S (open_msg name)))"

text \<open>\<open>peek\<close> and, for a token that is there, \<open>advance\<close>; \<open>?\<close> on a parser result.\<close>

definition peek :: "Token list \<Rightarrow> Token option" where
  "peek ts = (case ts of [] \<Rightarrow> None | t # _ \<Rightarrow> Some t)"

definition advance :: "Token list \<Rightarrow> Token list" where
  "advance ts = drop 1 ts"

definition and_then ::
  "('e + 'o \<times> Token list) option \<Rightarrow> ('o \<Rightarrow> Token list \<Rightarrow> ('e + 'o \<times> Token list) option)
     \<Rightarrow> ('e + 'o \<times> Token list) option" where
  "and_then r f =
     (case r of
        None \<Rightarrow> None
      | Some (Inl e) \<Rightarrow> Some (Inl e)
      | Some (Inr (x, ts)) \<Rightarrow> f x ts)"

definition finish :: "('o list \<Rightarrow> 'o) \<Rightarrow> 'o list \<Rightarrow> 'o" where
  "finish combine terms = (if length terms = 1 then last terms else combine terms)"

definition close_paren ::
  "('o, 'e) ConditionSink \<Rightarrow> 'o \<Rightarrow> Token list \<Rightarrow> ('e + 'o \<times> Token list) option" where
  "close_paren S x ts =
     (if peek ts = Some RParen then Some (Inr (x, advance ts))
      else Some (Inl (sk_from S (close_msg ts))))"

definition parse_leaf ::
  "('o, 'e) ConditionSink \<Rightarrow> Token list \<Rightarrow> ('e + 'o \<times> Token list) option" where
  "parse_leaf S ts =
     (case peek ts of
        Some (Ident name) \<Rightarrow> Some (parse_predicate S name (advance ts))
      | _ \<Rightarrow> Some (Inl (sk_from S (expression_msg ts))))"

text \<open>
  \<open>parse_or\<close>, \<open>parse_and\<close>, \<open>parse_not\<close> and \<open>parse_primary\<close>; the two \<open>while\<close> loops are \<open>or_rest\<close> and
  \<open>and_rest\<close>. The result is \<open>None\<close> only when the fuel runs out.
\<close>

function (sequential) parse_or :: "('o, 'e) ConditionSink \<Rightarrow> nat \<Rightarrow> nat \<Rightarrow> Token list \<Rightarrow> ('e + 'o \<times> Token list) option"
and or_rest :: "('o, 'e) ConditionSink \<Rightarrow> nat \<Rightarrow> nat \<Rightarrow> 'o list \<Rightarrow> Token list \<Rightarrow> ('e + 'o \<times> Token list) option"
and parse_and :: "('o, 'e) ConditionSink \<Rightarrow> nat \<Rightarrow> nat \<Rightarrow> Token list \<Rightarrow> ('e + 'o \<times> Token list) option"
and and_rest :: "('o, 'e) ConditionSink \<Rightarrow> nat \<Rightarrow> nat \<Rightarrow> 'o list \<Rightarrow> Token list \<Rightarrow> ('e + 'o \<times> Token list) option"
and parse_not :: "('o, 'e) ConditionSink \<Rightarrow> nat \<Rightarrow> nat \<Rightarrow> Token list \<Rightarrow> ('e + 'o \<times> Token list) option"
and parse_primary :: "('o, 'e) ConditionSink \<Rightarrow> nat \<Rightarrow> nat \<Rightarrow> Token list \<Rightarrow> ('e + 'o \<times> Token list) option"
where
  "parse_or S 0 d ts = None"
| "parse_or S (Suc n) d ts = and_then (parse_and S n d ts) (\<lambda>x ts'. or_rest S n d [x] ts')"
| "or_rest S 0 d terms ts = None"
| "or_rest S (Suc n) d terms ts =
     (if peek ts = Some TOr
      then and_then (parse_and S n d (advance ts)) (\<lambda>x ts'. or_rest S n d (terms @ [x]) ts')
      else Some (Inr (finish (sk_any S) terms, ts)))"
| "parse_and S 0 d ts = None"
| "parse_and S (Suc n) d ts = and_then (parse_not S n d ts) (\<lambda>x ts'. and_rest S n d [x] ts')"
| "and_rest S 0 d terms ts = None"
| "and_rest S (Suc n) d terms ts =
     (if peek ts = Some TAnd
      then and_then (parse_not S n d (advance ts)) (\<lambda>x ts'. and_rest S n d (terms @ [x]) ts')
      else Some (Inr (finish (sk_all S) terms, ts)))"
| "parse_not S 0 d ts = None"
| "parse_not S (Suc n) d ts =
     (if peek ts = Some TNot
      then (if d + 1 > MAX_CONDITION_DEPTH then Some (Inl (sk_from S depth_msg))
            else and_then (parse_not S n (d + 1) (advance ts)) (\<lambda>x ts'. Some (Inr (sk_not S x, ts'))))
      else parse_primary S n d ts)"
| "parse_primary S 0 d ts = None"
| "parse_primary S (Suc n) d ts =
     (if peek ts = Some LParen
      then (if d + 1 > MAX_CONDITION_DEPTH then Some (Inl (sk_from S depth_msg))
            else and_then (parse_or S n (d + 1) (advance ts)) (\<lambda>x ts'. close_paren S x ts'))
      else parse_leaf S ts)"
  by pat_completeness auto
termination
  by size_change

definition parser_fuel :: "Token list \<Rightarrow> nat" where
  "parser_fuel ts = 4 * length ts + 4"

definition empty_msg :: string where
  "empty_msg = ''condition expression is empty''"

definition token_count_msg :: string where
  "token_count_msg = ''condition expression exceeds max token count ('' @ show_nat MAX_CONDITION_TOKENS @ '')''"

definition trailing_msg :: "nat \<Rightarrow> string" where
  "trailing_msg pos = ''unexpected trailing input after token '' @ show_nat pos"

text \<open>\<open>parse_with\<close>; the last branch, for fuel that has run out, is never taken (\<open>parse_or_enough_fuel\<close>).\<close>

definition parse_with :: "('o, 'e) ConditionSink \<Rightarrow> string \<Rightarrow> 'e + 'o" where
  "parse_with S input =
     (let trimmed = trim input
      in if trimmed = [] then Inl (sk_from S empty_msg)
         else case tokenize trimmed of
                Inl m \<Rightarrow> Inl (sk_from S m)
              | Inr tokens \<Rightarrow>
                  if length tokens > MAX_CONDITION_TOKENS then Inl (sk_from S token_count_msg)
                  else case parse_or S (parser_fuel tokens) 0 tokens of
                         Some (Inl e) \<Rightarrow> Inl e
                       | Some (Inr (result, rest)) \<Rightarrow>
                           if rest \<noteq> [] then Inl (sk_from S (trailing_msg (length tokens - length rest)))
                           else Inr result
                       | None \<Rightarrow> Inl (sk_from S ''out of fuel''))"

section \<open>Conversions shared by the two targets\<close>

definition range_msg :: "string \<Rightarrow> int \<Rightarrow> string \<Rightarrow> string" where
  "range_msg what n ty = what @ '' value '' @ show_int n @ '' exceeds '' @ ty @ '' range''"

definition as_u32 :: "int \<Rightarrow> string \<Rightarrow> string + u32" where
  "as_u32 n what = (if 0 \<le> n \<and> n < 2 ^ 32 then Inr (of_int n) else Inl (range_msg what n ''u32''))"

definition as_u8 :: "int \<Rightarrow> string \<Rightarrow> string + u8" where
  "as_u8 n what = (if 0 \<le> n \<and> n < 2 ^ 8 then Inr (of_int n) else Inl (range_msg what n ''u8''))"

definition as_i32 :: "int \<Rightarrow> string \<Rightarrow> string + 32 word" where
  "as_i32 n what =
     (if - (2 ^ 31) \<le> n \<and> n < 2 ^ 31 then Inr (of_int n) else Inl (range_msg what n ''i32''))"

definition unknown_predicate_msg :: "string \<Rightarrow> int list \<Rightarrow> string" where
  "unknown_predicate_msg name args =
     ''unknown predicate '' @ [CHR 0x27] @ name @ [CHR 0x27] @ '' with '' @ show_nat (length args)
     @ '' argument(s)''"

fun bind_res :: "'e + 'a \<Rightarrow> ('a \<Rightarrow> 'e + 'b) \<Rightarrow> 'e + 'b" where
  "bind_res (Inl e) f = Inl e"
| "bind_res (Inr a) f = f a"

lemma bind_res_Inr_iff [simp]: "bind_res r f = Inr b \<longleftrightarrow> (\<exists>a. r = Inr a \<and> f a = Inr b)"
  by (cases r) auto

section \<open>The ADR-05 target\<close>

definition runtime_leaf :: "string \<Rightarrow> int list \<Rightarrow> string + RuntimeCondition" where
  "runtime_leaf name args =
     (case args of
        [a] \<Rightarrow>
          if name = ''QuestAccepted'' then map_res QuestAccepted (as_u32 a ''quest id'')
          else if name = ''QuestCompleted'' then map_res QuestCompleted (as_u32 a ''quest id'')
          else if name = ''QuestRewarded'' then map_res QuestRewarded (as_u32 a ''quest id'')
          else if name = ''LevelAtLeast'' then map_res LevelAtLeast (as_u8 a ''level'')
          else Inl (unknown_predicate_msg name args)
      | [a, b] \<Rightarrow>
          if name = ''Objective''
            then bind_res (as_u32 a ''quest id'') (\<lambda>q. map_res (ObjectiveComplete q) (as_u8 b ''objective index''))
          else if name = ''ItemCount''
            then bind_res (as_u32 a ''item id'') (\<lambda>i. map_res (ItemCountAtLeast i) (as_u32 b ''count''))
          else if name = ''XpAtLeast'' then map_res LevelAtLeast (as_u8 a ''level'')
          else Inl (unknown_predicate_msg name args)
      | _ \<Rightarrow> Inl (unknown_predicate_msg name args))"

definition RuntimeConditionSink :: "(RuntimeCondition, string) ConditionSink" where
  "RuntimeConditionSink =
     \<lparr>sk_any = CAny, sk_all = CAll, sk_not = CNot, sk_leaf = runtime_leaf, sk_from = (\<lambda>m. m)\<rparr>"

definition parse_condition :: "string \<Rightarrow> string + RuntimeCondition" where
  "parse_condition input = parse_with RuntimeConditionSink input"

section \<open>Fuel\<close>

declare parse_or.simps [simp del] or_rest.simps [simp del] parse_and.simps [simp del]
  and_rest.simps [simp del] parse_not.simps [simp del] parse_primary.simps [simp del]

lemmas parser_0 = parse_or.simps(1) or_rest.simps(1) parse_and.simps(1) and_rest.simps(1)
  parse_not.simps(1) parse_primary.simps(1)
lemmas parser_Suc = parse_or.simps(2) or_rest.simps(2) parse_and.simps(2) and_rest.simps(2)
  parse_not.simps(2) parse_primary.simps(2)

lemma and_then_simps [simp]:
  "and_then None f = None"
  "and_then (Some (Inl e)) f = Some (Inl e)"
  "and_then (Some (Inr (x, ts))) f = f x ts"
  by (simp_all add: and_then_def)

lemma and_then_ok_iff [simp]:
  "and_then r f = Some (Inr y) \<longleftrightarrow> (\<exists>x ts. r = Some (Inr (x, ts)) \<and> f x ts = Some (Inr y))"
  by (auto simp: and_then_def split: option.splits sum.splits)

lemma and_then_None_iff [simp]:
  "and_then r f = None \<longleftrightarrow> r = None \<or> (\<exists>x ts. r = Some (Inr (x, ts)) \<and> f x ts = None)"
  by (auto simp: and_then_def split: option.splits sum.splits)

lemma and_then_mono:
  assumes "and_then r f = Some v" and "\<And>w. r = Some w \<Longrightarrow> r' = Some w"
    and "\<And>x ts w. f x ts = Some w \<Longrightarrow> f' x ts = Some w"
  shows "and_then r' f' = Some v"
proof (cases r)
  case None
  with assms(1) show ?thesis by simp
next
  case (Some w)
  with assms(2) have "r' = Some w" by blast
  with Some assms(1,3) show ?thesis
    by (cases w) auto
qed

lemma peek_Some_iff: "peek ts = Some t \<longleftrightarrow> ts = t # advance ts"
  by (cases ts) (auto simp: peek_def advance_def)

lemma peek_simps [simp]: "peek [] = None" "peek (t # ts) = Some t" "advance (t # ts) = ts"
  by (simp_all add: peek_def advance_def)

lemma length_advance: "peek ts = Some t \<Longrightarrow> length ts = Suc (length (advance ts))"
  by (cases ts) auto

lemma close_paren_ok [simp]:
  "close_paren S x ts = Some (Inr (y, r)) \<longleftrightarrow> ts = RParen # r \<and> y = x"
  by (cases ts) (auto simp: close_paren_def)

lemma close_paren_not_None [simp]: "close_paren S x ts \<noteq> None"
  by (simp add: close_paren_def)

lemma parse_leaf_not_None [simp]: "parse_leaf S ts \<noteq> None"
  by (simp add: parse_leaf_def split: option.splits Token.splits)

lemma parse_fuel_mono:
  "(\<forall>d ts v. parse_or S n d ts = Some v \<longrightarrow> parse_or S (Suc n) d ts = Some v)
   \<and> (\<forall>d a ts v. or_rest S n d a ts = Some v \<longrightarrow> or_rest S (Suc n) d a ts = Some v)
   \<and> (\<forall>d ts v. parse_and S n d ts = Some v \<longrightarrow> parse_and S (Suc n) d ts = Some v)
   \<and> (\<forall>d a ts v. and_rest S n d a ts = Some v \<longrightarrow> and_rest S (Suc n) d a ts = Some v)
   \<and> (\<forall>d ts v. parse_not S n d ts = Some v \<longrightarrow> parse_not S (Suc n) d ts = Some v)
   \<and> (\<forall>d ts v. parse_primary S n d ts = Some v \<longrightarrow> parse_primary S (Suc n) d ts = Some v)"
proof (induction n)
  case 0
  show ?case by (simp add: parser_0)
next
  case (Suc n)
  then have IH: "\<And>d ts v. parse_or S n d ts = Some v \<Longrightarrow> parse_or S (Suc n) d ts = Some v"
    "\<And>d a ts v. or_rest S n d a ts = Some v \<Longrightarrow> or_rest S (Suc n) d a ts = Some v"
    "\<And>d ts v. parse_and S n d ts = Some v \<Longrightarrow> parse_and S (Suc n) d ts = Some v"
    "\<And>d a ts v. and_rest S n d a ts = Some v \<Longrightarrow> and_rest S (Suc n) d a ts = Some v"
    "\<And>d ts v. parse_not S n d ts = Some v \<Longrightarrow> parse_not S (Suc n) d ts = Some v"
    "\<And>d ts v. parse_primary S n d ts = Some v \<Longrightarrow> parse_primary S (Suc n) d ts = Some v"
    by blast+
  show ?case
  proof (intro conjI allI impI)
    fix d ts v assume h: "parse_or S (Suc n) d ts = Some v"
    show "parse_or S (Suc (Suc n)) d ts = Some v"
      using h [unfolded parser_Suc(1)] by (subst parser_Suc(1)) (auto elim!: and_then_mono intro: IH)
  next
    fix d a ts v assume h: "or_rest S (Suc n) d a ts = Some v"
    show "or_rest S (Suc (Suc n)) d a ts = Some v"
      using h [unfolded parser_Suc(2)] by (subst parser_Suc(2)) (auto split: if_splits elim!: and_then_mono intro: IH)
  next
    fix d ts v assume h: "parse_and S (Suc n) d ts = Some v"
    show "parse_and S (Suc (Suc n)) d ts = Some v"
      using h [unfolded parser_Suc(3)] by (subst parser_Suc(3)) (auto elim!: and_then_mono intro: IH)
  next
    fix d a ts v assume h: "and_rest S (Suc n) d a ts = Some v"
    show "and_rest S (Suc (Suc n)) d a ts = Some v"
      using h [unfolded parser_Suc(4)] by (subst parser_Suc(4)) (auto split: if_splits elim!: and_then_mono intro: IH)
  next
    fix d ts v assume h: "parse_not S (Suc n) d ts = Some v"
    show "parse_not S (Suc (Suc n)) d ts = Some v"
      using h [unfolded parser_Suc(5)] by (subst parser_Suc(5)) (auto split: if_splits elim!: and_then_mono intro: IH)
  next
    fix d ts v assume h: "parse_primary S (Suc n) d ts = Some v"
    show "parse_primary S (Suc (Suc n)) d ts = Some v"
      using h [unfolded parser_Suc(6)] by (subst parser_Suc(6)) (auto split: if_splits elim!: and_then_mono intro: IH)
  qed
qed

lemma parse_or_fuel_le:
  assumes "parse_or S m d ts = Some v" and "m \<le> n"
  shows "parse_or S n d ts = Some v"
  using assms(2,1) by (induction rule: dec_induct) (simp_all add: parse_fuel_mono)

lemma or_rest_fuel_le:
  assumes "or_rest S m d a ts = Some v" and "m \<le> n"
  shows "or_rest S n d a ts = Some v"
  using assms(2,1) by (induction rule: dec_induct) (simp_all add: parse_fuel_mono)

lemma parse_and_fuel_le:
  assumes "parse_and S m d ts = Some v" and "m \<le> n"
  shows "parse_and S n d ts = Some v"
  using assms(2,1) by (induction rule: dec_induct) (simp_all add: parse_fuel_mono)

lemma and_rest_fuel_le:
  assumes "and_rest S m d a ts = Some v" and "m \<le> n"
  shows "and_rest S n d a ts = Some v"
  using assms(2,1) by (induction rule: dec_induct) (simp_all add: parse_fuel_mono)

lemma parse_not_fuel_le:
  assumes "parse_not S m d ts = Some v" and "m \<le> n"
  shows "parse_not S n d ts = Some v"
  using assms(2,1) by (induction rule: dec_induct) (simp_all add: parse_fuel_mono)

lemma parse_primary_fuel_le:
  assumes "parse_primary S m d ts = Some v" and "m \<le> n"
  shows "parse_primary S n d ts = Some v"
  using assms(2,1) by (induction rule: dec_induct) (simp_all add: parse_fuel_mono)

lemma parse_args_shorter: "parse_args name a ts = Inr (b, r) \<Longrightarrow> length r < length ts"
proof (induction name a ts rule: parse_args.induct)
  case (1 name args)
  then show ?case by simp
next
  case (2 name args t ts)
  then show ?case
    by (fastforce split: Token.splits list.splits)
qed

lemma parse_predicate_shorter:
  "parse_predicate S name ts = Inr (x, r) \<Longrightarrow> length r < length ts"
  by (auto simp: parse_predicate_def split: list.splits Token.splits sum.splits dest!: parse_args_shorter)

lemma parse_leaf_shorter: "parse_leaf S ts = Some (Inr (x, r)) \<Longrightarrow> length r < length ts"
  by (cases ts) (auto simp: parse_leaf_def split: Token.splits dest: parse_predicate_shorter)

lemma parse_consumes:
  "(\<forall>d ts x r. parse_or S n d ts = Some (Inr (x, r)) \<longrightarrow> length r < length ts)
   \<and> (\<forall>d a ts x r. or_rest S n d a ts = Some (Inr (x, r)) \<longrightarrow> length r \<le> length ts)
   \<and> (\<forall>d ts x r. parse_and S n d ts = Some (Inr (x, r)) \<longrightarrow> length r < length ts)
   \<and> (\<forall>d a ts x r. and_rest S n d a ts = Some (Inr (x, r)) \<longrightarrow> length r \<le> length ts)
   \<and> (\<forall>d ts x r. parse_not S n d ts = Some (Inr (x, r)) \<longrightarrow> length r < length ts)
   \<and> (\<forall>d ts x r. parse_primary S n d ts = Some (Inr (x, r)) \<longrightarrow> length r < length ts)"
proof (induction n)
  case 0
  show ?case by (simp add: parser_0)
next
  case (Suc n)
  then have IH: "\<And>d ts x r. parse_or S n d ts = Some (Inr (x, r)) \<Longrightarrow> length r < length ts"
    "\<And>d a ts x r. or_rest S n d a ts = Some (Inr (x, r)) \<Longrightarrow> length r \<le> length ts"
    "\<And>d ts x r. parse_and S n d ts = Some (Inr (x, r)) \<Longrightarrow> length r < length ts"
    "\<And>d a ts x r. and_rest S n d a ts = Some (Inr (x, r)) \<Longrightarrow> length r \<le> length ts"
    "\<And>d ts x r. parse_not S n d ts = Some (Inr (x, r)) \<Longrightarrow> length r < length ts"
    "\<And>d ts x r. parse_primary S n d ts = Some (Inr (x, r)) \<Longrightarrow> length r < length ts"
    by simp_all
  show ?case
    by (intro conjI allI impI; unfold parser_Suc)
      (auto split: if_splits dest!: IH length_advance dest: parse_leaf_shorter)
qed

lemma parse_or_enough_fuel_aux:
  "(\<forall>d ts. 4 * length ts + 4 \<le> n \<longrightarrow> parse_or S n d ts \<noteq> None)
   \<and> (\<forall>d a ts. 4 * length ts + 1 \<le> n \<longrightarrow> or_rest S n d a ts \<noteq> None)
   \<and> (\<forall>d ts. 4 * length ts + 3 \<le> n \<longrightarrow> parse_and S n d ts \<noteq> None)
   \<and> (\<forall>d a ts. 4 * length ts + 1 \<le> n \<longrightarrow> and_rest S n d a ts \<noteq> None)
   \<and> (\<forall>d ts. 4 * length ts + 2 \<le> n \<longrightarrow> parse_not S n d ts \<noteq> None)
   \<and> (\<forall>d ts. 4 * length ts + 1 \<le> n \<longrightarrow> parse_primary S n d ts \<noteq> None)"
proof (induction n)
  case 0
  show ?case by simp
next
  case (Suc n)
  then have IH: "\<And>d ts. parse_or S n d ts = None \<Longrightarrow> n < 4 * length ts + 4"
    "\<And>d a ts. or_rest S n d a ts = None \<Longrightarrow> n < 4 * length ts + 1"
    "\<And>d ts. parse_and S n d ts = None \<Longrightarrow> n < 4 * length ts + 3"
    "\<And>d a ts. and_rest S n d a ts = None \<Longrightarrow> n < 4 * length ts + 1"
    "\<And>d ts. parse_not S n d ts = None \<Longrightarrow> n < 4 * length ts + 2"
    "\<And>d ts. parse_primary S n d ts = None \<Longrightarrow> n < 4 * length ts + 1"
    by (meson not_le)+
  have C: "\<And>d ts x r. parse_or S n d ts = Some (Inr (x, r)) \<Longrightarrow> length r < length ts"
    "\<And>d ts x r. parse_and S n d ts = Some (Inr (x, r)) \<Longrightarrow> length r < length ts"
    "\<And>d ts x r. parse_not S n d ts = Some (Inr (x, r)) \<Longrightarrow> length r < length ts"
    using parse_consumes [of S n] by simp_all
  show ?case
    by (intro conjI allI impI notI; unfold parser_Suc)
      (auto split: if_splits dest!: IH C length_advance)
qed

lemma parse_or_enough_fuel: "\<exists>v. parse_or S (parser_fuel ts) d ts = Some v"
  using parse_or_enough_fuel_aux [of "parser_fuel ts" S] by (auto simp: parser_fuel_def)

end
