(* ===== verification/Condition_Spec.thy ===== *)
theory Condition_Spec
  imports Condition
begin

text \<open>
  What the condition parser promises. The reference is an abstract syntax \<open>cexpr\<close> with a printer
  \<open>pr\<close> that follows the documented precedences (\<open>NOT\<close> over \<open>&&\<close> over \<open>||\<close>) and \<open>build\<close>, which maps an
  expression to the condition type of a sink. The parser inverts the printer for every
  expression whose nesting stays within \<open>MAX_CONDITION_DEPTH\<close>; every
  sink builds from one syntax tree, so a sink whose constructors mean what their names say returns a
  condition with the meaning of that tree (locale \<open>condition_semantics\<close>); and the height of what is
  built is bounded (locale \<open>sink_height\<close>), which is what the nesting limit is for.
\<close>

section \<open>Abstract syntax\<close>

datatype cexpr =
    ELeaf string "int list"
  | ENot cexpr
  | EAll "cexpr list"
  | EAny "cexpr list"

fun build :: "('o, 'e) ConditionSink \<Rightarrow> cexpr \<Rightarrow> 'o option" where
  "build S (ELeaf name args) = (case sk_leaf S name args of Inl _ \<Rightarrow> None | Inr x \<Rightarrow> Some x)"
| "build S (ENot e) = map_option (sk_not S) (build S e)"
| "build S (EAll es) = map_option (sk_all S) (those (map (build S) es))"
| "build S (EAny es) = map_option (sk_any S) (those (map (build S) es))"

fun meaning :: "(string \<Rightarrow> int list \<Rightarrow> bool) \<Rightarrow> cexpr \<Rightarrow> bool" where
  "meaning v (ELeaf name args) = v name args"
| "meaning v (ENot e) = (\<not> meaning v e)"
| "meaning v (EAll es) = list_all (meaning v) es"
| "meaning v (EAny es) = list_ex (meaning v) es"

fun sep_by :: "Token \<Rightarrow> Token list list \<Rightarrow> Token list" where
  "sep_by t [] = []"
| "sep_by t [ts] = ts"
| "sep_by t (ts # us # uss) = ts @ t # sep_by t (us # uss)"

definition parens :: "bool \<Rightarrow> Token list \<Rightarrow> Token list" where
  "parens b ts = (if b then LParen # ts @ [RParen] else ts)"

definition arg_tokens :: "int list \<Rightarrow> Token list" where
  "arg_tokens args = sep_by Comma (map (\<lambda>n. [Number n]) args)"

text \<open>\<open>pr k e\<close> prints \<open>e\<close> where an operand of level \<open>k\<close> is expected: 0 for \<open>||\<close>, 1 for \<open>&&\<close>, 2 for \<open>NOT\<close>.\<close>

fun pr :: "nat \<Rightarrow> cexpr \<Rightarrow> Token list" where
  "pr k (ELeaf name args) = Ident name # LParen # arg_tokens args @ [RParen]"
| "pr k (ENot e) = TNot # pr 2 e"
| "pr k (EAll es) = parens (k > 1) (sep_by TAnd (map (pr 2) es))"
| "pr k (EAny es) = parens (k > 0) (sep_by TOr (map (pr 1) es))"

fun wf_expr :: "cexpr \<Rightarrow> bool" where
  "wf_expr (ELeaf name args) = True"
| "wf_expr (ENot e) = wf_expr e"
| "wf_expr (EAll es) = (length es \<ge> 2 \<and> list_all wf_expr es)"
| "wf_expr (EAny es) = (length es \<ge> 2 \<and> list_all wf_expr es)"

text \<open>How many nesting levels (negations and parentheses) the printed form opens.\<close>

fun nest :: "nat \<Rightarrow> cexpr \<Rightarrow> nat" where
  "nest k (ELeaf name args) = 0"
| "nest k (ENot e) = Suc (nest 2 e)"
| "nest k (EAll es) = (if k > 1 then 1 else 0) + foldr (\<lambda>e m. max (nest 2 e) m) es 0"
| "nest k (EAny es) = (if k > 0 then 1 else 0) + foldr (\<lambda>e m. max (nest 1 e) m) es 0"

section \<open>The parser as a relation\<close>

definition or_ok :: "('o, 'e) ConditionSink \<Rightarrow> nat \<Rightarrow> Token list \<Rightarrow> 'o \<Rightarrow> Token list \<Rightarrow> bool" where
  "or_ok S d ts x r \<longleftrightarrow> (\<exists>n. parse_or S n d ts = Some (Inr (x, r)))"
definition or_rest_ok :: "('o, 'e) ConditionSink \<Rightarrow> nat \<Rightarrow> 'o list \<Rightarrow> Token list \<Rightarrow> 'o \<Rightarrow> Token list \<Rightarrow> bool" where
  "or_rest_ok S d a ts x r \<longleftrightarrow> (\<exists>n. or_rest S n d a ts = Some (Inr (x, r)))"
definition and_ok :: "('o, 'e) ConditionSink \<Rightarrow> nat \<Rightarrow> Token list \<Rightarrow> 'o \<Rightarrow> Token list \<Rightarrow> bool" where
  "and_ok S d ts x r \<longleftrightarrow> (\<exists>n. parse_and S n d ts = Some (Inr (x, r)))"
definition and_rest_ok :: "('o, 'e) ConditionSink \<Rightarrow> nat \<Rightarrow> 'o list \<Rightarrow> Token list \<Rightarrow> 'o \<Rightarrow> Token list \<Rightarrow> bool" where
  "and_rest_ok S d a ts x r \<longleftrightarrow> (\<exists>n. and_rest S n d a ts = Some (Inr (x, r)))"
definition not_ok :: "('o, 'e) ConditionSink \<Rightarrow> nat \<Rightarrow> Token list \<Rightarrow> 'o \<Rightarrow> Token list \<Rightarrow> bool" where
  "not_ok S d ts x r \<longleftrightarrow> (\<exists>n. parse_not S n d ts = Some (Inr (x, r)))"
definition primary_ok :: "('o, 'e) ConditionSink \<Rightarrow> nat \<Rightarrow> Token list \<Rightarrow> 'o \<Rightarrow> Token list \<Rightarrow> bool" where
  "primary_ok S d ts x r \<longleftrightarrow> (\<exists>n. parse_primary S n d ts = Some (Inr (x, r)))"

lemma or_okI: "and_ok S d ts x ts' \<Longrightarrow> or_rest_ok S d [x] ts' y r \<Longrightarrow> or_ok S d ts y r"
proof -
  assume "and_ok S d ts x ts'" and "or_rest_ok S d [x] ts' y r"
  then obtain m n where "parse_and S m d ts = Some (Inr (x, ts'))"
    and "or_rest S n d [x] ts' = Some (Inr (y, r))"
    by (auto simp: and_ok_def or_rest_ok_def)
  then have "parse_or S (Suc (max m n)) d ts = Some (Inr (y, r))"
    using parse_and_fuel_le [of S m d ts _ "max m n"] or_rest_fuel_le [of S n d "[x]" ts' _ "max m n"]
    by (simp add: parser_Suc)
  then show ?thesis unfolding or_ok_def by blast
qed

lemma or_rest_stop: "peek ts \<noteq> Some TOr \<Longrightarrow> or_rest_ok S d a ts (finish (sk_any S) a) ts"
  unfolding or_rest_ok_def by (rule exI [of _ 1]) (simp add: parser_Suc)

lemma or_rest_step:
  "and_ok S d ts x ts' \<Longrightarrow> or_rest_ok S d (a @ [x]) ts' y r \<Longrightarrow> or_rest_ok S d a (TOr # ts) y r"
proof -
  assume "and_ok S d ts x ts'" and "or_rest_ok S d (a @ [x]) ts' y r"
  then obtain m n where "parse_and S m d ts = Some (Inr (x, ts'))"
    and "or_rest S n d (a @ [x]) ts' = Some (Inr (y, r))"
    by (auto simp: and_ok_def or_rest_ok_def)
  then have "or_rest S (Suc (max m n)) d a (TOr # ts) = Some (Inr (y, r))"
    using parse_and_fuel_le [of S m d ts _ "max m n"] or_rest_fuel_le [of S n d "a @ [x]" ts' _ "max m n"]
    by (simp add: parser_Suc)
  then show ?thesis unfolding or_rest_ok_def by blast
qed

lemma and_okI: "not_ok S d ts x ts' \<Longrightarrow> and_rest_ok S d [x] ts' y r \<Longrightarrow> and_ok S d ts y r"
proof -
  assume "not_ok S d ts x ts'" and "and_rest_ok S d [x] ts' y r"
  then obtain m n where "parse_not S m d ts = Some (Inr (x, ts'))"
    and "and_rest S n d [x] ts' = Some (Inr (y, r))"
    by (auto simp: not_ok_def and_rest_ok_def)
  then have "parse_and S (Suc (max m n)) d ts = Some (Inr (y, r))"
    using parse_not_fuel_le [of S m d ts _ "max m n"] and_rest_fuel_le [of S n d "[x]" ts' _ "max m n"]
    by (simp add: parser_Suc)
  then show ?thesis unfolding and_ok_def by blast
qed

lemma and_rest_stop: "peek ts \<noteq> Some TAnd \<Longrightarrow> and_rest_ok S d a ts (finish (sk_all S) a) ts"
  unfolding and_rest_ok_def by (rule exI [of _ 1]) (simp add: parser_Suc)

lemma and_rest_step:
  "not_ok S d ts x ts' \<Longrightarrow> and_rest_ok S d (a @ [x]) ts' y r \<Longrightarrow> and_rest_ok S d a (TAnd # ts) y r"
proof -
  assume "not_ok S d ts x ts'" and "and_rest_ok S d (a @ [x]) ts' y r"
  then obtain m n where "parse_not S m d ts = Some (Inr (x, ts'))"
    and "and_rest S n d (a @ [x]) ts' = Some (Inr (y, r))"
    by (auto simp: not_ok_def and_rest_ok_def)
  then have "and_rest S (Suc (max m n)) d a (TAnd # ts) = Some (Inr (y, r))"
    using parse_not_fuel_le [of S m d ts _ "max m n"] and_rest_fuel_le [of S n d "a @ [x]" ts' _ "max m n"]
    by (simp add: parser_Suc)
  then show ?thesis unfolding and_rest_ok_def by blast
qed

lemma not_okI:
  assumes "d < MAX_CONDITION_DEPTH" and "not_ok S (Suc d) ts x r"
  shows "not_ok S d (TNot # ts) (sk_not S x) r"
proof -
  from assms obtain n where "parse_not S n (Suc d) ts = Some (Inr (x, r))" by (auto simp: not_ok_def)
  with assms(1) have "parse_not S (Suc n) d (TNot # ts) = Some (Inr (sk_not S x, r))"
    by (simp add: parser_Suc)
  then show ?thesis unfolding not_ok_def by blast
qed

lemma not_ok_primary: "peek ts \<noteq> Some TNot \<Longrightarrow> primary_ok S d ts x r \<Longrightarrow> not_ok S d ts x r"
  unfolding not_ok_def primary_ok_def by (metis parser_Suc(5))

lemma primary_ok_parens:
  assumes "d < MAX_CONDITION_DEPTH" and "or_ok S (Suc d) ts x (RParen # r)"
  shows "primary_ok S d (LParen # ts) x r"
proof -
  from assms obtain n where "parse_or S n (Suc d) ts = Some (Inr (x, RParen # r))" by (auto simp: or_ok_def)
  with assms(1) have "parse_primary S (Suc n) d (LParen # ts) = Some (Inr (x, r))"
    by (simp add: parser_Suc)
  then show ?thesis unfolding primary_ok_def by blast
qed

lemma parse_args_tokens:
  "args \<noteq> [] \<Longrightarrow> parse_args name a (arg_tokens args @ RParen # r) = Inr (a @ args, RParen # r)"
proof (induction args arbitrary: a)
  case Nil
  then show ?case by simp
next
  case (Cons n args)
  then show ?case by (cases args) (simp_all add: arg_tokens_def)
qed

lemma sep_by_Cons: "sep_by t (ts # tss) = ts @ concat (map ((#) t) tss)"
  by (induction tss arbitrary: ts) simp_all

lemma arg_tokens_peek: "args \<noteq> [] \<Longrightarrow> \<exists>n ts. arg_tokens args = Number n # ts"
  by (cases args) (simp_all add: arg_tokens_def sep_by_Cons)

lemma primary_ok_leaf:
  assumes "sk_leaf S name args = Inr x"
  shows "primary_ok S d (Ident name # LParen # arg_tokens args @ RParen # r) x r"
proof -
  have "parse_predicate S name (LParen # arg_tokens args @ RParen # r) = Inr (x, r)"
  proof (cases "args = []")
    case True
    with assms show ?thesis by (simp add: parse_predicate_def arg_tokens_def)
  next
    case False
    then obtain n ts where "arg_tokens args = Number n # ts" using arg_tokens_peek by blast
    with False assms parse_args_tokens [of args name "[]" r] show ?thesis
      by (simp add: parse_predicate_def)
  qed
  then have "parse_primary S 1 d (Ident name # LParen # arg_tokens args @ RParen # r) = Some (Inr (x, r))"
    by (simp add: parser_Suc parse_leaf_def)
  then show ?thesis unfolding primary_ok_def by blast
qed

section \<open>Printing and parsing\<close>

text \<open>At level \<open>k\<close> the parser stops before \<open>r\<close> when \<open>r\<close> does not start with an operator of that level or tighter.\<close>

fun level_ok :: "nat \<Rightarrow> ('o, 'e) ConditionSink \<Rightarrow> nat \<Rightarrow> Token list \<Rightarrow> 'o \<Rightarrow> Token list \<Rightarrow> bool" where
  "level_ok 0 S d ts x r = or_ok S d ts x r"
| "level_ok (Suc 0) S d ts x r = and_ok S d ts x r"
| "level_ok (Suc (Suc k)) S d ts x r = not_ok S d ts x r"

fun stops :: "nat \<Rightarrow> Token list \<Rightarrow> bool" where
  "stops 0 r = (peek r \<noteq> Some TOr \<and> peek r \<noteq> Some TAnd)"
| "stops (Suc 0) r = (peek r \<noteq> Some TAnd)"
| "stops (Suc (Suc k)) r = True"

lemma finish_single [simp]: "finish f [x] = x"
  by (simp add: finish_def)

lemma not_ok_and_ok: "not_ok S d ts x r \<Longrightarrow> peek r \<noteq> Some TAnd \<Longrightarrow> and_ok S d ts x r"
  using and_okI [OF _ and_rest_stop] by fastforce

lemma and_ok_or_ok: "and_ok S d ts x r \<Longrightarrow> peek r \<noteq> Some TOr \<Longrightarrow> or_ok S d ts x r"
  using or_okI [OF _ or_rest_stop] by fastforce

lemma level_cases: "(k = 0 \<Longrightarrow> P) \<Longrightarrow> (k = Suc 0 \<Longrightarrow> P) \<Longrightarrow> (\<And>j. k = Suc (Suc j) \<Longrightarrow> P) \<Longrightarrow> P"
  by (metis not0_implies_Suc)

lemma level_ok_not: "not_ok S d ts x r \<Longrightarrow> stops k r \<Longrightarrow> level_ok k S d ts x r"
  by (rule level_cases [of k]) (auto intro: not_ok_and_ok and_ok_or_ok)

lemma level_ok_and: "and_ok S d ts x r \<Longrightarrow> stops k r \<Longrightarrow> k \<le> 1 \<Longrightarrow> level_ok k S d ts x r"
  by (rule level_cases [of k]) (auto intro: and_ok_or_ok)

lemma level_ok_parens:
  assumes "d < MAX_CONDITION_DEPTH" and "or_ok S (Suc d) (ts @ RParen # r) x (RParen # r)" and "stops k r"
  shows "level_ok k S d (LParen # ts @ RParen # r) x r"
  using assms by (intro level_ok_not not_ok_primary primary_ok_parens) simp_all

lemma and_rest_list:
  assumes "list_all2 (\<lambda>ts x. \<forall>r. not_ok S d (ts @ r) x r) tss xs" and "peek r \<noteq> Some TAnd"
  shows "and_rest_ok S d a (concat (map ((#) TAnd) tss) @ r) (finish (sk_all S) (a @ xs)) r"
  using assms(1)
proof (induction tss xs arbitrary: a rule: list_all2_induct)
  case Nil
  then show ?case using and_rest_stop [OF assms(2)] by simp
next
  case (Cons ts tss x xs)
  then show ?case
    using and_rest_step [of S d "ts @ concat (map ((#) TAnd) tss) @ r" x "concat (map ((#) TAnd) tss) @ r" a] Cons.IH [of "a @ [x]"]
    by simp
qed

lemma or_rest_list:
  assumes "list_all2 (\<lambda>ts x. \<forall>r. peek r \<noteq> Some TAnd \<longrightarrow> and_ok S d (ts @ r) x r) tss xs"
    and "peek r \<noteq> Some TOr" and "peek r \<noteq> Some TAnd"
  shows "or_rest_ok S d a (concat (map ((#) TOr) tss) @ r) (finish (sk_any S) (a @ xs)) r
    \<and> peek (concat (map ((#) TOr) tss) @ r) \<noteq> Some TAnd"
  using assms(1)
proof (induction tss xs arbitrary: a rule: list_all2_induct)
  case Nil
  then show ?case using or_rest_stop [OF assms(2)] assms(3) by simp
next
  case (Cons ts tss x xs)
  then show ?case
    using or_rest_step [of S d "ts @ concat (map ((#) TOr) tss) @ r" x "concat (map ((#) TOr) tss) @ r" a] Cons.IH [of "a @ [x]"]
    by simp
qed

lemma those_map_Some: "those (map f es) = Some xs \<longleftrightarrow> list_all2 (\<lambda>e x. f e = Some x) es xs"
  by (induction es arbitrary: xs) (auto split: option.splits simp: list_all2_Cons1)

lemma finish_many: "2 \<le> length xs \<Longrightarrow> finish f xs = f xs"
  by (simp add: finish_def)

lemma foldr_max_le: "foldr (\<lambda>e m. max (f e) m) es 0 \<le> (b::nat) \<longleftrightarrow> (\<forall>e\<in>set es. f e \<le> b)"
  by (induction es) auto

lemma all_body:
  assumes "list_all2 (\<lambda>e x. \<forall>r. not_ok S d (pr 2 e @ r) x r) es xs" and "2 \<le> length es" and "peek r \<noteq> Some TAnd"
  shows "and_ok S d (sep_by TAnd (map (pr 2) es) @ r) (sk_all S xs) r"
proof -
  from assms(1,2) obtain e es' x xs' where e: "es = e # es'" "xs = x # xs'"
    by (cases es; cases xs) auto
  with assms(1) have h: "\<forall>r. not_ok S d (pr 2 e @ r) x r"
    and t: "list_all2 (\<lambda>ts x. \<forall>r. not_ok S d (ts @ r) x r) (map (pr 2) es') xs'"
    by (simp_all add: list_all2_map1)
  have "finish (sk_all S) (x # xs') = sk_all S xs"
    using assms(1,2) e by (auto simp: finish_many dest: list_all2_lengthD)
  with and_okI [OF h [rule_format] and_rest_list [OF t assms(3), of "[x]"]] show ?thesis
    by (simp add: e sep_by_Cons)
qed

lemma any_body:
  assumes "list_all2 (\<lambda>e x. \<forall>r. peek r \<noteq> Some TAnd \<longrightarrow> and_ok S d (pr 1 e @ r) x r) es xs"
    and "2 \<le> length es" and "stops 0 r"
  shows "or_ok S d (sep_by TOr (map (pr 1) es) @ r) (sk_any S xs) r"
proof -
  from assms(1,2) obtain e es' x xs' where e: "es = e # es'" "xs = x # xs'"
    by (cases es; cases xs) auto
  with assms(1) have h: "\<And>r. peek r \<noteq> Some TAnd \<Longrightarrow> and_ok S d (pr 1 e @ r) x r"
    and t: "list_all2 (\<lambda>ts x. \<forall>r. peek r \<noteq> Some TAnd \<longrightarrow> and_ok S d (ts @ r) x r) (map (pr 1) es') xs'"
    by (simp_all add: list_all2_map1)
  have "finish (sk_any S) (x # xs') = sk_any S xs"
    using assms(1,2) e by (auto simp: finish_many dest: list_all2_lengthD)
  with or_okI [OF h] or_rest_list [OF t, of r "[x]"] assms(3) show ?thesis
    by (auto simp: e sep_by_Cons)
qed

lemma printed_level:
  "wf_expr e \<Longrightarrow> build S e = Some x \<Longrightarrow> nest k e + d \<le> MAX_CONDITION_DEPTH \<Longrightarrow> stops k r
     \<Longrightarrow> level_ok k S d (pr k e @ r) x r"
proof (induction e arbitrary: k x d r)
  case (ELeaf name args)
  then have "sk_leaf S name args = Inr x" by (auto split: sum.splits)
  from primary_ok_leaf [OF this] ELeaf.prems show ?case
    by (simp add: level_ok_not not_ok_primary)
next
  case (ENot e)
  then obtain y where y: "build S e = Some y" "x = sk_not S y" by auto
  with ENot have "not_ok S (Suc d) (pr 2 e @ r) y r"
    using ENot.IH [of y 2 "Suc d" r] by (simp add: numeral_2_eq_2)
  moreover have "d < MAX_CONDITION_DEPTH" using ENot.prems(3) by simp
  ultimately show ?case using ENot.prems(4) y by (simp add: level_ok_not not_okI)
next
  case (EAll es)
  then obtain xs where xs: "list_all2 (\<lambda>e x. build S e = Some x) es xs" "x = sk_all S xs"
    by (auto simp: those_map_Some)
  have sub: "list_all2 (\<lambda>e x. \<forall>r. not_ok S d' (pr 2 e @ r) x r) es xs"
    if "\<forall>e\<in>set es. nest 2 e + d' \<le> MAX_CONDITION_DEPTH" for d'
  proof (rule list.rel_mono_strong [OF xs(1)], intro allI)
    fix e y r assume "e \<in> set es" and "build S e = Some y"
    with EAll.IH [of e y 2 d' r] EAll.prems(1) that show "not_ok S d' (pr 2 e @ r) y r"
      by (auto simp: numeral_2_eq_2 list_all_iff)
  qed
  show ?case
  proof (cases "k > 1")
    case True
    with EAll.prems(3) have "\<forall>e\<in>set es. nest 2 e + Suc d \<le> MAX_CONDITION_DEPTH" and d: "d < MAX_CONDITION_DEPTH"
      using foldr_max_le [of "nest 2" es "MAX_CONDITION_DEPTH - Suc d"] by auto
    from all_body [OF sub [OF this(1)], of "RParen # r"] EAll.prems(1)
    have "or_ok S (Suc d) (sep_by TAnd (map (pr 2) es) @ RParen # r) x (RParen # r)"
      by (auto intro: and_ok_or_ok simp: xs)
    with True d EAll.prems(4) show ?thesis by (simp add: parens_def level_ok_parens)
  next
    case False
    with EAll.prems(3) have "\<forall>e\<in>set es. nest 2 e + d \<le> MAX_CONDITION_DEPTH"
      using foldr_max_le [of "nest 2" es "MAX_CONDITION_DEPTH - d"] by auto
    moreover from False EAll.prems(4) have "peek r \<noteq> Some TAnd"
      by (cases k rule: level_cases) auto
    ultimately have "and_ok S d (sep_by TAnd (map (pr 2) es) @ r) x r"
      using all_body [OF sub] EAll.prems(1) xs(2) by simp
    with False EAll.prems(4) show ?thesis by (simp add: parens_def level_ok_and)
  qed
next
  case (EAny es)
  then obtain xs where xs: "list_all2 (\<lambda>e x. build S e = Some x) es xs" "x = sk_any S xs"
    by (auto simp: those_map_Some)
  have sub: "list_all2 (\<lambda>e x. \<forall>r. peek r \<noteq> Some TAnd \<longrightarrow> and_ok S d' (pr 1 e @ r) x r) es xs"
    if "\<forall>e\<in>set es. nest 1 e + d' \<le> MAX_CONDITION_DEPTH" for d'
  proof (rule list.rel_mono_strong [OF xs(1)], intro allI impI)
    fix e y r assume "e \<in> set es" and "build S e = Some y" and "peek r \<noteq> Some TAnd"
    with EAny.IH [of e y 1 d' r] EAny.prems(1) that show "and_ok S d' (pr 1 e @ r) y r"
      by (auto simp: list_all_iff)
  qed
  show ?case
  proof (cases "k > 0")
    case True
    with EAny.prems(3) have "\<forall>e\<in>set es. nest 1 e + Suc d \<le> MAX_CONDITION_DEPTH" and d: "d < MAX_CONDITION_DEPTH"
      using foldr_max_le [of "nest 1" es "MAX_CONDITION_DEPTH - Suc d"] by auto
    from any_body [OF sub [OF this(1)], of "RParen # r"] EAny.prems(1)
    have "or_ok S (Suc d) (sep_by TOr (map (pr 1) es) @ RParen # r) x (RParen # r)"
      by (simp add: xs)
    with True d EAny.prems(4) show ?thesis by (simp add: parens_def level_ok_parens)
  next
    case False
    with EAny.prems(3) have "\<forall>e\<in>set es. nest 1 e + d \<le> MAX_CONDITION_DEPTH"
      using foldr_max_le [of "nest 1" es "MAX_CONDITION_DEPTH - d"] by auto
    with any_body [OF sub] EAny.prems False show ?thesis by (simp add: parens_def xs)
  qed
qed

section \<open>Rendering to text and lexing\<close>

definition quote_free_ident :: "string \<Rightarrow> bool" where
  "quote_free_ident s \<longleftrightarrow> s \<noteq> [] \<and> u_alpha [hd s] \<and> list_all (\<lambda>c. u_ident [c]) s \<and> s \<noteq> ''NOT''"

fun token_ok :: "Token \<Rightarrow> bool" where
  "token_ok (Ident s) = quote_free_ident s"
| "token_ok (Number n) = (- (2 ^ 63) \<le> n \<and> n < 2 ^ 63)"
| "token_ok _ = True"

fun token_text :: "Token \<Rightarrow> string" where
  "token_text LParen = ''(''"
| "token_text RParen = '')''"
| "token_text Comma = '',''"
| "token_text TAnd = ''&&''"
| "token_text TOr = ''||''"
| "token_text TNot = ''NOT''"
| "token_text (Ident s) = s"
| "token_text (Number n) = show_int n"

definition render :: "Token list \<Rightarrow> string" where
  "render ts = join '' '' (map token_text ts)"

abbreviation singles :: "string \<Rightarrow> uchar list" where
  "singles s \<equiv> map (\<lambda>c. [c]) s"

lemma concat_singles [simp]: "concat (singles s) = s"
  by (induction s) auto

definition ascii :: "string \<Rightarrow> bool" where
  "ascii s \<longleftrightarrow> list_all (\<lambda>c. (of_char c :: nat) < 128) s"

lemma utf8_chars_ascii: "ascii s \<Longrightarrow> utf8_chars s = singles s"
  by (induction s) (auto simp: ascii_def utf8_len_def)

definition word_char :: "char \<Rightarrow> bool" where
  "word_char c \<longleftrightarrow> (of_char c :: nat) < 128 \<and> \<not> is_whitespace [c]"

lemma trim_word:
  assumes "ascii s" and "s \<noteq> []" and "word_char (hd s)" and "word_char (last s)"
  shows "trim s = s"
proof -
  have 1: "dropWhile is_whitespace (singles s) = singles s"
    using assms(2,3) by (cases s) (simp_all add: word_char_def)
  have 2: "dropWhile is_whitespace (rev (singles s)) = rev (singles s)"
    using assms(2,4) by (cases s rule: rev_cases) (simp_all add: word_char_def)
  show ?thesis
    by (simp only: trim_def utf8_chars_ascii [OF assms(1)] 1 2 rev_rev_ident concat_singles)
qed

lemma is_whitespace_single:
  "is_whitespace [b] \<longleftrightarrow> (of_char b :: nat) \<in> {9, 10, 11, 12, 13, 32}"
  by (simp add: is_whitespace_def)

lemma u_digit_single [simp]: "u_digit [b] = ascii_digit b"
  by (simp add: u_digit_def)

lemma u_ident_range: "u_ident [c] \<Longrightarrow> 48 \<le> (of_char c :: nat) \<and> (of_char c :: nat) < 128"
  unfolding u_ident_def u_alpha_def u_digit_def ascii_digit_def ascii_lower_def ascii_upper_def
  by auto

lemma word_char_ident: "u_ident [c] \<Longrightarrow> word_char c"
  using u_ident_range [of c] by (auto simp: word_char_def is_whitespace_single)

lemma ascii_digit_punct [simp]:
  "\<not> ascii_digit (CHR ''('')" "\<not> ascii_digit (CHR '')'')" "\<not> ascii_digit (CHR '','')"
  "\<not> ascii_digit (CHR ''&'')" "\<not> ascii_digit (CHR ''|'')" "\<not> ascii_digit (CHR ''-'')"
  by (simp_all add: ascii_digit_def)

lemma word_char_digit: "ascii_digit c \<Longrightarrow> word_char c"
  by (rule word_char_ident) (simp add: u_ident_def)

lemma show_int_cases:
  obtains (nonneg) "0 \<le> n" "show_int n = show_nat (nat n)"
  | (neg) "n < 0" "show_int n = CHR ''-'' # show_nat (nat (- n))"
  by (cases "n < 0") (auto simp: show_int_def)

lemma token_text_word: "token_ok t \<Longrightarrow> token_text t \<noteq> [] \<and> list_all word_char (token_text t)"
proof (cases t)
  case (Ident s)
  then show "token_ok t \<Longrightarrow> ?thesis"
    by (auto simp: quote_free_ident_def list_all_iff intro: word_char_ident)
next
  case (Number n)
  have "list_all word_char (show_nat k)" for k
    using show_nat_digits [of k] by (auto simp: list_all_iff intro: word_char_digit)
  then show "token_ok t \<Longrightarrow> ?thesis"
    using Number by (cases n rule: show_int_cases) (auto simp: word_char_def is_whitespace_single)
qed (auto simp: word_char_def is_whitespace_single)

lemma takeWhile_singles:
  "list_all (\<lambda>c. p [c]) s \<Longrightarrow> \<not> next_is p cs \<Longrightarrow>
     takeWhile p (singles s @ cs) = singles s \<and> dropWhile p (singles s @ cs) = cs"
  by (induction s) (auto simp: next_is_def split: list.splits)

lemma not_ws_u: "u_digit c \<or> u_alpha c \<Longrightarrow> \<not> is_whitespace c"
  by (auto simp: u_digit_def u_alpha_def is_whitespace_def ascii_digit_def ascii_lower_def ascii_upper_def
      split: list.splits)

lemma u_punct [simp]:
  "\<not> u_digit ''(''" "\<not> u_digit '')''" "\<not> u_digit '',''" "\<not> u_digit ''&''" "\<not> u_digit ''|''" "\<not> u_digit ''-''"
  "\<not> u_alpha ''(''" "\<not> u_alpha '')''" "\<not> u_alpha '',''" "\<not> u_alpha ''&''" "\<not> u_alpha ''|''" "\<not> u_alpha ''-''"
  "\<not> is_whitespace ''(''" "\<not> is_whitespace '')''" "\<not> is_whitespace '',''" "\<not> is_whitespace ''&''"
  "\<not> is_whitespace ''|''" "\<not> is_whitespace ''-''"
  by (simp_all add: u_digit_def u_alpha_def ascii_digit_def ascii_lower_def ascii_upper_def is_whitespace_single)

lemma tokenize_number:
  assumes "u_digit [c] \<or> c = CHR ''-'' \<and> list_all ascii_digit s \<and> s \<noteq> []" and "list_all ascii_digit s"
    and "parse_i64 (c # s) = Some n" and "\<not> next_is u_digit cs"
  shows "tokenize_at i (singles (c # s) @ cs) = map_res ((#) (Number n)) (tokenize_at (i + 1 + length s) cs)"
proof -
  have tw: "takeWhile u_digit (singles s @ cs) = singles s" "dropWhile u_digit (singles s @ cs) = cs"
    using takeWhile_singles [of u_digit s cs] assms(2,4) by simp_all
  have "u_digit [c] \<or> [c] = ''-'' \<and> next_is u_digit (singles s @ cs)"
    using assms(1,2) by (cases s) (auto simp: next_is_def)
  moreover from this have "\<not> is_whitespace [c]" "[c] \<noteq> ''(''" "[c] \<noteq> '')''" "[c] \<noteq> '',''" "[c] \<noteq> ''&''" "[c] \<noteq> ''|''"
    using not_ws_u by auto
  ultimately show ?thesis
    using assms(3) tw by simp
qed

lemma tokenize_word:
  assumes "u_alpha [c]" and "list_all (\<lambda>d. u_ident [d]) s" and "\<not> next_is u_ident cs"
  shows "tokenize_at i (singles (c # s) @ cs) =
    map_res ((#) (if c # s = ''NOT'' then TNot else Ident (c # s))) (tokenize_at (i + 1 + length s) cs)"
proof -
  have tw: "takeWhile u_ident (singles s @ cs) = singles s" "dropWhile u_ident (singles s @ cs) = cs"
    using takeWhile_singles [of u_ident s cs] assms(2,3) by simp_all
  have "\<not> is_whitespace [c]" "[c] \<noteq> ''(''" "[c] \<noteq> '')''" "[c] \<noteq> '',''" "[c] \<noteq> ''&''" "[c] \<noteq> ''|''" "[c] \<noteq> ''-''"
    using not_ws_u assms(1) by auto
  moreover have "\<not> u_digit [c]"
    using assms(1) by (auto simp: u_alpha_def ascii_digit_def ascii_lower_def ascii_upper_def)
  ultimately show ?thesis
    using assms(1) tw by simp
qed

text \<open>A token ends where no identifier character follows.\<close>

lemma tokenize_token_next:
  assumes "token_ok t" and "\<not> next_is u_ident cs"
  shows "\<exists>j. tokenize_at i (singles (token_text t) @ cs) = map_res ((#) t) (tokenize_at j cs)"
proof -
  have nx: "\<not> next_is u_digit cs" "\<not> next_is u_ident cs"
    using assms(2) by (auto simp: next_is_def u_ident_def split: list.splits)
  show ?thesis
  proof (cases t)
    case (Ident s)
    with assms(1) obtain c s' where s: "s = c # s'" "u_alpha [c]" "list_all (\<lambda>d. u_ident [d]) s'" "s \<noteq> ''NOT''"
      by (cases s) (auto simp: quote_free_ident_def)
    from tokenize_word [OF s(2,3) nx(2), of i] s Ident show ?thesis by auto
  next
    case (Number n)
    then have p: "parse_i64 (show_int n) = Some n" using assms(1) parse_i64_show_int by simp
    show ?thesis
    proof (cases n rule: show_int_cases)
      case nonneg
      obtain c s where c: "show_nat (nat n) = c # s" by (cases "show_nat (nat n)") auto
      then have "ascii_digit c" "list_all ascii_digit s" using show_nat_digits [of "nat n"] by simp_all
      with tokenize_number [of c s n cs i] p c nonneg nx Number show ?thesis by auto
    next
      case neg
      have "list_all ascii_digit (show_nat (nat (- n)))" "show_nat (nat (- n)) \<noteq> []"
        using show_nat_digits by simp_all
      with tokenize_number [of "CHR ''-''" "show_nat (nat (- n))" n cs i] p neg nx Number show ?thesis by auto
    qed
  next
    case TNot
    have "u_alpha ''N''" "list_all (\<lambda>d. u_ident [d]) ''OT''"
      by (simp_all add: u_ident_def u_alpha_def ascii_upper_def)
    from tokenize_word [OF this nx(2), of i] TNot show ?thesis by auto
  qed (auto simp: next_is_def)
qed

lemma tokenize_token:
  assumes "token_ok t" and "cs = [] \<or> (\<exists>cs'. cs = '' '' # cs')"
  shows "\<exists>j. tokenize_at i (singles (token_text t) @ cs) = map_res ((#) t) (tokenize_at j cs)"
proof (rule tokenize_token_next [OF assms(1)])
  show "\<not> next_is u_ident cs"
    using assms(2) by (auto simp: next_is_def u_ident_def u_digit_def u_alpha_def ascii_digit_def
        ascii_lower_def ascii_upper_def)
qed

lemma join_Cons: "join sep (s # ss) = s @ concat (map (\<lambda>t. sep @ t) ss)"
  by (induction ss arbitrary: s) simp_all

lemma tokenize_render_at:
  "list_all token_ok ts \<Longrightarrow>
     tokenize_at i (singles (concat (map (\<lambda>t. '' '' @ token_text t) ts))) = Inr ts"
proof (induction ts arbitrary: i)
  case Nil
  then show ?case by simp
next
  case (Cons t ts)
  let ?cs = "singles (concat (map (\<lambda>t. '' '' @ token_text t) ts))"
  have "?cs = [] \<or> (\<exists>cs'. ?cs = '' '' # cs')" by (cases ts) auto
  with tokenize_token [of t ?cs "i + 1"] Cons.prems obtain j where
    "tokenize_at (i + 1) (singles (token_text t) @ ?cs) = map_res ((#) t) (tokenize_at j ?cs)"
    by auto
  with Cons show ?case by (simp add: is_whitespace_single)
qed

lemma tokenize_render:
  assumes "list_all token_ok ts" and "ts \<noteq> []"
  shows "trim (render ts) = render ts \<and> render ts \<noteq> [] \<and> tokenize (render ts) = Inr ts"
proof -
  obtain t us where ts: "ts = t # us" using assms(2) by (cases ts) auto
  let ?cs = "concat (map (\<lambda>t. '' '' @ token_text t) us)"
  have r: "render ts = token_text t @ ?cs" by (simp add: render_def ts join_Cons o_def)
  have w: "token_text u \<noteq> [] \<and> list_all word_char (token_text u)" if "u \<in> set ts" for u
    using assms(1) that token_text_word by (auto simp: list_all_iff)
  have asc: "ascii (token_text u)" if "u \<in> set ts" for u
    using w [OF that] by (auto simp: ascii_def list_all_iff word_char_def)
  then have a: "ascii (render ts)" unfolding r by (fastforce simp: ts ascii_def list_all_iff)
  have hd: "word_char (hd (render ts))"
    using w [of t] unfolding r by (auto simp: ts list_all_iff)
  have "word_char (last (render ts))"
  proof (cases us rule: rev_cases)
    case Nil
    with w [of t] show ?thesis unfolding r by (auto simp: ts list_all_iff)
  next
    case (snoc vs v)
    with w [of v] show ?thesis unfolding r by (auto simp: ts list_all_iff)
  qed
  moreover have ne: "render ts \<noteq> []" using w [of t] unfolding r by (simp add: ts)
  ultimately have tr: "trim (render ts) = render ts" using a hd by (intro trim_word)
  have "singles ?cs = [] \<or> (\<exists>cs'. singles ?cs = '' '' # cs')" by (cases us) auto
  with tokenize_token [of t "singles ?cs" 0] assms(1) ts obtain j where
    "tokenize_at 0 (singles (token_text t) @ singles ?cs) = map_res ((#) t) (tokenize_at j (singles ?cs))"
    by auto
  also have "tokenize_at j (singles ?cs) = Inr us"
    using tokenize_render_at [of us j] assms(1) ts by simp
  finally have "tokenize (render ts) = Inr ts"
    using utf8_chars_ascii [OF a] unfolding tokenize_def r by (simp add: ts)
  with tr ne show ?thesis by simp
qed

section \<open>Every sink builds from one syntax tree\<close>

definition ast_sink :: "(cexpr, string) ConditionSink" where
  "ast_sink =
     \<lparr>sk_any = EAny, sk_all = EAll, sk_not = ENot, sk_leaf = (\<lambda>name args. Inr (ELeaf name args)),
      sk_from = (\<lambda>m. m)\<rparr>"

lemma ast_sink_simps [simp]:
  "sk_any ast_sink = EAny" "sk_all ast_sink = EAll" "sk_not ast_sink = ENot"
  "sk_leaf ast_sink name args = Inr (ELeaf name args)"
  by (simp_all add: ast_sink_def)

definition built :: "('o, 'e) ConditionSink \<Rightarrow> cexpr list \<Rightarrow> 'o list \<Rightarrow> bool" where
  "built S es xs \<longleftrightarrow> list_all2 (\<lambda>e x. build S e = Some x) es xs"

lemma built_snoc: "built S es xs \<Longrightarrow> build S e = Some x \<Longrightarrow> built S (es @ [e]) (xs @ [x])"
  by (simp add: built_def list_all2_appendI)

lemma built_single: "build S e = Some x \<Longrightarrow> built S [e] [x]"
  by (simp add: built_def)

lemma built_finish:
  assumes "built S es xs" and "es \<noteq> []"
  shows "build S (finish EAny es) = Some (finish (sk_any S) xs)"
    and "build S (finish EAll es) = Some (finish (sk_all S) xs)"
proof -
  have l: "length xs = length es" using assms(1) by (simp add: built_def list_all2_lengthD)
  have t: "those (map (build S) es) = Some xs" using assms(1) by (simp add: built_def those_map_Some)
  have one: "length es = 1 \<Longrightarrow> build S (last es) = Some (last xs)"
    using assms(1) by (auto simp: built_def length_Suc_conv list_all2_Cons1)
  show "build S (finish EAny es) = Some (finish (sk_any S) xs)"
    and "build S (finish EAll es) = Some (finish (sk_all S) xs)"
    using l t one by (simp_all add: finish_def)
qed

lemma parse_predicate_build:
  assumes "parse_predicate S name ts = Inr (x, r)"
  shows "\<exists>e. parse_predicate ast_sink name ts = Inr (e, r) \<and> build S e = Some x"
  using assms
  by (auto simp: parse_predicate_def split: list.splits Token.splits sum.splits)

lemma parse_leaf_build:
  "parse_leaf S ts = Some (Inr (x, r)) \<Longrightarrow> \<exists>e. parse_leaf ast_sink ts = Some (Inr (e, r)) \<and> build S e = Some x"
  using parse_predicate_build [of S]
  by (auto simp: parse_leaf_def split: option.splits Token.splits)

lemma parse_build:
  "(\<forall>d ts x r. parse_or S n d ts = Some (Inr (x, r)) \<longrightarrow>
      (\<exists>e. parse_or ast_sink n d ts = Some (Inr (e, r)) \<and> build S e = Some x))
   \<and> (\<forall>d es a ts x r. or_rest S n d a ts = Some (Inr (x, r)) \<longrightarrow> built S es a \<longrightarrow> es \<noteq> [] \<longrightarrow>
      (\<exists>e. or_rest ast_sink n d es ts = Some (Inr (e, r)) \<and> build S e = Some x))
   \<and> (\<forall>d ts x r. parse_and S n d ts = Some (Inr (x, r)) \<longrightarrow>
      (\<exists>e. parse_and ast_sink n d ts = Some (Inr (e, r)) \<and> build S e = Some x))
   \<and> (\<forall>d es a ts x r. and_rest S n d a ts = Some (Inr (x, r)) \<longrightarrow> built S es a \<longrightarrow> es \<noteq> [] \<longrightarrow>
      (\<exists>e. and_rest ast_sink n d es ts = Some (Inr (e, r)) \<and> build S e = Some x))
   \<and> (\<forall>d ts x r. parse_not S n d ts = Some (Inr (x, r)) \<longrightarrow>
      (\<exists>e. parse_not ast_sink n d ts = Some (Inr (e, r)) \<and> build S e = Some x))
   \<and> (\<forall>d ts x r. parse_primary S n d ts = Some (Inr (x, r)) \<longrightarrow>
      (\<exists>e. parse_primary ast_sink n d ts = Some (Inr (e, r)) \<and> build S e = Some x))"
  (is "?P n")
proof (induction n)
  case 0
  show ?case by (simp add: parser_0)
next
  case (Suc n)
  then have o1: "\<And>d ts x r. parse_or S n d ts = Some (Inr (x, r)) \<Longrightarrow>
      \<exists>e. parse_or ast_sink n d ts = Some (Inr (e, r)) \<and> build S e = Some x"
    and o2: "\<And>d es a ts x r. or_rest S n d a ts = Some (Inr (x, r)) \<Longrightarrow> built S es a \<Longrightarrow> es \<noteq> [] \<Longrightarrow>
      \<exists>e. or_rest ast_sink n d es ts = Some (Inr (e, r)) \<and> build S e = Some x"
    and a1: "\<And>d ts x r. parse_and S n d ts = Some (Inr (x, r)) \<Longrightarrow>
      \<exists>e. parse_and ast_sink n d ts = Some (Inr (e, r)) \<and> build S e = Some x"
    and a2: "\<And>d es a ts x r. and_rest S n d a ts = Some (Inr (x, r)) \<Longrightarrow> built S es a \<Longrightarrow> es \<noteq> [] \<Longrightarrow>
      \<exists>e. and_rest ast_sink n d es ts = Some (Inr (e, r)) \<and> build S e = Some x"
    and n1: "\<And>d ts x r. parse_not S n d ts = Some (Inr (x, r)) \<Longrightarrow>
      \<exists>e. parse_not ast_sink n d ts = Some (Inr (e, r)) \<and> build S e = Some x"
    and p1: "\<And>d ts x r. parse_primary S n d ts = Some (Inr (x, r)) \<Longrightarrow>
      \<exists>e. parse_primary ast_sink n d ts = Some (Inr (e, r)) \<and> build S e = Some x"
    by simp_all
  show ?case
  proof (intro conjI allI impI)
    fix d ts x r assume "parse_or S (Suc n) d ts = Some (Inr (x, r))"
    then obtain y ts' where "parse_and S n d ts = Some (Inr (y, ts'))" "or_rest S n d [y] ts' = Some (Inr (x, r))"
      by (auto simp: parser_Suc)
    with a1 o2 [OF _ built_single] show "\<exists>e. parse_or ast_sink (Suc n) d ts = Some (Inr (e, r)) \<and> build S e = Some x"
      by (fastforce simp: parser_Suc)
  next
    fix d es a ts x r
    assume h: "or_rest S (Suc n) d a ts = Some (Inr (x, r))" and b: "built S es a" "es \<noteq> []"
    show "\<exists>e. or_rest ast_sink (Suc n) d es ts = Some (Inr (e, r)) \<and> build S e = Some x"
    proof (cases "peek ts = Some TOr")
      case True
      with h obtain y ts' where "parse_and S n d (advance ts) = Some (Inr (y, ts'))"
        "or_rest S n d (a @ [y]) ts' = Some (Inr (x, r))"
        by (auto simp: parser_Suc)
      with a1 o2 [OF _ built_snoc [OF b(1)]] True show ?thesis by (fastforce simp: parser_Suc)
    next
      case False
      with h built_finish [OF b] show ?thesis by (simp add: parser_Suc)
    qed
  next
    fix d ts x r assume "parse_and S (Suc n) d ts = Some (Inr (x, r))"
    then obtain y ts' where "parse_not S n d ts = Some (Inr (y, ts'))" "and_rest S n d [y] ts' = Some (Inr (x, r))"
      by (auto simp: parser_Suc)
    with n1 a2 [OF _ built_single] show "\<exists>e. parse_and ast_sink (Suc n) d ts = Some (Inr (e, r)) \<and> build S e = Some x"
      by (fastforce simp: parser_Suc)
  next
    fix d es a ts x r
    assume h: "and_rest S (Suc n) d a ts = Some (Inr (x, r))" and b: "built S es a" "es \<noteq> []"
    show "\<exists>e. and_rest ast_sink (Suc n) d es ts = Some (Inr (e, r)) \<and> build S e = Some x"
    proof (cases "peek ts = Some TAnd")
      case True
      with h obtain y ts' where "parse_not S n d (advance ts) = Some (Inr (y, ts'))"
        "and_rest S n d (a @ [y]) ts' = Some (Inr (x, r))"
        by (auto simp: parser_Suc)
      with n1 a2 [OF _ built_snoc [OF b(1)]] True show ?thesis by (fastforce simp: parser_Suc)
    next
      case False
      with h built_finish [OF b] show ?thesis by (simp add: parser_Suc)
    qed
  next
    fix d ts x r assume h: "parse_not S (Suc n) d ts = Some (Inr (x, r))"
    show "\<exists>e. parse_not ast_sink (Suc n) d ts = Some (Inr (e, r)) \<and> build S e = Some x"
    proof (cases "peek ts = Some TNot")
      case True
      with h n1 show ?thesis by (fastforce simp: parser_Suc split: if_splits)
    next
      case False
      with h p1 show ?thesis by (simp add: parser_Suc)
    qed
  next
    fix d ts x r assume h: "parse_primary S (Suc n) d ts = Some (Inr (x, r))"
    show "\<exists>e. parse_primary ast_sink (Suc n) d ts = Some (Inr (e, r)) \<and> build S e = Some x"
    proof (cases "peek ts = Some LParen")
      case True
      with h o1 show ?thesis by (fastforce simp: parser_Suc split: if_splits)
    next
      case False
      with h parse_leaf_build show ?thesis by (simp add: parser_Suc)
    qed
  qed
qed

definition syntax_of :: "string \<Rightarrow> string + cexpr" where
  "syntax_of input = parse_with ast_sink input"

lemma parse_with_Inr:
  "parse_with S input = Inr x \<longleftrightarrow>
     trim input \<noteq> [] \<and> (\<exists>ts. tokenize (trim input) = Inr ts \<and> length ts \<le> MAX_CONDITION_TOKENS
       \<and> parse_or S (parser_fuel ts) 0 ts = Some (Inr (x, [])))"
  by (auto simp: parse_with_def Let_def split: sum.splits option.splits if_splits)

text \<open>Whatever its layout, a text whose tokens are the printed form of an expression parses to that expression.\<close>

lemma parse_with_tokens:
  assumes "wf_expr e" and "build S e = Some x" and "nest 0 e \<le> MAX_CONDITION_DEPTH"
    and "length (pr 0 e) \<le> MAX_CONDITION_TOKENS" and "trim s \<noteq> []" and "tokenize (trim s) = Inr (pr 0 e)"
  shows "parse_with S s = Inr x"
proof -
  have "level_ok 0 S 0 (pr 0 e @ []) x []"
    using assms(1-3) by (intro printed_level) simp_all
  then obtain n where n: "parse_or S n 0 (pr 0 e) = Some (Inr (x, []))" by (auto simp: or_ok_def)
  obtain v where v: "parse_or S (parser_fuel (pr 0 e)) 0 (pr 0 e) = Some v"
    using parse_or_enough_fuel by blast
  have "Some v = Some (Inr (x, []))"
    using parse_or_fuel_le [OF n, of "n + parser_fuel (pr 0 e)"]
      parse_or_fuel_le [OF v, of "n + parser_fuel (pr 0 e)"] by simp
  with v assms(4-6) show ?thesis by (simp add: parse_with_Inr)
qed

lemma parse_with_build:
  assumes "parse_with S input = Inr x"
  shows "\<exists>e. syntax_of input = Inr e \<and> build S e = Some x"
  using assms parse_build [THEN conjunct1, rule_format, of S]
  unfolding syntax_of_def parse_with_Inr by metis

section \<open>Interfaces of a sink\<close>

text \<open>
  What a target model promises: its combinators are disjunction, conjunction and negation of an
  evaluation \<open>ev\<close>, and its leaves mean what \<open>v\<close> says. Then whatever the parser builds has the meaning
  of the text's syntax tree.
\<close>

locale condition_semantics =
  fixes S :: "('o, 'e) ConditionSink"
    and ev :: "'o \<Rightarrow> bool"
    and v :: "string \<Rightarrow> int list \<Rightarrow> bool"
  assumes ev_any: "ev (sk_any S xs) = list_ex ev xs"
    and ev_all: "ev (sk_all S xs) = list_all ev xs"
    and ev_not: "ev (sk_not S x) = (\<not> ev x)"
    and ev_leaf: "sk_leaf S name args = Inr x \<Longrightarrow> ev x = v name args"
begin

lemma build_meaning: "build S e = Some x \<Longrightarrow> ev x = meaning v e"
proof (induction e arbitrary: x)
  case (ELeaf name args)
  then show ?case using ev_leaf by (auto split: sum.splits)
next
  case (ENot e)
  then show ?case by (auto simp: ev_not)
next
  case (EAll es)
  then obtain xs where xs: "list_all2 (\<lambda>e x. build S e = Some x) es xs" "x = sk_all S xs"
    by (auto simp: those_map_Some)
  have "list_all ev xs = list_all (meaning v) es"
    using xs(1) EAll.IH by (induction rule: list_all2_induct) auto
  with xs(2) show ?case by (simp add: ev_all)
next
  case (EAny es)
  then obtain xs where xs: "list_all2 (\<lambda>e x. build S e = Some x) es xs" "x = sk_any S xs"
    by (auto simp: those_map_Some)
  have "list_ex ev xs = list_ex (meaning v) es"
    using xs(1) EAny.IH by (induction rule: list_all2_induct) auto
  with xs(2) show ?case by (simp add: ev_any)
qed

lemma parse_meaning:
  assumes "parse_with S input = Inr x"
  shows "\<exists>e. syntax_of input = Inr e \<and> (ev x \<longleftrightarrow> meaning v e)"
proof -
  from parse_with_build [OF assms] obtain e where "syntax_of input = Inr e" "build S e = Some x"
    by (elim exE conjE)
  with build_meaning [OF this(2)] show ?thesis by (intro exI [of _ e]) simp
qed

end

text \<open>
  What the nesting limit buys: a height that grows by at most one per constructor is bounded on
  everything the parser returns.
\<close>

definition height_bound :: "nat \<Rightarrow> nat" where
  "height_bound d = 1 + 2 * (MAX_CONDITION_DEPTH - d)"

locale sink_height =
  fixes S :: "('o, 'e) ConditionSink"
    and ht :: "'o \<Rightarrow> nat"
  assumes ht_any: "list_all (\<lambda>x. ht x \<le> m) xs \<Longrightarrow> ht (sk_any S xs) \<le> Suc m"
    and ht_all: "list_all (\<lambda>x. ht x \<le> m) xs \<Longrightarrow> ht (sk_all S xs) \<le> Suc m"
    and ht_not: "ht (sk_not S x) \<le> Suc (ht x)"
    and ht_leaf: "sk_leaf S name args = Inr x \<Longrightarrow> ht x \<le> 1"
begin

lemma finish_height:
  "list_all (\<lambda>x. ht x \<le> m) xs \<Longrightarrow> xs \<noteq> [] \<Longrightarrow> ht (finish (sk_any S) xs) \<le> Suc m"
  "list_all (\<lambda>x. ht x \<le> m) xs \<Longrightarrow> xs \<noteq> [] \<Longrightarrow> ht (finish (sk_all S) xs) \<le> Suc m"
  using ht_any ht_all by (auto simp: finish_def list_all_iff le_SucI)

lemma parse_leaf_height: "parse_leaf S ts = Some (Inr (x, r)) \<Longrightarrow> ht x \<le> 1"
  using ht_leaf
  by (auto simp: parse_leaf_def parse_predicate_def split: option.splits Token.splits list.splits sum.splits)

lemma parse_height:
  "(\<forall>d ts x r. d \<le> MAX_CONDITION_DEPTH \<longrightarrow> parse_or S n d ts = Some (Inr (x, r)) \<longrightarrow> ht x \<le> height_bound d + 2)
   \<and> (\<forall>d a ts x r. d \<le> MAX_CONDITION_DEPTH \<longrightarrow> or_rest S n d a ts = Some (Inr (x, r)) \<longrightarrow> a \<noteq> [] \<longrightarrow>
        list_all (\<lambda>x. ht x \<le> height_bound d + 1) a \<longrightarrow> ht x \<le> height_bound d + 2)
   \<and> (\<forall>d ts x r. d \<le> MAX_CONDITION_DEPTH \<longrightarrow> parse_and S n d ts = Some (Inr (x, r)) \<longrightarrow> ht x \<le> height_bound d + 1)
   \<and> (\<forall>d a ts x r. d \<le> MAX_CONDITION_DEPTH \<longrightarrow> and_rest S n d a ts = Some (Inr (x, r)) \<longrightarrow> a \<noteq> [] \<longrightarrow>
        list_all (\<lambda>x. ht x \<le> height_bound d) a \<longrightarrow> ht x \<le> height_bound d + 1)
   \<and> (\<forall>d ts x r. d \<le> MAX_CONDITION_DEPTH \<longrightarrow> parse_not S n d ts = Some (Inr (x, r)) \<longrightarrow> ht x \<le> height_bound d)
   \<and> (\<forall>d ts x r. d \<le> MAX_CONDITION_DEPTH \<longrightarrow> parse_primary S n d ts = Some (Inr (x, r)) \<longrightarrow> ht x \<le> height_bound d)"
proof (induction n)
  case 0
  show ?case by (simp add: parser_0)
next
  case (Suc n)
  note o1 = Suc [THEN conjunct1, rule_format]
    and o2 = Suc [THEN conjunct2, THEN conjunct1, rule_format]
    and a1 = Suc [THEN conjunct2, THEN conjunct2, THEN conjunct1, rule_format]
    and a2 = Suc [THEN conjunct2, THEN conjunct2, THEN conjunct2, THEN conjunct1, rule_format]
    and n1 = Suc [THEN conjunct2, THEN conjunct2, THEN conjunct2, THEN conjunct2, THEN conjunct1, rule_format]
    and p1 = Suc [THEN conjunct2, THEN conjunct2, THEN conjunct2, THEN conjunct2, THEN conjunct2, rule_format]
  show ?case
  proof (intro conjI allI impI)
    fix d ts x r assume "d \<le> MAX_CONDITION_DEPTH" and h: "parse_or S (Suc n) d ts = Some (Inr (x, r))"
    then show "ht x \<le> height_bound d + 2" using a1 o2 by (fastforce simp: parser_Suc)
  next
    fix d a ts x r
    assume "d \<le> MAX_CONDITION_DEPTH" and h: "or_rest S (Suc n) d a ts = Some (Inr (x, r))"
      and "a \<noteq> []" "list_all (\<lambda>x. ht x \<le> height_bound d + 1) a"
    then show "ht x \<le> height_bound d + 2"
      using a1 o2 finish_height(1) [of "height_bound d + 1" a] by (fastforce simp: parser_Suc split: if_splits)
  next
    fix d ts x r assume "d \<le> MAX_CONDITION_DEPTH" and h: "parse_and S (Suc n) d ts = Some (Inr (x, r))"
    then show "ht x \<le> height_bound d + 1" using n1 a2 by (fastforce simp: parser_Suc)
  next
    fix d a ts x r
    assume "d \<le> MAX_CONDITION_DEPTH" and h: "and_rest S (Suc n) d a ts = Some (Inr (x, r))"
      and "a \<noteq> []" "list_all (\<lambda>x. ht x \<le> height_bound d) a"
    then show "ht x \<le> height_bound d + 1"
      using n1 a2 finish_height(2) [of "height_bound d" a] by (fastforce simp: parser_Suc split: if_splits)
  next
    fix d ts x r assume d: "d \<le> MAX_CONDITION_DEPTH" and h: "parse_not S (Suc n) d ts = Some (Inr (x, r))"
    show "ht x \<le> height_bound d"
    proof (cases "peek ts = Some TNot")
      case True
      with h obtain y where y: "Suc d \<le> MAX_CONDITION_DEPTH" "parse_not S n (Suc d) (advance ts) = Some (Inr (y, r))" "x = sk_not S y"
        by (auto simp: parser_Suc split: if_splits)
      with n1 [OF y(1,2)] ht_not [of y] show ?thesis by (simp add: height_bound_def)
    next
      case False
      with h p1 [OF d] show ?thesis by (simp add: parser_Suc)
    qed
  next
    fix d ts x r assume d: "d \<le> MAX_CONDITION_DEPTH" and h: "parse_primary S (Suc n) d ts = Some (Inr (x, r))"
    show "ht x \<le> height_bound d"
    proof (cases "peek ts = Some LParen")
      case True
      with h obtain r' where y: "Suc d \<le> MAX_CONDITION_DEPTH" "parse_or S n (Suc d) (advance ts) = Some (Inr (x, r'))"
        by (auto simp: parser_Suc split: if_splits)
      with o1 [OF y] show ?thesis by (simp add: height_bound_def)
    next
      case False
      with h parse_leaf_height [of ts x r] show ?thesis by (simp add: parser_Suc height_bound_def)
    qed
  qed
qed

lemma parse_with_height:
  "parse_with S input = Inr x \<Longrightarrow> ht x \<le> 3 + 2 * MAX_CONDITION_DEPTH"
  using parse_height [THEN conjunct1, rule_format, of 0] unfolding parse_with_Inr
  by (fastforce simp: height_bound_def)

end

section \<open>Properties\<close>

text \<open>C4: parsing inverts printing. A well-formed expression, printed with the parentheses the documented
  precedences require (\<open>NOT\<close> over \<open>&&\<close> over \<open>||\<close>), parses back to exactly the condition a sink builds from
  it, provided the printed form respects the nesting and the token limit.\<close>

theorem parse_with_render:
  assumes "wf_expr e" and "build S e = Some x" and "nest 0 e \<le> MAX_CONDITION_DEPTH"
    and "length (pr 0 e) \<le> MAX_CONDITION_TOKENS" and "list_all token_ok (pr 0 e)" and "pr 0 e \<noteq> []"
  shows "parse_with S (render (pr 0 e)) = Inr x"
  using tokenize_render [OF assms(5,6)] by (intro parse_with_tokens [OF assms(1-4)]) simp_all

definition expr0 :: cexpr where
  "expr0 = EAll [ENot (EAny [ELeaf ''QuestAccepted'' [9], ELeaf ''LevelAtLeast'' [12]]), ELeaf ''ItemCount'' [5, 2]]"

lemma parse_with_render_witness:
  "parse_with RuntimeConditionSink (render (pr 0 expr0))
     = Inr (CAll [CNot (CAny [QuestAccepted 9, LevelAtLeast 12]), ItemCountAtLeast 5 2])"
  by (rule parse_with_render) code_simp+

text \<open>C5: the recursive descent terminates: with \<open>parser_fuel\<close> units of fuel every token list yields a result,
  success or error, and more fuel changes nothing.\<close>

theorem parser_returns:
  "\<exists>v. \<forall>k. parse_or S (parser_fuel ts + k) d ts = Some v"
  using parse_or_enough_fuel parse_or_fuel_le le_add1 by metis

end
