(* ===== verification/Kernel_Predicate.thy ===== *)
theory Kernel_Predicate
  imports Condition_Spec Kernel_Model
begin

text \<open>
  The ADR-07 target of the condition parser, \<^verbatim>\<open>SentinelQuesting/compiler/src/kernel/predicate.rs\<close>, the
  errors of \<^verbatim>\<open>kernel/mod.rs\<close>, and the interpretation of the parser's interfaces on both targets. The
  evaluation functions \<open>runtime_holds\<close> and \<open>pred_holds\<close> are specifications: the consumer that evaluates
  conditions is not part of the Rust code.
\<close>

section \<open>The lowering\<close>

text \<open>The trait \<open>QuestMeta\<close>: the world database, a parameter of every lowering.\<close>

record QuestMeta =
  objective_need :: "QuestId \<Rightarrow> u8 \<Rightarrow> u32 option"
  objective_item :: "QuestId \<Rightarrow> u8 \<Rightarrow> u32 option"

datatype LoweringError =
    UnknownObjective QuestId u8
  | UnmappablePredicate string string
  | UnknownGateToken string string

datatype LeafError = LeafParse string | LeafObjective QuestId u8

definition parse_err :: "string + 'a \<Rightarrow> LeafError + 'a" where
  "parse_err r = (case r of Inl m \<Rightarrow> Inl (LeafParse m) | Inr a \<Rightarrow> Inr a)"

fun kernel_not :: "Predicate \<Rightarrow> Predicate" where
  "kernel_not (PItemCount i CmpGe n) = PItemCount i CmpLt n"
| "kernel_not p = PNot p"

definition kernel_leaf :: "QuestMeta \<Rightarrow> string \<Rightarrow> int list \<Rightarrow> LeafError + Predicate" where
  "kernel_leaf meta name args =
     (case args of
        [a] \<Rightarrow>
          if name = ''QuestAccepted'' then parse_err (map_res PQuestInLog (as_u32 a ''quest id''))
          else if name = ''QuestCompleted'' then parse_err (map_res PQuestComplete (as_u32 a ''quest id''))
          else if name = ''QuestRewarded'' then parse_err (map_res PQuestTurnedIn (as_u32 a ''quest id''))
          else if name = ''LevelAtLeast'' then parse_err (map_res PLevelAtLeast (as_u8 a ''level''))
          else if name = ''InSubArea''
            then parse_err (map_res (\<lambda>area. PInArea area SubArea) (as_u32 a ''area id''))
          else Inl (LeafParse (unknown_predicate_msg name args))
      | [a, b] \<Rightarrow>
          if name = ''XpAtLeast''
            then parse_err (bind_res (as_u8 a ''level'') (\<lambda>l. map_res (PXpAtLeast l) (as_i32 b ''xp offset'')))
          else if name = ''ItemCount''
            then parse_err (bind_res (as_u32 a ''item id'') (\<lambda>i. map_res (PItemCount i CmpGe) (as_u32 b ''count'')))
          else if name = ''Objective''
            then bind_res (parse_err (as_u32 a ''quest id'')) (\<lambda>q.
                 bind_res (parse_err (as_u8 b ''objective index'')) (\<lambda>i.
                   case objective_need meta q i of
                     None \<Rightarrow> Inl (LeafObjective q i)
                   | Some need \<Rightarrow> Inr (PQuestObjective q i need)))
          else Inl (LeafParse (unknown_predicate_msg name args))
      | _ \<Rightarrow> Inl (LeafParse (unknown_predicate_msg name args)))"

definition KernelSink :: "QuestMeta \<Rightarrow> (Predicate, LeafError) ConditionSink" where
  "KernelSink meta =
     \<lparr>sk_any = POr, sk_all = PAnd, sk_not = kernel_not, sk_leaf = kernel_leaf meta, sk_from = LeafParse\<rparr>"

definition lower_predicate :: "string \<Rightarrow> QuestMeta \<Rightarrow> LoweringError + Predicate" where
  "lower_predicate expression meta =
     (case parse_with (KernelSink meta) expression of
        Inr predicate \<Rightarrow> Inr predicate
      | Inl (LeafObjective quest index) \<Rightarrow> Inl (UnknownObjective quest index)
      | Inl (LeafParse err) \<Rightarrow> Inl (UnmappablePredicate expression err))"

section \<open>What conditions mean\<close>

text \<open>
  The facts a condition is about. \<open>w_other_condition\<close> and \<open>w_other_predicate\<close> stand for the variants the
  condition language has no leaf for.
\<close>

record World =
  w_in_log :: "u32 \<Rightarrow> bool"
  w_complete :: "u32 \<Rightarrow> bool"
  w_turned_in :: "u32 \<Rightarrow> bool"
  w_progress :: "u32 \<Rightarrow> u8 \<Rightarrow> u32"
  w_level :: u8
  w_xp_at_least :: "u8 \<Rightarrow> 32 word \<Rightarrow> bool"
  w_items :: "u32 \<Rightarrow> u32"
  w_in_area :: "u32 \<Rightarrow> AreaKind \<Rightarrow> bool"
  w_other_condition :: "RuntimeCondition \<Rightarrow> bool"
  w_other_predicate :: "Predicate \<Rightarrow> bool"

fun cmp_holds :: "Cmp \<Rightarrow> u32 \<Rightarrow> u32 \<Rightarrow> bool" where
  "cmp_holds CmpLt a b = (a < b)"
| "cmp_holds CmpLe a b = (a \<le> b)"
| "cmp_holds CmpEq a b = (a = b)"
| "cmp_holds CmpGe a b = (b \<le> a)"
| "cmp_holds CmpGt a b = (b < a)"

definition objective_done :: "QuestMeta \<Rightarrow> World \<Rightarrow> u32 \<Rightarrow> u8 \<Rightarrow> bool" where
  "objective_done meta w q i \<longleftrightarrow>
     (case objective_need meta q i of None \<Rightarrow> False | Some need \<Rightarrow> need \<le> w_progress w q i)"

fun runtime_holds :: "QuestMeta \<Rightarrow> World \<Rightarrow> RuntimeCondition \<Rightarrow> bool" where
  "runtime_holds meta w AlwaysTrue = True"
| "runtime_holds meta w (QuestAccepted q) = w_in_log w q"
| "runtime_holds meta w (QuestCompleted q) = w_complete w q"
| "runtime_holds meta w (QuestRewarded q) = w_turned_in w q"
| "runtime_holds meta w (ObjectiveComplete q i) = objective_done meta w q i"
| "runtime_holds meta w (LevelAtLeast l) = (l \<le> w_level w)"
| "runtime_holds meta w (ItemCountAtLeast i n) = (n \<le> w_items w i)"
| "runtime_holds meta w (CNot c) = (\<not> runtime_holds meta w c)"
| "runtime_holds meta w (CAll cs) = list_all (runtime_holds meta w) cs"
| "runtime_holds meta w (CAny cs) = list_ex (runtime_holds meta w) cs"
| "runtime_holds meta w c = w_other_condition w c"

fun pred_holds :: "World \<Rightarrow> Predicate \<Rightarrow> bool" where
  "pred_holds w (PAnd ps) = list_all (pred_holds w) ps"
| "pred_holds w (POr ps) = list_ex (pred_holds w) ps"
| "pred_holds w (PNot p) = (\<not> pred_holds w p)"
| "pred_holds w (PQuestInLog q) = w_in_log w q"
| "pred_holds w (PQuestComplete q) = w_complete w q"
| "pred_holds w (PQuestTurnedIn q) = w_turned_in w q"
| "pred_holds w (PQuestObjective q i need) = (need \<le> w_progress w q i)"
| "pred_holds w (PLevelAtLeast l) = (l \<le> w_level w)"
| "pred_holds w (PXpAtLeast l off) = w_xp_at_least w l off"
| "pred_holds w (PItemCount i c n) = cmp_holds c (w_items w i) n"
| "pred_holds w (PInArea a k) = w_in_area w a k"
| "pred_holds w p = w_other_predicate w p"

fun mentions_xp :: "Predicate \<Rightarrow> bool" where
  "mentions_xp (PXpAtLeast l off) = True"
| "mentions_xp (PAnd ps) = list_ex mentions_xp ps"
| "mentions_xp (POr ps) = list_ex mentions_xp ps"
| "mentions_xp (PNot p) = mentions_xp p"
| "mentions_xp _ = False"

fun cond_height :: "RuntimeCondition \<Rightarrow> nat" where
  "cond_height (CNot c) = Suc (cond_height c)"
| "cond_height (CAll cs) = Suc (foldr (\<lambda>c m. max (cond_height c) m) cs 0)"
| "cond_height (CAny cs) = Suc (foldr (\<lambda>c m. max (cond_height c) m) cs 0)"
| "cond_height _ = 1"

fun pred_height :: "Predicate \<Rightarrow> nat" where
  "pred_height (PNot c) = Suc (pred_height c)"
| "pred_height (PAnd cs) = Suc (foldr (\<lambda>c m. max (pred_height c) m) cs 0)"
| "pred_height (POr cs) = Suc (foldr (\<lambda>c m. max (pred_height c) m) cs 0)"
| "pred_height _ = 1"

section \<open>The two targets implement the parser's interfaces\<close>

text \<open>The value a leaf has in a world: that of the condition its target maps it to.\<close>

definition runtime_leaf_holds :: "QuestMeta \<Rightarrow> World \<Rightarrow> string \<Rightarrow> int list \<Rightarrow> bool" where
  "runtime_leaf_holds meta w name args =
     (case runtime_leaf name args of Inl _ \<Rightarrow> False | Inr c \<Rightarrow> runtime_holds meta w c)"

definition kernel_leaf_holds :: "QuestMeta \<Rightarrow> World \<Rightarrow> string \<Rightarrow> int list \<Rightarrow> bool" where
  "kernel_leaf_holds meta w name args =
     (case kernel_leaf meta name args of Inl _ \<Rightarrow> False | Inr p \<Rightarrow> pred_holds w p)"

lemma sink_simps [simp]:
  "sk_any RuntimeConditionSink = CAny" "sk_all RuntimeConditionSink = CAll"
  "sk_not RuntimeConditionSink = CNot" "sk_leaf RuntimeConditionSink = runtime_leaf"
  "sk_any (KernelSink meta) = POr" "sk_all (KernelSink meta) = PAnd"
  "sk_not (KernelSink meta) = kernel_not" "sk_leaf (KernelSink meta) = kernel_leaf meta"
  by (simp_all add: RuntimeConditionSink_def KernelSink_def)

lemma pred_holds_not [simp]: "pred_holds w (kernel_not p) = (\<not> pred_holds w p)"
  by (cases p rule: kernel_not.cases) (auto simp: not_le)

lemma mentions_xp_not [simp]: "mentions_xp (kernel_not p) = mentions_xp p"
  by (cases p rule: kernel_not.cases) auto

lemma pred_height_not: "pred_height (kernel_not p) \<le> Suc (pred_height p)"
  by (cases p rule: kernel_not.cases) auto

lemma parse_err_Inr [simp]: "parse_err r = Inr x \<longleftrightarrow> r = Inr x"
  by (cases r) (auto simp: parse_err_def)

interpretation runtime_sem: condition_semantics RuntimeConditionSink "runtime_holds meta w" "runtime_leaf_holds meta w"
  for meta w
  by unfold_locales (auto simp: runtime_leaf_holds_def)

interpretation kernel_sem: condition_semantics "KernelSink meta" "pred_holds w" "kernel_leaf_holds meta w"
  for meta w
  by unfold_locales (auto simp: kernel_leaf_holds_def)

lemma foldr_max_bound: "list_all (\<lambda>x. f x \<le> m) xs \<longleftrightarrow> foldr (\<lambda>x. max (f x)) xs 0 \<le> (m::nat)"
  by (induction xs) auto

lemma runtime_leaf_height: "runtime_leaf name args = Inr c \<Longrightarrow> cond_height c \<le> Suc 0"
  by (auto simp: runtime_leaf_def map_res_Inr_iff split: list.splits if_splits)

lemma kernel_leaf_height: "kernel_leaf meta name args = Inr p \<Longrightarrow> pred_height p \<le> Suc 0"
  by (auto simp: kernel_leaf_def map_res_Inr_iff split: list.splits if_splits option.splits)

interpretation runtime_height: sink_height RuntimeConditionSink cond_height
  by unfold_locales (simp_all add: foldr_max_bound runtime_leaf_height)

interpretation kernel_height: sink_height "KernelSink meta" pred_height for meta
  by unfold_locales (simp_all add: foldr_max_bound kernel_leaf_height pred_height_not)

section \<open>The two lowerings agree\<close>

lemma leaf_agree:
  assumes "runtime_leaf name args = Inr c" and "kernel_leaf meta name args = Inr p" and "\<not> mentions_xp p"
  shows "runtime_holds meta w c = pred_holds w p"
  using assms
  by (auto simp: runtime_leaf_def kernel_leaf_def map_res_Inr_iff objective_done_def
      split: list.splits if_splits option.splits)

lemma built_pointwise:
  assumes "list_all2 (\<lambda>e x. f e = Some x) es cs" and "list_all2 (\<lambda>e x. g e = Some x) es ps"
    and "\<not> list_ex bad ps"
    and "\<And>e c p. e \<in> set es \<Longrightarrow> f e = Some c \<Longrightarrow> g e = Some p \<Longrightarrow> \<not> bad p \<Longrightarrow> A c = B p"
  shows "list_all2 (\<lambda>c p. A c = B p) cs ps"
proof -
  have "A (cs ! i) = B (ps ! i)" if "i < length es" for i
    using assms(1-3) that assms(4) [of "es ! i" "cs ! i" "ps ! i"]
    by (simp add: list_all2_conv_all_nth list_ex_iff)
  with assms(1,2) show ?thesis by (simp add: list_all2_conv_all_nth)
qed

lemma list_all_agree: "list_all2 (\<lambda>c p. A c = B p) cs ps \<Longrightarrow> list_all A cs = list_all B ps"
  by (induction rule: list_all2_induct) auto

lemma list_ex_agree: "list_all2 (\<lambda>c p. A c = B p) cs ps \<Longrightarrow> list_ex A cs = list_ex B ps"
  by (induction rule: list_all2_induct) auto

lemma build_agree:
  "build RuntimeConditionSink e = Some c \<Longrightarrow> build (KernelSink meta) e = Some p \<Longrightarrow> \<not> mentions_xp p
     \<Longrightarrow> runtime_holds meta w c = pred_holds w p"
proof (induction e arbitrary: c p)
  case (ELeaf name args)
  then show ?case using leaf_agree by (auto split: sum.splits)
next
  case (ENot e)
  then show ?case by auto
next
  case (EAll es)
  then obtain cs ps where cs: "list_all2 (\<lambda>e x. build RuntimeConditionSink e = Some x) es cs" "c = CAll cs"
    and ps: "list_all2 (\<lambda>e x. build (KernelSink meta) e = Some x) es ps" "p = PAnd ps"
    by (auto simp: those_map_Some)
  have "\<not> list_ex mentions_xp ps" using EAll.prems(3) ps(2) by simp
  with cs(1) ps(1) EAll.IH have "list_all (runtime_holds meta w) cs = list_all (pred_holds w) ps"
    by (intro list_all_agree [OF built_pointwise [where bad = mentions_xp]]) simp_all
  with cs(2) ps(2) show ?case by simp
next
  case (EAny es)
  then obtain cs ps where cs: "list_all2 (\<lambda>e x. build RuntimeConditionSink e = Some x) es cs" "c = CAny cs"
    and ps: "list_all2 (\<lambda>e x. build (KernelSink meta) e = Some x) es ps" "p = POr ps"
    by (auto simp: those_map_Some)
  have "\<not> list_ex mentions_xp ps" using EAny.prems(3) ps(2) by simp
  with cs(1) ps(1) EAny.IH have "list_ex (runtime_holds meta w) cs = list_ex (pred_holds w) ps"
    by (intro list_ex_agree [OF built_pointwise [where bad = mentions_xp]]) simp_all
  with cs(2) ps(2) show ?case by simp
qed

lemma lower_predicate_Inr:
  "lower_predicate expression meta = Inr p \<longleftrightarrow> parse_with (KernelSink meta) expression = Inr p"
  by (auto simp: lower_predicate_def split: sum.splits LeafError.splits)

section \<open>Properties\<close>

definition world0 :: World where
  "world0 =
     \<lparr>w_in_log = (\<lambda>q. q = 9), w_complete = (\<lambda>_. False), w_turned_in = (\<lambda>_. False), w_progress = (\<lambda>_ _. 4),
      w_level = 12, w_xp_at_least = (\<lambda>_ _. False), w_items = (\<lambda>_. 3), w_in_area = (\<lambda>_ _. False),
      w_other_condition = (\<lambda>_. False), w_other_predicate = (\<lambda>_. False)\<rparr>"

definition meta0 :: QuestMeta where
  "meta0 = \<lparr>objective_need = (\<lambda>q i. if q = 7 then Some 8 else None), objective_item = (\<lambda>_ _. None)\<rparr>"



text \<open>the nesting limit works: no accepted text lowers to a predicate higher than
  \<open>3 + 2 * MAX_CONDITION_DEPTH\<close>, so whatever recurses over it needs a bounded stack.\<close>

theorem lower_predicate_height:
  assumes "lower_predicate expression meta = Inr p"
  shows "pred_height p \<le> 3 + 2 * MAX_CONDITION_DEPTH"
  using assms kernel_height.parse_with_height unfolding lower_predicate_Inr by blast

lemma lower_predicate_height_witness:
  "pred_height (PNot (PAnd [PQuestInLog 7, PQuestObjective 7 1 8])) \<le> 131"
  using lower_predicate_height [of "''NOT (QuestAccepted(7) && Objective(7,1))''" meta0] by code_simp

end
