(* ===== verification/Archetype_Gates.thy ===== *)
theory Archetype_Gates
  imports Kernel_Predicate
begin

text \<open>
  Archetype gate resolution, \<^verbatim>\<open>SentinelQuesting/compiler/src/kernel/archetype.rs\<close>: \<open><<\<close> gates, archetype
  filter directives and \<open>.dungeon\<close> arguments are decided at compile time against one \<open>Archetype\<close>. The
  pushes to \<open>diagnostics\<close> are returned as lists.
\<close>

definition GATE_PRECEDENCE_AMBIGUOUS :: string where
  "GATE_PRECEDENCE_AMBIGUOUS = ''GATE_PRECEDENCE_AMBIGUOUS''"
definition GATE_TOKEN_NORMALISED :: string where
  "GATE_TOKEN_NORMALISED = ''GATE_TOKEN_NORMALISED''"

datatype GateOutcome = Applies | DoesNotApply | Disabled

record Resolution =
  res_outcome :: GateOutcome
  res_diagnostics :: "Diagnostic list"

definition Resolution_new :: "GateOutcome \<Rightarrow> Diagnostic list \<Rightarrow> Resolution" where
  "Resolution_new outcome diagnostics = \<lparr>res_outcome = outcome, res_diagnostics = diagnostics\<rparr>"

definition bare :: "GateOutcome \<Rightarrow> Resolution" where
  "bare outcome = Resolution_new outcome []"

definition backticked :: "string \<Rightarrow> string" where
  "backticked s = [CHR 0x60] @ s @ [CHR 0x60]"

section \<open>Vocabulary\<close>

datatype Vocabulary =
    VClass Class
  | VRace Race
  | VFaction Faction
  | VExpansion Expansion
  | Unrepresentable

definition NORMALISATIONS :: "(string \<times> string \<times> u32) list" where
  "NORMALISATIONS = [(''Pala'', ''Paladin'', 4), (''TBC'', ''tbc'', 10), (''WOTLK'', ''wotlk'', 1)]"

definition DUNGEON_ARGUMENTS :: "(string \<times> DungeonId) list" where
  "DUNGEON_ARGUMENTS =
     [(''BF'', Bf), (''BFD'', Bfd), (''Crypts'', Crypts), (''DM'', Dm), (''Gnomer'', Gnomer),
      (''Mara'', Mara), (''MT'', Mt), (''Ramparts'', Ramparts), (''RFD'', Rfd), (''RFK'', Rfk),
      (''SFK'', Sfk), (''SM'', Sm), (''SP'', Sp), (''ST'', St), (''Stockades'', Stockades),
      (''UB'', Ub), (''Ulda'', Ulda), (''WC'', Wc), (''ZF'', Zf)]"

definition DUNGEON_NORMALISATIONS :: "(string \<times> string) list" where
  "DUNGEON_NORMALISATIONS = [(''MARA'', ''Mara''), (''ULDA'', ''Ulda''), (''RAMPARTS'', ''Ramparts'')]"

definition SKIP :: string where "SKIP = ''skip''"

definition CLASS_TOKENS :: "(string \<times> Class) list" where
  "CLASS_TOKENS =
     [(''Warrior'', Warrior), (''Paladin'', Paladin), (''Hunter'', Hunter), (''Rogue'', Rogue),
      (''Priest'', Priest), (''Shaman'', Shaman), (''Mage'', Mage), (''Warlock'', Warlock),
      (''Druid'', Druid)]"

definition RACE_TOKENS :: "(string \<times> Race) list" where
  "RACE_TOKENS =
     [(''Human'', Human), (''Orc'', Orc), (''Dwarf'', Dwarf), (''NightElf'', NightElf),
      (''Undead'', Undead), (''Tauren'', Tauren), (''Gnome'', Gnome), (''Troll'', Troll),
      (''BloodElf'', BloodElf), (''Draenei'', Draenei)]"

definition OTHER_TOKENS :: "(string \<times> Vocabulary) list" where
  "OTHER_TOKENS =
     [(''Alliance'', VFaction Alliance), (''Horde'', VFaction Horde), (''tbc'', VExpansion ExpTbc),
      (''wotlk'', VExpansion ExpWotlk), (''classic'', VExpansion ExpClassic),
      (''DK'', Unrepresentable), (''era'', Unrepresentable), (''sod'', Unrepresentable)]"

text \<open>The three \<open>match\<close> expressions of \<open>classify\<close> are the tables above; the last arm is the level bound.\<close>

definition classify :: "string \<Rightarrow> Vocabulary option" where
  "classify token =
     (case map_of CLASS_TOKENS token of
        Some class \<Rightarrow> Some (VClass class)
      | None \<Rightarrow>
          (case map_of RACE_TOKENS token of
             Some race \<Rightarrow> Some (VRace race)
           | None \<Rightarrow>
               (case map_of OTHER_TOKENS token of
                  Some v \<Rightarrow> Some v
                | None \<Rightarrow>
                    if token \<noteq> [] \<and> list_all ascii_digit token then Some Unrepresentable else None)))"

fun satisfied :: "Vocabulary \<Rightarrow> Archetype \<Rightarrow> bool" where
  "satisfied (VClass class) a = (arch_class a = class)"
| "satisfied (VRace race) a = (arch_race a = race)"
| "satisfied (VFaction faction) a = (arch_faction a = faction)"
| "satisfied (VExpansion expansion) a = (arch_expansion a = expansion)"
| "satisfied Unrepresentable a = False"

section \<open>Gates\<close>

record Term =
  term_negated :: bool
  term_authored :: string
  term_canonical :: string

definition normalised_msg :: "string \<Rightarrow> string \<Rightarrow> string \<Rightarrow> u32 \<Rightarrow> string" where
  "normalised_msg expression authored canonical uses =
     ''gate '' @ backticked expression @ '' spells '' @ backticked authored
     @ '', which is normalised to '' @ backticked canonical @ '' ('' @ show_word uses
     @ '' corpus uses). The table is closed and versioned: if a guide-pack revision fixes the ''
     @ ''spelling upstream this diagnostic stops appearing, which is how the entry is retired.''"

definition normalise_token :: "string \<Rightarrow> string \<Rightarrow> string \<times> Diagnostic list" where
  "normalise_token token expression =
     (case map_of NORMALISATIONS token of
        Some (canonical, uses) \<Rightarrow>
          (canonical,
           [\<lparr>diag_severity = Warning, diag_code = GATE_TOKEN_NORMALISED,
             diag_message = normalised_msg expression token canonical uses,
             diag_entity = Some expression, diag_action = None\<rparr>])
      | None \<Rightarrow> (token, []))"

definition parse_term :: "string \<Rightarrow> string \<Rightarrow> Term \<times> Diagnostic list" where
  "parse_term expression authored =
     (let (negated, rest) =
            (case strip_prefix_char (CHR ''!'') authored of
               Some stripped \<Rightarrow> (True, stripped)
             | None \<Rightarrow> (False, authored));
          (canonical, ds) = normalise_token rest expression
      in (\<lparr>term_negated = negated, term_authored = authored, term_canonical = canonical\<rparr>, ds))"

text \<open>The loop over the arms, with the early return on an empty arm.\<close>

fun parse_arms :: "string \<Rightarrow> string list \<Rightarrow> LoweringError + (Term list list \<times> Diagnostic list)" where
  "parse_arms expression [] = Inr ([], [])"
| "parse_arms expression (arm # arms) =
     (let parsed = map (parse_term expression) (split_whitespace arm)
      in if parsed = [] then Inl (UnknownGateToken expression [])
         else map_res (\<lambda>(rows, ds). (map fst parsed # rows, concat (map snd parsed) @ ds))
                (parse_arms expression arms))"

fun classify_arm :: "string \<Rightarrow> Term list \<Rightarrow> LoweringError + (bool \<times> Vocabulary) list" where
  "classify_arm expression [] = Inr []"
| "classify_arm expression (t # ts) =
     (case classify (term_canonical t) of
        None \<Rightarrow> Inl (UnknownGateToken expression (term_canonical t))
      | Some v \<Rightarrow> map_res ((#) (term_negated t, v)) (classify_arm expression ts))"

fun classify_arms :: "string \<Rightarrow> Term list list \<Rightarrow> LoweringError + (bool \<times> Vocabulary) list list" where
  "classify_arms expression [] = Inr []"
| "classify_arms expression (arm # arms) =
     bind_res (classify_arm expression arm)
       (\<lambda>row. map_res ((#) row) (classify_arms expression arms))"

definition spaced :: "string \<Rightarrow> string" where
  "spaced s = '' '' @ s @ '' ''"

definition derived_reading :: "Term list list \<Rightarrow> string" where
  "derived_reading arms =
     join (spaced logical_or_sign)
       (map (\<lambda>arm.
          let conjunction = join (spaced logical_and_sign) (map term_authored arm)
          in if length arm > 1 then ''('' @ conjunction @ '')'' else conjunction) arms)"

definition alternative_reading :: "string \<Rightarrow> string" where
  "alternative_reading expression =
     join (spaced logical_and_sign)
       (map (\<lambda>chunk.
          if CHR ''/'' \<in> set chunk
          then ''('' @ join (spaced logical_or_sign) (split_char (CHR ''/'') chunk) @ '')''
          else chunk) (split_whitespace expression))"

definition ambiguous_msg :: "string \<Rightarrow> string \<Rightarrow> string \<Rightarrow> string" where
  "ambiguous_msg expression derived alternative =
     ''gate '' @ backticked expression @ '' mixes '' @ backticked ''/''
     @ '' and a space, and its arms are not parallel, so it groups two ways: '' @ backticked derived
     @ spaced em_dash @ ''the reading ADR 07 '' @ section_sign @ ''2.5 derives, in which ''
     @ backticked ''/'' @ '' binds looser, and the one used here'' @ spaced em_dash @ ''or ''
     @ backticked alternative
     @ '', which is what the author may have meant. C2 resolves this at compile time, so the two ''
     @ ''readings differ on which steps exist in the artifact and nothing at runtime records which ''
     @ ''was chosen.''"

definition ambiguity :: "string \<Rightarrow> Term list list \<Rightarrow> Diagnostic option" where
  "ambiguity expression arms =
     (if length arms < 2 then None
      else if list_all (\<lambda>arm. length arm = length (hd arms)) arms then None
      else Some \<lparr>diag_severity = Warning, diag_code = GATE_PRECEDENCE_AMBIGUOUS,
                 diag_message = ambiguous_msg expression (derived_reading arms) (alternative_reading expression),
                 diag_entity = Some expression, diag_action = None\<rparr>)"

definition gate_disabled :: "string \<Rightarrow> bool" where
  "gate_disabled expression \<longleftrightarrow>
     list_ex (\<lambda>token. trim token = SKIP)
       (split_on (\<lambda>c. c = CHR ''/'' \<or> c = CHR '' '' \<or> c = CHR 0x09) expression)"

definition arms_apply :: "Archetype \<Rightarrow> (bool \<times> Vocabulary) list list \<Rightarrow> bool" where
  "arms_apply a classified =
     list_ex (list_all (\<lambda>(negated, vocabulary). satisfied vocabulary a \<noteq> negated)) classified"

definition resolve_gate :: "GuideGate \<Rightarrow> Archetype \<Rightarrow> LoweringError + Resolution" where
  "resolve_gate gate a =
     (let expression = trim (case gate of GuideGate s \<Rightarrow> s)
      in if gate_disabled expression then Inr (bare Disabled)
         else bind_res (parse_arms expression (split_char (CHR ''/'') expression)) (\<lambda>(arms, ds).
              bind_res (classify_arms expression arms) (\<lambda>classified.
                Inr (Resolution_new (if arms_apply a classified then Applies else DoesNotApply)
                       (ds @ (case ambiguity expression arms of None \<Rightarrow> [] | Some d \<Rightarrow> [d]))))))"

section \<open>Directives\<close>

definition malformed :: "string \<Rightarrow> string option \<Rightarrow> LoweringError" where
  "malformed name value =
     UnknownGateToken
       (case value of Some v \<Rightarrow> ''#'' @ name @ '' '' @ v | None \<Rightarrow> ''#'' @ name)
       (case value of Some v \<Rightarrow> v | None \<Rightarrow> [])"

definition phase_applies :: "string \<Rightarrow> string option \<Rightarrow> Archetype \<Rightarrow> LoweringError + bool" where
  "phase_applies name value a =
     bind_res (ok_or (malformed name value) value) (\<lambda>text.
     bind_res
       (case split_once (CHR ''-'') text of
          Some (low, high) \<Rightarrow>
            bind_res (ok_or (malformed name value) (parse_word (trim low) :: u8 option)) (\<lambda>l.
              map_res (\<lambda>h. (l, h)) (ok_or (malformed name value) (parse_word (trim high))))
        | None \<Rightarrow> map_res (\<lambda>single. (single, single)) (ok_or (malformed name value) (parse_word text)))
       (\<lambda>(low, high).
         Inr (case arch_content_phase a of Some phase \<Rightarrow> phase \<ge> low \<and> phase \<le> high | None \<Rightarrow> False)))"

text \<open>The digits after the point, each at its scale; \<open>None\<close> on \<open>u32\<close> overflow.\<close>

fun add_digits :: "nat \<Rightarrow> nat \<Rightarrow> string \<Rightarrow> nat option" where
  "add_digits milli scale [] = Some milli"
| "add_digits milli scale (d # ds) =
     (let milli' = milli + digit_val d * scale
      in if milli' < 2 ^ 32 then add_digits milli' (scale div 10) ds else None)"

definition parse_milli :: "string \<Rightarrow> u32 option" where
  "parse_milli text =
     (let (whole, fraction) =
            (case split_once (CHR ''.'') text of Some (w, f) \<Rightarrow> (w, f) | None \<Rightarrow> (text, []))
      in if whole = [] \<or> \<not> list_all ascii_digit whole then None
         else if length fraction > 3 \<or> \<not> list_all ascii_digit fraction then None
         else case (parse_word whole :: u32 option) of
                None \<Rightarrow> None
              | Some w \<Rightarrow>
                  if unat w * 1000 < 2 ^ 32
                  then map_option of_nat (add_digits (unat w * 1000) 100 fraction)
                  else None)"

definition xp_rate_applies :: "string \<Rightarrow> string option \<Rightarrow> Archetype \<Rightarrow> LoweringError + bool" where
  "xp_rate_applies name value a =
     bind_res (ok_or (malformed name value) value) (\<lambda>text.
     bind_res
       (case strip_prefix_char (CHR ''<'') text of
          Some rest \<Rightarrow> Inr (True, rest)
        | None \<Rightarrow> map_res (\<lambda>rest. (False, rest)) (ok_or (malformed name value) (strip_prefix_char (CHR ''>'') text)))
       (\<lambda>(less_than, rest).
         map_res (\<lambda>threshold. if less_than then arch_xp_rate_milli a < threshold
                              else arch_xp_rate_milli a > threshold)
           (ok_or (malformed name value) (parse_milli (trim rest)))))"

definition season_applies :: "string \<Rightarrow> string option \<Rightarrow> Archetype \<Rightarrow> LoweringError + bool" where
  "season_applies name value a =
     bind_res (ok_or (malformed name value) value) (\<lambda>text.
       map_res (\<lambda>season. arch_season a = Some season) (ok_or (malformed name value) (parse_word text)))"

definition directive_applies :: "string \<Rightarrow> string option \<Rightarrow> Archetype \<Rightarrow> LoweringError + bool" where
  "directive_applies name value a =
     (if name = ''aldor'' then Inr (arch_allegiance a = Some Aldor)
      else if name = ''scryer'' then Inr (arch_allegiance a = Some Scryer)
      else if name = ''hardcore'' then Inr (arch_hardcore a)
      else if name = ''softcore'' then Inr (\<not> arch_hardcore a)
      else if name = ''hardcoreserver'' then Inr (arch_hardcore_server a)
      else if name = ''softcoreserver'' then Inr (\<not> arch_hardcore_server a)
      else if name = ''ah'' then Inr (\<not> arch_self_found a)
      else if name = ''ssf'' then Inr (arch_self_found a)
      else if name = ''flyable'' then Inr (arch_can_fly a)
      else if name = ''noflyable'' then Inr (\<not> arch_can_fly a)
      else if name = ''questguide'' then Inr (arch_mode a = QuestGuide)
      else if name = ''tbc'' then Inr (arch_expansion a = ExpTbc)
      else if name = ''wotlk'' then Inr (arch_expansion a = ExpWotlk)
      else if name = ''classic'' then Inr (arch_expansion a = ExpClassic)
      else if name = ''phase'' then phase_applies name value a
      else if name = ''xprate'' then xp_rate_applies name value a
      else if name = ''season'' then season_applies name value a
      else Inr True)"

definition resolve_directive :: "GuideDirective \<Rightarrow> Archetype \<Rightarrow> LoweringError + Resolution" where
  "resolve_directive directive a =
     bind_res
       (case dir_gate directive of
          None \<Rightarrow> Inr (bare Applies)
        | Some gate \<Rightarrow> resolve_gate gate a)
       (\<lambda>gated.
         if res_outcome gated \<noteq> Applies then Inr gated
         else map_res
                (\<lambda>applies. Resolution_new (if applies then Applies else DoesNotApply) (res_diagnostics gated))
                (directive_applies (to_ascii_lowercase (trim (dir_name directive)))
                   (map_option trim (dir_value directive)) a))"

section \<open>Dungeons\<close>

definition dungeon_normalised_msg :: "string \<Rightarrow> string \<Rightarrow> string" where
  "dungeon_normalised_msg authored canonical =
     backticked (''.dungeon '' @ authored) @ '' names the same instance as ''
     @ backticked (''.dungeon '' @ canonical) @ ''; the argument is normalised to '' @ backticked canonical
     @ ''. The upper-case spellings are 127 of the 1,351 corpus uses, so this is a case split in the ''
     @ ''guide pack, not a different dungeon.''"

definition resolve_dungeon :: "string \<Rightarrow> Archetype \<Rightarrow> LoweringError + Resolution" where
  "resolve_dungeon argument a =
     (let trimmed = trim argument;
          (negated, rest) =
            (case strip_prefix_char (CHR ''!'') trimmed of
               Some rest \<Rightarrow> (True, trim rest)
             | None \<Rightarrow> (False, trimmed));
          (canonical, ds) =
            (case map_of DUNGEON_NORMALISATIONS rest of
               Some canonical \<Rightarrow>
                 (canonical,
                  [\<lparr>diag_severity = Warning, diag_code = GATE_TOKEN_NORMALISED,
                    diag_message = dungeon_normalised_msg rest canonical,
                    diag_entity = Some trimmed, diag_action = None\<rparr>])
             | None \<Rightarrow> (rest, []))
      in case map_of DUNGEON_ARGUMENTS canonical of
           None \<Rightarrow> Inl (UnknownGateToken (''.dungeon '' @ trimmed) rest)
         | Some instance_id \<Rightarrow>
             Inr (Resolution_new
                    (if (arch_mode a = Dungeon instance_id) \<noteq> negated then Applies else DoesNotApply) ds))"

section \<open>Structured gates\<close>

text \<open>
  The reference reading of a gate: a disjunction of conjunctions of possibly negated tokens, printed
  the way the grammar of the source's header writes it.
\<close>

type_synonym sgate = "(bool \<times> string) list list"

definition term_text :: "bool \<times> string \<Rightarrow> string" where
  "term_text t = (if fst t then CHR ''!'' # snd t else snd t)"

definition gate_text :: "sgate \<Rightarrow> string" where
  "gate_text arms = join ''/'' (map (\<lambda>arm. join '' '' (map term_text arm)) arms)"

definition token_value :: "Archetype \<Rightarrow> bool \<times> string \<Rightarrow> bool" where
  "token_value a t = ((case classify (snd t) of None \<Rightarrow> False | Some v \<Rightarrow> satisfied v a) \<noteq> fst t)"

definition gate_value :: "Archetype \<Rightarrow> sgate \<Rightarrow> bool" where
  "gate_value a arms = list_ex (list_all (token_value a)) arms"

definition known_gate :: "sgate \<Rightarrow> bool" where
  "known_gate arms \<longleftrightarrow>
     arms \<noteq> [] \<and> list_all (\<lambda>arm. arm \<noteq> [] \<and> list_all (\<lambda>t. classify (snd t) \<noteq> None) arm) arms"

lemma split_on_append: "p d \<Longrightarrow> split_on p (a @ d # b) = split_on p a @ split_on p b"
  by (induction a) (auto split: list.splits)

lemma split_on_none: "\<forall>c\<in>set a. \<not> p c \<Longrightarrow> split_on p a = [a]"
  by (induction a) auto

lemma split_on_join: "p d \<Longrightarrow> ws \<noteq> [] \<Longrightarrow> split_on p (join [d] ws) = concat (map (split_on p) ws)"
proof (induction ws)
  case Nil
  then show ?case by simp
next
  case (Cons w ws)
  then show ?case by (cases ws) (simp_all add: split_on_append)
qed

lemma words_aux_word:
  "list_all word_char w \<Longrightarrow> words_aux cur (singles w @ cs) = words_aux (rev (singles w) @ cur) cs"
  by (induction w arbitrary: cur) (simp_all add: word_char_def)

lemma words_aux_flush: "cur \<noteq> [] \<Longrightarrow> words_aux cur ([CHR '' ''] # cs) = concat (rev cur) # words_aux [] cs"
  by (simp add: is_whitespace_single)

lemma ascii_word: "list_all word_char w \<Longrightarrow> ascii w"
  by (simp add: word_char_def ascii_def list_all_iff)

lemma words_aux_join:
  assumes "list_all (\<lambda>w. w \<noteq> [] \<and> list_all word_char w) ws"
  shows "words_aux [] (singles (join '' '' ws)) = ws"
  using assms
proof (induction ws)
  case Nil
  then show ?case by simp
next
  case (Cons w ws)
  then have w: "rev (singles w) \<noteq> []" "list_all word_char w" by simp_all
  show ?case
  proof (cases ws)
    case Nil
    with w words_aux_word [of w "[]" "[]"] show ?thesis by simp
  next
    case (Cons v vs)
    with w(2) words_aux_flush [OF w(1)] Cons.prems Cons.IH show ?thesis by (simp add: words_aux_word)
  qed
qed

lemma ascii_append [simp]: "ascii (a @ b) \<longleftrightarrow> ascii a \<and> ascii b"
  by (simp add: ascii_def)

lemma ascii_join: "ascii sep \<Longrightarrow> list_all ascii ws \<Longrightarrow> ascii (join sep ws)"
  by (induction sep ws rule: join.induct) (auto simp: ascii_def)

lemma split_whitespace_join:
  assumes "list_all (\<lambda>w. w \<noteq> [] \<and> list_all word_char w) ws"
  shows "split_whitespace (join '' '' ws) = ws"
proof -
  have "ascii (join '' '' ws)"
    using assms by (intro ascii_join) (auto simp: ascii_def list_all_iff word_char_def)
  with words_aux_join [OF assms] show ?thesis by (simp add: split_whitespace_def utf8_chars_ascii)
qed

definition token_char :: "char \<Rightarrow> bool" where
  "token_char c \<longleftrightarrow> ascii_digit c \<or> ascii_lower c \<or> ascii_upper c"

lemma token_char_facts:
  assumes "token_char c"
  shows "word_char c" "c \<noteq> CHR ''/''" "c \<noteq> CHR '' ''" "c \<noteq> CHR ''!''" "c \<noteq> CHR 0x09"
  using assms word_char_ident [of c]
  by (auto simp: token_char_def u_ident_def u_alpha_def u_digit_def ascii_digit_def ascii_lower_def ascii_upper_def)

lemma table_tokens:
  "list_all (\<lambda>(t, _). t \<noteq> [] \<and> list_all token_char t) CLASS_TOKENS"
  "list_all (\<lambda>(t, _). t \<noteq> [] \<and> list_all token_char t) RACE_TOKENS"
  "list_all (\<lambda>(t, _). t \<noteq> [] \<and> list_all token_char t) OTHER_TOKENS"
  by code_simp+

lemma classified_token:
  assumes "classify t \<noteq> None"
  shows "t \<noteq> [] \<and> list_all token_char t \<and> t \<noteq> ''skip'' \<and> map_of NORMALISATIONS t = None"
proof -
  have n: "classify ''skip'' = None" "classify ''Pala'' = None" "classify ''TBC'' = None" "classify ''WOTLK'' = None"
    by code_simp+
  then have "t \<noteq> ''skip''" "map_of NORMALISATIONS t = None"
    using assms by (auto simp: NORMALISATIONS_def)
  moreover have "t \<noteq> [] \<and> list_all token_char t"
    using assms table_tokens
    by (fastforce simp: classify_def list_all_iff token_char_def split: option.splits if_splits dest!: map_of_SomeD)
  ultimately show ?thesis by blast
qed

definition term_of_pair :: "bool \<times> string \<Rightarrow> Term" where
  "term_of_pair t = \<lparr>term_negated = fst t, term_authored = term_text t, term_canonical = snd t\<rparr>"

lemma parse_term_known:
  assumes "classify (snd t) \<noteq> None"
  shows "parse_term expression (term_text t) = (term_of_pair t, [])"
proof -
  from classified_token [OF assms] obtain c cs where c: "snd t = c # cs" "token_char c"
    and n: "map_of NORMALISATIONS (snd t) = None" by (cases "snd t") auto
  have "c \<noteq> CHR ''!''" using token_char_facts(4) [OF c(2)] .
  with c n show ?thesis
    by (cases "fst t") (simp_all add: parse_term_def term_text_def strip_prefix_char_def normalise_token_def term_of_pair_def)
qed

lemma term_text_word:
  assumes "classify (snd t) \<noteq> None"
  shows "term_text t \<noteq> [] \<and> list_all word_char (term_text t) \<and> (\<forall>c\<in>set (term_text t). c \<noteq> CHR ''/'' \<and> c \<noteq> CHR '' '' \<and> c \<noteq> CHR 0x09)"
proof -
  have k: "snd t \<noteq> []" "\<And>c. c \<in> set (snd t) \<Longrightarrow> token_char c"
    using classified_token [OF assms] by (auto simp: list_all_iff)
  have bang: "word_char (CHR ''!'')" by (simp add: word_char_def is_whitespace_single)
  show ?thesis
    using k token_char_facts bang by (auto simp: term_text_def list_all_iff)
qed

lemma parse_arms_known:
  "list_all (\<lambda>arm. arm \<noteq> [] \<and> list_all (\<lambda>t. classify (snd t) \<noteq> None) arm) arms \<Longrightarrow>
     parse_arms expression (map (\<lambda>arm. join '' '' (map term_text arm)) arms) = Inr (map (map term_of_pair) arms, [])"
proof (induction arms)
  case Nil
  then show ?case by simp
next
  case (Cons arm arms)
  have "term_text t \<noteq> [] \<and> list_all word_char (term_text t)" if "t \<in> set arm" for t
    using term_text_word [of t] Cons.prems that by (simp add: list_all_iff)
  then have "list_all (\<lambda>t. term_text t \<noteq> [] \<and> list_all word_char (term_text t)) arm"
    by (simp add: list_all_iff)
  then have "split_whitespace (join '' '' (map term_text arm)) = map term_text arm"
    by (intro split_whitespace_join) (simp add: list.pred_map o_def)
  moreover have "map (parse_term expression) (map term_text arm) = map (\<lambda>t. (term_of_pair t, [])) arm"
    using Cons.prems parse_term_known by (simp add: list_all_iff)
  ultimately show ?case using Cons by (simp add: o_def)
qed

lemma classify_arm_known:
  "list_all (\<lambda>t. classify (snd t) \<noteq> None) arm \<Longrightarrow>
     classify_arm expression (map term_of_pair arm) = Inr (map (\<lambda>t. (fst t, the (classify (snd t)))) arm)"
  by (induction arm) (auto simp: term_of_pair_def)

lemma classify_arms_known:
  "list_all (\<lambda>arm. list_all (\<lambda>t. classify (snd t) \<noteq> None) arm) arms \<Longrightarrow>
     classify_arms expression (map (map term_of_pair) arms) = Inr (map (map (\<lambda>t. (fst t, the (classify (snd t))))) arms)"
  by (induction arms) (simp_all add: classify_arm_known)

lemma arms_apply_known:
  assumes "known_gate arms"
  shows "arms_apply a (map (map (\<lambda>t. (fst t, the (classify (snd t))))) arms) = gate_value a arms"
proof -
  have "list_all (\<lambda>(n, v). satisfied v a \<noteq> n) (map (\<lambda>t. (fst t, the (classify (snd t)))) arm) = list_all (token_value a) arm"
    if "arm \<in> set arms" for arm
  proof -
    have "(satisfied (the (classify (snd t))) a \<noteq> fst t) = token_value a t" if "t \<in> set arm" for t
    proof -
      have "classify (snd t) \<noteq> None" using that \<open>arm \<in> set arms\<close> assms by (auto simp: known_gate_def list_all_iff)
      then show ?thesis by (auto simp: token_value_def)
    qed
    then show ?thesis by (simp add: list_all_iff)
  qed
  then show ?thesis by (auto simp: arms_apply_def gate_value_def list_ex_iff)
qed

lemma join_hd: "ws \<noteq> [] \<Longrightarrow> \<exists>r. join sep ws = hd ws @ r"
  by (cases "(sep, ws)" rule: join.cases) auto

lemma join_last: "ws \<noteq> [] \<Longrightarrow> \<exists>r. join sep ws = r @ last ws"
  by (induction sep ws rule: join.induct) auto

lemma gate_text_pieces:
  assumes "known_gate arms"
  shows "split_char (CHR ''/'') (gate_text arms) = map (\<lambda>arm. join '' '' (map term_text arm)) arms"
    and "\<not> gate_disabled (gate_text arms)"
    and "trim (gate_text arms) = gate_text arms"
proof -
  let ?p = "\<lambda>c. c = CHR ''/'' \<or> c = CHR '' '' \<or> c = CHR 0x09"
  have kn: "\<And>arm t. arm \<in> set arms \<Longrightarrow> t \<in> set arm \<Longrightarrow> classify (snd t) \<noteq> None"
    and ne: "arms \<noteq> []" "\<And>arm. arm \<in> set arms \<Longrightarrow> arm \<noteq> []"
    using assms by (auto simp: known_gate_def list_all_iff)
  note w = term_text_word [OF kn]
  have join_sub: "set (join sep ws) \<subseteq> set sep \<union> (\<Union>x\<in>set ws. set x)" for sep :: string and ws
    by (induction sep ws rule: join.induct) auto
  have arm_clean: "\<forall>c\<in>set (join '' '' (map term_text arm)). c \<noteq> CHR ''/''" if "arm \<in> set arms" for arm
    using join_sub [of "'' ''" "map term_text arm"] w [OF that] by fastforce
  show "split_char (CHR ''/'') (gate_text arms) = map (\<lambda>arm. join '' '' (map term_text arm)) arms"
    using ne(1) arm_clean
    by (simp add: split_char_def gate_text_def split_on_join split_on_none o_def concat_map_singleton cong: map_cong)
  have "split_on ?p (gate_text arms) = concat (map (map term_text) arms)"
    using ne w
    by (simp add: gate_text_def split_on_join split_on_none o_def concat_map_singleton cong: map_cong)
  moreover have "trim (term_text t) \<noteq> SKIP" if "arm \<in> set arms" "t \<in> set arm" for arm t
  proof -
    have "trim (term_text t) = term_text t"
      using w [OF that] by (intro trim_word) (auto simp: ascii_word list_all_iff)
    moreover have "term_text t \<noteq> ''skip''"
      using classified_token [OF kn [OF that]] by (auto simp: term_text_def)
    ultimately show ?thesis by (simp add: SKIP_def)
  qed
  ultimately show "\<not> gate_disabled (gate_text arms)"
    by (auto simp: gate_disabled_def list_ex_iff)
  obtain r where r: "gate_text arms = term_text (hd (hd arms)) @ r"
    using ne join_hd [of "map (\<lambda>arm. join '' '' (map term_text arm)) arms" "''/''"]
      join_hd [of "map term_text (hd arms)" "'' ''"] by (auto simp: gate_text_def hd_map)
  obtain r' where r': "gate_text arms = r' @ term_text (last (last arms))"
    using ne join_last [of "map (\<lambda>arm. join '' '' (map term_text arm)) arms" "''/''"]
      join_last [of "map term_text (last arms)" "'' ''"] by (auto simp: gate_text_def last_map)
  have h: "hd (hd arms) \<in> set (hd arms)" "hd arms \<in> set arms" "last (last arms) \<in> set (last arms)" "last arms \<in> set arms"
    using ne by simp_all
  have "word_char (hd (gate_text arms))" "gate_text arms \<noteq> []"
    using w [OF h(2,1)] unfolding r by (auto simp: list_all_iff)
  moreover have "word_char (last (gate_text arms))"
    using w [OF h(4,3)] unfolding r' by (auto simp: list_all_iff)
  moreover have "ascii (gate_text arms)"
    unfolding gate_text_def using w
    by (intro ascii_join) (auto simp: list_all_iff ascii_def word_char_def dest!: subsetD [OF join_sub])
  ultimately show "trim (gate_text arms) = gate_text arms" by (intro trim_word)
qed

lemma ambiguity_None_iff:
  "ambiguity expression arms = None \<longleftrightarrow> (\<forall>arm\<in>set arms. length arm = length (hd arms))"
  by (cases arms; cases "tl arms") (auto simp: ambiguity_def list_all_iff)

lemma parse_arms_ok:
  "parse_arms expression pieces = Inr (arms, ds) \<Longrightarrow> list_all (\<lambda>arm. arm \<noteq> []) arms \<and> length arms = length pieces"
  by (induction pieces arbitrary: arms ds) (auto simp: Let_def split: if_splits)

lemma classify_arm_ok:
  "classify_arm expression arm = Inr row \<Longrightarrow>
     list_all (\<lambda>t. classify (term_canonical t) \<noteq> None) arm
     \<and> row = map (\<lambda>t. (term_negated t, the (classify (term_canonical t)))) arm"
  by (induction arm arbitrary: row) (auto split: option.splits)

lemma classify_arms_ok:
  "classify_arms expression arms = Inr rows \<Longrightarrow>
     list_all (list_all (\<lambda>t. classify (term_canonical t) \<noteq> None)) arms
     \<and> rows = map (map (\<lambda>t. (term_negated t, the (classify (term_canonical t))))) arms"
  by (induction arms arbitrary: rows) (auto dest: classify_arm_ok)

section \<open>Thousandths\<close>

lemma split_once_digits:
  "list_all ascii_digit s \<Longrightarrow> split_once (CHR ''.'') (s @ CHR ''.'' # r) = Some (s, r)"
  by (induction s) (auto simp: ascii_digit_def)

definition milli_text :: "u32 \<Rightarrow> string" where
  "milli_text m =
     show_nat (unat m div 1000) @ ''.''
     @ [digit_char (unat m mod 1000 div 100), digit_char (unat m mod 100 div 10), digit_char (unat m mod 10)]"

lemma add_digits_three:
  "a < 10 \<Longrightarrow> b < 10 \<Longrightarrow> c < 10 \<Longrightarrow> n = w + a * 100 + b * 10 + c \<Longrightarrow> n < 2 ^ 32
     \<Longrightarrow> add_digits w 100 [digit_char a, digit_char b, digit_char c] = Some n"
  by simp

lemma parse_milli_text: "parse_milli (milli_text m) = Some m"
proof -
  let ?n = "unat m"
  have b: "?n < 2 ^ 32" using unsigned_less [of m] by simp
  have w: "parse_word (show_nat (?n div 1000)) = Some (of_nat (?n div 1000) :: u32)"
    using b by (simp add: parse_word_def)
  have u: "unat (of_nat (?n div 1000) :: u32) = ?n div 1000"
    using b by (simp add: unat_of_nat)
  have e: "?n div 1000 * 1000 + (?n mod 1000 div 100) * 100 + (?n mod 100 div 10) * 10 + ?n mod 10 = ?n"
  proof -
    have "?n mod 1000 mod 100 = ?n mod 100" "?n mod 100 mod 10 = ?n mod 10" by (simp_all add: mod_mod_cancel)
    then show ?thesis
      using div_mult_mod_eq [of ?n 1000] div_mult_mod_eq [of "?n mod 1000" 100] div_mult_mod_eq [of "?n mod 100" 10]
      by linarith
  qed
  have d: "?n mod 1000 div 100 < 10" "?n mod 100 div 10 < 10" "?n mod 10 < 10"
    by (simp_all add: less_mult_imp_div_less)
  have "add_digits (?n div 1000 * 1000) 100
      [digit_char (?n mod 1000 div 100), digit_char (?n mod 100 div 10), digit_char (?n mod 10)] = Some ?n"
    by (rule add_digits_three [OF _ _ _ e [symmetric] b]) (simp_all only: d)
  moreover have "?n div 1000 * 1000 < 2 ^ 32"
    using div_times_less_eq_dividend [of ?n 1000] b by (rule le_less_trans)
  ultimately show ?thesis
    using show_nat_digits [of "?n div 1000"]
    by (simp add: parse_milli_def milli_text_def split_once_digits w u)
qed

section \<open>Properties\<close>

text \<open>C7: the gate grammar is read with the documented precedence: for every gate over known tokens, printed
  with \<open>/\<close> between arms and spaces inside them, the outcome is the disjunction of the conjunctions of its
  tokens, and a diagnostic is emitted exactly when the arms are not parallel.\<close>

theorem resolve_gate_grammar:
  assumes "known_gate arms"
  shows "\<exists>ds. resolve_gate (GuideGate (gate_text arms)) a
             = Inr (Resolution_new (if gate_value a arms then Applies else DoesNotApply) ds)
           \<and> (ds = [] \<longleftrightarrow> (\<forall>arm\<in>set arms. length arm = length (hd arms)))"
proof -
  let ?e = "gate_text arms" and ?arms = "map (map term_of_pair) arms"
  have k: "list_all (\<lambda>arm. arm \<noteq> [] \<and> list_all (\<lambda>t. classify (snd t) \<noteq> None) arm) arms"
    and k': "list_all (\<lambda>arm. list_all (\<lambda>t. classify (snd t) \<noteq> None) arm) arms"
    and ne: "arms \<noteq> []"
    using assms by (auto simp: known_gate_def list_all_iff)
  let ?ds = "case ambiguity ?e ?arms of None \<Rightarrow> [] | Some d \<Rightarrow> [d]"
  have "resolve_gate (GuideGate ?e) a
      = Inr (Resolution_new (if gate_value a arms then Applies else DoesNotApply) ?ds)"
    by (simp add: resolve_gate_def gate_text_pieces [OF assms] parse_arms_known [OF k]
        classify_arms_known [OF k'] arms_apply_known [OF assms])
  moreover have "?ds = [] \<longleftrightarrow> (\<forall>arm\<in>set arms. length arm = length (hd arms))"
  proof -
    have "?ds = [] \<longleftrightarrow> ambiguity ?e ?arms = None" by (simp split: option.split)
    then show ?thesis using ne by (simp add: ambiguity_None_iff hd_map)
  qed
  ultimately show ?thesis by blast
qed

definition archetype0 :: Archetype where
  "archetype0 =
     \<lparr>arch_class = Warlock, arch_race = Gnome, arch_faction = Alliance, arch_expansion = ExpTbc,
      arch_allegiance = None, arch_hardcore = False, arch_self_found = False, arch_can_fly = False,
      arch_content_phase = None, arch_mode = SpeedRoute, arch_xp_rate_milli = 1495,
      arch_hardcore_server = False, arch_season = None\<rparr>"

lemma resolve_gate_grammar_witness:
  "\<exists>ds. resolve_gate (GuideGate ''Gnome !Warlock/Dwarf !Paladin'') archetype0 = Inr (Resolution_new DoesNotApply ds)
     \<and> ds = []"
proof -
  have k: "known_gate [[(False, ''Gnome''), (True, ''Warlock'')], [(False, ''Dwarf''), (True, ''Paladin'')]]"
    and t: "gate_text [[(False, ''Gnome''), (True, ''Warlock'')], [(False, ''Dwarf''), (True, ''Paladin'')]]
      = ''Gnome !Warlock/Dwarf !Paladin''"
    and v: "\<not> gate_value archetype0 [[(False, ''Gnome''), (True, ''Warlock'')], [(False, ''Dwarf''), (True, ''Paladin'')]]"
    by code_simp+
  from resolve_gate_grammar [OF k, of archetype0] t v show ?thesis by simp
qed

text \<open>gates fail closed. A gate that is neither refused nor switched off denotes one formula over known
  tokens, with at least one token per arm, and that formula decides it for every archetype: no unknown
  token is skipped and no evaluation order shows.\<close>

theorem resolve_gate_denotes:
  assumes "resolve_gate gate a = Inr r" and "res_outcome r \<noteq> Disabled"
  shows "\<exists>arms. known_gate arms
    \<and> (\<forall>b. \<exists>ds. resolve_gate gate b
          = Inr (Resolution_new (if gate_value b arms then Applies else DoesNotApply) ds))"
proof -
  obtain s where g: "gate = GuideGate s" by (cases gate)
  let ?e = "trim s"
  have nd: "\<not> gate_disabled ?e"
    using assms by (auto simp: resolve_gate_def g bare_def Resolution_new_def split: if_splits)
  with assms(1) obtain arms ds rows where p: "parse_arms ?e (split_char (CHR ''/'') ?e) = Inr (arms, ds)"
    and c: "classify_arms ?e arms = Inr rows"
    by (auto simp: resolve_gate_def g Let_def)
  let ?s = "map (map (\<lambda>t. (term_negated t, term_canonical t))) arms"
  have ne: "arms \<noteq> []" using parse_arms_ok [OF p] by (auto simp: split_char_def)
  have "known_gate ?s"
    using ne parse_arms_ok [OF p] classify_arms_ok [OF c] by (simp add: known_gate_def list_all_iff)
  moreover from this have "arms_apply b rows = gate_value b ?s" for b
    using arms_apply_known [of ?s b] classify_arms_ok [OF c] by (simp add: o_def)
  ultimately show ?thesis
    using nd p c by (intro exI [of _ ?s] conjI allI) (auto simp: resolve_gate_def g)
qed

lemma resolve_gate_denotes_witness:
  "\<exists>arms. known_gate arms
    \<and> (\<forall>b. \<exists>ds. resolve_gate (GuideGate ''Alliance/Horde !DK'') b
          = Inr (Resolution_new (if gate_value b arms then Applies else DoesNotApply) ds))"
proof (rule resolve_gate_denotes)
  show "resolve_gate (GuideGate ''Alliance/Horde !DK'') archetype0
      = Inr (Resolution_new Applies (res_diagnostics (projr (resolve_gate (GuideGate ''Alliance/Horde !DK'') archetype0))))"
    by code_simp
qed (simp add: Resolution_new_def)

text \<open>rates are read to the thousandth exactly, over the whole range of the field.\<close>

theorem parse_milli_exact: "parse_milli (milli_text m) = Some m"
  by (rule parse_milli_text)

definition xprate_directive :: "string \<Rightarrow> GuideDirective" where
  "xprate_directive v = \<lparr>dir_name = ''xprate'', dir_value = Some v, dir_gate = None, dir_line = 1\<rparr>"

text \<open>the two halves of the corpus's rate fork, \<open>#xprate <1.5\<close> and \<open>#xprate >1.49\<close>: for every archetype at
  least one applies, and both apply exactly for the nine rates strictly between 1.490 and 1.500.\<close>

theorem xprate_fork:
  "\<exists>o1 o2. resolve_directive (xprate_directive ''<1.5'') a = Inr (bare o1)
     \<and> resolve_directive (xprate_directive ''>1.49'') a = Inr (bare o2)
     \<and> (o1 = Applies \<or> o2 = Applies)
     \<and> (o1 = Applies \<and> o2 = Applies \<longleftrightarrow> 1490 < unat (arch_xp_rate_milli a) \<and> unat (arch_xp_rate_milli a) < 1500)"
proof -
  have t: "trim ''<1.5'' = ''<1.5''" "trim ''>1.49'' = ''>1.49''" "trim ''1.5'' = ''1.5''" "trim ''1.49'' = ''1.49''"
    "to_ascii_lowercase (trim ''xprate'') = ''xprate''"
    "parse_milli ''1.5'' = Some 1500" "parse_milli ''1.49'' = Some 1490"
    by code_simp+
  have "resolve_directive (xprate_directive ''<1.5'') a = Inr (bare (if arch_xp_rate_milli a < 1500 then Applies else DoesNotApply))"
    "resolve_directive (xprate_directive ''>1.49'') a = Inr (bare (if arch_xp_rate_milli a > 1490 then Applies else DoesNotApply))"
    by (simp_all add: resolve_directive_def xprate_directive_def directive_applies_def xp_rate_applies_def
        strip_prefix_char_def t bare_def Resolution_new_def)
  then show ?thesis
    by (intro exI [of _ "if arch_xp_rate_milli a < 1500 then Applies else DoesNotApply"]
        exI [of _ "if arch_xp_rate_milli a > 1490 then Applies else DoesNotApply"] conjI)
      (auto simp: word_less_nat_alt split: if_splits)
qed

text \<open>a \<open>.dungeon\<close> argument selects exactly its own dungeon's profile, and its negation exactly all others,
  for all 19 instances.\<close>

theorem resolve_dungeon_complement:
  assumes "(name, d) \<in> set DUNGEON_ARGUMENTS"
  shows "resolve_dungeon name a = Inr (bare (if arch_mode a = Dungeon d then Applies else DoesNotApply))
    \<and> resolve_dungeon (CHR ''!'' # name) a = Inr (bare (if arch_mode a = Dungeon d then DoesNotApply else Applies))"
proof -
  have "list_all (\<lambda>(n, i). trim n = n \<and> trim (CHR ''!'' # n) = CHR ''!'' # n
      \<and> strip_prefix_char (CHR ''!'') n = None \<and> map_of DUNGEON_NORMALISATIONS n = None
      \<and> map_of DUNGEON_ARGUMENTS n = Some i) DUNGEON_ARGUMENTS"
    by code_simp
  with assms show ?thesis
    by (auto simp: list_all_iff resolve_dungeon_def strip_prefix_char_def bare_def)
qed

lemma resolve_dungeon_complement_witness:
  "resolve_dungeon ''ZF'' archetype0 = Inr (bare DoesNotApply) \<and> resolve_dungeon ''!ZF'' archetype0 = Inr (bare Applies)"
  using resolve_dungeon_complement [of "''ZF''" Zf archetype0]
  by (simp add: DUNGEON_ARGUMENTS_def archetype0_def)

end
