(* ===== verification/Waypoint_Route.thy ===== *)
theory Waypoint_Route
  imports Kernel_Model
begin

text \<open>
  Movement lowering, \<^verbatim>\<open>SentinelQuesting/compiler/src/kernel/route.rs\<close>: the deduplicating waypoint pool and
  the splitting of a movement run into one \<open>Route\<close> per medium. The pool is the list of its points.
  The locale \<open>append_pool\<close> is what a client of a pool relies on: an index handed out stays valid and
  keeps naming the same point whatever is interned later.
\<close>

section \<open>Threading a state through a list\<close>

fun thread :: "('a \<Rightarrow> 's \<Rightarrow> 'b \<times> 's) \<Rightarrow> 'a list \<Rightarrow> 's \<Rightarrow> 'b list \<times> 's" where
  "thread f [] s = ([], s)"
| "thread f (x # xs) s =
     (let (y, s1) = f x s; (ys, s2) = thread f xs s1 in (y # ys, s2))"

locale append_pool =
  fixes put :: "'p \<Rightarrow> 's \<Rightarrow> u32 \<times> 's"
    and pts :: "'s \<Rightarrow> 'p list"
    and same :: "'p \<Rightarrow> 'p \<Rightarrow> bool"
  assumes put_grows: "put x s = (i, s') \<Longrightarrow> \<exists>ys. pts s' = pts s @ ys \<and> length ys \<le> 1"
    and put_found: "put x s = (i, s') \<Longrightarrow> length (pts s') \<le> 2 ^ 32 \<Longrightarrow>
          unat i < length (pts s') \<and> same x (pts s' ! unat i)"
begin

lemma thread_put:
  assumes "thread put xs s = (is, s')"
  shows "(\<exists>ys. pts s' = pts s @ ys \<and> length ys \<le> length xs)
    \<and> (length (pts s') \<le> 2 ^ 32 \<longrightarrow> list_all2 (\<lambda>x i. unat i < length (pts s') \<and> same x (pts s' ! unat i)) xs is)"
  using assms
proof (induction xs arbitrary: s "is")
  case Nil
  then show ?case by simp
next
  case (Cons x xs)
  obtain i s1 where 1: "put x s = (i, s1)" by (cases "put x s")
  obtain js s2 where 2: "thread put xs s1 = (js, s2)" by (cases "thread put xs s1")
  with 1 Cons.prems(1) have r: "is = i # js" "s2 = s'" by simp_all
  note 2 = 2 [unfolded r(2)]
  obtain ys where ys: "pts s1 = pts s @ ys" "length ys \<le> 1" using put_grows [OF 1] by blast
  from Cons.IH [OF 2] obtain zs where zs: "pts s' = pts s1 @ zs" "length zs \<le> length xs"
    and f2: "length (pts s') \<le> 2 ^ 32 \<Longrightarrow> list_all2 (\<lambda>x i. unat i < length (pts s') \<and> same x (pts s' ! unat i)) xs js"
    by blast
  have "unat i < length (pts s') \<and> same x (pts s' ! unat i)" if "length (pts s') \<le> 2 ^ 32"
    using put_found [OF 1] that zs(1) by (simp add: nth_append)
  with f2 zs ys r show ?case by simp
qed

end

section \<open>The pool\<close>

type_synonym WaypointPool = "Point list"

definition intern :: "Point \<Rightarrow> WaypointPool \<Rightarrow> u32 \<times> WaypointPool" where
  "intern point points =
     (case position_of (\<lambda>held. point_eq held point) points of
        Some index \<Rightarrow> (of_nat index, points)
      | None \<Rightarrow> (of_nat (length points), points @ [point]))"

text \<open>The interned point is the point itself or one that compares equal to it.\<close>

definition same_point :: "Point \<Rightarrow> Point \<Rightarrow> bool" where
  "same_point p q \<longleftrightarrow> q = p \<or> point_eq q p"

interpretation pool: append_pool intern "\<lambda>s. s" same_point
proof unfold_locales
  fix x s i s'
  assume h: "intern x s = (i, s')"
  show "\<exists>ys. s' = s @ ys \<and> length ys \<le> 1"
    using h by (auto simp: intern_def split: option.splits)
  assume l: "length s' \<le> 2 ^ 32"
  show "unat i < length s' \<and> same_point x (s' ! unat i)"
  proof (cases "position_of (\<lambda>held. point_eq held x) s")
    case None
    with h l show ?thesis by (auto simp: intern_def same_point_def unat_of_nat)
  next
    case (Some k)
    with position_of_Some [OF this] h l show ?thesis
      by (auto simp: intern_def same_point_def unat_of_nat)
  qed
qed

definition pool_distinct :: "WaypointPool \<Rightarrow> bool" where
  "pool_distinct points \<longleftrightarrow>
     (\<forall>i j. i < length points \<longrightarrow> j < length points \<longrightarrow> i \<noteq> j \<longrightarrow> \<not> point_eq (points ! i) (points ! j))"

lemma f32_opt_eq_sym: "f32_opt_eq a b = f32_opt_eq b a"
  by (cases a; cases b) (auto simp: f32_opt_eq_def f32_eq_sym)

lemma point_eq_sym: "point_eq p q = point_eq q p"
  by (auto simp: point_eq_def f32_eq_sym f32_opt_eq_sym)

lemma pool_distinct_snoc:
  "pool_distinct ps \<Longrightarrow> \<forall>q\<in>set ps. \<not> point_eq q p \<Longrightarrow> pool_distinct (ps @ [p])"
  unfolding pool_distinct_def
proof (intro allI impI notI)
  fix i j
  assume d: "\<forall>i j. i < length ps \<longrightarrow> j < length ps \<longrightarrow> i \<noteq> j \<longrightarrow> \<not> point_eq (ps ! i) (ps ! j)"
    and p: "\<forall>q\<in>set ps. \<not> point_eq q p" and b: "i < length (ps @ [p])" "j < length (ps @ [p])" "i \<noteq> j"
    and e: "point_eq ((ps @ [p]) ! i) ((ps @ [p]) ! j)"
  have p': "\<not> point_eq (ps ! k) p" "\<not> point_eq p (ps ! k)" if "k < length ps" for k
    using p that point_eq_sym [of p "ps ! k"] by simp_all
  consider "i < length ps" "j < length ps" | "i < length ps" "j = length ps" | "i = length ps" "j < length ps"
    using b by fastforce
  then show False using d p' b(3) e by cases (simp_all add: nth_append)
qed

lemma intern_distinct: "pool_distinct s \<Longrightarrow> intern p s = (i, s') \<Longrightarrow> pool_distinct s'"
  by (auto simp: intern_def position_of_None pool_distinct_snoc split: option.splits)

section \<open>Routes\<close>

record Movement =
  mv_point :: Point
  mv_radius :: u16
  mv_mode :: TravelMode

definition travel_mode :: "TravelMedium \<Rightarrow> TravelMode" where
  "travel_mode medium =
     (case medium of MediumAny \<Rightarrow> ModeAny | MediumGround \<Rightarrow> ModeGround | MediumAir \<Rightarrow> ModeAir)"

definition route_kind_for :: "bool \<Rightarrow> nat \<Rightarrow> RouteKind" where
  "route_kind_for looping n =
     (if looping then Circuit True else if n \<le> 1 then Destination else Corridor)"

text \<open>One turn of the outer \<open>while\<close> loop: the segment runs up to the first movement of another mode.\<close>

function lower_route :: "bool \<Rightarrow> Movement list \<Rightarrow> WaypointPool \<Rightarrow> Route list \<times> WaypointPool" where
  "lower_route looping [] s = ([], s)"
| "lower_route looping (m # ms) s =
     (let mode = mv_mode m;
          segment = m # takeWhile (\<lambda>movement. mv_mode movement = mode) ms;
          (points, s1) = thread (\<lambda>movement. intern (mv_point movement)) segment s;
          radii = map mv_radius segment;
          route = \<lparr>route_kind = route_kind_for looping (length points), route_mode = mode,
                   route_points = points, route_radii = radii\<rparr>;
          (routes, s2) = lower_route looping (dropWhile (\<lambda>movement. mv_mode movement = mode) ms) s1
      in (route # routes, s2))"
  by pat_completeness auto
termination
  by (relation "measure (\<lambda>(looping, ms, s). length ms)") (auto simp: le_imp_less_Suc length_dropWhile_le)

lemma thread_map: "thread (\<lambda>x. f (g x)) xs s = thread f (map g xs) s"
  by (induction xs arbitrary: s) auto

lemma thread_distinct: "pool_distinct s \<Longrightarrow> thread intern ps s = (is, s') \<Longrightarrow> pool_distinct s'"
  by (induction ps arbitrary: s "is") (auto split: prod.splits dest: intern_distinct)

lemma thread_append:
  "thread f (xs @ ys) s =
     (let (a, s1) = thread f xs s; (b, s2) = thread f ys s1 in (a @ b, s2))"
  by (induction xs arbitrary: s) (auto split: prod.splits)

lemma length_thread: "thread f xs s = (ys, s') \<Longrightarrow> length ys = length xs"
  by (induction xs arbitrary: s ys) (auto split: prod.splits)

text \<open>One segment and the routes of what follows it.\<close>

lemma lower_route_step:
  assumes "lower_route looping (m # ms) s = (routes, s')"
  obtains seg rest points s1 routes' where
    "seg = m # takeWhile (\<lambda>x. mv_mode x = mv_mode m) ms"
    "rest = dropWhile (\<lambda>x. mv_mode x = mv_mode m) ms"
    "thread intern (map mv_point seg) s = (points, s1)"
    "lower_route looping rest s1 = (routes', s')"
    "routes = \<lparr>route_kind = route_kind_for looping (length points), route_mode = mv_mode m,
               route_points = points, route_radii = map mv_radius seg\<rparr> # routes'"
    "seg @ rest = m # ms"
proof -
  let ?seg = "m # takeWhile (\<lambda>x. mv_mode x = mv_mode m) ms" and ?rest = "dropWhile (\<lambda>x. mv_mode x = mv_mode m) ms"
  obtain points s1 where 1: "thread intern (map mv_point ?seg) s = (points, s1)"
    by (cases "thread intern (map mv_point ?seg) s")
  obtain routes' s2 where 2: "lower_route looping ?rest s1 = (routes', s2)"
    by (cases "lower_route looping ?rest s1")
  show thesis
    by (rule that [of ?seg ?rest points s1 routes'])
      (use assms 1 2 in \<open>simp_all add: thread_map [of intern mv_point] Let_def split: prod.splits\<close>)
qed

text \<open>The points are interned in movement order, and the modes, radii and kinds are those of the segments.\<close>

lemma lower_route_points:
  "lower_route looping ms s = (routes, s') \<Longrightarrow>
     thread intern (map mv_point ms) s = (concat (map route_points routes), s')"
proof (induction "length ms" arbitrary: ms s routes rule: less_induct)
  case less
  show ?case
  proof (cases ms)
    case Nil
    with less.prems show ?thesis by simp
  next
    case (Cons m ms')
    obtain seg rest points s1 routes' where
      h: "seg = m # takeWhile (\<lambda>x. mv_mode x = mv_mode m) ms'" "rest = dropWhile (\<lambda>x. mv_mode x = mv_mode m) ms'"
        "thread intern (map mv_point seg) s = (points, s1)"
        "lower_route looping rest s1 = (routes', s')"
        "routes = \<lparr>route_kind = route_kind_for looping (length points), route_mode = mv_mode m,
               route_points = points, route_radii = map mv_radius seg\<rparr> # routes'" "seg @ rest = m # ms'"
      by (rule lower_route_step [OF less.prems [unfolded Cons]]) (rule that)
    have "length rest < length ms" using arg_cong [OF h(6), of length] h(1) Cons by simp
    note IH = less.hyps [OF this h(4)]
    have "thread intern (map mv_point seg @ map mv_point rest) s = (points @ concat (map route_points routes'), s')"
      by (simp only: thread_append h(3) IH Let_def prod.case)
    then show ?thesis by (simp add: Cons h(5) flip: h(6))
  qed
qed

definition route_ok :: "bool \<Rightarrow> Route \<Rightarrow> bool" where
  "route_ok looping r \<longleftrightarrow>
     route_points r \<noteq> [] \<and> length (route_radii r) = length (route_points r)
     \<and> route_kind r = route_kind_for looping (length (route_points r))"

definition route_modes :: "Route list \<Rightarrow> TravelMode list" where
  "route_modes routes = concat (map (\<lambda>r. replicate (length (route_points r)) (route_mode r)) routes)"

lemma lower_route_shape:
  "lower_route looping ms s = (routes, s') \<Longrightarrow>
     concat (map route_radii routes) = map mv_radius ms \<and> route_modes routes = map mv_mode ms
     \<and> list_all (route_ok looping) routes
     \<and> successively (\<lambda>r r'. route_mode r \<noteq> route_mode r') routes
     \<and> (routes \<noteq> [] \<longrightarrow> ms \<noteq> [] \<and> route_mode (hd routes) = mv_mode (hd ms))"
proof (induction "length ms" arbitrary: ms s routes rule: less_induct)
  case less
  show ?case
  proof (cases ms)
    case Nil
    with less.prems show ?thesis by (simp add: route_modes_def)
  next
    case (Cons m ms')
    obtain seg rest points s1 routes' where
      h: "seg = m # takeWhile (\<lambda>x. mv_mode x = mv_mode m) ms'" "rest = dropWhile (\<lambda>x. mv_mode x = mv_mode m) ms'"
        "thread intern (map mv_point seg) s = (points, s1)" "lower_route looping rest s1 = (routes', s')"
        "routes = \<lparr>route_kind = route_kind_for looping (length points), route_mode = mv_mode m,
               route_points = points, route_radii = map mv_radius seg\<rparr> # routes'" "seg @ rest = m # ms'"
      by (rule lower_route_step [OF less.prems [unfolded Cons]]) (rule that)
    have "length rest < length ms" using arg_cong [OF h(6), of length] h(1) Cons by simp
    note IH = less.hyps [OF this h(4)]
    have l: "length points = length seg" using length_thread [OF h(3)] by simp
    then have ne: "points \<noteq> []" using h(1) by auto
    have "map mv_mode seg = replicate (length seg) (mv_mode m)"
      unfolding h(1) by (auto intro!: map_replicate_const [THEN trans, rotated] map_cong dest: set_takeWhileD simp: map_replicate_const [symmetric] simp del: map_replicate_const)
    moreover have "rest \<noteq> [] \<Longrightarrow> mv_mode (hd rest) \<noteq> mv_mode m" unfolding h(2) by (rule hd_dropWhile)
    ultimately show ?thesis
      using IH l ne unfolding Cons h(6) [symmetric] h(5)
      by (auto simp: route_modes_def route_ok_def h(1) successively_Cons)
  qed
qed

section \<open>Properties\<close>

definition point0 :: "f32 \<Rightarrow> Point" where
  "point0 x = \<lparr>pt_map_id = 530, pt_x = x, pt_y = 0, pt_z = None\<rparr>"

text \<open>C9: no movement is lost, reordered or moved: the points, radii and media of a run, read off its routes,
  are those of its movements, and every index names the authored coordinate in the final pool, which
  extends the pool the run started from.\<close>

theorem lower_route_faithful:
  assumes "lower_route looping movements pool = (routes, pool')" and "length pool' \<le> 2 ^ 32"
  shows "(\<exists>new. pool' = pool @ new)
    \<and> list_all2 (\<lambda>m i. unat i < length pool' \<and> same_point (mv_point m) (pool' ! unat i))
        movements (concat (map route_points routes))
    \<and> concat (map route_radii routes) = map mv_radius movements
    \<and> route_modes routes = map mv_mode movements"
  using pool.thread_put [OF lower_route_points [OF assms(1)]] lower_route_shape [OF assms(1)] assms(2)
  by (auto simp: list_all2_map1)

definition moves0 :: "Movement list" where
  "moves0 = [\<lparr>mv_point = point0 1, mv_radius = 5, mv_mode = ModeAny\<rparr>, \<lparr>mv_point = point0 2, mv_radius = 0, mv_mode = ModeAny\<rparr>,
     \<lparr>mv_point = point0 1, mv_radius = 7, mv_mode = ModeAir\<rparr>]"

lemma lower_route_faithful_witness:
  "list_all2 (\<lambda>m i. unat i < 3 \<and> same_point (mv_point m) ([point0 2, point0 1] ! unat i)) moves0 [1, 0, 1]"
proof -
  have "lower_route False moves0 [point0 2]
      = ([\<lparr>route_kind = Corridor, route_mode = ModeAny, route_points = [1, 0], route_radii = [5, 0]\<rparr>,
          \<lparr>route_kind = Destination, route_mode = ModeAir, route_points = [1], route_radii = [7]\<rparr>],
         [point0 2, point0 1])"
    by code_simp
  from lower_route_faithful [OF this] show ?thesis
    by (simp add: moves0_def)
qed

text \<open>a run is split exactly where its medium changes: routes are never empty, carry one radius per point,
  have the documented kind, and neighbours differ in medium, so no route could be longer.\<close>

theorem lower_route_maximal:
  assumes "lower_route looping movements pool = (routes, pool')"
  shows "list_all (route_ok looping) routes \<and> successively (\<lambda>r r'. route_mode r \<noteq> route_mode r') routes"
  using lower_route_shape [OF assms] by simp

lemma lower_route_maximal_witness:
  "\<exists>routes pool'. lower_route True moves0 [] = (routes, pool') \<and> length routes = 2
     \<and> list_all (route_ok True) routes \<and> successively (\<lambda>r r'. route_mode r \<noteq> route_mode r') routes"
proof -
  obtain routes pool' where h: "lower_route True moves0 [] = (routes, pool')" by (cases "lower_route True moves0 []")
  moreover have "length (fst (lower_route True moves0 [])) = 2" by code_simp
  ultimately show ?thesis using lower_route_maximal [OF h] by simp
qed

text \<open>the pool holds each coordinate once: lowering any run keeps the pool free of two entries that compare
  equal.\<close>

theorem lower_route_pool_distinct:
  assumes "pool_distinct pool" and "lower_route looping movements pool = (routes, pool')"
  shows "pool_distinct pool'"
  using thread_distinct [OF assms(1) lower_route_points [OF assms(2)]] .

lemma lower_route_pool_distinct_witness:
  "pool_distinct (snd (lower_route True moves0 []))"
  by (rule lower_route_pool_distinct [of "[]" True moves0 "fst (lower_route True moves0 [])"]) (simp_all add: pool_distinct_def)

end
