(* ===== verification/Combat_Policy.thy ===== *)
theory Combat_Policy
  imports Kernel_Model
begin

text \<open>
  Combat policy lowering, \<^verbatim>\<open>SentinelQuesting/compiler/src/kernel/combat.rs\<close>: the profile default and the
  per-task override that is emitted only when it differs from it.
\<close>

definition DEFAULT_LEASH_YARDS :: u16 where "DEFAULT_LEASH_YARDS = 40"

definition profile_default :: CombatPolicy where
  "profile_default =
     \<lparr>cp_stance = StanceDefensive, cp_targets = [], cp_watch_units = [],
      cp_leash_yards = DEFAULT_LEASH_YARDS, cp_allow_adds = True, cp_expect_group = GroupSolo\<rparr>"

definition npc_ref_of :: "CreatureRef \<Rightarrow> NpcRef" where
  "npc_ref_of creature =
     \<lparr>nref_entry = creature_entry creature, nref_expect_name = creature_name creature, nref_pos = None\<rparr>"

text \<open>The two nested loops of \<open>lower_combat\<close>, over the state \<open>(targets, watch_units)\<close>.\<close>

definition add_creature :: "bool \<Rightarrow> CreatureRef \<Rightarrow> NpcRef list \<times> NpcRef list \<Rightarrow> NpcRef list \<times> NpcRef list" where
  "add_creature watch creature acc =
     (let (targets, watch_units) = acc; reference = npc_ref_of creature
      in (push_new reference targets,
          if watch then push_new reference watch_units else watch_units))"

definition add_kill :: "KillTargetAction \<Rightarrow> NpcRef list \<times> NpcRef list \<Rightarrow> NpcRef list \<times> NpcRef list" where
  "add_kill kill acc = fold (add_creature (kill_watch kill)) (kill_creatures kill) acc"

definition grinds_experience :: "Predicate option \<Rightarrow> bool" where
  "grinds_experience complete_when \<longleftrightarrow>
     (case complete_when of Some (PXpAtLeast _ _) \<Rightarrow> True | Some (PLevelAtLeast _) \<Rightarrow> True | _ \<Rightarrow> False)"

definition completes_objective :: "Predicate option \<Rightarrow> bool" where
  "completes_objective complete_when \<longleftrightarrow>
     (case complete_when of Some (PQuestObjective _ _ _) \<Rightarrow> True | _ \<Rightarrow> False)"

definition stance_for ::
  "KillTargetAction list \<Rightarrow> bool \<Rightarrow> Predicate option \<Rightarrow> bool \<Rightarrow> CombatStance \<Rightarrow> CombatStance" where
  "stance_for kills looping complete_when named_a_mob fallback =
     (let farms_an_objective = looping \<and> named_a_mob \<and> completes_objective complete_when
      in if grinds_experience complete_when \<or> farms_an_objective then StanceAggressive
         else if kills \<noteq> [] then StanceObjective
         else fallback)"

text \<open>\<open>Iterator::max\<close>.\<close>

definition iter_max :: "'a::linorder list \<Rightarrow> 'a option" where
  "iter_max xs = (if xs = [] then None else Some (fold max (tl xs) (hd xs)))"

definition op_radius :: "Op \<Rightarrow> u16 option" where
  "op_radius op1 = (case op1 of OpTravel route \<Rightarrow> iter_max (route_radii route) | _ \<Rightarrow> None)"

definition leash_for :: "bool \<Rightarrow> Op list \<Rightarrow> u16 option" where
  "leash_for looping ops =
     (if \<not> looping then None
      else case iter_max (List.map_filter op_radius ops) of
             None \<Rightarrow> None
           | Some radius \<Rightarrow> if radius > 0 then Some radius else None)"

definition lower_combat ::
  "KillTargetAction list \<Rightarrow> bool \<Rightarrow> Predicate option \<Rightarrow> Op list \<Rightarrow> CombatPolicy option" where
  "lower_combat kills looping complete_when ops =
     (let (targets, watch_units) = fold add_kill kills ([], []);
          named_a_mob = list_ex (\<lambda>kill. \<not> kill_watch kill) kills;
          stance = stance_for kills looping complete_when named_a_mob (cp_stance profile_default);
          policy =
            \<lparr>cp_stance = stance, cp_targets = targets, cp_watch_units = watch_units,
             cp_leash_yards = (case leash_for looping ops of Some r \<Rightarrow> r | None \<Rightarrow> cp_leash_yards profile_default),
             cp_allow_adds = (case stance of StanceAggressive \<Rightarrow> True | StanceObjective \<Rightarrow> False
                              | _ \<Rightarrow> cp_allow_adds profile_default),
             cp_expect_group = cp_expect_group profile_default\<rparr>
      in if policy \<noteq> profile_default then Some policy else None)"

section \<open>Lemmas\<close>

lemma add_creatures:
  "fold (add_creature w) cs (ts, us) =
     (fold push_new (map npc_ref_of cs) ts, if w then fold push_new (map npc_ref_of cs) us else us)"
  by (induction cs arbitrary: ts us) (auto simp: add_creature_def Let_def)

definition named_creatures :: "KillTargetAction list \<Rightarrow> NpcRef list" where
  "named_creatures kills = concat (map (\<lambda>k. map npc_ref_of (kill_creatures k)) kills)"

lemma add_kills:
  "fold add_kill kills (ts, us) =
     (fold push_new (named_creatures kills) ts, fold push_new (named_creatures (filter kill_watch kills)) us)"
  by (induction kills arbitrary: ts us) (auto simp: add_kill_def add_creatures named_creatures_def)

lemma fold_max_ge: "m \<le> fold max xs (m :: 'a::linorder) \<and> (\<forall>x\<in>set xs. x \<le> fold max xs m) \<and> fold max xs m \<in> insert m (set xs)"
proof (induction xs arbitrary: m)
  case Nil
  then show ?case by simp
next
  case (Cons x xs)
  from Cons [of "max x m"] show ?case by (auto simp: max_def split: if_splits)
qed

lemma iter_max_Some:
  "iter_max xs = Some m \<Longrightarrow> m \<in> set xs \<and> (\<forall>x\<in>set xs. x \<le> m)"
  using fold_max_ge [of "hd xs" "tl xs"] by (cases xs) (auto simp: iter_max_def split: if_splits)

lemma iter_max_None [simp]: "iter_max xs = None \<longleftrightarrow> xs = []"
  by (simp add: iter_max_def)

lemma emitted_or_default:
  "(case (if p \<noteq> d then Some p else None) of Some q \<Rightarrow> q | None \<Rightarrow> d) = p"
  by simp

lemma profile_default_simps:
  "cp_stance profile_default = StanceDefensive" "cp_leash_yards profile_default = 40"
  "cp_allow_adds profile_default" "cp_expect_group profile_default = GroupSolo"
  by (simp_all add: profile_default_def DEFAULT_LEASH_YARDS_def)

lemma allow_adds_eq:
  "(case stance of StanceAggressive \<Rightarrow> True | StanceObjective \<Rightarrow> False
    | _ \<Rightarrow> cp_allow_adds profile_default) = (stance \<noteq> StanceObjective)"
  by (cases stance) (simp_all add: profile_default_simps)

lemma effective_policy:
  "(case lower_combat kills looping cw ops of Some p \<Rightarrow> p | None \<Rightarrow> profile_default) =
     (let stance = stance_for kills looping cw (list_ex (\<lambda>kill. \<not> kill_watch kill) kills) StanceDefensive
      in \<lparr>cp_stance = stance, cp_targets = fold push_new (named_creatures kills) [],
          cp_watch_units = fold push_new (named_creatures (filter kill_watch kills)) [],
          cp_leash_yards = (case leash_for looping ops of Some r \<Rightarrow> r | None \<Rightarrow> 40),
          cp_allow_adds = (stance \<noteq> StanceObjective), cp_expect_group = GroupSolo\<rparr>)"
  unfolding lower_combat_def add_kills Let_def prod.case emitted_or_default allow_adds_eq profile_default_simps
  by (rule refl)

lemma leash_covers:
  assumes "looping" and "OpTravel route \<in> set ops" and "r \<in> set (route_radii route)"
  shows "r \<le> (case leash_for looping ops of Some l \<Rightarrow> l | None \<Rightarrow> 40)"
proof -
  let ?radii = "List.map_filter op_radius ops"
  obtain m where m: "iter_max (route_radii route) = Some m" "r \<le> m"
    using assms(3) iter_max_Some by (cases "iter_max (route_radii route)") auto
  then have "m \<in> set ?radii"
    using assms(2) by (force simp: List.map_filter_def op_radius_def image_iff)
  then obtain l where l: "iter_max ?radii = Some l" "m \<le> l"
    using iter_max_Some by (cases "iter_max ?radii") auto
  show ?thesis
  proof (cases "l > 0")
    case True
    with l m assms(1) show ?thesis by (simp add: leash_for_def)
  next
    case False
    then have "r = 0" using m(2) l(2) by (auto simp: word_le_nat_alt word_less_nat_alt unat_eq_0)
    then show ?thesis by simp
  qed
qed

lemma leash_positive: "0 < (case leash_for looping ops of Some l \<Rightarrow> l | None \<Rightarrow> 40)"
  by (auto simp: leash_for_def split: option.splits)

section \<open>Properties\<close>

text \<open>the policy a task fights under, its own or the profile default: it targets exactly the creatures its
  kill lines name, each once, watches only units it targets, never leashes to zero, and on a circuit
  leashes at least as wide as every radius of the circuit.\<close>

theorem lower_combat_effective:
  assumes "p = (case lower_combat kills looping complete_when ops of Some p \<Rightarrow> p | None \<Rightarrow> profile_default)"
  shows "set (cp_targets p) = set (named_creatures kills) \<and> distinct (cp_targets p)
    \<and> set (cp_watch_units p) \<subseteq> set (cp_targets p) \<and> distinct (cp_watch_units p)
    \<and> 0 < cp_leash_yards p
    \<and> (looping \<longrightarrow> (\<forall>route r. OpTravel route \<in> set ops \<longrightarrow> r \<in> set (route_radii route) \<longrightarrow> r \<le> cp_leash_yards p))"
proof -
  have "cp_targets p = fold push_new (named_creatures kills) []"
    "cp_watch_units p = fold push_new (named_creatures (filter kill_watch kills)) []"
    "cp_leash_yards p = (case leash_for looping ops of Some r \<Rightarrow> r | None \<Rightarrow> 40)"
    by (simp_all only: assms effective_policy Let_def CombatPolicy.select_convs)
  moreover have "set (named_creatures (filter kill_watch kills)) \<subseteq> set (named_creatures kills)"
    by (auto simp: named_creatures_def)
  ultimately show ?thesis using leash_positive leash_covers by simp
qed

definition kill0 :: "bool \<Rightarrow> u32 \<Rightarrow> KillTargetAction" where
  "kill0 watch e =
     \<lparr>kill_creature_entries = [e], kill_creatures = [\<lparr>creature_entry = e, creature_name = ''Crab''\<rparr>],
      kill_watch = watch, kill_quantity = None, kill_loot = False, kill_ignore_elites = False\<rparr>"

lemma lower_combat_effective_witness:
  "\<exists>p. lower_combat [kill0 False 7, kill0 True 8, kill0 False 7] True (Some (PQuestObjective 983 1 6))
          [OpTravel \<lparr>route_kind = Circuit True, route_mode = ModeAny, route_points = [0, 1], route_radii = [0, 60]\<rparr>] = Some p
     \<and> cp_leash_yards p = 60 \<and> cp_stance p = StanceAggressive \<and> distinct (cp_targets p) \<and> length (cp_targets p) = 2"
proof -
  let ?l = "lower_combat [kill0 False 7, kill0 True 8, kill0 False 7] True (Some (PQuestObjective 983 1 6))
          [OpTravel \<lparr>route_kind = Circuit True, route_mode = ModeAny, route_points = [0, 1], route_radii = [0, 60]\<rparr>]"
  have "?l \<noteq> None \<and> cp_leash_yards (the ?l) = 60 \<and> cp_stance (the ?l) = StanceAggressive \<and> length (cp_targets (the ?l)) = 2"
    by code_simp
  then obtain p where p: "?l = Some p" "cp_leash_yards p = 60" "cp_stance p = StanceAggressive" "length (cp_targets p) = 2"
    by auto
  from p(1) have "p = (case ?l of Some p \<Rightarrow> p | None \<Rightarrow> profile_default)" by simp
  from lower_combat_effective [OF this] p show ?thesis by blast
qed

end
