(* ===== verification/Task_Graph.thy ===== *)
theory Task_Graph
  imports Archetype_Gates Waypoint_Route Combat_Policy
begin

text \<open>
  The step graph, \<^verbatim>\<open>SentinelQuesting/compiler/src/kernel/task_graph.rs\<close>: authored operations become
  \<open>SurvivingStep\<close>s (gates decided, movement runs turned into routes, conditions into predicates), and
  the survivors become \<open>Task\<close>s with their edges, lifetimes and derived predicates. Pushes to the
  diagnostics are returned as lists; the waypoint pool is threaded. \<open>sh\<close> is the \<open>Display\<close> of the
  \<open>uuid\<close> crate.
\<close>

datatype CompilerError = UnresolvedNpc | UnresolvedQuest | KernelLowering LoweringError

fun kernel_res :: "LoweringError + 'a \<Rightarrow> CompilerError + 'a" where
  "kernel_res (Inl e) = Inl (KernelLowering e)"
| "kernel_res (Inr a) = Inr a"

definition FIRST_HOLDING_BAND :: u8 where "FIRST_HOLDING_BAND = 34"
definition RIDE_ALONG_BAND :: u8 where "RIDE_ALONG_BAND = 30"
definition OWN_PREDICATE_BUDGET_TICKS :: u16 where "OWN_PREDICATE_BUDGET_TICKS = 60"
definition RIDE_ALONG_BUDGET_TICKS :: u16 where "RIDE_ALONG_BUDGET_TICKS = 30"
definition DEFAULT_ARRIVAL_RADIUS_YARDS :: u16 where "DEFAULT_ARRIVAL_RADIUS_YARDS = 5"

record SurvivingStep =
  st_ops :: "Op list"
  st_labels :: "string list"
  st_requires :: "string list"
  st_complete_with :: "CompleteWithTarget list"
  st_sticky :: bool
  st_looping :: bool
  st_kills :: "KillTargetAction list"
  st_blocking :: bool
  st_complete_when :: "Predicate option"
  st_applies_when :: "Predicate option"
  st_loot_filter :: "LootRule list"
  st_lines :: "(u32 \<times> u32) option"

section \<open>Gates\<close>

definition gate_applies :: "GuideGate option \<Rightarrow> Archetype \<Rightarrow> CompilerError + (bool \<times> Diagnostic list)" where
  "gate_applies gate a =
     (case gate of
        None \<Rightarrow> Inr (True, [])
      | Some g \<Rightarrow>
          map_res (\<lambda>resolution. (res_outcome resolution = Applies, res_diagnostics resolution))
            (kernel_res (resolve_gate g a)))"

text \<open>The loop over \<open>op.directives\<close>, left at the first one that does not apply.\<close>

fun directives_apply :: "Archetype \<Rightarrow> GuideDirective list \<Rightarrow> CompilerError + (bool \<times> Diagnostic list)" where
  "directives_apply a [] = Inr (True, [])"
| "directives_apply a (d # ds) =
     wbind (map_res (\<lambda>resolution. (res_outcome resolution = Applies, res_diagnostics resolution))
              (kernel_res (resolve_directive d a)))
       (\<lambda>applies. if applies then directives_apply a ds else Inr (False, []))"

text \<open>The loops that keep the gate-satisfied labels, requirements and completion links.\<close>

fun gated_values :: "Archetype \<Rightarrow> 'a Gated list \<Rightarrow> CompilerError + ('a list \<times> Diagnostic list)" where
  "gated_values a [] = Inr ([], [])"
| "gated_values a (g # gs) =
     wbind (gate_applies (gated_gate g) a) (\<lambda>applies.
     wbind (gated_values a gs) (\<lambda>vs. Inr (if applies then gated_value g # vs else vs, [])))"

section \<open>Predicates\<close>

definition fold_and :: "Predicate list \<Rightarrow> Predicate option" where
  "fold_and terms =
     (if length terms = 0 then None else if length terms = 1 then Some (last terms) else Some (PAnd terms))"

definition gated_lines :: "Operation \<Rightarrow> u32 list" where
  "gated_lines op1 =
     map of_nat
       (map gated_line (op_labels op1) @ map gated_line (op_requires op1)
        @ map gated_line (op_complete_with op1)
        @ (case op_optional op1 of None \<Rightarrow> [] | Some entry \<Rightarrow> [gated_line entry])
        @ map dir_line (op_directives op1))"

definition widen_span :: "u32 \<Rightarrow> (u32 \<times> u32) option \<Rightarrow> (u32 \<times> u32) option" where
  "widen_span line span =
     (case span of None \<Rightarrow> Some (line, line) | Some (low, high) \<Rightarrow> Some (min low line, max high line))"

definition authored_lines :: "Operation \<Rightarrow> (u32 \<times> u32) option" where
  "authored_lines op1 =
     (case (op_source_line_start op1, op_source_line_end op1) of
        (Some start, Some end1) \<Rightarrow> Some (start, max end1 start)
      | _ \<Rightarrow> fold widen_span (gated_lines op1) None)"

fun collect_loot_rules :: "QuestMeta \<Rightarrow> Predicate \<Rightarrow> LootRule list \<Rightarrow> LootRule list" where
  "collect_loot_rules meta (PQuestObjective q i need) out =
     (case objective_item meta q i of
        None \<Rightarrow> out
      | Some item \<Rightarrow> push_new \<lparr>lr_item = item, lr_for_quest = Some q\<rparr> out)"
| "collect_loot_rules meta (PAnd ps) out = fold (collect_loot_rules meta) ps out"
| "collect_loot_rules meta (POr ps) out = fold (collect_loot_rules meta) ps out"
| "collect_loot_rules meta (PNot p) out = collect_loot_rules meta p out"
| "collect_loot_rules meta _ out = out"

fun collect_objective_quests :: "Predicate \<Rightarrow> QuestId list \<Rightarrow> QuestId list" where
  "collect_objective_quests (PQuestObjective q i need) out = push_new q out"
| "collect_objective_quests (PAnd ps) out = fold collect_objective_quests ps out"
| "collect_objective_quests (POr ps) out = fold collect_objective_quests ps out"
| "collect_objective_quests (PNot p) out = collect_objective_quests p out"
| "collect_objective_quests _ out = out"

definition quest_log_gate :: "Predicate option \<Rightarrow> Predicate option" where
  "quest_log_gate complete_when =
     (case complete_when of
        None \<Rightarrow> None
      | Some p \<Rightarrow> fold_and (map PQuestInLog (collect_objective_quests p [])))"

definition hand_in_termination :: "Predicate option \<Rightarrow> QuestId list \<Rightarrow> Predicate option" where
  "hand_in_termination complete_when turned_in =
     (case complete_when of
        None \<Rightarrow> None
      | Some p \<Rightarrow>
          (case collect_objective_quests p [] of
             [quest] \<Rightarrow> if quest \<in> set turned_in then Some (PQuestTurnedIn quest) else None
           | _ \<Rightarrow> None))"

definition profile_default_unknown_policy :: UnknownPolicy where
  "profile_default_unknown_policy = Defer OWN_PREDICATE_BUDGET_TICKS"

fun is_irreversible :: "Op \<Rightarrow> bool" where
  "is_irreversible (OpTurnIn _ _ _ _ _) = True"
| "is_irreversible (OpAbandon _) = True"
| "is_irreversible (OpDestroyItem _) = True"
| "is_irreversible (OpDelegate _ _) = True"
| "is_irreversible _ = False"

fun is_monotone_player_progress :: "Predicate \<Rightarrow> bool" where
  "is_monotone_player_progress (PXpAtLeast _ _) = True"
| "is_monotone_player_progress (PLevelAtLeast _) = True"
| "is_monotone_player_progress _ = False"

definition unknown_policy :: "Op list \<Rightarrow> Predicate option \<Rightarrow> CompletionSource \<Rightarrow> UnknownPolicy" where
  "unknown_policy ops complete_when completion =
     (if list_ex is_irreversible ops then Block
      else if (case complete_when of None \<Rightarrow> False | Some p \<Rightarrow> is_monotone_player_progress p) then TreatFalse
      else case completion of
             LinkedTo _ \<Rightarrow> Defer RIDE_ALONG_BUDGET_TICKS
           | OwnPredicate \<Rightarrow> profile_default_unknown_policy)"

text \<open>The loop of \<open>linked_completion\<close>; \<open>visited\<close> is its \<open>HashSet\<close>.\<close>

function linked_walk ::
  "CompletionSource list \<Rightarrow> Predicate option list \<Rightarrow> nat list \<Rightarrow> nat \<Rightarrow> Predicate option" where
  "linked_walk completions complete_whens visited cursor =
     (if cursor < length completions then
        (case completions ! cursor of
           OwnPredicate \<Rightarrow> None
         | LinkedTo target \<Rightarrow>
             (let cursor' = unat target
              in if cursor' \<in> set visited then None
                 else if cursor' < length complete_whens then
                   (case complete_whens ! cursor' of
                      Some completion \<Rightarrow> Some completion
                    | None \<Rightarrow> linked_walk completions complete_whens (cursor' # visited) cursor')
                 else None))
      else None)"
  by pat_completeness auto
termination
  by (relation "measure (\<lambda>(cs, ws, visited, _). card ({..<length ws} - set visited))")
    (auto simp: card_gt_0_iff intro!: diff_less)

declare linked_walk.simps [simp del]

definition linked_completion ::
  "nat \<Rightarrow> CompletionSource list \<Rightarrow> Predicate option list \<Rightarrow> Predicate option" where
  "linked_completion index completions complete_whens =
     linked_walk completions complete_whens [index] index"

definition hand_in_of :: "Op \<Rightarrow> (QuestId \<times> bool) option" where
  "hand_in_of op1 = (case op1 of OpTurnIn quest any_of _ _ _ \<Rightarrow> Some (quest, any_of = []) | _ \<Rightarrow> None)"

definition hand_in_msg :: "nat \<Rightarrow> string" where
  "hand_in_msg n =
     ''this step hands in '' @ show_nat n @ '' quest(s) and ADR 07 '' @ section_sign
     @ ''7.3.3 witnesses the derived `QuestComplete` / `QuestTurnedIn` pair only for a single ''
     @ ''unambiguous hand-in. Neither half is emitted '' @ em_dash
     @ '' half a pair is a task that knows when it is finished but not when it may start, or the ''
     @ ''reverse '' @ em_dash @ '' so the task keeps whatever predicates it authored''"

definition hand_in_predicates :: "Op list \<Rightarrow> (Predicate \<times> Predicate) option \<times> Diagnostic list" where
  "hand_in_predicates ops =
     (let hand_ins = List.map_filter hand_in_of ops
      in case hand_ins of
           [] \<Rightarrow> (None, [])
         | [(quest, True)] \<Rightarrow> (Some (PQuestComplete quest, PQuestTurnedIn quest), [])
         | _ \<Rightarrow> (None, [diagnostic Warning ''HAND_IN_PREDICATES_NOT_DERIVED'' (hand_in_msg (length hand_ins)) None None]))"

fun collect_predicate_quests :: "Predicate \<Rightarrow> QuestId list \<Rightarrow> QuestId list" where
  "collect_predicate_quests (PQuestComplete q) out = push_new q out"
| "collect_predicate_quests (PQuestObjective q i need) out = push_new q out"
| "collect_predicate_quests (PQuestInLog q) out = push_new q out"
| "collect_predicate_quests (PQuestTurnedIn q) out = push_new q out"
| "collect_predicate_quests (PQuestAvailable q) out = push_new q out"
| "collect_predicate_quests (PAnd ps) out = fold collect_predicate_quests ps out"
| "collect_predicate_quests (POr ps) out = fold collect_predicate_quests ps out"
| "collect_predicate_quests (PNot p) out = collect_predicate_quests p out"
| "collect_predicate_quests _ out = out"

fun collect_op_quests :: "Op \<Rightarrow> QuestId list \<Rightarrow> QuestId list" where
  "collect_op_quests (OpAccept quest _) out = push_new quest out"
| "collect_op_quests (OpUntrackQuest quest) out = push_new quest out"
| "collect_op_quests (OpTurnIn quest any_of _ _ _) out = fold push_new any_of (push_new quest out)"
| "collect_op_quests (OpAbandon quests) out = fold push_new quests out"
| "collect_op_quests _ out = out"

definition serves_quests :: "Op list \<Rightarrow> Predicate list \<Rightarrow> QuestId list" where
  "serves_quests ops predicates =
     fold collect_predicate_quests predicates (fold collect_op_quests ops [])"

section \<open>Ops\<close>

fun breaks_movement_run :: "ActionPayload \<Rightarrow> bool" where
  "breaks_movement_run (Condition _) = False"
| "breaks_movement_run (Kill _) = False"
| "breaks_movement_run (Comment _) = False"
| "breaks_movement_run (Travel _) = False"
| "breaks_movement_run _ = True"

definition travel_msg :: "string \<Rightarrow> string" where
  "travel_msg destination =
     ''travel action to '' @ quoted destination @ '' carries no resolved position, so it contributes no ''
     @ ''waypoint to its route. The rest of the run is emitted rather than dropped '' @ em_dash
     @ '' dropping it would elide the whole step '' @ em_dash
     @ '' but the engine will not walk this line's coordinate.''"

definition travel_of :: "Action \<Rightarrow> TravelAction option" where
  "travel_of action = (case act_payload action of Travel travel \<Rightarrow> Some travel | _ \<Rightarrow> None)"

definition movement_of :: "TravelAction \<Rightarrow> Position \<Rightarrow> Movement" where
  "movement_of travel position =
     \<lparr>mv_point = \<lparr>pt_map_id = pos_map position, pt_x = pos_world_x position, pt_y = pos_world_y position,
                  pt_z = None\<rparr>,
      mv_radius = (case travel_authored_radius travel of Some r \<Rightarrow> r | None \<Rightarrow> DEFAULT_ARRIVAL_RADIUS_YARDS),
      mv_mode = travel_mode (travel_medium travel)\<rparr>"

text \<open>The loop of \<open>flush_route\<close>; only travel actions are on the run (its \<open>unreachable!\<close> arm).\<close>

fun run_movements :: "(uuid \<Rightarrow> string) \<Rightarrow> Action list \<Rightarrow> Movement list \<times> Diagnostic list" where
  "run_movements sh [] = ([], [])"
| "run_movements sh (action # run) =
     (let (movements, ds) = run_movements sh run
      in case travel_of action of
           None \<Rightarrow> (movements, ds)
         | Some travel \<Rightarrow>
             (case travel_position travel of
                None \<Rightarrow>
                  (movements,
                   diagnostic Warning ''TRAVEL_WITHOUT_POSITION'' (travel_msg (travel_destination travel))
                     (Some (travel_destination travel)) (Some (sh (act_id action))) # ds)
              | Some position \<Rightarrow> (movement_of travel position # movements, ds)))"

definition flush_route ::
  "(uuid \<Rightarrow> string) \<Rightarrow> Action list \<Rightarrow> bool \<Rightarrow> Op list \<Rightarrow> WaypointPool
     \<Rightarrow> Op list \<times> WaypointPool \<times> Diagnostic list" where
  "flush_route sh run looping ops pool =
     (if run = [] then (ops, pool, [])
      else let (movements, ds) = run_movements sh run;
               (routes, pool') = lower_route looping movements pool
           in (ops @ map OpTravel routes, pool', ds))"

definition reward_msg :: "u32 \<Rightarrow> u32 \<Rightarrow> string" where
  "reward_msg quest choice =
     ''`.turnin '' @ show_word quest @ ''` names reward '' @ show_word choice @ '', and ADR 07 '' @ section_sign
     @ ''7.1's `Op::TurnIn::reward_choice` is a `u8`. The choice is dropped rather than truncated ''
     @ em_dash @ '' the runtime will take the default reward''"

definition use_target_msg :: "u32 \<Rightarrow> string" where
  "use_target_msg item =
     ''`.use '' @ show_word item @ ''` names a target, and ADR 07 '' @ section_sign
     @ ''7.1's `Op::UseItem` carries only the item. The op is emitted without it''"

definition action_kind :: "ActionPayload \<Rightarrow> string" where
  "action_kind payload =
     (case payload of
        AcceptQuest _ \<Rightarrow> ''AcceptQuest'' | TurnInQuest _ \<Rightarrow> ''TurnInQuest'' | Travel _ \<Rightarrow> ''Travel''
      | Kill _ \<Rightarrow> ''Kill'' | GrindArea _ \<Rightarrow> ''GrindArea'' | LootObject _ \<Rightarrow> ''LootObject''
      | InteractNPC _ \<Rightarrow> ''InteractNPC'' | Vendor _ \<Rightarrow> ''Vendor'' | Repair _ \<Rightarrow> ''Repair''
      | Train _ \<Rightarrow> ''Train'' | Flight _ \<Rightarrow> ''Flight'' | LearnFlightPath _ \<Rightarrow> ''LearnFlightPath''
      | Hearth _ \<Rightarrow> ''Hearth'' | SetHearth _ \<Rightarrow> ''SetHearth'' | UseItem _ \<Rightarrow> ''UseItem''
      | Comment _ \<Rightarrow> ''Comment'' | Condition _ \<Rightarrow> ''Condition'' | SetVariable _ \<Rightarrow> ''SetVariable''
      | Escort _ \<Rightarrow> ''Escort'' | Patrol _ \<Rightarrow> ''Patrol'' | Bank _ \<Rightarrow> ''Bank''
      | Mailbox _ \<Rightarrow> ''Mailbox'' | Wait _ \<Rightarrow> ''Wait'')"

definition not_lowered_msg :: "string \<Rightarrow> string" where
  "not_lowered_msg kind =
     ''action '' @ kind @ '' survived archetype resolution but this deliverable lowers only ''
     @ ''AcceptQuest and Travel into kernel ops, so it is absent from the artifact''"

definition lower_op :: "(uuid \<Rightarrow> string) \<Rightarrow> Action \<Rightarrow> Op option \<times> Diagnostic list" where
  "lower_op sh action =
     (case act_payload action of
        AcceptQuest accept \<Rightarrow> (Some (OpAccept (accept_quest accept) False), [])
      | TurnInQuest turn_in \<Rightarrow>
          (let (reward, ds) =
             (case turnin_choose_reward turn_in of
                None \<Rightarrow> (None, [])
              | Some choice \<Rightarrow>
                  if unat choice < 2 ^ 8 then (Some (ucast choice), [])
                  else (None, [diagnostic Warning ''REWARD_CHOICE_OUT_OF_RANGE''
                                 (reward_msg (turnin_quest turn_in) choice) None (Some (sh (act_id action)))]))
           in (Some (OpTurnIn (turnin_quest turn_in) [] reward (turnin_optional turn_in) False), ds))
      | UseItem use_action \<Rightarrow>
          (Some (OpUseItem (use_item use_action)),
           if use_target use_action \<noteq> None
           then [diagnostic Warning ''USE_ITEM_TARGET_DROPPED'' (use_target_msg (use_item use_action))
                   None (Some (sh (act_id action)))]
           else [])
      | other \<Rightarrow>
          (None, [diagnostic Warning ''KERNEL_OP_NOT_LOWERED'' (not_lowered_msg (action_kind other))
                    None (Some (sh (act_id action)))]))"

section \<open>Resolving operations\<close>

text \<open>The mutable locals of one turn of the loop over \<open>project.operations\<close>.\<close>

record StepAcc =
  acc_ops :: "Op list"
  acc_completion_terms :: "Predicate list"
  acc_applicability_terms :: "Predicate list"
  acc_loot_filter :: "LootRule list"
  acc_kills :: "KillTargetAction list"
  acc_surviving_actions :: nat
  acc_run :: "Action list"
  acc_pool :: WaypointPool

definition acc_start :: "WaypointPool \<Rightarrow> StepAcc" where
  "acc_start pool =
     \<lparr>acc_ops = [], acc_completion_terms = [], acc_applicability_terms = [], acc_loot_filter = [],
      acc_kills = [], acc_surviving_actions = 0, acc_run = [], acc_pool = pool\<rparr>"

definition acc_flush :: "(uuid \<Rightarrow> string) \<Rightarrow> bool \<Rightarrow> StepAcc \<Rightarrow> StepAcc \<times> Diagnostic list" where
  "acc_flush sh looping acc =
     (let (ops, pool, ds) = flush_route sh (acc_run acc) looping (acc_ops acc) (acc_pool acc)
      in (acc\<lparr>acc_ops := ops, acc_pool := pool, acc_run := []\<rparr>, ds))"

text \<open>What the loop body does with an action that is enabled and whose gate applies.\<close>

definition surviving_action ::
  "(uuid \<Rightarrow> string) \<Rightarrow> QuestMeta \<Rightarrow> bool \<Rightarrow> Action \<Rightarrow> StepAcc \<Rightarrow> CompilerError + (StepAcc \<times> Diagnostic list)" where
  "surviving_action sh meta looping action acc0 =
     (let acc = acc0\<lparr>acc_surviving_actions := Suc (acc_surviving_actions acc0)\<rparr>
      in case act_payload action of
           Condition condition \<Rightarrow>
             map_res
               (\<lambda>predicate.
                  (case cond_role condition of
                     Completion \<Rightarrow>
                       acc\<lparr>acc_loot_filter := collect_loot_rules meta predicate (acc_loot_filter acc),
                           acc_completion_terms := acc_completion_terms acc @ [predicate]\<rparr>
                   | Applicability \<Rightarrow>
                       acc\<lparr>acc_applicability_terms := acc_applicability_terms acc @ [predicate]\<rparr>, []))
               (kernel_res (lower_predicate (cond_expression condition) meta))
         | Kill kill \<Rightarrow> Inr (acc\<lparr>acc_kills := acc_kills acc @ [kill]\<rparr>, [])
         | Travel _ \<Rightarrow> Inr (acc\<lparr>acc_run := acc_run acc @ [action]\<rparr>, [])
         | payload \<Rightarrow>
             if \<not> breaks_movement_run payload then Inr (acc, [])
             else (let (acc1, ds1) = acc_flush sh looping acc;
                       (lowered, ds2) = lower_op sh action
                   in Inr (case lowered of
                             None \<Rightarrow> acc1
                           | Some op1 \<Rightarrow> acc1\<lparr>acc_ops := acc_ops acc1 @ [op1]\<rparr>, ds1 @ ds2)))"

fun resolve_actions ::
  "(uuid \<Rightarrow> string) \<Rightarrow> Archetype \<Rightarrow> QuestMeta \<Rightarrow> bool \<Rightarrow> Action list \<Rightarrow> StepAcc
     \<Rightarrow> CompilerError + (StepAcc \<times> Diagnostic list)" where
  "resolve_actions sh a meta looping [] acc = Inr (acc, [])"
| "resolve_actions sh a meta looping (action # actions) acc =
     (if \<not> act_enabled action then resolve_actions sh a meta looping actions acc
      else wbind (gate_applies (act_gate action) a) (\<lambda>applies.
        if \<not> applies then resolve_actions sh a meta looping actions acc
        else wbind (surviving_action sh meta looping action acc) (resolve_actions sh a meta looping actions)))"

definition step_of ::
  "Archetype \<Rightarrow> Operation \<Rightarrow> StepAcc \<Rightarrow> CompilerError + (SurvivingStep \<times> Diagnostic list)" where
  "step_of a op1 acc =
     wbind (gated_values a (op_labels op1)) (\<lambda>labels.
     wbind (gated_values a (op_requires op1)) (\<lambda>requires.
     wbind (gated_values a (op_complete_with op1)) (\<lambda>complete_with.
     wbind (case op_optional op1 of
              None \<Rightarrow> Inr (True, [])
            | Some optional \<Rightarrow>
                map_res (\<lambda>(applies, ds). (\<not> applies, ds)) (gate_applies (gated_gate optional) a)) (\<lambda>blocking.
     Inr (\<lparr>st_ops = acc_ops acc, st_labels = labels, st_requires = requires,
           st_complete_with = complete_with, st_sticky = op_sticky op1, st_looping = op_looping op1,
           st_kills = acc_kills acc, st_blocking = blocking,
           st_complete_when = fold_and (acc_completion_terms acc),
           st_applies_when = fold_and (acc_applicability_terms acc),
           st_loot_filter = acc_loot_filter acc, st_lines = authored_lines op1\<rparr>, [])))))"

text \<open>One operation: no step when it is disabled, gated out or left without a surviving action.\<close>

definition resolve_operation ::
  "(uuid \<Rightarrow> string) \<Rightarrow> Archetype \<Rightarrow> QuestMeta \<Rightarrow> Operation \<Rightarrow> WaypointPool
     \<Rightarrow> CompilerError + ((SurvivingStep option \<times> WaypointPool) \<times> Diagnostic list)" where
  "resolve_operation sh a meta op1 pool =
     (if \<not> op_enabled op1 then Inr ((None, pool), [])
      else wbind (gate_applies (op_gate op1) a) (\<lambda>applies.
        if \<not> applies then Inr ((None, pool), [])
        else wbind (directives_apply a (op_directives op1)) (\<lambda>step_applies.
          if \<not> step_applies then Inr ((None, pool), [])
          else wbind (resolve_actions sh a meta (op_looping op1) (op_actions op1) (acc_start pool)) (\<lambda>acc1.
            let (acc, ds) = acc_flush sh (op_looping op1) acc1
            in if acc_surviving_actions acc = 0 then Inr ((None, acc_pool acc), ds)
               else map_res (\<lambda>(st, ds'). ((Some st, acc_pool acc), ds @ ds')) (step_of a op1 acc)))))"

fun resolve_operations ::
  "(uuid \<Rightarrow> string) \<Rightarrow> Archetype \<Rightarrow> QuestMeta \<Rightarrow> Operation list \<Rightarrow> WaypointPool
     \<Rightarrow> CompilerError + ((SurvivingStep list \<times> WaypointPool) \<times> Diagnostic list)" where
  "resolve_operations sh a meta [] pool = Inr (([], pool), [])"
| "resolve_operations sh a meta (op1 # ops) pool =
     wbind (resolve_operation sh a meta op1 pool) (\<lambda>(st, pool1).
     wbind (resolve_operations sh a meta ops pool1) (\<lambda>(sts, pool2).
     Inr ((case st of None \<Rightarrow> sts | Some s \<Rightarrow> s # sts, pool2), [])))"

section \<open>Assembling tasks\<close>

definition dup_label_msg :: "string \<Rightarrow> string" where
  "dup_label_msg label =
     ''#label '' @ quoted label @ '' is defined by more than one surviving step; the archetype did not ''
     @ ''separate them, so the later definition wins and every edge naming '' @ quoted label
     @ '' now points at it''"

type_synonym LabelTable = "string \<Rightarrow> TaskId option"

fun insert_labels :: "TaskId \<Rightarrow> string list \<Rightarrow> LabelTable \<Rightarrow> LabelTable \<times> Diagnostic list" where
  "insert_labels tid [] table = (table, [])"
| "insert_labels tid (label # labels) table =
     (let (table', ds) = insert_labels tid labels (table(label \<mapsto> tid))
      in (table',
          (if table label \<noteq> None
           then [diagnostic Warning ''DUPLICATE_STEP_LABEL'' (dup_label_msg label) (Some label) None]
           else []) @ ds))"

fun label_table_from :: "nat \<Rightarrow> SurvivingStep list \<Rightarrow> LabelTable \<Rightarrow> LabelTable \<times> Diagnostic list" where
  "label_table_from index [] table = (table, [])"
| "label_table_from index (step # steps) table =
     (let (table1, ds1) = insert_labels (of_nat index) (st_labels step) table;
          (table2, ds2) = label_table_from (Suc index) steps table1
      in (table2, ds1 @ ds2))"

definition build_label_table :: "SurvivingStep list \<Rightarrow> LabelTable \<times> Diagnostic list" where
  "build_label_table survivors = label_table_from 0 survivors (\<lambda>_. None)"

definition multiple_msg :: "nat \<Rightarrow> string" where
  "multiple_msg n =
     show_nat n @ '' `#completewith` entries survived gate resolution on one step, but a task has ''
     @ ''exactly one completion authority; the first is used and the rest are dropped''"

definition next_msg :: string where
  "next_msg =
     ''#completewith next names the following step, and this is the last step that survived for this ''
     @ ''archetype. The link is dropped and the task falls back to its own completion authority''"

definition unresolved_link_msg :: "string \<Rightarrow> string" where
  "unresolved_link_msg name =
     ''#completewith '' @ quoted name @ '' names a label no surviving step defines '' @ em_dash
     @ '' either the defining step was gated out for this archetype, or the label does not exist. The ''
     @ ''link is dropped and the task falls back to its own completion authority''"

definition self_link_msg :: string where
  "self_link_msg =
     ''#completewith resolves to the step that wrote it, so the task would wait on its own completion. ''
     @ ''The link is dropped and the task falls back to its own completion authority''"

definition resolve_completion ::
  "nat \<Rightarrow> SurvivingStep list \<Rightarrow> LabelTable \<Rightarrow> CompletionSource \<times> Diagnostic list" where
  "resolve_completion index survivors table =
     (let step = survivors ! index
      in case st_complete_with step of
           [] \<Rightarrow> (OwnPredicate, [])
         | target # _ \<Rightarrow>
             (let ds1 =
                    (if length (st_complete_with step) > 1
                     then [diagnostic Warning ''MULTIPLE_COMPLETEWITH''
                             (multiple_msg (length (st_complete_with step))) None None]
                     else []);
                  (resolved, ds2) =
                    (case target of
                       Next \<Rightarrow>
                         if index + 1 < length survivors then (Some (of_nat (index + 1) :: TaskId), [])
                         else (None, [diagnostic Error ''UNRESOLVED_COMPLETEWITH_NEXT'' next_msg None None])
                     | Label name \<Rightarrow>
                         (case table name of
                            Some t \<Rightarrow> (Some t, [])
                          | None \<Rightarrow>
                              (None, [diagnostic Error ''UNRESOLVED_COMPLETEWITH_LABEL''
                                        (unresolved_link_msg name) (Some name) None])))
              in case resolved of
                   None \<Rightarrow> (OwnPredicate, ds1 @ ds2)
                 | Some t \<Rightarrow>
                     if unat t \<noteq> index then (LinkedTo t, ds1 @ ds2)
                     else (OwnPredicate,
                           ds1 @ ds2 @ [diagnostic Error ''SELF_COMPLETEWITH'' self_link_msg None None])))"

definition self_requires_msg :: "string \<Rightarrow> string" where
  "self_requires_msg label =
     ''#requires '' @ quoted label @ '' names a label this very step defines, so the step would wait for ''
     @ ''itself forever. The edge is dropped''"

definition unresolved_requires_msg :: "string \<Rightarrow> string" where
  "unresolved_requires_msg label =
     ''#requires '' @ quoted label @ '' names a label no surviving step defines '' @ em_dash
     @ '' either the defining step was gated out for this archetype, or the label does not exist. The ''
     @ ''edge is dropped, so this step no longer waits for it''"

fun resolve_deps :: "LabelTable \<Rightarrow> TaskId \<Rightarrow> string list \<Rightarrow> TaskId list \<Rightarrow> TaskId list \<times> Diagnostic list" where
  "resolve_deps table tid [] deps = (deps, [])"
| "resolve_deps table tid (label # labels) deps =
     (case table label of
        Some dep \<Rightarrow>
          if dep = tid then
            (let (deps', ds) = resolve_deps table tid labels deps
             in (deps', diagnostic Error ''SELF_REQUIRES_LABEL'' (self_requires_msg label) (Some label) None # ds))
          else resolve_deps table tid labels (push_new dep deps)
      | None \<Rightarrow>
          (let (deps', ds) = resolve_deps table tid labels deps
           in (deps', diagnostic Error ''UNRESOLVED_REQUIRES_LABEL'' (unresolved_requires_msg label)
                        (Some label) None # ds)))"

definition is_movement :: "Op \<Rightarrow> bool" where
  "is_movement op1 = (case op1 of OpTravel _ \<Rightarrow> True | _ \<Rightarrow> False)"

definition saturated_msg :: "TaskId \<Rightarrow> string" where
  "saturated_msg tid =
     ''task '' @ show_word tid @ '' is the '' @ show_word (GOAL_BAND_end - FIRST_HOLDING_BAND + 1)
     @ ''th channel-holding concurrent task in this guide, and ADR 07 '' @ section_sign
     @ ''7.2's Goal band ends at '' @ show_word GOAL_BAND_end
     @ ''. Its band is clamped rather than pushed above the band 90-99 safety net, so it shares a band ''
     @ ''with its predecessor and '' @ section_sign @ ''5.3's per-task offset no longer separates them''"

definition no_termination_msg :: "TaskId \<Rightarrow> string" where
  "no_termination_msg tid =
     ''task '' @ show_word tid @ '' is concurrent but neither it nor the task it links to carries a ''
     @ ''completion predicate, so no voluntary termination condition can be derived from the guide. ''
     @ section_sign @ ''5.3 gives termination two routes and this task keeps only the second: the profile ''
     @ ''cursor passing it. An invented predicate would be worse '' @ em_dash
     @ '' a plausible wrong one is indistinguishable from a right one at every later stage''"

definition lower_lifetime ::
  "TaskId \<Rightarrow> SurvivingStep \<Rightarrow> CompletionSource \<Rightarrow> Predicate option \<Rightarrow> u8 \<Rightarrow> Lifetime \<times> u8 \<times> Diagnostic list" where
  "lower_lifetime tid step completion terminate_on holding_band =
     (let linked = (case completion of LinkedTo _ \<Rightarrow> True | OwnPredicate \<Rightarrow> False)
      in if \<not> st_sticky step \<and> \<not> linked then (Exclusive, holding_band, [])
         else let holds_movement = st_sticky step \<and> list_ex is_movement (st_ops step);
                  channels = (if holds_movement then [ChMovement] else []);
                  (band, holding_band', ds1) =
                    (if holds_movement then
                       (if holding_band = GOAL_BAND_end
                        then (holding_band, holding_band,
                              [diagnostic Warning ''BAND_OFFSET_SATURATED'' (saturated_msg tid) None None])
                        else (holding_band, holding_band + 1, []))
                     else (RIDE_ALONG_BAND, holding_band, []));
                  (term, ds2) =
                    (case terminate_on of
                       Some p \<Rightarrow> (p, [])
                     | None \<Rightarrow>
                         (POr [], [diagnostic Warning ''BACKGROUND_WITHOUT_TERMINATION''
                                     (no_termination_msg tid) None None]))
              in (Background channels band term, holding_band', ds1 @ ds2))"

text \<open>The vectors \<open>assemble_tasks\<close> derives before it builds any task, per survivor.\<close>

record Derived =
  dv_completion :: CompletionSource
  dv_applies_when :: "Predicate option"
  dv_complete_when :: "Predicate option"
  dv_terminate_on :: "Predicate option"

definition turned_in_quest :: "Op \<Rightarrow> QuestId option" where
  "turned_in_quest op1 = (case op1 of OpTurnIn quest _ _ _ _ \<Rightarrow> Some quest | _ \<Rightarrow> None)"

definition turned_in_quests :: "SurvivingStep list \<Rightarrow> QuestId list" where
  "turned_in_quests survivors = List.map_filter turned_in_quest (concat (map st_ops survivors))"

definition effective_completion :: "SurvivingStep \<Rightarrow> (Predicate \<times> Predicate) option \<Rightarrow> Predicate option" where
  "effective_completion step hand_in = or_else (st_complete_when step) (map_option snd hand_in)"

definition effective_applies :: "SurvivingStep \<Rightarrow> (Predicate \<times> Predicate) option \<Rightarrow> Predicate option \<Rightarrow> Predicate option" where
  "effective_applies step hand_in complete_when =
     or_else (st_applies_when step)
       (or_else (if st_complete_when step = None then map_option fst hand_in else None)
          (quest_log_gate complete_when))"

definition derive :: "SurvivingStep list \<Rightarrow> LabelTable \<Rightarrow> Derived list \<times> Diagnostic list" where
  "derive survivors table =
     (let n = length survivors;
          links = map (\<lambda>index. resolve_completion index survivors table) [0..<n];
          completions = map fst links;
          turned_in = turned_in_quests survivors;
          hands = map (\<lambda>step. hand_in_predicates (st_ops step)) survivors;
          hand_ins = map fst hands;
          complete_whens = map2 effective_completion survivors hand_ins;
          terminate_ons =
            map (\<lambda>index.
              or_else (hand_in_termination (complete_whens ! index) turned_in)
                (or_else (complete_whens ! index) (linked_completion index completions complete_whens))) [0..<n];
          applies_whens =
            map (\<lambda>index. effective_applies (survivors ! index) (hand_ins ! index) (complete_whens ! index)) [0..<n]
      in (map (\<lambda>index. \<lparr>dv_completion = completions ! index, dv_applies_when = applies_whens ! index,
                          dv_complete_when = complete_whens ! index, dv_terminate_on = terminate_ons ! index\<rparr>) [0..<n],
          concat (map snd links) @ concat (map snd hands)))"

definition opt_list :: "'a option \<Rightarrow> 'a list" where
  "opt_list x = (case x of None \<Rightarrow> [] | Some a \<Rightarrow> [a])"

definition lifetime_predicates :: "Lifetime \<Rightarrow> Predicate list" where
  "lifetime_predicates lifetime = (case lifetime of Exclusive \<Rightarrow> [] | Background _ _ terminate_on \<Rightarrow> [terminate_on])"

definition build_task ::
  "string \<Rightarrow> LabelTable \<Rightarrow> nat \<Rightarrow> SurvivingStep \<Rightarrow> Derived \<Rightarrow> u8 \<Rightarrow> Task \<times> u8 \<times> Diagnostic list" where
  "build_task source_file table index step dv holding_band =
     (let tid = of_nat index;
          (deps, ds1) = resolve_deps table tid (st_requires step) [];
          combat = lower_combat (st_kills step) (st_looping step) (dv_complete_when dv) (st_ops step);
          (lifetime, holding_band', ds2) =
            lower_lifetime tid step (dv_completion dv) (dv_terminate_on dv) holding_band;
          (line_start, line_end) = (case st_lines step of Some l \<Rightarrow> l | None \<Rightarrow> (0, 0));
          predicates = opt_list (dv_applies_when dv) @ opt_list (dv_complete_when dv) @ lifetime_predicates lifetime
      in (\<lparr>task_id = tid, task_deps = deps, task_blocking = st_blocking step, task_lifetime = lifetime,
           task_completion = dv_completion dv, task_applies_when = dv_applies_when dv,
           task_complete_when = dv_complete_when dv, task_abort_when = None,
           task_unknown_policy = unknown_policy (st_ops step) (dv_complete_when dv) (dv_completion dv),
           task_ops = st_ops step, task_interact_target = None, task_combat = combat,
           task_loot_filter = st_loot_filter step, task_serves_quests = serves_quests (st_ops step) predicates,
           task_suppress = [], task_jump_to = None,
           task_source = \<lparr>span_file = source_file, span_line_start = line_start, span_line_end = line_end\<rparr>\<rparr>,
          holding_band', ds1 @ ds2))"

fun build_tasks ::
  "string \<Rightarrow> LabelTable \<Rightarrow> nat \<Rightarrow> (SurvivingStep \<times> Derived) list \<Rightarrow> u8 \<Rightarrow> Task list \<times> Diagnostic list" where
  "build_tasks source_file table index [] holding_band = ([], [])"
| "build_tasks source_file table index ((step, dv) # rest) holding_band =
     (let (task, holding_band', ds) = build_task source_file table index step dv holding_band;
          (tasks, ds') = build_tasks source_file table (Suc index) rest holding_band'
      in (task # tasks, ds @ ds'))"

definition assemble_tasks :: "Project \<Rightarrow> SurvivingStep list \<Rightarrow> Task list \<times> Diagnostic list" where
  "assemble_tasks project survivors =
     (let (table, ds1) = build_label_table survivors;
          (derived, ds2) = derive survivors table;
          source_file = (case prj_import_metadata project of Some m \<Rightarrow> imp_source_file m | None \<Rightarrow> []);
          (tasks, ds3) = build_tasks source_file table 0 (zip survivors derived) FIRST_HOLDING_BAND
      in (tasks, ds1 @ ds2 @ ds3))"

definition lower_task_graph ::
  "(uuid \<Rightarrow> string) \<Rightarrow> Project \<Rightarrow> Archetype \<Rightarrow> WaypointPool \<Rightarrow> QuestMeta
     \<Rightarrow> CompilerError + ((Task list \<times> WaypointPool) \<times> Diagnostic list)" where
  "lower_task_graph sh project a pool meta =
     wbind (resolve_operations sh a meta (prj_operations project) pool) (\<lambda>(survivors, pool').
       let (tasks, ds) = assemble_tasks project survivors in Inr ((tasks, pool'), ds))"

end
