(* ===== verification/Task_Graph_Props.thy ===== *)
theory Task_Graph_Props
  imports Task_Graph
begin

text \<open>
  What the step graph promises: completion chains are followed to their end whatever cycles the guide
  contains; labels, dependency edges and completion links of the emitted tasks are in range and never
  reflexive; bands stay in the goal band and separate the tasks that hold the movement channel; every
  op comes from an action the archetype runs.
\<close>

section \<open>Inherited completions\<close>

text \<open>
  The specification of \<open>linked_completion\<close>: what a chain of \<open>LinkedTo\<close> leads to, as a relation without
  a visited set. \<open>inherits cs ws i p\<close>: following links from \<open>i\<close>, the first task that authors a
  completion authors \<open>p\<close>.
\<close>

inductive inherits :: "CompletionSource list \<Rightarrow> Predicate option list \<Rightarrow> nat \<Rightarrow> Predicate \<Rightarrow> bool"
  for cs ws where
  here: "i < length cs \<Longrightarrow> cs ! i = LinkedTo t \<Longrightarrow> unat t < length ws \<Longrightarrow> ws ! unat t = Some p
     \<Longrightarrow> inherits cs ws i p"
| there: "i < length cs \<Longrightarrow> cs ! i = LinkedTo t \<Longrightarrow> unat t < length ws \<Longrightarrow> ws ! unat t = None
     \<Longrightarrow> inherits cs ws (unat t) p \<Longrightarrow> inherits cs ws i p"

fun chain :: "CompletionSource list \<Rightarrow> Predicate option list \<Rightarrow> nat \<Rightarrow> nat \<Rightarrow> Predicate \<Rightarrow> bool" where
  "chain cs ws 0 i p \<longleftrightarrow>
     (\<exists>t. i < length cs \<and> cs ! i = LinkedTo t \<and> unat t < length ws \<and> ws ! unat t = Some p)"
| "chain cs ws (Suc n) i p \<longleftrightarrow>
     (\<exists>t. i < length cs \<and> cs ! i = LinkedTo t \<and> unat t < length ws \<and> ws ! unat t = None \<and> chain cs ws n (unat t) p)"

lemma inherits_chain: "inherits cs ws i p \<longleftrightarrow> (\<exists>n. chain cs ws n i p)"
proof
  assume "inherits cs ws i p"
  then show "\<exists>n. chain cs ws n i p"
  proof (induction rule: inherits.induct)
    case (here i t p)
    then have "chain cs ws 0 i p" by simp
    then show ?case by blast
  next
    case (there i t p)
    then obtain n where "chain cs ws n (unat t) p" by blast
    with there have "chain cs ws (Suc n) i p" by simp
    then show ?case by blast
  qed
next
  assume "\<exists>n. chain cs ws n i p"
  then obtain n where "chain cs ws n i p" by blast
  then show "inherits cs ws i p"
    by (induction n arbitrary: i) (auto intro: inherits.intros)
qed

lemma chain_unique: "chain cs ws n i p \<Longrightarrow> chain cs ws m i q \<Longrightarrow> n = m"
proof (induction n arbitrary: m i)
  case 0
  then show ?case by (cases m) auto
next
  case (Suc n)
  then show ?case by (cases m) auto
qed

lemma linked_walk_sound: "linked_walk cs ws visited i = Some p \<Longrightarrow> inherits cs ws i p"
proof (induction cs ws visited i rule: linked_walk.induct)
  case (1 cs ws visited i)
  from "1.prems" show ?case
    by (subst (asm) linked_walk.simps)
      (auto split: if_splits CompletionSource.splits option.splits simp: Let_def
        intro: inherits.here inherits.there [OF _ _ _ _ "1.IH"])
qed

lemma linked_walk_complete:
  assumes "chain cs ws n i p" and "\<forall>v\<in>set visited. v < length ws \<longrightarrow> ws ! v = None"
    and "\<forall>v\<in>set visited. \<exists>m q. n \<le> m \<and> chain cs ws m v q"
  shows "linked_walk cs ws visited i = Some p"
  using assms
proof (induction n arbitrary: i visited)
  case 0
  then obtain t where t: "i < length cs" "cs ! i = LinkedTo t" "unat t < length ws" "ws ! unat t = Some p" by auto
  then have "unat t \<notin> set visited" using 0(2) by fastforce
  with t show ?case by (subst linked_walk.simps) simp
next
  case (Suc n)
  then obtain t where t: "i < length cs" "cs ! i = LinkedTo t" "unat t < length ws" "ws ! unat t = None"
    and c: "chain cs ws n (unat t) p" by auto
  have new: "unat t \<notin> set visited"
  proof
    assume "unat t \<in> set visited"
    with Suc.prems(3) obtain m q where "Suc n \<le> m" "chain cs ws m (unat t) q" by blast
    with chain_unique [OF c] show False by fastforce
  qed
  have "linked_walk cs ws (unat t # visited) (unat t) = Some p"
  proof (rule Suc.IH [OF c])
    show "\<forall>v\<in>set (unat t # visited). v < length ws \<longrightarrow> ws ! v = None" using t(4) Suc.prems(2) by simp
    show "\<forall>v\<in>set (unat t # visited). \<exists>m q. n \<le> m \<and> chain cs ws m v q"
      using c Suc.prems(3) Suc_leD by (metis le_refl set_ConsD)
  qed
  with t new show ?case by (subst linked_walk.simps) simp
qed

lemma linked_completion_inherits:
  assumes "index < length ws" and "ws ! index = None"
  shows "linked_completion index cs ws = Some p \<longleftrightarrow> inherits cs ws index p"
proof
  assume "inherits cs ws index p"
  then obtain n where "chain cs ws n index p" by (auto simp: inherits_chain)
  then show "linked_completion index cs ws = Some p"
    unfolding linked_completion_def using assms(2)
    by (intro linked_walk_complete [where n = n]) auto
qed (simp add: linked_completion_def linked_walk_sound)

section \<open>Labels and edges\<close>

lemma fst_insert_labels:
  "fst (insert_labels t labels table) = (\<lambda>l. if l \<in> set labels then Some t else table l)"
  by (induction labels arbitrary: table) (auto simp: fun_eq_iff case_prod_unfold Let_def)

text \<open>A label names the last surviving step that defines it.\<close>

definition last_defining :: "SurvivingStep list \<Rightarrow> string \<Rightarrow> nat \<Rightarrow> bool" where
  "last_defining steps l i \<longleftrightarrow>
     i < length steps \<and> l \<in> set (st_labels (steps ! i))
     \<and> (\<forall>j. i < j \<longrightarrow> j < length steps \<longrightarrow> l \<notin> set (st_labels (steps ! j)))"

lemma last_defining_snoc:
  "last_defining (steps @ [st]) l i \<longleftrightarrow>
     (if l \<in> set (st_labels st) then i = length steps else last_defining steps l i)"
  by (auto simp: last_defining_def nth_append less_Suc_eq)

lemma label_table_from_snoc:
  "fst (label_table_from index (steps @ [st]) table) =
     fst (insert_labels (of_nat (index + length steps)) (st_labels st) (fst (label_table_from index steps table)))"
  by (induction steps arbitrary: index table) (simp_all add: case_prod_unfold Let_def add.assoc)

lemma build_label_table_snoc:
  "fst (build_label_table (steps @ [st])) =
     (\<lambda>l. if l \<in> set (st_labels st) then Some (of_nat (length steps)) else fst (build_label_table steps) l)"
  by (simp add: build_label_table_def label_table_from_snoc fst_insert_labels [abs_def] cong: if_cong)

lemma label_table_spec:
  "fst (build_label_table steps) l = Some t \<longleftrightarrow> (\<exists>i. last_defining steps l i \<and> t = of_nat i)"
proof (induction steps rule: rev_induct)
  case Nil
  then show ?case by (simp add: build_label_table_def last_defining_def)
next
  case (snoc st steps)
  then show ?case by (auto simp: build_label_table_snoc last_defining_snoc)
qed

lemma label_table_None:
  "fst (build_label_table steps) l = None \<longleftrightarrow> (\<forall>st\<in>set steps. l \<notin> set (st_labels st))"
  by (induction steps rule: rev_induct) (auto simp: build_label_table_snoc, simp add: build_label_table_def)

lemma unat_of_nat_less: "i < n \<Longrightarrow> n \<le> 2 ^ 32 \<Longrightarrow> unat (of_nat i :: u32) = i"
  by (simp add: unat_of_nat)

definition edge_ok :: "nat \<Rightarrow> nat \<Rightarrow> TaskId \<Rightarrow> bool" where
  "edge_ok n i t \<longleftrightarrow> unat t < n \<and> unat t \<noteq> i"

lemma label_table_range:
  "fst (build_label_table steps) l = Some t \<Longrightarrow> length steps \<le> 2 ^ 32 \<Longrightarrow> unat t < length steps"
  by (auto simp: label_table_spec last_defining_def unat_of_nat_less)

lemma resolve_completion_edge:
  assumes "fst (resolve_completion i steps (fst (build_label_table steps))) = LinkedTo t"
    and "length steps \<le> 2 ^ 32"
  shows "edge_ok (length steps) i t"
  using assms label_table_range unat_of_nat_less [of "Suc i" "length steps"]
  by (auto simp: resolve_completion_def edge_ok_def Let_def unat_of_nat_less
      split: list.splits CompleteWithTarget.splits option.splits if_splits prod.splits)

lemma resolve_deps_spec:
  "fst (resolve_deps table t labels deps) = fold push_new [d. l \<leftarrow> labels, d \<leftarrow> opt_list (table l), d \<noteq> t] deps"
  by (induction labels arbitrary: deps) (auto simp: opt_list_def case_prod_unfold Let_def split: option.splits)

text \<open>Every edge that is not kept is reported as an error.\<close>

lemma resolve_deps_errors:
  "map (\<lambda>d. (diag_severity d, diag_entity d)) (snd (resolve_deps table t labels deps))
     = map (\<lambda>l. (Error, Some l)) (filter (\<lambda>l. table l = None \<or> table l = Some t) labels)"
  by (induction labels arbitrary: deps) (auto simp: diagnostic_def case_prod_unfold Let_def split: option.splits)

lemma resolve_deps_edges:
  assumes "i < length steps" and "length steps \<le> 2 ^ 32"
  shows "list_all (edge_ok (length steps) i) (fst (resolve_deps (fst (build_label_table steps)) (of_nat i) labels []))"
    and "distinct (fst (resolve_deps table t labels []))"
  using assms label_table_range unat_of_nat_less [OF assms]
  by (auto simp: resolve_deps_spec list_all_iff edge_ok_def opt_list_def split: option.splits)

section \<open>Tasks by index\<close>

lemma length_derive [simp]: "length (fst (derive steps table)) = length steps"
  by (simp add: derive_def Let_def)

definition complete_whens_of :: "SurvivingStep list \<Rightarrow> Predicate option list" where
  "complete_whens_of steps = map (\<lambda>st. effective_completion st (fst (hand_in_predicates (st_ops st)))) steps"

definition completions_of :: "SurvivingStep list \<Rightarrow> CompletionSource list" where
  "completions_of steps =
     map (\<lambda>i. fst (resolve_completion i steps (fst (build_label_table steps)))) [0..<length steps]"

lemma map2_map_right: "map2 f xs (map g xs) = map (\<lambda>x. f x (g x)) xs"
  by (induction xs) simp_all

lemma derive_nth:
  assumes "i < length steps"
  shows "fst (derive steps (fst (build_label_table steps))) ! i =
    \<lparr>dv_completion = completions_of steps ! i,
     dv_applies_when = effective_applies (steps ! i) (fst (hand_in_predicates (st_ops (steps ! i)))) (complete_whens_of steps ! i),
     dv_complete_when = complete_whens_of steps ! i,
     dv_terminate_on = or_else (hand_in_termination (complete_whens_of steps ! i) (turned_in_quests steps))
       (or_else (complete_whens_of steps ! i) (linked_completion i (completions_of steps) (complete_whens_of steps)))\<rparr>"
proof -
  have "map2 effective_completion steps (map fst (map (\<lambda>step. hand_in_predicates (st_ops step)) steps)) = complete_whens_of steps"
    by (simp add: map2_map_right complete_whens_of_def o_def)
  moreover have "map fst (map (\<lambda>index. resolve_completion index steps (fst (build_label_table steps))) [0..<length steps])
      = completions_of steps"
    by (simp add: completions_of_def o_def)
  ultimately show ?thesis using assms by (simp add: derive_def Let_def)
qed

lemma build_tasks_nth:
  "length (fst (build_tasks f table k xs b)) = length xs
   \<and> (\<forall>i<length xs. \<exists>b'. fst (build_tasks f table k xs b) ! i
        = fst (build_task f table (k + i) (fst (xs ! i)) (snd (xs ! i)) b'))"
proof (induction xs arbitrary: k b)
  case Nil
  then show ?case by simp
next
  case (Cons x xs)
  obtain st dv where x: "x = (st, dv)" by (cases x)
  obtain task b' ds where 1: "build_task f table k st dv b = (task, b', ds)"
    by (cases "build_task f table k st dv b") auto
  have r: "fst (build_tasks f table k (x # xs) b) = task # fst (build_tasks f table (Suc k) xs b')"
    by (simp add: x 1 case_prod_unfold Let_def)
  have "\<exists>b''. (task # fst (build_tasks f table (Suc k) xs b')) ! i
      = fst (build_task f table (k + i) (fst ((x # xs) ! i)) (snd ((x # xs) ! i)) b'')" if "i < Suc (length xs)" for i
    using that Cons.IH [of "Suc k" b'] 1 x by (cases i) (auto intro: exI [of _ b])
  with Cons.IH r show ?case by simp
qed

lemma build_task_fields:
  "task_id (fst (build_task f table i st dv b)) = of_nat i"
  "task_deps (fst (build_task f table i st dv b)) = fst (resolve_deps table (of_nat i) (st_requires st) [])"
  "task_completion (fst (build_task f table i st dv b)) = dv_completion dv"
  "task_lifetime (fst (build_task f table i st dv b)) = fst (lower_lifetime (of_nat i) st (dv_completion dv) (dv_terminate_on dv) b)"
  "task_ops (fst (build_task f table i st dv b)) = st_ops st"
  "task_applies_when (fst (build_task f table i st dv b)) = dv_applies_when dv"
  "task_complete_when (fst (build_task f table i st dv b)) = dv_complete_when dv"
  "task_abort_when (fst (build_task f table i st dv b)) = None"
  "task_jump_to (fst (build_task f table i st dv b)) = None"
  "task_blocking (fst (build_task f table i st dv b)) = st_blocking st"
  "task_loot_filter (fst (build_task f table i st dv b)) = st_loot_filter st"
  "task_unknown_policy (fst (build_task f table i st dv b)) = unknown_policy (st_ops st) (dv_complete_when dv) (dv_completion dv)"
  "task_combat (fst (build_task f table i st dv b)) = lower_combat (st_kills st) (st_looping st) (dv_complete_when dv) (st_ops st)"
  "fst (snd (build_task f table i st dv b)) = fst (snd (lower_lifetime (of_nat i) st (dv_completion dv) (dv_terminate_on dv) b))"
  "snd (snd (build_task f table i st dv b)) = snd (resolve_deps table (of_nat i) (st_requires st) [])
     @ snd (snd (lower_lifetime (of_nat i) st (dv_completion dv) (dv_terminate_on dv) b))"
  by (simp_all add: build_task_def Let_def case_prod_unfold)

definition derived_of :: "SurvivingStep list \<Rightarrow> nat \<Rightarrow> Derived" where
  "derived_of steps i = fst (derive steps (fst (build_label_table steps))) ! i"

lemma assemble_tasks_nth:
  assumes "assemble_tasks project steps = (tasks, ds)"
  shows "length tasks = length steps"
    and "i < length steps \<Longrightarrow> \<exists>f b. tasks ! i = fst (build_task f (fst (build_label_table steps)) i (steps ! i) (derived_of steps i) b)"
proof -
  let ?t = "fst (build_label_table steps)"
  obtain f where f: "tasks = fst (build_tasks f ?t 0 (zip steps (fst (derive steps ?t))) FIRST_HOLDING_BAND)"
    using assms by (auto simp: assemble_tasks_def Let_def case_prod_unfold)
  note b = build_tasks_nth [of f ?t 0 "zip steps (fst (derive steps ?t))" FIRST_HOLDING_BAND]
  show "length tasks = length steps" using b by (simp add: f)
  show "\<exists>f b. tasks ! i = fst (build_task f ?t i (steps ! i) (derived_of steps i) b)" if "i < length steps"
    using b that unfolding f derived_of_def by (metis (no_types, lifting) add_0 fst_conv length_derive length_zip min.idem nth_zip snd_conv)
qed

lemma ops_of_tasks:
  assumes "assemble_tasks project steps = (tasks, ds)"
  shows "map task_ops tasks = map st_ops steps"
proof (rule nth_equalityI)
  note n = assemble_tasks_nth [OF assms]
  show "length (map task_ops tasks) = length (map st_ops steps)" by (simp add: n(1))
  fix i assume i: "i < length (map task_ops tasks)"
  with n(1) n(2) [of i] obtain f b where
    "tasks ! i = fst (build_task f (fst (build_label_table steps)) i (steps ! i) (derived_of steps i) b)"
    by auto
  with i n(1) show "map task_ops tasks ! i = map st_ops steps ! i" by (simp add: build_task_fields)
qed

section \<open>Bands\<close>

definition holds_channel :: "Task \<Rightarrow> bool" where
  "holds_channel task = (case task_lifetime task of Background (c # cs) band p \<Rightarrow> True | _ \<Rightarrow> False)"

definition band_of :: "Task \<Rightarrow> nat" where
  "band_of task = (case task_lifetime task of Background cs band p \<Rightarrow> unat band | Exclusive \<Rightarrow> 0)"

definition ride_along :: "Task \<Rightarrow> bool" where
  "ride_along task = (case task_lifetime task of Background cs band p \<Rightarrow> cs = [] \<and> band = 30 | Exclusive \<Rightarrow> True)"

lemma lower_lifetime_cases:
  assumes "lower_lifetime t st c p b = (lt, b', ds)" and "unat b \<le> 49"
  shows "(\<exists>q. lt = Background [ChMovement] b q \<and> unat b' = min 49 (Suc (unat b))
            \<and> length (filter (\<lambda>d. diag_code d = ''BAND_OFFSET_SATURATED'') ds) = (if unat b = 49 then 1 else 0))
       \<or> ((lt = Exclusive \<or> (\<exists>q. lt = Background [] 30 q)) \<and> b' = b
            \<and> filter (\<lambda>d. diag_code d = ''BAND_OFFSET_SATURATED'') ds = [])"
proof -
  have e: "b = 49 \<longleftrightarrow> unat b = 49" by (simp add: word_unat_eq_iff)
  have i: "unat (b + 1) = Suc (unat b)" if "unat b \<noteq> 49" using that assms(2) by (simp add: unat_word_ariths)
  let ?h = "st_sticky st \<and> list_ex is_movement (st_ops st)"
  show ?thesis
  proof (cases "\<not> st_sticky st \<and> c = OwnPredicate")
    case True
    with assms(1) show ?thesis by (simp add: lower_lifetime_def)
  next
    case False
    then have nx: "\<not> (\<not> st_sticky st \<and> \<not> (case c of LinkedTo _ \<Rightarrow> True | OwnPredicate \<Rightarrow> False))"
      by (cases c) auto
    show ?thesis
    proof (cases ?h)
      case True
      with assms nx e i show ?thesis
        by (cases p; cases "unat b = 49")
          (auto simp: lower_lifetime_def Let_def GOAL_BAND_end_def diagnostic_def)
    next
      case False
      with assms(1) nx show ?thesis
        by (cases p) (auto simp: lower_lifetime_def Let_def RIDE_ALONG_BAND_def diagnostic_def)
    qed
  qed
qed

lemma deps_not_saturated:
  "filter (\<lambda>d. diag_code d = ''BAND_OFFSET_SATURATED'') (snd (resolve_deps table t labels deps)) = []"
  by (induction labels arbitrary: deps) (auto simp: diagnostic_def case_prod_unfold Let_def split: option.splits)

lemma build_tasks_bands:
  assumes "unat b \<le> 49"
  shows "map band_of (filter holds_channel (fst (build_tasks f table k xs b)))
      = map (\<lambda>j. min 49 (unat b + j)) [0..<length (filter holds_channel (fst (build_tasks f table k xs b)))]
    \<and> list_all (\<lambda>t. holds_channel t \<or> ride_along t) (fst (build_tasks f table k xs b))
    \<and> length (filter (\<lambda>d. diag_code d = ''BAND_OFFSET_SATURATED'') (snd (build_tasks f table k xs b)))
      = length (filter holds_channel (fst (build_tasks f table k xs b))) - (49 - unat b)"
  using assms
proof (induction xs arbitrary: k b)
  case Nil
  then show ?case by simp
next
  case (Cons x xs)
  obtain st dv where x: "x = (st, dv)" by (cases x)
  let ?bt = "build_task f table k st dv b"
  obtain lt b' ds where l: "lower_lifetime (of_nat k) st (dv_completion dv) (dv_terminate_on dv) b = (lt, b', ds)"
    by (cases "lower_lifetime (of_nat k) st (dv_completion dv) (dv_terminate_on dv) b") auto
  have lt: "task_lifetime (fst ?bt) = lt" and b': "fst (snd ?bt) = b'"
    and d: "filter (\<lambda>d. diag_code d = ''BAND_OFFSET_SATURATED'') (snd (snd ?bt))
        = filter (\<lambda>d. diag_code d = ''BAND_OFFSET_SATURATED'') ds"
    by (simp_all add: build_task_fields l deps_not_saturated)
  have r: "fst (build_tasks f table k (x # xs) b) = fst ?bt # fst (build_tasks f table (Suc k) xs b')"
    "snd (build_tasks f table k (x # xs) b) = snd (snd ?bt) @ snd (build_tasks f table (Suc k) xs b')"
    by (simp_all add: x case_prod_unfold Let_def b')
  from lower_lifetime_cases [OF l Cons.prems] show ?case
  proof (elim disjE conjE exE)
    fix q assume h: "lt = Background [ChMovement] b q" "unat b' = min 49 (Suc (unat b))"
      "length (filter (\<lambda>d. diag_code d = ''BAND_OFFSET_SATURATED'') ds) = (if unat b = 49 then 1 else 0)"
    have "holds_channel (fst ?bt)" "band_of (fst ?bt) = unat b" by (simp_all add: holds_channel_def band_of_def lt h)
    moreover have "unat b' \<le> 49" using h(2) by simp
    moreover have "map (\<lambda>j. min 49 (unat b' + j)) [0..<m] = map (\<lambda>j. min 49 (unat b + Suc j)) [0..<m]" for m
      by (simp add: h(2) min_def)
    ultimately show ?case
      using Cons.IH [of b' "Suc k"] Cons.prems h(2,3)
      unfolding r by (simp add: map_upt_Suc d del: upt_Suc)
  next
    assume h: "lt = Exclusive" "b' = b" "filter (\<lambda>d. diag_code d = ''BAND_OFFSET_SATURATED'') ds = []"
    then have "\<not> holds_channel (fst ?bt)" "ride_along (fst ?bt)" by (simp_all add: holds_channel_def ride_along_def lt)
    with Cons.IH [of b "Suc k"] Cons.prems h show ?case unfolding r by (simp add: d)
  next
    fix q assume h: "lt = Background [] 30 q" "b' = b" "filter (\<lambda>d. diag_code d = ''BAND_OFFSET_SATURATED'') ds = []"
    then have "\<not> holds_channel (fst ?bt)" "ride_along (fst ?bt)" by (simp_all add: holds_channel_def ride_along_def lt)
    with Cons.IH [of b "Suc k"] Cons.prems h show ?case unfolding r by (simp add: d)
  qed
qed

section \<open>The emitted graph\<close>

definition task_ok :: "nat \<Rightarrow> nat \<Rightarrow> Task \<Rightarrow> bool" where
  "task_ok n i task \<longleftrightarrow>
     unat (task_id task) = i \<and> list_all (edge_ok n i) (task_deps task) \<and> distinct (task_deps task)
     \<and> (case task_completion task of LinkedTo t \<Rightarrow> edge_ok n i t \<and> task_lifetime task \<noteq> Exclusive | OwnPredicate \<Rightarrow> True)
     \<and> (case task_lifetime task of Background cs band p \<Rightarrow> in_goal_band band | Exclusive \<Rightarrow> True)
     \<and> task_jump_to task = None"

definition graph_ok :: "Task list \<Rightarrow> bool" where
  "graph_ok tasks \<longleftrightarrow> (\<forall>i<length tasks. task_ok (length tasks) i (tasks ! i))"

lemma lower_lifetime_linked: "fst (lower_lifetime t st (LinkedTo u) p b) \<noteq> Exclusive"
  by (simp add: lower_lifetime_def Let_def case_prod_unfold)

lemma assemble_tasks_bands:
  assumes "assemble_tasks project steps = (tasks, ds)"
  shows "map band_of (filter holds_channel tasks) = map (\<lambda>j. min 49 (34 + j)) [0..<length (filter holds_channel tasks)]
    \<and> list_all (\<lambda>t. holds_channel t \<or> ride_along t) tasks"
proof -
  obtain f ds' where f: "tasks = fst (build_tasks f (fst (build_label_table steps)) 0
      (zip steps (fst (derive steps (fst (build_label_table steps))))) FIRST_HOLDING_BAND)"
    using assms by (auto simp: assemble_tasks_def Let_def case_prod_unfold)
  have u: "unat FIRST_HOLDING_BAND = 34" by (simp add: FIRST_HOLDING_BAND_def)
  show ?thesis
    using build_tasks_bands [of FIRST_HOLDING_BAND f "fst (build_label_table steps)" 0] unfolding f u by simp
qed

lemma band_in_goal:
  assumes "assemble_tasks project steps = (tasks, ds)" and "task \<in> set tasks" and "task_lifetime task = Background cs band p"
  shows "in_goal_band band"
proof (cases "holds_channel task")
  case True
  with assms(2) have "unat band \<in> set (map band_of (filter holds_channel tasks))"
    by (force simp: band_of_def assms(3) image_iff)
  then have "34 \<le> unat band \<and> unat band \<le> 49"
    using assemble_tasks_bands [OF assms(1)] by auto
  then show ?thesis by (simp add: in_goal_band_iff)
next
  case False
  with assms(2) assemble_tasks_bands [OF assms(1)] have "ride_along task" by (auto simp: list_all_iff)
  with assms(3) show ?thesis by (simp add: ride_along_def in_goal_band_iff)
qed

lemma assemble_tasks_ok:
  assumes "assemble_tasks project steps = (tasks, ds)" and "length steps \<le> 2 ^ 32"
  shows "graph_ok tasks"
  unfolding graph_ok_def
proof (intro allI impI)
  fix i assume i: "i < length tasks"
  note n = assemble_tasks_nth [OF assms(1)]
  let ?t = "fst (build_label_table steps)"
  from n(2) [of i] i n(1) obtain f b where t: "tasks ! i = fst (build_task f ?t i (steps ! i) (derived_of steps i) b)"
    by auto
  have "dv_completion (derived_of steps i) = fst (resolve_completion i steps ?t)"
    using i n(1) by (simp add: derived_of_def derive_nth completions_of_def)
  moreover have "in_goal_band band" if "task_lifetime (tasks ! i) = Background cs band p" for cs band p
    using band_in_goal [OF assms(1) nth_mem [OF i] that] .
  ultimately show "task_ok (length tasks) i (tasks ! i)"
    using i n(1) assms(2) resolve_deps_edges [of i steps] resolve_completion_edge [of i steps]
      lower_lifetime_linked
    unfolding task_ok_def
    by (auto simp: t build_task_fields unat_of_nat_less split: CompletionSource.splits Lifetime.splits)
qed

section \<open>Properties\<close>

text \<open>C8: a task that defers its completion inherits the completion of the first task along its chain of links
  that authors one, however long the chain; the guard against cycles never cuts a chain that leads
  somewhere.\<close>

theorem linked_completion_reaches:
  assumes "index < length complete_whens" and "complete_whens ! index = None"
  shows "linked_completion index completions complete_whens = Some p
    \<longleftrightarrow> inherits completions complete_whens index p"
  using assms by (rule linked_completion_inherits)

lemma linked_completion_reaches_witness:
  "inherits [LinkedTo 1, LinkedTo 2, OwnPredicate] [None, None, Some (PQuestInLog 7)] 0 (PQuestInLog 7)
   \<and> (\<forall>p. \<not> inherits [LinkedTo 1, LinkedTo 0] [None, None] 0 p)"
proof -
  have "linked_completion 0 [LinkedTo 1, LinkedTo 2, OwnPredicate] [None, None, Some (PQuestInLog 7)] = Some (PQuestInLog 7)"
    "linked_completion 0 [LinkedTo 1, LinkedTo 0] [None, None] = None"
    by code_simp+
  with linked_completion_reaches [of 0 "[None, None, Some (PQuestInLog 7)]" "[LinkedTo 1, LinkedTo 2, OwnPredicate]" "PQuestInLog 7"]
    linked_completion_reaches [of 0 "[None, None]" "[LinkedTo 1, LinkedTo 0]"]
  show ?thesis by simp
qed

text \<open>the emitted task graph is well formed: ids are the positions, dependency edges and completion links
  stay inside the list and never point at their own task, no dependency is listed twice, a linked task is
  concurrent, every band lies in the goal band.\<close>

theorem assemble_tasks_graph_ok:
  assumes "assemble_tasks project survivors = (tasks, ds)" and "length survivors \<le> 2 ^ 32"
  shows "length tasks = length survivors \<and> map task_ops tasks = map st_ops survivors \<and> graph_ok tasks"
  using assemble_tasks_nth(1) [OF assms(1)] ops_of_tasks [OF assms(1)] assemble_tasks_ok [OF assms] by simp

definition step0 :: "string list \<Rightarrow> string list \<Rightarrow> CompleteWithTarget list \<Rightarrow> SurvivingStep" where
  "step0 labels requires links =
     \<lparr>st_ops = [], st_labels = labels, st_requires = requires, st_complete_with = links, st_sticky = False,
      st_looping = False, st_kills = [], st_blocking = True, st_complete_when = None, st_applies_when = None,
      st_loot_filter = [], st_lines = None\<rparr>"

definition project0 :: Project where
  "project0 = new_project 0 ''2024'' ''Guide''"

lemma assemble_tasks_graph_ok_witness:
  "graph_ok (fst (assemble_tasks project0
     [step0 [''a''] [''b''] [], step0 [''b''] [''a'', ''b'', ''c''] [Next], step0 [] [] [Label ''a'']]))"
proof -
  let ?s = "[step0 [''a''] [''b''] [], step0 [''b''] [''a'', ''b'', ''c''] [Next], step0 [] [] [Label ''a'']]"
  obtain tasks ds where t: "assemble_tasks project0 ?s = (tasks, ds)" by (cases "assemble_tasks project0 ?s")
  from assemble_tasks_graph_ok [OF t] show ?thesis unfolding t by simp
qed

text \<open>the tasks that hold the movement channel get consecutive bands from 34 up to the end of the goal band,
  so the first sixteen are separated; every other concurrent task holds no channel and rides along in band 30.\<close>

theorem holding_bands_consecutive:
  assumes "assemble_tasks project survivors = (tasks, ds)"
  shows "map band_of (filter holds_channel tasks)
      = map (\<lambda>j. min 49 (34 + j)) [0..<length (filter holds_channel tasks)]
    \<and> list_all (\<lambda>t. holds_channel t \<or> ride_along t) tasks"
  using assms by (rule assemble_tasks_bands)

definition patrol0 :: SurvivingStep where
  "patrol0 = (step0 [] [] [])\<lparr>st_sticky := True,
     st_ops := [OpTravel \<lparr>route_kind = Destination, route_mode = ModeAny, route_points = [0], route_radii = [5]\<rparr>]\<rparr>"

lemma holding_bands_consecutive_witness:
  "map band_of (filter holds_channel (fst (assemble_tasks project0 [patrol0, step0 [] [] [], patrol0]))) = [34, 35]"
proof -
  let ?s = "[patrol0, step0 [] [] [], patrol0]"
  obtain tasks ds where t: "assemble_tasks project0 ?s = (tasks, ds)" by (cases "assemble_tasks project0 ?s")
  have "length (filter holds_channel (fst (assemble_tasks project0 ?s))) = 2" by code_simp
  moreover have "[0..<2::nat] = [0, 1]" by code_simp
  ultimately show ?thesis using holding_bands_consecutive [OF t] unfolding t by simp
qed

text \<open>the saturation warning is off by one: it is emitted for every holding task from the sixteenth on, one
  more than the number of tasks that share the last band with a predecessor.\<close>

theorem saturation_warnings:
  "length (filter (\<lambda>d. diag_code d = ''BAND_OFFSET_SATURATED'')
      (snd (build_tasks source_file table index steps FIRST_HOLDING_BAND)))
    = length (filter holds_channel (fst (build_tasks source_file table index steps FIRST_HOLDING_BAND))) - 15"
  using build_tasks_bands [of FIRST_HOLDING_BAND source_file table index steps]
  by (simp add: FIRST_HOLDING_BAND_def)

text \<open>dependency edges are exactly the requirements that name another surviving step, each resolved to the
  last step that defines the label, and every requirement that is dropped is reported as an error.\<close>

theorem resolve_deps_exact:
  "set (fst (resolve_deps (fst (build_label_table survivors)) t requires []))
      = {d. \<exists>l\<in>set requires. \<exists>i. last_defining survivors l i \<and> d = of_nat i \<and> d \<noteq> t}
   \<and> map (\<lambda>d. (diag_severity d, diag_entity d)) (snd (resolve_deps (fst (build_label_table survivors)) t requires []))
      = map (\<lambda>l. (Error, Some l))
          (filter (\<lambda>l. fst (build_label_table survivors) l = None \<or> fst (build_label_table survivors) l = Some t) requires)"
proof
  have "d \<in> set (opt_list (fst (build_label_table survivors) l)) \<longleftrightarrow> (\<exists>i. last_defining survivors l i \<and> d = of_nat i)" for d l
    using label_table_spec [of survivors l d] by (auto simp: opt_list_def split: option.splits)
  then show "set (fst (resolve_deps (fst (build_label_table survivors)) t requires []))
      = {d. \<exists>l\<in>set requires. \<exists>i. last_defining survivors l i \<and> d = of_nat i \<and> d \<noteq> t}"
    by (auto simp: resolve_deps_spec) 
qed (rule resolve_deps_errors)

text \<open>the dependency graph may contain a cycle: two surviving steps that require each other's label compile
  to two tasks that wait for each other, and no diagnostic says so.\<close>

theorem requires_cycle_compiles:
  "map task_deps (fst (assemble_tasks project0 [step0 [''a''] [''b''] [], step0 [''b''] [''a''] []])) = [[1], [0]]
   \<and> snd (assemble_tasks project0 [step0 [''a''] [''b''] [], step0 [''b''] [''a''] []]) = []"
  by code_simp

end
