(* ===== verification/Kernel_Compile.thy ===== *)
theory Kernel_Compile
  imports Task_Graph "HOL-Library.List_Lexorder" "HOL-Library.Char_ord"
begin

text \<open>
  The guide header (\<^verbatim>\<open>kernel/meta.rs\<close>), the tag census (\<^verbatim>\<open>kernel/mod.rs\<close>) and \<open>Compiler::compile_kernel\<close>
  (\<^verbatim>\<open>compiler/src/lib.rs\<close>). A \<open>BTreeSet<String>\<close> is its sorted list of elements; the two \<open>panic!\<close>s of
  the census are the result \<open>None\<close>.
\<close>

section \<open>Guide header\<close>

definition GUIDE_NAME_UNGATED_FALLBACK :: string where
  "GUIDE_NAME_UNGATED_FALLBACK = ''GUIDE_NAME_UNGATED_FALLBACK''"
definition AMBIGUOUS_GUIDE_HEADER :: string where
  "AMBIGUOUS_GUIDE_HEADER = ''AMBIGUOUS_GUIDE_HEADER''"

definition applies :: "GuideGate option \<Rightarrow> Archetype \<Rightarrow> LoweringError + (bool \<times> Diagnostic list)" where
  "applies gate a =
     (case gate of
        None \<Rightarrow> Inr (True, [])
      | Some g \<Rightarrow>
          map_res (\<lambda>resolution. (res_outcome resolution = Applies, res_diagnostics resolution)) (resolve_gate g a))"

fun surviving :: "string Gated list \<Rightarrow> Archetype \<Rightarrow> LoweringError + (string list \<times> Diagnostic list)" where
  "surviving [] a = Inr ([], [])"
| "surviving (entry # entries) a =
     wbind (applies (gated_gate entry) a) (\<lambda>keep.
     wbind (surviving entries a) (\<lambda>kept.
     Inr (if keep then gated_value entry # kept else kept, [])))"

definition ambiguous_header_msg :: "nat \<Rightarrow> string \<Rightarrow> string" where
  "ambiguous_header_msg n directive =
     show_nat n @ '' `'' @ directive @ ''` entries apply to the compiled archetype, and `GuideMeta` ''
     @ ''carries one. The first is used and the rest are dropped '' @ em_dash
     @ '' the corpus's multi-entry headers are all mutually exclusive gated pairs, so more than one ''
     @ ''survivor means the gates no longer separate them''"

definition single :: "string \<Rightarrow> string Gated list \<Rightarrow> Archetype \<Rightarrow> LoweringError + (string option \<times> Diagnostic list)" where
  "single directive entries a =
     wbind (surviving entries a) (\<lambda>kept.
       Inr (case kept of [] \<Rightarrow> None | v # _ \<Rightarrow> Some v,
            if length kept > 1
            then [diagnostic Warning AMBIGUOUS_GUIDE_HEADER (ambiguous_header_msg (length kept) directive)
                    (case kept of [] \<Rightarrow> None | v # _ \<Rightarrow> Some v) None]
            else []))"

definition fallback_msg :: "string \<Rightarrow> string" where
  "fallback_msg name =
     ''no `#name` in this block applies to the compiled archetype, so the artifact is named ''
     @ quoted name @ '' '' @ em_dash
     @ '' the name the importer already recorded. An artifact with no name cannot be chained to by ''
     @ ''another guide's `#next`''"

definition lower_guide_meta :: "Project \<Rightarrow> Archetype \<Rightarrow> LoweringError + (GuideMeta \<times> Diagnostic list)" where
  "lower_guide_meta project a =
     (let headers = prj_guide_headers project; own_name = meta_name (prj_metadata project)
      in wbind (single ''#name'' (gh_name headers) a) (\<lambda>named.
         wbind (case named of
                  Some n \<Rightarrow> Inr (n, [])
                | None \<Rightarrow>
                    Inr (own_name,
                         if gh_name headers \<noteq> []
                         then [diagnostic Warning GUIDE_NAME_UNGATED_FALLBACK (fallback_msg own_name) (Some own_name) None]
                         else [])) (\<lambda>name.
         wbind (single ''#group'' (gh_group headers) a) (\<lambda>group.
         wbind (single ''#subgroup'' (gh_subgroup headers) a) (\<lambda>subgroup.
         wbind (surviving (gh_next headers) a) (\<lambda>next_guides.
         Inr (\<lparr>gm_name = name, gm_group = (case group of Some g \<Rightarrow> g | None \<Rightarrow> []), gm_subgroup = subgroup,
               gm_source_version = (case gh_source_version headers of Some v \<Rightarrow> v | None \<Rightarrow> 0),
               gm_next = next_guides\<rparr>, [])))))))"

section \<open>Tag census\<close>

definition op_tag :: "Op \<Rightarrow> string" where
  "op_tag op1 =
     (case op1 of
        OpTravel _ \<Rightarrow> ''Travel'' | OpAccept _ _ \<Rightarrow> ''Accept'' | OpTurnIn _ _ _ _ _ \<Rightarrow> ''TurnIn''
      | OpAbandon _ \<Rightarrow> ''Abandon'' | OpUntrackQuest _ \<Rightarrow> ''UntrackQuest'' | OpInteract _ _ \<Rightarrow> ''Interact''
      | OpUseItem _ \<Rightarrow> ''UseItem'' | OpCast _ \<Rightarrow> ''Cast'' | OpDestroyItem _ \<Rightarrow> ''DestroyItem''
      | OpEquip _ _ \<Rightarrow> ''Equip'' | OpEnterVehicle \<Rightarrow> ''EnterVehicle'' | OpWait _ _ \<Rightarrow> ''Wait''
      | OpDelegate _ _ \<Rightarrow> ''Delegate'')"

definition pred_tag :: "Predicate \<Rightarrow> string" where
  "pred_tag p =
     (case p of
        PAnd _ \<Rightarrow> ''And'' | POr _ \<Rightarrow> ''Or'' | PNot _ \<Rightarrow> ''Not'' | PQuestComplete _ \<Rightarrow> ''QuestComplete''
      | PQuestObjective _ _ _ \<Rightarrow> ''QuestObjective'' | PAtLocation _ _ \<Rightarrow> ''AtLocation''
      | PLevelAtLeast _ \<Rightarrow> ''LevelAtLeast'' | PAuraPresent _ _ \<Rightarrow> ''AuraPresent'' | PFlag _ \<Rightarrow> ''Flag''
      | PQuestInLog _ \<Rightarrow> ''QuestInLog'' | PQuestTurnedIn _ \<Rightarrow> ''QuestTurnedIn''
      | PQuestAvailable _ \<Rightarrow> ''QuestAvailable'' | PItemCount _ _ _ \<Rightarrow> ''ItemCount''
      | PMoneyCmp _ _ \<Rightarrow> ''MoneyCmp'' | PSkillCmp _ _ _ \<Rightarrow> ''SkillCmp''
      | PReputationCmp _ _ _ _ \<Rightarrow> ''ReputationCmp'' | PXpAtLeast _ _ \<Rightarrow> ''XpAtLeast''
      | PCooldownCmp _ _ _ _ \<Rightarrow> ''CooldownCmp'' | PInArea _ _ \<Rightarrow> ''InArea''
      | PHearthBoundTo _ \<Rightarrow> ''HearthBoundTo'' | PItemStatCmp _ _ _ _ \<Rightarrow> ''ItemStatCmp''
      | PInGroup _ _ \<Rightarrow> ''InGroup'' | PSpellKnown _ \<Rightarrow> ''SpellKnown'' | PLevelAtMost _ \<Rightarrow> ''LevelAtMost'')"

text \<open>
  Whether \<open>serde_json::to_value\<close> accepts a predicate: its float fields go through \<open>finite::serialize\<close>.
  No op carries a float.
\<close>

fun serializable :: "Predicate \<Rightarrow> bool" where
  "serializable (PAtLocation point radius) = (finite_serialize radius \<noteq> None)"
| "serializable (PCooldownCmp kind ident cmp secs) = (finite_serialize secs \<noteq> None)"
| "serializable (PItemStatCmp slot stat cmp value) = (finite_serialize value \<noteq> None)"
| "serializable (PAnd ps) = list_all serializable ps"
| "serializable (POr ps) = list_all serializable ps"
| "serializable (PNot p) = serializable p"
| "serializable _ = True"

fun collect_predicate_tags :: "Predicate \<Rightarrow> string list \<Rightarrow> string list option" where
  "collect_predicate_tags p out =
     (if \<not> serializable p then None
      else let out' = insort_insert (pred_tag p) out
           in case p of
                PAnd ps \<Rightarrow> fold (\<lambda>q acc. Option.bind acc (collect_predicate_tags q)) ps (Some out')
              | POr ps \<Rightarrow> fold (\<lambda>q acc. Option.bind acc (collect_predicate_tags q)) ps (Some out')
              | PNot q \<Rightarrow> collect_predicate_tags q out'
              | _ \<Rightarrow> Some out')"

declare collect_predicate_tags.simps [simp del]

definition task_predicates :: "Task \<Rightarrow> Predicate list" where
  "task_predicates task =
     lifetime_predicates (task_lifetime task) @ opt_list (task_applies_when task)
     @ opt_list (task_complete_when task) @ opt_list (task_abort_when task)"

definition task_tags :: "Task \<Rightarrow> string list option \<Rightarrow> string list option" where
  "task_tags task acc =
     fold (\<lambda>q acc. Option.bind acc (collect_predicate_tags q)) (task_predicates task)
       (map_option (fold (\<lambda>op1. insort_insert (op_tag op1)) (task_ops task)) acc)"

definition tag_census :: "Task list \<Rightarrow> string list option" where
  "tag_census tasks = fold task_tags tasks (Some [])"

section \<open>\<open>compile_kernel\<close>\<close>

record CompileReport =
  rep_unmapped_conditions :: "Diagnostic list"
  rep_unresolved :: u32

definition incomplete_msg :: string where
  "incomplete_msg =
     ''kernel lowering is partial: archetype gates are resolved and the task graph carries ops, ''
     @ ''dependency edges, lifetimes, completion links, the `.complete` / `.isOnQuest` predicates, the ''
     @ ''derived quest-log gate, hand-in pair and hand-in termination, the per-task '' @ section_sign
     @ ''5.1.2 unknown-policy, the guide header and the C6 combat policy '' @ em_dash
     @ '' but no task carries an abort predicate or an interact target, the waypoint pool holds only ''
     @ ''positions the importer had already resolved with no circuit collapse, and `schema_hash` / ''
     @ ''`content_hash` are zero placeholders rather than computed digests. Do not execute this artifact.''"

definition compile_kernel ::
  "(uuid \<Rightarrow> string) \<Rightarrow> Project \<Rightarrow> Archetype \<Rightarrow> QuestMeta \<Rightarrow> (CompilerError + (KernelProfile \<times> CompileReport)) option" where
  "compile_kernel sh project a meta =
     (let incomplete = diagnostic Warning ''KERNEL_PROFILE_INCOMPLETE'' incomplete_msg
                         (Some (meta_name (prj_metadata project))) None
      in case lower_task_graph sh project a [] meta of
           Inl e \<Rightarrow> Some (Inl e)
         | Inr ((tasks, pool), ds1) \<Rightarrow>
             (case lower_guide_meta project a of
                Inl e \<Rightarrow> Some (Inl (KernelLowering e))
              | Inr (guide_meta, ds2) \<Rightarrow>
                  map_option
                    (\<lambda>tags.
                      Inr (\<lparr>kp_magic = MAGIC, kp_schema_version = SCHEMA_VERSION, kp_schema_hash = replicate 32 0,
                            kp_tags_used = tags,
                            kp_integrity = \<lparr>ci_content_hash = replicate 32 0, ci_world_source = [], ci_world_build = []\<rparr>,
                            kp_archetype = a, kp_meta = guide_meta,
                            kp_defaults = \<lparr>pd_combat = profile_default, pd_unknown_policy = profile_default_unknown_policy\<rparr>,
                            kp_waypoint_pool = pool, kp_tasks = tasks\<rparr>,
                           \<lparr>rep_unmapped_conditions = incomplete # ds1 @ ds2, rep_unresolved = 0\<rparr>))
                    (tag_census tasks)))"

end
