(* ===== verification/Kernel_Artifact.thy ===== *)
theory Kernel_Artifact
  imports Kernel_Compile Task_Graph_Props
begin

text \<open>
  What \<open>compile_kernel\<close> promises of the artifact as a whole: every coordinate and every op comes from an
  action the archetype runs, every waypoint index is inside the pool, the tag census is exact, and the
  compile never panics.
\<close>

section \<open>Where ops and coordinates come from\<close>

definition gate_ok :: "Archetype \<Rightarrow> GuideGate option \<Rightarrow> bool" where
  "gate_ok a gate = (case gate of None \<Rightarrow> True | Some g \<Rightarrow> (\<exists>ds. resolve_gate g a = Inr (Resolution_new Applies ds)))"

definition live :: "Archetype \<Rightarrow> Action \<Rightarrow> bool" where
  "live a action \<longleftrightarrow> act_enabled action \<and> gate_ok a (act_gate action)"

definition point_of :: "Action \<Rightarrow> Point option" where
  "point_of action =
     (case travel_of action of
        None \<Rightarrow> None
      | Some travel \<Rightarrow> map_option (\<lambda>position. mv_point (movement_of travel position)) (travel_position travel))"

definition points_from :: "Archetype \<Rightarrow> Action set \<Rightarrow> Point list \<Rightarrow> bool" where
  "points_from a S ps \<longleftrightarrow> (\<forall>p\<in>set ps. \<exists>action\<in>S. live a action \<and> point_of action = Some p)"

definition ops_from :: "(uuid \<Rightarrow> string) \<Rightarrow> Archetype \<Rightarrow> Action set \<Rightarrow> Op list \<Rightarrow> bool" where
  "ops_from sh a S ops \<longleftrightarrow>
     (\<forall>op1\<in>set ops. is_movement op1 \<or> (\<exists>action\<in>S. live a action \<and> fst (lower_op sh action) = Some op1))"

definition ops_in_pool :: "Point list \<Rightarrow> Op list \<Rightarrow> bool" where
  "ops_in_pool pool ops \<longleftrightarrow>
     (\<forall>r. OpTravel r \<in> set ops \<longrightarrow> (\<exists>looping. route_ok looping r) \<and> (\<forall>i\<in>set (route_points r). unat i < length pool))"

lemma gate_applies_ok: "gate_applies g a = Inr (True, ds) \<Longrightarrow> gate_ok a g"
proof (cases g)
  case (Some g')
  assume h: "gate_applies g a = Inr (True, ds)"
  then obtain r where r: "resolve_gate g' a = Inr r" "res_outcome r = Applies"
    by (cases "resolve_gate g' a") (auto simp: gate_applies_def Some)
  then have "r = Resolution_new Applies (res_diagnostics r)" by (simp add: Resolution_new_def)
  with r(1) show ?thesis by (auto simp: gate_ok_def Some)
qed (simp add: gate_ok_def)

lemma thread_new_points: "thread intern ps s = (is, s @ new) \<Longrightarrow> set new \<subseteq> set ps"
proof (induction ps arbitrary: s "is" new)
  case Nil
  then show ?case by simp
next
  case (Cons p ps)
  obtain i s1 where 1: "intern p s = (i, s1)" by (cases "intern p s")
  obtain js s2 where 2: "thread intern ps s1 = (js, s2)" by (cases "thread intern ps s1")
  with 1 Cons.prems have e: "s2 = s @ new" by simp
  have "s1 = s \<or> s1 = s @ [p]" using 1 by (auto simp: intern_def split: option.splits)
  then show ?case
  proof
    assume "s1 = s"
    with Cons.IH [of s js new] 2 e show ?thesis by auto
  next
    assume s1: "s1 = s @ [p]"
    obtain ys where "s2 = s1 @ ys" using pool.thread_put [OF 2] by blast
    with e s1 have "new = p # ys" by simp
    with Cons.IH [of s1 js ys] 2 e s1 show ?thesis by auto
  qed
qed

lemma run_movements_points:
  "mv_point ` set (fst (run_movements sh run)) \<subseteq> {p. \<exists>action\<in>set run. point_of action = Some p}"
  by (induction run) (auto simp: point_of_def case_prod_unfold Let_def split: option.splits)

lemma flush_route_spec:
  assumes "flush_route sh run looping ops pool = (ops', pool', ds)"
  shows "\<exists>routes new. ops' = ops @ map OpTravel routes \<and> pool' = pool @ new
    \<and> (\<forall>p\<in>set new. \<exists>action\<in>set run. point_of action = Some p)
    \<and> list_all (route_ok looping) routes
    \<and> (length pool' \<le> 2 ^ 32 \<longrightarrow> (\<forall>r\<in>set routes. \<forall>i\<in>set (route_points r). unat i < length pool'))
    \<and> (pool_distinct pool \<longrightarrow> pool_distinct pool')"
proof (cases "run = []")
  case True
  with assms show ?thesis by (auto simp: flush_route_def intro: exI [of _ "[]"])
next
  case False
  let ?ms = "fst (run_movements sh run)"
  obtain routes s' where l: "lower_route looping ?ms pool = (routes, s')" by (cases "lower_route looping ?ms pool")
  with False assms have o: "ops' = ops @ map OpTravel routes" "pool' = s'"
    by (auto simp: flush_route_def Let_def case_prod_unfold)
  note t = lower_route_points [OF l]
  obtain new where new: "s' = pool @ new" using pool.thread_put [OF t] by blast
  have ix: "length s' \<le> 2 ^ 32 \<longrightarrow> list_all (\<lambda>i. unat i < length s') (concat (map route_points routes))"
    using pool.thread_put [OF t] by (auto simp: list_all2_conv_all_nth list_all_length)
  have "set new \<subseteq> mv_point ` set ?ms" using thread_new_points [OF t [unfolded new]] by simp
  then have "\<forall>p\<in>set new. \<exists>action\<in>set run. point_of action = Some p"
    using run_movements_points [of sh run] by blast
  moreover have "length s' \<le> 2 ^ 32 \<longrightarrow> (\<forall>r\<in>set routes. \<forall>i\<in>set (route_points r). unat i < length s')"
    using ix by (auto simp: list_all_iff)
  ultimately show ?thesis
    using o new lower_route_shape [OF l] thread_distinct [OF _ t] by (intro exI [of _ routes] exI [of _ new]) simp
qed

lemma lower_op_not_movement: "fst (lower_op sh action) = Some op1 \<Longrightarrow> \<not> is_movement op1"
  by (auto simp: lower_op_def is_movement_def Let_def case_prod_unfold split: ActionPayload.splits)

section \<open>The loop over the actions of a step\<close>

definition acc_inv ::
  "(uuid \<Rightarrow> string) \<Rightarrow> Archetype \<Rightarrow> Action set \<Rightarrow> Point list \<Rightarrow> StepAcc \<Rightarrow> bool" where
  "acc_inv sh a S pool0 acc \<longleftrightarrow>
     (\<exists>new. acc_pool acc = pool0 @ new \<and> points_from a S new)
     \<and> (\<forall>action\<in>set (acc_run acc). action \<in> S \<and> live a action)
     \<and> ops_from sh a S (acc_ops acc)
     \<and> (length (acc_pool acc) \<le> 2 ^ 32 \<longrightarrow> ops_in_pool (acc_pool acc) (acc_ops acc))
     \<and> (pool_distinct pool0 \<longrightarrow> pool_distinct (acc_pool acc))
     \<and> list_all serializable (acc_completion_terms acc) \<and> list_all serializable (acc_applicability_terms acc)"

lemma acc_inv_start: "acc_inv sh a S pool (acc_start pool)"
  by (simp add: acc_inv_def acc_start_def points_from_def ops_from_def ops_in_pool_def)

lemma ops_in_pool_append:
  "ops_in_pool pool ops \<Longrightarrow> ops_in_pool (pool @ new) ops"
  unfolding ops_in_pool_def by (metis length_append trans_less_add1)

lemma acc_flush_inv:
  assumes "acc_inv sh a S pool0 acc" and "acc_flush sh looping acc = (acc', ds)"
  shows "acc_inv sh a S pool0 acc' \<and> acc_run acc' = [] \<and> acc_surviving_actions acc' = acc_surviving_actions acc"
proof -
  obtain ops' pool' ds' where f: "flush_route sh (acc_run acc) looping (acc_ops acc) (acc_pool acc) = (ops', pool', ds')"
    by (cases "flush_route sh (acc_run acc) looping (acc_ops acc) (acc_pool acc)") auto
  with assms(2) have acc': "acc' = acc\<lparr>acc_ops := ops', acc_pool := pool', acc_run := []\<rparr>"
    by (simp add: acc_flush_def)
  from flush_route_spec [OF f] obtain routes new where
    r: "ops' = acc_ops acc @ map OpTravel routes" "pool' = acc_pool acc @ new"
      "\<forall>p\<in>set new. \<exists>action\<in>set (acc_run acc). point_of action = Some p" "list_all (route_ok looping) routes"
      "length pool' \<le> 2 ^ 32 \<longrightarrow> (\<forall>r\<in>set routes. \<forall>i\<in>set (route_points r). unat i < length pool')"
      "pool_distinct (acc_pool acc) \<longrightarrow> pool_distinct pool'"
    by auto
  from assms(1) obtain new0 where n0: "acc_pool acc = pool0 @ new0" "points_from a S new0" by (auto simp: acc_inv_def)
  have "points_from a S (new0 @ new)"
    using n0(2) r(3) assms(1) unfolding points_from_def acc_inv_def by fastforce
  moreover have "ops_from sh a S ops'"
    using assms(1) r(1) by (auto simp: acc_inv_def ops_from_def is_movement_def)
  moreover have "ops_in_pool pool' ops'" if "length pool' \<le> 2 ^ 32"
  proof -
    have "ops_in_pool pool' (acc_ops acc)"
      using assms(1) that r(2) ops_in_pool_append [of "acc_pool acc" "acc_ops acc" new] by (simp add: acc_inv_def)
    with r(1,4,5) that show ?thesis by (auto simp: ops_in_pool_def list_all_iff)
  qed
  ultimately show ?thesis
    using assms(1) n0 r(2,6) unfolding acc' acc_inv_def by simp
qed

lemma serializable_not: "serializable (kernel_not p) = serializable p"
  by (cases p rule: kernel_not.cases) auto

lemma build_serializable: "build (KernelSink meta) e = Some p \<Longrightarrow> serializable p"
proof (induction e arbitrary: p)
  case (ELeaf name args)
  then show ?case
    by (auto simp: kernel_leaf_def split: sum.splits list.splits if_splits option.splits)
next
  case (ENot e)
  then show ?case by (auto simp: serializable_not)
next
  case (EAll es)
  then obtain ps where ps: "list_all2 (\<lambda>e x. build (KernelSink meta) e = Some x) es ps" "p = PAnd ps"
    by (auto simp: those_map_Some)
  from ps(1) EAll.IH have "list_all serializable ps" by (induction rule: list_all2_induct) auto
  with ps(2) show ?case by simp
next
  case (EAny es)
  then obtain ps where ps: "list_all2 (\<lambda>e x. build (KernelSink meta) e = Some x) es ps" "p = POr ps"
    by (auto simp: those_map_Some)
  from ps(1) EAny.IH have "list_all serializable ps" by (induction rule: list_all2_induct) auto
  with ps(2) show ?case by simp
qed

lemma lower_predicate_serializable: "lower_predicate expression meta = Inr p \<Longrightarrow> serializable p"
  using parse_with_build build_serializable unfolding lower_predicate_Inr by metis

lemma kernel_res_Inr [simp]: "kernel_res r = Inr x \<longleftrightarrow> r = Inr x"
  by (cases r) auto

lemma acc_inv_count: "acc_inv sh a S pool0 acc \<Longrightarrow> acc_inv sh a S pool0 (acc\<lparr>acc_surviving_actions := n\<rparr>)"
  by (simp add: acc_inv_def)

lemma surviving_action_inv:
  assumes "acc_inv sh a S pool0 acc" and "action \<in> S" and "live a action"
    and "surviving_action sh meta looping action acc = Inr (acc', ds)"
  shows "acc_inv sh a S pool0 acc'"
proof -
  let ?acc = "acc\<lparr>acc_surviving_actions := Suc (acc_surviving_actions acc)\<rparr>"
  have inv: "acc_inv sh a S pool0 ?acc" using assms(1) by (rule acc_inv_count)
  have flushed: "acc_inv sh a S pool0 acc'"
    if h: "(let (acc1, ds1) = acc_flush sh looping ?acc; (lowered, ds2) = lower_op sh action
            in Inr (case lowered of None \<Rightarrow> acc1 | Some op1 \<Rightarrow> acc1\<lparr>acc_ops := acc_ops acc1 @ [op1]\<rparr>, ds1 @ ds2))
          = (Inr (acc', ds) :: CompilerError + StepAcc \<times> Diagnostic list)"
  proof -
    obtain acc1 ds1 where f: "acc_flush sh looping ?acc = (acc1, ds1)" by (cases "acc_flush sh looping ?acc")
    from acc_flush_inv [OF inv f] have i1: "acc_inv sh a S pool0 acc1" by simp
    show ?thesis
    proof (cases "fst (lower_op sh action)")
      case None
      with h f i1 show ?thesis by (auto simp: case_prod_unfold Let_def)
    next
      case (Some op1)
      with h f have acc': "acc' = acc1\<lparr>acc_ops := acc_ops acc1 @ [op1]\<rparr>" by (auto simp: case_prod_unfold Let_def)
      have "\<not> is_movement op1" using Some by (rule lower_op_not_movement)
      then have "op1 \<noteq> OpTravel r" for r by (auto simp: is_movement_def)
      with i1 Some assms(2,3) show ?thesis
        unfolding acc' acc_inv_def by (auto simp: ops_from_def ops_in_pool_def)
    qed
  qed
  show ?thesis
  proof (cases "act_payload action")
    case (Condition condition)
    with assms(4) obtain p where p: "serializable p"
      "acc' = (case cond_role condition of
           Completion \<Rightarrow> ?acc\<lparr>acc_loot_filter := collect_loot_rules meta p (acc_loot_filter ?acc),
                           acc_completion_terms := acc_completion_terms ?acc @ [p]\<rparr>
         | Applicability \<Rightarrow> ?acc\<lparr>acc_applicability_terms := acc_applicability_terms ?acc @ [p]\<rparr>)"
      using lower_predicate_serializable by (auto simp: surviving_action_def Let_def)
    then show ?thesis using inv by (cases "cond_role condition") (simp_all add: acc_inv_def)
  next
    case (Kill kill)
    with assms(4) inv show ?thesis by (auto simp: surviving_action_def Let_def acc_inv_def)
  next
    case (Travel travel)
    with assms inv show ?thesis by (auto simp: surviving_action_def Let_def acc_inv_def)
  next
    case (Comment c)
    with assms(4) inv show ?thesis by (auto simp: surviving_action_def Let_def)
  qed (use assms(4) flushed in \<open>simp_all add: surviving_action_def Let_def\<close>)
qed

lemma resolve_actions_inv:
  assumes "acc_inv sh a S pool0 acc" and "set actions \<subseteq> S"
    and "resolve_actions sh a meta looping actions acc = Inr (acc', ds)"
  shows "acc_inv sh a S pool0 acc'"
  using assms
proof (induction actions arbitrary: acc ds)
  case Nil
  then show ?case by simp
next
  case (Cons action actions)
  show ?case
  proof (cases "act_enabled action")
    case False
    with Cons show ?thesis by simp
  next
    case True
    with Cons.prems(3) obtain applies ds1 ds2 where g: "gate_applies (act_gate action) a = Inr (applies, ds1)"
      and r: "(if \<not> applies then resolve_actions sh a meta looping actions acc
          else wbind (surviving_action sh meta looping action acc) (resolve_actions sh a meta looping actions)) = Inr (acc', ds2)"
      by auto
    show ?thesis
    proof (cases applies)
      case False
      with r Cons show ?thesis by auto
    next
      case applies: True
      with r obtain acc1 d1 d2 where s: "surviving_action sh meta looping action acc = Inr (acc1, d1)"
        "resolve_actions sh a meta looping actions acc1 = Inr (acc', d2)"
        by auto
      have "live a action" using True g applies gate_applies_ok by (simp add: live_def)
      from surviving_action_inv [OF Cons.prems(1) _ this s(1)] Cons.prems(2) have "acc_inv sh a S pool0 acc1" by simp
      from Cons.IH [OF this _ s(2)] Cons.prems(2) show ?thesis by simp
    qed
  qed
qed

section \<open>Operations and projects\<close>

definition runs :: "Archetype \<Rightarrow> Operation \<Rightarrow> bool" where
  "runs a op1 \<longleftrightarrow> op_enabled op1 \<and> gate_ok a (op_gate op1) \<and> (\<exists>ds. directives_apply a (op_directives op1) = Inr (True, ds))"

definition running_actions :: "Archetype \<Rightarrow> Operation list \<Rightarrow> Action set" where
  "running_actions a ops = {action. \<exists>op1\<in>set ops. runs a op1 \<and> action \<in> set (op_actions op1)}"

definition step_good :: "(uuid \<Rightarrow> string) \<Rightarrow> Archetype \<Rightarrow> Operation list \<Rightarrow> Point list \<Rightarrow> SurvivingStep \<Rightarrow> bool" where
  "step_good sh a ops pool st \<longleftrightarrow>
     (\<exists>op1\<in>set ops. runs a op1 \<and> ops_from sh a (set (op_actions op1)) (st_ops st))
     \<and> (length pool \<le> 2 ^ 32 \<longrightarrow> ops_in_pool pool (st_ops st))
     \<and> pred_option serializable (st_complete_when st) \<and> pred_option serializable (st_applies_when st)"

lemma fold_and_serializable: "list_all serializable ps \<Longrightarrow> pred_option serializable (fold_and ps)"
  by (cases ps rule: rev_cases) (auto simp: fold_and_def)

lemma step_of_good:
  assumes "acc_inv sh a (set (op_actions op1)) pool0 acc" and "runs a op1"
    and "step_of a op1 acc = Inr (st, ds)"
  shows "step_good sh a [op1] (acc_pool acc) st"
  using assms fold_and_serializable
  by (auto simp: step_of_def step_good_def acc_inv_def)

lemma resolve_operation_good:
  assumes "resolve_operation sh a meta op1 pool = Inr ((st, pool'), ds)"
  shows "(\<exists>new. pool' = pool @ new \<and> points_from a (running_actions a [op1]) new)
    \<and> (pool_distinct pool \<longrightarrow> pool_distinct pool')
    \<and> (\<forall>s. st = Some s \<longrightarrow> step_good sh a [op1] pool' s)"
proof (cases "pool' = pool \<and> st = None")
  case True
  then show ?thesis by (simp add: points_from_def)
next
  case False
  with assms obtain d1 d2 acc1 d3 where
    h: "op_enabled op1" "gate_applies (op_gate op1) a = Inr (True, d1)"
      "directives_apply a (op_directives op1) = Inr (True, d2)"
      "resolve_actions sh a meta (op_looping op1) (op_actions op1) (acc_start pool) = Inr (acc1, d3)"
      "pool' = acc_pool (fst (acc_flush sh (op_looping op1) acc1))"
      "\<forall>s. st = Some s \<longrightarrow> (\<exists>d5. step_of a op1 (fst (acc_flush sh (op_looping op1) acc1)) = Inr (s, d5))"
    by (auto simp: resolve_operation_def Let_def case_prod_unfold split: if_splits)
  then have r: "runs a op1" using gate_applies_ok by (auto simp: runs_def)
  have inv1: "acc_inv sh a (set (op_actions op1)) pool acc1"
    by (rule resolve_actions_inv [OF acc_inv_start _ h(4)]) simp
  define acc where "acc = fst (acc_flush sh (op_looping op1) acc1)"
  have inv: "acc_inv sh a (set (op_actions op1)) pool acc"
    using acc_flush_inv [OF inv1 prod.collapse [symmetric]] unfolding acc_def by simp
  then obtain new where "acc_pool acc = pool @ new" "points_from a (set (op_actions op1)) new"
    by (auto simp: acc_inv_def)
  moreover have "running_actions a [op1] = set (op_actions op1)" using r by (simp add: running_actions_def)
  ultimately show ?thesis
    using inv h(5,6) step_of_good [OF inv r] unfolding acc_def [symmetric] by (auto simp: acc_inv_def)
qed

lemma step_good_mono:
  assumes "step_good sh a ops pool st" and "set ops \<subseteq> set ops'"
  shows "step_good sh a ops' (pool @ new) st"
proof -
  have "ops_in_pool (pool @ new) (st_ops st)" if "length (pool @ new) \<le> 2 ^ 32"
    using that assms(1) ops_in_pool_append [of pool "st_ops st" new] by (simp add: step_good_def)
  with assms show ?thesis by (auto simp: step_good_def)
qed

lemma points_from_mono: "points_from a S ps \<Longrightarrow> S \<subseteq> T \<Longrightarrow> points_from a T ps"
  by (auto simp: points_from_def)

lemma points_from_append: "points_from a S (ps @ qs) \<longleftrightarrow> points_from a S ps \<and> points_from a S qs"
  by (auto simp: points_from_def)

lemma resolve_operations_good:
  assumes "resolve_operations sh a meta ops pool = Inr ((sts, pool'), ds)"
  shows "(\<exists>new. pool' = pool @ new \<and> points_from a (running_actions a ops) new)
    \<and> (pool_distinct pool \<longrightarrow> pool_distinct pool')
    \<and> list_all (step_good sh a ops pool') sts"
  using assms
proof (induction ops arbitrary: pool sts ds)
  case Nil
  then show ?case by (simp add: points_from_def)
next
  case (Cons op1 ops)
  then obtain st pool1 d1 sts1 d2 where
    1: "resolve_operation sh a meta op1 pool = Inr ((st, pool1), d1)"
    and 2: "resolve_operations sh a meta ops pool1 = Inr ((sts1, pool'), d2)"
    and sts: "sts = (case st of None \<Rightarrow> sts1 | Some s \<Rightarrow> s # sts1)"
    by auto
  from resolve_operation_good [OF 1] obtain new1 where
    n1: "pool1 = pool @ new1" "points_from a (running_actions a [op1]) new1"
    and g1: "pool_distinct pool \<longrightarrow> pool_distinct pool1" "\<And>s. st = Some s \<Longrightarrow> step_good sh a [op1] pool1 s"
    by blast
  from Cons.IH [OF 2] obtain new2 where
    n2: "pool' = pool1 @ new2" "points_from a (running_actions a ops) new2"
    and g2: "pool_distinct pool1 \<longrightarrow> pool_distinct pool'" "list_all (step_good sh a ops pool') sts1"
    by blast
  have "running_actions a [op1] \<subseteq> running_actions a (op1 # ops)" "running_actions a ops \<subseteq> running_actions a (op1 # ops)"
    by (auto simp: running_actions_def)
  then have "points_from a (running_actions a (op1 # ops)) (new1 @ new2)"
    using n1(2) n2(2) points_from_mono by (auto simp: points_from_append)
  moreover have "step_good sh a (op1 # ops) pool' s" if "st = Some s" for s
    using step_good_mono [OF g1(2) [OF that], of "op1 # ops" new2] n2(1) by simp
  moreover have "list_all (step_good sh a (op1 # ops) pool') sts1"
    using g2(2) step_good_mono [of sh a ops pool' _ "op1 # ops" "[]"] by (auto simp: list_all_iff)
  ultimately show ?case
    using n1(1) n2(1) g1(1) g2(1) sts by (cases st) (auto simp: list_all_iff)
qed

section \<open>The tag census\<close>

fun subpredicates :: "Predicate \<Rightarrow> Predicate list" where
  "subpredicates (PAnd ps) = PAnd ps # concat (map subpredicates ps)"
| "subpredicates (POr ps) = POr ps # concat (map subpredicates ps)"
| "subpredicates (PNot p) = PNot p # subpredicates p"
| "subpredicates p = [p]"

definition tags_added :: "string list \<Rightarrow> string set \<Rightarrow> string list option \<Rightarrow> bool" where
  "tags_added out new r \<longleftrightarrow>
     (\<exists>out'. r = Some out' \<and> set out' = set out \<union> new
        \<and> (sorted out \<and> distinct out \<longrightarrow> sorted out' \<and> distinct out'))"

lemma tags_added_insert: "tags_added out {t} (Some (insort_insert t out))"
  by (auto simp: tags_added_def set_insort_insert sorted_insort_insert distinct_insort_insert)

lemma tags_added_trans:
  assumes "tags_added out A (Some out1)" and "tags_added out1 B r"
  shows "tags_added out (A \<union> B) r"
  using assms by (auto simp: tags_added_def)

lemma fold_tags:
  assumes "\<And>q out. q \<in> set ps \<Longrightarrow> tags_added out (f q) (g q out)"
  shows "tags_added out (\<Union>q\<in>set ps. f q) (fold (\<lambda>q acc. Option.bind acc (g q)) ps (Some out))"
  using assms
proof (induction ps arbitrary: out)
  case Nil
  then show ?case by (simp add: tags_added_def)
next
  case (Cons p ps)
  obtain out1 where 1: "g p out = Some out1" "tags_added out (f p) (Some out1)"
    using Cons.prems [of p out] by (auto simp: tags_added_def)
  from tags_added_trans [OF 1(2) Cons.IH] Cons.prems 1(1) show ?case by simp
qed

lemma collect_tags:
  "serializable p \<Longrightarrow> tags_added out (pred_tag ` set (subpredicates p)) (collect_predicate_tags p out)"
proof (induction p arbitrary: out)
  case (PAnd ps)
  have "tags_added (insort_insert ''And'' out) (\<Union>q\<in>set ps. pred_tag ` set (subpredicates q))
      (fold (\<lambda>q acc. Option.bind acc (collect_predicate_tags q)) ps (Some (insort_insert ''And'' out)))"
    using PAnd by (intro fold_tags) (auto simp: list_all_iff)
  from tags_added_trans [OF tags_added_insert this] PAnd.prems show ?case
    by (subst collect_predicate_tags.simps) (simp add: pred_tag_def image_UN)
next
  case (POr ps)
  have "tags_added (insort_insert ''Or'' out) (\<Union>q\<in>set ps. pred_tag ` set (subpredicates q))
      (fold (\<lambda>q acc. Option.bind acc (collect_predicate_tags q)) ps (Some (insort_insert ''Or'' out)))"
    using POr by (intro fold_tags) (auto simp: list_all_iff)
  from tags_added_trans [OF tags_added_insert this] POr.prems show ?case
    by (subst collect_predicate_tags.simps) (simp add: pred_tag_def image_UN)
next
  case (PNot p)
  from tags_added_trans [OF tags_added_insert PNot.IH] PNot.prems show ?case
    by (subst collect_predicate_tags.simps) (simp add: pred_tag_def)
qed (subst collect_predicate_tags.simps, simp add: pred_tag_def tags_added_insert)+

text \<open>The slots of a task that hold a predicate.\<close>

definition carries :: "Task \<Rightarrow> Predicate \<Rightarrow> bool" where
  "carries task q \<longleftrightarrow>
     task_applies_when task = Some q \<or> task_complete_when task = Some q \<or> task_abort_when task = Some q
     \<or> (\<exists>channels band. task_lifetime task = Background channels band q)"

lemma carries_iff: "carries task q \<longleftrightarrow> q \<in> set (task_predicates task)"
  by (cases "task_lifetime task")
    (auto simp: carries_def task_predicates_def lifetime_predicates_def opt_list_def split: option.splits)

definition task_tag_set :: "Task \<Rightarrow> string set" where
  "task_tag_set task =
     op_tag ` set (task_ops task) \<union> (\<Union>q\<in>{q. carries task q}. pred_tag ` set (subpredicates q))"

lemma op_tags: "tags_added out (op_tag ` set ops) (Some (fold (\<lambda>op1. insort_insert (op_tag op1)) ops out))"
proof (induction ops arbitrary: out)
  case Nil
  then show ?case by (simp add: tags_added_def)
next
  case (Cons op1 ops)
  from tags_added_trans [OF tags_added_insert Cons] show ?case by simp
qed

lemma task_tags_added:
  assumes "list_all serializable (task_predicates task)"
  shows "tags_added out (task_tag_set task) (task_tags task (Some out))"
proof -
  have "tags_added (fold (\<lambda>op1. insort_insert (op_tag op1)) (task_ops task) out)
      (\<Union>q\<in>set (task_predicates task). pred_tag ` set (subpredicates q))
      (fold (\<lambda>q acc. Option.bind acc (collect_predicate_tags q)) (task_predicates task)
         (Some (fold (\<lambda>op1. insort_insert (op_tag op1)) (task_ops task) out)))"
    using assms collect_tags by (intro fold_tags) (auto simp: list_all_iff)
  from tags_added_trans [OF op_tags this] show ?thesis by (simp add: task_tags_def task_tag_set_def carries_iff)
qed

lemma tag_census_added:
  assumes "list_all (\<lambda>task. list_all serializable (task_predicates task)) tasks"
  shows "tags_added out (\<Union>task\<in>set tasks. task_tag_set task) (fold task_tags tasks (Some out))"
  using assms
proof (induction tasks arbitrary: out)
  case Nil
  then show ?case by (simp add: tags_added_def)
next
  case (Cons task tasks)
  then obtain out1 where 1: "task_tags task (Some out) = Some out1" "tags_added out (task_tag_set task) (Some out1)"
    using task_tags_added [of task out] by (auto simp: tags_added_def)
  from tags_added_trans [OF 1(2) Cons.IH] Cons.prems 1(1) show ?case by simp
qed

section \<open>Predicates of the emitted tasks\<close>

lemma hand_in_serializable:
  "fst (hand_in_predicates ops) = Some (p, q) \<Longrightarrow> serializable p \<and> serializable q"
  by (auto simp: hand_in_predicates_def Let_def split: list.splits prod.splits bool.splits)

lemma or_else_pred: "pred_option P x \<Longrightarrow> pred_option P y \<Longrightarrow> pred_option P (or_else x y)"
  by (cases x) auto

lemma quest_log_gate_serializable: "pred_option serializable (quest_log_gate p)"
  by (auto simp: quest_log_gate_def fold_and_serializable list_all_iff split: option.splits)

lemma hand_in_termination_serializable: "pred_option serializable (hand_in_termination p qs)"
  by (auto simp: hand_in_termination_def split: option.splits list.splits)

lemma inherits_in: "inherits cs ws i p \<Longrightarrow> Some p \<in> set ws"
  by (induction rule: inherits.induct) (auto simp: in_set_conv_nth)

lemma linked_completion_serializable:
  "list_all (pred_option serializable) ws \<Longrightarrow> pred_option serializable (linked_completion i cs ws)"
  using inherits_in linked_walk_sound
  by (cases "linked_completion i cs ws") (fastforce simp: linked_completion_def list_all_iff)+

lemma effective_completion_serializable:
  "pred_option serializable (st_complete_when st) \<Longrightarrow>
     pred_option serializable (effective_completion st (fst (hand_in_predicates ops)))"
  by (cases "fst (hand_in_predicates ops)")
    (auto simp: effective_completion_def or_else_pred dest: hand_in_serializable)

lemma effective_applies_serializable:
  "pred_option serializable (st_applies_when st) \<Longrightarrow>
     pred_option serializable (effective_applies st (fst (hand_in_predicates ops)) cw)"
  by (cases "fst (hand_in_predicates ops)")
    (auto simp: effective_applies_def intro!: or_else_pred quest_log_gate_serializable dest: hand_in_serializable)

lemma lifetime_serializable:
  "pred_option serializable p \<Longrightarrow> list_all serializable (lifetime_predicates (fst (lower_lifetime t st c p b)))"
  by (cases p) (auto simp: lower_lifetime_def lifetime_predicates_def Let_def case_prod_unfold)

lemma opt_list_pred [simp]: "list_all P (opt_list x) = pred_option P x"
  by (cases x) (auto simp: opt_list_def)

lemma tasks_serializable:
  assumes "assemble_tasks project steps = (tasks, ds)"
    and "list_all (\<lambda>st. pred_option serializable (st_complete_when st) \<and> pred_option serializable (st_applies_when st)) steps"
  shows "list_all (\<lambda>task. list_all serializable (task_predicates task)) tasks"
proof (rule list_all_length [THEN iffD2], intro allI impI)
  fix i assume i: "i < length tasks"
  note n = assemble_tasks_nth [OF assms(1)]
  from n(2) [of i] i n(1) obtain f b where
    t: "tasks ! i = fst (build_task f (fst (build_label_table steps)) i (steps ! i) (derived_of steps i) b)" by auto
  have cw: "list_all (pred_option serializable) (complete_whens_of steps)"
    using assms(2) effective_completion_serializable by (auto simp: complete_whens_of_def list_all_iff)
  have il: "i < length steps" using i n(1) by simp
  then have ci: "pred_option serializable (complete_whens_of steps ! i)"
    using cw by (simp add: list_all_length complete_whens_of_def)
  have ai: "pred_option serializable (dv_applies_when (derived_of steps i))"
    using il assms(2) effective_applies_serializable by (simp add: derived_of_def derive_nth list_all_length)
  have ti: "pred_option serializable (dv_terminate_on (derived_of steps i))"
    using il ci linked_completion_serializable [OF cw]
    by (simp add: derived_of_def derive_nth or_else_pred hand_in_termination_serializable)
  have "dv_complete_when (derived_of steps i) = complete_whens_of steps ! i"
    using il by (simp add: derived_of_def derive_nth)
  then show "list_all serializable (task_predicates (tasks ! i))"
    using ci ai lifetime_serializable [OF ti]
    by (simp add: task_predicates_def t build_task_fields)
qed

lemma lower_task_graph_good:
  assumes "lower_task_graph sh project a [] meta = Inr ((tasks, pool), ds)"
  obtains steps ds1 ds2 where
    "resolve_operations sh a meta (prj_operations project) [] = Inr ((steps, pool), ds1)"
    "assemble_tasks project steps = (tasks, ds2)" "list_all (step_good sh a (prj_operations project) pool) steps"
    "list_all (\<lambda>task. list_all serializable (task_predicates task)) tasks"
proof -
  from assms obtain steps ds1 where
    r: "resolve_operations sh a meta (prj_operations project) [] = Inr ((steps, pool), ds1)"
    and "tasks = fst (assemble_tasks project steps)"
    by (auto simp: lower_task_graph_def case_prod_unfold Let_def)
  then obtain ds2 where t: "assemble_tasks project steps = (tasks, ds2)" by (metis prod.collapse)
  have "list_all (step_good sh a (prj_operations project) pool) steps"
    using resolve_operations_good [OF r] by blast
  moreover from this have "list_all (\<lambda>task. list_all serializable (task_predicates task)) tasks"
    by (intro tasks_serializable [OF t]) (auto simp: list_all_iff step_good_def)
  ultimately show thesis using that r t by blast
qed

section \<open>Properties\<close>

lemma image_ball:
  assumes "f ` A = g ` B" and "\<And>b. b \<in> B \<Longrightarrow> P (g b)"
  shows "\<forall>a\<in>A. P (f a)"
proof
  fix a
  assume "a \<in> A"
  then have "f a \<in> g ` B" using assms(1) by blast
  then show "P (f a)" using assms(2) by auto
qed

text \<open>C3: the compiler never panics: the census can serialise every predicate the lowering builds, so
  \<open>compile_kernel\<close> returns an artifact or an error for every project, archetype and database.\<close>

theorem compile_kernel_total: "compile_kernel sh project a meta \<noteq> None"
proof (cases "lower_task_graph sh project a [] meta")
  case (Inr r)
  obtain tasks pool ds where r: "r = ((tasks, pool), ds)" by (metis surj_pair)
  from lower_task_graph_good [OF Inr [unfolded r]] have "list_all (\<lambda>task. list_all serializable (task_predicates task)) tasks"
    by blast
  then have "tag_census tasks \<noteq> None"
    using tag_census_added [of tasks "[]"] by (auto simp: tag_census_def tags_added_def)
  with Inr r show ?thesis
    by (auto simp: compile_kernel_def Let_def split: sum.splits)
qed (simp add: compile_kernel_def Let_def)

text \<open>C1: the artifact is coherent: its task graph is well formed, every route is a non-empty list of indices
  into the waypoint pool with one radius each, and the pool holds no coordinate twice.\<close>

theorem compile_kernel_coherent:
  assumes "compile_kernel sh project a meta = Some (Inr (profile, report))"
    and "length (kp_tasks profile) \<le> 2 ^ 32" and "length (kp_waypoint_pool profile) \<le> 2 ^ 32"
  shows "graph_ok (kp_tasks profile) \<and> pool_distinct (kp_waypoint_pool profile)
    \<and> (\<forall>task\<in>set (kp_tasks profile). ops_in_pool (kp_waypoint_pool profile) (task_ops task))"
proof -
  from assms(1) obtain tasks pool ds where l: "lower_task_graph sh project a [] meta = Inr ((tasks, pool), ds)"
    and p: "kp_tasks profile = tasks" "kp_waypoint_pool profile = pool"
    by (auto simp: compile_kernel_def Let_def split: sum.splits)
  from lower_task_graph_good [OF l] obtain steps ds1 ds2 where
    r: "resolve_operations sh a meta (prj_operations project) [] = Inr ((steps, pool), ds1)"
      "assemble_tasks project steps = (tasks, ds2)" "list_all (step_good sh a (prj_operations project) pool) steps"
    by blast
  have "map task_ops tasks = map st_ops steps" using ops_of_tasks [OF r(2)] .
  then have same: "task_ops ` set tasks = st_ops ` set steps" by (metis list.set_map)
  have good: "ops_in_pool pool (st_ops st)" if "st \<in> set steps" for st
    using r(3) assms(3) p(2) that by (simp add: list_all_iff step_good_def)
  have "\<forall>task\<in>set tasks. ops_in_pool pool (task_ops task)" by (rule image_ball [where P = "ops_in_pool pool", OF same good])
  moreover have "pool_distinct pool" using resolve_operations_good [OF r(1)] by (simp add: pool_distinct_def)
  moreover have "graph_ok tasks"
    using assms(2) assemble_tasks_nth(1) [OF r(2)] by (intro assemble_tasks_ok [OF r(2)]) (simp add: p(1))
  ultimately show ?thesis by (simp add: p)
qed

definition action0 :: "uuid \<Rightarrow> string option \<Rightarrow> ActionPayload \<Rightarrow> Action" where
  "action0 n gate payload =
     \<lparr>act_id = n, act_enabled = True, act_condition = None, act_note = None, act_class_restriction = None,
      act_gate = map_option GuideGate gate, act_payload = payload\<rparr>"

definition travel0 :: TravelAction where
  "travel0 =
     \<lparr>travel_destination = ''Auberdine'', travel_position = Some \<lparr>pos_map = 1, pos_world_x = 5, pos_world_y = 6,
        pos_world_z = 0, pos_orientation = None\<rparr>, travel_tolerance = 0, travel_authored_radius = None,
      travel_medium = MediumAny, travel_source_line = None, travel_mount = None, travel_allow_flight = False,
      travel_timeout = None\<rparr>"

definition accept0 :: "u32 \<Rightarrow> AcceptQuestAction" where
  "accept0 q = \<lparr>accept_quest = q, accept_npc = None, accept_auto_complete_dialog = False, accept_optional = False\<rparr>"

definition turnin0 :: "u32 \<Rightarrow> TurnInQuestAction" where
  "turnin0 q = \<lparr>turnin_quest = q, turnin_npc = None, turnin_choose_reward = Some 2, turnin_optional = False\<rparr>"

definition operation1 :: Operation where
  "operation1 = (Operation_new 1 ''step'')\<lparr>op_looping := False, op_actions :=
     [action0 1 None (Travel travel0), action0 2 (Some ''Alliance'') (AcceptQuest (accept0 983)),
      action0 3 (Some ''Horde'') (AcceptQuest (accept0 984)),
      action0 4 None (Condition \<lparr>cond_expression = ''Objective(7,1)'', cond_role = Completion\<rparr>)]\<rparr>"

definition operation2 :: Operation where
  "operation2 = (Operation_new 2 ''hand in'')\<lparr>op_actions := [action0 5 None (Travel travel0), action0 6 None (TurnInQuest (turnin0 983))]\<rparr>"

definition project1 :: Project where
  "project1 = project0\<lparr>prj_operations := [operation1, Operation_new 3 ''empty'', operation2]\<rparr>"

definition artifact1 :: KernelProfile where
  "artifact1 = fst (projr (the (compile_kernel (\<lambda>_. []) project1 archetype0 meta0)))"

lemma artifact1_compiles: "\<exists>report. compile_kernel (\<lambda>_. []) project1 archetype0 meta0 = Some (Inr (artifact1, report))"
proof -
  have "case compile_kernel (\<lambda>_. []) project1 archetype0 meta0 of Some (Inr p) \<Rightarrow> True | _ \<Rightarrow> False"
    by code_simp
  then show ?thesis by (auto simp: artifact1_def split: option.splits sum.splits)
qed

lemma artifact1_facts:
  "length (kp_tasks artifact1) = 2" "length (kp_waypoint_pool artifact1) = 1"
  by code_simp+

lemma compile_kernel_coherent_witness:
  "graph_ok (kp_tasks artifact1) \<and> pool_distinct (kp_waypoint_pool artifact1)"
proof -
  obtain report where "compile_kernel (\<lambda>_. []) project1 archetype0 meta0 = Some (Inr (artifact1, report))"
    using artifact1_compiles by blast
  from compile_kernel_coherent [OF this] artifact1_facts show ?thesis by simp
qed

text \<open>C2: static gates are resolved away and nothing gated out leaks in: every task comes from an enabled
  operation whose gate and directives the archetype satisfies, every op other than a walk is the lowering of
  one of its actions that is enabled and whose own gate applies, and so is every coordinate of the pool.\<close>

theorem compile_kernel_provenance:
  assumes "compile_kernel sh project a meta = Some (Inr (profile, report))"
  shows "(\<forall>task\<in>set (kp_tasks profile). \<exists>op1\<in>set (prj_operations project).
            runs a op1 \<and> ops_from sh a (set (op_actions op1)) (task_ops task))
    \<and> points_from a (running_actions a (prj_operations project)) (kp_waypoint_pool profile)"
proof -
  from assms obtain tasks pool ds where l: "lower_task_graph sh project a [] meta = Inr ((tasks, pool), ds)"
    and p: "kp_tasks profile = tasks" "kp_waypoint_pool profile = pool"
    by (auto simp: compile_kernel_def Let_def split: sum.splits)
  from lower_task_graph_good [OF l] obtain steps ds1 ds2 where
    r: "resolve_operations sh a meta (prj_operations project) [] = Inr ((steps, pool), ds1)"
      "assemble_tasks project steps = (tasks, ds2)" "list_all (step_good sh a (prj_operations project) pool) steps"
    by blast
  have same: "task_ops ` set tasks = st_ops ` set steps" using ops_of_tasks [OF r(2)] by (metis list.set_map)
  have origin: "\<exists>op1\<in>set (prj_operations project). runs a op1 \<and> ops_from sh a (set (op_actions op1)) (st_ops st)"
    if "st \<in> set steps" for st
    using r(3) that by (simp add: list_all_iff step_good_def)
  have "\<forall>task\<in>set tasks. \<exists>op1\<in>set (prj_operations project).
      runs a op1 \<and> ops_from sh a (set (op_actions op1)) (task_ops task)"
    by (rule image_ball [where P = "\<lambda>ops. \<exists>op1\<in>set (prj_operations project). runs a op1 \<and> ops_from sh a (set (op_actions op1)) ops",
          OF same origin])
  with p resolve_operations_good [OF r(1)] show ?thesis by simp
qed

lemma compile_kernel_provenance_witness:
  "points_from archetype0 (running_actions archetype0 (prj_operations project1)) (kp_waypoint_pool artifact1)"
proof -
  obtain report where "compile_kernel (\<lambda>_. []) project1 archetype0 meta0 = Some (Inr (artifact1, report))"
    using artifact1_compiles by blast
  from compile_kernel_provenance [OF this] show ?thesis by simp
qed

text \<open>the tag census is exact: \<open>tags_used\<close> is the sorted, duplicate-free list of the tags of all ops and of
  all predicates, at every depth, in every slot of every task; nothing spurious, nothing missing.\<close>

theorem compile_kernel_census:
  assumes "compile_kernel sh project a meta = Some (Inr (profile, report))"
  shows "set (kp_tags_used profile) = (\<Union>task\<in>set (kp_tasks profile). task_tag_set task)
    \<and> sorted (kp_tags_used profile) \<and> distinct (kp_tags_used profile)"
proof -
  from assms obtain tasks pool ds where l: "lower_task_graph sh project a [] meta = Inr ((tasks, pool), ds)"
    and p: "kp_tasks profile = tasks" "tag_census tasks = Some (kp_tags_used profile)"
    by (auto simp: compile_kernel_def Let_def split: sum.splits)
  from lower_task_graph_good [OF l] have "list_all (\<lambda>task. list_all serializable (task_predicates task)) tasks"
    by blast
  from tag_census_added [OF this, of "[]"] p show ?thesis by (auto simp: tag_census_def tags_added_def)
qed

lemma compile_kernel_census_witness:
  "set [''Accept'', ''QuestComplete'', ''QuestInLog'', ''QuestObjective'', ''QuestTurnedIn'', ''Travel'', ''TurnIn'']
     = (\<Union>task\<in>set (kp_tasks artifact1). task_tag_set task)"
proof -
  have "kp_tags_used artifact1
      = [''Accept'', ''QuestComplete'', ''QuestInLog'', ''QuestObjective'', ''QuestTurnedIn'', ''Travel'', ''TurnIn'']"
    by code_simp
  moreover obtain report where "compile_kernel (\<lambda>_. []) project1 archetype0 meta0 = Some (Inr (artifact1, report))"
    using artifact1_compiles by blast
  ultimately show ?thesis using compile_kernel_census by metis
qed

end
