(* ===== verification/Command_History.thy ===== *)
theory Command_History
  imports Prelude
begin

text \<open>
  Undo and redo (\<^verbatim>\<open>editor/src/history.rs\<close> and its twin \<^verbatim>\<open>editor/src/campaign_history.rs\<close>): the command trait,
  the two stacks and their operations over it. A stack is a \<open>Vec\<close> whose last element is the top.

  The locale \<open>reversible_commands\<close> states what the history needs of the trait: on a state that a command
  was recorded for, its inverse leads back, up to an equivalence of states that every command respects.
  Inside it the history is shown to walk along a time line of states. The editor commands and the campaign
  commands interpret it in their own theories.
\<close>

text \<open>\<open>dyn EditorCommand\<close> and \<open>dyn CampaignCommand\<close>: the methods of a boxed command.\<close>

record ('c, 's) CommandTrait =
  cmd_apply :: "'c \<Rightarrow> 's \<Rightarrow> string + 's"
  cmd_inverse :: "'c \<Rightarrow> 'c"
  cmd_description :: "'c \<Rightarrow> string"

record 'c CommandHistory =
  undo_stack :: "'c list"
  redo_stack :: "'c list"
  max_history :: nat

definition with_max :: "nat \<Rightarrow> 'c CommandHistory" where
  "with_max limit = \<lparr>undo_stack = [], redo_stack = [], max_history = limit\<rparr>"

definition history_new :: "'c CommandHistory" where
  "history_new = \<lparr>undo_stack = [], redo_stack = [], max_history = 50\<rparr>"

definition history_clone :: "'c CommandHistory \<Rightarrow> 'c CommandHistory" where
  "history_clone h = \<lparr>undo_stack = [], redo_stack = [], max_history = max_history h\<rparr>"

definition execute ::
  "('c, 's) CommandTrait \<Rightarrow> 'c \<Rightarrow> 'c CommandHistory \<Rightarrow> 's \<Rightarrow> (string + unit) \<times> 'c CommandHistory \<times> 's" where
  "execute T cmd h s =
     (case cmd_apply T cmd s of
        Inl e \<Rightarrow> (Inl e, h, s)
      | Inr s' \<Rightarrow>
          (let undo1 = undo_stack h @ [cmd];
               undo2 = (if max_history h > 0 \<and> length undo1 > max_history h then vec_remove 0 undo1 else undo1)
           in (Inr (), h\<lparr>undo_stack := undo2, redo_stack := []\<rparr>, s')))"

text \<open>The command is popped before its inverse is applied: when that fails, it is on neither stack.\<close>

definition undo ::
  "('c, 's) CommandTrait \<Rightarrow> 'c CommandHistory \<Rightarrow> 's \<Rightarrow> (string + string) \<times> 'c CommandHistory \<times> 's" where
  "undo T h s =
     (if undo_stack h = [] then (Inl ''Nothing to undo'', h, s)
      else let cmd = last (undo_stack h);
               h1 = h\<lparr>undo_stack := butlast (undo_stack h)\<rparr>
           in case cmd_apply T (cmd_inverse T cmd) s of
                Inl e \<Rightarrow> (Inl e, h1, s)
              | Inr s' \<Rightarrow> (Inr (cmd_description T cmd), h1\<lparr>redo_stack := redo_stack h @ [cmd]\<rparr>, s'))"

definition redo ::
  "('c, 's) CommandTrait \<Rightarrow> 'c CommandHistory \<Rightarrow> 's \<Rightarrow> (string + string) \<times> 'c CommandHistory \<times> 's" where
  "redo T h s =
     (if redo_stack h = [] then (Inl ''Nothing to redo'', h, s)
      else let cmd = last (redo_stack h);
               h1 = h\<lparr>redo_stack := butlast (redo_stack h)\<rparr>
           in case cmd_apply T cmd s of
                Inl e \<Rightarrow> (Inl e, h1, s)
              | Inr s' \<Rightarrow> (Inr (cmd_description T cmd), h1\<lparr>undo_stack := undo_stack h @ [cmd]\<rparr>, s'))"

definition can_undo :: "'c CommandHistory \<Rightarrow> bool" where
  "can_undo h \<longleftrightarrow> undo_stack h \<noteq> []"

definition can_redo :: "'c CommandHistory \<Rightarrow> bool" where
  "can_redo h \<longleftrightarrow> redo_stack h \<noteq> []"

definition last_description :: "('c, 's) CommandTrait \<Rightarrow> 'c list \<Rightarrow> string option" where
  "last_description T cs = (if cs = [] then None else Some (cmd_description T (last cs)))"

definition undo_description :: "('c, 's) CommandTrait \<Rightarrow> 'c CommandHistory \<Rightarrow> string option" where
  "undo_description T h = last_description T (undo_stack h)"

definition redo_description :: "('c, 's) CommandTrait \<Rightarrow> 'c CommandHistory \<Rightarrow> string option" where
  "redo_description T h = last_description T (redo_stack h)"

definition history_clear :: "'c CommandHistory \<Rightarrow> 'c CommandHistory" where
  "history_clear h = h\<lparr>undo_stack := [], redo_stack := []\<rparr>"

section \<open>Sessions\<close>

text \<open>
  One call on a history and its state. \<open>admits\<close> says which commands the client issues in which states.
\<close>

inductive session_step ::
  "('c, 's) CommandTrait \<Rightarrow> ('c \<Rightarrow> 's \<Rightarrow> bool) \<Rightarrow> 'c CommandHistory \<times> 's \<Rightarrow> 'c CommandHistory \<times> 's \<Rightarrow> bool"
  for T :: "('c, 's) CommandTrait" and admits :: "'c \<Rightarrow> 's \<Rightarrow> bool" where
  step_execute: "admits cmd s \<Longrightarrow> execute T cmd h s = (r, h', s') \<Longrightarrow> session_step T admits (h, s) (h', s')"
| step_undo: "undo T h s = (r, h', s') \<Longrightarrow> session_step T admits (h, s) (h', s')"
| step_redo: "redo T h s = (r, h', s') \<Longrightarrow> session_step T admits (h, s) (h', s')"
| step_clear: "session_step T admits (h, s) (history_clear h, s)"

inductive_cases session_stepE [elim]: "session_step T admits (h, s) (h', s')"

inductive session ::
  "('c, 's) CommandTrait \<Rightarrow> ('c \<Rightarrow> 's \<Rightarrow> bool) \<Rightarrow> 'c CommandHistory \<times> 's \<Rightarrow> 'c CommandHistory \<times> 's \<Rightarrow> bool"
  for T :: "('c, 's) CommandTrait" and admits :: "'c \<Rightarrow> 's \<Rightarrow> bool" and start :: "'c CommandHistory \<times> 's" where
  session_start: "session T admits start start"
| session_next: "session T admits start x \<Longrightarrow> session_step T admits x y \<Longrightarrow> session T admits start y"

text \<open>What each call does to the depths, whatever the commands.\<close>

definition within_depth :: "'c CommandHistory \<Rightarrow> bool" where
  "within_depth h \<longleftrightarrow> max_history h > 0 \<longrightarrow> length (undo_stack h) + length (redo_stack h) \<le> max_history h"

lemma execute_depth:
  "execute T cmd h s = (r, h', s') \<Longrightarrow> within_depth h \<Longrightarrow> within_depth h' \<and> max_history h' = max_history h"
  by (auto simp: execute_def within_depth_def Let_def vec_remove_def split: sum.splits if_splits)

lemma undo_depth:
  "undo T h s = (r, h', s') \<Longrightarrow> within_depth h \<Longrightarrow> within_depth h' \<and> max_history h' = max_history h"
  by (auto simp: undo_def within_depth_def Let_def neq_Nil_conv split: sum.splits if_splits)

lemma redo_depth:
  "redo T h s = (r, h', s') \<Longrightarrow> within_depth h \<Longrightarrow> within_depth h' \<and> max_history h' = max_history h"
  by (auto simp: redo_def within_depth_def Let_def neq_Nil_conv split: sum.splits if_splits)

lemma session_depth:
  "session T admits start x \<Longrightarrow> within_depth (fst start)
     \<Longrightarrow> within_depth (fst x) \<and> max_history (fst x) = max_history (fst start)"
proof (induction rule: session.induct)
  case (session_next x y)
  from session_next(2) show ?case
  proof cases
    case step_clear
    with session_next(3,4) show ?thesis by (auto simp: within_depth_def history_clear_def)
  qed (use session_next(3,4) execute_depth undo_depth redo_depth in fastforce)+
qed simp

text \<open>Runs of calls: commands executed one after the other, and repeated undo and redo.\<close>

fun execute_all :: "('c, 's) CommandTrait \<Rightarrow> 'c list \<Rightarrow> 'c CommandHistory \<times> 's \<Rightarrow> 'c CommandHistory \<times> 's" where
  "execute_all T [] x = x"
| "execute_all T (c # cs) x = execute_all T cs (snd (execute T c (fst x) (snd x)))"

definition undo_call :: "('c, 's) CommandTrait \<Rightarrow> 'c CommandHistory \<times> 's \<Rightarrow> 'c CommandHistory \<times> 's" where
  "undo_call T x = snd (undo T (fst x) (snd x))"

definition redo_call :: "('c, 's) CommandTrait \<Rightarrow> 'c CommandHistory \<times> 's \<Rightarrow> 'c CommandHistory \<times> 's" where
  "redo_call T x = snd (redo T (fst x) (snd x))"

text \<open>Every command of the run is one the client issues, and succeeds.\<close>

fun admitted :: "('c, 's) CommandTrait \<Rightarrow> ('c \<Rightarrow> 's \<Rightarrow> bool) \<Rightarrow> 'c list \<Rightarrow> 's \<Rightarrow> bool" where
  "admitted T admits [] s \<longleftrightarrow> True"
| "admitted T admits (c # cs) s \<longleftrightarrow>
     admits c s \<and> (case cmd_apply T c s of Inl _ \<Rightarrow> False | Inr s' \<Rightarrow> admitted T admits cs s')"

definition fits :: "'c CommandHistory \<Rightarrow> nat \<Rightarrow> bool" where
  "fits h n \<longleftrightarrow> max_history h = 0 \<or> length (undo_stack h) + n \<le> max_history h"

lemma execute_all_session:
  assumes "session T admits start (h, s)" "admitted T admits cs s"
  shows "session T admits start (execute_all T cs (h, s))"
  using assms
proof (induction cs arbitrary: h s)
  case (Cons c cs)
  obtain r h' s' where e: "execute T c h s = (r, h', s')" by (metis prod_cases3)
  from Cons.prems(2) e have "session T admits start (h', s')"
    by (intro session_next [OF Cons.prems(1)] step_execute) auto
  moreover from Cons.prems(2) e have "admitted T admits cs s'"
    by (auto simp: execute_def Let_def split: sum.splits)
  ultimately show ?case using Cons.IH e by simp
qed simp

section \<open>The contract of the commands\<close>

locale reversible_commands =
  fixes T :: "('c, 's) CommandTrait" and recorded :: "'c \<Rightarrow> 's \<Rightarrow> bool" and same :: "'s \<Rightarrow> 's \<Rightarrow> bool"
  assumes same_sym: "same s t \<Longrightarrow> same t s"
    and same_trans: "same s t \<Longrightarrow> same t u \<Longrightarrow> same s u"
    and recorded_same: "recorded c s \<Longrightarrow> same s s"
    and apply_same: "recorded c s \<Longrightarrow> cmd_apply T c s = Inr s' \<Longrightarrow> same s t
      \<Longrightarrow> \<exists>t'. cmd_apply T c t = Inr t' \<and> same s' t'"
    and inverse_same: "recorded c s \<Longrightarrow> cmd_apply T c s = Inr s' \<Longrightarrow> same s' t'
      \<Longrightarrow> \<exists>t. cmd_apply T (cmd_inverse T c) t' = Inr t \<and> same s t"
begin

text \<open>Command \<open>c\<close> leads from \<open>s\<close> to \<open>t\<close>, up to \<open>same\<close>.\<close>

definition links :: "'c \<Rightarrow> 's \<Rightarrow> 's \<Rightarrow> bool" where
  "links c s t \<longleftrightarrow> (\<exists>s0 s1. recorded c s0 \<and> cmd_apply T c s0 = Inr s1 \<and> same s0 s \<and> same s1 t)"

fun undoable :: "'c list \<Rightarrow> 's \<Rightarrow> bool" where
  "undoable [] s \<longleftrightarrow> same s s"
| "undoable (c # cs) s \<longleftrightarrow> (\<exists>s0. links c s0 s \<and> undoable cs s0)"

fun redoable :: "'c list \<Rightarrow> 's \<Rightarrow> bool" where
  "redoable [] s \<longleftrightarrow> same s s"
| "redoable (c # cs) s \<longleftrightarrow> (\<exists>s1. links c s s1 \<and> redoable cs s1)"

text \<open>The history lies on a time line of recorded commands through the current state.\<close>

definition timeline :: "'c CommandHistory \<times> 's \<Rightarrow> bool" where
  "timeline x \<longleftrightarrow> undoable (rev (undo_stack (fst x))) (snd x) \<and> redoable (rev (redo_stack (fst x))) (snd x)"

lemma same_left: "same s t \<Longrightarrow> same s s"
  by (rule same_trans [OF _ same_sym])

lemma same_right: "same s t \<Longrightarrow> same t t"
  by (rule same_trans [OF same_sym])

lemma links_cong:
  assumes "links c s t" "same s s'" "same t t'"
  shows "links c s' t'"
proof -
  from assms(1) obtain s0 s1 where "recorded c s0" "cmd_apply T c s0 = Inr s1" "same s0 s" "same s1 t"
    unfolding links_def by blast
  with same_trans [OF _ assms(2)] same_trans [OF _ assms(3)] show ?thesis unfolding links_def by blast
qed

lemma links_same: "links c s t \<Longrightarrow> same s s \<and> same t t"
  unfolding links_def using same_right by blast

lemma links_apply:
  assumes "links c s t"
  obtains t' where "cmd_apply T c s = Inr t'" "same t t'"
proof -
  from assms obtain s0 s1 where l: "recorded c s0" "cmd_apply T c s0 = Inr s1" "same s0 s" "same s1 t"
    unfolding links_def by blast
  from apply_same [OF l(1-3)] obtain t' where "cmd_apply T c s = Inr t'" "same s1 t'" by blast
  with same_trans [OF same_sym [OF l(4)]] show ?thesis by (rule_tac that)
qed

lemma links_inverse:
  assumes "links c s t"
  obtains s' where "cmd_apply T (cmd_inverse T c) t = Inr s'" "same s s'"
proof -
  from assms obtain s0 s1 where l: "recorded c s0" "cmd_apply T c s0 = Inr s1" "same s0 s" "same s1 t"
    unfolding links_def by blast
  from inverse_same [OF l(1,2,4)] obtain s' where "cmd_apply T (cmd_inverse T c) t = Inr s'" "same s0 s'" by blast
  with same_trans [OF same_sym [OF l(3)]] show ?thesis by (rule_tac that)
qed

lemma recorded_links:
  assumes "recorded c s" "cmd_apply T c s = Inr t"
  shows "links c s t"
proof -
  from apply_same [OF assms recorded_same [OF assms(1)]] assms(2) have "same t t" by auto
  with assms recorded_same [OF assms(1)] show ?thesis unfolding links_def by blast
qed

lemma undoable_same: "undoable cs s \<Longrightarrow> same s s"
  by (cases cs) (auto dest: links_same)

lemma redoable_same: "redoable cs s \<Longrightarrow> same s s"
  by (cases cs) (auto dest: links_same)

lemma undoable_cong:
  assumes "same s t" "undoable cs s"
  shows "undoable cs t"
proof (cases cs)
  case (Cons c cs')
  with assms(2) obtain s0 where s0: "links c s0 s" "undoable cs' s0" by auto
  from links_cong [OF s0(1) _ assms(1)] links_same [OF s0(1)] s0(2) Cons show ?thesis by auto
qed (use same_right [OF assms(1)] in simp)

lemma redoable_cong:
  assumes "same s t" "redoable cs s"
  shows "redoable cs t"
proof (cases cs)
  case (Cons c cs')
  with assms(2) obtain s1 where s1: "links c s s1" "redoable cs' s1" by auto
  from links_cong [OF s1(1) assms(1)] links_same [OF s1(1)] s1(2) Cons show ?thesis by auto
qed (use same_right [OF assms(1)] in simp)

lemma undoable_butlast: "undoable cs s \<Longrightarrow> undoable (butlast cs) s"
proof (induction cs arbitrary: s)
  case (Cons c cs)
  then obtain s0 where "links c s0 s" "undoable (butlast cs) s0" by auto
  with undoable_same [OF Cons.prems] show ?case by auto
qed simp

lemma fresh_timeline: "same s s \<Longrightarrow> undo_stack h = [] \<Longrightarrow> redo_stack h = [] \<Longrightarrow> timeline (h, s)"
  by (simp add: timeline_def)

lemma rev_vec_remove_0: "rev (vec_remove 0 xs) = butlast (rev xs)"
  by (cases xs) (simp_all add: vec_remove_def)

lemma execute_timeline:
  assumes "timeline (h, s)" "recorded cmd s" "execute T cmd h s = (r, h', s')"
  shows "timeline (h', s')"
proof (cases "cmd_apply T cmd s")
  case (Inr s1)
  note l = recorded_links [OF assms(2) Inr]
  from l assms(1) have u: "undoable (cmd # rev (undo_stack h)) s1" by (auto simp: timeline_def)
  with undoable_butlast [OF u] links_same [OF l] Inr assms(3) show ?thesis
    by (auto simp: execute_def timeline_def Let_def rev_vec_remove_0 simp del: undoable.simps split: if_splits)
qed (use assms in \<open>auto simp: execute_def\<close>)

lemma undo_works:
  assumes "timeline (h, s)" "undo_stack h = cs @ [c]"
  obtains s' where "undo T h s = (Inr (cmd_description T c), h\<lparr>undo_stack := cs, redo_stack := redo_stack h @ [c]\<rparr>, s')"
    "timeline (h\<lparr>undo_stack := cs, redo_stack := redo_stack h @ [c]\<rparr>, s')" "links c s' s"
proof -
  from assms obtain s0 where l: "links c s0 s" and cs: "undoable (rev cs) s0" and rs: "redoable (rev (redo_stack h)) s"
    by (auto simp: timeline_def)
  from l obtain s' where s': "cmd_apply T (cmd_inverse T c) s = Inr s'" "same s0 s'" by (rule links_inverse)
  have l': "links c s' s" using links_cong [OF l s'(2)] links_same [OF l] by blast
  show ?thesis
  proof (rule that)
    show "undo T h s = (Inr (cmd_description T c), h\<lparr>undo_stack := cs, redo_stack := redo_stack h @ [c]\<rparr>, s')"
      using assms(2) s' by (simp add: undo_def)
    show "timeline (h\<lparr>undo_stack := cs, redo_stack := redo_stack h @ [c]\<rparr>, s')"
      using undoable_cong [OF s'(2) cs] rs l' by (auto simp: timeline_def)
  qed (rule l')
qed

lemma redo_works:
  assumes "timeline (h, s)" "redo_stack h = cs @ [c]"
  obtains s' where "redo T h s = (Inr (cmd_description T c), h\<lparr>undo_stack := undo_stack h @ [c], redo_stack := cs\<rparr>, s')"
    "timeline (h\<lparr>undo_stack := undo_stack h @ [c], redo_stack := cs\<rparr>, s')" "links c s s'"
proof -
  from assms obtain s1 where l: "links c s s1" and cs: "redoable (rev cs) s1" and us: "undoable (rev (undo_stack h)) s"
    by (auto simp: timeline_def)
  from l obtain s' where s': "cmd_apply T c s = Inr s'" "same s1 s'" by (rule links_apply)
  have l': "links c s s'" using links_cong [OF l _ s'(2)] links_same [OF l] by blast
  show ?thesis
  proof (rule that)
    show "redo T h s = (Inr (cmd_description T c), h\<lparr>undo_stack := undo_stack h @ [c], redo_stack := cs\<rparr>, s')"
      using assms(2) s' by (simp add: redo_def)
    show "timeline (h\<lparr>undo_stack := undo_stack h @ [c], redo_stack := cs\<rparr>, s')"
      using redoable_cong [OF s'(2) cs] us l' by (auto simp: timeline_def)
  qed (rule l')
qed

lemma step_timeline:
  assumes "session_step T recorded x y" and x: "timeline x"
  shows "timeline y"
  using assms(1)
proof cases
  case (step_execute cmd s h r h' s')
  with x show ?thesis by (auto intro: execute_timeline)
next
  case (step_undo h s r h' s')
  show ?thesis
  proof (cases "undo_stack h" rule: rev_cases)
    case (snoc cs c)
    from x step_undo(1) have "timeline (h, s)" by simp
    then obtain t where "undo T h s = (Inr (cmd_description T c), h\<lparr>undo_stack := cs, redo_stack := redo_stack h @ [c]\<rparr>, t)"
      "timeline (h\<lparr>undo_stack := cs, redo_stack := redo_stack h @ [c]\<rparr>, t)" by (rule undo_works [OF _ snoc])
    with step_undo show ?thesis by simp
  qed (use x step_undo in \<open>simp add: undo_def\<close>)
next
  case (step_redo h s r h' s')
  show ?thesis
  proof (cases "redo_stack h" rule: rev_cases)
    case (snoc cs c)
    from x step_redo(1) have "timeline (h, s)" by simp
    then obtain t where "redo T h s = (Inr (cmd_description T c), h\<lparr>undo_stack := undo_stack h @ [c], redo_stack := cs\<rparr>, t)"
      "timeline (h\<lparr>undo_stack := undo_stack h @ [c], redo_stack := cs\<rparr>, t)" by (rule redo_works [OF _ snoc])
    with step_redo show ?thesis by simp
  qed (use x step_redo in \<open>simp add: redo_def\<close>)
next
  case (step_clear h s)
  with x show ?thesis using undoable_same by (auto simp: timeline_def history_clear_def)
qed

lemma session_timeline: "session T recorded start x \<Longrightarrow> timeline start \<Longrightarrow> timeline x"
  by (induction rule: session.induct) (auto intro: step_timeline)

text \<open>Undo followed by redo, and redo followed by undo, lead back to the same history and an equivalent state.\<close>

lemma undo_redo:
  assumes "timeline (h, s)" "can_undo h"
  shows "\<exists>d h' s' t. undo T h s = (Inr d, h', s') \<and> redo T h' s' = (Inr d, h, t) \<and> same s t"
proof -
  from assms(2) obtain cs c where u: "undo_stack h = cs @ [c]"
    by (cases "undo_stack h" rule: rev_cases) (auto simp: can_undo_def)
  from assms(1) u obtain s' where s': "undo T h s = (Inr (cmd_description T c), h\<lparr>undo_stack := cs, redo_stack := redo_stack h @ [c]\<rparr>, s')"
    and l: "links c s' s" by (rule undo_works)
  from l obtain t where t: "cmd_apply T c s' = Inr t" "same s t" by (rule links_apply)
  have "redo T (h\<lparr>undo_stack := cs, redo_stack := redo_stack h @ [c]\<rparr>) s' = (Inr (cmd_description T c), h, t)"
    using t(1) u [symmetric] by (simp add: redo_def)
  with s' t(2) show ?thesis by blast
qed

lemma redo_undo:
  assumes "timeline (h, s)" "can_redo h"
  shows "\<exists>d h' s' t. redo T h s = (Inr d, h', s') \<and> undo T h' s' = (Inr d, h, t) \<and> same s t"
proof -
  from assms(2) obtain cs c where r: "redo_stack h = cs @ [c]"
    by (cases "redo_stack h" rule: rev_cases) (auto simp: can_redo_def)
  from assms(1) r obtain s' where s': "redo T h s = (Inr (cmd_description T c), h\<lparr>undo_stack := undo_stack h @ [c], redo_stack := cs\<rparr>, s')"
    and l: "links c s s'" by (rule redo_works)
  from l obtain t where t: "cmd_apply T (cmd_inverse T c) s' = Inr t" "same s t" by (rule links_inverse)
  have "undo T (h\<lparr>undo_stack := undo_stack h @ [c], redo_stack := cs\<rparr>) s' = (Inr (cmd_description T c), h, t)"
    using t(1) r [symmetric] by (simp add: undo_def)
  with s' t(2) show ?thesis by blast
qed

text \<open>Any number of recorded commands, within the depth, is undone by as many undo calls.\<close>

lemma undo_call_back:
  assumes "links c s s1" "undo_stack h = cs @ [c]" "same s1 t"
  shows "undo_stack (fst (undo_call T (h, t))) = cs \<and> same s (snd (undo_call T (h, t)))"
proof -
  from links_cong [OF assms(1) _ assms(3)] links_same [OF assms(1)] have "links c s t" by blast
  then obtain s' where "cmd_apply T (cmd_inverse T c) t = Inr s'" "same s s'" by (rule links_inverse)
  with assms(2) show ?thesis by (simp add: undo_call_def undo_def)
qed

lemma revert:
  assumes "admitted T recorded cs s" "fits h (length cs)" "execute_all T cs (h, s) = (h1, s1)"
  shows "undo_stack h1 = undo_stack h @ cs
    \<and> (\<forall>(h2 :: 'c CommandHistory) t. undo_stack h2 = undo_stack h1 \<longrightarrow> same s1 t
        \<longrightarrow> undo_stack (fst ((undo_call T ^^ length cs) (h2, t))) = undo_stack h
          \<and> (cs \<noteq> [] \<longrightarrow> same s (snd ((undo_call T ^^ length cs) (h2, t)))))"
  using assms
proof (induction cs arbitrary: h s)
  case Nil
  then show ?case by simp
next
  case (Cons c cs)
  from Cons.prems(1) obtain s0 where c: "recorded c s" "cmd_apply T c s = Inr s0" "admitted T recorded cs s0"
    by (auto split: sum.splits)
  define h0 where "h0 = h\<lparr>undo_stack := undo_stack h @ [c], redo_stack := []\<rparr>"
  have ex: "execute T c h s = (Inr (), h0, s0)"
    using c(2) Cons.prems(2) by (auto simp: execute_def h0_def fits_def Let_def)
  have f: "fits h0 (length cs)" using Cons.prems(2) by (auto simp: fits_def h0_def)
  from Cons.prems(3) ex have all: "execute_all T cs (h0, s0) = (h1, s1)" by simp
  note l = recorded_links [OF c(1,2)]
  note IH = Cons.IH [OF c(3) f all]
  show ?case
  proof (intro conjI allI impI)
    show "undo_stack h1 = undo_stack h @ c # cs" using IH by (simp add: h0_def)
    fix h2 :: "'c CommandHistory" and t
    assume h2: "undo_stack h2 = undo_stack h1" "same s1 t"
    let ?x = "(undo_call T ^^ length cs) (h2, t)"
    from IH h2 have x: "undo_stack (fst ?x) = undo_stack h @ [c]" "cs \<noteq> [] \<Longrightarrow> same s0 (snd ?x)"
      by (auto simp: h0_def)
    have "same s0 (snd ?x)"
      using x(2) all h2(2) by (cases "cs = []") auto
    from undo_call_back [OF l x(1) this]
    show "undo_stack (fst ((undo_call T ^^ length (c # cs)) (h2, t))) = undo_stack h"
      "same s (snd ((undo_call T ^^ length (c # cs)) (h2, t)))" by simp_all
  qed
qed

end

end
