(* ===== verification/Editor_History.thy ===== *)
theory Editor_History
  imports Command_History Authoring
begin

text \<open>
  The editor's commands on a project (\<^verbatim>\<open>editor/src/history.rs\<close>). A command is a constructor with the
  fields of its struct; every \<open>apply\<close> checks its indices before it changes anything, so an error
  leaves the project as it was. Indices are naturals, \<open>usize::MAX\<close> is the one of a 64-bit target.
\<close>

datatype EditorCommand =
    AddOperation nat Operation
  | RemoveOperation nat Operation
  | ModifyOperation nat Operation Operation
  | MoveOperation nat nat
  | AddAction nat Action
  | RemoveAction nat nat Action
  | ModifyAction nat nat Action Action
  | ModifyProjectMeta string string

definition usize_max :: nat where "usize_max = 2 ^ 64 - 1"

definition arrow_text :: string where
  "arrow_text = '' '' @ right_arrow @ '' ''"

definition len_text :: "nat \<Rightarrow> string" where
  "len_text n = '' (len = '' @ show_nat n @ '')''"

definition with_actions :: "nat \<Rightarrow> (Action list \<Rightarrow> Action list) \<Rightarrow> Operation list \<Rightarrow> Operation list" where
  "with_actions i f ops = ops[i := (ops ! i)\<lparr>op_actions := f (op_actions (ops ! i))\<rparr>]"

text \<open>\<open>RemoveAction\<close> resolves \<open>usize::MAX\<close> to the last action (\<open>len().saturating_sub(1)\<close>).\<close>

definition action_index :: "nat \<Rightarrow> Action list \<Rightarrow> nat" where
  "action_index index actions = (if index = usize_max then length actions - 1 else index)"

fun editor_apply :: "EditorCommand \<Rightarrow> Project \<Rightarrow> string + Project" where
  "editor_apply (AddOperation index operation) project =
     (if index > length (prj_operations project)
      then Inl (''Cannot add operation at index '' @ show_nat index @ len_text (length (prj_operations project)))
      else Inr (project\<lparr>prj_operations := vec_insert index operation (prj_operations project)\<rparr>))"
| "editor_apply (RemoveOperation index operation) project =
     (if index \<ge> length (prj_operations project)
      then Inl (''Cannot remove operation at index '' @ show_nat index @ len_text (length (prj_operations project)))
      else Inr (project\<lparr>prj_operations := vec_remove index (prj_operations project)\<rparr>))"
| "editor_apply (ModifyOperation index old_op new_op) project =
     (if index \<ge> length (prj_operations project)
      then Inl (''Cannot modify operation at index '' @ show_nat index @ len_text (length (prj_operations project)))
      else Inr (project\<lparr>prj_operations := (prj_operations project)[index := new_op]\<rparr>))"
| "editor_apply (MoveOperation source target) project =
     (let ops = prj_operations project; len = length ops
      in if source \<ge> len \<or> target \<ge> len
         then Inl (''Cannot move operation from '' @ show_nat source @ '' to '' @ show_nat target @ len_text len)
         else Inr (project\<lparr>prj_operations := vec_insert target (ops ! source) (vec_remove source ops)\<rparr>))"
| "editor_apply (AddAction op_index action) project =
     (if op_index \<ge> length (prj_operations project)
      then Inl (''Cannot add action: operation index '' @ show_nat op_index @ '' out of range''
                @ len_text (length (prj_operations project)))
      else Inr (project\<lparr>prj_operations := with_actions op_index (\<lambda>actions. actions @ [action]) (prj_operations project)\<rparr>))"
| "editor_apply (RemoveAction op_index index action) project =
     (let ops = prj_operations project
      in if op_index \<ge> length ops
         then Inl (''Cannot remove action: operation index '' @ show_nat op_index @ '' out of range'' @ len_text (length ops))
         else let actions = op_actions (ops ! op_index); idx = action_index index actions
              in if idx \<ge> length actions
                 then Inl (''Cannot remove action at index '' @ show_nat idx @ len_text (length actions))
                 else Inr (project\<lparr>prj_operations := with_actions op_index (vec_remove idx) ops\<rparr>))"
| "editor_apply (ModifyAction op_index act_index old_action new_action) project =
     (let ops = prj_operations project
      in if op_index \<ge> length ops
         then Inl (''Cannot modify action: operation index '' @ show_nat op_index @ '' out of range'')
         else let actions = op_actions (ops ! op_index)
              in if act_index \<ge> length actions
                 then Inl (''Cannot modify action at index '' @ show_nat act_index @ len_text (length actions))
                 else Inr (project\<lparr>prj_operations := with_actions op_index (\<lambda>as. as[act_index := new_action]) ops\<rparr>))"
| "editor_apply (ModifyProjectMeta old_name new_name) project =
     Inr (project\<lparr>prj_metadata := (prj_metadata project)\<lparr>meta_name := new_name\<rparr>\<rparr>)"

fun editor_inverse :: "EditorCommand \<Rightarrow> EditorCommand" where
  "editor_inverse (AddOperation index operation) = RemoveOperation index operation"
| "editor_inverse (RemoveOperation index operation) = AddOperation index operation"
| "editor_inverse (ModifyOperation index old_op new_op) = ModifyOperation index new_op old_op"
| "editor_inverse (MoveOperation source target) = MoveOperation target source"
| "editor_inverse (AddAction op_index action) = RemoveAction op_index usize_max action"
| "editor_inverse (RemoveAction op_index index action) = AddAction op_index action"
| "editor_inverse (ModifyAction op_index act_index old_action new_action) =
     ModifyAction op_index act_index new_action old_action"
| "editor_inverse (ModifyProjectMeta old_name new_name) = ModifyProjectMeta new_name old_name"

fun editor_description :: "EditorCommand \<Rightarrow> string" where
  "editor_description (AddOperation index operation) = ''Add Operation '' @ quoted (op_name operation)"
| "editor_description (RemoveOperation index operation) = ''Remove Operation '' @ quoted (op_name operation)"
| "editor_description (ModifyOperation index old_op new_op) = ''Modify Operation '' @ quoted (op_name new_op)"
| "editor_description (MoveOperation source target) =
     ''Move Operation '' @ show_nat source @ arrow_text @ show_nat target"
| "editor_description (AddAction op_index action) = ''Add Action to Operation '' @ show_nat op_index"
| "editor_description (RemoveAction op_index index action) = ''Remove Action from Operation '' @ show_nat op_index"
| "editor_description (ModifyAction op_index act_index old_action new_action) =
     ''Modify Action '' @ show_nat act_index @ '' in Operation '' @ show_nat op_index"
| "editor_description (ModifyProjectMeta old_name new_name) =
     ''Rename project '' @ quoted old_name @ arrow_text @ quoted new_name"

definition EditorCommands :: "(EditorCommand, Project) CommandTrait" where
  "EditorCommands =
     \<lparr>cmd_apply = editor_apply, cmd_inverse = editor_inverse, cmd_description = editor_description\<rparr>"

lemma EditorCommands_simps [simp]:
  "cmd_apply EditorCommands = editor_apply" "cmd_inverse EditorCommands = editor_inverse"
  "cmd_description EditorCommands = editor_description"
  by (simp_all add: EditorCommands_def)

section \<open>Recorded commands\<close>

text \<open>
  A command is recorded for a project when the contents it stores are those it is about to change; a
  removal of an action has to remove the last one.
\<close>

fun recorded :: "EditorCommand \<Rightarrow> Project \<Rightarrow> bool" where
  "recorded (RemoveOperation index operation) project \<longleftrightarrow>
     (index < length (prj_operations project) \<longrightarrow> prj_operations project ! index = operation)"
| "recorded (ModifyOperation index old_op new_op) project \<longleftrightarrow>
     (index < length (prj_operations project) \<longrightarrow> prj_operations project ! index = old_op)"
| "recorded (RemoveAction op_index index action) project \<longleftrightarrow>
     (op_index < length (prj_operations project) \<longrightarrow>
        (let actions = op_actions (prj_operations project ! op_index); idx = action_index index actions
         in idx < length actions \<longrightarrow> actions ! idx = action \<and> Suc idx = length actions))"
| "recorded (ModifyAction op_index act_index old_action new_action) project \<longleftrightarrow>
     (op_index < length (prj_operations project) \<longrightarrow>
        act_index < length (op_actions (prj_operations project ! op_index)) \<longrightarrow>
        op_actions (prj_operations project ! op_index) ! act_index = old_action)"
| "recorded (ModifyProjectMeta old_name new_name) project \<longleftrightarrow> meta_name (prj_metadata project) = old_name"
| "recorded _ project \<longleftrightarrow> True"

lemma set_operations_id [simp]: "project\<lparr>prj_operations := prj_operations project\<rparr> = (project :: Project)"
  by (cases project) simp

lemma set_actions_id: "i < length ops \<Longrightarrow> as = op_actions (ops ! i) \<Longrightarrow> ops[i := (ops ! i)\<lparr>op_actions := as\<rparr>] = (ops :: Operation list)"
  by (cases "ops ! i") (simp add: list_update_same_conv)

lemma length_with_actions [simp]: "length (with_actions i f ops) = length ops"
  by (simp add: with_actions_def)

lemma nth_with_actions [simp]: "i < length ops \<Longrightarrow> op_actions (with_actions i f ops ! i) = f (op_actions (ops ! i))"
  by (simp add: with_actions_def)

lemma with_actions_back:
  assumes "i < length ops" "g (f (op_actions (ops ! i))) = op_actions (ops ! i)"
  shows "with_actions i g (with_actions i f ops) = ops"
  using assms by (simp add: with_actions_def set_actions_id)

lemma vec_remove_last: "vec_remove (length xs) (xs @ [x]) = xs"
  by (simp add: vec_remove_def)

lemma vec_remove_snoc: "Suc i = length xs \<Longrightarrow> vec_remove i xs @ [xs ! i] = xs"
  by (metis append_Nil2 drop_all hd_drop_conv_nth le_refl lessI take_hd_drop vec_remove_def take_all)

lemma editor_inverts:
  assumes "recorded c p" and "editor_apply c p = Inr p'"
  shows "editor_apply (editor_inverse c) p' = Inr p"
proof (cases c)
  case (MoveOperation source target)
  let ?ops = "prj_operations p" and ?ops' = "vec_insert target (prj_operations p ! source) (vec_remove source (prj_operations p))"
  from assms MoveOperation have i: "source < length ?ops" "target < length ?ops"
    and p': "p' = p\<lparr>prj_operations := ?ops'\<rparr>"
    by (auto simp: Let_def split: if_splits)
  then have t: "target \<le> length (vec_remove source ?ops)" by simp
  have "length ?ops' = length ?ops" using i t by (simp add: Suc_pred')
  then show ?thesis using MoveOperation i t p' by (simp add: Let_def vec_insert_remove)
next
  case (AddAction op_index action)
  with assms have "op_index < length (prj_operations p)"
    "p' = p\<lparr>prj_operations := with_actions op_index (\<lambda>actions. actions @ [action]) (prj_operations p)\<rparr>"
    by (auto split: if_splits)
  with AddAction show ?thesis
    by (simp add: Let_def action_index_def with_actions_back vec_remove_last)
next
  case (RemoveAction op_index index action)
  with assms show ?thesis
    by (auto simp: Let_def with_actions_back vec_remove_snoc split: if_splits)
next
  case (ModifyAction op_index act_index old_action new_action)
  with assms show ?thesis by (auto simp: Let_def with_actions_back split: if_splits)
next
  case (ModifyProjectMeta old_name new_name)
  with assms show ?thesis by (cases p) auto
qed (use assms in \<open>auto simp: vec_insert_remove split: if_splits\<close>)

interpretation editor: reversible_commands EditorCommands recorded "(=)"
proof unfold_locales
  fix c and s s' t' :: Project
  assume "recorded c s" "cmd_apply EditorCommands c s = Inr s'" "s' = t'"
  then show "\<exists>t. cmd_apply EditorCommands (cmd_inverse EditorCommands c) t' = Inr t \<and> s = t"
    using editor_inverts by simp
qed auto

lemma fresh_editor: "editor.timeline (with_max limit, p)"
  by (rule editor.fresh_timeline) (simp_all add: with_max_def)

lemma editor_session_timeline: "session EditorCommands recorded (with_max limit, p0) x \<Longrightarrow> editor.timeline x"
  by (erule editor.session_timeline) (rule fresh_editor)

section \<open>Properties\<close>

definition note0 :: "uuid \<Rightarrow> Action" where
  "note0 n =
     \<lparr>act_id = n, act_enabled = True, act_condition = None, act_note = None, act_class_restriction = None,
      act_gate = None, act_payload = Comment \<lparr>comment_text = ''note''\<rparr>\<rparr>"

definition step1 :: Operation where
  "step1 = (Operation_new 1 ''step'')\<lparr>op_actions := [note0 1, note0 2, note0 3]\<rparr>"

definition project2 :: Project where
  "project2 = (new_project 7 ''now'' ''route'')\<lparr>prj_operations := [step1]\<rparr>"

definition edits0 :: "EditorCommand list" where
  "edits0 = [AddOperation 1 (Operation_new 2 ''walk''), MoveOperation 0 1, AddAction 0 (note0 4),
             ModifyProjectMeta ''route'' ''loop'', RemoveOperation 1 step1]"

lemma edits0_admitted: "admitted EditorCommands recorded edits0 project2"
  by code_simp

text \<open>in every editing session, whatever the sequence of edits, undos and redos, an undo that is offered
  succeeds and the redo after it restores the project and both stacks exactly, and so does the undo after a redo.\<close>

theorem editor_undo_redo:
  assumes "session EditorCommands recorded (with_max limit, p0) (h, p)"
  shows "(can_undo h \<longrightarrow>
      (\<exists>d h' p'. undo EditorCommands h p = (Inr d, h', p') \<and> redo EditorCommands h' p' = (Inr d, h, p)))
    \<and> (can_redo h \<longrightarrow>
      (\<exists>d h' p'. redo EditorCommands h p = (Inr d, h', p') \<and> undo EditorCommands h' p' = (Inr d, h, p)))"
proof -
  note t = editor_session_timeline [OF assms]
  show ?thesis using editor.undo_redo [OF t] editor.redo_undo [OF t] by blast
qed

lemma editor_undo_redo_witness:
  "let (h, p) = execute_all EditorCommands edits0 (with_max 3, project2)
   in length (undo_stack h) = 3
    \<and> (\<exists>d h' p'. undo EditorCommands h p = (Inr d, h', p') \<and> redo EditorCommands h' p' = (Inr d, h, p))"
proof -
  obtain h p where x: "execute_all EditorCommands edits0 (with_max 3, project2) = (h, p)" by (metis surj_pair)
  have n: "length (undo_stack (fst (execute_all EditorCommands edits0 (with_max 3, project2)))) = 3" by code_simp
  from execute_all_session [OF session_start edits0_admitted, of "with_max 3"] x
  have "session EditorCommands recorded (with_max 3, project2) (h, p)" by simp
  from editor_undo_redo [OF this] n x show ?thesis by (auto simp: can_undo_def)
qed

text \<open>nothing is lost within the depth of the history: any run of edits is undone by as many undo calls,
  and the project is then what it was before the run.\<close>

theorem editor_revert:
  assumes "admitted EditorCommands recorded cs p" and "limit = 0 \<or> length cs \<le> limit"
  shows "snd ((undo_call EditorCommands ^^ length cs) (execute_all EditorCommands cs (with_max limit, p))) = p"
proof -
  obtain h1 p1 where x: "execute_all EditorCommands cs (with_max limit, p) = (h1, p1)" by (metis surj_pair)
  from assms(2) have "fits (with_max limit) (length cs)" by (simp add: fits_def with_max_def)
  from editor.revert [OF assms(1) this x] x show ?thesis by (cases "cs = []") auto
qed

lemma editor_revert_witness:
  "snd ((undo_call EditorCommands ^^ 5) (execute_all EditorCommands edits0 (with_max 50, project2))) = project2"
proof -
  have "length edits0 = 5" by code_simp
  with editor_revert [OF edits0_admitted, of 50] show ?thesis by simp
qed

text \<open>the depth limit holds in every session: both stacks together never exceed it, although only
  \<open>execute\<close> enforces it and redo pushes without a check.\<close>

theorem history_depth:
  assumes "session T admits (with_max limit, s0) (h, s)" and "limit > 0"
  shows "length (undo_stack h) + length (redo_stack h) \<le> limit"
  using session_depth [OF assms(1)] assms(2) by (auto simp: within_depth_def with_max_def)

lemma history_depth_witness:
  "let h = fst (execute_all EditorCommands edits0 (with_max 3, project2))
   in length (undo_stack h) + length (redo_stack h) \<le> 3"
  using history_depth [of EditorCommands recorded 3 project2
    "fst (execute_all EditorCommands edits0 (with_max 3, project2))"
    "snd (execute_all EditorCommands edits0 (with_max 3, project2))"]
    execute_all_session [OF session_start edits0_admitted, of "with_max 3"]
  by (simp add: Let_def)

text \<open>removing an action that is not the last one is not undone by its inverse: the undo reports success but
  puts the action at the end of the operation, and the redo after it removes the action that followed it
  instead.\<close>

theorem remove_action_undo:
  assumes "op_index < length (prj_operations p)" and "actions = op_actions (prj_operations p ! op_index)"
    and "Suc index < length actions" and "index \<noteq> usize_max"
    and "execute EditorCommands (RemoveAction op_index index (actions ! index)) h p = (Inr (), h1, p1)"
  shows "\<exists>h2 p2 h3 p3 d.
      undo EditorCommands h1 p1 = (Inr d, h2, p2)
    \<and> op_actions (prj_operations p2 ! op_index) = vec_remove index actions @ [actions ! index]
    \<and> redo EditorCommands h2 p2 = (Inr d, h3, p3)
    \<and> op_actions (prj_operations p3 ! op_index) = vec_remove index (vec_remove (Suc index) actions) @ [actions ! index]"
proof -
  let ?c = "RemoveAction op_index index (actions ! index)"
  let ?ops1 = "with_actions op_index (vec_remove index) (prj_operations p)"
  let ?ops2 = "with_actions op_index (\<lambda>as. as @ [actions ! index]) ?ops1"
  let ?ops3 = "with_actions op_index (vec_remove index) ?ops2"
  have p1: "p1 = p\<lparr>prj_operations := ?ops1\<rparr>" and top: "last (undo_stack h1) = ?c" "undo_stack h1 \<noteq> []"
    using assms by (auto simp: execute_def Let_def action_index_def vec_remove_def split: if_splits)
  have acts: "op_actions (?ops1 ! op_index) = vec_remove index actions"
    "op_actions (?ops2 ! op_index) = vec_remove index actions @ [actions ! index]"
    "op_actions (?ops3 ! op_index) = vec_remove index (vec_remove index actions @ [actions ! index])"
    using assms(1,2) by simp_all
  have len: "length (vec_remove index actions) = length actions - 1" using assms(3) by simp
  have twice: "vec_remove index (vec_remove index actions @ [actions ! index])
    = vec_remove index (vec_remove (Suc index) actions) @ [actions ! index]"
    using assms(3) by (simp add: vec_remove_def)
  show ?thesis
    using assms(1,3,4) p1 top acts twice len
    by (simp add: undo_def redo_def Let_def action_index_def)
qed

lemma remove_action_undo_witness:
  "\<exists>h2 p2 d. undo EditorCommands
      (fst (snd (execute EditorCommands (RemoveAction 0 0 (note0 1)) (with_max 50) project2)))
      (snd (snd (execute EditorCommands (RemoveAction 0 0 (note0 1)) (with_max 50) project2))) = (Inr d, h2, p2)
    \<and> op_actions (prj_operations p2 ! 0) = [note0 2, note0 3, note0 1] \<and> p2 \<noteq> project2"
proof -
  have "[note0 2, note0 3, note0 1] \<noteq> op_actions (prj_operations project2 ! 0)" by code_simp
  moreover have "op_actions (prj_operations project2 ! 0) = [note0 1, note0 2, note0 3]" by code_simp
  moreover have "fst (execute EditorCommands (RemoveAction 0 0 (note0 1)) (with_max 50) project2) = Inr ()" by code_simp
  moreover have "length (prj_operations project2) = 1" by code_simp
  ultimately show ?thesis
    using remove_action_undo [of 0 project2 "[note0 1, note0 2, note0 3]" 0 "with_max 50"
      "fst (snd (execute EditorCommands (RemoveAction 0 0 (note0 1)) (with_max 50) project2))"
      "snd (snd (execute EditorCommands (RemoveAction 0 0 (note0 1)) (with_max 50) project2))"]
    by (force simp: usize_max_def vec_remove_def prod_eq_iff)
qed

end
