(* ===== verification/Compiler_Runtime.thy ===== *)
theory Compiler_Runtime
  imports Runtime_Model Kernel_Compile
begin

text \<open>
  The ADR-05 compiler, \<open>Compiler::compile\<close> (\<^verbatim>\<open>compiler/src/lib.rs\<close>): every authoring action becomes one
  runtime action of the same operation; what cannot be resolved is degraded to a comment and reported.

  The \<open>&mut u32\<close> counter of unresolved references is threaded; diagnostics are returned. The uuid crate's
  two formats and the standard library's escape of non-ASCII characters in \<open>{:?}\<close> are the fields of
  \<open>Formatters\<close>.
\<close>

record Formatters =
  fmt_uuid :: "uuid \<Rightarrow> string"
  fmt_uuid_debug :: "uuid \<Rightarrow> string"
  fmt_escape :: "uchar \<Rightarrow> string"

section \<open>The \<open>{:?}\<close> format\<close>

definition escape_ascii :: "char \<Rightarrow> string" where
  "escape_ascii c =
     (let n = (of_char c :: nat); backslash = [char_of (92::nat)]
      in if n = 0 then backslash @ ''0'' else if n = 9 then backslash @ ''t''
         else if n = 10 then backslash @ ''n'' else if n = 13 then backslash @ ''r''
         else if n = 34 \<or> n = 92 then backslash @ [c]
         else if n < 16 then backslash @ ''u{'' @ show_hex_pad 1 n @ ''}''
         else if n < 32 \<or> n = 127 then backslash @ ''u{'' @ show_hex_pad 2 n @ ''}''
         else [c])"

definition debug_str :: "Formatters \<Rightarrow> string \<Rightarrow> string" where
  "debug_str F s =
     [char_of (34::nat)]
     @ concat (map (\<lambda>u. case u of [c] \<Rightarrow> escape_ascii c | _ \<Rightarrow> fmt_escape F u) (utf8_chars s))
     @ [char_of (34::nat)]"

definition debug_option :: "('a \<Rightarrow> string) \<Rightarrow> 'a option \<Rightarrow> string" where
  "debug_option f x = (case x of None \<Rightarrow> ''None'' | Some a \<Rightarrow> ''Some('' @ f a @ '')'')"

definition debug_u32s :: "u32 list \<Rightarrow> string" where
  "debug_u32s xs = ''['' @ join '', '' (map show_word xs) @ '']''"

section \<open>Class guards\<close>

definition KNOWN_CLASSES :: "string list" where
  "KNOWN_CLASSES =
     [''Warrior'', ''Paladin'', ''Hunter'', ''Rogue'', ''Priest'', ''DeathKnight'', ''Shaman'', ''Mage'', ''Warlock'',
      ''Druid'']"

definition unknown_class :: "Formatters \<Rightarrow> string \<Rightarrow> uuid \<Rightarrow> string \<Rightarrow> Diagnostic" where
  "unknown_class F restriction action_id detail =
     diagnostic Warning ''UNKNOWN_CLASS_RESTRICTION''
       (''class restriction '' @ quoted restriction @ '' could not be mapped to a guard: '' @ detail)
       (Some restriction) (Some (fmt_uuid F action_id))"

definition parse_class_guard :: "Formatters \<Rightarrow> string \<Rightarrow> uuid \<Rightarrow> RuntimeCondition option \<times> Diagnostic list" where
  "parse_class_guard F restriction action_id =
     (let trimmed = trim restriction
      in if trimmed = [] then (None, [])
         else let (negate, rest) =
                    (case strip_prefix_char (CHR ''!'') trimmed of
                       Some stripped \<Rightarrow> (True, stripped) | None \<Rightarrow> (False, trimmed));
                  names = map trim (split_char (CHR ''/'') rest)
              in if names = [] \<or> [] \<in> set names
                 then (None, [unknown_class F restriction action_id ''empty class token''])
                 else case List.find (\<lambda>name. name \<notin> set KNOWN_CLASSES) names of
                        Some name \<Rightarrow>
                          (None, [unknown_class F restriction action_id (''unknown class '' @ quoted name)])
                      | None \<Rightarrow>
                          let base = (if length names = 1 then ClassIs (names ! 0) else CAny (map ClassIs names))
                          in (Some (if negate then CNot base else base), []))"

section \<open>References\<close>

type_synonym Entries = "uuid \<Rightarrow> u32 option"

definition npc_table :: "Project \<Rightarrow> Entries" where
  "npc_table project =
     map_of (rev (List.map_filter (\<lambda>n. map_option (Pair (npc_id n)) (npc_entry n)) (prj_npc_library project)))"

definition object_table :: "Project \<Rightarrow> Entries" where
  "object_table project = map_of (rev (map (\<lambda>obj. (obj_id obj, obj_entry obj)) (prj_object_library project)))"

definition unresolved_npc_msg :: "Formatters \<Rightarrow> string \<Rightarrow> uuid option \<Rightarrow> string" where
  "unresolved_npc_msg F kind npc =
     (case npc of
        Some u \<Rightarrow> kind @ '' NPC reference '' @ quoted (fmt_uuid F u) @ '' could not be resolved to an entry''
      | None \<Rightarrow> kind @ '' action has no NPC reference'')"

definition resolve_npc_or_report ::
  "Formatters \<Rightarrow> uuid option \<Rightarrow> Entries \<Rightarrow> uuid \<Rightarrow> string \<Rightarrow> u32 \<Rightarrow> u32 option \<times> Diagnostic list \<times> u32" where
  "resolve_npc_or_report F npc npcs action_id kind unresolved =
     (case Option.bind npc npcs of
        Some entry \<Rightarrow> (Some entry, [], unresolved)
      | None \<Rightarrow>
          (None,
           [diagnostic Warning ''UNRESOLVED_NPC'' (unresolved_npc_msg F kind npc)
              (map_option (fmt_uuid F) npc) (Some (fmt_uuid F action_id))],
           unresolved + 1))"

text \<open>The shape eleven arms share: the lowered action when the NPC resolves, a comment otherwise.\<close>

definition npc_arm ::
  "Formatters \<Rightarrow> Entries \<Rightarrow> uuid \<Rightarrow> string \<Rightarrow> uuid option \<Rightarrow> (u32 \<Rightarrow> RuntimeAction) \<Rightarrow> string \<Rightarrow> u32
     \<Rightarrow> RuntimeAction \<times> Diagnostic list \<times> u32" where
  "npc_arm F npcs action_id kind npc lowered text unresolved =
     (let (entry, ds, unresolved') = resolve_npc_or_report F npc npcs action_id kind unresolved
      in (case entry of Some e \<Rightarrow> lowered e | None \<Rightarrow> RComment \<lparr>rcomment_text = text @ '' (unresolved NPC)''\<rparr>,
          ds, unresolved'))"

definition waypoint_of :: "Position \<Rightarrow> RuntimeWaypoint" where
  "waypoint_of p = RuntimeWaypoint_new (pos_map p) (pos_world_x p) (pos_world_y p) (pos_world_z p)"

definition unmapped_msg :: "string \<Rightarrow> string \<Rightarrow> string" where
  "unmapped_msg expression err =
     ''condition expression '' @ quoted expression @ '' could not be mapped to a RuntimeCondition: '' @ err"

definition no_position_msg :: "string \<Rightarrow> string" where
  "no_position_msg destination =
     ''Travel action to '' @ quoted destination @ '' has no resolved position and cannot be lowered to a waypoint''"

section \<open>Actions\<close>

definition npc_text :: "Formatters \<Rightarrow> string \<Rightarrow> uuid \<Rightarrow> string" where
  "npc_text F kind npc = kind @ '' npc='' @ fmt_uuid F npc"

fun resolve_payload ::
  "Formatters \<Rightarrow> Entries \<Rightarrow> Entries \<Rightarrow> uuid \<Rightarrow> ActionPayload \<Rightarrow> u32 \<Rightarrow> RuntimeAction \<times> Diagnostic list \<times> u32" where
  "resolve_payload F npcs objects act (AcceptQuest a) u =
     npc_arm F npcs act ''AcceptQuest'' (accept_npc a)
       (\<lambda>entry. RAcceptQuest \<lparr>raccept_quest_id = accept_quest a, raccept_npc_entry = entry,
          raccept_auto_complete_dialog = accept_auto_complete_dialog a, raccept_optional = accept_optional a\<rparr>)
       (''.AcceptQuest '' @ show_word (accept_quest a)) u"
| "resolve_payload F npcs objects act (TurnInQuest t) u =
     npc_arm F npcs act ''TurnInQuest'' (turnin_npc t)
       (\<lambda>entry. RTurnInQuest \<lparr>rturnin_quest_id = turnin_quest t, rturnin_npc_entry = entry,
          rturnin_choose_reward = turnin_choose_reward t, rturnin_optional = turnin_optional t\<rparr>)
       (''.TurnInQuest '' @ show_word (turnin_quest t)) u"
| "resolve_payload F npcs objects act (Travel tr) u =
     (case travel_position tr of
        Some p \<Rightarrow>
          (RTravel \<lparr>rtravel_destination = travel_destination tr, rtravel_position = waypoint_of p,
             rtravel_tolerance = travel_tolerance tr, rtravel_allow_flight = travel_allow_flight tr,
             rtravel_timeout = travel_timeout tr\<rparr>, [], u)
      | None \<Rightarrow>
          (RComment \<lparr>rcomment_text = ''.Travel '' @ travel_destination tr @ '' (unresolved position)''\<rparr>,
           [diagnostic Warning ''UNRESOLVED_POSITION'' (no_position_msg (travel_destination tr)) None
              (Some (fmt_uuid F act))],
           u + 1))"
| "resolve_payload F npcs objects act (Vendor v) u =
     npc_arm F npcs act ''Vendor'' (Some (vendor_npc v))
       (\<lambda>entry. RVendor \<lparr>rvendor_npc_entry = entry, rvendor_sell_grey = vendor_sell_grey v,
          rvendor_repair = vendor_repair v, rvendor_buy_items = vendor_buy_items v,
          rvendor_minimum_free_slots = vendor_minimum_free_slots v\<rparr>)
       (npc_text F ''.Vendor'' (vendor_npc v)) u"
| "resolve_payload F npcs objects act (Train tr) u =
     npc_arm F npcs act ''Train'' (Some (trainer_npc tr))
       (\<lambda>entry. RTrain \<lparr>rtrain_npc_entry = entry, rtrain_spells = trainer_spells tr,
          rtrain_trainer_type = trainer_trainer_type tr, rtrain_minimum_level = trainer_minimum_level tr\<rparr>)
       (npc_text F ''.Train'' (trainer_npc tr) @ '' spells='' @ debug_u32s (trainer_spells tr)) u"
| "resolve_payload F npcs objects act (Flight f) u =
     npc_arm F npcs act ''Flight'' (Some (flight_npc f))
       (\<lambda>entry. RFlight \<lparr>rflight_npc_entry = entry, rflight_destination = flight_destination f\<rparr>)
       (npc_text F ''.Flight'' (flight_npc f) @ '' destination='' @ flight_destination f) u"
| "resolve_payload F npcs objects act (Hearth h) u =
     (RHearth \<lparr>rhearth_innkeeper_entry = Option.bind (hearth_innkeeper h) npcs,
        rhearth_destination = hearth_destination h\<rparr>, [], u)"
| "resolve_payload F npcs objects act (Kill k) u =
     (if kill_watch k
      then (RComment \<lparr>rcomment_text = ''.unitscan '' @ join '','' (map show_word (kill_creature_entries k))\<rparr>, [], u)
      else (RKill \<lparr>rkill_creature_entries = kill_creature_entries k, rkill_quantity = kill_quantity k,
              rkill_loot = kill_loot k, rkill_ignore_elites = kill_ignore_elites k\<rparr>, [], u))"
| "resolve_payload F npcs objects act (UseItem i) u =
     (RUseItem \<lparr>ruse_item = use_item i, ruse_target_entry = Option.bind (use_target i) npcs\<rparr>, [], u)"
| "resolve_payload F npcs objects act (Comment c) u = (RComment \<lparr>rcomment_text = comment_text c\<rparr>, [], u)"
| "resolve_payload F npcs objects act (Repair r) u =
     npc_arm F npcs act ''Repair'' (Some (repair_npc r)) (\<lambda>entry. RRepair \<lparr>rrepair_npc_entry = entry\<rparr>)
       (npc_text F ''.Repair'' (repair_npc r)) u"
| "resolve_payload F npcs objects act (LearnFlightPath fp) u =
     npc_arm F npcs act ''LearnFlightPath'' (Some (learn_npc fp))
       (\<lambda>entry. RLearnFlightPath \<lparr>rlearn_npc_entry = entry\<rparr>) (npc_text F ''.LearnFlightPath'' (learn_npc fp)) u"
| "resolve_payload F npcs objects act (Condition c) u =
     (let (condition, ds) =
        (case parse_condition (cond_expression c) of
           Inr condition \<Rightarrow> (condition, [])
         | Inl err \<Rightarrow>
             (AlwaysTrue,
              [diagnostic Warning ''UNMAPPED_CONDITION'' (unmapped_msg (cond_expression c) err)
                 (Some (cond_expression c)) (Some (fmt_uuid F act))]))
      in (RCondition \<lparr>rcond_condition = condition, rcond_role = cond_role c\<rparr>, ds, u))"
| "resolve_payload F npcs objects act (SetVariable sv) u =
     (RSetVariable \<lparr>rsetvar_name = setvar_name sv, rsetvar_value = setvar_value sv\<rparr>, [], u)"
| "resolve_payload F npcs objects act (Escort e) u =
     npc_arm F npcs act ''Escort'' (Some (escort_npc e))
       (\<lambda>entry. REscort \<lparr>rescort_npc_entry = entry, rescort_area = escort_area e, rescort_timeout = escort_timeout e\<rparr>)
       (npc_text F ''.Escort'' (escort_npc e) @ '' area='' @ debug_option (fmt_uuid_debug F) (escort_area e)) u"
| "resolve_payload F npcs objects act (Patrol p) u =
     (RPatrol \<lparr>rpatrol_area = patrol_area p, rpatrol_waypoints = map waypoint_of (patrol_waypoints p)\<rparr>, [], u)"
| "resolve_payload F npcs objects act (GrindArea g) u =
     (RGrind \<lparr>rgrind_polygon = grind_polygon g, rgrind_targets = grind_targets g, rgrind_loot = grind_loot g,
        rgrind_timeout = grind_timeout g, rgrind_minimum_kills = grind_minimum_kills g,
        rgrind_maximum_kills = grind_maximum_kills g, rgrind_stop_condition = grind_stop_condition g\<rparr>, [], u)"
| "resolve_payload F npcs objects act (LootObject l) u =
     (let (entry, ds, u') =
        (case objects (loot_object l) of
           Some entry \<Rightarrow> (entry, [], u)
         | None \<Rightarrow>
             (0,
              [diagnostic Warning ''UNRESOLVED_OBJECT''
                 (''loot object reference '' @ quoted (fmt_uuid F (loot_object l)) @ '' could not be resolved to an entry'')
                 (Some (fmt_uuid F (loot_object l))) (Some (fmt_uuid F act))],
              u + 1))
      in (RLoot \<lparr>rloot_object_entry = entry, rloot_count = loot_count l\<rparr>, ds, u'))"
| "resolve_payload F npcs objects act (Bank b) u =
     npc_arm F npcs act ''Bank'' (Some (bank_npc b)) (\<lambda>entry. RBank \<lparr>rbank_npc_entry = entry\<rparr>)
       (npc_text F ''.Bank'' (bank_npc b)) u"
| "resolve_payload F npcs objects act (Mailbox m) u =
     npc_arm F npcs act ''Mailbox'' (Some (mailbox_npc m)) (\<lambda>entry. RMailbox \<lparr>rmailbox_npc_entry = entry\<rparr>)
       (npc_text F ''.Mailbox'' (mailbox_npc m)) u"
| "resolve_payload F npcs objects act (InteractNPC i) u =
     npc_arm F npcs act ''InteractNpc'' (Some (interact_npc i))
       (\<lambda>entry. RInteractNpc \<lparr>rinteract_npc_entry = entry, rinteract_gossip = interact_gossip i\<rparr>)
       (npc_text F ''.InteractNpc'' (interact_npc i) @ '' gossip='' @ debug_option (debug_str F) (interact_gossip i)) u"
| "resolve_payload F npcs objects act (Wait w) u = (RWait \<lparr>rwait_duration = wait_duration w\<rparr>, [], u)"
| "resolve_payload F npcs objects act (SetHearth s) u =
     (RHearth \<lparr>rhearth_innkeeper_entry = Option.bind (sethearth_npc s) npcs, rhearth_destination = None\<rparr>, [], u)"

definition resolve_action ::
  "Formatters \<Rightarrow> Entries \<Rightarrow> Entries \<Rightarrow> Action \<Rightarrow> u32 \<Rightarrow> GuardedAction \<times> Diagnostic list \<times> u32" where
  "resolve_action F npcs objects action unresolved =
     (let (runtime_action, ds, unresolved') =
            resolve_payload F npcs objects (act_id action) (act_payload action) unresolved;
          (guard, ds') =
            (case act_class_restriction action of
               None \<Rightarrow> (None, []) | Some r \<Rightarrow> parse_class_guard F r (act_id action))
      in (\<lparr>ga_action = runtime_action, ga_guard = guard\<rparr>, ds @ ds', unresolved'))"

fun run_actions ::
  "Formatters \<Rightarrow> Entries \<Rightarrow> Entries \<Rightarrow> Action list \<Rightarrow> u32 \<Rightarrow> GuardedAction list \<times> Diagnostic list \<times> u32" where
  "run_actions F npcs objects [] u = ([], [], u)"
| "run_actions F npcs objects (action # actions) u =
     (let (ga, ds, u1) = resolve_action F npcs objects action u;
          (gas, ds', u2) = run_actions F npcs objects actions u1
      in (ga # gas, ds @ ds', u2))"

definition compile_operation ::
  "Formatters \<Rightarrow> Entries \<Rightarrow> Entries \<Rightarrow> Operation \<Rightarrow> u32 \<Rightarrow> RuntimeOperation \<times> Diagnostic list \<times> u32" where
  "compile_operation F npcs objects operation u =
     (let (actions, ds, u') = run_actions F npcs objects (op_actions operation) u
      in (\<lparr>rop_id = op_id operation, rop_name = op_name operation, rop_entry_conditions = [],
           rop_exit_conditions = [], rop_actions = actions\<rparr>, ds, u'))"

fun run_operations ::
  "Formatters \<Rightarrow> Entries \<Rightarrow> Entries \<Rightarrow> Operation list \<Rightarrow> u32 \<Rightarrow> RuntimeOperation list \<times> Diagnostic list \<times> u32" where
  "run_operations F npcs objects [] u = ([], [], u)"
| "run_operations F npcs objects (operation # operations) u =
     (let (rop, ds, u1) = compile_operation F npcs objects operation u;
          (rops, ds', u2) = run_operations F npcs objects operations u1
      in (rop # rops, ds @ ds', u2))"

definition runtime_npc_of :: "NPCReference \<Rightarrow> RuntimeNpc option" where
  "runtime_npc_of n =
     (case (npc_entry n, npc_position n) of
        (Some entry, Some position) \<Rightarrow> Some (RuntimeNpc_new entry (npc_name n) position) | _ \<Rightarrow> None)"

definition compile ::
  "Formatters \<Rightarrow> (RuntimeOperation list \<Rightarrow> string option) \<Rightarrow> Project
     \<Rightarrow> CompilerError + (RuntimeProfile \<times> CompileReport)" where
  "compile F to_json project =
     (let (operations, ds, unresolved) =
            run_operations F (npc_table project) (object_table project) (prj_operations project) 0;
          profile = (RuntimeProfile_new (meta_name (prj_metadata project)) operations)
                      \<lparr>rp_npcs := List.map_filter runtime_npc_of (prj_npc_library project)\<rparr>
      in Inr (profile\<lparr>rp_content_hash := compute_content_hash to_json profile\<rparr>,
              \<lparr>rep_unmapped_conditions = ds, rep_unresolved = unresolved\<rparr>))"

section \<open>Lemmas\<close>

text \<open>The NPC a payload needs: \<open>Some None\<close> when it needs one and names none.\<close>

fun npc_reference :: "ActionPayload \<Rightarrow> uuid option option" where
  "npc_reference (AcceptQuest a) = Some (accept_npc a)"
| "npc_reference (TurnInQuest t) = Some (turnin_npc t)"
| "npc_reference (Vendor v) = Some (Some (vendor_npc v))"
| "npc_reference (Train tr) = Some (Some (trainer_npc tr))"
| "npc_reference (Flight f) = Some (Some (flight_npc f))"
| "npc_reference (Repair r) = Some (Some (repair_npc r))"
| "npc_reference (LearnFlightPath fp) = Some (Some (learn_npc fp))"
| "npc_reference (Escort e) = Some (Some (escort_npc e))"
| "npc_reference (Bank b) = Some (Some (bank_npc b))"
| "npc_reference (Mailbox m) = Some (Some (mailbox_npc m))"
| "npc_reference (InteractNPC i) = Some (Some (interact_npc i))"
| "npc_reference _ = None"

fun entry_used :: "RuntimeAction \<Rightarrow> u32 option" where
  "entry_used (RAcceptQuest a) = Some (raccept_npc_entry a)"
| "entry_used (RTurnInQuest a) = Some (rturnin_npc_entry a)"
| "entry_used (RVendor a) = Some (rvendor_npc_entry a)"
| "entry_used (RTrain a) = Some (rtrain_npc_entry a)"
| "entry_used (RFlight a) = Some (rflight_npc_entry a)"
| "entry_used (RRepair a) = Some (rrepair_npc_entry a)"
| "entry_used (RLearnFlightPath a) = Some (rlearn_npc_entry a)"
| "entry_used (REscort a) = Some (rescort_npc_entry a)"
| "entry_used (RBank a) = Some (rbank_npc_entry a)"
| "entry_used (RMailbox a) = Some (rmailbox_npc_entry a)"
| "entry_used (RInteractNpc a) = Some (rinteract_npc_entry a)"
| "entry_used _ = None"

text \<open>The runtime action that carries out an authoring payload; a watch and a comment are comments.\<close>

definition same_kind :: "ActionPayload \<Rightarrow> RuntimeAction \<Rightarrow> bool" where
  "same_kind payload runtime \<longleftrightarrow>
     (case payload of
        AcceptQuest a \<Rightarrow> (case runtime of RAcceptQuest r \<Rightarrow> raccept_quest_id r = accept_quest a | _ \<Rightarrow> False)
      | TurnInQuest a \<Rightarrow> (case runtime of RTurnInQuest r \<Rightarrow> rturnin_quest_id r = turnin_quest a | _ \<Rightarrow> False)
      | Travel a \<Rightarrow> (case runtime of RTravel r \<Rightarrow> map_option waypoint_of (travel_position a) = Some (rtravel_position r) | _ \<Rightarrow> False)
      | Kill a \<Rightarrow> (case runtime of RKill r \<Rightarrow> \<not> kill_watch a \<and> rkill_creature_entries r = kill_creature_entries a | RComment r \<Rightarrow> kill_watch a | _ \<Rightarrow> False)
      | GrindArea a \<Rightarrow> (case runtime of RGrind r \<Rightarrow> rgrind_targets r = grind_targets a | _ \<Rightarrow> False)
      | LootObject a \<Rightarrow> (case runtime of RLoot r \<Rightarrow> rloot_count r = loot_count a | _ \<Rightarrow> False)
      | InteractNPC a \<Rightarrow> (case runtime of RInteractNpc r \<Rightarrow> rinteract_gossip r = interact_gossip a | _ \<Rightarrow> False)
      | Vendor a \<Rightarrow> (case runtime of RVendor r \<Rightarrow> rvendor_buy_items r = vendor_buy_items a | _ \<Rightarrow> False)
      | Repair a \<Rightarrow> (case runtime of RRepair r \<Rightarrow> True | _ \<Rightarrow> False)
      | Train a \<Rightarrow> (case runtime of RTrain r \<Rightarrow> rtrain_spells r = trainer_spells a | _ \<Rightarrow> False)
      | LearnFlightPath a \<Rightarrow> (case runtime of RLearnFlightPath r \<Rightarrow> True | _ \<Rightarrow> False)
      | UseItem a \<Rightarrow> (case runtime of RUseItem r \<Rightarrow> ruse_item r = use_item a | _ \<Rightarrow> False)
      | Flight a \<Rightarrow> (case runtime of RFlight r \<Rightarrow> rflight_destination r = flight_destination a | _ \<Rightarrow> False)
      | SetHearth a \<Rightarrow> (case runtime of RHearth r \<Rightarrow> rhearth_destination r = None | _ \<Rightarrow> False)
      | Hearth a \<Rightarrow> (case runtime of RHearth r \<Rightarrow> rhearth_destination r = hearth_destination a | _ \<Rightarrow> False)
      | Wait a \<Rightarrow> (case runtime of RWait r \<Rightarrow> rwait_duration r = wait_duration a | _ \<Rightarrow> False)
      | Escort a \<Rightarrow> (case runtime of REscort r \<Rightarrow> rescort_area r = escort_area a | _ \<Rightarrow> False)
      | Patrol a \<Rightarrow> (case runtime of RPatrol r \<Rightarrow> rpatrol_waypoints r = map waypoint_of (patrol_waypoints a) | _ \<Rightarrow> False)
      | Mailbox a \<Rightarrow> (case runtime of RMailbox r \<Rightarrow> True | _ \<Rightarrow> False)
      | Bank a \<Rightarrow> (case runtime of RBank r \<Rightarrow> True | _ \<Rightarrow> False)
      | Condition a \<Rightarrow> (case runtime of RCondition r \<Rightarrow> rcond_role r = cond_role a | _ \<Rightarrow> False)
      | SetVariable a \<Rightarrow> (case runtime of RSetVariable r \<Rightarrow> rsetvar_name r = setvar_name a \<and> rsetvar_value r = setvar_value a | _ \<Rightarrow> False)
      | Comment a \<Rightarrow> (case runtime of RComment r \<Rightarrow> rcomment_text r = comment_text a | _ \<Rightarrow> False))"

definition reported :: "Formatters \<Rightarrow> Diagnostic list \<Rightarrow> Action \<Rightarrow> string list \<Rightarrow> bool" where
  "reported F ds action codes \<longleftrightarrow>
     (\<exists>d\<in>set ds. diag_action d = Some (fmt_uuid F (act_id action)) \<and> diag_code d \<in> set codes)"

definition has :: "Entries \<Rightarrow> uuid \<Rightarrow> u32 \<Rightarrow> bool" where
  "has npcs u e \<longleftrightarrow> npcs u = Some e"

text \<open>
  An action is accounted for when it is carried out by an action of its kind that names only the library's
  entry of the NPC it refers to, or is a comment and the report says why.
\<close>

definition accounted :: "Formatters \<Rightarrow> (uuid \<Rightarrow> u32 \<Rightarrow> bool) \<Rightarrow> Diagnostic list \<Rightarrow> Action \<Rightarrow> RuntimeAction \<Rightarrow> bool" where
  "accounted F K ds action r \<longleftrightarrow>
     same_kind (act_payload action) r
       \<and> (\<forall>e. entry_used r = Some e \<longrightarrow> (\<exists>u. npc_reference (act_payload action) = Some (Some u) \<and> K u e))
     \<or> (\<exists>text. r = RComment text) \<and> reported F ds action [''UNRESOLVED_NPC'', ''UNRESOLVED_POSITION'']"

definition unresolved_diags :: "Diagnostic list \<Rightarrow> nat" where
  "unresolved_diags ds =
     length (filter (\<lambda>d. diag_code d \<in> {''UNRESOLVED_NPC'', ''UNRESOLVED_POSITION'', ''UNRESOLVED_OBJECT''}) ds)"

lemma unresolved_diags_append [simp]: "unresolved_diags (xs @ ys) = unresolved_diags xs + unresolved_diags ys"
  by (simp add: unresolved_diags_def)

lemma unresolved_diags_Nil [simp]: "unresolved_diags [] = 0"
  by (simp add: unresolved_diags_def)

lemma diagnostic_simps [simp]:
  "diag_code (diagnostic sev code msg ent act) = code" "diag_action (diagnostic sev code msg ent act) = act"
  "diag_severity (diagnostic sev code msg ent act) = sev" "diag_entity (diagnostic sev code msg ent act) = ent"
  by (simp_all add: diagnostic_def)

lemma npc_arm_cases:
  assumes "npc_arm F npcs act kind npc lowered text u = (r, ds, u')"
  shows "u' = u + of_nat (unresolved_diags ds)
    \<and> ((\<exists>n e. npc = Some n \<and> npcs n = Some e \<and> r = lowered e)
       \<or> (\<exists>c. r = RComment c) \<and> (\<exists>d\<in>set ds. diag_action d = Some (fmt_uuid F act) \<and> diag_code d = ''UNRESOLVED_NPC''))"
proof (cases "Option.bind npc npcs")
  case None
  with assms show ?thesis
    by (auto simp: npc_arm_def resolve_npc_or_report_def unresolved_diags_def)
next
  case (Some e)
  then obtain n where "npc = Some n" "npcs n = Some e" by (cases npc) auto
  with assms Some show ?thesis
    by (auto simp: npc_arm_def resolve_npc_or_report_def unresolved_diags_def)
qed

lemma resolve_payload_accounted:
  assumes "resolve_payload F npcs objects (act_id action) (act_payload action) u = (r, ds, u')"
  shows "accounted F (has npcs) ds action r \<and> u' = u + of_nat (unresolved_diags ds)"
proof (cases "npc_reference (act_payload action)")
  case None
  with assms show ?thesis
    by (cases "act_payload action")
      (auto simp: has_def accounted_def same_kind_def reported_def unresolved_diags_def Let_def split: option.splits sum.splits if_splits)
next
  case (Some ref)
  then show ?thesis
  proof (cases "act_payload action")
  qed (use assms in \<open>auto dest!: npc_arm_cases simp: has_def accounted_def same_kind_def reported_def\<close>)
qed

lemma parse_class_guard_codes:
  "parse_class_guard F restriction act = (guard, ds) \<Longrightarrow> unresolved_diags ds = 0"
  by (auto simp: parse_class_guard_def unknown_class_def unresolved_diags_def Let_def case_prod_unfold
      split: if_splits option.splits)

lemma resolve_action_accounted:
  assumes "resolve_action F npcs objects action u = (ga, ds, u')"
  shows "accounted F (has npcs) ds action (ga_action ga) \<and> u' = u + of_nat (unresolved_diags ds)"
proof -
  obtain r ds1 u1 where r: "resolve_payload F npcs objects (act_id action) (act_payload action) u = (r, ds1, u1)"
    by (metis prod_cases3)
  obtain guard ds2 where g: "(case act_class_restriction action of None \<Rightarrow> (None, [])
      | Some r \<Rightarrow> parse_class_guard F r (act_id action)) = (guard, ds2)" by (metis surj_pair)
  then have "unresolved_diags ds2 = 0" by (auto split: option.splits dest: parse_class_guard_codes)
  with resolve_payload_accounted [OF r] r g assms show ?thesis
    by (auto simp: resolve_action_def accounted_def reported_def)
qed

lemma accounted_mono: "accounted F K ds action r \<Longrightarrow> set ds \<subseteq> set ds' \<Longrightarrow> accounted F K ds' action r"
  by (auto simp: has_def accounted_def reported_def)

definition all_accounted :: "Formatters \<Rightarrow> (uuid \<Rightarrow> u32 \<Rightarrow> bool) \<Rightarrow> Diagnostic list \<Rightarrow> Action list \<Rightarrow> GuardedAction list \<Rightarrow> bool" where
  "all_accounted F K ds actions gas \<longleftrightarrow> list_all2 (\<lambda>action ga. accounted F K ds action (ga_action ga)) actions gas"

lemma all_accounted_mono: "all_accounted F K ds as gas \<Longrightarrow> set ds \<subseteq> set ds' \<Longrightarrow> all_accounted F K ds' as gas"
  unfolding all_accounted_def by (erule list_all2_mono) (rule accounted_mono)

lemma run_actions_accounted:
  "run_actions F npcs objects actions u = (gas, ds, u')
     \<Longrightarrow> all_accounted F (has npcs) ds actions gas \<and> u' = u + of_nat (unresolved_diags ds)"
proof (induction actions arbitrary: u gas ds u')
  case Nil
  then show ?case by (simp add: all_accounted_def)
next
  case (Cons action actions)
  obtain ga ds1 u1 where 1: "resolve_action F npcs objects action u = (ga, ds1, u1)" by (metis prod_cases3)
  obtain gas' ds2 u2 where 2: "run_actions F npcs objects actions u1 = (gas', ds2, u2)" by (metis prod_cases3)
  from Cons.prems 1 2 have e: "gas = ga # gas'" "ds = ds1 @ ds2" "u' = u2" by auto
  from resolve_action_accounted [OF 1] have "accounted F (has npcs) ds action (ga_action ga)"
    using accounted_mono [of F "has npcs" ds1 action "ga_action ga" ds] e by auto
  moreover have "all_accounted F (has npcs) ds actions gas'"
    using Cons.IH [OF 2] all_accounted_mono [of F "has npcs" ds2 actions gas' ds] e by auto
  ultimately show ?case
    using resolve_action_accounted [OF 1] Cons.IH [OF 2] e by (simp add: all_accounted_def)
qed

definition op_accounted :: "Formatters \<Rightarrow> (uuid \<Rightarrow> u32 \<Rightarrow> bool) \<Rightarrow> Diagnostic list \<Rightarrow> Operation \<Rightarrow> RuntimeOperation \<Rightarrow> bool" where
  "op_accounted F K ds operation rop \<longleftrightarrow>
     rop_id rop = op_id operation \<and> rop_name rop = op_name operation
     \<and> all_accounted F K ds (op_actions operation) (rop_actions rop)"

lemma op_accounted_mono: "op_accounted F K ds op rop \<Longrightarrow> set ds \<subseteq> set ds' \<Longrightarrow> op_accounted F K ds' op rop"
  unfolding op_accounted_def using all_accounted_mono by blast

lemma run_operations_accounted:
  "run_operations F npcs objects operations u = (rops, ds, u')
     \<Longrightarrow> list_all2 (op_accounted F (has npcs) ds) operations rops \<and> u' = u + of_nat (unresolved_diags ds)"
proof (induction operations arbitrary: u rops ds u')
  case Nil
  then show ?case by simp
next
  case (Cons operation operations)
  obtain gas ds1 u1 where 1: "run_actions F npcs objects (op_actions operation) u = (gas, ds1, u1)" by (metis prod_cases3)
  obtain rops' ds2 u2 where 2: "run_operations F npcs objects operations u1 = (rops', ds2, u2)" by (metis prod_cases3)
  from Cons.prems 1 2 obtain rop where e: "rops = rop # rops'" "ds = ds1 @ ds2" "u' = u2"
    and rop: "rop_id rop = op_id operation" "rop_name rop = op_name operation" "rop_actions rop = gas"
    by (auto simp: compile_operation_def)
  have "op_accounted F (has npcs) ds operation rop"
    using run_actions_accounted [OF 1] all_accounted_mono [of F "has npcs" ds1 _ _ ds] e rop
    by (auto simp: op_accounted_def)
  moreover have "list_all2 (op_accounted F (has npcs) ds) operations rops'"
    using Cons.IH [OF 2] e op_accounted_mono [of F "has npcs" ds2 _ _ ds] by (auto elim!: list_all2_mono)
  ultimately show ?case
    using run_actions_accounted [OF 1] Cons.IH [OF 2] e by simp
qed

lemma npc_table_library:
  assumes "npc_table project u = Some e"
  shows "\<exists>n\<in>set (prj_npc_library project). npc_id n = u \<and> npc_entry n = Some e"
proof -
  from map_of_SomeD [OF assms [unfolded npc_table_def]]
  have "(u, e) \<in> set (List.map_filter (\<lambda>n. map_option (Pair (npc_id n)) (npc_entry n)) (prj_npc_library project))"
    by simp
  then show ?thesis by (auto simp: List.map_filter_def)
qed

text \<open>What the library says about an NPC, independently of how the compiler indexes it.\<close>

definition library_entry :: "Project \<Rightarrow> uuid \<Rightarrow> u32 \<Rightarrow> bool" where
  "library_entry project u e \<longleftrightarrow> (\<exists>n\<in>set (prj_npc_library project). npc_id n = u \<and> npc_entry n = Some e)"

lemma accounted_weaken: "accounted F K ds action r \<Longrightarrow> (\<And>u e. K u e \<Longrightarrow> K' u e) \<Longrightarrow> accounted F K' ds action r"
  unfolding accounted_def by blast

lemma op_accounted_library:
  "op_accounted F (has (npc_table project)) ds op rop \<Longrightarrow> op_accounted F (library_entry project) ds op rop"
  using accounted_weaken [of F "has (npc_table project)" ds _ _ "library_entry project"] npc_table_library
  by (fastforce simp: op_accounted_def all_accounted_def has_def library_entry_def elim: list_all2_mono)

section \<open>Properties\<close>


text \<open>The tokens of a class tail, after the \<open>!\<close> of a negated one.\<close>

definition class_negated :: "string \<Rightarrow> bool" where
  "class_negated restriction \<longleftrightarrow> trim restriction \<noteq> [] \<and> hd (trim restriction) = CHR ''!''"

definition class_tokens :: "string \<Rightarrow> string list" where
  "class_tokens restriction =
     map trim (split_char (CHR ''/'')
       (if class_negated restriction then tl (trim restriction) else trim restriction))"

lemma split_char_ne: "split_char d s \<noteq> []"
  by (simp add: split_char_def)

lemma class_tokens_ne: "class_tokens restriction \<noteq> []"
  by (simp add: class_tokens_def split_char_def)

lemma parse_class_guard_unfold:
  assumes "trim restriction \<noteq> []"
  shows "parse_class_guard F restriction act =
    (let names = class_tokens restriction
     in if [] \<in> set names then (None, [unknown_class F restriction act ''empty class token''])
        else case List.find (\<lambda>name. name \<notin> set KNOWN_CLASSES) names of
               Some name \<Rightarrow> (None, [unknown_class F restriction act (''unknown class '' @ quoted name)])
             | None \<Rightarrow>
                 let base = (if length names = 1 then ClassIs (names ! 0) else CAny (map ClassIs names))
                 in (Some (if class_negated restriction then CNot base else base), []))"
proof -
  have "(case strip_prefix_char (CHR ''!'') (trim restriction) of
        Some stripped \<Rightarrow> (True, stripped) | None \<Rightarrow> (False, trim restriction))
      = (class_negated restriction, if class_negated restriction then tl (trim restriction) else trim restriction)"
    using assms by (cases "trim restriction") (auto simp: class_negated_def strip_prefix_char_def)
  then show ?thesis
    using assms
    by (cases "class_negated restriction")
      (simp_all add: parse_class_guard_def class_tokens_def Let_def split_char_ne split: option.split)
qed

lemma no_empty_class: "[] \<notin> set KNOWN_CLASSES"
  by (simp add: KNOWN_CLASSES_def)

text \<open>a class restriction is never guessed: it yields a guard exactly when all its tokens are known classes,
  the guard holds for those classes, or with a leading \<open>!\<close> for all others, and every other restriction that is
  not blank yields one warning that names the action, and no guard.\<close>

theorem class_guard_meaning:
  "case parse_class_guard F restriction act of
     (Some guard, ds) \<Rightarrow>
       ds = [] \<and> set (class_tokens restriction) \<subseteq> set KNOWN_CLASSES
       \<and> (\<forall>meta w. runtime_holds meta w guard
            = (class_negated restriction \<noteq> (\<exists>name\<in>set (class_tokens restriction). w_other_condition w (ClassIs name))))
   | (None, ds) \<Rightarrow>
       (trim restriction = [] \<and> ds = [])
       \<or> \<not> set (class_tokens restriction) \<subseteq> set KNOWN_CLASSES
         \<and> (\<exists>d. ds = [d] \<and> diag_code d = ''UNKNOWN_CLASS_RESTRICTION'' \<and> diag_action d = Some (fmt_uuid F act))"
proof (cases "trim restriction = []")
  case False
  let ?names = "class_tokens restriction"
  let ?base = "if length ?names = 1 then ClassIs (?names ! 0) else CAny (map ClassIs ?names)"
  note unf = parse_class_guard_unfold [OF False, of F act]
  have base: "runtime_holds meta w ?base = (\<exists>name\<in>set ?names. w_other_condition w (ClassIs name))" for meta w
    using class_tokens_ne [of restriction] by (cases ?names; cases "tl ?names") (auto simp: list_ex_iff)
  show ?thesis
  proof (cases "set ?names \<subseteq> set KNOWN_CLASSES")
    case True
    then have "[] \<notin> set ?names" "List.find (\<lambda>name. name \<notin> set KNOWN_CLASSES) ?names = None"
      using no_empty_class by (auto simp: find_None_iff)
    then have "parse_class_guard F restriction act = (Some (if class_negated restriction then CNot ?base else ?base), [])"
      by (simp add: unf)
    with True base show ?thesis by simp
  next
    case False
    then have "[] \<in> set ?names \<or> (\<exists>name. List.find (\<lambda>name. name \<notin> set KNOWN_CLASSES) ?names = Some name)"
      using find_None_iff [of "\<lambda>name. name \<notin> set KNOWN_CLASSES" ?names] by fastforce
    with False show ?thesis by (auto simp: unf Let_def unknown_class_def)
  qed
qed (simp add: parse_class_guard_def)

end
