(* ===== verification/Validator.thy ===== *)
theory Validator
  imports Compiler_Runtime
begin

text \<open>
  The project validator (\<^verbatim>\<open>validator/src/lib.rs\<close>): ten checks that each push diagnostics, and what a clean
  report means for the compiler.

  Two checks iterate over a \<open>HashSet\<close>; \<open>hash_order\<close> is the order of that iteration, as a function of the
  place of the call and of the elements. \<open>show_f32\<close> stands for the \<open>{}\<close> format of a float.
\<close>

record ValidatorEnv =
  show_uuid :: "uuid \<Rightarrow> string"
  show_f32 :: "f32 \<Rightarrow> string"
  hash_order :: "nat \<Rightarrow> string list \<Rightarrow> string list"

definition op_text :: "string \<Rightarrow> string" where
  "op_text name = ''op:'' @ name"

definition quest_text :: "u32 \<Rightarrow> string" where
  "quest_text q = ''quest:'' @ show_word q"

text \<open>The loops \<open>for op in &project.operations \{ for action in &op.actions \{ ... \} \}\<close>.\<close>

definition for_actions :: "(Operation \<Rightarrow> Action \<Rightarrow> 'a list) \<Rightarrow> Project \<Rightarrow> 'a list" where
  "for_actions body project =
     concat (map (\<lambda>operation. concat (map (body operation) (op_actions operation))) (prj_operations project))"

section \<open>Duplicates\<close>

fun dup_npcs :: "u32 set \<Rightarrow> NPCReference list \<Rightarrow> Diagnostic list" where
  "dup_npcs seen [] = []"
| "dup_npcs seen (npc # npcs) =
     (case npc_entry npc of
        None \<Rightarrow> dup_npcs seen npcs
      | Some entry \<Rightarrow>
          (if entry \<in> seen
           then [diagnostic Warning ''DUPLICATE_NPC''
                   (''Duplicate NPC entry '' @ show_word entry @ '' in npc_library'') (Some (npc_name npc)) None]
           else [])
          @ dup_npcs (insert entry seen) npcs)"

definition check_duplicate_npcs :: "Project \<Rightarrow> Diagnostic list" where
  "check_duplicate_npcs project = dup_npcs {} (prj_npc_library project)"

fun dup_quests :: "u32 set \<Rightarrow> QuestReference list \<Rightarrow> Diagnostic list" where
  "dup_quests seen [] = []"
| "dup_quests seen (quest # quests) =
     (if quest_quest_id quest \<in> seen
      then [diagnostic Warning ''DUPLICATE_QUEST''
              (''Duplicate quest ID '' @ show_word (quest_quest_id quest) @ '' in quest_library'')
              (quest_title quest) None]
      else [])
     @ dup_quests (insert (quest_quest_id quest) seen) quests"

definition check_duplicate_quests :: "Project \<Rightarrow> Diagnostic list" where
  "check_duplicate_quests project = dup_quests {} (prj_quest_library project)"

section \<open>References\<close>

text \<open>The payloads \<open>check_single_npc_ref\<close> looks at: the name it prints and the reference; \<open>None\<close> is its early return.\<close>

fun checked_npc :: "ActionPayload \<Rightarrow> (string \<times> uuid option) option" where
  "checked_npc (Vendor v) = Some (''Vendor'', Some (vendor_npc v))"
| "checked_npc (Train tr) = Some (''Train'', Some (trainer_npc tr))"
| "checked_npc (Flight f) = Some (''Flight'', Some (flight_npc f))"
| "checked_npc (LearnFlightPath l) = Some (''LearnFlightPath'', Some (learn_npc l))"
| "checked_npc (InteractNPC i) = Some (''InteractNPC'', Some (interact_npc i))"
| "checked_npc (AcceptQuest a) = Some (''AcceptQuest'', accept_npc a)"
| "checked_npc (TurnInQuest t) = Some (''TurnInQuest'', turnin_npc t)"
| "checked_npc (Repair r) = Some (''Repair'', Some (repair_npc r))"
| "checked_npc (Mailbox m) = Some (''Mailbox'', Some (mailbox_npc m))"
| "checked_npc (Bank b) = Some (''Bank'', Some (bank_npc b))"
| "checked_npc _ = None"

fun reference_entity :: "ActionPayload \<Rightarrow> string option" where
  "reference_entity (AcceptQuest a) = Some (quest_text (accept_quest a))"
| "reference_entity (TurnInQuest t) = Some (quest_text (turnin_quest t))"
| "reference_entity (Flight f) = Some (flight_destination f)"
| "reference_entity _ = None"

definition check_single_npc_ref :: "ValidatorEnv \<Rightarrow> uuid set \<Rightarrow> Action \<Rightarrow> Diagnostic list" where
  "check_single_npc_ref V npc_uuids action =
     (case checked_npc (act_payload action) of
        Some (code, Some npc) \<Rightarrow>
          (if npc \<in> npc_uuids then []
           else [diagnostic Error ''BROKEN_NPC_REFERENCE'' (code @ '' references missing NPC '' @ show_uuid V npc)
                   (reference_entity (act_payload action)) (Some (show_uuid V (act_id action)))])
      | _ \<Rightarrow> [])"

definition check_broken_npc_references :: "ValidatorEnv \<Rightarrow> Project \<Rightarrow> Diagnostic list" where
  "check_broken_npc_references V project =
     for_actions (\<lambda>_. check_single_npc_ref V (set (map npc_id (prj_npc_library project)))) project"

definition unresolved_quest :: "ValidatorEnv \<Rightarrow> string \<Rightarrow> u32 \<Rightarrow> uuid \<Rightarrow> Diagnostic" where
  "unresolved_quest V kind q act =
     diagnostic Warning ''UNRESOLVED_QUEST''
       (kind @ '' references quest '' @ show_word q @ '' not in quest_library'')
       (Some (quest_text q)) (Some (show_uuid V act))"

definition check_unresolved_quests :: "ValidatorEnv \<Rightarrow> Project \<Rightarrow> Diagnostic list" where
  "check_unresolved_quests V project =
     (if prj_import_metadata project \<noteq> None then []
      else let quest_ids = set (map quest_quest_id (prj_quest_library project))
           in for_actions (\<lambda>_ action.
                case act_payload action of
                  AcceptQuest a \<Rightarrow>
                    if accept_quest a \<in> quest_ids then [] else [unresolved_quest V ''AcceptQuest'' (accept_quest a) (act_id action)]
                | TurnInQuest t \<Rightarrow>
                    if turnin_quest t \<in> quest_ids then [] else [unresolved_quest V ''TurnInQuest'' (turnin_quest t) (act_id action)]
                | _ \<Rightarrow> []) project)"

section \<open>Variables\<close>

definition condition_exprs :: "Operation \<Rightarrow> string list" where
  "condition_exprs operation =
     List.map_filter (\<lambda>action. case act_payload action of Condition c \<Rightarrow> Some (cond_expression c) | _ \<Rightarrow> None)
       (op_actions operation)"

definition op_conditions_of :: "Operation \<Rightarrow> string list" where
  "op_conditions_of operation = op_conditions operation @ condition_exprs operation"

definition var_names :: "Project \<Rightarrow> string list" where
  "var_names project = map var_name (prj_variables project)"

definition op_reads :: "string list \<Rightarrow> Operation \<Rightarrow> string list" where
  "op_reads names operation =
     remdups (concat (map (\<lambda>expr. filter (\<lambda>name. str_contains expr name) names) (op_conditions_of operation)))"

definition op_writes :: "Operation \<Rightarrow> string list" where
  "op_writes operation =
     List.map_filter (\<lambda>action. case act_payload action of SetVariable sv \<Rightarrow> Some (setvar_name sv) | _ \<Rightarrow> None)
       (op_actions operation)"

text \<open>The least index of an operation that writes the variable (\<open>var_earliest_write\<close>).\<close>

definition earliest_write :: "Operation list \<Rightarrow> string \<Rightarrow> nat option" where
  "earliest_write operations name = position_of (\<lambda>operation. name \<in> set (op_writes operation)) operations"

definition writer_texts :: "Operation list \<Rightarrow> string \<Rightarrow> string list" where
  "writer_texts operations name =
     map (\<lambda>(index, operation). ''#'' @ show_nat (index + 1) @ '': '' @ op_name operation)
       (filter (\<lambda>(index, operation). name \<in> set (op_writes operation)) (enumerate 0 operations))"

definition circular_msg :: "Operation list \<Rightarrow> nat \<Rightarrow> string \<Rightarrow> string" where
  "circular_msg operations index name =
     ''Operation #'' @ show_nat (index + 1) @ '': '' @ quoted (op_name (operations ! index)) @ '' reads variable ''
     @ quoted name @ '' which is only written by '' @ join '', '' (writer_texts operations name) @ '' '' @ em_dash
     @ '' condition can never be satisfied''"

definition circular_one :: "Operation list \<Rightarrow> nat \<Rightarrow> string \<Rightarrow> Diagnostic list" where
  "circular_one operations index name =
     (case earliest_write operations name of
        Some write_index \<Rightarrow>
          if write_index > index
          then [diagnostic Error ''CIRCULAR_CONDITION'' (circular_msg operations index name)
                  (Some (op_text (op_name (operations ! index)))) None]
          else []
      | None \<Rightarrow> [])"

definition circular_at :: "ValidatorEnv \<Rightarrow> string list \<Rightarrow> Operation list \<Rightarrow> nat \<Rightarrow> Diagnostic list" where
  "circular_at V names operations index =
     concat (map (circular_one operations index) (hash_order V index (op_reads names (operations ! index))))"

definition check_circular_conditions :: "ValidatorEnv \<Rightarrow> Project \<Rightarrow> Diagnostic list" where
  "check_circular_conditions V project =
     (let names = var_names project; operations = prj_operations project
      in if names = [] then []
         else concat (map (circular_at V names operations) [0..<length operations]))"

definition undeclared_variable :: "ValidatorEnv \<Rightarrow> Operation \<Rightarrow> Action \<Rightarrow> string \<Rightarrow> Diagnostic" where
  "undeclared_variable V operation action name =
     diagnostic Warning ''UNDECLARED_VARIABLE''
       (''SetVariable writes to '' @ quoted name @ '' which is not declared in project.variables'')
       (Some (op_text (op_name operation))) (Some (show_uuid V (act_id action)))"

definition variable_use :: "string \<Rightarrow> bool \<Rightarrow> bool \<Rightarrow> Diagnostic list" where
  "variable_use name referenced written =
     (if \<not> referenced \<and> \<not> written
      then [diagnostic Warning ''UNUSED_VARIABLE''
              (''Variable '' @ quoted name @ '' is declared but never set or read in any condition'') None None]
      else if written \<and> \<not> referenced
      then [diagnostic Info ''VARIABLE_WRITTEN_BUT_UNREAD''
              (''Variable '' @ quoted name @ '' is written via SetVariable but never checked in a condition'') None None]
      else [])"

definition check_unused_variables :: "ValidatorEnv \<Rightarrow> Project \<Rightarrow> Diagnostic list" where
  "check_unused_variables V project =
     (let operations = prj_operations project;
          exprs = concat (map op_conditions operations) @ concat (map condition_exprs operations);
          set_names = set (concat (map op_writes operations));
          declared = var_names project;
          referenced = (\<lambda>name. list_ex (\<lambda>expr. str_contains expr name) exprs)
      in for_actions (\<lambda>operation action.
           case act_payload action of
             SetVariable sv \<Rightarrow>
               if setvar_name sv \<in> set declared then []
               else [undeclared_variable V operation action (setvar_name sv)]
           | _ \<Rightarrow> []) project
         @ concat (map (\<lambda>name. variable_use name (referenced name) (name \<in> set_names))
             (hash_order V (length operations) (remdups declared))))"

section \<open>Coordinates\<close>

definition is_position_missing :: "Position option \<Rightarrow> bool" where
  "is_position_missing pos =
     (case pos of
        None \<Rightarrow> True
      | Some p \<Rightarrow> f32_is_zero (pos_world_x p) \<and> f32_is_zero (pos_world_y p) \<and> f32_is_zero (pos_world_z p))"

definition missing_npc_msg :: "ValidatorEnv \<Rightarrow> NPCReference \<Rightarrow> string" where
  "missing_npc_msg V npc =
     (let coordinate = (\<lambda>f. show_f32 V (case npc_position npc of None \<Rightarrow> 0 | Some p \<Rightarrow> f p))
      in ''NPC '' @ quoted (npc_name npc) @ '' has missing or zeroed coordinates (map:''
         @ show_word (case npc_position npc of None \<Rightarrow> 0 | Some p \<Rightarrow> pos_map p) @ '', x:'' @ coordinate pos_world_x
         @ '', y:'' @ coordinate pos_world_y @ '', z:'' @ coordinate pos_world_z @ '')'')"

definition check_action_position :: "ValidatorEnv \<Rightarrow> Operation \<Rightarrow> Action \<Rightarrow> Diagnostic list" where
  "check_action_position V operation action =
     (case act_payload action of
        Travel t \<Rightarrow>
          if is_position_missing (travel_position t)
          then [diagnostic Warning ''MISSING_COORDS''
                  (''Travel action in operation '' @ quoted (op_name operation) @ '' has missing or zeroed coordinates'')
                  (Some (op_text (op_name operation))) (Some (show_uuid V (act_id action)))]
          else []
      | _ \<Rightarrow> [])"

definition check_missing_coordinates :: "ValidatorEnv \<Rightarrow> Project \<Rightarrow> Diagnostic list" where
  "check_missing_coordinates V project =
     map (\<lambda>npc. diagnostic Warning ''MISSING_COORDS'' (missing_npc_msg V npc) (Some (npc_name npc)) None)
       (filter (\<lambda>npc. is_position_missing (npc_position npc)) (prj_npc_library project))
     @ for_actions (check_action_position V) project"

section \<open>Quest order\<close>

definition accepted_in :: "Operation \<Rightarrow> u32 list" where
  "accepted_in operation =
     List.map_filter (\<lambda>action. case act_payload action of AcceptQuest a \<Rightarrow> Some (accept_quest a) | _ \<Rightarrow> None)
       (op_actions operation)"

definition never_accepted_msg :: "u32 \<Rightarrow> string \<Rightarrow> string" where
  "never_accepted_msg q name =
     ''TurnInQuest for quest '' @ show_word q @ '' in operation '' @ quoted name @ '' '' @ em_dash
     @ '' quest was never picked up (no AcceptQuest) in any operation''"

definition check_quest_chain_consistency :: "ValidatorEnv \<Rightarrow> Project \<Rightarrow> Diagnostic list" where
  "check_quest_chain_consistency V project =
     (let accepted = set (concat (map accepted_in (prj_operations project)))
      in for_actions (\<lambda>operation action.
           case act_payload action of
             TurnInQuest t \<Rightarrow>
               if turnin_quest t \<in> accepted then []
               else [diagnostic Warning ''QUEST_CHAIN_INCONSISTENCY'' (never_accepted_msg (turnin_quest t) (op_name operation))
                       (Some (op_text (op_name operation))) (Some (show_uuid V (act_id action)))]
           | _ \<Rightarrow> []) project)"

text \<open>\<open>quest_map\<close>: later entries of the library win.\<close>

definition prerequisites_of :: "Project \<Rightarrow> u32 \<Rightarrow> u32 list" where
  "prerequisites_of project q =
     (case map_of (rev (map (\<lambda>quest. (quest_quest_id quest, quest)) (prj_quest_library project))) q of
        None \<Rightarrow> [] | Some quest \<Rightarrow> quest_prerequisites quest)"

definition accept_events :: "Project \<Rightarrow> (nat \<times> u32) list" where
  "accept_events project =
     concat (map (\<lambda>(index, operation). map (Pair index) (accepted_in operation)) (enumerate 0 (prj_operations project)))"

definition first_accept :: "(nat \<times> u32) list \<Rightarrow> u32 \<Rightarrow> nat option" where
  "first_accept events q = map_option fst (List.find (\<lambda>(_, quest). quest = q) events)"

definition order_msg :: "nat \<Rightarrow> u32 \<Rightarrow> u32 \<Rightarrow> nat \<Rightarrow> string" where
  "order_msg index q prereq prereq_index =
     ''Operation #'' @ show_nat (index + 1) @ '' accepts quest '' @ show_word q @ '' (prerequisite: ''
     @ show_word prereq @ '') but prerequisite quest '' @ show_word prereq @ '' is accepted later in operation #''
     @ show_nat (prereq_index + 1)"

definition check_invalid_operation_order :: "Project \<Rightarrow> Diagnostic list" where
  "check_invalid_operation_order project =
     (let events = accept_events project
      in concat (map (\<lambda>(index, q).
           concat (map (\<lambda>prereq.
             case first_accept events prereq of
               Some prereq_index \<Rightarrow>
                 if prereq_index > index
                 then [diagnostic Error ''INVALID_OPERATION_ORDER'' (order_msg index q prereq prereq_index)
                         (Some (op_text (op_name (prj_operations project ! index)))) None]
                 else []
             | None \<Rightarrow> []) (prerequisites_of project q))) events))"

section \<open>Unused assets\<close>

fun referenced_npcs :: "ActionPayload \<Rightarrow> uuid list" where
  "referenced_npcs (Vendor v) = [vendor_npc v]"
| "referenced_npcs (Train tr) = [trainer_npc tr]"
| "referenced_npcs (Flight f) = [flight_npc f]"
| "referenced_npcs (LearnFlightPath l) = [learn_npc l]"
| "referenced_npcs (InteractNPC i) = [interact_npc i]"
| "referenced_npcs (AcceptQuest a) = opt_list (accept_npc a)"
| "referenced_npcs (TurnInQuest t) = opt_list (turnin_npc t)"
| "referenced_npcs (Repair r) = [repair_npc r]"
| "referenced_npcs (Mailbox m) = [mailbox_npc m]"
| "referenced_npcs (Bank b) = [bank_npc b]"
| "referenced_npcs (Escort e) = [escort_npc e]"
| "referenced_npcs (SetHearth s) = opt_list (sethearth_npc s)"
| "referenced_npcs (Hearth h) = opt_list (hearth_innkeeper h)"
| "referenced_npcs _ = []"

fun referenced_quests :: "ActionPayload \<Rightarrow> u32 list" where
  "referenced_quests (AcceptQuest a) = [accept_quest a]"
| "referenced_quests (TurnInQuest t) = [turnin_quest t]"
| "referenced_quests _ = []"

definition unused_npc :: "ValidatorEnv \<Rightarrow> NPCReference \<Rightarrow> Diagnostic" where
  "unused_npc V npc =
     diagnostic Info ''UNUSED_ASSET''
       (''NPC '' @ quoted (npc_name npc) @ '' ('' @ show_uuid V (npc_id npc)
        @ '') in npc_library is never referenced by any operation'') (Some (npc_name npc)) None"

definition unused_quest :: "QuestReference \<Rightarrow> Diagnostic" where
  "unused_quest quest =
     diagnostic Info ''UNUSED_ASSET''
       (''Quest '' @ show_word (quest_quest_id quest) @ '' (''
        @ quoted (case quest_title quest of None \<Rightarrow> ''untitled'' | Some t \<Rightarrow> t)
        @ '') in quest_library is never referenced by any operation'')
       (Some (case quest_title quest of None \<Rightarrow> [] | Some t \<Rightarrow> t)) None"

definition check_unused_assets :: "ValidatorEnv \<Rightarrow> Project \<Rightarrow> Diagnostic list" where
  "check_unused_assets V project =
     (let npcs = set (for_actions (\<lambda>_ action. referenced_npcs (act_payload action)) project);
          quests = set (for_actions (\<lambda>_ action. referenced_quests (act_payload action)) project)
      in map (unused_npc V) (filter (\<lambda>npc. npc_id npc \<notin> npcs) (prj_npc_library project))
         @ map unused_quest (filter (\<lambda>quest. quest_quest_id quest \<notin> quests) (prj_quest_library project)))"

section \<open>The validator\<close>

definition validate :: "ValidatorEnv \<Rightarrow> Project \<Rightarrow> Diagnostic list" where
  "validate V project =
     check_duplicate_npcs project @ check_duplicate_quests project @ check_broken_npc_references V project
     @ check_unresolved_quests V project @ check_circular_conditions V project @ check_unused_variables V project
     @ check_missing_coordinates V project @ check_quest_chain_consistency V project
     @ check_invalid_operation_order project @ check_unused_assets V project"

section \<open>Lemmas\<close>

lemma in_for_actions:
  "x \<in> set (for_actions body project)
     \<longleftrightarrow> (\<exists>operation\<in>set (prj_operations project). \<exists>action\<in>set (op_actions operation). x \<in> set (body operation action))"
  by (auto simp: for_actions_def)

text \<open>The codes of each check are its own.\<close>

lemma dup_npcs_codes: "d \<in> set (dup_npcs seen npcs) \<Longrightarrow> diag_code d = ''DUPLICATE_NPC''"
  by (induction npcs arbitrary: seen) (auto split: option.splits if_splits)

lemma dup_quests_codes: "d \<in> set (dup_quests seen quests) \<Longrightarrow> diag_code d = ''DUPLICATE_QUEST''"
  by (induction quests arbitrary: seen) (auto split: if_splits)

text \<open>The compiler needs every reference the validator checks, and one more.\<close>

lemma npc_reference_checked:
  "npc_reference payload = Some ref \<Longrightarrow> (\<exists>kind. checked_npc payload = Some (kind, ref)) \<or> (\<exists>e. payload = Escort e)"
  by (cases payload) auto

lemma broken_reported:
  assumes "operation \<in> set (prj_operations project)" "action \<in> set (op_actions operation)"
    and c: "checked_npc (act_payload action) = Some (kind, Some u)" and u: "u \<notin> npc_id ` set (prj_npc_library project)"
  shows "\<exists>d\<in>set (validate V project). diag_code d = ''BROKEN_NPC_REFERENCE''
    \<and> diag_action d = Some (show_uuid V (act_id action))"
proof -
  let ?d = "diagnostic Error ''BROKEN_NPC_REFERENCE'' (kind @ '' references missing NPC '' @ show_uuid V u)
      (reference_entity (act_payload action)) (Some (show_uuid V (act_id action)))"
  have "?d \<in> set (check_single_npc_ref V (set (map npc_id (prj_npc_library project))) action)"
    using c u by (simp add: check_single_npc_ref_def)
  with assms(1,2) have "?d \<in> set (check_broken_npc_references V project)"
    unfolding check_broken_npc_references_def in_for_actions by blast
  then show ?thesis by (intro bexI [of _ ?d]) (simp_all add: validate_def)
qed

text \<open>Why the compiler reports an NPC: the payload of the action behind the diagnostic needs one it cannot resolve.\<close>

lemma npc_arm_unresolved:
  assumes "npc_arm F npcs act kind npc lowered text u = (r, ds, u')" "d \<in> set ds"
  shows "diag_action d = Some (fmt_uuid F act) \<and> Option.bind npc npcs = None"
  using assms by (auto simp: npc_arm_def resolve_npc_or_report_def split: option.splits)

lemma resolve_payload_unresolved:
  assumes "resolve_payload F npcs objects act payload u = (r, ds, u')" "d \<in> set ds" "diag_code d = ''UNRESOLVED_NPC''"
  shows "diag_action d = Some (fmt_uuid F act) \<and> (\<exists>ref. npc_reference payload = Some ref \<and> Option.bind ref npcs = None)"
proof (cases "npc_reference payload")
  case None
  with assms show ?thesis
    by (cases payload) (auto simp: Let_def split: option.splits sum.splits if_splits)
next
  case (Some ref)
  then show ?thesis
  proof (cases payload)
  qed (use assms in \<open>auto dest!: npc_arm_unresolved\<close>)
qed

lemma parse_class_guard_no_npc:
  "parse_class_guard F restriction act = (guard, ds) \<Longrightarrow> d \<in> set ds \<Longrightarrow> diag_code d \<noteq> ''UNRESOLVED_NPC''"
  by (auto simp: parse_class_guard_def unknown_class_def Let_def case_prod_unfold split: if_splits option.splits)

lemma resolve_action_unresolved:
  assumes "resolve_action F npcs objects action u = (ga, ds, u')" "d \<in> set ds" "diag_code d = ''UNRESOLVED_NPC''"
  shows "diag_action d = Some (fmt_uuid F (act_id action))
    \<and> (\<exists>ref. npc_reference (act_payload action) = Some ref \<and> Option.bind ref npcs = None)"
proof -
  obtain r ds1 u1 where r: "resolve_payload F npcs objects (act_id action) (act_payload action) u = (r, ds1, u1)"
    by (metis prod_cases3)
  obtain guard ds2 where g: "(case act_class_restriction action of None \<Rightarrow> (None, [])
      | Some r \<Rightarrow> parse_class_guard F r (act_id action)) = (guard, ds2)" by (metis surj_pair)
  with assms(2,3) r assms(1) have "d \<in> set ds1"
    by (auto simp: resolve_action_def split: option.splits dest: parse_class_guard_no_npc)
  from resolve_payload_unresolved [OF r this assms(3)] show ?thesis .
qed

lemma run_actions_unresolved:
  "run_actions F npcs objects actions u = (gas, ds, u') \<Longrightarrow> d \<in> set ds \<Longrightarrow> diag_code d = ''UNRESOLVED_NPC''
     \<Longrightarrow> \<exists>action\<in>set actions. diag_action d = Some (fmt_uuid F (act_id action))
       \<and> (\<exists>ref. npc_reference (act_payload action) = Some ref \<and> Option.bind ref npcs = None)"
proof (induction actions arbitrary: u gas ds u')
  case (Cons action actions)
  obtain ga ds1 u1 where 1: "resolve_action F npcs objects action u = (ga, ds1, u1)" by (metis prod_cases3)
  obtain gas' ds2 u2 where 2: "run_actions F npcs objects actions u1 = (gas', ds2, u2)" by (metis prod_cases3)
  from Cons.prems 1 2 have "d \<in> set ds1 \<or> d \<in> set ds2" by auto
  then show ?case
  proof
    assume "d \<in> set ds1"
    from resolve_action_unresolved [OF 1 this Cons.prems(3)] show ?thesis by auto
  next
    assume "d \<in> set ds2"
    from Cons.IH [OF 2 this Cons.prems(3)] show ?thesis by auto
  qed
qed simp

lemma run_operations_unresolved:
  "run_operations F npcs objects operations u = (rops, ds, u') \<Longrightarrow> d \<in> set ds \<Longrightarrow> diag_code d = ''UNRESOLVED_NPC''
     \<Longrightarrow> \<exists>operation\<in>set operations. \<exists>action\<in>set (op_actions operation). diag_action d = Some (fmt_uuid F (act_id action))
       \<and> (\<exists>ref. npc_reference (act_payload action) = Some ref \<and> Option.bind ref npcs = None)"
proof (induction operations arbitrary: u rops ds u')
  case (Cons operation operations)
  obtain gas ds1 u1 where 1: "run_actions F npcs objects (op_actions operation) u = (gas, ds1, u1)" by (metis prod_cases3)
  obtain rops' ds2 u2 where 2: "run_operations F npcs objects operations u1 = (rops', ds2, u2)" by (metis prod_cases3)
  from Cons.prems 1 2 have "d \<in> set ds1 \<or> d \<in> set ds2" by (auto simp: compile_operation_def)
  then show ?case
  proof
    assume "d \<in> set ds1"
    from run_actions_unresolved [OF 1 this Cons.prems(3)] show ?thesis by auto
  next
    assume "d \<in> set ds2"
    from Cons.IH [OF 2 this Cons.prems(3)] show ?thesis by auto
  qed
qed simp

lemma in_map_filter: "y \<in> set (List.map_filter f xs) \<longleftrightarrow> (\<exists>x\<in>set xs. f x = Some y)"
  by (induction xs) (auto simp: List.map_filter_def split: option.splits)

lemma npc_table_None:
  assumes "npc_table project u = None" and "n \<in> set (prj_npc_library project)" and "npc_id n = u"
  shows "npc_entry n = None"
proof (cases "npc_entry n")
  case (Some e)
  let ?xs = "List.map_filter (\<lambda>n. map_option (Pair (npc_id n)) (npc_entry n)) (prj_npc_library project)"
  have "(u, e) \<in> set ?xs"
    unfolding in_map_filter using assms(2,3) Some by (intro bexI [of _ n]) simp_all
  then have "u \<in> fst ` set (rev ?xs)" by (intro image_eqI [of _ _ "(u, e)"]) simp_all
  moreover have "u \<notin> fst ` set (rev ?xs)"
    using assms(1) unfolding npc_table_def map_of_eq_None_iff .
  ultimately show ?thesis by blast
qed

lemma earliest_write_Some:
  "earliest_write operations name = Some k \<longleftrightarrow>
     k < length operations \<and> name \<in> set (op_writes (operations ! k)) \<and> (\<forall>j<k. name \<notin> set (op_writes (operations ! j)))"
proof
  assume "earliest_write operations name = Some k"
  from position_of_Some [OF this [unfolded earliest_write_def]]
  show "k < length operations \<and> name \<in> set (op_writes (operations ! k)) \<and> (\<forall>j<k. name \<notin> set (op_writes (operations ! j)))"
    by simp
next
  assume k: "k < length operations \<and> name \<in> set (op_writes (operations ! k)) \<and> (\<forall>j<k. name \<notin> set (op_writes (operations ! j)))"
  then obtain j where j: "earliest_write operations name = Some j"
    using position_of_None [of "\<lambda>operation. name \<in> set (op_writes operation)" operations]
    by (cases "earliest_write operations name") (auto simp: earliest_write_def)
  from position_of_Some [OF this [unfolded earliest_write_def]] k have "j = k"
    by (metis linorder_neqE_nat)
  with j show "earliest_write operations name = Some k" by simp
qed

lemma written_later:
  "(\<exists>k. earliest_write operations name = Some k \<and> index < k)
     \<longleftrightarrow> (\<exists>k<length operations. name \<in> set (op_writes (operations ! k)))
        \<and> (\<forall>k\<le>index. k < length operations \<longrightarrow> name \<notin> set (op_writes (operations ! k)))"
proof
  assume "\<exists>k. earliest_write operations name = Some k \<and> index < k"
  then show "(\<exists>k<length operations. name \<in> set (op_writes (operations ! k)))
        \<and> (\<forall>k\<le>index. k < length operations \<longrightarrow> name \<notin> set (op_writes (operations ! k)))"
    by (auto simp: earliest_write_Some)
next
  assume w: "(\<exists>k<length operations. name \<in> set (op_writes (operations ! k)))
        \<and> (\<forall>k\<le>index. k < length operations \<longrightarrow> name \<notin> set (op_writes (operations ! k)))"
  then obtain k where "earliest_write operations name = Some k"
    using position_of_None [of "\<lambda>operation. name \<in> set (op_writes operation)" operations]
    by (cases "earliest_write operations name") (auto simp: earliest_write_def)
  with w show "\<exists>k. earliest_write operations name = Some k \<and> index < k"
    by (metis earliest_write_Some not_le)
qed

definition faithful_order :: "ValidatorEnv \<Rightarrow> bool" where
  "faithful_order V \<longleftrightarrow> (\<forall>place names. set (hash_order V place names) = set names)"

definition reads_variable :: "Project \<Rightarrow> nat \<Rightarrow> string \<Rightarrow> bool" where
  "reads_variable project index name \<longleftrightarrow>
     index < length (prj_operations project) \<and> name \<in> set (var_names project)
     \<and> (\<exists>expr\<in>set (op_conditions_of (prj_operations project ! index)). str_contains expr name)"

definition writes_variable :: "Project \<Rightarrow> nat \<Rightarrow> string \<Rightarrow> bool" where
  "writes_variable project index name \<longleftrightarrow>
     index < length (prj_operations project)
     \<and> (\<exists>action\<in>set (op_actions (prj_operations project ! index)).
          \<exists>sv. act_payload action = SetVariable sv \<and> setvar_name sv = name)"

lemma in_op_writes:
  "name \<in> set (op_writes operation)
     \<longleftrightarrow> (\<exists>action\<in>set (op_actions operation). \<exists>sv. act_payload action = SetVariable sv \<and> setvar_name sv = name)"
  unfolding op_writes_def in_map_filter
  by (intro bex_cong refl) (auto split: ActionPayload.splits)

definition circular_diag :: "Project \<Rightarrow> nat \<Rightarrow> string \<Rightarrow> Diagnostic" where
  "circular_diag project index name =
     diagnostic Error ''CIRCULAR_CONDITION'' (circular_msg (prj_operations project) index name)
       (Some (op_text (op_name (prj_operations project ! index)))) None"

text \<open>Some operation writes the variable, but none up to and including the one at \<open>index\<close>.\<close>

definition only_written_later :: "Project \<Rightarrow> nat \<Rightarrow> string \<Rightarrow> bool" where
  "only_written_later project index name \<longleftrightarrow>
     (\<exists>k. writes_variable project k name) \<and> (\<forall>k\<le>index. \<not> writes_variable project k name)"

lemma in_circular_one:
  "d \<in> set (circular_one (prj_operations project) index name)
     \<longleftrightarrow> d = circular_diag project index name \<and> only_written_later project index name"
proof -
  have "d \<in> set (circular_one (prj_operations project) index name)
      \<longleftrightarrow> d = circular_diag project index name \<and> (\<exists>k. earliest_write (prj_operations project) name = Some k \<and> index < k)"
    by (cases "earliest_write (prj_operations project) name") (auto simp: circular_one_def circular_diag_def)
  then show ?thesis
    unfolding written_later by (auto simp: only_written_later_def writes_variable_def in_op_writes)
qed

lemma in_op_reads:
  "index < length (prj_operations project)
     \<Longrightarrow> name \<in> set (op_reads (var_names project) (prj_operations project ! index)) \<longleftrightarrow> reads_variable project index name"
  by (auto simp: op_reads_def reads_variable_def)

definition unresolvable :: "ValidatorEnv \<Rightarrow> Project \<Rightarrow> Action \<Rightarrow> bool" where
  "unresolvable V project action \<longleftrightarrow>
     (case npc_reference (act_payload action) of
        None \<Rightarrow> False
      | Some None \<Rightarrow> True
      | Some (Some u) \<Rightarrow>
          (\<exists>n\<in>set (prj_npc_library project). npc_id n = u \<and> npc_entry n = None)
          \<or> (\<exists>e. act_payload action = Escort e)
          \<or> (\<exists>d\<in>set (validate V project). diag_code d = ''BROKEN_NPC_REFERENCE''
               \<and> diag_action d = Some (show_uuid V (act_id action))))"

section \<open>Properties\<close>

text \<open>Which operations accept a quest, and the first that does.\<close>

definition accepts :: "Project \<Rightarrow> nat \<Rightarrow> u32 \<Rightarrow> bool" where
  "accepts project index q \<longleftrightarrow>
     index < length (prj_operations project)
     \<and> (\<exists>action\<in>set (op_actions (prj_operations project ! index)).
          \<exists>a. act_payload action = AcceptQuest a \<and> accept_quest a = q)"

definition first_accepted :: "Project \<Rightarrow> u32 \<Rightarrow> nat \<Rightarrow> bool" where
  "first_accepted project q index \<longleftrightarrow> accepts project index q \<and> (\<forall>j<index. \<not> accepts project j q)"

definition order_diag :: "Project \<Rightarrow> nat \<Rightarrow> u32 \<Rightarrow> u32 \<Rightarrow> nat \<Rightarrow> Diagnostic" where
  "order_diag project index q prereq prereq_index =
     diagnostic Error ''INVALID_OPERATION_ORDER'' (order_msg index q prereq prereq_index)
       (Some (op_text (op_name (prj_operations project ! index)))) None"

lemma in_accepted_in:
  "q \<in> set (accepted_in operation)
     \<longleftrightarrow> (\<exists>action\<in>set (op_actions operation). \<exists>a. act_payload action = AcceptQuest a \<and> accept_quest a = q)"
  unfolding accepted_in_def in_map_filter
  by (intro bex_cong refl) (auto split: ActionPayload.splits)

lemma accepts_iff:
  "accepts project index q \<longleftrightarrow> index < length (prj_operations project) \<and> q \<in> set (accepted_in (prj_operations project ! index))"
  by (auto simp: accepts_def in_accepted_in)

lemma find_append: "List.find P (xs @ ys) = (case List.find P xs of None \<Rightarrow> List.find P ys | Some x \<Rightarrow> Some x)"
  by (induction xs) auto

lemma find_pairs:
  "List.find (\<lambda>(_, quest). quest = q) (map (Pair index) qs) = (if q \<in> set qs then Some (index, q) else None)"
  by (induction qs) auto

lemma first_accept_from:
  "first_accept (concat (map (\<lambda>(index, operation). map (Pair index) (accepted_in operation)) (enumerate n operations))) q
     = map_option (\<lambda>k. n + k) (position_of (\<lambda>operation. q \<in> set (accepted_in operation)) operations)"
proof (induction operations arbitrary: n)
  case (Cons operation operations)
  have "(+) (Suc n) = (\<lambda>k. n + Suc k)" by auto
  with Cons [of "Suc n"] show ?case
    by (auto simp: first_accept_def find_append find_pairs option.map_comp comp_def split: option.splits)
qed (simp add: first_accept_def)

lemma first_accept_Some:
  "first_accept (accept_events project) q = Some k \<longleftrightarrow> first_accepted project q k"
proof -
  let ?P = "\<lambda>operation. q \<in> set (accepted_in operation)" and ?ops = "prj_operations project"
  have e: "first_accept (accept_events project) q = position_of ?P ?ops"
    using first_accept_from [of 0] by (simp add: accept_events_def option.map_ident)
  show ?thesis
  proof
    assume "first_accept (accept_events project) q = Some k"
    with position_of_Some [of ?P ?ops k] e show "first_accepted project q k"
      by (auto simp: first_accepted_def accepts_iff)
  next
    assume k: "first_accepted project q k"
    then obtain j where j: "position_of ?P ?ops = Some j"
      using position_of_None [of ?P ?ops]
      by (cases "position_of ?P ?ops") (auto simp: first_accepted_def accepts_iff)
    from position_of_Some [OF j] k have "j = k"
      by (metis accepts_iff first_accepted_def linorder_neqE_nat)
    with j e show "first_accept (accept_events project) q = Some k" by simp
  qed
qed

lemma in_accept_events: "(index, q) \<in> set (accept_events project) \<longleftrightarrow> accepts project index q"
  by (auto simp: accept_events_def accepts_iff in_set_enumerate_eq image_iff)

definition order_one :: "Project \<Rightarrow> nat \<Rightarrow> u32 \<Rightarrow> u32 \<Rightarrow> Diagnostic list" where
  "order_one project index q prereq =
     (case first_accept (accept_events project) prereq of
        Some prereq_index \<Rightarrow> if prereq_index > index then [order_diag project index q prereq prereq_index] else []
      | None \<Rightarrow> [])"

lemma in_order_one:
  "d \<in> set (order_one project index q prereq)
     \<longleftrightarrow> (\<exists>k. d = order_diag project index q prereq k \<and> first_accepted project prereq k \<and> index < k)"
  unfolding order_one_def first_accept_Some [symmetric]
  by (cases "first_accept (accept_events project) prereq") auto

definition V0 :: ValidatorEnv where
  "V0 = \<lparr>show_uuid = (\<lambda>_. []), show_f32 = (\<lambda>_. []), hash_order = (\<lambda>_ names. names)\<rparr>"

definition F0 :: Formatters where
  "F0 = \<lparr>fmt_uuid = (\<lambda>_. []), fmt_uuid_debug = (\<lambda>_. []), fmt_escape = id\<rparr>"

definition plain_action :: "uuid \<Rightarrow> ActionPayload \<Rightarrow> Action" where
  "plain_action n payload =
     \<lparr>act_id = n, act_enabled = True, act_condition = None, act_note = None,
      act_class_restriction = Some ''!Mage/Druid'', act_gate = None, act_payload = payload\<rparr>"

definition escort3 :: Action where
  "escort3 = plain_action 1 (Escort \<lparr>escort_npc = 5, escort_area = None, escort_timeout = None\<rparr>)"

definition set3 :: Action where
  "set3 = plain_action 2 (SetVariable \<lparr>setvar_name = ''done'', setvar_value = VBool True\<rparr>)"

definition project3 :: Project where
  "project3 = (new_project 7 ''now'' ''route'')\<lparr>
     prj_variables := [\<lparr>var_id = 1, var_name = ''done'', var_type = TyBool, var_default_value = VBool False,
       var_current_value = None, var_description = None\<rparr>],
     prj_operations := [(Operation_new 1 ''walk'')\<lparr>op_conditions := [''done''], op_actions := [escort3]\<rparr>,
                        (Operation_new 2 ''end'')\<lparr>op_actions := [set3]\<rparr>]\<rparr>"

definition compiled3 :: "RuntimeProfile \<times> CompileReport" where
  "compiled3 = projr (compile F0 (\<lambda>_. None) project3)"



text \<open>C12: a condition is reported as circular exactly when its operation reads a declared variable that some
  operation writes, but none up to and including the operation itself.\<close>

theorem circular_exact:
  assumes "faithful_order V"
  shows "set (check_circular_conditions V project) =
    {circular_diag project index name | index name.
       reads_variable project index name \<and> only_written_later project index name}"
proof (cases "var_names project = []")
  case True
  then show ?thesis by (simp add: check_circular_conditions_def reads_variable_def)
next
  case False
  have "set (check_circular_conditions V project) =
      (\<Union>index\<in>{0..<length (prj_operations project)}.
         set (circular_at V (var_names project) (prj_operations project) index))"
    using False by (simp add: check_circular_conditions_def Let_def)
  then have "d \<in> set (check_circular_conditions V project) \<longleftrightarrow>
      (\<exists>index\<in>{0..<length (prj_operations project)}. \<exists>name\<in>{name. reads_variable project index name}.
         d \<in> set (circular_one (prj_operations project) index name))" for d
    using assms in_op_reads [of _ project, symmetric] by (simp add: circular_at_def faithful_order_def)
  moreover have "index < length (prj_operations project)" if "reads_variable project index name" for index name
    using that by (simp add: reads_variable_def)
  ultimately show ?thesis unfolding in_circular_one by (intro set_eqI) fastforce
qed

lemma circular_exact_witness: "circular_diag project3 0 ''done'' \<in> set (check_circular_conditions V0 project3)"
proof -
  have "reads_variable project3 0 ''done''" by code_simp
  moreover have "only_written_later project3 0 ''done''"
  proof -
    have "writes_variable project3 1 ''done''"
      by (simp add: writes_variable_def project3_def set3_def plain_action_def)
    moreover have "\<not> writes_variable project3 0 ''done''"
      by (simp add: writes_variable_def project3_def escort3_def plain_action_def)
    ultimately show ?thesis by (auto simp: only_written_later_def)
  qed
  moreover have "faithful_order V0" by (simp add: faithful_order_def V0_def)
  ultimately show ?thesis using circular_exact [of V0 project3] by auto
qed

text \<open>the order check is exact: an error for every operation that accepts a quest, every prerequisite the library
  records for it and the first operation that accepts that prerequisite, when that operation comes later.\<close>

theorem operation_order_exact:
  "set (check_invalid_operation_order project) =
    {order_diag project index q prereq k | index q prereq k.
       accepts project index q \<and> prereq \<in> set (prerequisites_of project q)
       \<and> first_accepted project prereq k \<and> index < k}"
proof -
  have "check_invalid_operation_order project =
      concat (map (\<lambda>(index, q). concat (map (order_one project index q) (prerequisites_of project q))) (accept_events project))"
    unfolding check_invalid_operation_order_def order_one_def [abs_def] order_diag_def Let_def by (rule refl)
  then have "d \<in> set (check_invalid_operation_order project) \<longleftrightarrow>
      (\<exists>index q. (index, q) \<in> set (accept_events project)
         \<and> (\<exists>prereq\<in>set (prerequisites_of project q). d \<in> set (order_one project index q prereq)))" for d
    by force
  then show ?thesis unfolding in_order_one in_accept_events by blast
qed

end
