(* ===== verification/Editor_Api.thy ===== *)
theory Editor_Api
  imports Validator "HOL-Library.AList"
begin

text \<open>
  Project storage (\<^verbatim>\<open>editor/src/lib.rs\<close>): a project is one JSON file or a directory with an index and one file
  per operation and area.

  A \<open>Disk\<close> holds the files of the projects directory by name (validated names contain no separator, so a
  name determines its path). File operations succeed, except that removing a missing file fails. The JSON
  library is \<open>Codec\<close>; the order in which the operating system lists a directory is \<open>scan\<close>, the uuid's text
  in a file name is \<open>uuid_text\<close>.
\<close>

record ProjectDir =
  pd_index :: "string option"
  pd_operations :: "(string \<times> string) list"
  pd_areas :: "(string \<times> string) list"

record Disk =
  json_files :: "(string \<times> string) list"
  project_dirs :: "(string \<times> ProjectDir) list"

record Codec =
  enc_project :: "Project \<Rightarrow> string + string"
  dec_project :: "string \<Rightarrow> string + Project"
  enc_index :: "ProjectDirIndex \<Rightarrow> string + string"
  dec_index :: "string \<Rightarrow> string + ProjectDirIndex"
  enc_operation :: "Operation \<Rightarrow> string + string"
  dec_operation :: "string \<Rightarrow> string + Operation"
  enc_area :: "Area \<Rightarrow> string + string"
  dec_area :: "string \<Rightarrow> string + Area"
  enc_profile :: "RuntimeProfile \<Rightarrow> string + string"
  uuid_text :: "uuid \<Rightarrow> string"
  scan :: "(string \<times> string) list \<Rightarrow> (string \<times> string) list"

datatype EditorError =
    NotFound string
  | AlreadyExists string
  | Io string
  | Serde string
  | Compile string
  | InvalidName string

definition error_text :: "EditorError \<Rightarrow> string" where
  "error_text e =
     (case e of
        NotFound name \<Rightarrow> ''Project '' @ quoted name @ '' not found''
      | AlreadyExists name \<Rightarrow> ''Project '' @ quoted name @ '' already exists''
      | Io m \<Rightarrow> ''I/O error: '' @ m
      | Serde m \<Rightarrow> ''Serialization error: '' @ m
      | Compile m \<Rightarrow> ''Compilation error: '' @ m
      | InvalidName name \<Rightarrow>
          ''Invalid name '' @ quoted name @ '': names must not be empty, contain '' @ quoted ''..'' @ '', or path separators'')"

definition backslash :: string where "backslash = [char_of (92::nat)]"

definition validate_name :: "string \<Rightarrow> EditorError + unit" where
  "validate_name name =
     (if name = [] \<or> str_contains name ''/'' \<or> str_contains name backslash \<or> str_contains name ''..''
      then Inl (InvalidName name) else Inr ())"

section \<open>The directory form\<close>

fun write_files :: "('a \<Rightarrow> string + string) \<Rightarrow> ('a \<Rightarrow> string) \<Rightarrow> 'a list \<Rightarrow> (string \<times> string) list
    \<Rightarrow> (EditorError + unit) \<times> (string \<times> string) list" where
  "write_files enc name [] files = (Inr (), files)"
| "write_files enc name (x # xs) files =
     (case enc x of
        Inl m \<Rightarrow> (Inl (Serde m), files)
      | Inr json \<Rightarrow> write_files enc name xs (AList.update (name x) json files))"

definition empty_dir :: ProjectDir where
  "empty_dir = \<lparr>pd_index = None, pd_operations = [], pd_areas = []\<rparr>"

text \<open>
  \<open>save_project_dir\<close>: the stale operation and area files are removed before anything is written; an encoding
  error leaves what was written so far.
\<close>

definition save_project_dir :: "Codec \<Rightarrow> ProjectDir option \<Rightarrow> Project \<Rightarrow> (EditorError + unit) \<times> ProjectDir" where
  "save_project_dir C old project =
     (let dir1 = (case old of None \<Rightarrow> empty_dir | Some d \<Rightarrow> d)\<lparr>pd_operations := [], pd_areas := []\<rparr>
      in case enc_index C (dir_index_of project) of
           Inl m \<Rightarrow> (Inl (Serde m), dir1)
         | Inr json \<Rightarrow>
             let dir2 = dir1\<lparr>pd_index := Some json\<rparr>;
                 (r1, ops) = write_files (enc_operation C) (\<lambda>operation. uuid_text C (op_id operation)) (prj_operations project) [];
                 dir3 = dir2\<lparr>pd_operations := ops\<rparr>
             in case r1 of
                  Inl e \<Rightarrow> (Inl e, dir3)
                | Inr _ \<Rightarrow>
                    let (r2, areas) = write_files (enc_area C) (\<lambda>area. uuid_text C (area_id area)) (prj_areas project) []
                    in (r2, dir3\<lparr>pd_areas := areas\<rparr>))"

fun read_files :: "(string \<Rightarrow> string + 'a) \<Rightarrow> (string \<times> string) list \<Rightarrow> EditorError + 'a list" where
  "read_files dec [] = Inr []"
| "read_files dec ((name, json) # files) =
     (case dec json of
        Inl m \<Rightarrow> Inl (Serde m)
      | Inr x \<Rightarrow> map_res (\<lambda>xs. x # xs) (read_files dec files))"

text \<open>Collecting into a \<open>HashMap\<close> keeps the last entry of a key; the index then gives the order back.\<close>

definition in_index_order :: "('a \<Rightarrow> uuid) \<Rightarrow> 'a list \<Rightarrow> uuid list \<Rightarrow> 'a list" where
  "in_index_order key xs order = List.map_filter (map_of (rev (map (\<lambda>x. (key x, x)) xs))) order"

definition load_project_dir :: "Codec \<Rightarrow> string \<Rightarrow> ProjectDir option \<Rightarrow> EditorError + Project" where
  "load_project_dir C name dir =
     (case Option.bind dir pd_index of
        None \<Rightarrow> Inl (NotFound name)
      | Some json \<Rightarrow>
          (case dec_index C json of
             Inl m \<Rightarrow> Inl (Serde m)
           | Inr ix \<Rightarrow>
               (case read_files (dec_operation C) (scan C (pd_operations (the dir))) of
                  Inl e \<Rightarrow> Inl e
                | Inr operations \<Rightarrow>
                    map_res
                      (\<lambda>areas. into_project ix
                         (in_index_order op_id operations (map opix_id (pdi_operations ix)))
                         (in_index_order area_id areas (map arix_id (pdi_areas ix))))
                      (read_files (dec_area C) (scan C (pd_areas (the dir)))))))"

section \<open>Projects by name\<close>

datatype PathResolution = ResFile | ResDir

definition resolve_project_path :: "Disk \<Rightarrow> string \<Rightarrow> PathResolution" where
  "resolve_project_path disk name =
     (if map_of (json_files disk) name \<noteq> None then ResFile
      else if map_of (project_dirs disk) name \<noteq> None then ResDir
      else ResFile)"

definition load_project_from_path :: "Codec \<Rightarrow> Disk \<Rightarrow> string \<Rightarrow> EditorError + Project" where
  "load_project_from_path C disk name =
     (case map_of (json_files disk) name of
        None \<Rightarrow> Inl (NotFound name)
      | Some json \<Rightarrow> (case dec_project C json of Inl m \<Rightarrow> Inl (Serde m) | Inr project \<Rightarrow> Inr project))"

definition load_resolved :: "Codec \<Rightarrow> Disk \<Rightarrow> string \<Rightarrow> EditorError + Project" where
  "load_resolved C disk name =
     (case resolve_project_path disk name of
        ResFile \<Rightarrow> load_project_from_path C disk name
      | ResDir \<Rightarrow> load_project_dir C name (map_of (project_dirs disk) name))"

definition load_project :: "Codec \<Rightarrow> Disk \<Rightarrow> string \<Rightarrow> EditorError + Project" where
  "load_project C disk name =
     (case validate_name name of Inl e \<Rightarrow> Inl e | Inr _ \<Rightarrow> load_resolved C disk name)"

definition save_project_to_path :: "Codec \<Rightarrow> Disk \<Rightarrow> string \<Rightarrow> Project \<Rightarrow> (EditorError + unit) \<times> Disk" where
  "save_project_to_path C disk name project =
     (case enc_project C project of
        Inl m \<Rightarrow> (Inl (Serde m), disk)
      | Inr json \<Rightarrow> (Inr (), disk\<lparr>json_files := AList.update name json (json_files disk)\<rparr>))"

definition save_dir_as :: "Codec \<Rightarrow> Disk \<Rightarrow> string \<Rightarrow> Project \<Rightarrow> (EditorError + unit) \<times> Disk" where
  "save_dir_as C disk name project =
     (let (r, dir) = save_project_dir C (map_of (project_dirs disk) name) project
      in (r, disk\<lparr>project_dirs := AList.update name dir (project_dirs disk)\<rparr>))"

definition save_project :: "Codec \<Rightarrow> Disk \<Rightarrow> Project \<Rightarrow> (EditorError + unit) \<times> Disk" where
  "save_project C disk project =
     (let name = meta_name (prj_metadata project)
      in case validate_name name of
           Inl e \<Rightarrow> (Inl e, disk)
         | Inr _ \<Rightarrow>
             if map_of (project_dirs disk) name \<noteq> None then save_dir_as C disk name project
             else save_project_to_path C disk name project)"

definition name_taken :: "Disk \<Rightarrow> string \<Rightarrow> bool" where
  "name_taken disk name \<longleftrightarrow> map_of (json_files disk) name \<noteq> None \<or> map_of (project_dirs disk) name \<noteq> None"

definition create_project :: "Codec \<Rightarrow> uuid \<Rightarrow> string \<Rightarrow> Disk \<Rightarrow> string \<Rightarrow> (EditorError + Project) \<times> Disk" where
  "create_project C fresh now disk name =
     (case validate_name name of
        Inl e \<Rightarrow> (Inl e, disk)
      | Inr _ \<Rightarrow>
          if name_taken disk name then (Inl (AlreadyExists name), disk)
          else let project = new_project fresh now name;
                   (r, disk') = save_project_to_path C disk name project
               in (map_res (\<lambda>_. project) r, disk'))"

definition rename_in :: "string \<Rightarrow> string \<Rightarrow> Project \<Rightarrow> Project" where
  "rename_in new_name now project =
     project\<lparr>prj_metadata := (prj_metadata project)\<lparr>meta_name := new_name, meta_updated_at := now\<rparr>\<rparr>"

definition rename_project :: "Codec \<Rightarrow> string \<Rightarrow> Disk \<Rightarrow> string \<Rightarrow> string \<Rightarrow> (EditorError + Project) \<times> Disk" where
  "rename_project C now disk old_name new_name =
     (case validate_name old_name of
        Inl e \<Rightarrow> (Inl e, disk)
      | Inr _ \<Rightarrow>
     (case validate_name new_name of
        Inl e \<Rightarrow> (Inl e, disk)
      | Inr _ \<Rightarrow>
          if name_taken disk new_name then (Inl (AlreadyExists new_name), disk)
          else let was_dir = (resolve_project_path disk old_name = ResDir)
               in case load_resolved C disk old_name of
                    Inl e \<Rightarrow> (Inl e, disk)
                  | Inr loaded \<Rightarrow>
                      let project = rename_in new_name now loaded;
                          (r, disk1) = (if was_dir then save_dir_as C disk new_name project
                                        else save_project_to_path C disk new_name project);
                          disk2 = (if was_dir then disk1\<lparr>project_dirs := AList.delete old_name (project_dirs disk1)\<rparr>
                                   else disk1\<lparr>json_files := AList.delete old_name (json_files disk1)\<rparr>)
                      in case r of Inl e \<Rightarrow> (Inl e, disk1) | Inr _ \<Rightarrow> (Inr project, disk2)))"

definition missing_file_msg :: string where
  "missing_file_msg = ''No such file or directory (os error 2)''"

definition delete_project :: "Disk \<Rightarrow> string \<Rightarrow> (EditorError + unit) \<times> Disk" where
  "delete_project disk name =
     (case validate_name name of
        Inl e \<Rightarrow> (Inl e, disk)
      | Inr _ \<Rightarrow>
          (case resolve_project_path disk name of
             ResFile \<Rightarrow>
               if map_of (json_files disk) name = None then (Inl (Io missing_file_msg), disk)
               else (Inr (), disk\<lparr>json_files := AList.delete name (json_files disk)\<rparr>)
           | ResDir \<Rightarrow> (Inr (), disk\<lparr>project_dirs := AList.delete name (project_dirs disk)\<rparr>)))"

definition copy_contents :: "string \<Rightarrow> Project \<Rightarrow> Project \<Rightarrow> Project" where
  "copy_contents now project duplicate =
     duplicate\<lparr>
       prj_variables := prj_variables project, prj_npc_library := prj_npc_library project,
       prj_quest_library := prj_quest_library project, prj_object_library := prj_object_library project,
       prj_areas := prj_areas project, prj_operations := prj_operations project,
       prj_settings := prj_settings project,
       prj_metadata := (prj_metadata duplicate)\<lparr>
         meta_description := meta_description (prj_metadata project), meta_author := meta_author (prj_metadata project),
         meta_version := meta_version (prj_metadata project), meta_faction := meta_faction (prj_metadata project),
         meta_race := meta_race (prj_metadata project), meta_class := meta_class (prj_metadata project),
         meta_minimum_level := meta_minimum_level (prj_metadata project),
         meta_maximum_level := meta_maximum_level (prj_metadata project),
         meta_updated_at := now, meta_created_at := now\<rparr>,
       prj_diagnostics := []\<rparr>"

definition duplicate_project ::
  "Codec \<Rightarrow> uuid \<Rightarrow> string \<Rightarrow> string \<Rightarrow> Disk \<Rightarrow> string \<Rightarrow> string \<Rightarrow> (EditorError + Project) \<times> Disk" where
  "duplicate_project C fresh now later disk name new_name =
     (case load_project C disk name of
        Inl e \<Rightarrow> (Inl e, disk)
      | Inr project \<Rightarrow>
          (case create_project C fresh now disk new_name of
             (Inl e, disk1) \<Rightarrow> (Inl e, disk1)
           | (Inr _, disk1) \<Rightarrow>
               (case load_project C disk1 new_name of
                  Inl e \<Rightarrow> (Inl e, disk1)
                | Inr created \<Rightarrow>
                    let duplicate = copy_contents later project created;
                        (r, disk2) = save_project C disk1 duplicate
                    in (map_res (\<lambda>_. duplicate) r, disk2))))"

section \<open>Compiling, validating and listing\<close>

record CompileResult =
  cr_profile_json :: string
  cr_operation_count :: nat
  cr_diagnostics :: "Diagnostic list"

definition compiler_error_text :: "CompilerError \<Rightarrow> (LoweringError \<Rightarrow> string) \<Rightarrow> string" where
  "compiler_error_text e lowering_text =
     (case e of
        UnresolvedNpc \<Rightarrow> ''NPC reference could not be resolved to an entry''
      | UnresolvedQuest \<Rightarrow> ''Quest reference could not be resolved''
      | KernelLowering le \<Rightarrow> ''kernel lowering refused the project: '' @ lowering_text le)"

definition compile_project_inner ::
  "Codec \<Rightarrow> Formatters \<Rightarrow> (RuntimeOperation list \<Rightarrow> string option) \<Rightarrow> (LoweringError \<Rightarrow> string) \<Rightarrow> Project
     \<Rightarrow> EditorError + CompileResult" where
  "compile_project_inner C F to_json lowering_text project =
     (case compile F to_json project of
        Inl e \<Rightarrow> Inl (Compile (compiler_error_text e lowering_text))
      | Inr (profile, report) \<Rightarrow>
          (case enc_profile C profile of
             Inl m \<Rightarrow> Inl (Serde m)
           | Inr json \<Rightarrow>
               Inr \<lparr>cr_profile_json = json, cr_operation_count = length (rp_operations profile),
                    cr_diagnostics = prj_diagnostics project @ rep_unmapped_conditions report\<rparr>))"

definition compile_project ::
  "Codec \<Rightarrow> Formatters \<Rightarrow> (RuntimeOperation list \<Rightarrow> string option) \<Rightarrow> (LoweringError \<Rightarrow> string) \<Rightarrow> Disk \<Rightarrow> string
     \<Rightarrow> EditorError + CompileResult" where
  "compile_project C F to_json lowering_text disk name =
     (case load_project C disk name of
        Inl e \<Rightarrow> Inl e | Inr project \<Rightarrow> compile_project_inner C F to_json lowering_text project)"

definition validate_project_file :: "Codec \<Rightarrow> ValidatorEnv \<Rightarrow> Disk \<Rightarrow> string \<Rightarrow> EditorError + Diagnostic list" where
  "validate_project_file C V disk name = map_res (validate V) (load_project C disk name)"

record ProjectSummary =
  sum_name :: string
  sum_path :: string
  sum_created_at :: string
  sum_updated_at :: string
  sum_operation_count :: nat

definition summary_of :: "string \<Rightarrow> string \<Rightarrow> string \<Rightarrow> EditorError + Project \<Rightarrow> ProjectSummary" where
  "summary_of name path modified loaded =
     (case loaded of
        Inr project \<Rightarrow>
          \<lparr>sum_name = name, sum_path = path, sum_created_at = meta_created_at (prj_metadata project),
           sum_updated_at = meta_updated_at (prj_metadata project),
           sum_operation_count = length (prj_operations project)\<rparr>
      | Inl _ \<Rightarrow>
          \<lparr>sum_name = name, sum_path = path, sum_created_at = ''unknown'', sum_updated_at = modified,
           sum_operation_count = 0\<rparr>)"

text \<open>
  \<open>list_projects\<close>: the entries of the directory, in the order \<open>listing\<close> the operating system gives (with
  \<open>True\<close> for a directory), sorted by name. \<open>modified\<close> is the formatted modification time of a path.
\<close>

definition list_projects :: "Codec \<Rightarrow> string \<Rightarrow> (string \<Rightarrow> string) \<Rightarrow> (bool \<times> string) list \<Rightarrow> Disk \<Rightarrow> ProjectSummary list" where
  "list_projects C projects_dir modified listing disk =
     sort_key sum_name
       (map (\<lambda>(is_dir, name).
          let path = projects_dir @ ''/'' @ name @ (if is_dir then ''.sproject'' else ''.json'')
          in summary_of name path (modified path)
               (if is_dir then load_project_dir C name (map_of (project_dirs disk) name)
                else load_project_from_path C disk name)) listing)"

section \<open>Lemmas\<close>

text \<open>The entry of a list that a map keyed by \<open>key\<close> keeps: the last one with the key of \<open>x\<close>.\<close>

definition last_with :: "('a \<Rightarrow> 'b) \<Rightarrow> 'a list \<Rightarrow> 'a \<Rightarrow> 'a" where
  "last_with key xs x = (case List.find (\<lambda>y. key y = key x) (rev xs) of None \<Rightarrow> x | Some y \<Rightarrow> y)"

lemma find_SomeD: "List.find P xs = Some y \<Longrightarrow> y \<in> set xs \<and> P y"
  by (auto simp: find_Some_iff)

lemma last_with_props:
  assumes "x \<in> set xs"
  shows "List.find (\<lambda>y. key y = key x) (rev xs) = Some (last_with key xs x)"
    "last_with key xs x \<in> set xs" "key (last_with key xs x) = key x"
proof -
  from assms obtain y where y: "List.find (\<lambda>y. key y = key x) (rev xs) = Some y"
    by (cases "List.find (\<lambda>y. key y = key x) (rev xs)") (auto simp: find_None_iff)
  then show "List.find (\<lambda>y. key y = key x) (rev xs) = Some (last_with key xs x)" by (simp add: last_with_def)
  from find_SomeD [OF y] y show "last_with key xs x \<in> set xs" "key (last_with key xs x) = key x"
    by (simp_all add: last_with_def)
qed

lemma last_with_cong: "key x = key y \<Longrightarrow> x \<in> set xs \<Longrightarrow> y \<in> set xs \<Longrightarrow> last_with key xs x = last_with key xs y"
  using last_with_props(1) [of x xs key] last_with_props(1) [of y xs key] by simp

lemma last_with_distinct:
  assumes "distinct (map key xs)" "x \<in> set xs"
  shows "last_with key xs x = x"
proof -
  note p = last_with_props [OF assms(2), of key]
  with assms show ?thesis by (metis distinct_map inj_onD)
qed

definition survives :: "('a \<Rightarrow> string + string) \<Rightarrow> (string \<Rightarrow> string + 'a) \<Rightarrow> 'a \<Rightarrow> bool" where
  "survives enc dec x \<longleftrightarrow> (case enc x of Inl _ \<Rightarrow> False | Inr json \<Rightarrow> dec json = Inr x)"

lemma survivesE:
  assumes "survives enc dec x"
  obtains json where "enc x = Inr json" "dec json = Inr x"
  using assms by (auto simp: survives_def split: sum.splits)

lemma survives_dec: "survives enc dec x \<Longrightarrow> dec (projr (enc x)) = Inr x"
  by (auto elim: survivesE)

lemma write_files_map:
  assumes "\<forall>x\<in>set xs. survives enc dec x"
  shows "\<exists>out. write_files enc name xs files = (Inr (), out)
    \<and> (distinct (map fst files) \<longrightarrow> distinct (map fst out))
    \<and> (\<forall>k. map_of out k =
        (case List.find (\<lambda>x. name x = k) (rev xs) of None \<Rightarrow> map_of files k | Some x \<Rightarrow> Some (projr (enc x))))"
  using assms
proof (induction xs arbitrary: files)
  case Nil
  then show ?case by simp
next
  case (Cons x xs)
  from Cons.prems obtain json where j: "enc x = Inr json" by (auto elim: survivesE)
  from Cons.IH [of "AList.update (name x) json files"] Cons.prems obtain out where out:
    "write_files enc name xs (AList.update (name x) json files) = (Inr (), out)"
    "distinct (map fst (AList.update (name x) json files)) \<longrightarrow> distinct (map fst out)"
    "\<forall>k. map_of out k = (case List.find (\<lambda>x. name x = k) (rev xs) of
        None \<Rightarrow> map_of (AList.update (name x) json files) k | Some x \<Rightarrow> Some (projr (enc x)))"
    by auto
  have "List.find (\<lambda>y. name y = k) (rev (x # xs)) =
      (case List.find (\<lambda>y. name y = k) (rev xs) of None \<Rightarrow> if name x = k then Some x else None | Some y \<Rightarrow> Some y)" for k
    by (simp add: find_append split: option.splits)
  with out j show ?case
    by (auto simp: distinct_update update_conv' split: option.splits)
qed

lemma read_files_all:
  "(\<And>name json. (name, json) \<in> set files \<Longrightarrow> \<exists>x. dec json = Inr x)
     \<Longrightarrow> read_files dec files = Inr (map (\<lambda>f. projr (dec (snd f))) files)"
proof (induction files)
  case (Cons f files)
  obtain name json where f: "f = (name, json)" by (metis surj_pair)
  with Cons.prems [of name json] obtain x where "dec json = Inr x" by auto
  with Cons f show ?case by auto
qed simp

lemma map_of_keyed:
  assumes "\<And>y z. y \<in> set ys \<Longrightarrow> z \<in> set ys \<Longrightarrow> key y = key z \<Longrightarrow> y = z" and "y \<in> set ys"
  shows "map_of (map (\<lambda>x. (key x, x)) ys) (key y) = Some y"
  using assms
proof (induction ys)
  case (Cons a ys)
  show ?case
  proof (cases "key a = key y")
    case True
    with Cons.prems(1) [of a y] Cons.prems(2) show ?thesis by simp
  next
    case False
    with Cons show ?thesis by auto
  qed
qed simp

lemma map_of_last_with:
  assumes ys: "set ys = last_with key xs ` set xs" and x: "x \<in> set xs"
  shows "map_of (rev (map (\<lambda>x. (key x, x)) ys)) (key x) = Some (last_with key xs x)"
proof -
  have "y = z" if mem: "y \<in> set (rev ys)" "z \<in> set (rev ys)" and "key y = key z" for y z
  proof -
    from mem ys obtain a b where ab: "a \<in> set xs" "y = last_with key xs a" "b \<in> set xs" "z = last_with key xs b" by auto
    with that(3) have "key a = key b" using last_with_props(3) [of a xs key] last_with_props(3) [of b xs key] by simp
    from last_with_cong [OF this ab(1,3)] ab(2,4) show ?thesis by simp
  qed
  moreover have "last_with key xs x \<in> set (rev ys)" using ys x by simp
  ultimately have "map_of (map (\<lambda>x. (key x, x)) (rev ys)) (key (last_with key xs x)) = Some (last_with key xs x)"
    by (rule map_of_keyed)
  then show ?thesis unfolding last_with_props(3) [OF x] rev_map .
qed

lemma map_filter_map_Some:
  "(\<And>x. x \<in> set xs \<Longrightarrow> f (g x) = Some (h x)) \<Longrightarrow> List.map_filter f (map g xs) = map h xs"
  by (induction xs) (auto simp: List.map_filter_def)

text \<open>Writing a list to files named after a key and reading the files back in the order of the list.\<close>

lemma files_roundtrip:
  assumes surv: "\<forall>x\<in>set xs. survives enc dec x" and inj: "inj text"
    and scan: "\<And>fs. set (sc fs) = set fs"
  shows "\<exists>files. write_files enc (\<lambda>x. text (key x)) xs [] = (Inr (), files)
    \<and> (\<exists>ys. read_files dec (sc files) = Inr ys \<and> in_index_order key ys (map key xs) = map (last_with key xs) xs)"
proof -
  let ?last = "last_with key xs"
  from write_files_map [OF surv, of "\<lambda>x. text (key x)" "[]"] obtain files where
    w: "write_files enc (\<lambda>x. text (key x)) xs [] = (Inr (), files)" and d: "distinct (map fst files)"
    and m: "\<And>k. map_of files k = (case List.find (\<lambda>x. text (key x) = k) (rev xs) of
        None \<Rightarrow> map_of [] k | Some x \<Rightarrow> Some (projr (enc x)))" by auto
  have eq: "(\<lambda>x. text (key x) = text (key y)) = (\<lambda>x. key x = key y)" for y
    using inj by (auto simp: inj_eq)
  have in_files: "(k, json) \<in> set files \<longleftrightarrow> (\<exists>x\<in>set xs. k = text (key x) \<and> json = projr (enc (?last x)))" for k json
  proof
    assume "(k, json) \<in> set files"
    with d have "map_of files k = Some json" by simp
    with m [of k] obtain x where x: "List.find (\<lambda>x. text (key x) = k) (rev xs) = Some x" "json = projr (enc x)"
      by (auto split: option.splits)
    with find_SomeD [OF x(1)] have "x \<in> set xs" "k = text (key x)" by auto
    moreover from this x(1) have "?last x = x" by (simp add: last_with_def eq)
    ultimately show "\<exists>x\<in>set xs. k = text (key x) \<and> json = projr (enc (?last x))" using x(2) by auto
  next
    assume "\<exists>x\<in>set xs. k = text (key x) \<and> json = projr (enc (?last x))"
    then obtain x where x: "x \<in> set xs" "k = text (key x)" "json = projr (enc (?last x))" by blast
    with m [of k] last_with_props(1) [OF x(1), of key] have "map_of files k = Some json" by (simp add: eq)
    then show "(k, json) \<in> set files" by (rule map_of_SomeD)
  qed
  have dec: "dec (projr (enc (?last x))) = Inr (?last x)" if "x \<in> set xs" for x
    using surv last_with_props(2) [OF that, of key] by (simp add: survives_dec)
  have read: "read_files dec (sc files) = Inr (map (\<lambda>f. projr (dec (snd f))) (sc files))"
    by (rule read_files_all) (auto simp: scan in_files dec)
  let ?ys = "map (\<lambda>f. projr (dec (snd f))) (sc files)"
  have ys: "set ?ys = ?last ` set xs"
  proof -
    have "set ?ys = (\<lambda>f. projr (dec (snd f))) ` set files" by (simp add: scan)
    also have "set files = (\<lambda>x. (text (key x), projr (enc (?last x)))) ` set xs"
      using in_files by (auto simp: image_iff)
    finally show ?thesis by (simp add: image_image dec)
  qed
  have "map_of (rev (map (\<lambda>x. (key x, x)) ?ys)) (key x) = Some (?last x)" if "x \<in> set xs" for x
    by (rule map_of_last_with [OF ys that])
  then have "in_index_order key ?ys (map key xs) = map ?last xs"
    unfolding in_index_order_def by (rule map_filter_map_Some)
  with w read show ?thesis by blast
qed

lemma load_project_cong:
  "map_of (json_files d) name = map_of (json_files d') name \<Longrightarrow> map_of (project_dirs d) name = map_of (project_dirs d') name
     \<Longrightarrow> load_project C d name = load_project C d' name"
  by (cases "validate_name name")
    (simp_all add: load_project_def load_resolved_def resolve_project_path_def load_project_from_path_def
      split: PathResolution.split)

lemma loadable_name: "load_project C disk name = Inr project \<Longrightarrow> name_taken disk name"
  by (auto simp: load_project_def load_resolved_def resolve_project_path_def load_project_from_path_def name_taken_def
      split: sum.splits if_splits option.splits)

lemma created_disk:
  "create_project C fresh now disk name = (Inr created, disk1) \<Longrightarrow>
     \<not> name_taken disk name \<and> validate_name name = Inr ()
     \<and> (\<exists>json. enc_project C (new_project fresh now name) = Inr json
          \<and> disk1 = disk\<lparr>json_files := AList.update name json (json_files disk)\<rparr>)"
  by (auto simp: create_project_def save_project_to_path_def Let_def split: sum.splits if_splits prod.splits)

lemma saved_disk:
  assumes "save_project C disk project = (Inr (), disk')" and "name \<noteq> meta_name (prj_metadata project)"
  shows "map_of (json_files disk') name = map_of (json_files disk) name"
    "map_of (project_dirs disk') name = map_of (project_dirs disk) name"
  using assms
  by (auto simp: save_project_def save_dir_as_def save_project_to_path_def Let_def update_conv'
      split: sum.splits if_splits prod.splits)

section \<open>Properties\<close>

text \<open>C13: Saving a project in the directory form, over whatever the directory held before, succeeds, and loading the
directory gives the project back, whatever order the operating system lists the files in - except that operations (and
areas) which share an id all come back as the last of them, because one file holds them all. So a project with distinct
ids comes back unchanged.\<close>

theorem project_dir_roundtrip:
  assumes "survives (enc_index C) (dec_index C) (dir_index_of project)"
    and "\<forall>operation\<in>set (prj_operations project). survives (enc_operation C) (dec_operation C) operation"
    and "\<forall>area\<in>set (prj_areas project). survives (enc_area C) (dec_area C) area"
    and "inj (uuid_text C)" and "\<And>files. set (scan C files) = set files"
  shows "\<exists>dir. save_project_dir C old project = (Inr (), dir)
    \<and> load_project_dir C name (Some dir) = Inr (project
        \<lparr>prj_operations := map (last_with op_id (prj_operations project)) (prj_operations project),
         prj_areas := map (last_with area_id (prj_areas project)) (prj_areas project)\<rparr>)
    \<and> (distinct (map op_id (prj_operations project)) \<and> distinct (map area_id (prj_areas project))
        \<longrightarrow> load_project_dir C name (Some dir) = Inr project)"
proof -
  obtain json where ix: "enc_index C (dir_index_of project) = Inr json" "dec_index C json = Inr (dir_index_of project)"
    using assms(1) by (rule survivesE)
  obtain ofiles ops where o: "write_files (enc_operation C) (\<lambda>operation. uuid_text C (op_id operation)) (prj_operations project) []
      = (Inr (), ofiles)" "read_files (dec_operation C) (scan C ofiles) = Inr ops"
      "in_index_order op_id ops (map op_id (prj_operations project)) = map (last_with op_id (prj_operations project)) (prj_operations project)"
    using files_roundtrip [OF assms(2,4,5), of op_id] by auto
  obtain afiles areas where a: "write_files (enc_area C) (\<lambda>area. uuid_text C (area_id area)) (prj_areas project) []
      = (Inr (), afiles)" "read_files (dec_area C) (scan C afiles) = Inr areas"
      "in_index_order area_id areas (map area_id (prj_areas project)) = map (last_with area_id (prj_areas project)) (prj_areas project)"
    using files_roundtrip [OF assms(3,4,5), of area_id] by auto
  let ?dir = "\<lparr>pd_index = Some json, pd_operations = ofiles, pd_areas = afiles\<rparr>"
  have save: "save_project_dir C old project = (Inr (), ?dir)"
    by (simp add: save_project_dir_def Let_def ix o(1) a(1) empty_dir_def split: option.split)
  have names: "map opix_id (pdi_operations (dir_index_of project)) = map op_id (prj_operations project)"
    "map arix_id (pdi_areas (dir_index_of project)) = map area_id (prj_areas project)"
    by (simp_all add: dir_index_of_def comp_def)
  have load: "load_project_dir C name (Some ?dir) = Inr (project
        \<lparr>prj_operations := map (last_with op_id (prj_operations project)) (prj_operations project),
         prj_areas := map (last_with area_id (prj_areas project)) (prj_areas project)\<rparr>)"
    by (simp add: load_project_dir_def ix(2) o(2,3) a(2,3) names) (simp add: into_project_def dir_index_of_def)
  moreover have "map (last_with op_id (prj_operations project)) (prj_operations project) = prj_operations project"
    if "distinct (map op_id (prj_operations project))"
    using last_with_distinct [OF that] by (simp add: map_idI)
  moreover have "map (last_with area_id (prj_areas project)) (prj_areas project) = prj_areas project"
    if "distinct (map area_id (prj_areas project))"
    using last_with_distinct [OF that] by (simp add: map_idI)
  ultimately show ?thesis using save by auto
qed

definition twin_a :: Operation where
  "twin_a = (Operation_new 1 ''Elwynn'')"

definition twin_b :: Operation where
  "twin_b = (Operation_new 1 ''Westfall'')"

definition project4 :: Project where
  "project4 = (new_project 7 ''now'' ''route'')\<lparr>prj_operations := [twin_a, Operation_new 2 ''Loch'', twin_b]\<rparr>"

definition C4 :: Codec where
  "C4 = \<lparr>enc_project = (\<lambda>_. Inl ''unused''), dec_project = (\<lambda>_. Inl ''unused''),
    enc_index = (\<lambda>_. Inr ''index''), dec_index = (\<lambda>_. Inr (dir_index_of project4)),
    enc_operation = (\<lambda>operation. Inr (op_name operation)),
    dec_operation = (\<lambda>json. Inr (if json = ''Elwynn'' then twin_a else if json = ''Loch'' then Operation_new 2 ''Loch'' else twin_b)),
    enc_area = (\<lambda>_. Inl ''unused''), dec_area = (\<lambda>_. Inl ''unused''), enc_profile = (\<lambda>_. Inl ''unused''),
    uuid_text = (\<lambda>u. replicate (unat u) (CHR ''x'')), scan = rev\<rparr>"

lemma project_dir_roundtrip_witness:
  "\<exists>dir. save_project_dir C4 None project4 = (Inr (), dir)
    \<and> load_project_dir C4 ''route'' (Some dir) = Inr (project4\<lparr>prj_operations := [twin_b, Operation_new 2 ''Loch'', twin_b]\<rparr>)"
proof -
  have h1: "survives (enc_index C4) (dec_index C4) (dir_index_of project4)"
    by (simp add: survives_def C4_def)
  have h2: "\<forall>operation\<in>set (prj_operations project4). survives (enc_operation C4) (dec_operation C4) operation"
    by (simp add: survives_def C4_def project4_def twin_a_def twin_b_def Operation_new_def)
  have h3: "\<forall>area\<in>set (prj_areas project4). survives (enc_area C4) (dec_area C4) area"
    by (simp add: project4_def new_project_def)
  have h4: "inj (uuid_text C4)"
    by (rule injI) (simp add: C4_def replicate_eq_replicate word_unat_eq_iff)
  have h5: "set (scan C4 fs) = set fs" for fs by (simp add: C4_def)
  have "map (last_with op_id (prj_operations project4)) (prj_operations project4) = [twin_b, Operation_new 2 ''Loch'', twin_b]"
    by (simp add: project4_def last_with_def twin_a_def twin_b_def Operation_new_def)
  moreover have "project4\<lparr>prj_operations := x, prj_areas := map (last_with area_id (prj_areas project4)) (prj_areas project4)\<rparr>
    = project4\<lparr>prj_operations := x\<rparr>" for x
    by (simp add: project4_def new_project_def)
  ultimately show ?thesis
    using project_dir_roundtrip [OF h1 h2 h3 h4 h5, of None "''route''"] by auto
qed

text \<open>duplicating a project copies its operations, areas, libraries, variables and settings and leaves the source
as it is, but neither its guide headers nor its import record: the copy has the defaults of a new project, so the
guide it compiles to has lost its name, group and successors.\<close>

theorem duplicate_drops_headers:
  assumes "duplicate_project C fresh now later disk name new_name = (Inr duplicate, disk')"
    and "load_project C disk name = Inr project"
    and "survives (enc_project C) (dec_project C) (new_project fresh now new_name)"
  shows "prj_guide_headers duplicate = GuideHeaders_default \<and> prj_import_metadata duplicate = None
    \<and> meta_name (prj_metadata duplicate) = new_name
    \<and> prj_operations duplicate = prj_operations project \<and> prj_areas duplicate = prj_areas project
    \<and> prj_variables duplicate = prj_variables project \<and> prj_settings duplicate = prj_settings project
    \<and> prj_npc_library duplicate = prj_npc_library project \<and> prj_quest_library duplicate = prj_quest_library project
    \<and> load_project C disk' name = Inr project"
proof -
  note pm = new_project_def
  obtain created disk1 where c: "create_project C fresh now disk new_name = (Inr created, disk1)"
    using assms(1,2) by (auto simp: duplicate_project_def split: prod.splits sum.splits)
  from loadable_name [OF assms(2)] have n: "name_taken disk name" .
  from created_disk [OF c] have free: "\<not> name_taken disk new_name"
    and d1: "\<exists>json. enc_project C (new_project fresh now new_name) = Inr json
      \<and> disk1 = disk\<lparr>json_files := AList.update new_name json (json_files disk)\<rparr>"
    and ok: "validate_name new_name = Inr ()" by auto
  from n free have ne: "name \<noteq> new_name" by auto
  obtain json where json: "enc_project C (new_project fresh now new_name) = Inr json"
    and disk1: "disk1 = disk\<lparr>json_files := AList.update new_name json (json_files disk)\<rparr>" using d1 by auto
  have l1: "load_project C disk1 new_name = Inr (new_project fresh now new_name)"
    using survives_dec [OF assms(3)] json ok
    by (simp add: load_project_def load_resolved_def resolve_project_path_def load_project_from_path_def disk1 update_conv')
  from assms(1) have dup: "duplicate = copy_contents later project (new_project fresh now new_name)"
    and saved: "save_project C disk1 duplicate = (Inr (), disk')"
    by (auto simp: duplicate_project_def assms(2) c l1 Let_def split: prod.splits)
  have name': "meta_name (prj_metadata duplicate) = new_name" by (simp add: dup copy_contents_def pm)
  from saved_disk [OF saved, of name] name' ne have "load_project C disk' name = load_project C disk1 name"
    by (intro load_project_cong) auto
  also have "\<dots> = load_project C disk name"
    using ne by (intro load_project_cong) (simp_all add: disk1 update_conv')
  finally have "load_project C disk' name = Inr project" using assms(2) by simp
  with name' show ?thesis by (simp add: dup copy_contents_def pm)
qed

definition C5 :: Codec where
  "C5 = C4\<lparr>enc_project := (\<lambda>project. Inr (meta_name (prj_metadata project))),
    dec_project := (\<lambda>json. Inr (if json = ''copy'' then new_project 9 ''now'' ''copy''
       else project4\<lparr>prj_guide_headers := GuideHeaders_default\<lparr>gh_source_version := Some 3\<rparr>\<rparr>))\<rparr>"

definition disk5 :: Disk where
  "disk5 = \<lparr>json_files = [(''route'', ''route'')], project_dirs = []\<rparr>"

lemma duplicate_drops_headers_witness:
  "\<exists>duplicate. fst (duplicate_project C5 9 ''now'' ''later'' disk5 ''route'' ''copy'') = Inr duplicate
    \<and> prj_guide_headers duplicate = GuideHeaders_default"
proof -
  let ?r = "duplicate_project C5 9 ''now'' ''later'' disk5 ''route'' ''copy''"
  have "isl (fst ?r) = False" by code_simp
  then have r: "?r = (Inr (projr (fst ?r)), snd ?r)" by (cases ?r; cases "fst ?r") auto
  have v: "validate_name ''route'' = Inr ()" by code_simp
  have l: "load_project C5 disk5 ''route'' = Inr (project4\<lparr>prj_guide_headers := GuideHeaders_default\<lparr>gh_source_version := Some 3\<rparr>\<rparr>)"
    by (simp add: load_project_def load_resolved_def resolve_project_path_def load_project_from_path_def v disk5_def C5_def)
  have "survives (enc_project C5) (dec_project C5) (new_project 9 ''now'' ''copy'')"
    by (simp add: survives_def C5_def new_project_def)
  from duplicate_drops_headers [OF r l this] r show ?thesis by (metis fst_conv)
qed

end
