(* ===== verification/Float32.thy ===== *)
theory Float32
  imports Prelude
begin

text \<open>
  IEEE binary32 arithmetic on bit patterns, as Rust's \<open>f32\<close> computes it: exact values are ratios of natural
  numbers with a sign, and one rounding (to nearest, ties to even) gives the result of each operation and of
  \<open>str::parse::<f32>\<close>. A NaN result has the canonical payload, which the language leaves open.
\<close>

section \<open>Values\<close>

definition f32_exp_bits :: "f32 \<Rightarrow> nat" where
  "f32_exp_bits x = unat (drop_bit 23 x AND 0xFF)"

definition f32_fraction :: "f32 \<Rightarrow> nat" where
  "f32_fraction x = unat (x AND 0x007FFFFF)"

text \<open>A finite \<open>x\<close> is \<open>\<plusminus> f32_mantissa x * 2 powr f32_exponent x\<close>.\<close>

definition f32_mantissa :: "f32 \<Rightarrow> nat" where
  "f32_mantissa x = (if f32_exp_bits x = 0 then f32_fraction x else f32_fraction x + 2 ^ 23)"

definition f32_exponent :: "f32 \<Rightarrow> int" where
  "f32_exponent x = (if f32_exp_bits x = 0 then - 149 else int (f32_exp_bits x) - 150)"

definition f32_is_inf :: "f32 \<Rightarrow> bool" where
  "f32_is_inf x \<longleftrightarrow> x AND 0x7FFFFFFF = 0x7F800000"

definition f32_nan :: f32 where "f32_nan = 0x7FC00000"

definition with_sign :: "bool \<Rightarrow> f32 \<Rightarrow> f32" where
  "with_sign s x = (if s then x OR 0x80000000 else x)"

definition f32_neg :: "f32 \<Rightarrow> f32" where
  "f32_neg x = x XOR 0x80000000"

section \<open>Rounding\<close>

fun bit_count :: "nat \<Rightarrow> nat" where
  "bit_count n = (if n = 0 then 0 else Suc (bit_count (n div 2)))"

declare bit_count.simps [simp del]

definition half_even :: "nat \<Rightarrow> nat \<Rightarrow> nat" where
  "half_even a b =
     (let n = a div b; r = a mod b
      in if 2 * r < b then n else if 2 * r > b then n + 1 else if even n then n else n + 1)"

text \<open>The numerator and denominator of \<open>p / q / 2 powr e\<close>.\<close>

definition scaled :: "nat \<Rightarrow> nat \<Rightarrow> int \<Rightarrow> nat \<times> nat" where
  "scaled p q e = (if e \<ge> 0 then (p, q * 2 ^ nat e) else (p * 2 ^ nat (- e), q))"

text \<open>The exponent of the last place of \<open>p / q\<close>: 24 bits remain before the point, or the subnormal exponent.\<close>

definition ulp_exponent :: "nat \<Rightarrow> nat \<Rightarrow> int" where
  "ulp_exponent p q =
     (let e = int (bit_count p) - int (bit_count q) - 24; (a, b) = scaled p q e
      in max (- 149) (if a \<ge> b * 2 ^ 24 then e + 1 else e))"

definition round_ratio :: "bool \<Rightarrow> nat \<Rightarrow> nat \<Rightarrow> f32" where
  "round_ratio s p q =
     with_sign s
       (if p = 0 then 0
        else let e = ulp_exponent p q; (a, b) = scaled p q e;
                 bits = half_even a b + nat (e + 149) * 2 ^ 23
             in if bits \<ge> 0x7F800000 then 0x7F800000 else of_nat bits)"

text \<open>\<open>n * 2 powr e\<close>, rounded.\<close>

definition round_scaled :: "bool \<Rightarrow> nat \<Rightarrow> int \<Rightarrow> f32" where
  "round_scaled s n e = (if e \<ge> 0 then round_ratio s (n * 2 ^ nat e) 1 else round_ratio s n (2 ^ nat (- e)))"

section \<open>Arithmetic\<close>

definition signed_at :: "f32 \<Rightarrow> int \<Rightarrow> int" where
  "signed_at x e =
     (let n = int (f32_mantissa x) * 2 ^ nat (f32_exponent x - e) in if f32_sign x then - n else n)"

definition f32_add :: "f32 \<Rightarrow> f32 \<Rightarrow> f32" where
  "f32_add x y =
     (if f32_is_nan x \<or> f32_is_nan y then f32_nan
      else if f32_is_inf x then (if f32_is_inf y \<and> f32_sign x \<noteq> f32_sign y then f32_nan else x)
      else if f32_is_inf y then y
      else let e = min (f32_exponent x) (f32_exponent y); n = signed_at x e + signed_at y e
           in if n = 0 then with_sign (f32_sign x \<and> f32_sign y) 0
              else round_scaled (n < 0) (nat \<bar>n\<bar>) e)"

definition f32_sub :: "f32 \<Rightarrow> f32 \<Rightarrow> f32" where
  "f32_sub x y = (if f32_is_nan y then f32_nan else f32_add x (f32_neg y))"

definition f32_mul :: "f32 \<Rightarrow> f32 \<Rightarrow> f32" where
  "f32_mul x y =
     (let s = (f32_sign x \<noteq> f32_sign y)
      in if f32_is_nan x \<or> f32_is_nan y then f32_nan
         else if f32_is_inf x \<or> f32_is_inf y
         then (if f32_is_zero x \<or> f32_is_zero y then f32_nan else with_sign s 0x7F800000)
         else round_scaled s (f32_mantissa x * f32_mantissa y) (f32_exponent x + f32_exponent y))"

definition f32_div :: "f32 \<Rightarrow> f32 \<Rightarrow> f32" where
  "f32_div x y =
     (let s = (f32_sign x \<noteq> f32_sign y); e = f32_exponent x - f32_exponent y
      in if f32_is_nan x \<or> f32_is_nan y then f32_nan
         else if f32_is_inf x then (if f32_is_inf y then f32_nan else with_sign s 0x7F800000)
         else if f32_is_inf y then with_sign s 0
         else if f32_is_zero y then (if f32_is_zero x then f32_nan else with_sign s 0x7F800000)
         else if e \<ge> 0 then round_ratio s (f32_mantissa x * 2 ^ nat e) (f32_mantissa y)
         else round_ratio s (f32_mantissa x) (f32_mantissa y * 2 ^ nat (- e)))"

section \<open>Comparison, clamping and rounding to an integer\<close>

definition f32_key :: "f32 \<Rightarrow> int" where
  "f32_key x = (let n = int (unat (x AND 0x7FFFFFFF)) in if f32_sign x then - n else n)"

definition f32_less :: "f32 \<Rightarrow> f32 \<Rightarrow> bool" where
  "f32_less x y \<longleftrightarrow> \<not> f32_is_nan x \<and> \<not> f32_is_nan y \<and> f32_key x < f32_key y"

definition f32_le :: "f32 \<Rightarrow> f32 \<Rightarrow> bool" where
  "f32_le x y \<longleftrightarrow> \<not> f32_is_nan x \<and> \<not> f32_is_nan y \<and> f32_key x \<le> f32_key y"

definition f32_clamp :: "f32 \<Rightarrow> f32 \<Rightarrow> f32 \<Rightarrow> f32" where
  "f32_clamp x lower upper = (if f32_less x lower then lower else if f32_less upper x then upper else x)"

text \<open>\<open>r.round() as u16\<close>: half away from zero, saturating, NaN is zero.\<close>

definition f32_round_u16 :: "f32 \<Rightarrow> u16" where
  "f32_round_u16 x =
     (if f32_is_nan x \<or> f32_sign x then 0
      else if f32_is_inf x then 65535
      else let e = f32_exponent x; m = f32_mantissa x;
               n = (if e \<ge> 0 then m * 2 ^ nat e else (m + 2 ^ (nat (- e) - 1)) div 2 ^ nat (- e))
           in of_nat (min n 65535))"

section \<open>Parsing\<close>

text \<open>Leading decimal digits, and the rest.\<close>

definition take_digits :: "string \<Rightarrow> string \<times> string" where
  "take_digits s = (takeWhile ascii_digit s, dropWhile ascii_digit s)"

definition digits_nat :: "string \<Rightarrow> nat" where
  "digits_nat s = (case digits_val 0 s of None \<Rightarrow> 0 | Some n \<Rightarrow> n)"

definition take_sign :: "string \<Rightarrow> bool \<times> string" where
  "take_sign s =
     (case s of
        [] \<Rightarrow> (False, [])
      | c # cs \<Rightarrow> if c = CHR ''-'' then (True, cs) else if c = CHR ''+'' then (False, cs) else (False, s))"

text \<open>The exponent part: nothing, or \<open>e\<close> with an optional sign and at least one digit.\<close>

definition parse_exponent :: "string \<Rightarrow> int option" where
  "parse_exponent s =
     (case s of
        [] \<Rightarrow> Some 0
      | c # cs \<Rightarrow>
          if c \<noteq> CHR ''e'' \<and> c \<noteq> CHR ''E'' then None
          else let (negative, ds) = take_sign cs
               in case parse_digits ds of
                    None \<Rightarrow> None
                  | Some n \<Rightarrow> Some (if negative then - int n else int n))"

text \<open>\<open>10 powr e\<close> times a natural number.\<close>

definition round_decimal :: "bool \<Rightarrow> nat \<Rightarrow> int \<Rightarrow> f32" where
  "round_decimal s n e =
     (if e \<ge> 0 then round_ratio s (n * 10 ^ nat e) 1 else round_ratio s n (10 ^ nat (- e)))"

definition parse_decimal :: "bool \<Rightarrow> string \<Rightarrow> f32 option" where
  "parse_decimal s text =
     (let (whole, rest) = take_digits text;
          (fraction, rest') =
            (case strip_prefix_char (CHR ''.'') rest of None \<Rightarrow> ([], rest) | Some after \<Rightarrow> take_digits after)
      in if whole = [] \<and> fraction = [] then None
         else map_option (\<lambda>e. round_decimal s (digits_nat (whole @ fraction)) (e - int (length fraction)))
                (parse_exponent rest'))"

definition parse_f32 :: "string \<Rightarrow> f32 option" where
  "parse_f32 text =
     (let (s, body) = take_sign text; name = to_ascii_lowercase body
      in if name = ''inf'' \<or> name = ''infinity'' then Some (with_sign s 0x7F800000)
         else if name = ''nan'' then Some (with_sign s f32_nan)
         else parse_decimal s body)"

text \<open>The bits of a decimal literal of the source.\<close>

definition f32_lit :: "string \<Rightarrow> f32" where
  "f32_lit text = (case parse_f32 text of None \<Rightarrow> f32_nan | Some x \<Rightarrow> x)"

end
