(* ===== verification/Zone_Map.thy ===== *)
theory Zone_Map
  imports Float32
begin

text \<open>
  The zone table and the coordinate transform (\<^verbatim>\<open>shared/src/zone.rs\<close>, \<^verbatim>\<open>shared/src/movement.rs\<close>): a movement
  line gives percentages of a zone or, marked by a slash in its first field, world coordinates.
\<close>

section \<open>String operations\<close>

text \<open>\<open>u8::is_ascii_alphanumeric\<close>.\<close>

definition ascii_alnum :: "char \<Rightarrow> bool" where
  "ascii_alnum c \<longleftrightarrow> ascii_digit c \<or> ascii_lower c \<or> ascii_upper c"

section \<open>The zone table\<close>

record ZoneMap =
  zm_continent :: u32
  zm_top :: f32
  zm_left :: f32
  zm_bottom :: f32
  zm_right :: f32

definition to_world :: "ZoneMap \<Rightarrow> f32 \<Rightarrow> f32 \<Rightarrow> f32 \<times> f32" where
  "to_world z pct_x pct_y =
     (let mx = f32_div pct_x (f32_lit ''100.0''); my = f32_div pct_y (f32_lit ''100.0'')
      in (f32_add (zm_top z) (f32_mul my (f32_sub (zm_bottom z) (zm_top z))),
          f32_add (zm_left z) (f32_mul mx (f32_sub (zm_right z) (zm_left z)))))"

definition zone_row :: "u32 \<Rightarrow> string \<Rightarrow> string \<Rightarrow> string \<Rightarrow> string \<Rightarrow> ZoneMap" where
  "zone_row continent t l b r =
     \<lparr>zm_continent = continent, zm_top = f32_lit t, zm_left = f32_lit l, zm_bottom = f32_lit b,
      zm_right = f32_lit r\<rparr>"

type_synonym ZoneRow = "u32 \<times> string list \<times> ZoneMap"

text \<open>The rows of the vanilla continents, the battlegrounds and Outland, in the order of the source.\<close>

definition ZONE_TABLE :: "ZoneRow list" where
  "ZONE_TABLE =
  [
   (1411, [''Durotar''], zone_row 1 ''1808.3333'' ''-1962.4999'' ''-1716.6666'' ''-7249.9995''),
   (1412, [''Mulgore''], zone_row 1 ''-272.91666'' ''2047.9166'' ''-3697.9165'' ''-3089.5833''),
   (1413, [''Barrens'', ''The Barrens''], zone_row 1 ''1612.4999'' ''2622.9165'' ''-5143.75'' ''-7510.4165''),
   (1414, [''Kalimdor''], zone_row 1 ''12799.9'' ''17066.6'' ''-11733.3'' ''-19733.21''),
   (1415, [''Azeroth'', ''Eastern Kingdoms''], zone_row 0 ''11176.344'' ''18171.97'' ''-15973.344'' ''-22569.21''),
   (1416, [''Alterac'', ''Alterac Mountains''], zone_row 0 ''1500.0'' ''783.3333'' ''-366.66666'' ''-2016.6666''),
   (1417, [''Arathi'', ''Arathi Highlands''], zone_row 0 ''-133.33333'' ''-866.6666'' ''-2533.3333'' ''-4466.6665''),
   (1418, [''Badlands''], zone_row 0 ''-5889.583'' ''-2079.1665'' ''-7547.9165'' ''-4566.6665''),
   (1419, [''BlastedLands''], zone_row 0 ''-10566.666'' ''-1241.6666'' ''-12800.0'' ''-4591.6665''),
   (1420, [''Tirisfal'', ''Tirisfal Glades''], zone_row 0 ''3837.4998'' ''3033.3333'' ''824.99994'' ''-1485.4166''),
   (1421, [''Silverpine'', ''Silverpine Forest''], zone_row 0 ''1666.6666'' ''3449.9998'' ''-1133.3333'' ''-750.0''),
   (1422, [''WesternPlaguelands''], zone_row 0 ''3366.6665'' ''416.66666'' ''499.99997'' ''-3883.3333''),
   (1423, [''EasternPlaguelands''], zone_row 0 ''3799.9998'' ''-2185.4165'' ''1218.75'' ''-6056.25''),
   (1424, [''Hilsbrad'', ''Hillsbrad Foothills''], zone_row 0 ''400.0'' ''1066.6666'' ''-1733.3333'' ''-2133.3333''),
   (1425, [''Hinterlands'', ''The Hinterlands''], zone_row 0 ''1466.6666'' ''-1575.0'' ''-1100.0'' ''-5425.0''),
   (1426, [''DunMorogh''], zone_row 0 ''-3877.0833'' ''1802.0833'' ''-7160.4165'' ''-3122.9165''),
   (1427, [''SearingGorge''], zone_row 0 ''-6100.0'' ''-322.91666'' ''-7587.4995'' ''-2554.1665''),
   (1428, [''BurningSteppes''], zone_row 0 ''-7031.2495'' ''-266.66666'' ''-8983.333'' ''-3195.8333''),
   (1429, [''Elwynn'', ''Elwynn Forest''], zone_row 0 ''-7939.583'' ''1535.4166'' ''-10254.166'' ''-1935.4166''),
   (1430, [''DeadwindPass''], zone_row 0 ''-9866.666'' ''-833.3333'' ''-11533.333'' ''-3333.3333''),
   (1431, [''Duskwood''], zone_row 0 ''-9716.666'' ''833.3333'' ''-11516.666'' ''-1866.6666''),
   (1432, [''LochModan''], zone_row 0 ''-4487.5'' ''-1993.7499'' ''-6327.083'' ''-4752.083''),
   (1433, [''Redridge'', ''Redridge Mountains''], zone_row 0 ''-8575.0'' ''-1570.8333'' ''-10022.916'' ''-3741.6665''),
   (1434, [''Stranglethorn'', ''Stranglethorn Vale''], zone_row 0 ''-11168.75'' ''2220.8333'' ''-15422.916'' ''-4160.4165''),
   (1435, [''SwampOfSorrows''], zone_row 0 ''-9620.833'' ''-2222.9165'' ''-11150.0'' ''-4516.6665''),
   (1436, [''Westfall''], zone_row 0 ''-9400.0'' ''3016.6665'' ''-11733.333'' ''-483.3333''),
   (1437, [''Wetlands''], zone_row 0 ''-2147.9165'' ''-389.5833'' ''-4904.1665'' ''-4525.0''),
   (1438, [''Teldrassil''], zone_row 1 ''11831.25'' ''3814.5833'' ''8437.5'' ''-1277.0833''),
   (1439, [''Darkshore''], zone_row 1 ''8333.333'' ''2941.6665'' ''3966.6665'' ''-3608.3333''),
   (1440, [''Ashenvale''], zone_row 1 ''4672.9165'' ''1699.9999'' ''829.1666'' ''-4066.6665''),
   (1441, [''ThousandNeedles''], zone_row 1 ''-3966.6665'' ''-433.3333'' ''-6899.9995'' ''-4833.333''),
   (1442, [''StonetalonMountains''], zone_row 1 ''2916.6665'' ''3245.8333'' ''-339.5833'' ''-1637.4999''),
   (1443, [''Desolace''], zone_row 1 ''452.0833'' ''4233.333'' ''-2545.8333'' ''-262.5''),
   (1444, [''Feralas''], zone_row 1 ''-2366.6665'' ''5441.6665'' ''-6999.9995'' ''-1508.3333''),
   (1445, [''Dustwallow'', ''Dustwallow Marsh''], zone_row 1 ''-2033.3333'' ''-974.99994'' ''-5533.333'' ''-6225.0''),
   (1446, [''Tanaris''], zone_row 1 ''-5875.0'' ''-218.74998'' ''-10475.0'' ''-7118.7495''),
   (1447, [''Aszhara'', ''Azshara''], zone_row 1 ''5341.6665'' ''-3277.0833'' ''1960.4166'' ''-8347.916''),
   (1448, [''Felwood''], zone_row 1 ''7133.333'' ''1641.6666'' ''3299.9998'' ''-4108.333''),
   (1449, [''UngoroCrater''], zone_row 1 ''-5966.6665'' ''533.3333'' ''-8433.333'' ''-3166.6665''),
   (1450, [''Moonglade''], zone_row 1 ''8491.666'' ''-1381.25'' ''6952.083'' ''-3689.5833''),
   (1451, [''Silithus''], zone_row 1 ''-5958.334'' ''2537.5'' ''-8281.25'' ''-945.834''),
   (1452, [''Winterspring''], zone_row 1 ''8533.333'' ''-316.66666'' ''3799.9998'' ''-7416.6665''),
   (1453, [''Stormwind'', ''Stormwind City'', ''StormwindClassic''], zone_row 0 ''-8278.851'' ''1380.9714'' ''-9175.205'' ''36.70063''),
   (1454, [''Ogrimmar'', ''Orgrimmar''], zone_row 1 ''2273.8772'' ''-3680.601'' ''1338.4606'' ''-5083.2056''),
   (1455, [''Ironforge''], zone_row 0 ''-4569.241'' ''-713.5914'' ''-5096.8457'' ''-1504.2164''),
   (1456, [''ThunderBluff''], zone_row 1 ''-849.99994'' ''516.6666'' ''-1545.8333'' ''-527.0833''),
   (1457, [''Darnassis'', ''Darnassus''], zone_row 1 ''10238.316'' ''2938.3628'' ''9532.587'' ''1880.0295''),
   (1458, [''Undercity''], zone_row 0 ''1877.9453'' ''873.1926'' ''1237.8412'' ''-86.1824''),
   (1459, [''AlteracValley''], zone_row 30 ''1085.4166'' ''1781.2499'' ''-1739.5833'' ''-2456.25''),
   (1460, [''WarsongGulch''], zone_row 489 ''1627.0833'' ''2041.6666'' ''862.49994'' ''895.8333''),
   (1461, [''ArathiBasin''], zone_row 529 ''1508.3333'' ''1858.3333'' ''337.5'' ''102.08333''),
   (1941, [''EversongWoods''], zone_row 530 ''11041.666'' ''-4487.5'' ''7758.333'' ''-9412.5''),
   (1942, [''Ghostlands''], zone_row 530 ''8266.666'' ''-5283.333'' ''6066.6665'' ''-8583.333''),
   (1943, [''AzuremystIsle''], zone_row 530 ''-2793.75'' ''-10500.0'' ''-5508.333'' ''-14570.833''),
   (1944, [''Hellfire'', ''Hellfire Peninsula''], zone_row 530 ''1481.25'' ''5539.583'' ''-1962.4999'' ''375.0''),
   (1945, [''Expansion01''], zone_row 530 ''5821.3594'' ''12996.039'' ''-5821.3594'' ''-4468.039''),
   (1946, [''Zangarmarsh''], zone_row 530 ''1935.4166'' ''9475.0'' ''-1416.6666'' ''4447.9165''),
   (1947, [''TheExodar''], zone_row 530 ''-3609.6833'' ''-11066.367'' ''-4314.371'' ''-12123.138''),
   (1948, [''ShadowmoonValley''], zone_row 530 ''-1947.9166'' ''4225.0'' ''-5614.583'' ''-1275.0''),
   (1949, [''BladesEdgeMountains''], zone_row 530 ''4408.333'' ''8845.833'' ''791.6666'' ''3420.8333''),
   (1950, [''BloodmystIsle''], zone_row 530 ''-758.3333'' ''-10075.0'' ''-2933.3333'' ''-13337.499''),
   (1951, [''Nagrand''], zone_row 530 ''41.666664'' ''10295.833'' ''-3641.6665'' ''4770.833''),
   (1952, [''TerokkarForest''], zone_row 530 ''-999.99994'' ''7083.333'' ''-4600.0'' ''1683.3333''),
   (1953, [''Netherstorm''], zone_row 530 ''5456.25'' ''5483.333'' ''1739.5833'' ''-91.666664''),
   (1954, [''SilvermoonCity''], zone_row 530 ''10153.709'' ''-6400.75'' ''9346.938'' ''-7612.2085''),
   (1955, [''ShattrathCity''], zone_row 530 ''-1473.9545'' ''6135.259'' ''-2344.7878'' ''4829.009''),
   (1956, [''NetherstormArena''], zone_row 566 ''2918.75'' ''2660.4165'' ''1404.1666'' ''389.5833''),
   (1957, [''Sunwell''], zone_row 530 ''13568.749'' ''-5302.083'' ''11350.0'' ''-8629.166'')]"

definition zone_key :: "string \<Rightarrow> string" where
  "zone_key s = map to_lower_char (filter ascii_alnum s)"

definition normalized_eq :: "string \<Rightarrow> string \<Rightarrow> bool" where
  "normalized_eq a b \<longleftrightarrow> zone_key a = zone_key b"

definition zone_map_for :: "string \<Rightarrow> ZoneMap option" where
  "zone_map_for name =
     (let zone = trim name
      in case parse_word zone :: u32 option of
           Some ui_map_id \<Rightarrow> map_option (\<lambda>(_, _, m). m) (List.find (\<lambda>(i, _, _). i = ui_map_id) ZONE_TABLE)
         | None \<Rightarrow>
             if \<not> list_ex ascii_alnum zone then None
             else map_option (\<lambda>(_, _, m). m)
                    (List.find (\<lambda>(_, names, _). list_ex (\<lambda>n. normalized_eq n zone) names) ZONE_TABLE))"

section \<open>Movement lines\<close>

record ResolvedCoordinate =
  rc_map_id :: u32
  rc_x :: f32
  rc_y :: f32

datatype CoordinateError =
    Arity nat
  | UnknownZone string
  | MalformedNumber string string

definition number :: "string \<Rightarrow> string \<Rightarrow> CoordinateError + f32" where
  "number field what =
     (case parse_f32 field of
        Some value \<Rightarrow> if f32_is_finite value then Inr value else Inl (MalformedNumber what field)
      | None \<Rightarrow> Inl (MalformedNumber what field))"

definition integer :: "string \<Rightarrow> string \<Rightarrow> CoordinateError + u32" where
  "integer field what = ok_or (MalformedNumber what field) (parse_word field)"

definition resolve_coordinate :: "string list \<Rightarrow> CoordinateError + ResolvedCoordinate" where
  "resolve_coordinate cells =
     (if length cells < 3 \<or> length cells > 5 then Inl (Arity (length cells))
      else let field = (\<lambda>i. trim (cells ! i))
           in case number (field 1) ''first authored coordinate (world Y)'' of
                Inl e \<Rightarrow> Inl e
              | Inr first \<Rightarrow>
             (case number (field 2) ''second authored coordinate (world X)'' of
                Inl e \<Rightarrow> Inl e
              | Inr second \<Rightarrow>
             (case split_once (CHR ''/'') (field 0) of
                Some (_, map_text) \<Rightarrow>
                  map_res (\<lambda>map_id. \<lparr>rc_map_id = map_id, rc_x = second, rc_y = first\<rparr>) (integer map_text ''map id'')
              | None \<Rightarrow>
                  (case zone_map_for (field 0) of
                     None \<Rightarrow> Inl (UnknownZone (field 0))
                   | Some zone \<Rightarrow>
                       let (x, y) = to_world zone first second
                       in Inr \<lparr>rc_map_id = zm_continent zone, rc_x = x, rc_y = y\<rparr>))))"

section \<open>Lemmas\<close>

lemma zone_keys:
  "concat (map (\<lambda>(_, names, _). map zone_key names) ZONE_TABLE) =
     [''durotar'', ''mulgore'', ''barrens'', ''thebarrens'', ''kalimdor'', ''azeroth'', ''easternkingdoms'',
      ''alterac'', ''alteracmountains'', ''arathi'', ''arathihighlands'', ''badlands'', ''blastedlands'',
      ''tirisfal'', ''tirisfalglades'', ''silverpine'', ''silverpineforest'', ''westernplaguelands'',
      ''easternplaguelands'', ''hilsbrad'', ''hillsbradfoothills'', ''hinterlands'', ''thehinterlands'',
      ''dunmorogh'', ''searinggorge'', ''burningsteppes'', ''elwynn'', ''elwynnforest'', ''deadwindpass'',
      ''duskwood'', ''lochmodan'', ''redridge'', ''redridgemountains'', ''stranglethorn'', ''stranglethornvale'',
      ''swampofsorrows'', ''westfall'', ''wetlands'', ''teldrassil'', ''darkshore'', ''ashenvale'',
      ''thousandneedles'', ''stonetalonmountains'', ''desolace'', ''feralas'', ''dustwallow'', ''dustwallowmarsh'',
      ''tanaris'', ''aszhara'', ''azshara'', ''felwood'', ''ungorocrater'', ''moonglade'', ''silithus'',
      ''winterspring'', ''stormwind'', ''stormwindcity'', ''stormwindclassic'', ''ogrimmar'', ''orgrimmar'',
      ''ironforge'', ''thunderbluff'', ''darnassis'', ''darnassus'', ''undercity'', ''alteracvalley'',
      ''warsonggulch'', ''arathibasin'', ''eversongwoods'', ''ghostlands'', ''azuremystisle'', ''hellfire'',
      ''hellfirepeninsula'', ''expansion01'', ''zangarmarsh'', ''theexodar'', ''shadowmoonvalley'',
      ''bladesedgemountains'', ''bloodmystisle'', ''nagrand'', ''terokkarforest'', ''netherstorm'',
      ''silvermooncity'', ''shattrathcity'', ''netherstormarena'', ''sunwell'']"
  by (simp only: ZONE_TABLE_def list.map prod.case concat.simps append.simps) code_simp

lemma zone_keys_distinct: "distinct (concat (map (\<lambda>(_, names, _). map zone_key names) ZONE_TABLE))"
  unfolding zone_keys by code_simp

lemma zone_ids_distinct: "distinct (map fst ZONE_TABLE)"
  by (simp add: ZONE_TABLE_def)

lemma zone_keys_letter:
  "(ui, names, m) \<in> set ZONE_TABLE \<Longrightarrow> name \<in> set names \<Longrightarrow> \<exists>c cs. zone_key name = c # cs \<and> \<not> ascii_digit c"
proof -
  have all: "list_all (\<lambda>k. k \<noteq> [] \<and> \<not> ascii_digit (hd k)) (concat (map (\<lambda>(_, names, _). map zone_key names) ZONE_TABLE))"
    unfolding zone_keys by code_simp
  assume "(ui, names, m) \<in> set ZONE_TABLE" "name \<in> set names"
  then have "zone_key name \<in> set (concat (map (\<lambda>(_, names, _). map zone_key names) ZONE_TABLE))" by force
  with all have "zone_key name \<noteq> [] \<and> \<not> ascii_digit (hd (zone_key name))"
    unfolding list_all_iff by (rule bspec)
  then show ?thesis by (cases "zone_key name") auto
qed

lemma concat_distinct_same:
  "distinct (concat (map g xs)) \<Longrightarrow> x \<in> set xs \<Longrightarrow> y \<in> set xs \<Longrightarrow> k \<in> set (g x) \<Longrightarrow> k \<in> set (g y) \<Longrightarrow> x = y"
  by (induction xs) auto

lemma find_unique:
  assumes "\<forall>x\<in>set xs. \<forall>y\<in>set xs. P x \<longrightarrow> P y \<longrightarrow> x = y"
  shows "List.find P xs = Some x \<longleftrightarrow> x \<in> set xs \<and> P x"
  using assms by (induction xs) auto

lemma distinct_map_fst_eq: "distinct (map fst xs) \<Longrightarrow> \<forall>x\<in>set xs. \<forall>y\<in>set xs. fst x = fst y \<longrightarrow> x = y"
  by (auto simp: distinct_map inj_on_def)

lemma whitespace_bytes:
  assumes "is_whitespace c" and "b \<in> set c"
  shows "(of_char b :: nat) \<le> 32 \<or> 128 \<le> (of_char b :: nat)"
proof -
  from assms(1) have "length c \<in> {1, 2, 3}"
    by (auto simp: is_whitespace_def split: list.splits)
  then consider b1 where "c = [b1]" | b1 b2 where "c = [b1, b2]" | b1 b2 b3 where "c = [b1, b2, b3]"
    by (auto simp: length_Suc_conv numeral_2_eq_2 numeral_3_eq_3)
  then show ?thesis
    by cases (use assms in \<open>auto simp: is_whitespace_def Let_def\<close>)
qed

lemma alnum_byte: "ascii_alnum b \<Longrightarrow> 32 < (of_char b :: nat) \<and> (of_char b :: nat) < 128"
  by (auto simp: ascii_alnum_def ascii_digit_def ascii_lower_def ascii_upper_def)

lemma whitespace_no_alnum: "is_whitespace c \<Longrightarrow> filter ascii_alnum c = []"
  using whitespace_bytes alnum_byte by (fastforce simp: filter_empty_conv)

lemma dropWhile_no_alnum:
  "filter ascii_alnum (concat (dropWhile is_whitespace cs)) = filter ascii_alnum (concat cs)"
  by (induction cs) (auto simp: whitespace_no_alnum)

lemma zone_key_trim [simp]: "zone_key (trim s) = zone_key s"
proof -
  have rev: "filter ascii_alnum (concat (rev (dropWhile is_whitespace (rev cs)))) = filter ascii_alnum (concat cs)" for cs
  proof (induction cs rule: rev_induct)
    case (snoc c cs)
    then show ?case by (auto simp: whitespace_no_alnum)
  qed simp
  show ?thesis
    by (simp add: zone_key_def trim_def rev dropWhile_no_alnum)
qed

lemma digits_val_digits: "digits_val n s = Some k \<Longrightarrow> list_all ascii_digit s"
  by (induction n s rule: digits_val.induct) (auto split: if_splits)

lemma number_key_digits:
  assumes "parse_word s = Some (w :: 'a::len word)"
  shows "list_all ascii_digit (zone_key s)"
proof -
  from assms have "list_all ascii_digit (strip_plus s)"
    by (auto simp: parse_word_def parse_digits_def digits_val_digits split: option.splits if_splits)
  then have d: "list_all ascii_digit (filter ascii_alnum s)"
    by (cases s) (auto simp: strip_plus_def ascii_alnum_def list_all_iff ascii_digit_def ascii_lower_def ascii_upper_def
        split: if_splits)
  have "ascii_digit c \<Longrightarrow> to_lower_char c = c" for c
    by (auto simp: to_lower_char_def ascii_digit_def ascii_upper_def)
  with d show ?thesis by (auto simp: zone_key_def list_all_iff)
qed

section \<open>Properties\<close>

text \<open>the zone table is unambiguous. A field names a zone exactly when it is the UI map id of a row, or agrees with
one of the row's spellings up to case and everything that is not an ASCII letter or digit; the row is then the
only such row, although the lookup takes the first that matches.\<close>

theorem zone_lookup_exact:
  "zone_map_for spelling = Some m \<longleftrightarrow>
     (\<exists>ui names. (ui, names, m) \<in> set ZONE_TABLE \<and>
        (parse_word (trim spelling) = Some ui \<or> (\<exists>name\<in>set names. zone_key spelling = zone_key name)))"
proof (cases "parse_word (trim spelling) :: u32 option")
  case (Some ui)
  have "zone_key spelling \<noteq> zone_key name" if "(i, names, r) \<in> set ZONE_TABLE" "name \<in> set names" for i names r name
    using zone_keys_letter [OF that] number_key_digits [OF Some] by auto
  moreover have "List.find (\<lambda>(i, _, _). i = ui) ZONE_TABLE = Some row \<longleftrightarrow> row \<in> set ZONE_TABLE \<and> fst row = ui" for row
    using zone_ids_distinct by (subst find_unique) (auto dest!: distinct_map_fst_eq simp: case_prod_unfold)
  ultimately show ?thesis using Some by (force simp: zone_map_for_def)
next
  case None
  let ?P = "\<lambda>(_, names, _). list_ex (\<lambda>n. normalized_eq n (trim spelling)) names"
  have P: "?P (ui, names, r) \<longleftrightarrow> (\<exists>name\<in>set names. zone_key spelling = zone_key name)" for ui names and r :: ZoneMap
    by (auto simp: list_ex_iff normalized_eq_def intro: sym bexI [rotated])
  have key: "?P x \<Longrightarrow> zone_key spelling \<in> set ((\<lambda>(_, names, _). map zone_key names) x)" for x
    by (auto simp: list_ex_iff normalized_eq_def image_iff intro: sym bexI [rotated])
  have uniq: "y = x" if "x \<in> set ZONE_TABLE" "?P x" "y \<in> set ZONE_TABLE" "?P y" for x y
    using concat_distinct_same [OF zone_keys_distinct that(1,3) key [OF that(2)] key [OF that(4)]] by simp
  have find: "List.find ?P ZONE_TABLE = Some x \<longleftrightarrow> x \<in> set ZONE_TABLE \<and> ?P x" for x
    by (rule find_unique) (use uniq in blast)
  have "list_ex ascii_alnum (trim spelling)" if x: "List.find ?P ZONE_TABLE = Some x" for x
  proof -
    obtain ui names r where split: "x = (ui, names, r)" by (cases x)
    from x [unfolded find split P] obtain name where
      "(ui, names, r) \<in> set ZONE_TABLE" "name \<in> set names" "zone_key spelling = zone_key name"
      by (elim conjE bexE)
    with zone_keys_letter [of ui names r name] have "zone_key (trim spelling) \<noteq> []" by auto
    then show ?thesis by (auto simp: zone_key_def filter_empty_conv list_ex_iff)
  qed
  then have "zone_map_for spelling = map_option (\<lambda>(_, _, m). m) (List.find ?P ZONE_TABLE)"
    using None by (cases "List.find ?P ZONE_TABLE") (simp_all add: zone_map_for_def Let_def)
  then have "zone_map_for spelling = Some m \<longleftrightarrow> (\<exists>ui names. List.find ?P ZONE_TABLE = Some (ui, names, m))"
    by (cases "List.find ?P ZONE_TABLE") auto
  then show ?thesis unfolding find P using None by simp
qed

end
