(* ===== verification/Guide_Text.thy ===== *)
theory Guide_Text
  imports Prelude
begin

text \<open>
  The string operations of the standard library that the guide importer uses, the \<open>--\<close> rule
  (\<^verbatim>\<open>shared/src/source.rs\<close>) and the located lines of a guide (\<^verbatim>\<open>importer/src/lib.rs\<close>).
\<close>

section \<open>String operations\<close>

text \<open>\<open>str::trim_start\<close> and \<open>str::trim_end\<close>.\<close>

definition trim_start :: "string \<Rightarrow> string" where
  "trim_start s = concat (dropWhile is_whitespace (utf8_chars s))"

definition trim_end :: "string \<Rightarrow> string" where
  "trim_end s = concat (rev (dropWhile is_whitespace (rev (utf8_chars s))))"

text \<open>The parts before and after the first occurrence (\<open>str::find\<close>, \<open>str::split_once\<close>), and the last
  (\<open>str::rfind\<close>).\<close>

fun split_at_first :: "string \<Rightarrow> string \<Rightarrow> (string \<times> string) option" where
  "split_at_first n [] = (if n = [] then Some ([], []) else None)"
| "split_at_first n (c # cs) =
     (if has_prefix n (c # cs) then Some ([], drop (length n) (c # cs))
      else map_option (\<lambda>(a, b). (c # a, b)) (split_at_first n cs))"

definition split_at_last :: "string \<Rightarrow> string \<Rightarrow> (string \<times> string) option" where
  "split_at_last n s = map_option (\<lambda>(b, a). (rev a, rev b)) (split_at_first (rev n) (rev s))"

definition strip_prefix :: "string \<Rightarrow> string \<Rightarrow> string option" where
  "strip_prefix n s = (if has_prefix n s then Some (drop (length n) s) else None)"

definition strip_suffix_char :: "char \<Rightarrow> string \<Rightarrow> string option" where
  "strip_suffix_char c s = (if s \<noteq> [] \<and> last s = c then Some (butlast s) else None)"

definition eq_ignore_ascii_case :: "string \<Rightarrow> string \<Rightarrow> bool" where
  "eq_ignore_ascii_case a b \<longleftrightarrow> map to_lower_char a = map to_lower_char b"

text \<open>\<open>split_once\<close> and \<open>splitn(2, _)\<close> on white space.\<close>

fun split_once_uchar :: "(uchar \<Rightarrow> bool) \<Rightarrow> uchar list \<Rightarrow> (uchar list \<times> uchar list) option" where
  "split_once_uchar p [] = None"
| "split_once_uchar p (c # cs) =
     (if p c then Some ([], cs) else map_option (\<lambda>(a, b). (c # a, b)) (split_once_uchar p cs))"

definition split_once_whitespace :: "string \<Rightarrow> (string \<times> string) option" where
  "split_once_whitespace s =
     map_option (\<lambda>(a, b). (concat a, concat b)) (split_once_uchar is_whitespace (utf8_chars s))"

text \<open>\<open>str::lines\<close>: a carriage return before the line feed belongs to the line ending, and a final empty line
  does not count.\<close>

definition newline :: char where "newline = CHR 0x0A"
definition carriage_return :: char where "carriage_return = CHR 0x0D"

definition strip_cr :: "string \<Rightarrow> string" where
  "strip_cr s = (case strip_suffix_char carriage_return s of None \<Rightarrow> s | Some t \<Rightarrow> t)"

fun text_lines :: "string \<Rightarrow> string \<Rightarrow> string list" where
  "text_lines cur [] = (if cur = [] then [] else [rev cur])"
| "text_lines cur (c # cs) =
     (if c = newline then strip_cr (rev cur) # text_lines [] cs else text_lines (c # cur) cs)"

definition lines :: "string \<Rightarrow> string list" where
  "lines s = text_lines [] s"

definition newline_count :: "string \<Rightarrow> nat" where
  "newline_count s = count_list s newline"

section \<open>The dev comment\<close>

definition strip_inline_dev_comment :: "string \<Rightarrow> string" where
  "strip_inline_dev_comment s =
     (case split_at_first ''--'' s of Some (a, _) \<Rightarrow> trim_end a | None \<Rightarrow> s)"

section \<open>Directive values\<close>

definition split_directive_gate :: "string \<Rightarrow> string \<times> string option" where
  "split_directive_gate v =
     (case split_at_first ''<<'' v of
        Some (a, b) \<Rightarrow> (trim a, if trim b = [] then None else Some (trim b))
      | None \<Rightarrow> (trim v, None))"

section \<open>Located lines\<close>

record LocatedLine =
  ll_line_no :: nat
  ll_text :: string

section \<open>Lemmas\<close>

lemma split_at_first_SomeD: "split_at_first n s = Some (a, b) \<Longrightarrow> s = a @ n @ b"
proof (induction s arbitrary: a)
  case Nil
  then show ?case by (simp split: if_splits)
next
  case (Cons c cs)
  show ?case
  proof (cases "has_prefix n (c # cs)")
    case True
    with Cons.prems have "a = []" "b = drop (length n) (c # cs)" by simp_all
    moreover from True obtain r where "c # cs = n @ r" by (auto simp: has_prefix_iff)
    ultimately show ?thesis by (metis append_Nil append_eq_conv_conj)
  next
    case False
    with Cons.prems obtain a' where "split_at_first n cs = Some (a', b)" "a = c # a'" by auto
    with Cons.IH show ?thesis by simp
  qed
qed

lemma split_at_first_None: "split_at_first n s = None \<longleftrightarrow> \<not> str_contains s n"
  by (induction s) auto

text \<open>The part before the match does not contain the needle, and stays so when the needle follows short of its end.\<close>

lemma split_at_first_least:
  "split_at_first n s = Some (a, b) \<Longrightarrow> n \<noteq> [] \<Longrightarrow> \<not> str_contains (a @ butlast n) n"
proof (induction s arbitrary: a)
  case Nil
  then show ?case by simp
next
  case (Cons c cs)
  show ?case
  proof (cases "has_prefix n (c # cs)")
    case True
    with Cons.prems have "a = []" by simp
    moreover have "\<not> str_contains (butlast n) n"
    proof
      assume "str_contains (butlast n) n"
      then obtain a b where "butlast n = a @ n @ b" by (auto simp: str_contains_iff)
      then have "length n \<le> length (butlast n)" by simp
      with Cons.prems(2) show False by (simp add: Suc_le_eq not_le flip: length_greater_0_conv)
    qed
    ultimately show ?thesis by simp
  next
    case False
    with Cons.prems obtain a' where a: "split_at_first n cs = Some (a', b)" "a = c # a'" by auto
    with Cons.IH Cons.prems(2) have "\<not> str_contains (a' @ butlast n) n" by simp
    moreover have "\<not> has_prefix n (c # a' @ butlast n)"
    proof
      assume "has_prefix n (c # a' @ butlast n)"
      then obtain r where "c # a' @ butlast n = n @ r" by (auto simp: has_prefix_iff)
      moreover have "cs = a' @ n @ b" by (rule split_at_first_SomeD [OF a(1)])
      moreover have "butlast n @ [last n] = n" using Cons.prems(2) by simp
      ultimately have "c # cs = n @ r @ [last n] @ b" by (metis append.assoc append_Cons)
      with False show False by (auto simp: has_prefix_iff)
    qed
    ultimately show ?thesis using a by simp
  qed
qed

lemma text_lines_append_newline:
  "text_lines cur (a @ newline # b) = text_lines cur (a @ [newline]) @ text_lines [] b"
proof (induction a arbitrary: cur)
  case (Cons c a)
  show ?case by (cases "c = newline") (simp_all add: Cons.IH)
qed simp

lemma lines_append_newline: "lines (a @ newline # b) = lines (a @ [newline]) @ lines b"
  unfolding lines_def by (rule text_lines_append_newline)

lemma newline_count_Cons [simp]: "newline_count (c # cs) = (if c = newline then 1 else 0) + newline_count cs"
  by (simp add: newline_count_def)

lemma newline_count_Nil [simp]: "newline_count [] = 0"
  by (simp add: newline_count_def)

lemma length_text_lines:
  "length (text_lines cur s) =
     newline_count s + (if s = [] then (if cur = [] then 0 else 1) else if last s = newline then 0 else 1)"
proof (induction s arbitrary: cur)
  case (Cons c cs)
  show ?case by (cases "c = newline"; cases "cs = []") (simp_all add: Cons.IH)
qed simp

lemma newline_count_append [simp]: "newline_count (a @ b) = newline_count a + newline_count b"
  by (simp add: newline_count_def)

end
