(* ===== verification/Guide_Source.thy ===== *)
theory Guide_Source
  imports Guide_Text
begin

text \<open>
  The front end of the guide importer: the directive vocabulary (\<^verbatim>\<open>importer/src/directives.rs\<close>), the splitter
  (\<^verbatim>\<open>guide_splitter.rs\<close>), the lexer (\<^verbatim>\<open>lexer.rs\<close>), the step builder (\<^verbatim>\<open>step_builder.rs\<close>, \<^verbatim>\<open>name_hints.rs\<close>), the
  label graph (\<^verbatim>\<open>label_graph.rs\<close>) and \<open>parse_guide\<close> / \<open>parse_guide_bundle\<close> (\<^verbatim>\<open>lib.rs\<close>).
\<close>

section \<open>Errors\<close>

datatype ImportError =
    NoGuideBlock
  | UnterminatedGuideBlock
  | UnknownDirective string nat
  | AliasValueConflict string nat string string

section \<open>The directive vocabulary\<close>

record DirectiveAlias =
  da_from :: string
  da_to_name :: string
  da_to_value :: "string option"
  da_occurrences :: u32
  da_evidence :: string

record DirectiveAliasTable =
  dat_version :: u32
  dat_entries :: "DirectiveAlias list"

definition DIRECTIVE_ALIASES :: DirectiveAliasTable where
  "DIRECTIVE_ALIASES =
     \<lparr>dat_version = 2, dat_entries = [
      \<lparr>da_from = ''compltewith'', da_to_name = ''completewith'', da_to_value = None, da_occurrences = 2,
       da_evidence = ''The Burning Crusade.lua:17117, :122325 '' @ em_dash @ '' transposed `te`/`et`''\<rparr>,
      \<lparr>da_from = ''completewithTBTurnins'', da_to_name = ''completewith'', da_to_value = Some ''TBTurnins'', da_occurrences = 1,
       da_evidence = ''The Burning Crusade.lua:211 '' @ em_dash @ '' a MISSING SPACE; label defined :320, spaced form used :301''\<rparr>,
      \<lparr>da_from = ''completewity'', da_to_name = ''completewith'', da_to_value = None, da_occurrences = 1,
       da_evidence = ''The Burning Crusade.lua:105447 '' @ em_dash @ '' transposed final letters''\<rparr>,
      \<lparr>da_from = ''lable'', da_to_name = ''label'', da_to_value = None, da_occurrences = 1,
       da_evidence = ''The Burning Crusade.lua:6927 '' @ em_dash @ '' transposed `le`/`el`''\<rparr>,
      \<lparr>da_from = ''noflyasble'', da_to_name = ''noflyable'', da_to_value = None, da_occurrences = 1,
       da_evidence = ''The Burning Crusade.lua:37505 '' @ em_dash @ '' stray `s`''\<rparr>,
      \<lparr>da_from = ''requries'', da_to_name = ''requires'', da_to_value = None, da_occurrences = 1,
       da_evidence = ''The Burning Crusade.lua:114832 '' @ em_dash @ '' transposed `ri`/`ir`''\<rparr>]\<rparr>"

definition KNOWN_DIRECTIVES :: "string list" where
  "KNOWN_DIRECTIVES =
     [''OnClick'', ''ah'', ''aldor'', ''chapter'', ''chapters'', ''classic'', ''completewith'', ''defaultfor'',
      ''displayname'', ''flyable'', ''group'', ''hardcore'', ''hardcoreserver'', ''hidewindow'', ''icon'',
      ''ignorecorpse'', ''include'', ''internal'', ''label'', ''level'', ''loop'', ''name'', ''next'',
      ''noflyable'', ''optional'', ''phase'', ''qremove'', ''questguide'', ''requires'', ''scryer'',
      ''season'', ''softcore'', ''softcoreserver'', ''ssf'', ''sticky'', ''subgroup'', ''subweight'', ''tbc'',
      ''tip'', ''title'', ''version'', ''wotlk'', ''xprate'']"

datatype DirectiveDiagnostic = Normalised (norm_line: nat) (norm_from: string) (norm_to: string)

definition show_directive_diagnostic :: "DirectiveDiagnostic \<Rightarrow> string" where
  "show_directive_diagnostic d =
     (case d of
        Normalised line old new \<Rightarrow>
          ''line '' @ show_nat line @ '': `#'' @ old @ ''` normalised to `#'' @ new @ ''` by directive alias table v''
          @ show_word (dat_version DIRECTIVE_ALIASES))"

record ResolvedDirective =
  rd_name :: string
  rd_value :: "string option"
  rd_original :: "string option"
  rd_diagnostic :: "DirectiveDiagnostic option"

definition resolve_alias :: "DirectiveAlias \<Rightarrow> string \<Rightarrow> string option \<Rightarrow> nat \<Rightarrow> ImportError + ResolvedDirective" where
  "resolve_alias alias raw_name val line =
     (let resolved = (\<lambda>v canonical_text.
            \<lparr>rd_name = da_to_name alias, rd_value = v, rd_original = Some raw_name,
             rd_diagnostic = Some (Normalised line raw_name canonical_text)\<rparr>)
      in case da_to_value alias of
           Some implied \<Rightarrow>
             (case Option.bind val (\<lambda>v. if v = [] then None else Some v) of
                Some found \<Rightarrow> Inl (AliasValueConflict raw_name line implied found)
              | None \<Rightarrow> Inr (resolved (Some implied) (da_to_name alias @ '' '' @ implied)))
         | None \<Rightarrow> Inr (resolved val (da_to_name alias)))"

definition resolve_source_directive :: "string \<Rightarrow> string option \<Rightarrow> nat \<Rightarrow> ImportError + ResolvedDirective" where
  "resolve_source_directive raw_name val line =
     (case List.find (\<lambda>alias. eq_ignore_ascii_case (da_from alias) raw_name) (dat_entries DIRECTIVE_ALIASES) of
        Some alias \<Rightarrow> resolve_alias alias raw_name val line
      | None \<Rightarrow>
          if list_ex (\<lambda>k. eq_ignore_ascii_case k raw_name) KNOWN_DIRECTIVES
          then Inr \<lparr>rd_name = raw_name, rd_value = val, rd_original = None, rd_diagnostic = None\<rparr>
          else Inl (UnknownDirective raw_name line))"

section \<open>The splitter\<close>

record SplitGuide =
  sg_headers :: "LocatedLine list"
  sg_body_lines :: "LocatedLine list"

definition is_step_marker :: "string \<Rightarrow> bool" where
  "is_step_marker line =
     (let t = trim_start line
      in t = ''step'' \<or> has_prefix ''step '' t \<or> has_prefix (''step'' @ [CHR 0x09]) t \<or> has_prefix ''step<'' t)"

text \<open>What follows \<open>step <<\<close>, without a dev comment.\<close>

definition step_tail :: "string \<Rightarrow> string option" where
  "step_tail s =
     map_option (\<lambda>a. trim (strip_inline_dev_comment (trim a)))
       (Option.bind (strip_prefix ''step'' (trim s)) (\<lambda>after. strip_prefix ''<<'' (trim_start after)))"

definition parse_step_gate :: "string \<Rightarrow> string option" where
  "parse_step_gate s = Option.bind (step_tail s) (\<lambda>t. if t = [] then None else Some t)"

definition parse_step_conditions :: "string \<Rightarrow> string list" where
  "parse_step_conditions s =
     (case step_tail s of
        None \<Rightarrow> []
      | Some t \<Rightarrow> if t = [] then [] else filter (\<lambda>p. p \<noteq> []) (map trim (split_char (CHR ''/'') t)))"

definition OPEN_MARK :: string where "OPEN_MARK = ''RegisterGuide([[''"
definition CLOSE_MARK :: string where "CLOSE_MARK = '']])''"

text \<open>The body and the line number of its first line: the lines up to and with the opening mark.\<close>

definition extract_body :: "string \<Rightarrow> ImportError + (string \<times> nat)" where
  "extract_body source =
     (case split_at_first OPEN_MARK source of
        None \<Rightarrow> Inl NoGuideBlock
      | Some (before, after_open) \<Rightarrow>
          (case split_at_first CLOSE_MARK after_open of
             None \<Rightarrow> Inl UnterminatedGuideBlock
           | Some (body, _) \<Rightarrow> Inr (body, length (lines (before @ OPEN_MARK)))))"

fun split_lines :: "bool \<Rightarrow> nat \<Rightarrow> string list \<Rightarrow> LocatedLine list \<times> LocatedLine list" where
  "split_lines seen_step line_no [] = ([], [])"
| "split_lines seen_step line_no (raw # raws) =
     (if trim raw = [] then split_lines seen_step (line_no + 1) raws
      else let seen = (seen_step \<or> is_step_marker raw);
               (headers, body) = split_lines seen (line_no + 1) raws;
               located = \<lparr>ll_line_no = line_no, ll_text = raw\<rparr>
           in if seen then (headers, located # body) else (located # headers, body))"

definition guide_split :: "string \<Rightarrow> ImportError + SplitGuide" where
  "guide_split source =
     map_res (\<lambda>(body, start).
         let (headers, body_lines) = split_lines False start (lines body)
         in \<lparr>sg_headers = headers, sg_body_lines = body_lines\<rparr>)
       (extract_body source)"

section \<open>Bundles of guides\<close>

record GuideBlock =
  gb_source :: string
  gb_line_offset :: nat

datatype GuideBlockError =
    UnterminatedBlock nat
  | NestedOpenBeforeClose nat nat

text \<open>\<open>guide_blocks k source\<close>: the blocks of \<open>source\<close>, which \<open>k\<close> line feeds precede in the file.\<close>

function guide_blocks :: "nat \<Rightarrow> string \<Rightarrow> (GuideBlockError + GuideBlock) list" where
  "guide_blocks k source =
     (case split_at_first OPEN_MARK source of
        None \<Rightarrow> []
      | Some (before, after_open) \<Rightarrow>
          (let open_line = k + newline_count before + 1
           in case split_at_first CLOSE_MARK after_open of
                None \<Rightarrow> [Inl (UnterminatedBlock open_line)]
              | Some (body, rest) \<Rightarrow>
                  (case split_at_first OPEN_MARK body of
                     Some (outer, nested) \<Rightarrow>
                       let j = k + newline_count before + newline_count outer
                       in Inl (NestedOpenBeforeClose open_line (j + 1))
                          # guide_blocks j (OPEN_MARK @ nested @ CLOSE_MARK @ rest)
                   | None \<Rightarrow>
                       Inr \<lparr>gb_source = OPEN_MARK @ body @ CLOSE_MARK, gb_line_offset = open_line - 1\<rparr>
                       # guide_blocks (k + newline_count before + newline_count body) rest)))"
  by pat_completeness auto

termination
  by (relation "measure (\<lambda>(k, source). length source)")
    (auto dest!: split_at_first_SomeD simp: OPEN_MARK_def CLOSE_MARK_def)

declare guide_blocks.simps [simp del]

definition extract_guide_blocks :: "string \<Rightarrow> (GuideBlockError + GuideBlock) list" where
  "extract_guide_blocks source = guide_blocks 0 source"

section \<open>The lexer\<close>

datatype LexToken =
    GuideHeader (th_key: string) (th_value: string) (tok_line: nat)
  | StepStart (ts_conditions: "string list") (ts_gate: "string option") (tok_line: nat)
  | StepDirective (td_name: string) (td_value: "string option") (tok_line: nat) (td_original: "string option")
  | CommandToken (tc_name: string) (tc_args: "string list") (tc_note: "string option") (tok_line: nat)
      (tc_class_restriction: "string option")
  | TextToken (tt_content: string) (tok_line: nat)

record LexedGuide =
  lx_tokens :: "LexToken list"
  lx_diagnostics :: "DirectiveDiagnostic list"

definition extract_class_suffix :: "string \<Rightarrow> string \<times> string option" where
  "extract_class_suffix s =
     (case split_at_last ''<<'' s of
        Some (before, after) \<Rightarrow> (trim before, Some (strip_inline_dev_comment (trim after)))
      | None \<Rightarrow> (s, None))"

text \<open>\<open>#name value\<close> without its hash.\<close>

definition directive_parts :: "string \<Rightarrow> string \<times> string option" where
  "directive_parts rest =
     (case split_once_whitespace (trim_start rest) of
        Some (k, v) \<Rightarrow> (k, Some (trim v)) | None \<Rightarrow> (trim_start rest, None))"

definition lex_command :: "string \<Rightarrow> nat \<Rightarrow> LexToken" where
  "lex_command rest line =
     (let (left0, note0) =
            (case split_at_first ''>>'' rest of Some (l, n) \<Rightarrow> (trim l, Some (trim n)) | None \<Rightarrow> (trim rest, None));
          (left1, class_from_left) = extract_class_suffix left0;
          (note, class_restriction) =
            (case note0 of
               Some n \<Rightarrow> (let (n', class_from_note) = extract_class_suffix n
                          in (Some n', or_else class_from_note class_from_left))
             | None \<Rightarrow> (None, class_from_left));
          left = strip_inline_dev_comment left1;
          (name, args_part) =
            (case split_once_whitespace left of Some (a, b) \<Rightarrow> (a, trim b) | None \<Rightarrow> (left, []));
          args = (if args_part = [] then []
                  else filter (\<lambda>a. a \<noteq> []) (map trim (split_char (CHR '','') args_part)))
      in CommandToken name args note line class_restriction)"

type_synonym 'a lexed = "ImportError + ('a \<times> DirectiveDiagnostic list)"

definition diagnostics_of :: "ResolvedDirective \<Rightarrow> DirectiveDiagnostic list" where
  "diagnostics_of r = (case rd_diagnostic r of None \<Rightarrow> [] | Some d \<Rightarrow> [d])"

definition lex_header :: "LocatedLine \<Rightarrow> LexToken option lexed" where
  "lex_header line =
     (let t = trim (ll_text line)
      in if t = [] then Inr (None, [])
         else case strip_prefix ''#'' t of
                Some rest \<Rightarrow>
                  (let (raw_key, val) = directive_parts rest
                   in map_res (\<lambda>r. (Some (GuideHeader (rd_name r) (case rd_value r of None \<Rightarrow> [] | Some v \<Rightarrow> v)
                                            (ll_line_no line)), diagnostics_of r))
                        (resolve_source_directive raw_key val (ll_line_no line)))
              | None \<Rightarrow>
                  (case strip_prefix ''<<'' t of
                     Some rest \<Rightarrow> Inr (Some (GuideHeader ''faction'' (trim rest) (ll_line_no line)), [])
                   | None \<Rightarrow> Inr (Some (GuideHeader ''raw'' t (ll_line_no line)), [])))"

definition lex_body_line :: "LocatedLine \<Rightarrow> LexToken option lexed" where
  "lex_body_line line =
     (let t = trim (ll_text line)
      in if t = [] then Inr (None, [])
         else if is_step_marker t
         then Inr (Some (StepStart (parse_step_conditions t) (parse_step_gate t) (ll_line_no line)), [])
         else case strip_prefix ''#'' t of
                Some rest \<Rightarrow>
                  (let (raw_name, val) = directive_parts rest
                   in map_res (\<lambda>r. (Some (StepDirective (rd_name r) (rd_value r) (ll_line_no line) (rd_original r)),
                                     diagnostics_of r))
                        (resolve_source_directive raw_name val (ll_line_no line)))
              | None \<Rightarrow>
                  (case strip_prefix ''.'' t of
                     Some rest \<Rightarrow> Inr (Some (lex_command rest (ll_line_no line)), [])
                   | None \<Rightarrow> Inr (Some (TextToken t (ll_line_no line)), [])))"

fun lex_lines :: "(LocatedLine \<Rightarrow> LexToken option lexed) \<Rightarrow> LocatedLine list \<Rightarrow> LexToken list lexed" where
  "lex_lines lexer [] = Inr ([], [])"
| "lex_lines lexer (line # rest) =
     wbind (lexer line) (\<lambda>tok. map_res (\<lambda>(toks, ds). ((case tok of None \<Rightarrow> toks | Some t \<Rightarrow> t # toks), ds)) (lex_lines lexer rest))"

definition tokenize_guide :: "SplitGuide \<Rightarrow> ImportError + LexedGuide" where
  "tokenize_guide guide =
     map_res (\<lambda>(toks, ds). \<lparr>lx_tokens = toks, lx_diagnostics = ds\<rparr>)
       (wbind (lex_lines lex_header (sg_headers guide))
         (\<lambda>hs. map_res (\<lambda>(bs, ds). (hs @ bs, ds)) (lex_lines lex_body_line (sg_body_lines guide))))"

section \<open>Name hints\<close>

text \<open>
  The regular expression \<open>\|cRXP_(?:FRIENDLY|ENEMY)_([^|]+)\|r\<close> at the start of a text: the captured name and
  the text after the match. The captured run cannot contain a bar, so it ends at the next one.
\<close>

definition hint_at :: "string \<Rightarrow> (string \<times> string) option" where
  "hint_at s =
     Option.bind (strip_prefix ''|cRXP_'' s) (\<lambda>r.
     Option.bind (or_else (strip_prefix ''FRIENDLY_'' r) (strip_prefix ''ENEMY_'' r)) (\<lambda>r'.
       let name = takeWhile (\<lambda>c. c \<noteq> CHR ''|'') r'
       in if name = [] then None
          else map_option (Pair name) (strip_prefix ''|r'' (drop (length name) r'))))"

lemma strip_prefix_length: "strip_prefix n s = Some r \<Longrightarrow> length r \<le> length s"
  by (auto simp: strip_prefix_def split: if_splits)

lemma hint_at_shorter: "hint_at s = Some (n, r) \<Longrightarrow> length r < length s"
  by (auto simp: hint_at_def strip_prefix_def or_else_def Let_def bind_eq_Some_conv has_prefix_iff
      split: if_splits option.splits)

function captures :: "string \<Rightarrow> string list" where
  "captures s =
     (case hint_at s of
        Some (name, rest) \<Rightarrow> name # captures rest
      | None \<Rightarrow> (case s of [] \<Rightarrow> [] | c # cs \<Rightarrow> captures cs))"
  by pat_completeness auto

termination
  by (relation "measure length") (auto dest: hint_at_shorter)

declare captures.simps [simp del]

definition extract_npc_name_hints :: "string \<Rightarrow> string list" where
  "extract_npc_name_hints text =
     filter (\<lambda>n. n \<noteq> []) (map (filter (\<lambda>c. c \<noteq> CHR 0x22)) (captures text))"

end
