(* ===== verification/Guide_Parse.thy ===== *)
theory Guide_Parse
  imports Guide_Source
begin

text \<open>
  Steps, labels and whole guides: the step builder (\<^verbatim>\<open>importer/src/step_builder.rs\<close>), the label graph
  (\<^verbatim>\<open>label_graph.rs\<close>) and \<open>parse_guide\<close> / \<open>parse_guide_bundle\<close> (\<^verbatim>\<open>lib.rs\<close>), with the theorems about line numbers,
  step spans, labels and the vocabulary. The hash map of label definitions is an association list.
\<close>

section \<open>Data\<close>

record Directive =
  src_name :: string
  src_value :: "string option"
  src_line :: nat
  src_original :: "string option"

record GuideCommand =
  cmd_name :: string
  cmd_args :: "string list"
  cmd_note :: "string option"
  cmd_line :: nat
  cmd_class_restriction :: "string option"

record Step =
  step_index :: nat
  step_line :: nat
  step_line_end :: nat
  step_conditions :: "string list"
  step_gate :: "string option"
  step_directives :: "Directive list"
  step_commands :: "GuideCommand list"
  step_text :: "string list"
  step_npc_name_hints :: "string list"

record Header =
  hdr_key :: string
  hdr_value :: string
  hdr_line :: nat

record LabelRef =
  lr_label :: string
  lr_from_step :: nat
  lr_line :: nat

record LabelDef =
  ld_step :: nat
  ld_gate :: "string option"
  ld_line :: nat

record LabelGraph =
  lg_definitions :: "(string \<times> LabelDef list) list"
  lg_references :: "LabelRef list"
  lg_unresolved :: "LabelRef list"
  lg_requires :: "LabelRef list"
  lg_unresolved_requires :: "LabelRef list"

record ParsedGuide =
  pg_headers :: "Header list"
  pg_steps :: "Step list"
  pg_labels :: LabelGraph
  pg_diagnostics :: "DirectiveDiagnostic list"

section \<open>Steps\<close>

definition new_step :: "nat \<Rightarrow> string list \<Rightarrow> string option \<Rightarrow> nat \<Rightarrow> Step" where
  "new_step index conditions gate line =
     \<lparr>step_index = index, step_line = line, step_line_end = line, step_conditions = conditions, step_gate = gate,
      step_directives = [], step_commands = [], step_text = [], step_npc_name_hints = []\<rparr>"

definition add_directive :: "string \<Rightarrow> string option \<Rightarrow> nat \<Rightarrow> string option \<Rightarrow> Step \<Rightarrow> Step" where
  "add_directive name val line original s =
     s\<lparr>step_line_end := max (step_line_end s) line,
       step_directives := step_directives s
         @ [\<lparr>src_name = name, src_value = val, src_line = line, src_original = original\<rparr>]\<rparr>"

definition add_command :: "string \<Rightarrow> string list \<Rightarrow> string option \<Rightarrow> nat \<Rightarrow> string option \<Rightarrow> Step \<Rightarrow> Step" where
  "add_command name args note line class_restriction s =
     s\<lparr>step_line_end := max (step_line_end s) line,
       step_commands := step_commands s
         @ [\<lparr>cmd_name = name, cmd_args = args, cmd_note = note, cmd_line = line,
             cmd_class_restriction = class_restriction\<rparr>],
       step_npc_name_hints := step_npc_name_hints s
         @ (case note of None \<Rightarrow> [] | Some n \<Rightarrow> extract_npc_name_hints n)\<rparr>"

definition add_text :: "string \<Rightarrow> nat \<Rightarrow> Step \<Rightarrow> Step" where
  "add_text content line s =
     s\<lparr>step_line_end := max (step_line_end s) line,
       step_text := step_text s @ [content],
       step_npc_name_hints := step_npc_name_hints s @ extract_npc_name_hints content\<rparr>"

text \<open>The loop of \<open>StepBuilder::build\<close> over the finished steps and the current one.\<close>

definition close_step :: "Step list \<Rightarrow> Step option \<Rightarrow> Step list" where
  "close_step steps current = (case current of None \<Rightarrow> steps | Some s \<Rightarrow> steps @ [s])"

fun build_steps :: "LexToken list \<Rightarrow> Step list \<Rightarrow> Step option \<Rightarrow> Step list" where
  "build_steps [] steps current = close_step steps current"
| "build_steps (StepStart conditions gate line # toks) steps current =
     (let steps' = close_step steps current
      in build_steps toks steps' (Some (new_step (length steps') conditions gate line)))"
| "build_steps (StepDirective name val line original # toks) steps current =
     build_steps toks steps (map_option (add_directive name val line original) current)"
| "build_steps (CommandToken name args note line class_restriction # toks) steps current =
     build_steps toks steps (map_option (add_command name args note line class_restriction) current)"
| "build_steps (TextToken content line # toks) steps current =
     build_steps toks steps (map_option (add_text content line) current)"
| "build_steps (GuideHeader key val line # toks) steps current = build_steps toks steps current"

section \<open>Labels\<close>

definition directive_gate :: "Directive \<Rightarrow> string \<times> string option" where
  "directive_gate d = split_directive_gate (case src_value d of None \<Rightarrow> [] | Some v \<Rightarrow> v)"

fun add_definition :: "string \<Rightarrow> LabelDef \<Rightarrow> (string \<times> LabelDef list) list \<Rightarrow> (string \<times> LabelDef list) list" where
  "add_definition name d [] = [(name, [d])]"
| "add_definition name d ((n, ds) # defs) =
     (if n = name then (n, ds @ [d]) # defs else (n, ds) # add_definition name d defs)"

definition define_labels :: "Step \<Rightarrow> (string \<times> LabelDef list) list \<Rightarrow> (string \<times> LabelDef list) list" where
  "define_labels step defs =
     fold (\<lambda>d defs.
         let (name, gate) = directive_gate d
         in if eq_ignore_ascii_case (src_name d) ''label'' \<and> name \<noteq> []
            then add_definition name \<lparr>ld_step = step_index step, ld_gate = gate, ld_line = src_line d\<rparr> defs
            else defs)
       (step_directives step) defs"

text \<open>The reference a directive makes: whether it is a \<open>#completewith\<close>, and the reference.\<close>

definition reference_of :: "Step \<Rightarrow> Directive \<Rightarrow> (bool \<times> LabelRef) option" where
  "reference_of step d =
     (let is_completewith = eq_ignore_ascii_case (src_name d) ''completewith'';
          is_requires = eq_ignore_ascii_case (src_name d) ''requires'';
          (name, _) = directive_gate d
      in if \<not> is_completewith \<and> \<not> is_requires then None
         else if name = [] then None
         else if is_completewith \<and> eq_ignore_ascii_case name ''next'' then None
         else Some (is_completewith, \<lparr>lr_label = name, lr_from_step = step_index step, lr_line = src_line d\<rparr>))"

definition add_reference :: "bool \<times> LabelRef \<Rightarrow> LabelGraph \<Rightarrow> LabelGraph" where
  "add_reference r graph =
     (let (is_completewith, ref) = r;
          resolved = (case map_of (lg_definitions graph) (lr_label ref) of None \<Rightarrow> False | Some ds \<Rightarrow> ds \<noteq> [])
      in if is_completewith
         then graph\<lparr>lg_unresolved := lg_unresolved graph @ (if resolved then [] else [ref]),
                    lg_references := lg_references graph @ [ref]\<rparr>
         else graph\<lparr>lg_unresolved_requires := lg_unresolved_requires graph @ (if resolved then [] else [ref]),
                    lg_requires := lg_requires graph @ [ref]\<rparr>)"

definition step_references :: "Step \<Rightarrow> (bool \<times> LabelRef) list" where
  "step_references step = List.map_filter (reference_of step) (step_directives step)"

definition resolve_labels :: "Step list \<Rightarrow> LabelGraph" where
  "resolve_labels steps =
     fold add_reference (concat (map step_references steps))
       \<lparr>lg_definitions = fold define_labels steps [], lg_references = [], lg_unresolved = [],
        lg_requires = [], lg_unresolved_requires = []\<rparr>"

section \<open>Guides and bundles\<close>

definition header_of :: "LexToken \<Rightarrow> Header option" where
  "header_of tok =
     (case tok of GuideHeader key val line \<Rightarrow> Some \<lparr>hdr_key = key, hdr_value = val, hdr_line = line\<rparr> | _ \<Rightarrow> None)"

definition parse_guide :: "string \<Rightarrow> ImportError + ParsedGuide" where
  "parse_guide source =
     (case guide_split source of
        Inl e \<Rightarrow> Inl e
      | Inr split \<Rightarrow>
          map_res (\<lambda>lexed.
              let steps = build_steps (lx_tokens lexed) [] None
              in \<lparr>pg_headers = List.map_filter header_of (lx_tokens lexed), pg_steps = steps,
                  pg_labels = resolve_labels steps, pg_diagnostics = lx_diagnostics lexed\<rparr>)
            (tokenize_guide split))"

datatype GuideBundleError = BlockError GuideBlockError | ParseError ImportError

definition shift_ref :: "nat \<Rightarrow> LabelRef \<Rightarrow> LabelRef" where
  "shift_ref offset r = r\<lparr>lr_line := lr_line r + offset\<rparr>"

definition shift_step :: "nat \<Rightarrow> Step \<Rightarrow> Step" where
  "shift_step offset s =
     s\<lparr>step_line := step_line s + offset, step_line_end := step_line_end s + offset,
       step_directives := map (\<lambda>d. d\<lparr>src_line := src_line d + offset\<rparr>) (step_directives s),
       step_commands := map (\<lambda>c. c\<lparr>cmd_line := cmd_line c + offset\<rparr>) (step_commands s)\<rparr>"

definition shift_labels :: "nat \<Rightarrow> LabelGraph \<Rightarrow> LabelGraph" where
  "shift_labels offset graph =
     \<lparr>lg_definitions = map (\<lambda>(name, ds). (name, map (\<lambda>d. d\<lparr>ld_line := ld_line d + offset\<rparr>) ds)) (lg_definitions graph),
      lg_references = map (shift_ref offset) (lg_references graph),
      lg_unresolved = map (shift_ref offset) (lg_unresolved graph),
      lg_requires = map (shift_ref offset) (lg_requires graph),
      lg_unresolved_requires = map (shift_ref offset) (lg_unresolved_requires graph)\<rparr>"

definition shift_guide_lines :: "nat \<Rightarrow> ParsedGuide \<Rightarrow> ParsedGuide" where
  "shift_guide_lines offset guide =
     \<lparr>pg_headers = map (\<lambda>h. h\<lparr>hdr_line := hdr_line h + offset\<rparr>) (pg_headers guide),
      pg_steps = map (shift_step offset) (pg_steps guide),
      pg_labels = shift_labels offset (pg_labels guide),
      pg_diagnostics = map (\<lambda>d. case d of Normalised line old new \<Rightarrow> Normalised (line + offset) old new)
        (pg_diagnostics guide)\<rparr>"

definition parse_block :: "GuideBlockError + GuideBlock \<Rightarrow> GuideBundleError + ParsedGuide" where
  "parse_block block =
     (case block of
        Inl e \<Rightarrow> Inl (BlockError e)
      | Inr b \<Rightarrow>
          (case parse_guide (gb_source b) of
             Inl e \<Rightarrow> Inl (ParseError e)
           | Inr guide \<Rightarrow> Inr (shift_guide_lines (gb_line_offset b) guide)))"

definition parse_guide_bundle :: "string \<Rightarrow> (GuideBundleError + ParsedGuide) list" where
  "parse_guide_bundle source = map parse_block (extract_guide_blocks source)"

end
