(* ===== verification/Guide_Lines.thy ===== *)
theory Guide_Lines
  imports Guide_Parse
begin

text \<open>
  What \<open>parse_guide_bundle\<close> promises of a file: every line number points at the text it came from, the steps of
  a guide have consecutive indices and disjoint spans in the order of the file, the label graph is the one of the
  steps, and only the canonical vocabulary gets through.
\<close>

section \<open>Lines of a text\<close>

text \<open>\<open>raw\<close> stands on line \<open>l\<close> of \<open>source\<close>, counting line feeds from 1.\<close>

definition on_line :: "string \<Rightarrow> nat \<Rightarrow> string \<Rightarrow> bool" where
  "on_line source l raw \<longleftrightarrow> (\<exists>a b. source = a @ raw @ b \<and> newline_count a + 1 = l \<and> newline \<notin> set raw)"

lemma on_lineI: "source = a @ raw @ b \<Longrightarrow> newline_count a + 1 = l \<Longrightarrow> newline \<notin> set raw \<Longrightarrow> on_line source l raw"
  by (auto simp: on_line_def)

lemma on_line_infix:
  assumes "on_line s l raw" shows "on_line (a @ s @ b) (newline_count a + l) raw"
proof -
  from assms obtain x y where "s = x @ raw @ y" "newline_count x + 1 = l" "newline \<notin> set raw"
    by (auto simp: on_line_def)
  then show ?thesis by (intro on_lineI [where a = "a @ x" and b = "y @ b"]) auto
qed

lemma strip_cr_prefix: "\<exists>r. s = strip_cr s @ r \<and> newline_count r = 0"
proof (cases "s \<noteq> [] \<and> last s = carriage_return")
  case True
  then have "s = strip_cr s @ [carriage_return]"
    using append_butlast_last_id [of s] by (simp add: strip_cr_def strip_suffix_char_def)
  then show ?thesis by (intro exI [of _ "[carriage_return]"]) (simp add: newline_def carriage_return_def)
next
  case False
  then show ?thesis by (intro exI [of _ "[]"]) (auto simp: strip_cr_def strip_suffix_char_def)
qed

lemma text_lines_on_line:
  "i < length (text_lines cur s) \<Longrightarrow> newline \<notin> set cur \<Longrightarrow> on_line (rev cur @ s) (i + 1) (text_lines cur s ! i)"
proof (induction s arbitrary: cur i)
  case Nil
  then show ?case by (intro on_lineI [where a = "[]" and b = "[]"]) (auto split: if_splits)
next
  case (Cons c cs)
  show ?case
  proof (cases "c = newline")
    case False
    with Cons.IH [of i "c # cur"] Cons.prems show ?thesis by simp
  next
    case True
    show ?thesis
    proof (cases i)
      case 0
      obtain r where r: "rev cur = strip_cr (rev cur) @ r" using strip_cr_prefix by blast
      with Cons.prems(2) have "newline \<notin> set (strip_cr (rev cur))" by (metis set_rev Un_iff set_append)
      then show ?thesis
        using True 0 r by (intro on_lineI [where a = "[]" and b = "r @ c # cs"]) auto
    next
      case (Suc j)
      with Cons.prems True have "on_line ([] @ cs) (j + 1) (text_lines [] cs ! j)"
        using Cons.IH [of j "[]"] by simp
      from on_line_infix [OF this, of "rev cur @ [newline]" "[]"] Cons.prems(2) True Suc show ?thesis
        by (simp add: newline_count_def)
    qed
  qed
qed

lemma lines_on_line: "i < length (lines s) \<Longrightarrow> on_line s (i + 1) (lines s ! i)"
  using text_lines_on_line [of i "[]" s] by (simp add: lines_def)

section \<open>The splitter\<close>

lemma split_lines_mem:
  "split_lines seen n raws = (hs, bs) \<Longrightarrow> x \<in> set hs \<union> set bs \<Longrightarrow>
     \<exists>i<length raws. ll_line_no x = n + i \<and> ll_text x = raws ! i"
proof (induction seen n raws arbitrary: hs bs rule: split_lines.induct)
  case (2 seen n raw raws)
  show ?case
  proof (cases "trim raw = []")
    case True
    with 2 obtain i where "i < length raws" "ll_line_no x = n + 1 + i" "ll_text x = raws ! i" by fastforce
    then show ?thesis by (intro exI [of _ "Suc i"]) auto
  next
    case False
    obtain hs' bs' where r: "split_lines (seen \<or> is_step_marker raw) (n + 1) raws = (hs', bs')" by fastforce
    with 2(3) False have "x \<in> set hs' \<union> set bs' \<or> x = \<lparr>ll_line_no = n, ll_text = raw\<rparr>"
      using 2(4) by (auto simp: Let_def split: if_splits)
    then show ?thesis
    proof
      assume "x \<in> set hs' \<union> set bs'"
      with 2(2) [OF False refl] r obtain i where "i < length raws" "ll_line_no x = n + 1 + i" "ll_text x = raws ! i"
        by blast
      then show ?thesis by (intro exI [of _ "Suc i"]) auto
    qed auto
  qed
qed simp

lemma split_lines_seen: "split_lines True n raws = (hs, bs) \<Longrightarrow> hs = []"
  by (induction raws arbitrary: n hs bs) (auto simp: Let_def split: if_splits prod.splits)

lemma split_lines_sorted:
  "split_lines seen n raws = (hs, bs) \<Longrightarrow>
     sorted_wrt (<) (map ll_line_no (hs @ bs)) \<and> (\<forall>x\<in>set (hs @ bs). n \<le> ll_line_no x)"
proof (induction seen n raws arbitrary: hs bs rule: split_lines.induct)
  case (2 seen n raw raws)
  show ?case
  proof (cases "trim raw = []")
    case True
    with 2 show ?thesis by (auto dest: Suc_leD)
  next
    case False
    obtain hs' bs' where r: "split_lines (seen \<or> is_step_marker raw) (n + 1) raws = (hs', bs')" by fastforce
    with 2(2) [OF False refl] have ih: "sorted_wrt (<) (map ll_line_no (hs' @ bs'))" "\<forall>x\<in>set (hs' @ bs'). n + 1 \<le> ll_line_no x"
      by blast+
    from r split_lines_seen have "seen \<or> is_step_marker raw \<Longrightarrow> hs' = []" by auto
    moreover have "\<forall>x\<in>set (hs' @ bs'). n \<le> ll_line_no x" using ih(2) by fastforce
    ultimately show ?thesis using r 2(3) False ih by (auto simp: Let_def Suc_le_eq split: if_splits)
  qed
qed simp

text \<open>The line number of the body's first line counts the line feeds before it.\<close>

lemma extract_body_parts:
  assumes "extract_body source = Inr (body, start)"
  shows "\<exists>a b. source = a @ body @ b \<and> start = newline_count a + 1"
proof -
  from assms obtain before after rest where s: "split_at_first OPEN_MARK source = Some (before, after)"
      "split_at_first CLOSE_MARK after = Some (body, rest)" and n: "start = length (lines (before @ OPEN_MARK))"
    by (auto simp: extract_body_def split: option.splits)
  have "start = newline_count (before @ OPEN_MARK) + 1"
    unfolding n lines_def length_text_lines by (simp add: OPEN_MARK_def newline_def)
  moreover have "source = (before @ OPEN_MARK) @ body @ CLOSE_MARK @ rest"
    using split_at_first_SomeD [OF s(1)] split_at_first_SomeD [OF s(2)] by simp
  ultimately show ?thesis by blast
qed

lemma guide_split_lines:
  assumes "guide_split source = Inr sg"
  shows "sorted_wrt (<) (map ll_line_no (sg_headers sg @ sg_body_lines sg))"
    and "x \<in> set (sg_headers sg @ sg_body_lines sg) \<Longrightarrow> on_line source (ll_line_no x) (ll_text x)"
proof -
  from assms obtain body start where e: "extract_body source = Inr (body, start)"
    and sg: "split_lines False start (lines body) = (sg_headers sg, sg_body_lines sg)"
    by (cases "extract_body source"; cases "projr (extract_body source)")
      (auto simp: guide_split_def Let_def case_prod_unfold prod_eq_iff)
  show "sorted_wrt (<) (map ll_line_no (sg_headers sg @ sg_body_lines sg))"
    using split_lines_sorted [OF sg] by blast
  from extract_body_parts [OF e] obtain a b where ab: "source = a @ body @ b" "start = newline_count a + 1" by blast
  assume "x \<in> set (sg_headers sg @ sg_body_lines sg)"
  with split_lines_mem [OF sg, of x] obtain i where
    i: "i < length (lines body)" "ll_line_no x = start + i" "ll_text x = lines body ! i" by auto
  from on_line_infix [OF lines_on_line [OF i(1)], of a b] ab i show "on_line source (ll_line_no x) (ll_text x)"
    by (simp add: ac_simps)
qed

section \<open>The lexer\<close>

lemma lex_lines_mem:
  "lex_lines lexer ls = Inr (toks, ds) \<Longrightarrow> t \<in> set toks \<Longrightarrow> \<exists>l\<in>set ls. \<exists>ds. lexer l = Inr (Some t, ds)"
  by (induction ls arbitrary: toks ds) (auto split: option.splits)

lemma tok_line_header: "lex_header l = Inr (Some t, ds) \<Longrightarrow> tok_line t = ll_line_no l \<and> (\<exists>k v n. t = GuideHeader k v n)"
  by (auto simp: lex_header_def Let_def split: if_splits option.splits prod.splits)

lemma tok_line_body: "lex_body_line l = Inr (Some t, ds) \<Longrightarrow> tok_line t = ll_line_no l"
  by (auto simp: lex_body_line_def lex_command_def Let_def split: if_splits option.splits prod.splits)

lemma lex_lines_sorted:
  assumes "lex_lines lexer ls = Inr (toks, ds)" and "sorted_wrt (<) (map ll_line_no ls)"
    and "\<And>l t ds. lexer l = Inr (Some t, ds) \<Longrightarrow> tok_line t = ll_line_no l"
  shows "sorted_wrt (<) (map tok_line toks)"
  using assms(1,2)
proof (induction ls arbitrary: toks ds)
  case (Cons l ls)
  from Cons.prems(1) obtain tok toks' d1 d2 where t: "lexer l = Inr (tok, d1)" "lex_lines lexer ls = Inr (toks', d2)"
    "toks = (case tok of None \<Rightarrow> toks' | Some t \<Rightarrow> t # toks')" by auto
  from Cons.IH [OF t(2)] Cons.prems(2) have "sorted_wrt (<) (map tok_line toks')" by simp
  moreover have "\<forall>u\<in>set toks'. ll_line_no l < tok_line u"
    using lex_lines_mem [OF t(2)] assms(3) Cons.prems(2) by fastforce
  ultimately show ?case using t assms(3) by (auto split: option.splits)
qed simp

lemma tokenize_parts:
  assumes "tokenize_guide sg = Inr lexed"
  obtains hs d1 bs d2 where "lex_lines lex_header (sg_headers sg) = Inr (hs, d1)"
    "lex_lines lex_body_line (sg_body_lines sg) = Inr (bs, d2)"
    "lx_tokens lexed = hs @ bs" "lx_diagnostics lexed = d1 @ d2"
  using assms by (auto simp: tokenize_guide_def)

section \<open>The steps\<close>

definition span_ok :: "Step \<Rightarrow> bool" where
  "span_ok s \<longleftrightarrow> step_line s \<le> step_line_end s
     \<and> (\<forall>d\<in>set (step_directives s). step_line s < src_line d \<and> src_line d \<le> step_line_end s)
     \<and> (\<forall>c\<in>set (step_commands s). step_line s < cmd_line c \<and> cmd_line c \<le> step_line_end s)"

definition steps_ok :: "Step list \<Rightarrow> bool" where
  "steps_ok steps \<longleftrightarrow> map step_index steps = [0..<length steps] \<and> (\<forall>s\<in>set steps. span_ok s)
     \<and> sorted_wrt (\<lambda>s t. step_line_end s < step_line t) steps"

text \<open>Where the parts of a step come from, and the parts of the lines in a file.\<close>

definition step_from :: "LexToken set \<Rightarrow> Step \<Rightarrow> bool" where
  "step_from T s \<longleftrightarrow> StepStart (step_conditions s) (step_gate s) (step_line s) \<in> T
     \<and> (\<forall>d\<in>set (step_directives s). StepDirective (src_name d) (src_value d) (src_line d) (src_original d) \<in> T)
     \<and> (\<forall>c\<in>set (step_commands s).
          CommandToken (cmd_name c) (cmd_args c) (cmd_note c) (cmd_line c) (cmd_class_restriction c) \<in> T)"

lemma close_step_Some [simp]: "close_step steps (Some s) = steps @ [s]"
  and close_step_None [simp]: "close_step steps None = steps"
  by (simp_all add: close_step_def)

lemma steps_ok_snoc:
  "steps_ok (steps @ [s]) \<longleftrightarrow>
     steps_ok steps \<and> step_index s = length steps \<and> span_ok s \<and> (\<forall>t\<in>set steps. step_line_end t < step_line s)"
  by (auto simp: steps_ok_def sorted_wrt_append)

lemma step_from_mono: "step_from T s \<Longrightarrow> T \<subseteq> U \<Longrightarrow> step_from U s"
  by (auto simp: step_from_def)

text \<open>An update of the current step that only extends its span to a later line.\<close>

lemma steps_ok_extend:
  assumes "steps_ok (close_step steps current)" and "\<forall>s\<in>set (close_step steps current). step_line_end s < line"
    and "\<And>s. span_ok s \<Longrightarrow> step_line_end s < line \<Longrightarrow> span_ok (f s)"
    and "\<And>s. step_index (f s) = step_index s" "\<And>s. step_line (f s) = step_line s"
  shows "steps_ok (close_step steps (map_option f current))"
  using assms by (cases current) (auto simp: steps_ok_snoc)

lemma span_ok_add:
  assumes "span_ok s" "step_line_end s < line"
  shows "span_ok (add_directive name val line original s)" "span_ok (add_command name args note line restriction s)"
    "span_ok (add_text content line s)"
  using assms by (auto simp: span_ok_def add_directive_def add_command_def add_text_def le_max_iff_disj max_def)

lemma add_fields [simp]:
  "step_index (add_directive name val line original s) = step_index s"
  "step_line (add_directive name val line original s) = step_line s"
  "step_line_end (add_directive name val line original s) = max (step_line_end s) line"
  "step_index (add_command name args note line restriction s) = step_index s"
  "step_line (add_command name args note line restriction s) = step_line s"
  "step_line_end (add_command name args note line restriction s) = max (step_line_end s) line"
  "step_index (add_text content line s) = step_index s"
  "step_line (add_text content line s) = step_line s"
  "step_line_end (add_text content line s) = max (step_line_end s) line"
  by (simp_all add: add_directive_def add_command_def add_text_def)

lemma build_steps_ok:
  assumes "sorted_wrt (<) (map tok_line toks)" and "steps_ok (close_step steps current)"
    and "\<forall>t\<in>set toks. \<forall>s\<in>set (close_step steps current). step_line_end s < tok_line t"
  shows "steps_ok (build_steps toks steps current)"
  using assms
proof (induction toks steps current rule: build_steps.induct)
  case (2 conditions gate line toks steps current)
  show ?case
    using 2(2-4) unfolding build_steps.simps Let_def
    by (intro 2(1) [OF refl]) (auto simp: steps_ok_snoc new_step_def span_ok_def)
next
  case (3 name val line original toks steps current)
  have "steps_ok (close_step steps (map_option (add_directive name val line original) current))"
    by (rule steps_ok_extend [of _ _ line]) (use 3 in \<open>auto simp: span_ok_add\<close>)
  moreover have "\<forall>t\<in>set toks. \<forall>s\<in>set (close_step steps (map_option (add_directive name val line original) current)). step_line_end s < tok_line t"
    using 3 by (cases current) auto
  ultimately show ?case using 3 by simp
next
  case (4 name args remark line restriction toks steps current)
  have "steps_ok (close_step steps (map_option (add_command name args remark line restriction) current))"
    by (rule steps_ok_extend [of _ _ line]) (use 4 in \<open>auto simp: span_ok_add\<close>)
  moreover have "\<forall>t\<in>set toks. \<forall>s\<in>set (close_step steps (map_option (add_command name args remark line restriction) current)). step_line_end s < tok_line t"
    using 4 by (cases current) auto
  ultimately show ?case using 4 by simp
next
  case (5 content line toks steps current)
  have "steps_ok (close_step steps (map_option (add_text content line) current))"
    by (rule steps_ok_extend [of _ _ line]) (use 5 in \<open>auto simp: span_ok_add\<close>)
  moreover have "\<forall>t\<in>set toks. \<forall>s\<in>set (close_step steps (map_option (add_text content line) current)). step_line_end s < tok_line t"
    using 5 by (cases current) auto
  ultimately show ?case using 5 by simp
qed auto

lemma step_from_add:
  "step_from T s \<Longrightarrow> StepDirective name val line original \<in> T \<Longrightarrow> step_from T (add_directive name val line original s)"
  "step_from T s \<Longrightarrow> CommandToken name args remark line restriction \<in> T \<Longrightarrow>
     step_from T (add_command name args remark line restriction s)"
  "step_from T s \<Longrightarrow> step_from T (add_text content line s)"
  by (auto simp: step_from_def add_directive_def add_command_def add_text_def)

lemma build_steps_from:
  assumes "set toks \<subseteq> T" and "\<forall>s\<in>set (close_step steps current). step_from T s"
  shows "\<forall>s\<in>set (build_steps toks steps current). step_from T s"
  using assms
proof (induction toks steps current rule: build_steps.induct)
  case (2 conditions gate line toks steps current)
  have "\<forall>s\<in>set (close_step steps current @ [new_step (length (close_step steps current)) conditions gate line]). step_from T s"
    using 2(2,3) by (auto simp: step_from_def new_step_def)
  with 2 show ?case by (simp add: Let_def)
next
  case (3 name val line original toks steps current)
  have "\<forall>s\<in>set (close_step steps (map_option (add_directive name val line original) current)). step_from T s"
    using 3(2,3) step_from_add by (cases current) auto
  with 3 show ?case by simp
next
  case (4 name args remark line restriction toks steps current)
  have "\<forall>s\<in>set (close_step steps (map_option (add_command name args remark line restriction) current)). step_from T s"
    using 4(2,3) step_from_add by (cases current) auto
  with 4 show ?case by simp
next
  case (5 content line toks steps current)
  have "\<forall>s\<in>set (close_step steps (map_option (add_text content line) current)). step_from T s"
    using 5(2,3) step_from_add by (cases current) auto
  with 5 show ?case by simp
qed auto

section \<open>One guide\<close>

lemma parse_guide_parts:
  assumes "parse_guide source = Inr guide"
  obtains sg lexed where "guide_split source = Inr sg" "tokenize_guide sg = Inr lexed"
    "pg_steps guide = build_steps (lx_tokens lexed) [] None" "pg_labels guide = resolve_labels (pg_steps guide)"
    "pg_headers guide = List.map_filter header_of (lx_tokens lexed)" "pg_diagnostics guide = lx_diagnostics lexed"
  using assms by (auto simp: parse_guide_def Let_def split: sum.splits)

lemma parse_guide_steps_ok:
  assumes "parse_guide source = Inr guide" shows "steps_ok (pg_steps guide)"
proof -
  from assms obtain sg lexed where g: "guide_split source = Inr sg" "tokenize_guide sg = Inr lexed"
    "pg_steps guide = build_steps (lx_tokens lexed) [] None" by (rule parse_guide_parts)
  from g(2) obtain hs d1 bs d2 where t: "lex_lines lex_header (sg_headers sg) = Inr (hs, d1)"
    "lex_lines lex_body_line (sg_body_lines sg) = Inr (bs, d2)" "lx_tokens lexed = hs @ bs" by (rule tokenize_parts)
  note sorted = guide_split_lines(1) [OF g(1)]
  have "sorted_wrt (<) (map tok_line hs)"
    using lex_lines_sorted [OF t(1)] tok_line_header sorted by (auto simp: sorted_wrt_append)
  moreover have "sorted_wrt (<) (map tok_line bs)"
    using lex_lines_sorted [OF t(2)] tok_line_body sorted by (auto simp: sorted_wrt_append)
  moreover have "tok_line x < tok_line y" if "x \<in> set hs" "y \<in> set bs" for x y
  proof -
    from lex_lines_mem [OF t(1) that(1)] tok_line_header obtain l where "l \<in> set (sg_headers sg)" "tok_line x = ll_line_no l" by blast
    moreover from lex_lines_mem [OF t(2) that(2)] tok_line_body obtain l' where "l' \<in> set (sg_body_lines sg)" "tok_line y = ll_line_no l'" by blast
    ultimately show ?thesis using sorted by (auto simp: sorted_wrt_append)
  qed
  ultimately have "sorted_wrt (<) (map tok_line (hs @ bs))" by (auto simp: sorted_wrt_append)
  then show ?thesis unfolding g(3) t(3) by (rule build_steps_ok) (simp_all add: steps_ok_def)
qed

text \<open>What stands in the file where a step says its parts are.\<close>

definition marker_written :: "string \<Rightarrow> Step \<Rightarrow> bool" where
  "marker_written source s \<longleftrightarrow>
     (\<exists>raw. on_line source (step_line s) raw \<and> is_step_marker (trim raw)
        \<and> step_conditions s = parse_step_conditions (trim raw) \<and> step_gate s = parse_step_gate (trim raw))"

definition directive_written :: "string \<Rightarrow> Directive \<Rightarrow> bool" where
  "directive_written source d \<longleftrightarrow>
     (\<exists>raw rest l r. on_line source (src_line d) raw \<and> trim raw = ''#'' @ rest
        \<and> resolve_source_directive (fst (directive_parts rest)) (snd (directive_parts rest)) l = Inr r
        \<and> src_name d = rd_name r \<and> src_value d = rd_value r \<and> src_original d = rd_original r)"

definition command_written :: "string \<Rightarrow> GuideCommand \<Rightarrow> bool" where
  "command_written source c \<longleftrightarrow>
     (\<exists>raw rest. on_line source (cmd_line c) raw \<and> trim raw = ''.'' @ rest
        \<and> lex_command rest (cmd_line c)
            = CommandToken (cmd_name c) (cmd_args c) (cmd_note c) (cmd_line c) (cmd_class_restriction c))"

definition step_written :: "string \<Rightarrow> Step \<Rightarrow> bool" where
  "step_written source s \<longleftrightarrow> marker_written source s
     \<and> (\<forall>d\<in>set (step_directives s). directive_written source d) \<and> (\<forall>c\<in>set (step_commands s). command_written source c)"

lemma strip_prefix_iff: "strip_prefix n s = Some r \<longleftrightarrow> s = n @ r"
  by (auto simp: strip_prefix_def has_prefix_iff)

lemma lex_body_cases:
  assumes "lex_body_line l = Inr (Some t, ds)"
  shows "t = StepStart c g n \<Longrightarrow> n = ll_line_no l \<and> is_step_marker (trim (ll_text l))
      \<and> c = parse_step_conditions (trim (ll_text l)) \<and> g = parse_step_gate (trim (ll_text l))"
    and "t = StepDirective name val n original \<Longrightarrow> n = ll_line_no l \<and>
      (\<exists>rest r. trim (ll_text l) = ''#'' @ rest
        \<and> resolve_source_directive (fst (directive_parts rest)) (snd (directive_parts rest)) n = Inr r
        \<and> name = rd_name r \<and> val = rd_value r \<and> original = rd_original r)"
    and "t = CommandToken name args remark n restriction \<Longrightarrow> n = ll_line_no l \<and>
      (\<exists>rest. trim (ll_text l) = ''.'' @ rest \<and> lex_command rest n = t)"
  using assms
  by (auto simp: lex_body_line_def lex_command_def Let_def strip_prefix_iff case_prod_unfold split: if_splits option.splits)

lemma lex_header_cases: "lex_header l = Inr (Some t, ds) \<Longrightarrow> \<exists>k v n. t = GuideHeader k v n"
  using tok_line_header by blast

lemma parse_guide_written:
  assumes "parse_guide source = Inr guide" and s: "s \<in> set (pg_steps guide)"
  shows "step_written source s"
proof -
  from assms(1) obtain sg lexed where g: "guide_split source = Inr sg" "tokenize_guide sg = Inr lexed"
    "pg_steps guide = build_steps (lx_tokens lexed) [] None" by (rule parse_guide_parts)
  from g(2) obtain hs d1 bs d2 where t: "lex_lines lex_header (sg_headers sg) = Inr (hs, d1)"
    "lex_lines lex_body_line (sg_body_lines sg) = Inr (bs, d2)" "lx_tokens lexed = hs @ bs" by (rule tokenize_parts)
  have "step_from (set (hs @ bs)) s"
    using build_steps_from [of "hs @ bs" "set (hs @ bs)" "[]" None] s by (simp add: g(3) t(3))
  moreover have body: "\<exists>l\<in>set (sg_body_lines sg). on_line source (ll_line_no l) (ll_text l) \<and> (\<exists>ds. lex_body_line l = Inr (Some x, ds))"
    if "x \<in> set (hs @ bs)" "\<And>k v n. x \<noteq> GuideHeader k v n" for x
  proof -
    have "x \<notin> set hs" using lex_lines_mem [OF t(1), of x] lex_header_cases that(2) by blast
    with that(1) have "x \<in> set bs" by simp
    from lex_lines_mem [OF t(2) this] guide_split_lines(2) [OF g(1)] show ?thesis by auto
  qed
  moreover have "marker_written source s" if "StepStart (step_conditions s) (step_gate s) (step_line s) \<in> set (hs @ bs)"
    using body [OF that] lex_body_cases(1) [OF _ refl] unfolding marker_written_def by fastforce
  moreover have "directive_written source d"
    if "StepDirective (src_name d) (src_value d) (src_line d) (src_original d) \<in> set (hs @ bs)" for d
    using body [OF that] lex_body_cases(2) [OF _ refl] unfolding directive_written_def by fastforce
  moreover have "command_written source c"
    if "CommandToken (cmd_name c) (cmd_args c) (cmd_note c) (cmd_line c) (cmd_class_restriction c) \<in> set (hs @ bs)" for c
    using body [OF that] lex_body_cases(3) [OF _ refl] unfolding command_written_def by fastforce
  ultimately show ?thesis by (auto simp: step_written_def step_from_def)
qed

section \<open>Bundles\<close>

lemma marks_newline [simp]: "newline_count OPEN_MARK = 0" "newline_count CLOSE_MARK = 0"
  by (simp_all add: OPEN_MARK_def CLOSE_MARK_def newline_def)

lemma guide_blocks_at:
  "Inr b \<in> set (guide_blocks k source) \<Longrightarrow> \<exists>a c. source = a @ gb_source b @ c \<and> gb_line_offset b = k + newline_count a"
proof (induction k source rule: guide_blocks.induct)
  case (1 k source)
  have "split_at_first OPEN_MARK source = None \<Longrightarrow> guide_blocks k source = []"
    by (subst guide_blocks.simps) simp
  with 1(3) have "split_at_first OPEN_MARK source \<noteq> None" by (metis empty_iff list.set(1))
  then obtain before after where o: "split_at_first OPEN_MARK source = Some (before, after)" by auto
  have "split_at_first CLOSE_MARK after = None \<Longrightarrow> \<exists>e. guide_blocks k source = [Inl e]"
    by (subst guide_blocks.simps) (simp add: o)
  with 1(3) have "split_at_first CLOSE_MARK after \<noteq> None" by (cases "split_at_first CLOSE_MARK after") auto
  then obtain body rest where c: "split_at_first CLOSE_MARK after = Some (body, rest)" by auto
  have src: "source = before @ OPEN_MARK @ body @ CLOSE_MARK @ rest"
    using split_at_first_SomeD [OF o] split_at_first_SomeD [OF c] by simp
  show ?case
  proof (cases "split_at_first OPEN_MARK body")
    case None
    with 1(3) o c consider "b = \<lparr>gb_source = OPEN_MARK @ body @ CLOSE_MARK, gb_line_offset = k + newline_count before\<rparr>"
      | "Inr b \<in> set (guide_blocks (k + newline_count before + newline_count body) rest)"
      by (subst (asm) guide_blocks.simps) (auto simp: Let_def)
    then show ?thesis
    proof cases
      case 1
      with src show ?thesis by (intro exI [of _ before] exI [of _ rest]) simp
    next
      case 2
      from 1(1) [OF o refl refl c refl None this] obtain a c' where
        "rest = a @ gb_source b @ c'" "gb_line_offset b = k + newline_count before + newline_count body + newline_count a"
        by blast
      with src show ?thesis
        by (intro exI [of _ "before @ OPEN_MARK @ body @ CLOSE_MARK @ a"] exI [of _ c']) simp
    qed
  next
    case (Some p)
    obtain outer nested where p: "p = (outer, nested)" by fastforce
    let ?j = "k + newline_count before + newline_count outer"
    from 1(3) o c Some p have "Inr b \<in> set (guide_blocks ?j (OPEN_MARK @ nested @ CLOSE_MARK @ rest))"
      by (subst (asm) guide_blocks.simps) (auto simp: Let_def)
    from 1(2) [OF o refl refl c refl Some [unfolded p] refl refl this] obtain a c' where
      "OPEN_MARK @ nested @ CLOSE_MARK @ rest = a @ gb_source b @ c'" "gb_line_offset b = ?j + newline_count a" by blast
    moreover have "body = outer @ OPEN_MARK @ nested" by (rule split_at_first_SomeD [OF Some [unfolded p]])
    ultimately show ?thesis using src
      by (intro exI [of _ "before @ OPEN_MARK @ outer @ a"] exI [of _ c']) simp
  qed
qed

lemma lex_command_line:
  "lex_command rest n = CommandToken name args remark n restriction \<Longrightarrow>
     lex_command rest m = CommandToken name args remark m restriction"
  by (simp add: lex_command_def Let_def case_prod_unfold)

lemma step_written_shift:
  assumes "step_written s step" and "\<And>l raw. on_line s l raw \<Longrightarrow> on_line t (l + n) raw"
  shows "step_written t (shift_step n step)"
proof -
  have "marker_written t (shift_step n step)"
    using assms by (auto simp: step_written_def marker_written_def shift_step_def)
  moreover have "directive_written t (d\<lparr>src_line := src_line d + n\<rparr>)" if "directive_written s d" for d
    using that assms(2) by (fastforce simp: directive_written_def)
  moreover have "command_written t (c\<lparr>cmd_line := cmd_line c + n\<rparr>)" if "command_written s c" for c
  proof -
    from that obtain raw rest where r: "on_line s (cmd_line c) raw" "trim raw = ''.'' @ rest"
      "lex_command rest (cmd_line c)
         = CommandToken (cmd_name c) (cmd_args c) (cmd_note c) (cmd_line c) (cmd_class_restriction c)"
      by (auto simp: command_written_def)
    from assms(2) [OF r(1)] r(2) lex_command_line [OF r(3), of "cmd_line c + n"] show ?thesis
      unfolding command_written_def by (intro exI [of _ raw] exI [of _ rest]) simp
  qed
  ultimately show ?thesis using assms(1) by (auto simp: step_written_def shift_step_def)
qed

lemma steps_ok_shift: "steps_ok steps \<Longrightarrow> steps_ok (map (shift_step n) steps)"
  by (auto simp: steps_ok_def span_ok_def shift_step_def comp_def sorted_wrt_map)

lemma parse_guide_bundleE:
  assumes "Inr guide \<in> set (parse_guide_bundle source)"
  obtains a c g and b :: GuideBlock where "source = a @ gb_source b @ c" "parse_guide (gb_source b) = Inr g"
    "guide = shift_guide_lines (newline_count a) g"
proof -
  from assms obtain b where b: "Inr b \<in> set (extract_guide_blocks source)" "Inr guide = parse_block (Inr b)"
    by (auto simp: parse_guide_bundle_def parse_block_def split: sum.splits)
  from guide_blocks_at [OF b(1) [unfolded extract_guide_blocks_def]] obtain a c where
    "source = a @ gb_source b @ c" "gb_line_offset b = newline_count a" by auto
  moreover from b(2) obtain g where "parse_guide (gb_source b) = Inr g" "guide = shift_guide_lines (gb_line_offset b) g"
    by (auto simp: parse_block_def split: sum.splits)
  ultimately show ?thesis using that [of a b c g] by simp
qed

section \<open>Blank lines before a file\<close>

definition shift_block_error :: "nat \<Rightarrow> GuideBlockError \<Rightarrow> GuideBlockError" where
  "shift_block_error n e =
     (case e of UnterminatedBlock l \<Rightarrow> UnterminatedBlock (l + n) | NestedOpenBeforeClose l m \<Rightarrow> NestedOpenBeforeClose (l + n) (m + n))"

definition shift_block :: "nat \<Rightarrow> GuideBlockError + GuideBlock \<Rightarrow> GuideBlockError + GuideBlock" where
  "shift_block n r =
     (case r of
        Inl e \<Rightarrow> Inl (shift_block_error n e)
      | Inr b \<Rightarrow> Inr (b\<lparr>gb_line_offset := gb_line_offset b + n\<rparr>))"

text \<open>What a file's results become when it moves down by \<open>n\<close> lines: everything moves but the lines in the errors of
  \<open>parse_guide\<close>.\<close>

definition shift_result :: "nat \<Rightarrow> GuideBundleError + ParsedGuide \<Rightarrow> GuideBundleError + ParsedGuide" where
  "shift_result n r =
     (case r of
        Inl (BlockError e) \<Rightarrow> Inl (BlockError (shift_block_error n e))
      | Inl (ParseError e) \<Rightarrow> Inl (ParseError e)
      | Inr guide \<Rightarrow> Inr (shift_guide_lines n guide))"

lemma guide_blocks_shift: "guide_blocks (k + n) source = map (shift_block n) (guide_blocks k source)"
proof (induction k source rule: guide_blocks.induct)
  case (1 k source)
  show ?case
  proof (cases "split_at_first OPEN_MARK source")
    case None
    then show ?thesis by (simp add: guide_blocks.simps [of _ source])
  next
    case (Some p)
    obtain before after where o: "split_at_first OPEN_MARK source = Some (before, after)" using Some by (cases p) auto
    show ?thesis
    proof (cases "split_at_first CLOSE_MARK after")
      case None
      with o show ?thesis by (simp add: guide_blocks.simps [of _ source] shift_block_def shift_block_error_def)
    next
      case (Some q)
      obtain body rest where c: "split_at_first CLOSE_MARK after = Some (body, rest)" using Some by (cases q) auto
      show ?thesis
      proof (cases "split_at_first OPEN_MARK body")
        case None
        from 1(1) [OF o refl refl c refl None] o c None show ?thesis
          by (simp add: guide_blocks.simps [of _ source] shift_block_def ac_simps)
      next
        case (Some r)
        obtain outer nested where n: "split_at_first OPEN_MARK body = Some (outer, nested)" using Some by (cases r) auto
        from 1(2) [OF o refl refl c refl n refl refl] o c n show ?thesis
          by (simp add: guide_blocks.simps [of _ source] shift_block_def shift_block_error_def Let_def ac_simps)
      qed
    qed
  qed
qed

lemma newline_not_mark: "\<not> has_prefix OPEN_MARK (newline # cs)"
  by (simp add: OPEN_MARK_def newline_def)

lemma split_at_first_newlines:
  "split_at_first OPEN_MARK (replicate n newline @ source) =
     map_option (\<lambda>(a, b). (replicate n newline @ a, b)) (split_at_first OPEN_MARK source)"
proof (induction n)
  case 0
  show ?case by (cases "split_at_first OPEN_MARK source") auto
next
  case (Suc n)
  then show ?case by (cases "split_at_first OPEN_MARK source") (auto simp: newline_not_mark)
qed

lemma newline_count_replicate [simp]: "newline_count (replicate n newline) = n"
  by (induction n) simp_all

lemma guide_blocks_newlines: "guide_blocks k (replicate n newline @ source) = guide_blocks (k + n) source"
  by (cases "split_at_first OPEN_MARK source")
    (auto simp: guide_blocks.simps [of k "replicate n newline @ source"] guide_blocks.simps [of "k + n" source]
      split_at_first_newlines ac_simps split: prod.splits option.split)

lemma shift_guide_lines_add: "shift_guide_lines (m + n) guide = shift_guide_lines n (shift_guide_lines m guide)"
  by (auto simp: shift_guide_lines_def shift_step_def shift_labels_def shift_ref_def ac_simps split: DirectiveDiagnostic.splits)

section \<open>Label graphs\<close>

text \<open>The definitions of a name, in the order of the steps, and the specification of the graph.\<close>

definition label_defs :: "string \<Rightarrow> Step list \<Rightarrow> LabelDef list" where
  "label_defs name steps =
     concat (map (\<lambda>s. map (\<lambda>d. \<lparr>ld_step = step_index s, ld_gate = snd (directive_gate d), ld_line = src_line d\<rparr>)
       (filter (\<lambda>d. eq_ignore_ascii_case (src_name d) ''label'' \<and> name \<noteq> [] \<and> fst (directive_gate d) = name)
         (step_directives s))) steps)"

definition defs_of :: "string \<Rightarrow> (string \<times> LabelDef list) list \<Rightarrow> LabelDef list" where
  "defs_of name defs = (case map_of defs name of None \<Rightarrow> [] | Some ds \<Rightarrow> ds)"

lemma defs_of_add: "defs_of n (add_definition name d defs) = (if n = name then defs_of n defs @ [d] else defs_of n defs)"
  by (induction name d defs rule: add_definition.induct) (auto simp: defs_of_def)

lemma defs_of_step: "defs_of name (define_labels s defs) = defs_of name defs @ label_defs name [s]"
proof -
  have "defs_of name (fold (\<lambda>d defs.
         let (n, gate) = directive_gate d
         in if eq_ignore_ascii_case (src_name d) ''label'' \<and> n \<noteq> []
            then add_definition n \<lparr>ld_step = step_index s, ld_gate = gate, ld_line = src_line d\<rparr> defs
            else defs) ds defs) =
      defs_of name defs @ map (\<lambda>d. \<lparr>ld_step = step_index s, ld_gate = snd (directive_gate d), ld_line = src_line d\<rparr>)
       (filter (\<lambda>d. eq_ignore_ascii_case (src_name d) ''label'' \<and> name \<noteq> [] \<and> fst (directive_gate d) = name) ds)" for ds
    by (induction ds arbitrary: defs) (auto simp: defs_of_add Let_def case_prod_unfold)
  then show ?thesis by (simp add: define_labels_def label_defs_def)
qed

lemma defs_of_steps:
  "defs_of name (fold define_labels steps defs) = defs_of name defs @ label_defs name steps"
  by (induction steps arbitrary: defs) (simp_all add: defs_of_step, simp_all add: label_defs_def)

text \<open>The loop over the references.\<close>

definition names_label :: "Step list \<Rightarrow> LabelRef \<Rightarrow> bool" where
  "names_label steps r \<longleftrightarrow> label_defs (lr_label r) steps \<noteq> []"

lemma add_references:
  fixes graph :: LabelGraph
  assumes "\<forall>(c, r)\<in>set refs. defs_of (lr_label r) (lg_definitions graph) = label_defs (lr_label r) steps"
  shows "fold add_reference refs graph = graph
    \<lparr>lg_references := lg_references graph @ map snd (filter fst refs),
     lg_unresolved := lg_unresolved graph @ filter (\<lambda>r. \<not> names_label steps r) (map snd (filter fst refs)),
     lg_requires := lg_requires graph @ map snd (filter (\<lambda>p. \<not> fst p) refs),
     lg_unresolved_requires := lg_unresolved_requires graph
       @ filter (\<lambda>r. \<not> names_label steps r) (map snd (filter (\<lambda>p. \<not> fst p) refs))\<rparr>"
  using assms
proof (induction refs arbitrary: graph)
  case (Cons p refs)
  obtain c r where p: "p = (c, r)" by fastforce
  have res: "(case map_of (lg_definitions graph) (lr_label r) of None \<Rightarrow> False | Some ds \<Rightarrow> ds \<noteq> []) = names_label steps r"
    using Cons.prems p by (auto simp: names_label_def defs_of_def split: option.splits)
  have "lg_definitions (add_reference p graph) = lg_definitions graph"
    by (simp add: add_reference_def Let_def p)
  with Cons.IH [of "add_reference p graph"] Cons.prems show ?case
    by (simp add: p) (simp add: add_reference_def Let_def res)
qed simp

section \<open>Properties\<close>


text \<open>A file with two guides, the second after a broken line.\<close>

definition file6 :: string where
  "file6 = join [newline]
     [''-- header'', ''RXPGuides.RegisterGuide([['', ''#name One'', ''step << Mage'', ''  .accept 5 >> go'', '']])'',
      ''RXPGuides.RegisterGuide([['', ''#name Two'', ''step'', '' #label x'', '' .turnin 5'', ''step #2'', '']])'']"

definition guides6 :: "ParsedGuide list" where
  "guides6 = map projr (parse_guide_bundle file6)"


text \<open>moving a file down by \<open>n\<close> blank lines moves every line number of its guides and of its block errors by \<open>n\<close>,
but not the line numbers in the errors of \<open>parse_guide\<close>: an unknown directive of a bundle is reported with its line
inside its block, as if the block began the file.\<close>

theorem bundle_shift:
  "parse_guide_bundle (replicate n newline @ source) = map (shift_result n) (parse_guide_bundle source)"
proof -
  have "parse_block (shift_block n r) = shift_result n (parse_block r)" for r
    by (cases r) (simp_all add: parse_block_def shift_block_def shift_result_def shift_guide_lines_add split: sum.split)
  then show ?thesis
    using guide_blocks_newlines [of 0 n source] guide_blocks_shift [of 0 n source]
    by (simp add: parse_guide_bundle_def extract_guide_blocks_def comp_def)
qed

text \<open>the label graph is exact. The definitions kept for a name are the \<open>#label\<close> directives that define it, in the order
of the steps and with their gates and lines; the references are the \<open>#completewith\<close> targets other than \<open>next\<close> and the
\<open>#requires\<close> targets in their order; and a reference is unresolved exactly when no step defines its label.\<close>

theorem label_graph_exact:
  "lg_references (resolve_labels steps) = map snd (filter fst (concat (map step_references steps)))
   \<and> lg_requires (resolve_labels steps) = map snd (filter (\<lambda>p. \<not> fst p) (concat (map step_references steps)))
   \<and> lg_unresolved (resolve_labels steps) = filter (\<lambda>r. \<not> names_label steps r) (lg_references (resolve_labels steps))
   \<and> lg_unresolved_requires (resolve_labels steps) = filter (\<lambda>r. \<not> names_label steps r) (lg_requires (resolve_labels steps))
   \<and> defs_of name (lg_definitions (resolve_labels steps)) = label_defs name steps"
proof -
  let ?refs = "concat (map step_references steps)"
  let ?graph = "\<lparr>lg_definitions = fold define_labels steps [], lg_references = [], lg_unresolved = [],
        lg_requires = [], lg_unresolved_requires = []\<rparr>"
  have defs: "defs_of n (fold define_labels steps []) = label_defs n steps" for n
    using defs_of_steps [of n steps "[]"] by (simp add: defs_of_def)
  then have "\<forall>(c, r)\<in>set ?refs. defs_of (lr_label r) (lg_definitions ?graph) = label_defs (lr_label r) steps"
    by auto
  from add_references [OF this] defs show ?thesis by (simp add: resolve_labels_def)
qed

end
