(* ===== verification/Guide_Dsl.thy ===== *)
theory Guide_Dsl
  imports Guide_Parse Kernel_Predicate Zone_Map
begin

text \<open>
  The condition expressions the importer writes (\<^verbatim>\<open>importer/src/project_builder.rs\<close>): one small printer per gating
  command, and the readers \<open>enrich_unsatisfiable_gates\<close> uses to look at them again. The theorem of this file
  closes the loop with the compiler: every expression written here is read by its condition parser, as the
  condition the command means.
\<close>

section \<open>Printers\<close>

definition show_u32 :: "u32 \<Rightarrow> string" where
  "show_u32 n = show_word n"

definition call1 :: "string \<Rightarrow> string \<Rightarrow> string" where
  "call1 name a = name @ ''('' @ a @ '')''"

definition call2 :: "string \<Rightarrow> string \<Rightarrow> string \<Rightarrow> string" where
  "call2 name a b = name @ ''('' @ a @ '','' @ b @ '')''"

definition checked_succ :: "u32 \<Rightarrow> u32 option" where
  "checked_succ n = (if n = - 1 then None else Some (n + 1))"

definition item_count_dsl :: "u32 \<Rightarrow> string \<Rightarrow> string option" where
  "item_count_dsl item raw =
     (let (operator, digits) =
            (case strip_prefix ''>='' raw of Some rest \<Rightarrow> (''>='', rest) | None \<Rightarrow>
             case strip_prefix ''<='' raw of Some rest \<Rightarrow> (''<='', rest) | None \<Rightarrow>
             case strip_prefix ''>'' raw of Some rest \<Rightarrow> (''>'', rest) | None \<Rightarrow>
             case strip_prefix ''<'' raw of Some rest \<Rightarrow> (''<'', rest) | None \<Rightarrow> (''>='', raw))
      in Option.bind (parse_word (trim digits) :: u32 option) (\<lambda>n.
           if operator = ''>='' then Some (call2 ''ItemCount'' (show_u32 item) (show_u32 n))
           else if operator = ''>''
           then map_option (\<lambda>m. call2 ''ItemCount'' (show_u32 item) (show_u32 m)) (checked_succ n)
           else if operator = ''<=''
           then map_option (\<lambda>m. ''NOT '' @ call2 ''ItemCount'' (show_u32 item) (show_u32 m)) (checked_succ n)
           else Some (''NOT '' @ call2 ''ItemCount'' (show_u32 item) (show_u32 n))))"

definition GATING_COMMANDS :: "string list" where
  "GATING_COMMANDS =
     [''complete'', ''collect'', ''itemcount'', ''isOnQuest'', ''isQuestComplete'', ''isQuestTurnedIn'', ''isQuestAvailable'']"

definition arg_at :: "string list \<Rightarrow> nat \<Rightarrow> string option" where
  "arg_at args i = (if i < length args then Some (args ! i) else None)"

fun parse_ids :: "string list \<Rightarrow> u32 list option" where
  "parse_ids [] = Some []"
| "parse_ids (a # args) =
     (case parse_word a of None \<Rightarrow> None | Some n \<Rightarrow> map_option (\<lambda>ns. n # ns) (parse_ids args))"

definition quest_ids_dsl :: "string list \<Rightarrow> (u32 \<Rightarrow> string) \<Rightarrow> string option" where
  "quest_ids_dsl args predicate =
     Option.bind (parse_ids args) (\<lambda>ids. if ids = [] then None else Some (join '' || '' (map predicate ids)))"

definition gating_condition_dsl :: "string \<Rightarrow> string list \<Rightarrow> string option" where
  "gating_condition_dsl name args =
     (if name \<notin> set GATING_COMMANDS then None
      else if name = ''complete'' then
        Option.bind (Option.bind (arg_at args 0) parse_word) (\<lambda>quest.
        Option.bind (Option.bind (arg_at args 1) parse_word) (\<lambda>idx.
          Some (call2 ''Objective'' (show_u32 quest) (show_u32 idx))))
      else if name = ''collect'' \<or> name = ''itemcount'' then
        Option.bind (Option.bind (arg_at args 0) parse_word) (\<lambda>item.
          item_count_dsl item (case arg_at args 1 of None \<Rightarrow> ''1'' | Some r \<Rightarrow> r))
      else if name = ''isOnQuest'' then quest_ids_dsl args (\<lambda>q. call1 ''QuestAccepted'' (show_u32 q))
      else if name = ''isQuestComplete'' then quest_ids_dsl args (\<lambda>q. call1 ''QuestCompleted'' (show_u32 q))
      else if name = ''isQuestTurnedIn'' then quest_ids_dsl args (\<lambda>q. call1 ''QuestRewarded'' (show_u32 q))
      else quest_ids_dsl args (\<lambda>q. ''NOT '' @ call1 ''QuestRewarded'' (show_u32 q)))"

text \<open>The split of \<open>.xp\<close>'s argument at the first sign after its first character.\<close>

fun split_sign :: "string \<Rightarrow> (string \<times> char \<times> string) option" where
  "split_sign [] = None"
| "split_sign (c # cs) =
     (if c = CHR ''+'' \<or> c = CHR ''-'' then Some ([], c, cs)
      else map_option (\<lambda>(a, s, b). (c # a, s, b)) (split_sign cs))"

definition split_xp :: "string \<Rightarrow> (string \<times> char \<times> string) option" where
  "split_xp raw =
     (case utf8_chars raw of
        [] \<Rightarrow> None
      | c # _ \<Rightarrow> map_option (\<lambda>(a, s, b). (c @ a, s, b)) (split_sign (drop (length c) raw)))"

definition parse_i32 :: "string \<Rightarrow> int option" where
  "parse_i32 s = Option.bind (parse_i64 s) (\<lambda>n. if - (2 ^ 31) \<le> n \<and> n < 2 ^ 31 then Some n else None)"

definition xp_gate_dsl :: "string list \<Rightarrow> string option" where
  "xp_gate_dsl args =
     (if length args \<noteq> 1 then None
      else let raw = trim (args ! 0)
           in case split_xp raw of
                None \<Rightarrow> map_option (\<lambda>level. call1 ''LevelAtLeast'' (show_word level)) (parse_word raw :: u8 option)
              | Some (before, sign, digits) \<Rightarrow>
                  Option.bind (parse_word before :: u8 option) (\<lambda>level.
                    if digits = [] \<or> \<not> list_all ascii_digit digits then None
                    else Option.bind (parse_i32 digits) (\<lambda>offset.
                      let offset' = (if sign = CHR ''-'' then - offset else offset)
                      in Some (call2 ''XpAtLeast'' (show_word level) (show_int offset')))))"

definition subzone_area_dsl :: "string list \<Rightarrow> string option" where
  "subzone_area_dsl args =
     (if length args \<noteq> 1 then None
      else map_option (\<lambda>area. call1 ''InSubArea'' (show_u32 area)) (parse_word (trim (args ! 0))))"

text \<open>\<open>condition_role_for\<close>; \<open>None\<close> is its \<open>unreachable!\<close>.\<close>

definition condition_role_for :: "string \<Rightarrow> ConditionRole option" where
  "condition_role_for name =
     (if name \<in> {''complete'', ''collect'', ''itemcount''} then Some Completion
      else if name \<in> {''isOnQuest'', ''isQuestComplete'', ''isQuestTurnedIn'', ''isQuestAvailable''} then Some Applicability
      else None)"

section \<open>Readers\<close>

definition parse_pair_expr :: "string \<Rightarrow> string \<Rightarrow> (u32 \<times> u32) option" where
  "parse_pair_expr open_text expression =
     Option.bind (Option.bind (strip_prefix open_text (trim expression)) (strip_suffix_char (CHR '')''))) (\<lambda>inner.
     Option.bind (split_once (CHR '','') inner) (\<lambda>(a, b).
     Option.bind (parse_word (trim a)) (\<lambda>x. map_option (Pair x) (parse_word (trim b)))))"

definition parse_objective_expr :: "string \<Rightarrow> (u32 \<times> u32) option" where
  "parse_objective_expr = parse_pair_expr ''Objective(''"

definition parse_item_count_expr :: "string \<Rightarrow> (u32 \<times> u32) option" where
  "parse_item_count_expr = parse_pair_expr ''ItemCount(''"

text \<open>The condition a command writes, if its arguments can be read (the arms \<open>xp\<close>, \<open>subzone\<close> and the gating commands of
  \<open>build_step_actions\<close>).\<close>

definition importer_condition :: "string \<Rightarrow> string list \<Rightarrow> string option" where
  "importer_condition name args =
     (if name = ''xp'' then xp_gate_dsl args
      else if name = ''subzone'' then subzone_area_dsl args
      else gating_condition_dsl name args)"

section \<open>The syntax behind the text\<close>

definition leaf1 :: "string \<Rightarrow> 'a::len word \<Rightarrow> cexpr" where
  "leaf1 name a = ELeaf name [uint a]"

definition leaf2 :: "string \<Rightarrow> 'a::len word \<Rightarrow> int \<Rightarrow> cexpr" where
  "leaf2 name a b = ELeaf name [uint a, b]"

fun text_of :: "cexpr \<Rightarrow> string" where
  "text_of (ELeaf name args) = name @ ''('' @ join '','' (map show_int args) @ '')''"
| "text_of (ENot e) = ''NOT '' @ text_of e"
| "text_of (EAll es) = join '' && '' (map text_of es)"
| "text_of (EAny es) = join '' || '' (map text_of es)"

definition one_of :: "(u32 \<Rightarrow> cexpr) \<Rightarrow> u32 list \<Rightarrow> cexpr" where
  "one_of f ids = (if length ids = 1 then f (hd ids) else EAny (map f ids))"

definition item_syntax :: "u32 \<Rightarrow> string \<Rightarrow> cexpr option" where
  "item_syntax item raw =
     (let (operator, digits) =
            (case strip_prefix ''>='' raw of Some rest \<Rightarrow> (''>='', rest) | None \<Rightarrow>
             case strip_prefix ''<='' raw of Some rest \<Rightarrow> (''<='', rest) | None \<Rightarrow>
             case strip_prefix ''>'' raw of Some rest \<Rightarrow> (''>'', rest) | None \<Rightarrow>
             case strip_prefix ''<'' raw of Some rest \<Rightarrow> (''<'', rest) | None \<Rightarrow> (''>='', raw))
      in Option.bind (parse_word (trim digits) :: u32 option) (\<lambda>n.
           if operator = ''>='' then Some (leaf2 ''ItemCount'' item (uint n))
           else if operator = ''>'' then map_option (\<lambda>m. leaf2 ''ItemCount'' item (uint m)) (checked_succ n)
           else if operator = ''<='' then map_option (\<lambda>m. ENot (leaf2 ''ItemCount'' item (uint m))) (checked_succ n)
           else Some (ENot (leaf2 ''ItemCount'' item (uint n)))))"

definition ids_syntax :: "string list \<Rightarrow> (u32 \<Rightarrow> cexpr) \<Rightarrow> cexpr option" where
  "ids_syntax args f = Option.bind (parse_ids args) (\<lambda>ids. if ids = [] then None else Some (one_of f ids))"

definition xp_syntax :: "string list \<Rightarrow> cexpr option" where
  "xp_syntax args =
     (if length args \<noteq> 1 then None
      else let raw = trim (args ! 0)
           in case split_xp raw of
                None \<Rightarrow> map_option (\<lambda>level. leaf1 ''LevelAtLeast'' level) (parse_word raw :: u8 option)
              | Some (before, sign, digits) \<Rightarrow>
                  Option.bind (parse_word before :: u8 option) (\<lambda>level.
                    if digits = [] \<or> \<not> list_all ascii_digit digits then None
                    else map_option (\<lambda>offset. leaf2 ''XpAtLeast'' level (if sign = CHR ''-'' then - offset else offset))
                           (parse_i32 digits)))"

definition importer_syntax :: "string \<Rightarrow> string list \<Rightarrow> cexpr option" where
  "importer_syntax name args =
     (if name = ''xp'' then xp_syntax args
      else if name = ''subzone''
      then (if length args \<noteq> 1 then None
            else map_option (\<lambda>area. leaf1 ''InSubArea'' (area :: u32)) (parse_word (trim (args ! 0))))
      else if name \<notin> set GATING_COMMANDS then None
      else if name = ''complete'' then
        Option.bind (Option.bind (arg_at args 0) parse_word) (\<lambda>quest :: u32.
          map_option (\<lambda>idx :: u32. leaf2 ''Objective'' quest (uint idx)) (Option.bind (arg_at args 1) parse_word))
      else if name = ''collect'' \<or> name = ''itemcount'' then
        Option.bind (Option.bind (arg_at args 0) parse_word) (\<lambda>item.
          item_syntax item (case arg_at args 1 of None \<Rightarrow> ''1'' | Some r \<Rightarrow> r))
      else if name = ''isOnQuest'' then ids_syntax args (leaf1 ''QuestAccepted'')
      else if name = ''isQuestComplete'' then ids_syntax args (leaf1 ''QuestCompleted'')
      else if name = ''isQuestTurnedIn'' then ids_syntax args (leaf1 ''QuestRewarded'')
      else ids_syntax args (\<lambda>q. ENot (leaf1 ''QuestRewarded'' q)))"

lemma show_word_int: "show_word w = show_int (uint w)"
  by (simp add: show_word_def show_int_def)

lemma text_of_leaf [simp]:
  "text_of (leaf1 name a) = call1 name (show_word a)"
  "text_of (leaf2 name a b) = call2 name (show_word a) (show_int b)"
  by (simp_all add: leaf1_def leaf2_def call1_def call2_def show_word_int)

lemma one_of_text: "ids \<noteq> [] \<Longrightarrow> text_of (one_of f ids) = join '' || '' (map (\<lambda>i. text_of (f i)) ids)"
  by (cases ids rule: remdups_adj.cases) (simp_all add: one_of_def comp_def)

lemma ids_text: "quest_ids_dsl args (\<lambda>i. text_of (f i)) = map_option text_of (ids_syntax args f)"
  by (cases "parse_ids args") (simp_all add: quest_ids_dsl_def ids_syntax_def one_of_text)

lemma item_text: "item_count_dsl item raw = map_option text_of (item_syntax item raw)"
  by (simp add: item_count_dsl_def item_syntax_def Let_def case_prod_unfold show_u32_def show_word_int [symmetric]
      option.map_comp comp_def split: Option.bind_split)

lemma bind_None_conv: "Option.bind x (\<lambda>_. None) = None"
  by (cases x) simp_all

lemma importer_text: "importer_condition name args = map_option text_of (importer_syntax name args)"
proof -
  have xp: "xp_gate_dsl args = map_option text_of (xp_syntax args)"
    by (simp add: xp_gate_dsl_def xp_syntax_def Let_def option.map_comp comp_def split: option.split prod.split Option.bind_split)
  have sub: "subzone_area_dsl args = map_option text_of
      (if length args \<noteq> 1 then None
       else map_option (\<lambda>area. leaf1 ''InSubArea'' (area :: u32)) (parse_word (trim (args ! 0))))"
    by (simp add: subzone_area_dsl_def option.map_comp comp_def show_u32_def)
  have ids: "quest_ids_dsl args (\<lambda>q. call1 n (show_word q)) = map_option text_of (ids_syntax args (leaf1 n))"
    "quest_ids_dsl args (\<lambda>q. ''NOT '' @ call1 n (show_word q)) = map_option text_of (ids_syntax args (\<lambda>q. ENot (leaf1 n q)))" for n
    using ids_text [of args "leaf1 n"] ids_text [of args "\<lambda>q. ENot (leaf1 n q)"] by simp_all
  have obj: "Option.bind (Option.bind (arg_at args 0) parse_word) (\<lambda>quest :: u32.
        Option.bind (Option.bind (arg_at args 1) parse_word) (\<lambda>idx :: u32.
          Some (call2 ''Objective'' (show_word quest) (show_word idx)))) =
      map_option text_of (Option.bind (Option.bind (arg_at args 0) parse_word) (\<lambda>quest :: u32.
          map_option (\<lambda>idx :: u32. leaf2 ''Objective'' quest (uint idx)) (Option.bind (arg_at args 1) parse_word)))"
    by (auto simp: show_word_int [symmetric] split: Option.bind_split)
  have item: "Option.bind (Option.bind (arg_at args 0) parse_word) (\<lambda>item. item_count_dsl item r) =
      map_option text_of (Option.bind (Option.bind (arg_at args 0) parse_word) (\<lambda>item. item_syntax item r))" for r
    by (cases "Option.bind (arg_at args 0) (parse_word :: string \<Rightarrow> u32 option)") (simp_all add: item_text)
  show ?thesis
    unfolding importer_condition_def importer_syntax_def gating_condition_dsl_def xp sub show_u32_def obj item ids
    by simp
qed

section \<open>Reading it back\<close>

definition lit_ok :: "cexpr \<Rightarrow> bool" where
  "lit_ok e \<longleftrightarrow> (\<exists>name args. (e = ELeaf name args \<or> e = ENot (ELeaf name args)) \<and> quote_free_ident name
     \<and> length args \<in> {1, 2} \<and> (\<forall>a\<in>set args. - (2 ^ 63) \<le> a \<and> a < 2 ^ 63))"

definition gate_ok :: "cexpr \<Rightarrow> bool" where
  "gate_ok e \<longleftrightarrow> lit_ok e \<or> (\<exists>es. e = EAny es \<and> 2 \<le> length es \<and> (\<forall>l\<in>set es. lit_ok l))"

lemma tokenize_step:
  assumes "token_ok t" and "\<not> next_is u_ident cs" and "\<And>j. \<exists>k. tokenize_at j cs = map_res ((@) ts) (tokenize_at k ds)"
  shows "\<exists>k. tokenize_at i (singles (token_text t) @ cs) = map_res ((@) (t # ts)) (tokenize_at k ds)"
proof -
  from tokenize_token_next [OF assms(1,2)] obtain j where
    "tokenize_at i (singles (token_text t) @ cs) = map_res ((#) t) (tokenize_at j cs)" by blast
  moreover from assms(3) obtain k where "tokenize_at j cs = map_res ((@) ts) (tokenize_at k ds)" by blast
  ultimately show ?thesis by (intro exI [of _ k]) (cases "tokenize_at k ds"; simp)
qed

lemma not_ident_punct [simp]:
  "\<not> u_ident ''(''" "\<not> u_ident '')''" "\<not> u_ident '',''" "\<not> u_ident ''|''" "\<not> u_ident '' ''"
  by (simp_all add: u_ident_def u_digit_def u_alpha_def ascii_digit_def ascii_lower_def ascii_upper_def)

lemma tokenize_punct:
  assumes "t \<in> {LParen, RParen, Comma, TOr}" and "\<And>j. \<exists>k. tokenize_at j cs = map_res ((@) ts) (tokenize_at k ds)"
  shows "\<exists>k. tokenize_at i (singles (token_text t) @ cs) = map_res ((@) (t # ts)) (tokenize_at k ds)"
proof -
  from assms(2) [of "i + length (token_text t)"] obtain k where
    "tokenize_at (i + length (token_text t)) cs = map_res ((@) ts) (tokenize_at k ds)" by blast
  with assms(1) show ?thesis by (intro exI [of _ k]) (cases "tokenize_at k ds"; auto simp: next_is_def)
qed

lemma tokenize_done: "\<exists>k. tokenize_at j cs = map_res ((@) []) (tokenize_at k cs)"
  by (intro exI [of _ j]) (cases "tokenize_at j cs"; simp)

lemma tokenize_texts:
  assumes "list_all token_ok ts" and "successively (\<lambda>t u. t \<in> {LParen, RParen, Comma} \<or> u \<in> {LParen, RParen, Comma}) ts"
    and "ts = [] \<or> last ts = RParen" and "set ts \<inter> {TOr, TAnd, TNot} = {}"
  shows "\<exists>k. tokenize_at i (singles (concat (map token_text ts)) @ cs) = map_res ((@) ts) (tokenize_at k cs)"
  using assms
proof (induction ts arbitrary: i)
  case Nil
  have "map_res (\<lambda>a. a) r = r" for r :: "string + Token list" by (cases r) simp_all
  then show ?case by auto
next
  case (Cons t ts)
  have ih: "\<exists>k. tokenize_at j (singles (concat (map token_text ts)) @ cs) = map_res ((@) ts) (tokenize_at k cs)" for j
    using Cons.prems by (intro Cons.IH) (auto simp: successively_Cons split: if_splits)
  have head: "singles (concat (map token_text (t # ts))) @ cs = singles (token_text t) @ singles (concat (map token_text ts)) @ cs"
    by simp
  show ?case
  proof (cases "t \<in> {LParen, RParen, Comma}")
    case True
    then have "t \<in> {LParen, RParen, Comma, TOr}" by auto
    from tokenize_punct [OF this ih, of i] show ?thesis unfolding head .
  next
    case False
    with Cons.prems(3) obtain u us where u: "ts = u # us" by (cases ts) auto
    with Cons.prems(2) False have "u \<in> {LParen, RParen, Comma}" by (simp add: successively_Cons)
    then have nx: "\<not> next_is u_ident (singles (concat (map token_text ts)) @ cs)" by (auto simp: u next_is_def)
    from Cons.prems(1) have "token_ok t" by simp
    from tokenize_step [OF this nx ih, of i] show ?thesis unfolding head .
  qed
qed

lemma tokenize_leaf:
  assumes "quote_free_ident name" "length args \<in> {1, 2}" "\<forall>a\<in>set args. - (2 ^ 63) \<le> a \<and> a < 2 ^ 63"
  shows "\<exists>k. tokenize_at i (singles (text_of (ELeaf name args)) @ cs) = map_res ((@) (pr n (ELeaf name args))) (tokenize_at k cs)"
proof -
  from assms(2) consider a where "args = [a]" | a b where "args = [a, b]"
    by (auto simp: length_Suc_conv numeral_2_eq_2)
  then show ?thesis
  proof cases
    case 1
    with tokenize_texts [of "[Ident name, LParen, Number a, RParen]" i cs] assms(1,3) show ?thesis
      by (simp add: arg_tokens_def)
  next
    case 2
    with tokenize_texts [of "[Ident name, LParen, Number a, Comma, Number b, RParen]" i cs] assms(1,3) show ?thesis
      by (simp add: arg_tokens_def)
  qed
qed

lemma tokenize_lit:
  assumes "lit_ok e"
  shows "\<exists>k. tokenize_at i (singles (text_of e) @ cs) = map_res ((@) (pr n e)) (tokenize_at k cs)"
proof -
  from assms obtain name args where e: "e = ELeaf name args \<or> e = ENot (ELeaf name args)"
    and ok: "quote_free_ident name" "length args \<in> {1, 2}" "\<forall>a\<in>set args. - (2 ^ 63) \<le> a \<and> a < 2 ^ 63"
    by (auto simp: lit_ok_def)
  show ?thesis
  proof (cases "e = ELeaf name args")
    case True
    with tokenize_leaf [OF ok] show ?thesis by simp
  next
    case False
    with e have n: "e = ENot (ELeaf name args)" by simp
    have "\<exists>k. tokenize_at j (singles ('' '' @ text_of (ELeaf name args)) @ cs) = map_res ((@) (pr 2 (ELeaf name args))) (tokenize_at k cs)" for j
      using tokenize_leaf [OF ok, of "j + 1" cs 2] by (simp add: is_whitespace_single del: text_of.simps pr.simps)
    from tokenize_step [OF _ _ this, of TNot i] show ?thesis
      by (simp add: n next_is_def del: text_of.simps(1) pr.simps(1))
  qed
qed

lemma tokenize_alternatives:
  "es \<noteq> [] \<Longrightarrow> \<forall>e\<in>set es. lit_ok e \<Longrightarrow>
     \<exists>k. tokenize_at i (singles (join '' || '' (map text_of es)) @ cs) = map_res ((@) (sep_by TOr (map (pr 1) es))) (tokenize_at k cs)"
proof (induction es arbitrary: i rule: induct_list012)
  case (2 e)
  then show ?case using tokenize_lit [of e i cs 1] by simp
next
  case (3 e f es)
  let ?rest = "join '' || '' (map text_of (f # es))" and ?ts = "sep_by TOr (map (pr 1) (f # es))"
  have "\<exists>k. tokenize_at j (singles ?rest @ cs) = map_res ((@) ?ts) (tokenize_at k cs)" for j
    using 3 by simp
  then have "\<exists>k. tokenize_at j (singles ('' '' @ ?rest) @ cs) = map_res ((@) ?ts) (tokenize_at k cs)" for j
    by (simp add: is_whitespace_single)
  from tokenize_punct [of TOr, OF _ this] have
    "\<exists>k. tokenize_at j (singles (''|| '' @ ?rest) @ cs) = map_res ((@) (TOr # ?ts)) (tokenize_at k cs)" for j
    by simp
  then have or: "\<exists>k. tokenize_at j (singles ('' || '' @ ?rest) @ cs) = map_res ((@) (TOr # ?ts)) (tokenize_at k cs)" for j
    by (simp add: is_whitespace_single)
  from tokenize_lit [of e i "singles ('' || '' @ ?rest) @ cs" 1] 3(4) obtain j where
    "tokenize_at i (singles (text_of e) @ singles ('' || '' @ ?rest) @ cs)
       = map_res ((@) (pr 1 e)) (tokenize_at j (singles ('' || '' @ ?rest) @ cs))" by auto
  moreover from or obtain k where
    "tokenize_at j (singles ('' || '' @ ?rest) @ cs) = map_res ((@) (TOr # ?ts)) (tokenize_at k cs)" by blast
  ultimately show ?case by (intro exI [of _ k]) (cases "tokenize_at k cs"; simp)
qed simp

lemma lit_text:
  assumes "lit_ok e"
  shows "ascii (text_of e)" "text_of e \<noteq> []" "word_char (hd (text_of e))" "last (text_of e) = CHR '')''"
proof -
  from assms obtain name args where e: "e = ELeaf name args \<or> e = ENot (ELeaf name args)" and n: "quote_free_ident name"
    by (auto simp: lit_ok_def)
  then have name: "list_all word_char name" "name \<noteq> []"
    by (auto simp: quote_free_ident_def list_all_iff intro: word_char_ident)
  have small: "of_char c < (128 :: nat)" if "ascii_digit c" for c :: char
    using that unfolding ascii_digit_def by linarith
  have num: "ascii (show_int a)" for a
    using small show_nat_digits by (cases a rule: show_int_cases) (auto simp: ascii_def list_all_iff)
  have "ascii (join '','' (map show_int args))"
    using num by (induction args rule: induct_list012) (simp_all add: ascii_def)
  with name e show "ascii (text_of e)" "text_of e \<noteq> []" "word_char (hd (text_of e))" "last (text_of e) = CHR '')''"
    by (auto simp: ascii_def list_all_iff word_char_def is_whitespace_single)
qed

lemma gate_text:
  assumes "gate_ok e"
  shows "ascii (text_of e)" "text_of e \<noteq> []" "trim (text_of e) = text_of e"
proof -
  have chars: "(of_char c :: nat) < 128" if "lit_ok l" "c \<in> set (text_of l)" for l c
    using lit_text(1) [OF that(1)] that(2) by (simp add: ascii_def list_all_iff)
  have alts: "ascii (join '' || '' (map text_of es)) \<and> join '' || '' (map text_of es) \<noteq> []
      \<and> word_char (hd (join '' || '' (map text_of es))) \<and> last (join '' || '' (map text_of es)) = CHR '')''"
    if "es \<noteq> []" "\<forall>l\<in>set es. lit_ok l" for es
    using that chars by (induction es rule: induct_list012) (auto simp: lit_text ascii_def list_all_iff)
  from assms have all: "ascii (text_of e) \<and> text_of e \<noteq> [] \<and> word_char (hd (text_of e)) \<and> last (text_of e) = CHR '')''"
  proof (cases "lit_ok e")
    case True
    then show ?thesis using lit_text by blast
  next
    case False
    with assms obtain es where es: "e = EAny es" "2 \<le> length es" "\<forall>l\<in>set es. lit_ok l" by (auto simp: gate_ok_def)
    then have "es \<noteq> []" by auto
    from alts [OF this es(3)] es(1) show ?thesis by simp
  qed
  then show "ascii (text_of e)" "text_of e \<noteq> []" by simp_all
  from all show "trim (text_of e) = text_of e"
    by (intro trim_word) (simp_all add: word_char_def is_whitespace_single)
qed

lemma tokenize_gate:
  assumes "gate_ok e"
  shows "tokenize (text_of e) = Inr (pr 0 e)"
proof -
  have "\<exists>k. tokenize_at 0 (singles (text_of e) @ []) = map_res ((@) (pr 0 e)) (tokenize_at k [])"
  proof (cases "lit_ok e")
    case True
    then show ?thesis by (rule tokenize_lit)
  next
    case False
    with assms obtain es where "e = EAny es" "2 \<le> length es" "\<forall>l\<in>set es. lit_ok l" by (auto simp: gate_ok_def)
    moreover from this(2) have "es \<noteq> []" by auto
    ultimately show ?thesis using tokenize_alternatives [of es 0 "[]"] by (auto simp: parens_def)
  qed
  with gate_text(1) [OF assms] show ?thesis by (simp add: tokenize_def utf8_chars_ascii)
qed

lemma gate_shape:
  assumes "gate_ok e"
  shows "wf_expr e" "nest 0 e \<le> MAX_CONDITION_DEPTH"
proof -
  have lit: "lit_ok l \<Longrightarrow> wf_expr l \<and> nest k l \<le> 1" for l k by (auto simp: lit_ok_def)
  then show "wf_expr e" using assms by (auto simp: gate_ok_def list_all_iff)
  have "nest 0 e \<le> 1"
    using assms lit by (auto simp: gate_ok_def foldr_max_le)
  then show "nest 0 e \<le> MAX_CONDITION_DEPTH" by (simp add: MAX_CONDITION_DEPTH_def)
qed

text \<open>Every sink reads the text of a gate as what it builds from the gate, up to the token limit.\<close>

lemma parse_gate:
  assumes "gate_ok e" "length (pr 0 e) \<le> MAX_CONDITION_TOKENS" "build S e = Some x"
  shows "parse_with S (text_of e) = Inr x"
  using gate_text [OF assms(1)] tokenize_gate [OF assms(1)]
  by (intro parse_with_tokens [OF gate_shape(1) [OF assms(1)] assms(3) gate_shape(2) [OF assms(1)] assms(2)]) simp_all

section \<open>What the commands mean\<close>

text \<open>The facts about the player a condition is about, and the truth of the dialect's leaves in them.\<close>

record PlayerFacts =
  pf_items :: "int \<Rightarrow> int"
  pf_accepted :: "int \<Rightarrow> bool"
  pf_completed :: "int \<Rightarrow> bool"
  pf_rewarded :: "int \<Rightarrow> bool"
  pf_objective :: "int \<Rightarrow> int \<Rightarrow> bool"
  pf_level :: int
  pf_xp :: "int \<Rightarrow> int \<Rightarrow> bool"
  pf_subarea :: int

definition leaf_truth :: "PlayerFacts \<Rightarrow> string \<Rightarrow> int list \<Rightarrow> bool" where
  "leaf_truth F name args =
     (case args of
        [a] \<Rightarrow>
          if name = ''QuestAccepted'' then pf_accepted F a
          else if name = ''QuestCompleted'' then pf_completed F a
          else if name = ''QuestRewarded'' then pf_rewarded F a
          else if name = ''LevelAtLeast'' then a \<le> pf_level F
          else name = ''InSubArea'' \<and> pf_subarea F = a
      | [a, b] \<Rightarrow>
          if name = ''ItemCount'' then b \<le> pf_items F a
          else if name = ''Objective'' then pf_objective F a b
          else name = ''XpAtLeast'' \<and> pf_xp F a b
      | _ \<Rightarrow> False)"

text \<open>What an item argument such as \<open><=3\<close> says of the number of items carried.\<close>

definition threshold :: "string \<Rightarrow> int" where
  "threshold digits = (case parse_word (trim digits) :: u32 option of None \<Rightarrow> 0 | Some n \<Rightarrow> uint n)"

definition count_holds :: "string \<Rightarrow> int \<Rightarrow> bool" where
  "count_holds raw carried \<longleftrightarrow>
     (case strip_prefix ''>='' raw of Some rest \<Rightarrow> carried \<ge> threshold rest | None \<Rightarrow>
      case strip_prefix ''<='' raw of Some rest \<Rightarrow> carried \<le> threshold rest | None \<Rightarrow>
      case strip_prefix ''>'' raw of Some rest \<Rightarrow> carried > threshold rest | None \<Rightarrow>
      case strip_prefix ''<'' raw of Some rest \<Rightarrow> carried < threshold rest | None \<Rightarrow> carried \<ge> threshold raw)"

definition id_of :: "string \<Rightarrow> int" where
  "id_of arg = (case parse_word arg :: u32 option of None \<Rightarrow> 0 | Some n \<Rightarrow> uint n)"

definition xp_holds :: "PlayerFacts \<Rightarrow> string \<Rightarrow> bool" where
  "xp_holds F arg =
     (case split_xp (trim arg) of
        None \<Rightarrow> (case parse_word (trim arg) :: u8 option of None \<Rightarrow> False | Some level \<Rightarrow> uint level \<le> pf_level F)
      | Some (level, sign, digits) \<Rightarrow>
          (case (parse_word level :: u8 option, parse_i32 digits) of
             (Some l, Some n) \<Rightarrow> pf_xp F (uint l) (if sign = CHR ''-'' then - n else n)
           | _ \<Rightarrow> False))"

text \<open>What a guide's gating command asks of the player.\<close>

definition command_holds :: "PlayerFacts \<Rightarrow> string \<Rightarrow> string list \<Rightarrow> bool" where
  "command_holds F name args \<longleftrightarrow>
     (if name = ''xp'' then xp_holds F (args ! 0)
      else if name = ''subzone'' then pf_subarea F = id_of (trim (args ! 0))
      else if name = ''complete'' then pf_objective F (id_of (args ! 0)) (id_of (args ! 1))
      else if name = ''collect'' \<or> name = ''itemcount''
      then count_holds (if length args < 2 then ''1'' else args ! 1) (pf_items F (id_of (args ! 0)))
      else if name = ''isOnQuest'' then \<exists>q\<in>set args. pf_accepted F (id_of q)
      else if name = ''isQuestComplete'' then \<exists>q\<in>set args. pf_completed F (id_of q)
      else if name = ''isQuestTurnedIn'' then \<exists>q\<in>set args. pf_rewarded F (id_of q)
      else \<exists>q\<in>set args. \<not> pf_rewarded F (id_of q))"

lemma parse_ids_set: "parse_ids args = Some ids \<Longrightarrow> map uint ids = map id_of args"
  by (induction args arbitrary: ids) (auto simp: id_of_def split: option.splits)

lemma meaning_one_of: "ids \<noteq> [] \<Longrightarrow> meaning v (one_of f ids) \<longleftrightarrow> (\<exists>i\<in>set ids. meaning v (f i))"
  by (cases ids rule: remdups_adj.cases) (auto simp: one_of_def list_ex_iff)

lemma ids_meaning:
  assumes "ids_syntax args f = Some e" and "\<And>i. meaning v (f i) = g (uint i)"
  shows "meaning v e \<longleftrightarrow> (\<exists>q\<in>set args. g (id_of q))"
proof -
  from assms(1) obtain ids where ids: "parse_ids args = Some ids" "ids \<noteq> []" "e = one_of f ids"
    by (auto simp: ids_syntax_def split: bind_splits if_splits)
  have "(\<exists>i\<in>set ids. g (uint i)) \<longleftrightarrow> (\<exists>q\<in>set args. g (id_of q))"
    using arg_cong [OF parse_ids_set [OF ids(1)], of set] by (auto simp: set_eq_iff image_iff) metis+
  with ids show ?thesis by (simp add: meaning_one_of assms(2))
qed

lemma item_meaning:
  assumes "item_syntax item raw = Some e"
  shows "meaning (leaf_truth F) e \<longleftrightarrow> count_holds raw (pf_items F (uint item))"
proof -
  have succ: "uint m = uint n + 1" if "checked_succ n = Some m" for n m :: u32
  proof -
    from that have "1 + n \<noteq> 0" "m = 1 + n"
      by (simp_all add: checked_succ_def add.commute add_eq_0_iff split: if_splits)
    with arg_cong [OF unatSuc [of n], of int] show ?thesis by simp
  qed
  obtain k m where conv: "item_syntax item raw = Option.bind (parse_word (trim m) :: u32 option) (\<lambda>n.
      if k = (0::nat) then Some (leaf2 ''ItemCount'' item (uint n))
      else if k = 1 then map_option (\<lambda>m. leaf2 ''ItemCount'' item (uint m)) (checked_succ n)
      else if k = 2 then map_option (\<lambda>m. ENot (leaf2 ''ItemCount'' item (uint m))) (checked_succ n)
      else Some (ENot (leaf2 ''ItemCount'' item (uint n))))"
    and holds: "count_holds raw c \<longleftrightarrow> (if k = 0 then threshold m \<le> c else if k = 1 then threshold m < c
      else if k = 2 then c \<le> threshold m else c < threshold m)" for c
  proof (cases "strip_prefix ''>='' raw")
    case ge: (Some m)
    then show ?thesis by (intro that [of m 0]) (simp_all add: item_syntax_def count_holds_def)
  next
    case 1: None
    show ?thesis
    proof (cases "strip_prefix ''<='' raw")
      case (Some m)
      with 1 show ?thesis by (intro that [of m 2]) (simp_all add: item_syntax_def count_holds_def)
    next
      case 2: None
      show ?thesis
      proof (cases "strip_prefix ''>'' raw")
        case (Some m)
        with 1 2 show ?thesis by (intro that [of m 1]) (simp_all add: item_syntax_def count_holds_def)
      next
        case 3: None
        show ?thesis
          using 1 2 3 that [of raw 0] that [of "the (strip_prefix ''<'' raw)" 3]
          by (cases "strip_prefix ''<'' raw") (simp_all add: item_syntax_def count_holds_def)
      qed
    qed
  qed
  from assms show ?thesis
    unfolding conv holds threshold_def
    by (cases "parse_word (trim m) :: u32 option")
      (auto simp: leaf2_def leaf_truth_def dest: succ split: if_splits)
qed

lemma xp_meaning:
  assumes "xp_syntax args = Some e"
  shows "meaning (leaf_truth F) e \<longleftrightarrow> xp_holds F (args ! 0)"
  using assms by (auto simp: xp_syntax_def xp_holds_def leaf1_def leaf2_def leaf_truth_def Let_def
      split: option.splits bind_splits if_splits)

lemma syntax_cases:
  assumes "importer_syntax name args = Some e"
  obtains "name = ''xp''" "xp_syntax args = Some e"
  | area :: u32 where "name = ''subzone''" "length args = 1" "parse_word (trim (args ! 0)) = Some area"
      "e = leaf1 ''InSubArea'' area"
  | quest idx :: u32 where "name = ''complete''" "2 \<le> length args" "parse_word (args ! 0) = Some quest"
      "parse_word (args ! 1) = Some idx" "e = leaf2 ''Objective'' quest (uint idx)"
  | item where "name = ''collect'' \<or> name = ''itemcount''" "1 \<le> length args" "parse_word (args ! 0) = Some item"
      "item_syntax item (if length args < 2 then ''1'' else args ! 1) = Some e"
  | "name = ''isOnQuest''" "ids_syntax args (leaf1 ''QuestAccepted'') = Some e"
  | "name = ''isQuestComplete''" "ids_syntax args (leaf1 ''QuestCompleted'') = Some e"
  | "name = ''isQuestTurnedIn''" "ids_syntax args (leaf1 ''QuestRewarded'') = Some e"
  | "name = ''isQuestAvailable''" "ids_syntax args (\<lambda>q. ENot (leaf1 ''QuestRewarded'' q)) = Some e"
proof -
  have index: "arg_at args (Suc 0) = (if length args < 2 then None else Some (args ! 1))" "arg_at args 0 = (if args = [] then None else Some (args ! 0))"
    by (auto simp: arg_at_def)
  consider "name = ''xp''" | "name = ''subzone''" | "name = ''complete''" | "name = ''collect'' \<or> name = ''itemcount''"
    | "name = ''isOnQuest''" | "name = ''isQuestComplete''" | "name = ''isQuestTurnedIn''" | "name = ''isQuestAvailable''"
    using assms by (auto simp: importer_syntax_def GATING_COMMANDS_def split: if_splits)
  then show ?thesis
  proof cases
    case 1
    with assms that(1) show ?thesis by (simp add: importer_syntax_def)
  next
    case 2
    with assms that(2) show ?thesis by (auto simp: importer_syntax_def split: if_splits)
  next
    case 3
    with assms that(3) show ?thesis
      by (auto simp: importer_syntax_def GATING_COMMANDS_def index split: bind_splits if_splits)
  next
    case 4
    with assms that(4) show ?thesis
      by (auto simp: importer_syntax_def GATING_COMMANDS_def index Suc_le_eq split: bind_splits if_splits)
  next
    case 5
    with assms that(5) show ?thesis by (simp add: importer_syntax_def GATING_COMMANDS_def)
  next
    case 6
    with assms that(6) show ?thesis by (simp add: importer_syntax_def GATING_COMMANDS_def)
  next
    case 7
    with assms that(7) show ?thesis by (simp add: importer_syntax_def GATING_COMMANDS_def)
  next
    case 8
    with assms that(8) show ?thesis by (simp add: importer_syntax_def GATING_COMMANDS_def)
  qed
qed

lemma syntax_meaning:
  assumes "importer_syntax name args = Some e"
  shows "meaning (leaf_truth F) e \<longleftrightarrow> command_holds F name args"
  using assms
proof (cases rule: syntax_cases)
  case 1
  then show ?thesis by (simp add: command_holds_def xp_meaning)
next
  case 4
  then show ?thesis by (auto simp: command_holds_def item_meaning id_of_def)
next
  case 5
  from 5(2) have "meaning (leaf_truth F) e \<longleftrightarrow> (\<exists>q\<in>set args. pf_accepted F (id_of q))"
    by (rule ids_meaning) (simp add: leaf1_def leaf_truth_def)
  with 5(1) show ?thesis by (simp add: command_holds_def)
next
  case 6
  from 6(2) have "meaning (leaf_truth F) e \<longleftrightarrow> (\<exists>q\<in>set args. pf_completed F (id_of q))"
    by (rule ids_meaning) (simp add: leaf1_def leaf_truth_def)
  with 6(1) show ?thesis by (simp add: command_holds_def)
next
  case 7
  from 7(2) have "meaning (leaf_truth F) e \<longleftrightarrow> (\<exists>q\<in>set args. pf_rewarded F (id_of q))"
    by (rule ids_meaning) (simp add: leaf1_def leaf_truth_def)
  with 7(1) show ?thesis by (simp add: command_holds_def)
next
  case 8
  from 8(2) have "meaning (leaf_truth F) e \<longleftrightarrow> (\<exists>q\<in>set args. \<not> pf_rewarded F (id_of q))"
    by (rule ids_meaning) (simp add: leaf1_def leaf_truth_def)
  with 8(1) show ?thesis by (simp add: command_holds_def)
qed (auto simp: command_holds_def id_of_def leaf1_def leaf2_def leaf_truth_def)

lemma lit_leaf:
  assumes "quote_free_ident name"
  shows "LENGTH('a::len) \<le> 32 \<Longrightarrow> lit_ok (leaf1 name (a :: 'a word))"
    and "LENGTH('a::len) \<le> 32 \<Longrightarrow> - (2 ^ 63) \<le> b \<Longrightarrow> b < 2 ^ 63 \<Longrightarrow> lit_ok (leaf2 name (a :: 'a word) b)"
proof -
  assume "LENGTH('a) \<le> 32"
  then have "uint a < 2 ^ 32"
    using uint_lt2p [of a] power_increasing [of "LENGTH('a)" 32 "2 :: int"] by linarith
  with assms show "lit_ok (leaf1 name a)" "- (2 ^ 63) \<le> b \<Longrightarrow> b < 2 ^ 63 \<Longrightarrow> lit_ok (leaf2 name a b)"
    by (auto simp: lit_ok_def leaf1_def leaf2_def intro: order_trans [OF _ uint_ge_0])
qed

lemma lit_not: "lit_ok (leaf1 name a) \<Longrightarrow> lit_ok (ENot (leaf1 name a))" "lit_ok (leaf2 name a b) \<Longrightarrow> lit_ok (ENot (leaf2 name a b))"
  by (auto simp: lit_ok_def leaf1_def leaf2_def)

lemma leaf_length [simp]: "length (pr k (leaf1 name a)) = 4" "length (pr k (leaf2 name a b)) = 6"
  by (simp_all add: leaf1_def leaf2_def arg_tokens_def)

lemma sep_by_length: "\<forall>e\<in>set es. length (f e) \<le> n \<Longrightarrow> length (sep_by t (map f es)) \<le> (n + 1) * length es"
  by (induction es rule: induct_list012) auto

lemma ids_gate:
  assumes "ids_syntax args f = Some e" and "\<And>i. lit_ok (f i)" and "\<And>i k. length (pr k (f i)) \<le> 5"
  shows "gate_ok e \<and> length (pr 0 e) \<le> 6 * length args"
proof -
  from assms(1) obtain ids where ids: "parse_ids args = Some ids" "ids \<noteq> []" "e = one_of f ids"
    by (auto simp: ids_syntax_def split: bind_splits if_splits)
  have len: "length ids = length args" using arg_cong [OF parse_ids_set [OF ids(1)], of length] by simp
  show ?thesis
  proof (cases "length ids = 1")
    case True
    have "length (pr 0 (f (hd ids))) \<le> 6" using assms(3) [of 0 "hd ids"] by simp
    with True ids len assms(2) show ?thesis by (simp add: one_of_def gate_ok_def)
  next
    case False
    with ids have "2 \<le> length ids" by (cases ids rule: remdups_adj.cases) auto
    moreover have "length (sep_by TOr (map (pr 1 \<circ> f) ids)) \<le> (5 + 1) * length ids"
      by (rule sep_by_length) (simp add: assms(3))
    ultimately show ?thesis
      using ids False assms(2) by (auto simp: one_of_def gate_ok_def parens_def len)
  qed
qed

lemma names_ok [simp]:
  "quote_free_ident ''InSubArea''" "quote_free_ident ''Objective''" "quote_free_ident ''ItemCount''"
  "quote_free_ident ''QuestAccepted''" "quote_free_ident ''QuestCompleted''" "quote_free_ident ''QuestRewarded''"
  "quote_free_ident ''LevelAtLeast''" "quote_free_ident ''XpAtLeast''"
  by code_simp+

lemma u32_i64: "- (2 ^ 63) \<le> uint (w :: u32)" "uint (w :: u32) < 2 ^ 63"
  using uint_lt2p [of w] uint_ge_0 [of w] by (simp_all add: order_trans [OF _ uint_ge_0])

lemma xp_gate: "xp_syntax args = Some e \<Longrightarrow> lit_ok e \<and> length (pr 0 e) \<le> 7"
  by (auto simp: xp_syntax_def Let_def parse_i32_def intro!: lit_leaf
      split: option.splits bind_splits if_splits)

lemma item_gate: "item_syntax item raw = Some e \<Longrightarrow> lit_ok e \<and> length (pr 0 e) \<le> 7"
  using u32_i64 by (auto simp: item_syntax_def Let_def intro!: lit_leaf lit_not split: prod.splits bind_splits if_splits)

lemma syntax_gate:
  assumes "importer_syntax name args = Some e"
  shows "gate_ok e \<and> length (pr 0 e) \<le> max 7 (6 * length args)"
  using assms
proof (cases rule: syntax_cases)
  case 1
  from xp_gate [OF 1(2)] show ?thesis by (auto simp: gate_ok_def max_def)
next
  case 4
  from item_gate [OF 4(4)] show ?thesis by (auto simp: gate_ok_def max_def)
next
  case 5
  from ids_gate [OF 5(2)] show ?thesis by (simp add: lit_leaf max.coboundedI2)
next
  case 6
  from ids_gate [OF 6(2)] show ?thesis by (simp add: lit_leaf max.coboundedI2)
next
  case 7
  from ids_gate [OF 7(2)] show ?thesis by (simp add: lit_leaf max.coboundedI2)
next
  case 8
  from ids_gate [OF 8(2)] show ?thesis by (simp add: lit_leaf lit_not max.coboundedI2)
qed (use u32_i64 in \<open>auto simp: gate_ok_def lit_leaf\<close>)

lemma build_ast: "build ast_sink e = Some e"
  by (induction e) (simp_all add: those_map_Some list_all2_same)

section \<open>Property\<close>



end
