(* ===== verification/Query_Model.thy ===== *)
theory Query_Model
  imports Guide_Text
begin

text \<open>
  What the importer asks of the game database: the shared answer types (\<^verbatim>\<open>query-types/src/lib.rs\<close>), the client's
  errors (\<^verbatim>\<open>queryclient/src/error.rs\<close>) and the client that answers from memory (\<^verbatim>\<open>queryclient/src/memory.rs\<close>). The
  HTTP client answers from a server and is a parameter of the model.
\<close>

section \<open>Answers\<close>

record WorldPos =
  wp_map :: u32
  wp_x :: f32
  wp_y :: f32
  wp_z :: f32

record QuestSummary =
  qs_id :: u32
  qs_title :: string
  qs_level :: u8
  qs_min_level :: u8
  qs_zone :: string

datatype ObjectiveKind = KillCreature | CollectItem | InteractObject

record QuestObjective =
  qo_index :: u8
  qo_kind :: ObjectiveKind
  qo_target_entry :: u32
  qo_required :: u32
  qo_sources :: "u32 list"

record QuestDetail =
  qd_id :: u32
  qd_title :: string
  qd_level :: u8
  qd_min_level :: u8
  qd_required_quests :: "u32 list"
  qd_next_quests :: "u32 list"
  qd_giver_entry :: "u32 option"
  qd_finisher_entry :: "u32 option"
  qd_objectives :: "string list"
  qd_structured_objectives :: "QuestObjective list"

record NpcSummary =
  ns_entry :: u32
  ns_name :: string
  ns_faction :: string

record LootEntry =
  le_item :: u32
  le_name :: string
  le_drop_chance :: f32

record NpcQuestRef =
  nq_quest_id :: u32
  nq_title :: string
  nq_role :: string

record NpcDetail =
  nd_entry :: u32
  nd_name :: string
  nd_faction :: string
  nd_positions :: "WorldPos list"
  nd_roles :: "string list"
  nd_level :: u8
  nd_classification :: string
  nd_loot :: "LootEntry list"
  nd_quests :: "NpcQuestRef list"

record VendorItem =
  vi_item_entry :: u32
  vi_name :: string
  vi_price :: u32

record VendorInfo =
  vd_entry :: u32
  vd_name :: string
  vd_sells :: "VendorItem list"
  vd_repairs :: bool

record TrainerInfo =
  tr_entry :: u32
  tr_name :: string
  tr_trains :: "string list"

record FlightInfo =
  fl_entry :: u32
  fl_name :: string
  fl_destinations :: "string list"

record ObjectInfo =
  ob_entry :: u32
  ob_name :: string
  ob_kind :: string
  ob_position :: WorldPos

record CreaturePolygon =
  cp_creature_entry :: u32
  cp_polygon :: "WorldPos list"

section \<open>Errors\<close>

datatype QueryClientError =
    NotFound string
  | Transport string
  | Server u16 string
  | Decode string

definition show_query_error :: "QueryClientError \<Rightarrow> string" where
  "show_query_error e =
     (case e of
        NotFound m \<Rightarrow> ''not found: '' @ m
      | Transport m \<Rightarrow> ''transport error: '' @ m
      | Server status body \<Rightarrow> ''server error '' @ show_word status @ '': '' @ body
      | Decode m \<Rightarrow> ''decode error: '' @ m)"

section \<open>The client in memory\<close>

record MemoryQueryClient =
  mc_quests :: "QuestDetail list"
  mc_npcs :: "NpcDetail list"
  mc_vendors :: "VendorInfo list"
  mc_trainers :: "TrainerInfo list"
  mc_flights :: "FlightInfo list"
  mc_objects :: "ObjectInfo list"
  mc_creature_polygons :: "CreaturePolygon list"
  mc_item_sources :: "(u32 \<times> u32 list) list"

definition memory_new :: MemoryQueryClient where
  "memory_new =
     \<lparr>mc_quests = [], mc_npcs = [], mc_vendors = [], mc_trainers = [], mc_flights = [], mc_objects = [],
      mc_creature_polygons = [], mc_item_sources = []\<rparr>"

definition with_quest :: "QuestDetail \<Rightarrow> MemoryQueryClient \<Rightarrow> MemoryQueryClient" where
  "with_quest q m = m\<lparr>mc_quests := mc_quests m @ [q]\<rparr>"

definition with_npc :: "NpcDetail \<Rightarrow> MemoryQueryClient \<Rightarrow> MemoryQueryClient" where
  "with_npc n m = m\<lparr>mc_npcs := mc_npcs m @ [n]\<rparr>"

definition with_vendor :: "VendorInfo \<Rightarrow> MemoryQueryClient \<Rightarrow> MemoryQueryClient" where
  "with_vendor v m = m\<lparr>mc_vendors := mc_vendors m @ [v]\<rparr>"

definition with_trainer :: "TrainerInfo \<Rightarrow> MemoryQueryClient \<Rightarrow> MemoryQueryClient" where
  "with_trainer t m = m\<lparr>mc_trainers := mc_trainers m @ [t]\<rparr>"

definition with_flight :: "FlightInfo \<Rightarrow> MemoryQueryClient \<Rightarrow> MemoryQueryClient" where
  "with_flight f m = m\<lparr>mc_flights := mc_flights m @ [f]\<rparr>"

definition with_object :: "ObjectInfo \<Rightarrow> MemoryQueryClient \<Rightarrow> MemoryQueryClient" where
  "with_object x m = m\<lparr>mc_objects := mc_objects m @ [x]\<rparr>"

definition with_creature_polygon :: "CreaturePolygon \<Rightarrow> MemoryQueryClient \<Rightarrow> MemoryQueryClient" where
  "with_creature_polygon p m = m\<lparr>mc_creature_polygons := mc_creature_polygons m @ [p]\<rparr>"

definition with_item_sources :: "u32 \<Rightarrow> u32 list \<Rightarrow> MemoryQueryClient \<Rightarrow> MemoryQueryClient" where
  "with_item_sources item sources m = m\<lparr>mc_item_sources := mc_item_sources m @ [(item, sources)]\<rparr>"

definition memory_find :: "string \<Rightarrow> ('a \<Rightarrow> u32) \<Rightarrow> 'a list \<Rightarrow> u32 \<Rightarrow> QueryClientError + 'a" where
  "memory_find kind entry xs k =
     ok_or (NotFound (kind @ '' '' @ show_word k)) (List.find (\<lambda>x. entry x = k) xs)"

definition memory_search_quests :: "MemoryQueryClient \<Rightarrow> string \<Rightarrow> QueryClientError + QuestSummary list" where
  "memory_search_quests m query =
     (let q = to_ascii_lowercase query
      in Inr (map (\<lambda>d. \<lparr>qs_id = qd_id d, qs_title = qd_title d, qs_level = qd_level d, qs_min_level = qd_min_level d,
                        qs_zone = []\<rparr>)
               (filter (\<lambda>d. str_contains (to_ascii_lowercase (qd_title d)) q) (mc_quests m))))"

definition memory_get_quest :: "MemoryQueryClient \<Rightarrow> u32 \<Rightarrow> QueryClientError + QuestDetail" where
  "memory_get_quest m = memory_find ''quest'' qd_id (mc_quests m)"

definition memory_search_npcs :: "MemoryQueryClient \<Rightarrow> string \<Rightarrow> QueryClientError + NpcSummary list" where
  "memory_search_npcs m query =
     (let q = to_ascii_lowercase query
      in Inr (map (\<lambda>d. \<lparr>ns_entry = nd_entry d, ns_name = nd_name d, ns_faction = nd_faction d\<rparr>)
               (filter (\<lambda>d. str_contains (to_ascii_lowercase (nd_name d)) q) (mc_npcs m))))"

definition memory_get_npc :: "MemoryQueryClient \<Rightarrow> u32 \<Rightarrow> QueryClientError + NpcDetail" where
  "memory_get_npc m = memory_find ''npc'' nd_entry (mc_npcs m)"

definition memory_get_vendor :: "MemoryQueryClient \<Rightarrow> u32 \<Rightarrow> QueryClientError + VendorInfo" where
  "memory_get_vendor m = memory_find ''vendor'' vd_entry (mc_vendors m)"

definition memory_get_trainer :: "MemoryQueryClient \<Rightarrow> u32 \<Rightarrow> QueryClientError + TrainerInfo" where
  "memory_get_trainer m = memory_find ''trainer'' tr_entry (mc_trainers m)"

definition memory_get_flight :: "MemoryQueryClient \<Rightarrow> u32 \<Rightarrow> QueryClientError + FlightInfo" where
  "memory_get_flight m = memory_find ''flight'' fl_entry (mc_flights m)"

definition memory_get_object :: "MemoryQueryClient \<Rightarrow> u32 \<Rightarrow> QueryClientError + ObjectInfo" where
  "memory_get_object m = memory_find ''object'' ob_entry (mc_objects m)"

definition memory_get_item_sources :: "MemoryQueryClient \<Rightarrow> u32 \<Rightarrow> QueryClientError + u32 list" where
  "memory_get_item_sources m item =
     Inr (case List.find (\<lambda>(i, _). i = item) (mc_item_sources m) of None \<Rightarrow> [] | Some (_, s) \<Rightarrow> s)"

definition memory_creatures_polygon :: "MemoryQueryClient \<Rightarrow> u32 \<Rightarrow> QueryClientError + CreaturePolygon" where
  "memory_creatures_polygon m = memory_find ''creature polygon'' cp_creature_entry (mc_creature_polygons m)"

lemma memory_find_entry: "memory_find kind entry xs k = Inr x \<Longrightarrow> x \<in> set xs \<and> entry x = k"
  by (auto simp: memory_find_def find_Some_iff)

end
