(* ===== verification/Import_State.thy ===== *)
theory Import_State
  imports Guide_Dsl Query_Model Compiler_Runtime
begin

text \<open>
  The state of the project builder and how it resolves the names and ids of a guide
  (\<^verbatim>\<open>importer/src/project_builder.rs\<close>, \<open>MapperState\<close>). Every method is a state transformer: \<open>None\<close> is a
  panic, \<open>Inl\<close> the \<open>Err\<close> that \<open>?\<close> passes on. What the builder asks of the outside (the query client, fresh ids, the
  clock) is a \<open>World\<close>: each answer may depend on how many questions were asked before.
\<close>

section \<open>State\<close>

record MapperState =
  ms_npc_by_entry :: "u32 \<Rightarrow> uuid option"
  ms_npcs :: "NPCReference list"
  ms_quest_by_id :: "u32 \<Rightarrow> uuid option"
  ms_quests :: "QuestReference list"
  ms_diagnostics :: "Diagnostic list"
  ms_asked :: nat

record World =
  w_search_npcs :: "nat \<Rightarrow> string \<Rightarrow> QueryClientError + NpcSummary list"
  w_get_npc :: "nat \<Rightarrow> u32 \<Rightarrow> QueryClientError + NpcDetail"
  w_get_quest :: "nat \<Rightarrow> u32 \<Rightarrow> QueryClientError + QuestDetail"
  w_get_item_sources :: "nat \<Rightarrow> u32 \<Rightarrow> QueryClientError + u32 list"
  w_uuid :: "nat \<Rightarrow> uuid"
  w_now :: "nat \<Rightarrow> string"
  w_format :: Formatters

definition MapperState_new :: MapperState where
  "MapperState_new =
     \<lparr>ms_npc_by_entry = (\<lambda>_. None), ms_npcs = [], ms_quest_by_id = (\<lambda>_. None), ms_quests = [],
      ms_diagnostics = [], ms_asked = 0\<rparr>"

type_synonym 'a mapper = "MapperState \<Rightarrow> ((QueryClientError + 'a) \<times> MapperState) option"

definition mret :: "'a \<Rightarrow> 'a mapper" where
  "mret x s = Some (Inr x, s)"

definition mpanic :: "'a mapper" where
  "mpanic s = None"

definition mbind :: "'a mapper \<Rightarrow> ('a \<Rightarrow> 'b mapper) \<Rightarrow> 'b mapper" where
  "mbind m f s =
     (case m s of
        None \<Rightarrow> None
      | Some (Inl e, s') \<Rightarrow> Some (Inl e, s')
      | Some (Inr x, s') \<Rightarrow> f x s')"

text \<open>\<open>.await.ok().flatten()\<close>.\<close>

definition mok :: "'a option mapper \<Rightarrow> 'a option mapper" where
  "mok m s =
     (case m s of
        None \<Rightarrow> None
      | Some (Inl e, s') \<Rightarrow> Some (Inr None, s')
      | Some (Inr x, s') \<Rightarrow> Some (Inr x, s'))"

fun mfold :: "('a \<Rightarrow> 'b \<Rightarrow> 'b mapper) \<Rightarrow> 'a list \<Rightarrow> 'b \<Rightarrow> 'b mapper" where
  "mfold f [] b = mret b"
| "mfold f (x # xs) b = mbind (f x b) (mfold f xs)"

definition ask :: "(nat \<Rightarrow> 'a) \<Rightarrow> 'a mapper" where
  "ask question s = Some (Inr (question (ms_asked s)), s\<lparr>ms_asked := ms_asked s + 1\<rparr>)"

definition state_of :: "(MapperState \<Rightarrow> 'a) \<Rightarrow> 'a mapper" where
  "state_of f s = Some (Inr (f s), s)"

definition report :: "Severity \<Rightarrow> string \<Rightarrow> string \<Rightarrow> string \<Rightarrow> string option \<Rightarrow> unit mapper" where
  "report severity code message entity action s =
     Some (Inr (), s\<lparr>ms_diagnostics := ms_diagnostics s @ [diagnostic severity code message (Some entity) action]\<rparr>)"

section \<open>Library entries\<close>

definition role_from_str :: "string \<Rightarrow> NpcRole option" where
  "role_from_str s =
     map_of [(''QuestGiver'', RoleQuestGiver), (''Vendor'', RoleVendor), (''Trainer'', RoleTrainer),
       (''Repair'', RoleRepair), (''FlightMaster'', RoleFlightMaster), (''Innkeeper'', RoleInnkeeper),
       (''Mailbox'', RoleMailbox), (''Banker'', RoleBanker), (''Auctioneer'', RoleAuctioneer),
       (''Generic'', RoleGeneric)] s"

definition worldpos_to_position :: "WorldPos \<Rightarrow> Position" where
  "worldpos_to_position p =
     \<lparr>pos_map = wp_map p, pos_world_x = wp_x p, pos_world_y = wp_y p, pos_world_z = wp_z p, pos_orientation = None\<rparr>"

definition npc_from_detail :: "uuid \<Rightarrow> NpcDetail \<Rightarrow> NPCReference" where
  "npc_from_detail u d =
     \<lparr>npc_id = u, npc_entry = Some (nd_entry d), npc_guid = None, npc_name = nd_name d, npc_faction = None,
      npc_roles = List.map_filter role_from_str (nd_roles d),
      npc_position = (case nd_positions d of [] \<Rightarrow> None | p # _ \<Rightarrow> Some (worldpos_to_position p)),
      npc_source = Some ''QueryServer'', npc_notes = None\<rparr>"

definition quest_from_detail :: "uuid \<Rightarrow> QuestDetail \<Rightarrow> uuid option \<Rightarrow> uuid option \<Rightarrow> QuestReference" where
  "quest_from_detail u d giver finisher =
     \<lparr>quest_uuid = u, quest_quest_id = qd_id d, quest_title = Some (qd_title d), quest_level = Some (qd_level d),
      quest_minimum_level = Some (qd_min_level d), quest_suggested_group = None, quest_giver_npc = giver,
      quest_finisher_npc = finisher,
      quest_chain = (if qd_next_quests d = [] then None else Some (join '','' (map show_word (qd_next_quests d)))),
      quest_prerequisites = qd_required_quests d, quest_exclusive_with = [], quest_repeatable = False,
      quest_source = Some ''QueryServer''\<rparr>"

section \<open>Resolution\<close>

definition is_not_found :: "QueryClientError \<Rightarrow> bool" where
  "is_not_found e = (case e of NotFound _ \<Rightarrow> True | _ \<Rightarrow> False)"

definition add_npc :: "u32 \<Rightarrow> uuid \<Rightarrow> NPCReference \<Rightarrow> unit mapper" where
  "add_npc entry u npc s =
     Some (Inr (), s\<lparr>ms_npcs := ms_npcs s @ [npc], ms_npc_by_entry := (ms_npc_by_entry s)(entry \<mapsto> u)\<rparr>)"

definition add_quest :: "u32 \<Rightarrow> uuid \<Rightarrow> QuestReference \<Rightarrow> unit mapper" where
  "add_quest quest u q s =
     Some (Inr (), s\<lparr>ms_quests := ms_quests s @ [q], ms_quest_by_id := (ms_quest_by_id s)(quest \<mapsto> u)\<rparr>)"

definition resolve_npc_by_entry :: "World \<Rightarrow> u32 \<Rightarrow> uuid option mapper" where
  "resolve_npc_by_entry W entry =
     mbind (state_of (\<lambda>s. ms_npc_by_entry s entry)) (\<lambda>known. case known of
       Some u \<Rightarrow> mret (Some u)
     | None \<Rightarrow>
         mbind (ask (\<lambda>t. w_get_npc W t entry)) (\<lambda>answer. case answer of
           Inr d \<Rightarrow>
             mbind (ask (w_uuid W)) (\<lambda>u.
             mbind (add_npc entry u (npc_from_detail u d)) (\<lambda>_. mret (Some u)))
         | Inl e \<Rightarrow>
             (if is_not_found e
              then mbind (report Warning ''UNRESOLVED_NPC''
                     (''NPC entry '' @ show_word entry @ '' not found in world database'') (show_word entry) None) (\<lambda>_. mret None)
              else mbind (report Warning ''QUERY_UNREACHABLE''
                     (''NPC entry '' @ show_word entry @ '' lookup failed: '' @ show_query_error e) (show_word entry) None)
                     (\<lambda>_. mret None))))"

definition resolve_npc_by_name :: "World \<Rightarrow> string \<Rightarrow> uuid option mapper" where
  "resolve_npc_by_name W name =
     mbind (ask (\<lambda>t. w_search_npcs W t name)) (\<lambda>answer. case answer of
       Inl e \<Rightarrow>
         mbind (report Warning ''QUERY_UNREACHABLE'' (''NPC search '' @ quoted name @ '' failed: '' @ show_query_error e)
           name None) (\<lambda>_. mret None)
     | Inr [] \<Rightarrow>
         mbind (report Warning ''UNRESOLVED_NPC'' (''NPC '' @ quoted name @ '' not found in world database'') name None)
           (\<lambda>_. mret None)
     | Inr (summary # _) \<Rightarrow> resolve_npc_by_entry W (ns_entry summary))"

definition creature_of :: "NpcSummary \<Rightarrow> CreatureRef" where
  "creature_of summary = \<lparr>creature_entry = ns_entry summary, creature_name = ns_name summary\<rparr>"

text \<open>The exact matches of a search, or all of its rows when there is none.\<close>

definition matching_creatures :: "string \<Rightarrow> NpcSummary list \<Rightarrow> CreatureRef list" where
  "matching_creatures name results =
     (let exact = map creature_of (filter (\<lambda>s. eq_ignore_ascii_case (ns_name s) name) results)
      in if exact = [] then map creature_of results else exact)"

definition resolve_creatures_by_name :: "World \<Rightarrow> string \<Rightarrow> CreatureRef list mapper" where
  "resolve_creatures_by_name W name =
     mbind (ask (\<lambda>t. w_search_npcs W t name)) (\<lambda>answer. case answer of
       Inl e \<Rightarrow>
         mbind (report Warning ''QUERY_UNREACHABLE''
           (''creature search '' @ quoted name @ '' failed: '' @ show_query_error e) name None) (\<lambda>_. mret [])
     | Inr results \<Rightarrow>
         (let entries = matching_creatures name results
          in if entries = []
             then mbind (report Warning ''UNRESOLVED_MOB''
                    (''creature '' @ quoted name @ '' not found; Kill target left unresolved'') name None) (\<lambda>_. mret entries)
             else mret entries))"

definition resolve_opt_npc :: "World \<Rightarrow> u32 option \<Rightarrow> uuid option mapper" where
  "resolve_opt_npc W entry = (case entry of Some e \<Rightarrow> mok (resolve_npc_by_entry W e) | None \<Rightarrow> mret None)"

text \<open>The id, the giver and the finisher of a quest. A quest known by id whose library entry has another id is the
  \<open>unwrap\<close> of \<open>None\<close>.\<close>

definition resolve_quest :: "World \<Rightarrow> u32 \<Rightarrow> (uuid \<times> uuid option \<times> uuid option) option mapper" where
  "resolve_quest W quest =
     mbind (state_of (\<lambda>s. (ms_quest_by_id s quest, List.find (\<lambda>q. quest_quest_id q = quest) (ms_quests s)))) (\<lambda>known.
     case known of
       (Some u, Some q) \<Rightarrow> mret (Some (u, quest_giver_npc q, quest_finisher_npc q))
     | (Some u, None) \<Rightarrow> mpanic
     | (None, _) \<Rightarrow>
         mbind (ask (\<lambda>t. w_get_quest W t quest)) (\<lambda>answer. case answer of
           Inr d \<Rightarrow>
             mbind (ask (w_uuid W)) (\<lambda>u.
             mbind (resolve_opt_npc W (qd_giver_entry d)) (\<lambda>giver.
             mbind (resolve_opt_npc W (qd_finisher_entry d)) (\<lambda>finisher.
             mbind (add_quest quest u (quest_from_detail u d giver finisher)) (\<lambda>_.
               mret (Some (u, giver, finisher))))))
         | Inl e \<Rightarrow>
             (if is_not_found e
              then mbind (report Warning ''UNRESOLVED_QUEST''
                     (''Quest '' @ show_word quest @ '' not found in world database'') (show_word quest) None) (\<lambda>_. mret None)
              else mbind (report Warning ''QUERY_UNREACHABLE''
                     (''Quest '' @ show_word quest @ '' lookup failed: '' @ show_query_error e) (show_word quest) None)
                     (\<lambda>_. mret None))))"

fun first_hint :: "World \<Rightarrow> string list \<Rightarrow> uuid option mapper" where
  "first_hint W [] = mret None"
| "first_hint W (hint # hints) =
     mbind (resolve_npc_by_name W hint) (\<lambda>found. case found of Some u \<Rightarrow> mret (Some u) | None \<Rightarrow> first_hint W hints)"

definition resolve_npc_with_hints :: "World \<Rightarrow> Step \<Rightarrow> string option \<Rightarrow> uuid option mapper" where
  "resolve_npc_with_hints W step explicit_name =
     (case explicit_name of
        Some name \<Rightarrow> resolve_npc_by_name W name
      | None \<Rightarrow> first_hint W (step_npc_name_hints step))"

end
