(* ===== verification/Import_Actions.thy ===== *)
theory Import_Actions
  imports Import_State
begin

text \<open>
  The actions of a step (\<open>build_step_actions\<close> of \<^verbatim>\<open>importer/src/project_builder.rs\<close>, one definition per arm of its
  match) and the actions added for gates nothing satisfies (\<open>enrich_unsatisfiable_gates\<close>).
\<close>

section \<open>Pieces\<close>

definition debug_strings :: "Formatters \<Rightarrow> string list \<Rightarrow> string" where
  "debug_strings F xs = ''['' @ join '', '' (map (debug_str F) xs) @ '']''"

definition step_entity :: "nat \<Rightarrow> string" where
  "step_entity index = ''step:'' @ show_nat index"

text \<open>The action literal of the source: enabled, without condition, class restriction and gate.\<close>

definition new_action :: "uuid \<Rightarrow> string option \<Rightarrow> ActionPayload \<Rightarrow> Action" where
  "new_action u note_text payload =
     \<lparr>act_id = u, act_enabled = True, act_condition = None, act_note = note_text, act_class_restriction = None,
      act_gate = None, act_payload = payload\<rparr>"

definition comment :: "string \<Rightarrow> ActionPayload" where
  "comment text_line = Comment \<lparr>comment_text = text_line\<rparr>"

definition emit :: "World \<Rightarrow> string option \<Rightarrow> ActionPayload \<Rightarrow> Action list mapper" where
  "emit W note_text payload = mbind (ask (w_uuid W)) (\<lambda>u. mret [new_action u note_text payload])"

definition command_text :: "GuideCommand \<Rightarrow> string" where
  "command_text cmd = ''.'' @ cmd_name cmd @ '' '' @ join '','' (cmd_args cmd)"

definition first_u32 :: "string list \<Rightarrow> u32 option" where
  "first_u32 args = Option.bind (arg_at args 0) parse_word"

definition train_spell_ids :: "string list \<Rightarrow> u32 list" where
  "train_spell_ids args =
     (case Option.bind (arg_at args 0) (\<lambda>a. parse_word (trim a)) of None \<Rightarrow> [] | Some n \<Rightarrow> [n])"

definition has_directive :: "Step \<Rightarrow> string \<Rightarrow> bool" where
  "has_directive step name \<longleftrightarrow> list_ex (\<lambda>d. src_name d = name) (step_directives step)"

definition preserved_msg :: "Formatters \<Rightarrow> GuideCommand \<Rightarrow> string" where
  "preserved_msg F cmd =
     ''Command '' @ quoted (''.'' @ cmd_name cmd)
     @ '' is outside leveling-core semantic lowering; preserved as an inert action (args: ''
     @ debug_strings F (cmd_args cmd) @ '')''"

definition inert_preserved_action :: "World \<Rightarrow> nat \<Rightarrow> GuideCommand \<Rightarrow> bool \<Rightarrow> Action mapper" where
  "inert_preserved_action W at_step cmd note_as_text =
     mbind (ask (w_uuid W)) (\<lambda>u.
       let (text_line, note_text) =
             (if note_as_text
              then ((case cmd_note cmd of Some n \<Rightarrow> n | None \<Rightarrow> command_text cmd), None)
              else (command_text cmd, cmd_note cmd))
       in mbind (report Info ''COMMAND_PRESERVED_INERT'' (preserved_msg (w_format W) cmd) (step_entity at_step)
                   (Some (fmt_uuid (w_format W) u)))
            (\<lambda>_. mret (new_action u note_text (comment text_line))))"

section \<open>Movement\<close>

definition unmapped_zone_msg :: "string \<Rightarrow> string list \<Rightarrow> string" where
  "unmapped_zone_msg zone args =
     ''Zone '' @ quoted zone @ '' is not in the zone table; cannot convert ''
     @ (if length args < 3 then [] else join '','' (take 2 (drop 1 args)))
     @ '' to world coordinates, so no travel position was emitted''"

definition movement_arity_msg :: "nat \<Rightarrow> string list \<Rightarrow> string" where
  "movement_arity_msg found args =
     ''movement line carries '' @ show_nat found @ '' comma-separated fields, not the 3..=5 the grammar ''
     @ ''admits, so no travel position was emitted. The corpus's 67 six-field lines are ''
     @ ''three distinct defects '' @ em_dash @ '' a stray trailing `0`, a comma-typed decimal, a stray ''
     @ ''leading `0` '' @ em_dash @ '' and every repair for one corrupts the other two: `.goto '' @ join '','' args @ ''`''"

definition movement_number_msg :: "string \<Rightarrow> string \<Rightarrow> string list \<Rightarrow> string" where
  "movement_number_msg what val args =
     ''movement line's '' @ what @ '' is '' @ quoted val
     @ '', which is not a finite number, so no travel position was emitted: `.goto '' @ join '','' args @ ''`''"

definition build_travel_position :: "Step \<Rightarrow> string list \<Rightarrow> Position option mapper" where
  "build_travel_position step args =
     (let refuse = (\<lambda>code message. mbind (report Warning code message (step_entity (step_index step)) None) (\<lambda>_. mret None))
      in case resolve_coordinate args of
           Inr c \<Rightarrow>
             mret (Some \<lparr>pos_map = rc_map_id c, pos_world_x = rc_x c, pos_world_y = rc_y c, pos_world_z = 0,
                         pos_orientation = None\<rparr>)
         | Inl (UnknownZone zone) \<Rightarrow> refuse ''UNMAPPED_GOTO_ZONE'' (unmapped_zone_msg zone args)
         | Inl (Arity found) \<Rightarrow> refuse ''MALFORMED_MOVEMENT_ARITY'' (movement_arity_msg found args)
         | Inl (MalformedNumber what val) \<Rightarrow> refuse ''MALFORMED_MOVEMENT_COORDINATE'' (movement_number_msg what val args))"

definition f32_5 :: f32 where "f32_5 = 0x40A00000"
definition f32_60 :: f32 where "f32_60 = 0x42700000"
definition f32_65535 :: f32 where "f32_65535 = 0x477FFF00"

definition travel_tolerance_of :: "f32 option \<Rightarrow> f32" where
  "travel_tolerance_of authored =
     (case authored of
        Some r \<Rightarrow> if f32_less 0 r then f32_clamp r f32_5 f32_60 else f32_5
      | None \<Rightarrow> f32_5)"

definition authored_radius_of :: "f32 option \<Rightarrow> u16 option" where
  "authored_radius_of authored =
     (case authored of
        Some r \<Rightarrow> if f32_is_finite r \<and> f32_le 0 r \<and> f32_le r f32_65535 then Some (f32_round_u16 r) else None
      | None \<Rightarrow> None)"

definition goto_arm :: "World \<Rightarrow> Step \<Rightarrow> GuideCommand \<Rightarrow> Action list mapper" where
  "goto_arm W step cmd =
     (let args = cmd_args cmd;
          dest = (case arg_at args 0 of
                    Some a \<Rightarrow> if (parse_word a :: u32 option) = None then a else ''Map '' @ a
                  | None \<Rightarrow> ''Unknown'');
          authored = Option.bind (arg_at args 3) parse_f32
      in mbind (build_travel_position step args) (\<lambda>position.
           emit W (cmd_note cmd)
             (Travel \<lparr>travel_destination = dest, travel_position = position,
                travel_tolerance = travel_tolerance_of authored, travel_authored_radius = authored_radius_of authored,
                travel_medium = (case for_command (cmd_name cmd) of Some m \<Rightarrow> m | None \<Rightarrow> MediumAny),
                travel_source_line = Some (of_nat (cmd_line cmd)), travel_mount = None, travel_allow_flight = False,
                travel_timeout = None\<rparr>)))"

section \<open>Quests and NPCs\<close>

definition accept_arm :: "World \<Rightarrow> Step \<Rightarrow> GuideCommand \<Rightarrow> uuid option \<Rightarrow> Action list mapper" where
  "accept_arm W step cmd last_target =
     (case first_u32 (cmd_args cmd) of
        None \<Rightarrow> mret []
      | Some q \<Rightarrow>
          mbind (resolve_quest W q) (\<lambda>found. case found of
            Some (_, giver, _) \<Rightarrow>
              emit W (cmd_note cmd)
                (AcceptQuest \<lparr>accept_quest = q, accept_npc = or_else giver last_target,
                   accept_auto_complete_dialog = False, accept_optional = has_directive step ''optional''\<rparr>)
          | None \<Rightarrow> emit W (cmd_note cmd) (comment (''.accept '' @ show_word q))))"

definition turnin_arm :: "World \<Rightarrow> Step \<Rightarrow> GuideCommand \<Rightarrow> uuid option \<Rightarrow> Action list mapper" where
  "turnin_arm W step cmd last_target =
     (case first_u32 (cmd_args cmd) of
        None \<Rightarrow> mret []
      | Some q \<Rightarrow>
          mbind (resolve_quest W q) (\<lambda>found. case found of
            Some (_, _, finisher) \<Rightarrow>
              emit W (cmd_note cmd)
                (TurnInQuest \<lparr>turnin_quest = q, turnin_npc = or_else finisher last_target,
                   turnin_choose_reward = Option.bind (arg_at (cmd_args cmd) 1) parse_word,
                   turnin_optional = has_directive step ''optional''\<rparr>)
          | None \<Rightarrow> emit W (cmd_note cmd) (comment (''.turnin '' @ show_word q))))"

definition target_or_hint :: "World \<Rightarrow> Step \<Rightarrow> uuid option \<Rightarrow> uuid option mapper" where
  "target_or_hint W step last_target =
     (case last_target of Some npc \<Rightarrow> mret (Some npc) | None \<Rightarrow> resolve_npc_with_hints W step None)"

definition vendor_arm :: "World \<Rightarrow> Step \<Rightarrow> GuideCommand \<Rightarrow> uuid option \<Rightarrow> Action list mapper" where
  "vendor_arm W step cmd last_target =
     mbind (target_or_hint W step last_target) (\<lambda>found. case found of
       Some npc \<Rightarrow>
         emit W (cmd_note cmd)
           (Vendor \<lparr>vendor_npc = npc, vendor_sell_grey = True, vendor_repair = True, vendor_buy_items = [],
              vendor_minimum_free_slots = None\<rparr>)
     | None \<Rightarrow> emit W None (comment ''.vendor (unresolved NPC)''))"

definition train_payload :: "uuid \<Rightarrow> GuideCommand \<Rightarrow> ActionPayload" where
  "train_payload npc cmd =
     Train \<lparr>trainer_npc = npc, trainer_spells = train_spell_ids (cmd_args cmd), trainer_trainer_type = None,
        trainer_minimum_level = None\<rparr>"

definition train_arm :: "World \<Rightarrow> Step \<Rightarrow> GuideCommand \<Rightarrow> uuid option \<Rightarrow> Action list mapper" where
  "train_arm W step cmd last_target =
     mbind (target_or_hint W step last_target) (\<lambda>found. case found of
       Some npc \<Rightarrow> emit W (cmd_note cmd) (train_payload npc cmd)
     | None \<Rightarrow> emit W None (comment (''.train '' @ join '','' (cmd_args cmd))))"

definition trainer_arm :: "World \<Rightarrow> GuideCommand \<Rightarrow> uuid option \<Rightarrow> Action list mapper" where
  "trainer_arm W cmd last_target =
     (case last_target of Some npc \<Rightarrow> emit W (cmd_note cmd) (train_payload npc cmd) | None \<Rightarrow> mret [])"

definition fly_arm :: "World \<Rightarrow> Step \<Rightarrow> GuideCommand \<Rightarrow> uuid option \<Rightarrow> Action list mapper" where
  "fly_arm W step cmd last_target =
     (let dest = (case arg_at (cmd_args cmd) 0 of Some a \<Rightarrow> a | None \<Rightarrow> ''Unknown'')
      in mbind (target_or_hint W step last_target) (\<lambda>found. case found of
           Some npc \<Rightarrow> emit W (cmd_note cmd) (Flight \<lparr>flight_npc = npc, flight_destination = dest\<rparr>)
         | None \<Rightarrow> emit W (cmd_note cmd) (comment (''.fly '' @ dest))))"

definition fp_arm :: "World \<Rightarrow> Step \<Rightarrow> GuideCommand \<Rightarrow> uuid option \<Rightarrow> Action list mapper" where
  "fp_arm W step cmd last_target =
     mbind (target_or_hint W step last_target) (\<lambda>found. case found of
       Some npc \<Rightarrow> emit W (cmd_note cmd) (LearnFlightPath \<lparr>learn_npc = npc\<rparr>)
     | None \<Rightarrow> emit W (cmd_note cmd) (comment ''.fp (unresolved NPC)''))"

definition hs_arm :: "World \<Rightarrow> GuideCommand \<Rightarrow> Action list mapper" where
  "hs_arm W cmd = emit W (cmd_note cmd) (Hearth \<lparr>hearth_innkeeper = None, hearth_destination = None\<rparr>)"

section \<open>Combat and items\<close>

definition kill_target :: "World \<Rightarrow> string \<Rightarrow> u32 list \<times> CreatureRef list \<Rightarrow> (u32 list \<times> CreatureRef list) mapper" where
  "kill_target W arg acc =
     (let raw = trim arg; (entries, creatures) = acc
      in if raw = [] then mret acc
         else case parse_word raw of
                Some entry \<Rightarrow> mret (entries @ [entry], creatures)
              | None \<Rightarrow>
                  mbind (resolve_creatures_by_name W (trim (dropWhile (\<lambda>c. c = CHR ''+'') raw))) (\<lambda>found.
                    mret (entries @ map creature_entry found, creatures @ found)))"

definition mob_arm :: "World \<Rightarrow> GuideCommand \<Rightarrow> Action list mapper" where
  "mob_arm W cmd =
     mbind (mfold (kill_target W) (cmd_args cmd) ([], [])) (\<lambda>(entries, creatures).
       emit W (cmd_note cmd)
         (Kill \<lparr>kill_creature_entries = remdups_adj entries, kill_creatures = creatures,
            kill_watch = (cmd_name cmd = ''unitscan''), kill_quantity = None, kill_loot = True,
            kill_ignore_elites = False\<rparr>))"

definition use_arm :: "World \<Rightarrow> GuideCommand \<Rightarrow> Action list mapper" where
  "use_arm W cmd =
     (case first_u32 (cmd_args cmd) of
        Some item \<Rightarrow> emit W (cmd_note cmd) (UseItem \<lparr>use_item = item, use_target = None\<rparr>)
      | None \<Rightarrow> mret [])"

section \<open>Gates\<close>

definition inert_arm :: "World \<Rightarrow> Step \<Rightarrow> GuideCommand \<Rightarrow> bool \<Rightarrow> Action list mapper" where
  "inert_arm W step cmd note_as_text =
     mbind (inert_preserved_action W (step_index step) cmd note_as_text) (\<lambda>a. mret [a])"

definition threshold_arm :: "World \<Rightarrow> Step \<Rightarrow> GuideCommand \<Rightarrow> Action list mapper" where
  "threshold_arm W step cmd =
     (case (if cmd_name cmd = ''xp'' then xp_gate_dsl (cmd_args cmd) else subzone_area_dsl (cmd_args cmd)) of
        Some expression \<Rightarrow>
          emit W (cmd_note cmd) (Condition \<lparr>cond_expression = expression, cond_role = Completion\<rparr>)
      | None \<Rightarrow> inert_arm W step cmd True)"

definition malformed_arm :: "World \<Rightarrow> Step \<Rightarrow> GuideCommand \<Rightarrow> string \<Rightarrow> string \<Rightarrow> Action list mapper" where
  "malformed_arm W step cmd code message =
     mbind (ask (w_uuid W)) (\<lambda>u.
     mbind (report Warning code (message @ debug_strings (w_format W) (cmd_args cmd)) (step_entity (step_index step))
              (Some (fmt_uuid (w_format W) u))) (\<lambda>_.
       mret [new_action u (cmd_note cmd) (comment (command_text cmd))]))"

definition gating_arm :: "World \<Rightarrow> Step \<Rightarrow> GuideCommand \<Rightarrow> Action list mapper" where
  "gating_arm W step cmd =
     (case gating_condition_dsl (cmd_name cmd) (cmd_args cmd) of
        Some expression \<Rightarrow>
          (case condition_role_for (cmd_name cmd) of
             Some role \<Rightarrow> emit W (cmd_note cmd) (Condition \<lparr>cond_expression = expression, cond_role = role\<rparr>)
           | None \<Rightarrow> mpanic)
      | None \<Rightarrow>
          malformed_arm W step cmd ''MALFORMED_GATING_ARGS''
            (''Gating command '' @ quoted (''.'' @ cmd_name cmd) @ '' has unparseable arguments: ''))"

definition abandon_arm :: "World \<Rightarrow> Step \<Rightarrow> GuideCommand \<Rightarrow> Action list mapper" where
  "abandon_arm W step cmd =
     (case first_u32 (cmd_args cmd) of
        Some q \<Rightarrow> emit W (cmd_note cmd) (comment (''.abandon '' @ show_word q))
      | None \<Rightarrow>
          malformed_arm W step cmd ''MALFORMED_ABANDON_ARGS''
            (''Command '' @ quoted ''.abandon'' @ '' has unparseable arguments: ''))"

section \<open>A step\<close>

text \<open>The actions of one command, and the NPC that \<open>.target\<close> leaves for the commands after it.\<close>

definition command_actions :: "World \<Rightarrow> Step \<Rightarrow> GuideCommand \<Rightarrow> uuid option \<Rightarrow> Action list mapper" where
  "command_actions W step cmd last_target =
     (let name = cmd_name cmd
      in if name = ''accept'' then accept_arm W step cmd last_target
         else if name = ''turnin'' then turnin_arm W step cmd last_target
         else if name \<in> {''goto'', ''waypoint'', ''groundgoto'', ''flygoto''} then goto_arm W step cmd
         else if name = ''vendor'' then vendor_arm W step cmd last_target
         else if name = ''train'' then train_arm W step cmd last_target
         else if name = ''fly'' then fly_arm W step cmd last_target
         else if name = ''hs'' then hs_arm W cmd
         else if name = ''mob'' \<or> name = ''unitscan'' then mob_arm W cmd
         else if name = ''xp'' \<or> name = ''subzone'' then threshold_arm W step cmd
         else if name \<in> set GATING_COMMANDS then gating_arm W step cmd
         else if name = ''item'' \<or> name = ''use'' then use_arm W cmd
         else if name = ''trainer'' then trainer_arm W cmd last_target
         else if name = ''skill'' then inert_arm W step cmd False
         else if name = ''abandon'' then abandon_arm W step cmd
         else if name = ''fp'' then fp_arm W step cmd last_target
         else if name = ''equip'' then inert_arm W step cmd False
         else inert_arm W step cmd True)"

definition stamp_class :: "GuideCommand \<Rightarrow> Action \<Rightarrow> Action" where
  "stamp_class cmd a =
     (case cmd_class_restriction cmd of
        None \<Rightarrow> a
      | Some c \<Rightarrow> a\<lparr>act_class_restriction := Some c, act_gate := Some (GuideGate c)\<rparr>)"

definition step_command :: "World \<Rightarrow> Step \<Rightarrow> GuideCommand \<Rightarrow> Action list \<times> uuid option \<Rightarrow> (Action list \<times> uuid option) mapper" where
  "step_command W step cmd acc =
     (let (actions, last_target) = acc
      in if cmd_name cmd = ''target''
         then mbind (resolve_npc_with_hints W step (arg_at (cmd_args cmd) 0)) (\<lambda>npc. mret (actions, npc))
         else mbind (command_actions W step cmd last_target) (\<lambda>new_actions.
                mret (actions @ map (stamp_class cmd) new_actions, last_target)))"

definition build_step_actions :: "World \<Rightarrow> Step \<Rightarrow> Action list mapper" where
  "build_step_actions W step =
     mbind (mfold (step_command W step) (step_commands step) ([], None)) (\<lambda>(actions, _). mret actions)"

section \<open>Gates nothing satisfies\<close>

definition is_satisfying_action :: "Action \<Rightarrow> bool" where
  "is_satisfying_action a =
     (case act_payload a of
        Kill _ \<Rightarrow> True | UseItem _ \<Rightarrow> True | InteractNPC _ \<Rightarrow> True | LootObject _ \<Rightarrow> True | GrindArea _ \<Rightarrow> True
      | _ \<Rightarrow> False)"

datatype Gate = GateObjective u32 u32 | GateItem u32 u32

definition gate_of :: "Action \<Rightarrow> Gate option" where
  "gate_of a =
     (case act_payload a of
        Condition c \<Rightarrow>
          if cond_role c = Completion
          then (case parse_objective_expr (cond_expression c) of
                  Some (quest, index) \<Rightarrow> Some (GateObjective quest index)
                | None \<Rightarrow> map_option (\<lambda>(item, count). GateItem item count) (parse_item_count_expr (cond_expression c)))
          else None
      | _ \<Rightarrow> None)"

definition gates_of :: "Action list \<Rightarrow> (nat \<times> Gate) list" where
  "gates_of actions =
     List.map_filter (\<lambda>(i, a). map_option (Pair i) (gate_of a)) (List.enumerate 0 actions)"

text \<open>\<open>n.saturating_mul(5).max(1)\<close>.\<close>

definition overshoot :: "u32 \<Rightarrow> u32" where
  "overshoot n = of_nat (max (min (unat n * 5) (2 ^ 32 - 1)) 1)"

definition find_objective :: "QuestDetail \<Rightarrow> u32 \<Rightarrow> QuestObjective option" where
  "find_objective d index = List.find (\<lambda>ob. ucast (qo_index ob) = index) (qd_structured_objectives d)"

definition gate_needed :: "World \<Rightarrow> Gate \<Rightarrow> u32 option mapper" where
  "gate_needed W gate =
     (case gate of
        GateObjective quest index \<Rightarrow>
          mbind (ask (\<lambda>t. w_get_quest W t quest)) (\<lambda>answer. mret (case answer of
            Inr d \<Rightarrow>
              map_option (\<lambda>ob. if qo_kind ob = CollectItem then overshoot (qo_required ob) else qo_required ob)
                (find_objective d index)
          | Inl _ \<Rightarrow> None))
      | GateItem _ count \<Rightarrow> mret (Some (overshoot count)))"

definition bound_kill :: "u32 \<Rightarrow> Action \<Rightarrow> Action" where
  "bound_kill needed a =
     (case act_payload a of
        Kill k \<Rightarrow> if kill_quantity k = None then a\<lparr>act_payload := Kill (k\<lparr>kill_quantity := Some needed\<rparr>)\<rparr> else a
      | _ \<Rightarrow> a)"

definition bound_kills :: "nat \<Rightarrow> u32 option \<Rightarrow> Action list \<Rightarrow> Action list" where
  "bound_kills gate_at needed actions =
     (case needed of
        None \<Rightarrow> actions
      | Some n \<Rightarrow> map (bound_kill n) (take gate_at actions) @ drop gate_at actions)"

definition synthesised_kill :: "u32 list \<Rightarrow> u32 \<Rightarrow> ActionPayload" where
  "synthesised_kill entries quantity =
     Kill \<lparr>kill_creature_entries = entries, kill_creatures = [], kill_watch = False, kill_quantity = Some quantity,
       kill_loot = True, kill_ignore_elites = False\<rparr>"

definition synthesise :: "World \<Rightarrow> nat \<Rightarrow> string \<Rightarrow> nat \<Rightarrow> ActionPayload \<Rightarrow> Action list \<Rightarrow> Action list mapper" where
  "synthesise W at_step message gate_at payload actions =
     mbind (report Info ''GATE_ENRICHED'' message (step_entity at_step) None) (\<lambda>_.
     mbind (ask (w_uuid W)) (\<lambda>u.
       mret (vec_insert gate_at (new_action u None payload) actions)))"

definition no_loot_msg :: "u32 \<Rightarrow> string" where
  "no_loot_msg item =
     ''item '' @ show_word item @ '' has no loot source; the collect gate was left ''
     @ ''unsatisfiable (script-driven '' @ em_dash @ '' ADR 06 Level 2/3)''"

definition enrich_item :: "World \<Rightarrow> nat \<Rightarrow> nat \<Rightarrow> u32 \<Rightarrow> u32 \<Rightarrow> Action list \<Rightarrow> Action list mapper" where
  "enrich_item W at_step gate_at item count actions =
     mbind (ask (\<lambda>t. w_get_item_sources W t item)) (\<lambda>answer.
       let sources = (case answer of Inr s \<Rightarrow> s | Inl _ \<Rightarrow> [])
       in if sources = []
          then mbind (report Warning ''UNSATISFIABLE_GATE'' (no_loot_msg item) (''item:'' @ show_word item) None)
                 (\<lambda>_. mret actions)
          else synthesise W at_step (''synthesised a Kill for collect gate on item '' @ show_word item) gate_at
                 (synthesised_kill sources (overshoot count)) actions)"

definition debug_kind :: "ObjectiveKind \<Rightarrow> string" where
  "debug_kind k =
     (case k of KillCreature \<Rightarrow> ''KillCreature'' | CollectItem \<Rightarrow> ''CollectItem'' | InteractObject \<Rightarrow> ''InteractObject'')"

definition no_objective_msg :: "u32 \<Rightarrow> u32 \<Rightarrow> string" where
  "no_objective_msg quest index =
     ''quest '' @ show_word quest @ '' objective '' @ show_word index @ '' has no derivable requirement; the gate ''
     @ ''was left unsatisfiable (script-driven objective '' @ em_dash @ '' ADR 06 Level 2/3)''"

definition no_action_msg :: "u32 \<Rightarrow> u32 \<Rightarrow> ObjectiveKind \<Rightarrow> string" where
  "no_action_msg quest index k =
     ''quest '' @ show_word quest @ '' objective '' @ show_word index @ '' ('' @ debug_kind k
     @ '') has no synthesisable action ''
     @ ''(no loot source, or an object interaction needing a library reference)''"

text \<open>The kill an objective asks for.\<close>

definition objective_kill :: "QuestObjective \<Rightarrow> ActionPayload option" where
  "objective_kill obj =
     (case qo_kind obj of
        KillCreature \<Rightarrow> Some (synthesised_kill [qo_target_entry obj] (qo_required obj))
      | CollectItem \<Rightarrow>
          if qo_sources obj \<noteq> [] then Some (synthesised_kill (qo_sources obj) (overshoot (qo_required obj))) else None
      | InteractObject \<Rightarrow> None)"

definition enrich_objective :: "World \<Rightarrow> nat \<Rightarrow> nat \<Rightarrow> u32 \<Rightarrow> u32 \<Rightarrow> Action list \<Rightarrow> Action list mapper" where
  "enrich_objective W at_step gate_at quest index actions =
     mbind (ask (\<lambda>t. w_get_quest W t quest)) (\<lambda>answer. case answer of
       Inl _ \<Rightarrow> mret actions
     | Inr d \<Rightarrow>
         (case find_objective d index of
            None \<Rightarrow>
              mbind (report Warning ''UNSATISFIABLE_GATE'' (no_objective_msg quest index) (''quest:'' @ show_word quest) None)
                (\<lambda>_. mret actions)
          | Some obj \<Rightarrow>
              (case objective_kill obj of
                 None \<Rightarrow>
                   mbind (report Warning ''UNSATISFIABLE_GATE'' (no_action_msg quest index (qo_kind obj))
                           (''quest:'' @ show_word quest) None) (\<lambda>_. mret actions)
               | Some payload \<Rightarrow>
                   synthesise W at_step
                     (''synthesised a satisfying action for quest '' @ show_word quest @ '' objective '' @ show_word index)
                     gate_at payload actions)))"

definition enrich_gate :: "World \<Rightarrow> nat \<Rightarrow> nat \<times> Gate \<Rightarrow> Action list \<Rightarrow> Action list mapper" where
  "enrich_gate W at_step located actions =
     (let (gate_at, gate) = located
      in if list_ex is_satisfying_action (take gate_at actions)
         then mbind (gate_needed W gate) (\<lambda>needed. mret (bound_kills gate_at needed actions))
         else case gate of
                GateItem item count \<Rightarrow> enrich_item W at_step gate_at item count actions
              | GateObjective quest index \<Rightarrow> enrich_objective W at_step gate_at quest index actions)"

text \<open>From the last gate to the first, so that the earlier positions stay valid.\<close>

definition enrich_unsatisfiable_gates :: "World \<Rightarrow> nat \<Rightarrow> Action list \<Rightarrow> Action list mapper" where
  "enrich_unsatisfiable_gates W at_step actions =
     mfold (enrich_gate W at_step) (rev (gates_of actions)) actions"

end
