(* ===== verification/Import_Project.thy ===== *)
theory Import_Project
  imports Import_Actions "HOL-Library.List_Lexorder" "HOL-Library.Char_ord" "HOL-Library.Product_Lexorder"
    "HOL-Library.Option_ord"
begin

text \<open>
  \<open>ProjectBuilder::build\<close> (\<^verbatim>\<open>importer/src/project_builder.rs\<close>): the plan that folds requirement placeholders into the
  step after them, the operation of a planned step, the label diagnostics and the project.
\<close>

section \<open>Directives and headers\<close>

definition TYPED_DIRECTIVES :: "string list" where
  "TYPED_DIRECTIVES = [''label'', ''requires'', ''completewith'', ''optional'', ''sticky'', ''loop'']"

text \<open>The tokens of a step gate: split at slashes and white space.\<close>

fun gate_tokens :: "uchar list \<Rightarrow> uchar list \<Rightarrow> string list" where
  "gate_tokens cur [] = [concat (rev cur)]"
| "gate_tokens cur (u # us) =
     (if u = ''/'' \<or> is_whitespace u then concat (rev cur) # gate_tokens [] us else gate_tokens (u # cur) us)"

definition gate_disables :: "string \<Rightarrow> bool" where
  "gate_disables gate \<longleftrightarrow>
     list_ex (\<lambda>t. \<not> has_prefix ''!'' t \<and> eq_ignore_ascii_case t ''skip'') (gate_tokens [] (utf8_chars gate))"

definition directive_value :: "Directive \<Rightarrow> string \<times> GuideGate option" where
  "directive_value d = (let (v, gate) = directive_gate d in (v, map_option GuideGate gate))"

definition directives_named :: "Step \<Rightarrow> string \<Rightarrow> Directive list" where
  "directives_named step name = filter (\<lambda>d. eq_ignore_ascii_case (src_name d) name) (step_directives step)"

definition named_entry :: "Directive \<Rightarrow> string Gated option" where
  "named_entry d =
     (let (v, gate) = directive_value d
      in if v = [] then None else Some \<lparr>gated_value = v, gated_gate = gate, gated_line = src_line d\<rparr>)"

definition step_labels :: "Step \<Rightarrow> string Gated list" where
  "step_labels step = List.map_filter named_entry (directives_named step ''label'')"

definition step_requires :: "Step \<Rightarrow> string Gated list" where
  "step_requires step = List.map_filter named_entry (directives_named step ''requires'')"

definition complete_entry :: "Directive \<Rightarrow> CompleteWithTarget Gated option" where
  "complete_entry d =
     (let (name, gate) = directive_value d
      in if name = [] then None
         else Some \<lparr>gated_value = (if eq_ignore_ascii_case name ''next'' then Next else Label name), gated_gate = gate,
                gated_line = src_line d\<rparr>)"

definition step_complete_with :: "Step \<Rightarrow> CompleteWithTarget Gated list" where
  "step_complete_with step = List.map_filter complete_entry (directives_named step ''completewith'')"

definition step_optionals :: "Step \<Rightarrow> unit Gated list" where
  "step_optionals step =
     map (\<lambda>d. \<lparr>gated_value = (), gated_gate = snd (directive_value d), gated_line = src_line d\<rparr>)
       (directives_named step ''optional'')"

definition step_passthrough_directives :: "Step \<Rightarrow> GuideDirective list" where
  "step_passthrough_directives step =
     map (\<lambda>d. let (v, gate) = directive_value d
              in \<lparr>dir_name = src_name d, dir_value = (if v = [] then None else Some v), dir_gate = gate,
                  dir_line = src_line d\<rparr>)
       (filter (\<lambda>d. \<not> list_ex (eq_ignore_ascii_case (src_name d)) TYPED_DIRECTIVES) (step_directives step))"

definition guide_header_entries :: "ParsedGuide \<Rightarrow> string \<Rightarrow> string Gated list" where
  "guide_header_entries guide key =
     List.map_filter (\<lambda>h. let (v, gate) = split_directive_gate (hdr_value h)
           in if v = [] then None
              else Some \<lparr>gated_value = v, gated_gate = map_option GuideGate gate, gated_line = hdr_line h\<rparr>)
       (filter (\<lambda>h. eq_ignore_ascii_case (hdr_key h) key) (pg_headers guide))"

definition guide_header_next :: "ParsedGuide \<Rightarrow> string Gated list" where
  "guide_header_next guide =
     concat (map (\<lambda>entry. map (\<lambda>s. entry\<lparr>gated_value := s\<rparr>)
         (filter (\<lambda>s. s \<noteq> []) (map trim (split_char (CHR '';'') (gated_value entry)))))
       (guide_header_entries guide ''next''))"

definition guide_headers :: "ParsedGuide \<Rightarrow> GuideHeaders" where
  "guide_headers guide =
     \<lparr>gh_name = guide_header_entries guide ''name'', gh_group = guide_header_entries guide ''group'',
      gh_subgroup = guide_header_entries guide ''subgroup'',
      gh_source_version = (case guide_header_entries guide ''version'' of [] \<Rightarrow> None | v # _ \<Rightarrow> parse_word (gated_value v)),
      gh_next = guide_header_next guide\<rparr>"

section \<open>The plan\<close>

definition is_placeholder_step :: "Step \<Rightarrow> bool" where
  "is_placeholder_step step \<longleftrightarrow>
     step_commands step = [] \<and> list_all (\<lambda>t. has_prefix ''--'' (trim_start t)) (step_text step)
     \<and> list_ex (\<lambda>d. eq_ignore_ascii_case (src_name d) ''requires'') (step_directives step)"

text \<open>Each emitted step with the placeholders before it that it absorbs; the placeholders at the end are emitted.\<close>

fun plan_steps :: "Step list \<Rightarrow> Step list \<Rightarrow> (Step \<times> Step list) list" where
  "plan_steps parked [] = map (\<lambda>s. (s, [])) parked"
| "plan_steps parked (s # steps) =
     (if is_placeholder_step s then plan_steps (parked @ [s]) steps else (s, parked) # plan_steps [] steps)"

section \<open>The operation of a step\<close>

definition CLASS_TOKENS :: "string list" where
  "CLASS_TOKENS =
     [''Warrior'', ''Paladin'', ''Hunter'', ''Rogue'', ''Priest'', ''DeathKnight'', ''Shaman'', ''Mage'', ''Warlock'',
      ''Druid'']"

definition is_known_class_token :: "string \<Rightarrow> bool" where
  "is_known_class_token token =
     list_ex (\<lambda>c. eq_ignore_ascii_case c (trim (dropWhile (\<lambda>ch. ch = CHR ''!'') (trim token)))) CLASS_TOKENS"

definition goto_zone :: "GuideCommand \<Rightarrow> string option" where
  "goto_zone cmd = (if cmd_name cmd = ''goto'' then arg_at (cmd_args cmd) 0 else None)"

definition operation_name :: "Step \<Rightarrow> string" where
  "operation_name step =
     (case Option.bind (List.find (\<lambda>d. src_name d = ''label'') (step_directives step)) src_value of
        Some label \<Rightarrow> ''label:'' @ label
      | None \<Rightarrow>
          (case List.map_filter goto_zone (step_commands step) of
             zone # _ \<Rightarrow> zone
           | [] \<Rightarrow> ''Step '' @ show_nat (step_index step)))"

definition span_of :: "Step \<Rightarrow> u32 \<times> u32" where
  "span_of s = (of_nat (step_line s), of_nat (max (step_line_end s) (step_line s)))"

definition span_start :: "Step \<Rightarrow> Step list \<Rightarrow> u32" where
  "span_start step absorbed = fold (\<lambda>s. min (fst (span_of s))) absorbed (fst (span_of step))"

definition span_end :: "Step \<Rightarrow> Step list \<Rightarrow> u32" where
  "span_end step absorbed = fold (\<lambda>s. max (snd (span_of s))) absorbed (snd (span_of step))"

definition duplicate_optional_msg :: "nat \<Rightarrow> nat \<Rightarrow> string" where
  "duplicate_optional_msg discarded kept =
     ''a second `#optional` (line '' @ show_nat discarded @ '') on this step is discarded; the first ''
     @ ''(line '' @ show_nat kept @ '') is the one that applies''"

definition report_optionals :: "Step \<Rightarrow> unit Gated list \<Rightarrow> unit mapper" where
  "report_optionals step optionals =
     (case optionals of
        [] \<Rightarrow> mret ()
      | kept # rest \<Rightarrow>
          mfold (\<lambda>discarded _. report Info ''DUPLICATE_OPTIONAL_DISCARDED''
              (duplicate_optional_msg (gated_line discarded) (gated_line kept)) (step_entity (step_index step)) None) rest ())"

definition report_typos :: "Step \<Rightarrow> unit mapper" where
  "report_typos step =
     mfold (\<lambda>d _. case src_original d of
         None \<Rightarrow> mret ()
       | Some original \<Rightarrow>
           report Info ''DIRECTIVE_TYPO_TOLERATED''
             (''Directive '' @ quoted (''#'' @ original) @ '' tolerated as canonical '' @ quoted (''#'' @ src_name d))
             (step_entity (step_index step)) None)
       (step_directives step) ()"

definition stamp_step_class :: "Step \<Rightarrow> Action list \<Rightarrow> Action list" where
  "stamp_step_class step actions =
     (if step_conditions step \<noteq> [] \<and> list_all is_known_class_token (step_conditions step)
      then map (\<lambda>a. if act_class_restriction a = None
                    then a\<lparr>act_class_restriction := Some (join ''/'' (step_conditions step))\<rparr> else a) actions
      else actions)"

text \<open>All directives of the absorbed placeholders come before those of the step.\<close>

definition gathered :: "(Step \<Rightarrow> 'a list) \<Rightarrow> Step \<Rightarrow> Step list \<Rightarrow> 'a list" where
  "gathered f step absorbed = concat (map f absorbed) @ f step"

definition step_operation :: "uuid \<Rightarrow> Step \<Rightarrow> Step list \<Rightarrow> Operation" where
  "step_operation u step absorbed =
     (Operation_new u (operation_name step))
       \<lparr>op_conditions := step_conditions step,
        op_gate := map_option GuideGate (step_gate step),
        op_enabled := \<not> (case step_gate step of None \<Rightarrow> False | Some g \<Rightarrow> gate_disables g),
        op_sticky := list_ex (\<lambda>d. eq_ignore_ascii_case (src_name d) ''sticky'') (step_directives step),
        op_looping := list_ex (\<lambda>d. eq_ignore_ascii_case (src_name d) ''loop'') (step_directives step),
        op_placeholder := is_placeholder_step step,
        op_source_line_start := Some (span_start step absorbed),
        op_source_line_end := Some (span_end step absorbed),
        op_labels := gathered step_labels step absorbed,
        op_requires := gathered step_requires step absorbed,
        op_complete_with := gathered step_complete_with step absorbed,
        op_directives := gathered step_passthrough_directives step absorbed,
        op_optional := (case gathered step_optionals step absorbed of [] \<Rightarrow> None | kept # _ \<Rightarrow> Some kept)\<rparr>"

definition build_operation :: "World \<Rightarrow> Step \<times> Step list \<Rightarrow> Operation mapper" where
  "build_operation W planned =
     (let (step, absorbed) = planned
      in mbind (ask (w_uuid W)) (\<lambda>u.
         mbind (report_optionals step (gathered step_optionals step absorbed)) (\<lambda>_.
         mbind (report_typos step) (\<lambda>_.
         mbind (build_step_actions W step) (\<lambda>actions.
         mbind (enrich_unsatisfiable_gates W (step_index step) actions) (\<lambda>enriched.
           mret ((step_operation u step absorbed)\<lparr>op_actions := stamp_step_class step enriched\<rparr>)))))))"

definition build_operations :: "World \<Rightarrow> Step list \<Rightarrow> Operation list mapper" where
  "build_operations W steps =
     mfold (\<lambda>planned ops. mbind (build_operation W planned) (\<lambda>op1. mret (ops @ [op1]))) (plan_steps [] steps) []"

section \<open>Label diagnostics\<close>

definition marker_gate :: "ParsedGuide \<Rightarrow> LabelDef \<Rightarrow> string option" where
  "marker_gate guide d = (if ld_step d < length (pg_steps guide) then step_gate (pg_steps guide ! ld_step d) else None)"

definition effective_gate :: "ParsedGuide \<Rightarrow> LabelDef \<Rightarrow> string option \<times> string option" where
  "effective_gate guide d = (ld_gate d, marker_gate guide d)"

text \<open>The definitions of a name that no archetype can tell apart: two or more under one effective gate.\<close>

definition undecidable :: "ParsedGuide \<Rightarrow> string \<times> LabelDef list \<Rightarrow> (string \<times> LabelDef list) list" where
  "undecidable guide entry =
     (let (name, defs) = entry
      in if length defs < 2 then []
         else map (Pair name)
                (filter (\<lambda>group. 2 \<le> length group)
                  (map (\<lambda>key. filter (\<lambda>d. effective_gate guide d = key) defs)
                    (sort (remdups (map (effective_gate guide) defs))))))"

definition ambiguous_labels :: "ParsedGuide \<Rightarrow> (string \<times> LabelDef list) list" where
  "ambiguous_labels guide =
     sort_key (\<lambda>(name, defs). (ld_line (hd defs), name)) (concat (map (undecidable guide) (lg_definitions (pg_labels guide))))"

definition ellipsis :: string where
  "ellipsis = [char_of (226::nat), char_of (128::nat), char_of (166::nat)]"

definition shared_gate_msg :: "string option \<Rightarrow> string option \<Rightarrow> string" where
  "shared_gate_msg label_gate step_marker =
     (case (label_gate, step_marker) of
        (None, None) \<Rightarrow> ''no gate on any of them''
      | _ \<Rightarrow>
          ''the same gate on all of them (''
          @ join '' under ''
              ((case label_gate of None \<Rightarrow> [] | Some g \<Rightarrow> [''`#label '' @ ellipsis @ '' << '' @ g @ ''`''])
               @ (case step_marker of None \<Rightarrow> [] | Some g \<Rightarrow> [''`step << '' @ g @ ''`'']))
          @ '')'')"

definition duplicate_label_msg :: "ParsedGuide \<Rightarrow> string \<Rightarrow> LabelDef list \<Rightarrow> string" where
  "duplicate_label_msg guide name defs =
     ''`#label '' @ name @ ''` is defined '' @ show_nat (length defs) @ '' times in this guide with ''
     @ shared_gate_msg (ld_gate (hd defs)) (marker_gate guide (hd defs))
     @ '' (lines '' @ join '', '' (map (\<lambda>d. show_nat (ld_line d)) defs)
     @ ''); a `#completewith`/`#requires` naming it cannot be bound to one of them by any rule''"

definition report_labels :: "ParsedGuide \<Rightarrow> unit mapper" where
  "report_labels guide =
     mfold (\<lambda>(name, defs) _. report Warning ''DUPLICATE_LABEL'' (duplicate_label_msg guide name defs)
         (step_entity (ld_step (hd defs))) None)
       (ambiguous_labels guide) ()"

definition dangling_completewith_msg :: "LabelRef \<Rightarrow> string" where
  "dangling_completewith_msg r =
     ''`#completewith '' @ lr_label r @ ''` (line '' @ show_nat (lr_line r)
     @ '') names no `#label` in this guide; the step keeps its own completion predicate''"

definition dangling_requires_msg :: "LabelRef \<Rightarrow> string" where
  "dangling_requires_msg r =
     ''`#requires '' @ lr_label r @ ''` (line '' @ show_nat (lr_line r)
     @ '') names no `#label` in this guide; the edge is dropped and the step is retained''"

definition report_unresolved :: "ParsedGuide \<Rightarrow> unit mapper" where
  "report_unresolved guide =
     mbind (mfold (\<lambda>r _. report Error ''UNRESOLVED_COMPLETEWITH'' (dangling_completewith_msg r)
              (step_entity (lr_from_step r)) None) (lg_unresolved (pg_labels guide)) ())
       (\<lambda>_. mfold (\<lambda>r _. report Error ''UNRESOLVED_REQUIRES'' (dangling_requires_msg r)
              (step_entity (lr_from_step r)) None) (lg_unresolved_requires (pg_labels guide)) ())"

section \<open>The project\<close>

definition header_faction :: "ParsedGuide \<Rightarrow> Faction option" where
  "header_faction guide =
     (case List.find (\<lambda>h. hdr_key h = ''faction'') (pg_headers guide) of
        None \<Rightarrow> None
      | Some h \<Rightarrow>
          if eq_ignore_ascii_case (hdr_value h) ''Alliance'' then Some Alliance
          else if eq_ignore_ascii_case (hdr_value h) ''Horde'' then Some Horde
          else None)"

definition guide_project_name :: "ParsedGuide \<Rightarrow> string" where
  "guide_project_name guide =
     (case gh_name (guide_headers guide) of [] \<Rightarrow> ''Imported Guide'' | n # _ \<Rightarrow> gated_value n)"

definition import_record :: "ParsedGuide \<Rightarrow> string \<Rightarrow> string \<Rightarrow> ImportMetadata" where
  "import_record guide source_file now =
     \<lparr>imp_importer = ''sentinel-importer'', imp_imported_at = now, imp_source_file = source_file, imp_checksum = [],
      imp_guide_version =
        (case List.find (\<lambda>h. hdr_key h = ''version'') (pg_headers guide) of Some h \<Rightarrow> hdr_value h | None \<Rightarrow> [])\<rparr>"

definition build_project :: "World \<Rightarrow> ParsedGuide \<Rightarrow> string \<Rightarrow> Project mapper" where
  "build_project W guide source_file =
     mbind (ask (w_uuid W)) (\<lambda>project_id.
     mbind (ask (w_now W)) (\<lambda>created.
     mbind (build_operations W (pg_steps guide)) (\<lambda>operations.
     mbind (report_labels guide) (\<lambda>_.
     mbind (report_unresolved guide) (\<lambda>_.
     mbind (ask (w_now W)) (\<lambda>imported.
     mbind (state_of (\<lambda>s. (ms_npcs s, ms_quests s, ms_diagnostics s))) (\<lambda>(npcs, quests, diagnostics).
       let p = new_project project_id created (guide_project_name guide)
       in mret (p\<lparr>prj_guide_headers := guide_headers guide,
                  prj_metadata := (prj_metadata p)\<lparr>meta_faction := header_faction guide\<rparr>,
                  prj_operations := operations, prj_npc_library := npcs, prj_quest_library := quests,
                  prj_diagnostics := diagnostics,
                  prj_import_metadata := Some (import_record guide source_file imported)\<rparr>))))))))"

text \<open>\<open>None\<close> is a panic.\<close>

definition import_guide :: "World \<Rightarrow> ParsedGuide \<Rightarrow> string \<Rightarrow> (QueryClientError + Project) option" where
  "import_guide W guide source_file = map_option fst (build_project W guide source_file MapperState_new)"

end
