(* ===== verification/Import_Props.thy ===== *)
theory Import_Props
  imports Import_Project Validator
begin

text \<open>
  What holds of every import: it returns a project whatever the client answers, the project's references stay inside its
  own libraries, no directive and no command is lost on the way, and every completion gate has something before it that
  can satisfy it or a diagnostic that says why not.
\<close>

section \<open>Running a mapper\<close>

text \<open>\<open>returns m s P\<close>: \<open>m\<close> neither panics nor fails from \<open>s\<close>, and its result and final state satisfy \<open>P\<close>.\<close>

definition returns :: "'a mapper \<Rightarrow> MapperState \<Rightarrow> ('a \<Rightarrow> MapperState \<Rightarrow> bool) \<Rightarrow> bool" where
  "returns m s P \<longleftrightarrow> (case m s of Some (Inr x, s') \<Rightarrow> P x s' | _ \<Rightarrow> False)"

lemma returns_simps [simp]:
  "returns (mret x) s P = P x s"
  "returns (mbind m f) s P = returns m s (\<lambda>x s'. returns (f x) s' P)"
  "returns (ask q) s P = P (q (ms_asked s)) (s\<lparr>ms_asked := ms_asked s + 1\<rparr>)"
  "returns (state_of g) s P = P (g s) s"
  "returns (report sev code msg entity act) s R =
     R () (s\<lparr>ms_diagnostics := ms_diagnostics s @ [diagnostic sev code msg (Some entity) act]\<rparr>)"
  by (auto simp: returns_def mret_def mbind_def ask_def state_of_def report_def split: option.splits sum.splits)

lemma returns_mono: "returns m s P \<Longrightarrow> (\<And>x s'. P x s' \<Longrightarrow> Q x s') \<Longrightarrow> returns m s Q"
  by (auto simp: returns_def split: option.splits sum.splits)

lemma returns_mok: "returns m s P \<Longrightarrow> returns (mok m) s P"
  by (auto simp: returns_def mok_def split: option.splits sum.splits)

lemma returns_Some: "returns m s P \<Longrightarrow> \<exists>x s'. m s = Some (Inr x, s') \<and> P x s'"
  by (cases "m s"; cases "fst (the (m s))") (auto simp: returns_def)

lemma mbind_Some:
  "mbind m f s = Some (Inr y, s2) \<longleftrightarrow> (\<exists>x s1. m s = Some (Inr x, s1) \<and> f x s1 = Some (Inr y, s2))"
  by (auto simp: mbind_def split: option.splits sum.splits)

lemma mret_Some [simp]: "mret x s = Some (Inr y, s') \<longleftrightarrow> y = x \<and> s' = s"
  by (auto simp: mret_def)

lemma mpanic_Some [simp]: "\<not> mpanic s = Some (Inr y, s')"
  by (simp add: mpanic_def)

section \<open>The libraries\<close>

definition known_npc :: "MapperState \<Rightarrow> uuid \<Rightarrow> bool" where
  "known_npc s u \<longleftrightarrow> u \<in> npc_id ` set (ms_npcs s)"

definition known_quest :: "MapperState \<Rightarrow> u32 \<Rightarrow> bool" where
  "known_quest s q \<longleftrightarrow> q \<in> quest_quest_id ` set (ms_quests s)"

definition npcs_known :: "MapperState \<Rightarrow> uuid option \<Rightarrow> bool" where
  "npcs_known s npc \<longleftrightarrow> (\<forall>u. npc = Some u \<longrightarrow> known_npc s u)"

text \<open>The two libraries are what the two indexes say: one entry per id, and every reference between them resolves.\<close>

definition mapper_ok :: "MapperState \<Rightarrow> bool" where
  "mapper_ok s \<longleftrightarrow>
     distinct (map npc_entry (ms_npcs s)) \<and> npc_entry ` set (ms_npcs s) = Some ` dom (ms_npc_by_entry s)
     \<and> (\<forall>e u. ms_npc_by_entry s e = Some u \<longrightarrow> known_npc s u)
     \<and> distinct (map quest_quest_id (ms_quests s)) \<and> quest_quest_id ` set (ms_quests s) = dom (ms_quest_by_id s)
     \<and> (\<forall>q\<in>set (ms_quests s). npcs_known s (quest_giver_npc q) \<and> npcs_known s (quest_finisher_npc q))"

definition grows :: "MapperState \<Rightarrow> MapperState \<Rightarrow> bool" where
  "grows s s' \<longleftrightarrow> set (ms_npcs s) \<subseteq> set (ms_npcs s') \<and> set (ms_quests s) \<subseteq> set (ms_quests s')"

lemma grows_refl [simp]: "grows s s"
  by (simp add: grows_def)

lemma grows_trans: "grows s s1 \<Longrightarrow> grows s1 s2 \<Longrightarrow> grows s s2"
  by (auto simp: grows_def)

text \<open>A client that answers the question it was asked: an NPC under its entry, a quest under its id.\<close>

locale honest_client =
  fixes get_npc :: "u32 \<Rightarrow> QueryClientError + NpcDetail" and get_quest :: "u32 \<Rightarrow> QueryClientError + QuestDetail"
  assumes npc_answer: "get_npc e = Inr d \<Longrightarrow> nd_entry d = e"
    and quest_answer: "get_quest q = Inr qd \<Longrightarrow> qd_id qd = q"

definition honest :: "World \<Rightarrow> bool" where
  "honest W \<longleftrightarrow> (\<forall>t. honest_client (w_get_npc W t) (w_get_quest W t))"

lemma honest_answers:
  assumes "honest W"
  shows "w_get_npc W t e = Inr d \<Longrightarrow> nd_entry d = e" and "w_get_quest W t q = Inr qd \<Longrightarrow> qd_id qd = q"
proof -
  from assms have "honest_client (w_get_npc W t) (w_get_quest W t)" by (simp add: honest_def)
  then show "w_get_npc W t e = Inr d \<Longrightarrow> nd_entry d = e" and "w_get_quest W t q = Inr qd \<Longrightarrow> qd_id qd = q"
    by (simp_all add: honest_client.npc_answer honest_client.quest_answer)
qed

interpretation memory: honest_client "memory_get_npc m" "memory_get_quest m" for m
  by unfold_locales (auto simp: memory_get_npc_def memory_get_quest_def dest: memory_find_entry)

text \<open>The world of an import that asks the client in memory.\<close>

definition memory_world :: "MemoryQueryClient \<Rightarrow> (nat \<Rightarrow> uuid) \<Rightarrow> string \<Rightarrow> Formatters \<Rightarrow> World" where
  "memory_world m fresh now F =
     \<lparr>w_search_npcs = (\<lambda>_. memory_search_npcs m), w_get_npc = (\<lambda>_. memory_get_npc m),
      w_get_quest = (\<lambda>_. memory_get_quest m), w_get_item_sources = (\<lambda>_. memory_get_item_sources m),
      w_uuid = fresh, w_now = (\<lambda>_. now), w_format = F\<rparr>"

lemma memory_world_honest: "honest (memory_world m fresh now F)"
  by (simp add: honest_def memory_world_def memory.honest_client_axioms)

section \<open>Triples\<close>

text \<open>\<open>good P m Q\<close>: from a good state with \<open>P\<close>, \<open>m\<close> returns to a good state with \<open>Q\<close>, and the libraries only grow.\<close>

definition good :: "(MapperState \<Rightarrow> bool) \<Rightarrow> 'a mapper \<Rightarrow> ('a \<Rightarrow> MapperState \<Rightarrow> bool) \<Rightarrow> bool" where
  "good P m Q \<longleftrightarrow> (\<forall>s. mapper_ok s \<longrightarrow> P s \<longrightarrow> returns m s (\<lambda>x s'. mapper_ok s' \<and> grows s s' \<and> Q x s'))"

definition stable :: "(MapperState \<Rightarrow> bool) \<Rightarrow> bool" where
  "stable P \<longleftrightarrow> (\<forall>s s'. P s \<longrightarrow> grows s s' \<longrightarrow> P s')"

named_theorems stability

lemma known_stable [stability]:
  "stable (\<lambda>s. known_npc s u)" "stable (\<lambda>s. npcs_known s npc)" "stable (\<lambda>s. known_quest s q)" "stable (\<lambda>_. b)"
  unfolding stable_def grows_def known_npc_def npcs_known_def known_quest_def by blast+

lemma stable_conj [stability]: "stable P \<Longrightarrow> stable Q \<Longrightarrow> stable (\<lambda>s. P s \<and> Q s)"
  unfolding stable_def by blast

lemma stable_list_all [stability]: "(\<And>x. stable (\<lambda>s. P s x)) \<Longrightarrow> stable (\<lambda>s. list_all (P s) xs)"
  unfolding stable_def by (metis list.pred_mono_strong)

lemma good_bind:
  assumes "good P m Q" and "\<And>x. good (Q x) (f x) R"
  shows "good P (mbind m f) R"
  unfolding good_def returns_simps
proof (intro allI impI)
  fix s assume "mapper_ok s" "P s"
  with assms(1) have "returns m s (\<lambda>x s'. mapper_ok s' \<and> grows s s' \<and> Q x s')" by (simp add: good_def)
  then show "returns m s (\<lambda>x s'. returns (f x) s' (\<lambda>y s2. mapper_ok s2 \<and> grows s s2 \<and> R y s2))"
  proof (rule returns_mono)
    fix x s' assume "mapper_ok s' \<and> grows s s' \<and> Q x s'"
    moreover from this assms(2) have "returns (f x) s' (\<lambda>y s2. mapper_ok s2 \<and> grows s' s2 \<and> R y s2)" by (simp add: good_def)
    ultimately show "returns (f x) s' (\<lambda>y s2. mapper_ok s2 \<and> grows s s2 \<and> R y s2)"
      by (elim returns_mono) (auto intro: grows_trans)
  qed
qed

lemma good_frame: "good P m Q \<Longrightarrow> stable R \<Longrightarrow> good (\<lambda>s. P s \<and> R s) m (\<lambda>x s. Q x s \<and> R s)"
  unfolding good_def stable_def by (auto elim!: returns_mono)

lemma good_weaken: "good P m Q \<Longrightarrow> (\<And>s. P' s \<Longrightarrow> P s) \<Longrightarrow> (\<And>x s. Q x s \<Longrightarrow> Q' x s) \<Longrightarrow> good P' m Q'"
  unfolding good_def by (auto elim!: returns_mono)

lemma good_ret: "(\<And>s. P s \<Longrightarrow> Q x s) \<Longrightarrow> good P (mret x) Q"
  by (simp add: good_def)

lemma mapper_ok_fields:
  "mapper_ok (s\<lparr>ms_asked := n\<rparr>) = mapper_ok s" "mapper_ok (s\<lparr>ms_diagnostics := ds\<rparr>) = mapper_ok s"
  by (simp_all add: mapper_ok_def npcs_known_def known_npc_def)

lemma grows_fields: "grows s (s\<lparr>ms_asked := n\<rparr>)" "grows s (s\<lparr>ms_diagnostics := ds\<rparr>)"
  by (simp_all add: grows_def)

lemma good_ask: "stable P \<Longrightarrow> good P (ask q) (\<lambda>x s. P s \<and> (\<exists>t. x = q t))"
  by (auto simp: good_def mapper_ok_fields grows_fields stable_def dest: spec [where x = "_\<lparr>ms_asked := _\<rparr>"])

lemma good_report: "stable P \<Longrightarrow> good P (report severity code message entity action) (\<lambda>_. P)"
  unfolding good_def stable_def
  by (auto simp: mapper_ok_fields grows_fields)

lemma good_mfold:
  assumes "\<And>x b. x \<in> set xs \<Longrightarrow> good (I b) (f x b) I"
  shows "good (I b) (mfold f xs b) I"
  using assms
proof (induction xs arbitrary: b)
  case Nil
  then show ?case by (auto intro: good_ret)
next
  case (Cons x xs)
  then show ?case by (auto intro!: good_bind)
qed

lemma good_cong_ret: "good P (mret x) (\<lambda>_. P)"
  by (rule good_ret)

section \<open>Resolution\<close>

definition TT :: "MapperState \<Rightarrow> bool" where
  "TT s \<longleftrightarrow> True"

lemma TT_stable [stability]: "stable TT"
  by (simp add: stable_def TT_def)

lemma good_report_ret:
  "(\<And>s. Q x s) \<Longrightarrow> good P (mbind (report severity code message entity action) (\<lambda>_. mret x)) Q"
  unfolding good_def returns_simps by (simp add: mapper_ok_fields grows_fields)

lemma add_npc_ok:
  assumes "mapper_ok s" and "ms_npc_by_entry s e = None" and "npc_entry n = Some e" and "npc_id n = u"
  shows "returns (add_npc e u n) s (\<lambda>_ s'. mapper_ok s' \<and> grows s s' \<and> known_npc s' u)"
  using assms by (auto simp: returns_def add_npc_def mapper_ok_def grows_def known_npc_def npcs_known_def dom_def image_iff)

lemma good_npc_by_entry:
  assumes "honest W"
  shows "good TT (resolve_npc_by_entry W e) (\<lambda>npc s. npcs_known s npc)"
  unfolding good_def
proof (intro allI impI)
  fix s assume ok: "mapper_ok s"
  show "returns (resolve_npc_by_entry W e) s (\<lambda>npc s'. mapper_ok s' \<and> grows s s' \<and> npcs_known s' npc)"
  proof (cases "ms_npc_by_entry s e")
    case (Some u)
    with ok show ?thesis by (auto simp: resolve_npc_by_entry_def npcs_known_def mapper_ok_def)
  next
    case None
    show ?thesis
    proof (cases "w_get_npc W (ms_asked s) e")
      case (Inl err)
      with None ok show ?thesis
        by (simp add: resolve_npc_by_entry_def npcs_known_def mapper_ok_fields grows_def)
    next
      case (Inr d)
      with assms have "nd_entry d = e" by (rule honest_answers)
      let ?s = "s\<lparr>ms_asked := ms_asked s + 2\<rparr>" and ?u = "w_uuid W (ms_asked s + 1)"
      have "returns (add_npc e ?u (npc_from_detail ?u d)) ?s (\<lambda>_ s'. mapper_ok s' \<and> grows ?s s' \<and> known_npc s' ?u)"
        using ok None \<open>nd_entry d = e\<close> by (intro add_npc_ok) (simp_all add: mapper_ok_fields npc_from_detail_def)
      then have "returns (add_npc e ?u (npc_from_detail ?u d)) ?s (\<lambda>_ s'. mapper_ok s' \<and> grows s s' \<and> npcs_known s' (Some ?u))"
        by (rule returns_mono) (auto simp: grows_def npcs_known_def)
      with None Inr show ?thesis by (simp add: resolve_npc_by_entry_def numeral_2_eq_2)
    qed
  qed
qed

lemma good_npc_by_name:
  assumes "honest W"
  shows "good TT (resolve_npc_by_name W name) (\<lambda>npc s. npcs_known s npc)"
  unfolding resolve_npc_by_name_def
  by (rule good_bind [OF good_ask [OF TT_stable]])
    (auto split: sum.split list.split intro!: good_report_ret good_weaken [OF good_npc_by_entry [OF assms]] simp: npcs_known_def TT_def)

lemma good_creatures_by_name: "good TT (resolve_creatures_by_name W name) (\<lambda>_. TT)"
  unfolding resolve_creatures_by_name_def
  by (rule good_bind [OF good_ask [OF TT_stable]])
    (auto split: sum.split simp: Let_def TT_def intro!: good_report_ret good_ret)

lemma good_opt_npc:
  assumes "honest W"
  shows "good TT (resolve_opt_npc W e) (\<lambda>npc s. npcs_known s npc)"
  using good_npc_by_entry [OF assms] unfolding resolve_opt_npc_def good_def
  by (auto split: option.split simp: npcs_known_def intro!: returns_mok)

lemma good_first_hint:
  assumes "honest W"
  shows "good TT (first_hint W hints) (\<lambda>npc s. npcs_known s npc)"
proof (induction hints)
  case Nil
  show ?case by (auto intro!: good_ret simp: npcs_known_def)
next
  case (Cons h hints)
  have "good (\<lambda>s. npcs_known s npc) (case npc of None \<Rightarrow> first_hint W hints | Some u \<Rightarrow> mret (Some u)) (\<lambda>npc s. npcs_known s npc)" for npc
    by (cases npc) (auto intro!: good_ret good_weaken [OF Cons.IH] simp: TT_def)
  then show ?case
    unfolding first_hint.simps by (intro good_bind [OF good_npc_by_name [OF assms]]) (simp add: option.case_distrib)
qed

lemma good_hints:
  assumes "honest W"
  shows "good TT (resolve_npc_with_hints W step name) (\<lambda>npc s. npcs_known s npc)"
  by (simp add: resolve_npc_with_hints_def good_npc_by_name [OF assms] good_first_hint [OF assms] split: option.split)

text \<open>A quest that was resolved: its entry is in the library, and so are its giver and its finisher.\<close>

definition quest_resolved :: "u32 \<Rightarrow> (uuid \<times> uuid option \<times> uuid option) option \<Rightarrow> MapperState \<Rightarrow> bool" where
  "quest_resolved q found s \<longleftrightarrow>
     (\<forall>u giver finisher. found = Some (u, giver, finisher) \<longrightarrow> known_quest s q \<and> npcs_known s giver \<and> npcs_known s finisher)"

lemma add_quest_ok:
  assumes "mapper_ok s" and "ms_quest_by_id s q = None" and "quest_quest_id x = q"
    and "npcs_known s (quest_giver_npc x)" and "npcs_known s (quest_finisher_npc x)"
  shows "returns (add_quest q u x) s (\<lambda>_ s'. mapper_ok s' \<and> grows s s' \<and> known_quest s' q)"
  using assms by (auto simp: returns_def add_quest_def mapper_ok_def grows_def known_quest_def known_npc_def npcs_known_def dom_def image_iff)

text \<open>Resolving an NPC leaves the quests alone.\<close>

definition same_quests :: "MapperState \<Rightarrow> MapperState \<Rightarrow> bool" where
  "same_quests s s' \<longleftrightarrow> ms_quest_by_id s' = ms_quest_by_id s \<and> ms_quests s' = ms_quests s"

lemma opt_npc_quests: "resolve_opt_npc W e s = Some (Inr x, s') \<Longrightarrow> same_quests s s'"
  by (auto simp: resolve_opt_npc_def mok_def resolve_npc_by_entry_def mbind_def state_of_def ask_def mret_def report_def add_npc_def
      same_quests_def split: option.splits sum.splits if_splits prod.splits)

lemma returns_opt_npc:
  assumes "honest W" and "mapper_ok s"
  shows "returns (resolve_opt_npc W e) s (\<lambda>npc s'. mapper_ok s' \<and> grows s s' \<and> npcs_known s' npc \<and> same_quests s s')"
proof -
  have "returns (resolve_opt_npc W e) s (\<lambda>npc s'. mapper_ok s' \<and> grows s s' \<and> npcs_known s' npc)"
    using good_opt_npc [OF assms(1)] assms(2) by (simp add: good_def TT_def)
  with opt_npc_quests show ?thesis by (fastforce simp: returns_def split: option.splits sum.splits)
qed

lemma good_quest:
  assumes "honest W"
  shows "good TT (resolve_quest W q) (quest_resolved q)"
  unfolding good_def
proof (intro allI impI)
  fix s assume ok: "mapper_ok s"
  have dom: "ms_quest_by_id s q = None \<longleftrightarrow> List.find (\<lambda>x. quest_quest_id x = q) (ms_quests s) = None"
  proof -
    have "ms_quest_by_id s q = None \<longleftrightarrow> q \<notin> quest_quest_id ` set (ms_quests s)"
      using ok by (simp add: mapper_ok_def domIff)
    then show ?thesis by (auto simp: find_None_iff)
  qed
  show "returns (resolve_quest W q) s (\<lambda>found s'. mapper_ok s' \<and> grows s s' \<and> quest_resolved q found s')"
  proof (cases "ms_quest_by_id s q")
    case (Some u)
    with dom obtain x where x: "List.find (\<lambda>x. quest_quest_id x = q) (ms_quests s) = Some x"
      by (cases "List.find (\<lambda>x. quest_quest_id x = q) (ms_quests s)") auto
    then have "x \<in> set (ms_quests s)" "quest_quest_id x = q" by (auto simp: find_Some_iff)
    with Some x ok show ?thesis by (auto simp: resolve_quest_def quest_resolved_def mapper_ok_def known_quest_def)
  next
    case None
    show ?thesis
    proof (cases "w_get_quest W (ms_asked s) q")
      case (Inl err)
      with None ok show ?thesis by (simp add: resolve_quest_def quest_resolved_def mapper_ok_fields grows_def)
    next
      case (Inr d)
      with assms have id: "qd_id d = q" by (rule honest_answers)
      let ?s = "s\<lparr>ms_asked := ms_asked s + 2\<rparr>" and ?u = "w_uuid W (ms_asked s + 1)"
      have "returns (resolve_opt_npc W (qd_giver_entry d)) ?s (\<lambda>giver s1.
          returns (resolve_opt_npc W (qd_finisher_entry d)) s1 (\<lambda>finisher s2.
          returns (add_quest q ?u (quest_from_detail ?u d giver finisher)) s2 (\<lambda>_ s3.
            mapper_ok s3 \<and> grows s s3 \<and> quest_resolved q (Some (?u, giver, finisher)) s3)))"
      proof (rule returns_mono [OF returns_opt_npc [OF assms]])
        show "mapper_ok ?s" using ok by (simp add: mapper_ok_fields)
        fix giver s1 assume 1: "mapper_ok s1 \<and> grows ?s s1 \<and> npcs_known s1 giver \<and> same_quests ?s s1"
        show "returns (resolve_opt_npc W (qd_finisher_entry d)) s1 (\<lambda>finisher s2.
          returns (add_quest q ?u (quest_from_detail ?u d giver finisher)) s2 (\<lambda>_ s3.
            mapper_ok s3 \<and> grows s s3 \<and> quest_resolved q (Some (?u, giver, finisher)) s3))"
        proof (rule returns_mono [OF returns_opt_npc [OF assms]])
          show "mapper_ok s1" using 1 by simp
          fix finisher s2 assume 2: "mapper_ok s2 \<and> grows s1 s2 \<and> npcs_known s2 finisher \<and> same_quests s1 s2"
          have giver: "npcs_known s2 giver" using 1 2 known_stable(2) by (auto simp: stable_def)
          have "returns (add_quest q ?u (quest_from_detail ?u d giver finisher)) s2
              (\<lambda>_ s3. mapper_ok s3 \<and> grows s2 s3 \<and> known_quest s3 q)"
            using 1 2 None giver by (intro add_quest_ok) (simp_all add: same_quests_def quest_from_detail_def id)
          then show "returns (add_quest q ?u (quest_from_detail ?u d giver finisher)) s2
              (\<lambda>_ s3. mapper_ok s3 \<and> grows s s3 \<and> quest_resolved q (Some (?u, giver, finisher)) s3)"
          proof (rule returns_mono)
            fix s3 assume 3: "mapper_ok s3 \<and> grows s2 s3 \<and> known_quest s3 q"
            have "npcs_known s3 giver" "npcs_known s3 finisher" using giver 2 3 known_stable(2) by (auto simp: stable_def)
            moreover have "grows s s3" using 1 2 3 by (auto simp: grows_def)
            ultimately show "mapper_ok s3 \<and> grows s s3 \<and> quest_resolved q (Some (?u, giver, finisher)) s3"
              using 3 by (simp add: quest_resolved_def)
          qed
        qed
      qed
      with None Inr show ?thesis by (simp add: resolve_quest_def numeral_2_eq_2)
    qed
  qed
qed

section \<open>Actions refer to the libraries\<close>

definition quest_of :: "ActionPayload \<Rightarrow> u32 option" where
  "quest_of payload =
     (case payload of AcceptQuest a \<Rightarrow> Some (accept_quest a) | TurnInQuest t \<Rightarrow> Some (turnin_quest t) | _ \<Rightarrow> None)"

definition payload_ok :: "MapperState \<Rightarrow> ActionPayload \<Rightarrow> bool" where
  "payload_ok s payload \<longleftrightarrow>
     (\<forall>npc. npc_reference payload = Some npc \<longrightarrow> npcs_known s npc) \<and> (\<forall>q. quest_of payload = Some q \<longrightarrow> known_quest s q)"

definition action_ok :: "MapperState \<Rightarrow> Action \<Rightarrow> bool" where
  "action_ok s a \<longleftrightarrow> payload_ok s (act_payload a)"

lemma payload_ok_stable [stability]: "stable (\<lambda>s. payload_ok s payload)"
  using known_stable(2,3) unfolding stable_def payload_ok_def by blast

lemma action_ok_stable [stability]: "stable (\<lambda>s. action_ok s a)"
  by (simp add: action_ok_def payload_ok_stable)

definition actions_ok :: "Action list \<Rightarrow> MapperState \<Rightarrow> bool" where
  "actions_ok as s \<longleftrightarrow> list_all (action_ok s) as"

lemma actions_ok_stable [stability]: "stable (actions_ok as)"
  unfolding actions_ok_def [abs_def] by (rule stable_list_all) (rule action_ok_stable)

lemma comment_ok [simp]: "payload_ok s (comment text_line)"
  by (simp add: payload_ok_def comment_def quest_of_def)

lemma good_emit:
  assumes "stable P" and "\<And>s. P s \<Longrightarrow> payload_ok s payload"
  shows "good P (emit W note_text payload) actions_ok"
  unfolding emit_def
  by (rule good_bind [OF good_ask [OF assms(1)]])
    (auto intro!: good_ret simp: actions_ok_def action_ok_def new_action_def assms(2))

lemma good_emit_any: "(\<And>s. payload_ok s payload) \<Longrightarrow> good P (emit W note_text payload) actions_ok"
  by (rule good_weaken [OF good_emit [OF TT_stable]]) (auto simp: TT_def)

lemma good_none: "good P (mret []) actions_ok"
  by (rule good_ret) (simp add: actions_ok_def)

lemma good_travel_position: "good TT (build_travel_position step args) (\<lambda>_. TT)"
  by (auto simp: build_travel_position_def Let_def TT_def intro!: good_report_ret good_ret split: sum.split CoordinateError.split)

lemma good_goto: "good TT (goto_arm W step cmd) actions_ok"
  unfolding goto_arm_def Let_def
  by (rule good_bind [OF good_travel_position]) (rule good_emit_any, simp add: payload_ok_def quest_of_def)

lemma good_accept:
  assumes "honest W"
  shows "good (\<lambda>s. npcs_known s last_target) (accept_arm W step cmd last_target) actions_ok"
proof (cases "first_u32 (cmd_args cmd)")
  case None
  then show ?thesis by (simp add: accept_arm_def good_none)
next
  case (Some q)
  have "good (\<lambda>s. TT s \<and> npcs_known s last_target) (resolve_quest W q) (\<lambda>found s. quest_resolved q found s \<and> npcs_known s last_target)"
    by (intro good_frame good_quest assms stability)
  moreover have "good (\<lambda>s. quest_resolved q found s \<and> npcs_known s last_target)
      (case found of None \<Rightarrow> emit W (cmd_note cmd) (comment (''.accept '' @ show_word q))
       | Some (_, giver, _) \<Rightarrow> emit W (cmd_note cmd)
          (AcceptQuest \<lparr>accept_quest = q, accept_npc = or_else giver last_target,
             accept_auto_complete_dialog = False, accept_optional = has_directive step ''optional''\<rparr>)) actions_ok" for found
  proof (cases found)
    case None
    then show ?thesis by (simp add: good_emit_any)
  next
    case (Some f)
    obtain u giver finisher where "f = (u, giver, finisher)" by (cases f)
    with Some show ?thesis
      by (auto simp: quest_resolved_def payload_ok_def quest_of_def npcs_known_def or_else_def
          intro!: good_emit stability known_stable [unfolded npcs_known_def] split: option.split)
  qed
  ultimately show ?thesis
    unfolding accept_arm_def Some option.case
    by (intro good_bind) (auto simp: TT_def intro: good_weaken)
qed

lemma good_turnin:
  assumes "honest W"
  shows "good (\<lambda>s. npcs_known s last_target) (turnin_arm W step cmd last_target) actions_ok"
proof (cases "first_u32 (cmd_args cmd)")
  case None
  then show ?thesis by (simp add: turnin_arm_def good_none)
next
  case (Some q)
  have "good (\<lambda>s. TT s \<and> npcs_known s last_target) (resolve_quest W q) (\<lambda>found s. quest_resolved q found s \<and> npcs_known s last_target)"
    by (intro good_frame good_quest assms stability)
  moreover have "good (\<lambda>s. quest_resolved q found s \<and> npcs_known s last_target)
      (case found of None \<Rightarrow> emit W (cmd_note cmd) (comment (''.turnin '' @ show_word q))
       | Some (_, _, finisher) \<Rightarrow> emit W (cmd_note cmd)
          (TurnInQuest \<lparr>turnin_quest = q, turnin_npc = or_else finisher last_target,
             turnin_choose_reward = Option.bind (arg_at (cmd_args cmd) 1) parse_word,
             turnin_optional = has_directive step ''optional''\<rparr>)) actions_ok" for found
  proof (cases found)
    case None
    then show ?thesis by (simp add: good_emit_any)
  next
    case (Some f)
    obtain u giver finisher where "f = (u, giver, finisher)" by (cases f)
    with Some show ?thesis
      by (auto simp: quest_resolved_def payload_ok_def quest_of_def npcs_known_def or_else_def
          intro!: good_emit stability known_stable [unfolded npcs_known_def] split: option.split)
  qed
  ultimately show ?thesis
    unfolding turnin_arm_def Some option.case
    by (intro good_bind) (auto simp: TT_def intro: good_weaken)
qed

lemma good_target_or_hint:
  assumes "honest W"
  shows "good (\<lambda>s. npcs_known s last_target) (target_or_hint W step last_target) (\<lambda>npc s. npcs_known s npc)"
  by (auto simp: target_or_hint_def TT_def split: option.split intro!: good_ret good_weaken [OF good_hints [OF assms]])

lemma good_npc_command:
  assumes "honest W" and "\<And>npc s. known_npc s npc \<Longrightarrow> payload_ok s (f npc)"
  shows "good (\<lambda>s. npcs_known s last_target)
    (mbind (target_or_hint W step last_target) (\<lambda>found. case found of Some npc \<Rightarrow> emit W n1 (f npc) | None \<Rightarrow> emit W n2 (comment t)))
    actions_ok"
proof (rule good_bind [OF good_target_or_hint [OF assms(1)]])
  show "good (\<lambda>s. npcs_known s found) (case found of Some npc \<Rightarrow> emit W n1 (f npc) | None \<Rightarrow> emit W n2 (comment t)) actions_ok" for found
  proof (cases found)
    case (Some npc)
    have "good (\<lambda>s. known_npc s npc) (emit W n1 (f npc)) actions_ok"
      by (intro good_emit stability assms(2))
    with Some show ?thesis by (simp add: npcs_known_def)
  qed (simp add: good_emit_any)
qed

lemma good_kill_target: "good TT (kill_target W arg acc) (\<lambda>_. TT)"
  by (auto simp: kill_target_def Let_def case_prod_unfold TT_def split: option.split
      intro!: good_ret good_weaken [OF good_bind [OF good_creatures_by_name]])

lemma good_mob: "good TT (mob_arm W cmd) actions_ok"
proof -
  have "good TT (mfold (kill_target W) (cmd_args cmd) ([], [])) (\<lambda>_. TT)"
    by (intro good_mfold [where I = "\<lambda>_. TT"] good_kill_target)
  then show ?thesis
    unfolding mob_arm_def
    by (rule good_bind) (auto intro!: good_emit_any simp: payload_ok_def quest_of_def split: prod.split)
qed

lemma good_inert: "good P (inert_arm W step cmd flag) actions_ok"
  unfolding good_def inert_arm_def inert_preserved_action_def Let_def
  by (auto simp: case_prod_unfold mapper_ok_fields grows_def actions_ok_def action_ok_def new_action_def)

lemma good_malformed: "good P (malformed_arm W step cmd code message) actions_ok"
  unfolding good_def malformed_arm_def
  by (auto simp: mapper_ok_fields grows_def actions_ok_def action_ok_def new_action_def)

lemma condition_payload_ok [simp]: "payload_ok s (Condition c)" "payload_ok s (Hearth h)" "payload_ok s (UseItem u)"
  by (simp_all add: payload_ok_def quest_of_def)

lemma good_threshold: "good P (threshold_arm W step cmd) actions_ok"
  by (auto simp: threshold_arm_def good_inert split: option.split intro!: good_emit_any)

text \<open>The \<open>unreachable!\<close> of \<open>condition_role_for\<close> is: the gating commands all have a role.\<close>

lemma gating_role: "name \<in> set GATING_COMMANDS \<Longrightarrow> \<exists>role. condition_role_for name = Some role"
  by (auto simp: GATING_COMMANDS_def condition_role_for_def)

lemma good_gating: "cmd_name cmd \<in> set GATING_COMMANDS \<Longrightarrow> good P (gating_arm W step cmd) actions_ok"
  using gating_role [of "cmd_name cmd"]
  by (auto simp: gating_arm_def good_malformed split: option.split intro!: good_emit_any)

lemma good_abandon: "good P (abandon_arm W step cmd) actions_ok"
  by (auto simp: abandon_arm_def good_malformed split: option.split intro!: good_emit_any)

lemma good_use: "good P (use_arm W cmd) actions_ok"
  by (auto simp: use_arm_def good_none split: option.split intro!: good_emit_any)

lemma npc_payloads_ok:
  "known_npc s npc \<Longrightarrow> payload_ok s (Vendor \<lparr>vendor_npc = npc, vendor_sell_grey = True, vendor_repair = True,
     vendor_buy_items = [], vendor_minimum_free_slots = None\<rparr>)"
  "known_npc s npc \<Longrightarrow> payload_ok s (train_payload npc cmd)"
  "known_npc s npc \<Longrightarrow> payload_ok s (Flight \<lparr>flight_npc = npc, flight_destination = d\<rparr>)"
  "known_npc s npc \<Longrightarrow> payload_ok s (LearnFlightPath \<lparr>learn_npc = npc\<rparr>)"
  by (auto simp: payload_ok_def quest_of_def npcs_known_def train_payload_def)

lemma good_trainer: "good (\<lambda>s. npcs_known s last_target) (trainer_arm W cmd last_target) actions_ok"
  by (auto simp: trainer_arm_def good_none npcs_known_def split: option.split
      intro!: good_emit stability known_stable [unfolded npcs_known_def] npc_payloads_ok)

lemma good_command:
  assumes "honest W"
  shows "good (\<lambda>s. npcs_known s last_target) (command_actions W step cmd last_target) actions_ok"
proof -
  have any: "good TT m Q \<Longrightarrow> good (\<lambda>s. npcs_known s last_target) m Q" for m :: "Action list mapper" and Q
    by (erule good_weaken) (simp_all add: TT_def)
  show ?thesis
    unfolding command_actions_def Let_def vendor_arm_def train_arm_def fly_arm_def fp_arm_def hs_arm_def
    by (auto intro!: good_accept good_turnin good_trainer good_npc_command assms npc_payloads_ok good_threshold good_gating
        good_abandon good_use good_inert any [OF good_goto] any [OF good_mob] good_emit_any)
qed

lemma good_step_actions:
  assumes "honest W"
  shows "good TT (build_step_actions W step) actions_ok"
proof -
  define I where "I acc s \<longleftrightarrow> actions_ok (fst acc) s \<and> npcs_known s (snd acc)" for acc :: "Action list \<times> uuid option" and s
  have "good (I acc) (step_command W step cmd acc) I" for cmd acc
  proof (cases acc)
    case (Pair as lt)
    have ok: "stable (\<lambda>s. actions_ok as s)" "stable (\<lambda>s. npcs_known s lt)" by (intro stability)+
    have frame: "good (\<lambda>s. TT s \<and> actions_ok as s) (resolve_npc_with_hints W step name) (\<lambda>npc s. npcs_known s npc \<and> actions_ok as s)" for name
      by (intro good_frame good_hints assms ok)
    have cmd: "good (\<lambda>s. npcs_known s lt \<and> (actions_ok as s \<and> npcs_known s lt)) (command_actions W step cmd lt)
        (\<lambda>new s. actions_ok new s \<and> (actions_ok as s \<and> npcs_known s lt))"
      by (intro good_frame good_command assms stability ok)
    have stamped: "actions_ok (map (stamp_class cmd) new) s \<longleftrightarrow> actions_ok new s" for new s
      by (auto simp: actions_ok_def list_all_iff action_ok_def stamp_class_def split: option.split)
    show ?thesis
    proof (cases "cmd_name cmd = ''target''")
      case True
      have "good (I (as, lt)) (resolve_npc_with_hints W step (arg_at (cmd_args cmd) 0)) (\<lambda>npc s. npcs_known s npc \<and> actions_ok as s)"
        by (rule good_weaken [OF frame]) (simp_all add: I_def TT_def)
      then show ?thesis
        unfolding Pair step_command_def Let_def prod.case if_P [OF True]
        by (rule good_bind) (auto intro!: good_ret simp: I_def)
    next
      case False
      have "good (I (as, lt)) (command_actions W step cmd lt) (\<lambda>new s. actions_ok new s \<and> (actions_ok as s \<and> npcs_known s lt))"
        by (rule good_weaken [OF cmd]) (simp_all add: I_def)
      moreover have "actions_ok (as @ map (stamp_class cmd) new) s \<longleftrightarrow> actions_ok as s \<and> actions_ok new s" for new s
        using stamped [of new s] by (simp add: actions_ok_def)
      ultimately show ?thesis
        unfolding Pair step_command_def Let_def prod.case if_not_P [OF False]
        by (elim good_bind) (auto intro!: good_ret simp: I_def)
    qed
  qed
  then have "good (I ([], None)) (mfold (step_command W step) (step_commands step) ([], None)) I"
    by (intro good_mfold)
  then have "good TT (mfold (step_command W step) (step_commands step) ([], None)) I"
    by (rule good_weaken) (simp_all add: I_def actions_ok_def npcs_known_def)
  then show ?thesis
    unfolding build_step_actions_def by (rule good_bind) (auto intro!: good_ret simp: I_def split: prod.split)
qed

section \<open>Enrichment, operations and the project\<close>

lemma bound_kill_ok [simp]: "action_ok s (bound_kill n a) \<longleftrightarrow> action_ok s a"
  by (cases "act_payload a") (auto simp: bound_kill_def action_ok_def payload_ok_def quest_of_def)

lemma actions_ok_bound: "actions_ok as s \<Longrightarrow> actions_ok (bound_kills i needed as) s"
  by (auto simp: bound_kills_def actions_ok_def list_all_iff dest: in_set_takeD in_set_dropD split: option.split)

lemma actions_ok_insert: "actions_ok as s \<Longrightarrow> action_ok s a \<Longrightarrow> actions_ok (vec_insert i a as) s"
  by (auto simp: vec_insert_def actions_ok_def list_all_iff dest: in_set_takeD in_set_dropD)

lemma kill_ok [simp]: "payload_ok s (Kill k)"
  by (simp add: payload_ok_def quest_of_def)

lemma good_synthesise: "good (actions_ok as) (synthesise W i message at (synthesised_kill entries n) as) actions_ok"
  unfolding synthesise_def synthesised_kill_def
  by (rule good_bind [OF good_report [OF actions_ok_stable]], rule good_bind [OF good_ask [OF actions_ok_stable]])
    (auto intro!: good_ret actions_ok_insert simp: action_ok_def new_action_def)

lemma good_report_keep: "good (actions_ok as) (mbind (report sev code msg ent act) (\<lambda>_. mret as)) actions_ok"
  by (rule good_bind [OF good_report [OF actions_ok_stable]]) (rule good_ret)

lemma good_enrich_item: "good (actions_ok as) (enrich_item W i at item n as) actions_ok"
  unfolding enrich_item_def Let_def
  by (rule good_bind [OF good_ask [OF actions_ok_stable]])
    (auto intro!: good_weaken [OF good_report_keep] good_weaken [OF good_synthesise])

lemma good_enrich_objective: "good (actions_ok as) (enrich_objective W i at q index as) actions_ok"
  unfolding enrich_objective_def
proof (rule good_bind [OF good_ask [OF actions_ok_stable]])
  fix answer
  have kills: "\<exists>entries n. payload = synthesised_kill entries n" if "objective_kill obj = Some payload" for obj payload
    using that by (auto simp: objective_kill_def split: ObjectiveKind.splits if_splits)
  show "good (\<lambda>s. actions_ok as s \<and> (\<exists>t. answer = w_get_quest W t q))
     (case answer of Inl _ \<Rightarrow> mret as
      | Inr d \<Rightarrow> (case find_objective d index of
            None \<Rightarrow> mbind (report Warning ''UNSATISFIABLE_GATE'' (no_objective_msg q index) (''quest:'' @ show_word q) None) (\<lambda>_. mret as)
          | Some obj \<Rightarrow> (case objective_kill obj of
                 None \<Rightarrow> mbind (report Warning ''UNSATISFIABLE_GATE'' (no_action_msg q index (qo_kind obj)) (''quest:'' @ show_word q) None) (\<lambda>_. mret as)
               | Some payload \<Rightarrow> synthesise W i
                     (''synthesised a satisfying action for quest '' @ show_word q @ '' objective '' @ show_word index) at payload as)))
     actions_ok"
    by (auto intro!: good_weaken [OF good_report_keep] good_ret good_weaken [OF good_synthesise] split: sum.split option.split dest!: kills)
qed

lemma good_needed: "stable P \<Longrightarrow> good P (gate_needed W gate) (\<lambda>_. P)"
  by (auto simp: gate_needed_def split: Gate.split intro!: good_bind [OF good_ask] good_ret)

lemma good_enrich:
  "good (actions_ok as) (enrich_unsatisfiable_gates W i as) actions_ok"
proof -
  have "good (actions_ok bs) (enrich_gate W i located bs) actions_ok" for located bs
    by (cases located)
      (auto simp: enrich_gate_def good_enrich_item good_enrich_objective actions_ok_bound split: Gate.split
        intro!: good_bind [OF good_needed [OF actions_ok_stable]] good_ret)
  then show ?thesis
    unfolding enrich_unsatisfiable_gates_def by (intro good_mfold)
qed

lemma good_reports: "stable P \<Longrightarrow> (\<And>x. good P (f x) (\<lambda>_. P)) \<Longrightarrow> good P (mfold (\<lambda>x _. f x) xs ()) (\<lambda>_. P)"
  using good_mfold [of xs "\<lambda>_. P" "\<lambda>x _. f x" "()"] by simp

lemma good_report_optionals: "stable P \<Longrightarrow> good P (report_optionals step optionals) (\<lambda>_. P)"
  by (cases optionals) (simp_all add: report_optionals_def good_ret good_reports good_report)

lemma good_report_typos: "stable P \<Longrightarrow> good P (report_typos step) (\<lambda>_. P)"
  unfolding report_typos_def by (rule good_reports) (simp_all add: good_ret good_report split: option.split)

definition ops_ok :: "Operation list \<Rightarrow> MapperState \<Rightarrow> bool" where
  "ops_ok ops s \<longleftrightarrow> list_all (\<lambda>op1. actions_ok (op_actions op1) s) ops"

lemma ops_ok_stable: "stable (ops_ok ops)"
  unfolding ops_ok_def [abs_def] by (rule stable_list_all) (rule actions_ok_stable)

lemma good_operation:
  assumes "honest W"
  shows "good TT (build_operation W planned) (\<lambda>op1. actions_ok (op_actions op1))"
proof -
  obtain step absorbed where p: "planned = (step, absorbed)" by (cases planned)
  have stamped: "actions_ok (stamp_step_class step as) s \<longleftrightarrow> actions_ok as s" for as s
    by (simp add: stamp_step_class_def actions_ok_def list.pred_map comp_def action_ok_def [abs_def] if_distrib [of act_payload] cong: if_cong)
  show ?thesis
    unfolding p build_operation_def Let_def prod.case
    by (rule good_bind [OF good_ask [OF TT_stable]], rule good_bind [OF good_weaken [OF good_report_optionals [OF TT_stable]]],
        simp add: TT_def, assumption, rule good_bind [OF good_report_typos [OF TT_stable]],
        rule good_bind [OF good_step_actions [OF assms]], rule good_bind [OF good_enrich])
      (auto intro!: good_ret simp: stamped)
qed

lemma good_operations:
  assumes "honest W"
  shows "good TT (build_operations W steps) ops_ok"
proof -
  have "good (ops_ok ops) (mbind (build_operation W planned) (\<lambda>op1. mret (ops @ [op1]))) ops_ok" for planned ops
  proof (rule good_bind)
    show "good (ops_ok ops) (build_operation W planned) (\<lambda>op1 s. actions_ok (op_actions op1) s \<and> ops_ok ops s)"
      by (rule good_weaken [OF good_frame [OF good_operation [OF assms] ops_ok_stable]]) (simp_all add: TT_def)
  qed (auto intro!: good_ret simp: ops_ok_def)
  then have "good (ops_ok []) (mfold (\<lambda>planned ops. mbind (build_operation W planned) (\<lambda>op1. mret (ops @ [op1]))) (plan_steps [] steps) []) ops_ok"
    by (intro good_mfold)
  then show ?thesis
    unfolding build_operations_def by (rule good_weaken) (simp_all add: ops_ok_def)
qed

definition project_of_state :: "Project \<Rightarrow> MapperState \<Rightarrow> bool" where
  "project_of_state p s \<longleftrightarrow>
     prj_npc_library p = ms_npcs s \<and> prj_quest_library p = ms_quests s \<and> ops_ok (prj_operations p) s"

lemma good_project:
  assumes "honest W"
  shows "good TT (build_project W guide source_file) project_of_state"
proof -
  have labels: "good P (report_labels guide) (\<lambda>_. P)" if "stable P" for P
    unfolding report_labels_def case_prod_unfold by (intro good_reports good_report that)
  have dangling: "good P (report_unresolved guide) (\<lambda>_. P)" if "stable P" for P
    unfolding report_unresolved_def by (rule good_bind [where Q = "\<lambda>_. P"]) (intro good_reports good_report that)+
  show ?thesis
    unfolding build_project_def
    by (rule good_bind [OF good_ask [OF TT_stable]], rule good_bind [OF good_weaken [OF good_ask [OF TT_stable]]],
        simp add: TT_def, assumption, rule good_bind [OF good_weaken [OF good_operations [OF assms]]],
        simp add: TT_def, assumption, rule good_bind [OF labels [OF ops_ok_stable]], rule good_bind [OF dangling [OF ops_ok_stable]])
      (auto simp: good_def Let_def mapper_ok_fields grows_fields project_of_state_def
        intro: ops_ok_stable [unfolded stable_def, rule_format])
qed

lemma new_state_ok: "mapper_ok MapperState_new"
  by (simp add: mapper_ok_def MapperState_new_def)

lemma import_result:
  assumes "honest W"
  shows "\<exists>p s. import_guide W guide source_file = Some (Inr p) \<and> mapper_ok s \<and> project_of_state p s"
proof -
  have "returns (build_project W guide source_file) MapperState_new
      (\<lambda>p s. mapper_ok s \<and> grows MapperState_new s \<and> project_of_state p s)"
    using good_project [OF assms] new_state_ok by (simp add: good_def TT_def)
  from returns_Some [OF this] show ?thesis by (auto simp: import_guide_def)
qed

section \<open>Nothing is lost on the way\<close>

lemma mfold_collect:
  assumes "mfold (\<lambda>x done_so_far. mbind (m x) (\<lambda>y. mret (done_so_far @ [y]))) xs ys s = Some (Inr r, s')"
  shows "\<exists>new. r = ys @ new \<and> list_all2 (\<lambda>x y. \<exists>s1 s2. m x s1 = Some (Inr y, s2)) xs new"
  using assms
proof (induction xs arbitrary: ys s)
  case Nil
  then show ?case by simp
next
  case (Cons x xs)
  then obtain y s1 where y: "m x s = Some (Inr y, s1)"
    and "mfold (\<lambda>x done_so_far. mbind (m x) (\<lambda>y. mret (done_so_far @ [y]))) xs (ys @ [y]) s1 = Some (Inr r, s')"
    by (auto simp: mbind_Some)
  with Cons.IH obtain new where "r = (ys @ [y]) @ new" "list_all2 (\<lambda>x y. \<exists>s1 s2. m x s1 = Some (Inr y, s2)) xs new" by blast
  with y show ?case by (intro exI [of _ "y # new"]) auto
qed

text \<open>The operation of a planned step, up to its id and its actions.\<close>

definition written :: "Step \<times> Step list \<Rightarrow> Operation \<Rightarrow> bool" where
  "written planned op1 \<longleftrightarrow>
     (\<exists>u actions. op1 = (step_operation u (fst planned) (snd planned))\<lparr>op_actions := actions\<rparr>)"

lemma build_operation_written: "build_operation W planned s = Some (Inr op1, s') \<Longrightarrow> written planned op1"
  by (cases planned) (auto simp: build_operation_def mbind_Some written_def Let_def)

lemma build_project_operations:
  assumes "import_guide W guide source_file = Some (Inr p)"
  shows "list_all2 written (plan_steps [] (pg_steps guide)) (prj_operations p)"
proof -
  from assms obtain s where "build_project W guide source_file MapperState_new = Some (Inr p, s)"
    by (auto simp: import_guide_def)
  then obtain s1 s2 where "build_operations W (pg_steps guide) s1 = Some (Inr (prj_operations p), s2)"
    by (fastforce simp: build_project_def mbind_Some Let_def state_of_def)
  then obtain "list_all2 (\<lambda>x y. \<exists>s1 s2. build_operation W x s1 = Some (Inr y, s2)) (plan_steps [] (pg_steps guide)) (prj_operations p)"
    unfolding build_operations_def by (auto dest: mfold_collect)
  then show ?thesis by (rule list_all2_mono) (auto dest: build_operation_written)
qed

lemma plan_gathered: "concat (map (\<lambda>planned. gathered f (fst planned) (snd planned)) (plan_steps parked steps)) = concat (map f (parked @ steps))"
proof (induction parked steps rule: plan_steps.induct)
  case (1 parked)
  show ?case by (simp add: gathered_def comp_def)
next
  case (2 parked s steps)
  then show ?case by (simp add: gathered_def)
qed

lemma list_all2_member: "list_all2 P xs ys \<Longrightarrow> x \<in> set xs \<Longrightarrow> \<exists>y\<in>set ys. P x y"
  by (induction xs ys rule: list_all2_induct) auto

lemma list_all2_concat:
  "list_all2 (\<lambda>x y. f y = g x) xs ys \<Longrightarrow> concat (map f ys) = concat (map g xs)"
  by (induction xs ys rule: list_all2_induct) simp_all

lemma written_fields:
  "written planned op1 \<Longrightarrow> op_labels op1 = gathered step_labels (fst planned) (snd planned)"
  "written planned op1 \<Longrightarrow> op_requires op1 = gathered step_requires (fst planned) (snd planned)"
  "written planned op1 \<Longrightarrow> op_complete_with op1 = gathered step_complete_with (fst planned) (snd planned)"
  "written planned op1 \<Longrightarrow> op_directives op1 = gathered step_passthrough_directives (fst planned) (snd planned)"
  "written planned op1 \<Longrightarrow> op_source_line_start op1 = Some (span_start (fst planned) (snd planned))"
  "written planned op1 \<Longrightarrow> op_source_line_end op1 = Some (span_end (fst planned) (snd planned))"
  by (auto simp: written_def step_operation_def Operation_new_def)

lemma fold_min_le: "fold (\<lambda>x. min (f x)) xs (a :: 'a::linorder) \<le> a \<and> (\<forall>x\<in>set xs. fold (\<lambda>x. min (f x)) xs a \<le> f x)"
proof (induction xs arbitrary: a)
  case (Cons x xs)
  from Cons.IH [of "min (f x) a"] show ?case by auto
qed simp

lemma fold_max_le: "a \<le> fold (\<lambda>x. max (f x)) xs (a :: 'a::linorder) \<and> (\<forall>x\<in>set xs. f x \<le> fold (\<lambda>x. max (f x)) xs a)"
proof (induction xs arbitrary: a)
  case (Cons x xs)
  from Cons.IH [of "max (f x) a"] show ?case by auto
qed simp

text \<open>Every step is in the span of one planned operation.\<close>

lemma plan_members: "s \<in> set parked \<or> s \<in> set steps \<Longrightarrow> \<exists>planned\<in>set (plan_steps parked steps). s \<in> insert (fst planned) (set (snd planned))"
  by (induction parked steps rule: plan_steps.induct) (auto split: if_splits)

definition covers :: "Operation \<Rightarrow> Step \<Rightarrow> bool" where
  "covers op1 s \<longleftrightarrow>
     (\<exists>first final. op_source_line_start op1 = Some first \<and> op_source_line_end op1 = Some final
       \<and> first \<le> fst (span_of s) \<and> snd (span_of s) \<le> final)"

lemma written_covers:
  assumes "written planned op1" and "s \<in> insert (fst planned) (set (snd planned))"
  shows "covers op1 s"
  using assms fold_min_le [of "\<lambda>s. fst (span_of s)" "snd planned" "fst (span_of (fst planned))"]
    fold_max_le [of "snd (span_of (fst planned))" "\<lambda>s. snd (span_of s)" "snd planned"]
  by (auto simp: covers_def written_fields span_start_def span_end_def)

lemma kept_in_order:
  assumes "import_guide W guide source_file = Some (Inr p)"
    and "\<And>planned op1. written planned op1 \<Longrightarrow> f op1 = gathered g (fst planned) (snd planned)"
  shows "concat (map f (prj_operations p)) = concat (map g (pg_steps guide))"
proof -
  from build_project_operations [OF assms(1)]
  have "list_all2 (\<lambda>planned op1. f op1 = gathered g (fst planned) (snd planned)) (plan_steps [] (pg_steps guide)) (prj_operations p)"
    by (rule list_all2_mono) (rule assms(2))
  from list_all2_concat [OF this] show ?thesis by (simp add: plan_gathered)
qed

section \<open>Properties\<close>

text \<open>C16: An import never fails. When the client answers with the record it was asked for, \<open>ProjectBuilder::build\<close>
  returns a project for every guide, whatever else the client does: no error of the client and no unreadable argument
  stops it, and neither the \<open>unwrap\<close> of \<open>resolve_quest\<close> nor the \<open>unreachable!\<close> of \<open>condition_role_for\<close> panics.\<close>

theorem import_never_fails:
  assumes "honest W"
  shows "\<exists>p. import_guide W guide source_file = Some (Inr p)"
  using import_result [OF assms] by blast

definition NPC9 :: NpcDetail where
  "NPC9 = \<lparr>nd_entry = 197, nd_name = ''Marshal McBride'', nd_faction = ''12'',
     nd_positions = [\<lparr>wp_map = 0, wp_x = 0xC60B7000, wp_y = 0xC3250000, wp_z = 0x42A40000\<rparr>],
     nd_roles = [''QuestGiver'', ''Unknown''], nd_level = 20, nd_classification = ''normal'', nd_loot = [], nd_quests = []\<rparr>"

definition QUEST9 :: QuestDetail where
  "QUEST9 = \<lparr>qd_id = 7, qd_title = ''Kobold Camp Cleanup'', qd_level = 2, qd_min_level = 1, qd_required_quests = [783],
     qd_next_quests = [15], qd_giver_entry = Some 197, qd_finisher_entry = Some 197, qd_objectives = [''Kobold Vermin''],
     qd_structured_objectives = [\<lparr>qo_index = 1, qo_kind = KillCreature, qo_target_entry = 6, qo_required = 10, qo_sources = []\<rparr>]\<rparr>"

definition QUEST8 :: QuestDetail where
  "QUEST8 = \<lparr>qd_id = 8, qd_title = ''A Rogue's Deal'', qd_level = 5, qd_min_level = 1, qd_required_quests = [], qd_next_quests = [],
     qd_giver_entry = None, qd_finisher_entry = Some 9999, qd_objectives = [], qd_structured_objectives = []\<rparr>"

definition F9 :: Formatters where
  "F9 = \<lparr>fmt_uuid = show_nat \<circ> unat, fmt_uuid_debug = show_nat \<circ> unat, fmt_escape = (\<lambda>u. u)\<rparr>"

definition W9 :: World where
  "W9 = memory_world (with_npc NPC9 (with_quest QUEST8 (with_quest QUEST9 memory_new))) of_nat ''2024-01-01T00:00:00+00:00'' F9"

definition GUIDE9_TEXT :: string where
  "GUIDE9_TEXT = ''RegisterGuide([['' @ newline # ''#name 1-6 Northshire'' @ newline # ''step'' @ newline # ''.accept 7''
     @ newline # ''.accept 8''
     @ newline # ''step << Mage'' @ newline # ''#label camp'' @ newline # ''.complete 7,1'' @ newline # ''step''
     @ newline # ''#requires camp'' @ newline # ''step'' @ newline # ''.turnin 7'' @ newline # '']])''"

definition GUIDE9 :: ParsedGuide where
  "GUIDE9 = projr (parse_guide GUIDE9_TEXT)"

definition PROJECT9 :: Project where
  "PROJECT9 = projr (the (import_guide W9 GUIDE9 ''guide.lua''))"

lemma W9_honest: "honest W9"
  by (simp add: W9_def memory_world_honest)

lemma PROJECT9_imported: "import_guide W9 GUIDE9 ''guide.lua'' = Some (Inr PROJECT9)"
proof -
  from import_result [OF W9_honest] obtain p where "import_guide W9 GUIDE9 ''guide.lua'' = Some (Inr p)" by blast
  then show ?thesis by (simp add: PROJECT9_def)
qed

text \<open>The three operations of the example: the placeholder is folded into the last one, and a kill is added for the gate.\<close>

lemma PROJECT9_operations:
  "map (\<lambda>op1. (op_name op1, map (quest_of \<circ> act_payload) (op_actions op1), map gated_value (op_requires op1)))
     (prj_operations PROJECT9)
   = [(''Step 0'', [Some 7, Some 8], []), (''label:camp'', [None, None], []), (''Step 3'', [Some 7], [''camp''])]"
  by code_simp

lemma import_never_fails_witness:
  "\<exists>p. import_guide W9 GUIDE9 ''guide.lua'' = Some (Inr p)"
  by (rule import_never_fails) (rule W9_honest)

lemma dup_npcs_distinct:
  "distinct (map npc_entry ns) \<Longrightarrow> \<forall>n\<in>set ns. \<forall>e. npc_entry n = Some e \<longrightarrow> e \<notin> seen \<Longrightarrow> dup_npcs seen ns = []"
proof (induction ns arbitrary: seen)
  case (Cons n ns)
  have "dup_npcs seen' ns = []" if "seen' = seen \<or> (\<exists>e. npc_entry n = Some e \<and> seen' = insert e seen)" for seen'
    using Cons.prems that by (intro Cons.IH) (auto simp: image_iff)
  with Cons.prems(2) show ?case by (auto split: option.split)
qed simp

lemma dup_quests_distinct:
  "distinct (map quest_quest_id qs) \<Longrightarrow> quest_quest_id ` set qs \<inter> seen = {} \<Longrightarrow> dup_quests seen qs = []"
  by (induction qs arbitrary: seen) auto

lemma for_actions_none: "(\<And>op1 a. op1 \<in> set (prj_operations p) \<Longrightarrow> a \<in> set (op_actions op1) \<Longrightarrow> body op1 a = []) \<Longrightarrow> for_actions body p = []"
  by (simp add: for_actions_def)

lemma imported_action_ok:
  "project_of_state p s \<Longrightarrow> op1 \<in> set (prj_operations p) \<Longrightarrow> a \<in> set (op_actions op1) \<Longrightarrow> payload_ok s (act_payload a)"
  by (auto simp: project_of_state_def ops_ok_def actions_ok_def action_ok_def list_all_iff)

lemma checked_reference: "checked_npc payload = Some (kind, ref) \<Longrightarrow> npc_reference payload = Some ref"
  by (cases payload) auto

text \<open>C17: An imported project is closed under its references. Its NPC and quest libraries have one entry per game id, every NPC
  an action names is in the library, and so is every quest that is accepted or turned in: the duplicate, broken reference
  and unresolved quest checks of the validator find nothing, the last one even when the project is not exempted from it
  as an import.\<close>

theorem imported_project_validates:
  assumes "honest W" and "import_guide W guide source_file = Some (Inr p)"
  shows "check_duplicate_npcs p = [] \<and> check_duplicate_quests p = []
    \<and> check_broken_npc_references V p = []
    \<and> check_unresolved_quests V (p\<lparr>prj_import_metadata := None\<rparr>) = []"
proof -
  obtain s where s: "mapper_ok s" "project_of_state p s"
    using import_result [OF assms(1), of guide source_file] assms(2) by auto
  then have lib: "prj_npc_library p = ms_npcs s" "prj_quest_library p = ms_quests s" by (simp_all add: project_of_state_def)
  have "check_single_npc_ref V (set (map npc_id (prj_npc_library p))) a = []"
    if "op1 \<in> set (prj_operations p)" "a \<in> set (op_actions op1)" for op1 a
    using imported_action_ok [OF s(2) that]
    by (auto simp: check_single_npc_ref_def lib payload_ok_def npcs_known_def known_npc_def dest!: checked_reference split: option.split)
  then have "check_broken_npc_references V p = []"
    unfolding check_broken_npc_references_def by (rule for_actions_none)
  moreover have "check_unresolved_quests V (p\<lparr>prj_import_metadata := None\<rparr>) = []"
    using imported_action_ok [OF s(2)]
    by (auto simp: check_unresolved_quests_def Let_def lib payload_ok_def quest_of_def known_quest_def
        intro!: for_actions_none split: ActionPayload.split)
  moreover have "check_duplicate_npcs p = []"
    using s(1) by (simp add: check_duplicate_npcs_def lib mapper_ok_def dup_npcs_distinct)
  moreover have "check_duplicate_quests p = []"
    using s(1) by (simp add: check_duplicate_quests_def lib mapper_ok_def dup_quests_distinct)
  ultimately show ?thesis by blast
qed

lemma imported_project_validates_witness:
  "check_duplicate_npcs PROJECT9 = [] \<and> check_duplicate_quests PROJECT9 = []
    \<and> check_broken_npc_references V0 PROJECT9 = []
    \<and> check_unresolved_quests V0 (PROJECT9\<lparr>prj_import_metadata := None\<rparr>) = []"
  by (rule imported_project_validates [OF W9_honest PROJECT9_imported])


definition COMPILED9 :: "RuntimeProfile \<times> CompileReport" where
  "COMPILED9 = projr (compile F9 (\<lambda>_. None) PROJECT9)"

lemma COMPILED9_reports: "list_ex (\<lambda>d. diag_code d = ''UNRESOLVED_NPC'') (rep_unmapped_conditions (snd COMPILED9))"
  by code_simp


text \<open>C19: No directive is lost. The operations of an imported project carry every \<open>#label\<close>, \<open>#requires\<close>, \<open>#completewith\<close> and
  untyped directive of the guide, each once and in the order of the guide, although requirement placeholders emit no
  operation of their own; and the source span of some operation covers the lines of every step.\<close>

theorem import_keeps_directives:
  assumes "import_guide W guide source_file = Some (Inr p)"
  shows "concat (map op_labels (prj_operations p)) = concat (map step_labels (pg_steps guide))
    \<and> concat (map op_requires (prj_operations p)) = concat (map step_requires (pg_steps guide))
    \<and> concat (map op_complete_with (prj_operations p)) = concat (map step_complete_with (pg_steps guide))
    \<and> concat (map op_directives (prj_operations p)) = concat (map step_passthrough_directives (pg_steps guide))
    \<and> (\<forall>s\<in>set (pg_steps guide). \<exists>op1\<in>set (prj_operations p). covers op1 s)"
proof -
  note w = build_project_operations [OF assms]
  have "\<exists>op1\<in>set (prj_operations p). covers op1 s" if "s \<in> set (pg_steps guide)" for s
  proof -
    from plan_members [of s "[]" "pg_steps guide"] that obtain planned where planned: "planned \<in> set (plan_steps [] (pg_steps guide))"
      "s \<in> insert (fst planned) (set (snd planned))" by auto
    from list_all2_member [OF w this(1)] obtain op1 where "op1 \<in> set (prj_operations p)" "written planned op1"
      by blast
    with written_covers planned(2) show ?thesis by blast
  qed
  with kept_in_order [OF assms written_fields(1)] kept_in_order [OF assms written_fields(2)]
    kept_in_order [OF assms written_fields(3)] kept_in_order [OF assms written_fields(4)]
  show ?thesis by simp
qed

lemma import_keeps_directives_witness:
  "concat (map op_labels (prj_operations PROJECT9)) = concat (map step_labels (pg_steps GUIDE9))
    \<and> concat (map op_requires (prj_operations PROJECT9)) = concat (map step_requires (pg_steps GUIDE9))
    \<and> list_all (\<lambda>s. \<exists>op1\<in>set (prj_operations PROJECT9). covers op1 s) (pg_steps GUIDE9)"
  using import_keeps_directives [OF PROJECT9_imported] by (simp add: list_all_iff)

end
