(* ===== verification/Import_Steps.thy ===== *)
theory Import_Steps
  imports Import_Props
begin

text \<open>
  What a step becomes: every command one action that carries it out or keeps its text, with the exceptions the code
  makes; and every completion gate an action before it that can satisfy it, or a diagnostic.
\<close>

section \<open>Commands\<close>

text \<open>An action that does what the command says, or a comment in which the command can still be read.\<close>

definition carries_out :: "GuideCommand \<Rightarrow> ActionPayload \<Rightarrow> bool" where
  "carries_out cmd payload \<longleftrightarrow>
     (case payload of
        AcceptQuest a \<Rightarrow> cmd_name cmd = ''accept'' \<and> first_u32 (cmd_args cmd) = Some (accept_quest a)
      | TurnInQuest t \<Rightarrow> cmd_name cmd = ''turnin'' \<and> first_u32 (cmd_args cmd) = Some (turnin_quest t)
      | Travel _ \<Rightarrow> cmd_name cmd \<in> {''goto'', ''waypoint'', ''groundgoto'', ''flygoto''}
      | Vendor _ \<Rightarrow> cmd_name cmd = ''vendor''
      | Train tr \<Rightarrow> cmd_name cmd \<in> {''train'', ''trainer''} \<and> trainer_spells tr = train_spell_ids (cmd_args cmd)
      | Flight _ \<Rightarrow> cmd_name cmd = ''fly''
      | LearnFlightPath _ \<Rightarrow> cmd_name cmd = ''fp''
      | Hearth _ \<Rightarrow> cmd_name cmd = ''hs''
      | Kill k \<Rightarrow> cmd_name cmd = (if kill_watch k then ''unitscan'' else ''mob'')
      | UseItem i \<Rightarrow> cmd_name cmd \<in> {''item'', ''use''} \<and> first_u32 (cmd_args cmd) = Some (use_item i)
      | Condition c \<Rightarrow> importer_condition (cmd_name cmd) (cmd_args cmd) = Some (cond_expression c)
      | Comment c \<Rightarrow> cmd_note cmd = Some (comment_text c) \<or> has_prefix (''.'' @ cmd_name cmd) (comment_text c)
      | _ \<Rightarrow> False)"

definition one_action :: "GuideCommand \<Rightarrow> Action list \<Rightarrow> bool" where
  "one_action cmd actions \<longleftrightarrow>
     (\<exists>u note_text payload. actions = [new_action u note_text payload] \<and> carries_out cmd payload)"

text \<open>The commands that leave nothing behind: a readable number is missing, or there is no NPC to train with.\<close>

definition silent :: "GuideCommand \<Rightarrow> bool" where
  "silent cmd \<longleftrightarrow> cmd_name cmd \<in> {''accept'', ''turnin'', ''item'', ''use''} \<and> first_u32 (cmd_args cmd) = None"

lemma emit_Some: "emit W n payload s = Some (Inr actions, s') \<Longrightarrow> \<exists>u. actions = [new_action u n payload]"
  by (auto simp: emit_def mbind_Some)

lemma emit_one: "emit W n payload s = Some (Inr actions, s') \<Longrightarrow> carries_out cmd payload \<Longrightarrow> one_action cmd actions"
  by (auto simp: one_action_def dest!: emit_Some)

lemma prefix_comment: "has_prefix (''.'' @ cmd_name cmd) t \<Longrightarrow> carries_out cmd (comment t)"
  by (simp add: carries_out_def comment_def)

lemma has_prefix_append [simp]: "has_prefix s (s @ t)"
  by (auto simp: has_prefix_iff)

lemmas arm_simps = mbind_Some one_action_def carries_out_def comment_def new_action_def

lemma accept_yields:
  assumes "accept_arm W step cmd lt s = Some (Inr actions, s')" and "cmd_name cmd = ''accept''"
  shows "if first_u32 (cmd_args cmd) = None then actions = [] else one_action cmd actions"
  using assms by (auto simp: accept_arm_def arm_simps split: option.splits prod.splits dest!: emit_Some)

lemma turnin_yields:
  assumes "turnin_arm W step cmd lt s = Some (Inr actions, s')" and "cmd_name cmd = ''turnin''"
  shows "if first_u32 (cmd_args cmd) = None then actions = [] else one_action cmd actions"
  using assms by (auto simp: turnin_arm_def arm_simps split: option.splits prod.splits dest!: emit_Some)

lemma goto_yields:
  assumes "goto_arm W step cmd s = Some (Inr actions, s')"
    and "cmd_name cmd \<in> {''goto'', ''waypoint'', ''groundgoto'', ''flygoto''}"
  shows "one_action cmd actions"
  using assms by (auto simp: goto_arm_def Let_def arm_simps dest!: emit_Some)

lemma npc_command_yields:
  assumes "mbind (target_or_hint W step lt) (\<lambda>found. case found of Some npc \<Rightarrow> emit W n1 (f npc) | None \<Rightarrow> emit W n2 (comment t)) s
      = Some (Inr actions, s')"
    and "\<And>npc. carries_out cmd (f npc)" and "has_prefix (''.'' @ cmd_name cmd) t"
  shows "one_action cmd actions"
proof -
  from assms(1) obtain found s1 where
    "(case found of Some npc \<Rightarrow> emit W n1 (f npc) | None \<Rightarrow> emit W n2 (comment t)) s1 = Some (Inr actions, s')"
    by (auto simp: mbind_Some)
  then show ?thesis
    by (cases found) (auto dest: emit_one intro: assms(2) prefix_comment [OF assms(3)])
qed

lemma trainer_yields:
  assumes "trainer_arm W cmd lt s = Some (Inr actions, s')" and "cmd_name cmd = ''trainer''"
  shows "if lt = None then actions = [] else one_action cmd actions"
  using assms by (auto simp: trainer_arm_def arm_simps train_payload_def split: option.splits dest!: emit_Some)

lemma mob_yields:
  assumes "mob_arm W cmd s = Some (Inr actions, s')" and "cmd_name cmd = ''mob'' \<or> cmd_name cmd = ''unitscan''"
  shows "one_action cmd actions"
  using assms by (auto simp: mob_arm_def arm_simps split: prod.splits dest!: emit_Some)

lemma command_text_prefix: "has_prefix (''.'' @ cmd_name cmd) (command_text cmd)"
  by (simp add: command_text_def has_prefix_iff)

lemma command_text_comment: "carries_out cmd (comment (command_text cmd))"
  by (intro prefix_comment command_text_prefix)

lemma inert_yields:
  assumes "inert_arm W step cmd flag s = Some (Inr actions, s')"
  shows "one_action cmd actions"
proof -
  have note_text: "cmd_note cmd = Some n \<Longrightarrow> carries_out cmd (comment n)" for n by (simp add: carries_out_def comment_def)
  from assms show ?thesis
    using command_text_comment [of cmd] note_text
    by (auto simp: inert_arm_def inert_preserved_action_def mbind_Some one_action_def Let_def split: if_splits option.splits)
qed

lemma malformed_yields: "malformed_arm W step cmd code message s = Some (Inr actions, s') \<Longrightarrow> one_action cmd actions"
  using command_text_comment [of cmd] by (auto simp: malformed_arm_def mbind_Some one_action_def)

lemma threshold_yields:
  assumes "threshold_arm W step cmd s = Some (Inr actions, s')" and "cmd_name cmd = ''xp'' \<or> cmd_name cmd = ''subzone''"
  shows "one_action cmd actions"
proof (cases "importer_condition (cmd_name cmd) (cmd_args cmd)")
  case None
  with assms have "inert_arm W step cmd True s = Some (Inr actions, s')"
    by (auto simp: threshold_arm_def importer_condition_def)
  then show ?thesis by (rule inert_yields)
next
  case (Some e)
  with assms have "emit W (cmd_note cmd) (Condition \<lparr>cond_expression = e, cond_role = Completion\<rparr>) s = Some (Inr actions, s')"
    by (auto simp: threshold_arm_def importer_condition_def)
  then show ?thesis by (rule emit_one) (simp add: carries_out_def Some)
qed

lemma gating_yields:
  assumes "gating_arm W step cmd s = Some (Inr actions, s')" and "cmd_name cmd \<in> set GATING_COMMANDS"
  shows "one_action cmd actions"
proof -
  from assms(2) have "cmd_name cmd \<noteq> ''xp''" "cmd_name cmd \<noteq> ''subzone''" by (auto simp: GATING_COMMANDS_def)
  then have dsl: "importer_condition (cmd_name cmd) (cmd_args cmd) = gating_condition_dsl (cmd_name cmd) (cmd_args cmd)"
    by (simp add: importer_condition_def)
  show ?thesis
  proof (cases "gating_condition_dsl (cmd_name cmd) (cmd_args cmd)")
    case None
    with assms(1) show ?thesis by (auto simp: gating_arm_def intro: malformed_yields)
  next
    case (Some e)
    with assms(1) obtain role where
      "emit W (cmd_note cmd) (Condition \<lparr>cond_expression = e, cond_role = role\<rparr>) s = Some (Inr actions, s')"
      by (auto simp: gating_arm_def split: option.splits)
    then show ?thesis by (rule emit_one) (simp add: carries_out_def dsl Some)
  qed
qed

lemma abandon_yields:
  assumes "abandon_arm W step cmd s = Some (Inr actions, s')" and "cmd_name cmd = ''abandon''"
  shows "one_action cmd actions"
proof (cases "first_u32 (cmd_args cmd)")
  case None
  with assms(1) show ?thesis by (auto simp: abandon_arm_def intro: malformed_yields)
next
  case (Some q)
  with assms show ?thesis by (auto simp: abandon_arm_def arm_simps dest!: emit_Some)
qed

lemma use_yields:
  assumes "use_arm W cmd s = Some (Inr actions, s')" and "cmd_name cmd = ''item'' \<or> cmd_name cmd = ''use''"
  shows "if first_u32 (cmd_args cmd) = None then actions = [] else one_action cmd actions"
  using assms by (auto simp: use_arm_def arm_simps split: option.splits dest!: emit_Some)

text \<open>The outcome of a command: nothing, or one action.\<close>

definition command_result :: "GuideCommand \<Rightarrow> Action list \<Rightarrow> bool" where
  "command_result cmd actions \<longleftrightarrow>
     (if cmd_name cmd = ''target'' \<or> silent cmd then actions = []
      else one_action cmd actions \<or> cmd_name cmd = ''trainer'' \<and> actions = [])"

lemma command_yields:
  assumes "command_actions W step cmd lt s = Some (Inr actions, s')" and "cmd_name cmd \<noteq> ''target''"
  shows "command_result cmd actions"
proof -
  let ?name = "cmd_name cmd"
  note arms = assms(1) [unfolded command_actions_def Let_def]
  consider "?name = ''accept''" | "?name = ''turnin''" | "?name \<in> {''goto'', ''waypoint'', ''groundgoto'', ''flygoto''}"
    | "?name = ''vendor''" | "?name = ''train''" | "?name = ''fly''" | "?name = ''hs''" | "?name = ''mob'' \<or> ?name = ''unitscan''"
    | "?name = ''xp'' \<or> ?name = ''subzone''" | "?name \<in> set GATING_COMMANDS" | "?name = ''item'' \<or> ?name = ''use''"
    | "?name = ''trainer''" | "?name = ''abandon''" | "?name = ''fp''"
    | flag where "inert_arm W step cmd flag s = Some (Inr actions, s')" "\<not> silent cmd"
    using arms by (auto simp: silent_def split: if_splits)
  then show ?thesis
  proof cases
    case 1
    with arms have "accept_arm W step cmd lt s = Some (Inr actions, s')" by simp
    from accept_yields [OF this 1] 1 show ?thesis by (auto simp: command_result_def silent_def split: if_splits)
  next
    case 2
    with arms have "turnin_arm W step cmd lt s = Some (Inr actions, s')" by simp
    from turnin_yields [OF this 2] 2 show ?thesis by (auto simp: command_result_def silent_def split: if_splits)
  next
    case 3
    then have "goto_arm W step cmd s = Some (Inr actions, s')" using arms by auto
    from goto_yields [OF this 3] 3 show ?thesis by (auto simp: command_result_def silent_def)
  next
    case 4
    with arms have "vendor_arm W step cmd lt s = Some (Inr actions, s')" by simp
    then have "one_action cmd actions"
      unfolding vendor_arm_def by (rule npc_command_yields) (simp_all add: carries_out_def 4)
    with 4 show ?thesis by (simp add: command_result_def silent_def)
  next
    case 5
    with arms have "train_arm W step cmd lt s = Some (Inr actions, s')" by simp
    then have "one_action cmd actions"
      unfolding train_arm_def by (rule npc_command_yields) (simp_all add: carries_out_def train_payload_def 5)
    with 5 show ?thesis by (simp add: command_result_def silent_def)
  next
    case 6
    with arms have "fly_arm W step cmd lt s = Some (Inr actions, s')" by simp
    then have "one_action cmd actions"
      unfolding fly_arm_def Let_def by (rule npc_command_yields) (simp_all add: carries_out_def 6)
    with 6 show ?thesis by (simp add: command_result_def silent_def)
  next
    case 7
    with arms show ?thesis
      by (auto simp: hs_arm_def command_result_def silent_def arm_simps dest!: emit_Some)
  next
    case 8
    then have "mob_arm W cmd s = Some (Inr actions, s')" using arms by auto
    from mob_yields [OF this 8] 8 show ?thesis by (auto simp: command_result_def silent_def)
  next
    case 9
    then have "threshold_arm W step cmd s = Some (Inr actions, s')" using arms by auto
    from threshold_yields [OF this 9] 9 show ?thesis by (auto simp: command_result_def silent_def)
  next
    case 10
    then have "gating_arm W step cmd s = Some (Inr actions, s')" using arms by (auto simp: GATING_COMMANDS_def)
    from gating_yields [OF this 10] 10 show ?thesis by (auto simp: command_result_def silent_def GATING_COMMANDS_def)
  next
    case 11
    then have "use_arm W cmd s = Some (Inr actions, s')" using arms by (auto simp: GATING_COMMANDS_def)
    from use_yields [OF this 11] 11 show ?thesis by (auto simp: command_result_def silent_def split: if_splits)
  next
    case 12
    then have "trainer_arm W cmd lt s = Some (Inr actions, s')" using arms by (simp add: GATING_COMMANDS_def)
    from trainer_yields [OF this 12] 12 show ?thesis by (auto simp: command_result_def silent_def split: if_splits)
  next
    case 13
    then have "abandon_arm W step cmd s = Some (Inr actions, s')" using arms by (simp add: GATING_COMMANDS_def)
    from abandon_yields [OF this 13] 13 show ?thesis by (simp add: command_result_def silent_def)
  next
    case 14
    then have "fp_arm W step cmd lt s = Some (Inr actions, s')" using arms by (simp add: GATING_COMMANDS_def)
    then have "one_action cmd actions"
      unfolding fp_arm_def by (rule npc_command_yields) (simp_all add: carries_out_def 14)
    with 14 show ?thesis by (simp add: command_result_def silent_def)
  next
    case 15
    with inert_yields [OF 15(1)] assms(2) show ?thesis by (simp add: command_result_def)
  qed
qed

text \<open>The same with the class restriction of the line on the action.\<close>

definition stamped_action :: "GuideCommand \<Rightarrow> Action \<Rightarrow> bool" where
  "stamped_action cmd a \<longleftrightarrow>
     (\<exists>u note_text payload. carries_out cmd payload
       \<and> a = (new_action u note_text payload)
           \<lparr>act_class_restriction := cmd_class_restriction cmd, act_gate := map_option GuideGate (cmd_class_restriction cmd)\<rparr>)"

definition stamped_result :: "GuideCommand \<Rightarrow> Action list \<Rightarrow> bool" where
  "stamped_result cmd actions \<longleftrightarrow>
     (if cmd_name cmd = ''target'' \<or> silent cmd then actions = []
      else (\<exists>a. actions = [a] \<and> stamped_action cmd a) \<or> cmd_name cmd = ''trainer'' \<and> actions = [])"

lemma stamp_new_action:
  "stamp_class cmd (new_action u n payload) = (new_action u n payload)
     \<lparr>act_class_restriction := cmd_class_restriction cmd, act_gate := map_option GuideGate (cmd_class_restriction cmd)\<rparr>"
  by (simp add: stamp_class_def new_action_def split: option.split)

lemma stamp_one: "carries_out cmd payload \<Longrightarrow> stamped_action cmd (stamp_class cmd (new_action u n payload))"
  unfolding stamped_action_def using stamp_new_action by blast

lemma stamp_result: "command_result cmd block \<Longrightarrow> stamped_result cmd (map (stamp_class cmd) block)"
  unfolding command_result_def stamped_result_def one_action_def
  by (auto intro: stamp_one split: if_splits)

lemma step_command_yields:
  assumes "step_command W step cmd (actions, lt) s = Some (Inr (actions', lt'), s')"
  shows "\<exists>block. stamped_result cmd block \<and> actions' = actions @ block"
proof (cases "cmd_name cmd = ''target''")
  case True
  with assms have "actions' = actions" by (auto simp: step_command_def mbind_Some)
  with True show ?thesis by (simp add: stamped_result_def)
next
  case False
  with assms obtain block where "command_actions W step cmd lt s = Some (Inr block, s')"
    and "actions' = actions @ map (stamp_class cmd) block"
    by (auto simp: step_command_def mbind_Some)
  with command_yields [OF this(1) False] stamp_result show ?thesis by blast
qed

lemma steps_yield:
  assumes "mfold (step_command W step) cmds (actions, lt) s = Some (Inr (actions', lt'), s')"
  shows "\<exists>blocks. list_all2 stamped_result cmds blocks \<and> actions' = actions @ concat blocks"
  using assms
proof (induction cmds arbitrary: actions lt s)
  case Nil
  then show ?case by (auto intro: exI [of _ "[]"])
next
  case (Cons cmd cmds)
  then obtain actions1 lt1 s1 where 1: "step_command W step cmd (actions, lt) s = Some (Inr (actions1, lt1), s1)"
    and 2: "mfold (step_command W step) cmds (actions1, lt1) s1 = Some (Inr (actions', lt'), s')"
    by (auto simp: mbind_Some)
  from step_command_yields [OF 1] obtain block where b: "stamped_result cmd block" "actions1 = actions @ block" by blast
  from Cons.IH [OF 2] obtain blocks where "list_all2 stamped_result cmds blocks" "actions' = actions1 @ concat blocks" by blast
  with b show ?case by (intro exI [of _ "block # blocks"]) simp
qed

section \<open>Gates\<close>

text \<open>What the enrichment looks at in an action: the gate it is, and whether it can satisfy one.\<close>

definition shape :: "Action \<Rightarrow> Gate option \<times> bool" where
  "shape a = (gate_of a, is_satisfying_action a)"

definition gate_entity :: "Gate \<Rightarrow> string" where
  "gate_entity gate =
     (case gate of GateObjective quest _ \<Rightarrow> ''quest:'' @ show_word quest | GateItem item _ \<Rightarrow> ''item:'' @ show_word item)"

text \<open>Between two states nothing reported is taken back and the questions only grow.\<close>

definition later :: "MapperState \<Rightarrow> MapperState \<Rightarrow> bool" where
  "later s s' \<longleftrightarrow> (\<exists>new. ms_diagnostics s' = ms_diagnostics s @ new) \<and> ms_asked s \<le> ms_asked s'"

definition gate_explained :: "World \<Rightarrow> MapperState \<Rightarrow> MapperState \<Rightarrow> Gate \<Rightarrow> bool" where
  "gate_explained W s s' gate \<longleftrightarrow>
     (\<exists>d\<in>set (drop (length (ms_diagnostics s)) (ms_diagnostics s')).
        diag_code d = ''UNSATISFIABLE_GATE'' \<and> diag_entity d = Some (gate_entity gate))
     \<or> (\<exists>quest index t e. gate = GateObjective quest index \<and> ms_asked s \<le> t \<and> t < ms_asked s' \<and> w_get_quest W t quest = Inl e)"

lemma later_refl [simp]: "later s s"
  by (simp add: later_def)

lemma later_trans: "later s s' \<Longrightarrow> later s' s'' \<Longrightarrow> later s s''"
  by (auto simp: later_def)

lemma explained_after: "gate_explained W s s' g \<Longrightarrow> later s' s'' \<Longrightarrow> gate_explained W s s'' g"
  by (fastforce simp: gate_explained_def later_def)

lemma explained_before:
  assumes "gate_explained W s s' g" and "later s0 s"
  shows "gate_explained W s0 s' g"
proof -
  from assms(2) obtain new where new: "ms_diagnostics s = ms_diagnostics s0 @ new" "ms_asked s0 \<le> ms_asked s"
    by (auto simp: later_def)
  then have sub: "set (drop (length (ms_diagnostics s)) ds) \<subseteq> set (drop (length (ms_diagnostics s0)) ds)" for ds
    by (intro set_drop_subset_set_drop) simp
  from assms(1) consider (reported) "\<exists>d\<in>set (drop (length (ms_diagnostics s)) (ms_diagnostics s')).
      diag_code d = ''UNSATISFIABLE_GATE'' \<and> diag_entity d = Some (gate_entity g)"
    | (failed) quest index t e where "g = GateObjective quest index" "ms_asked s \<le> t" "t < ms_asked s'" "w_get_quest W t quest = Inl e"
    unfolding gate_explained_def by blast
  then show ?thesis
  proof cases
    case reported
    with sub [of "ms_diagnostics s'"] show ?thesis unfolding gate_explained_def by blast
  next
    case failed
    with le_trans [OF new(2) failed(2)] show ?thesis unfolding gate_explained_def by blast
  qed
qed

text \<open>Every gate but the pending ones has something before it that can satisfy it, or an explanation.\<close>

definition gates_ok :: "World \<Rightarrow> nat set \<Rightarrow> MapperState \<Rightarrow> MapperState \<Rightarrow> (Gate option \<times> bool) list \<Rightarrow> bool" where
  "gates_ok W pending s0 s shapes \<longleftrightarrow>
     (\<forall>j<length shapes. \<forall>gate. fst (shapes ! j) = Some gate \<longrightarrow>
        j \<in> pending \<or> list_ex snd (take j shapes) \<or> gate_explained W s0 s gate)"

text \<open>Handling one gate either leaves the shapes alone, when it is satisfied or explained, or puts a kill before it.\<close>

definition shape_step :: "World \<Rightarrow> nat \<times> Gate \<Rightarrow> MapperState \<Rightarrow> (Gate option \<times> bool) list
    \<Rightarrow> MapperState \<Rightarrow> (Gate option \<times> bool) list \<Rightarrow> bool" where
  "shape_step W located s shapes s' shapes' \<longleftrightarrow>
     later s s'
     \<and> (shapes' = shapes \<and> (list_ex snd (take (fst located) shapes) \<or> gate_explained W s s' (snd located))
        \<or> shapes' = take (fst located) shapes @ (None, True) # drop (fst located) shapes)"

lemma ask_Some: "ask q s = Some (Inr x, s') \<longleftrightarrow> x = q (ms_asked s) \<and> s' = s\<lparr>ms_asked := ms_asked s + 1\<rparr>"
  by (auto simp: ask_def)

lemma report_Some:
  "report sev code msg entity act s = Some (Inr x, s') \<longleftrightarrow>
     s' = s\<lparr>ms_diagnostics := ms_diagnostics s @ [diagnostic sev code msg (Some entity) act]\<rparr>"
  by (auto simp: report_def)

lemma shape_bound [simp]: "shape (bound_kill n a) = shape a"
  by (cases "act_payload a") (auto simp: shape_def bound_kill_def gate_of_def is_satisfying_action_def)

lemma shapes_bound: "map shape (bound_kills p needed as) = map shape as"
  by (auto simp: bound_kills_def comp_def take_map [symmetric] drop_map [symmetric] simp del: take_map drop_map split: option.split)

lemma shape_kill: "shape (new_action u n (synthesised_kill entries quantity)) = (None, True)"
  by (simp add: shape_def new_action_def synthesised_kill_def gate_of_def is_satisfying_action_def)

lemma satisfying_shapes: "list_ex is_satisfying_action (take p as) = list_ex snd (take p (map shape as))"
  by (simp add: take_map list_ex_iff shape_def)

lemma synthesise_step:
  assumes "synthesise W i message p (synthesised_kill entries n) as s = Some (Inr as', s')"
  shows "shape_step W (p, gate) s (map shape as) s' (map shape as')"
  using assms
  by (auto simp: synthesise_def mbind_Some ask_Some report_Some shape_step_def later_def vec_insert_def shape_kill take_map drop_map)

lemma enrich_item_step:
  assumes "enrich_item W i p item n as s = Some (Inr as', s')"
  shows "shape_step W (p, GateItem item n) s (map shape as) s' (map shape as')"
  using assms
  by (auto simp: enrich_item_def Let_def mbind_Some ask_Some report_Some shape_step_def later_def gate_explained_def gate_entity_def
      split: sum.splits if_splits dest!: synthesise_step [where gate = "GateItem item n"])

lemma objective_kill_shape: "objective_kill obj = Some payload \<Longrightarrow> \<exists>entries n. payload = synthesised_kill entries n"
  by (auto simp: objective_kill_def split: ObjectiveKind.splits if_splits)

lemma enrich_objective_step:
  assumes "enrich_objective W i p quest index as s = Some (Inr as', s')"
  shows "shape_step W (p, GateObjective quest index) s (map shape as) s' (map shape as')"
  using assms
  by (auto simp: enrich_objective_def mbind_Some ask_Some report_Some shape_step_def later_def gate_explained_def gate_entity_def
      split: sum.splits option.splits dest!: objective_kill_shape synthesise_step [where gate = "GateObjective quest index"])

lemma enrich_gate_step:
  assumes "enrich_gate W i located as s = Some (Inr as', s')"
  shows "shape_step W located s (map shape as) s' (map shape as')"
proof -
  obtain p gate where l: "located = (p, gate)" by (cases located)
  show ?thesis
  proof (cases "list_ex is_satisfying_action (take p as)")
    case True
    with assms l obtain needed where "gate_needed W gate s = Some (Inr needed, s')" "as' = bound_kills p needed as"
      by (auto simp: enrich_gate_def mbind_Some)
    moreover from this(1) have "later s s'"
      by (auto simp: gate_needed_def later_def mbind_Some ask_Some split: Gate.splits sum.splits option.splits)
    ultimately show ?thesis using True l by (simp add: shape_step_def shapes_bound satisfying_shapes)
  next
    case False
    with assms l show ?thesis
      by (cases gate) (auto simp: enrich_gate_def intro: enrich_item_step enrich_objective_step)
  qed
qed

lemma gates_ok_step:
  assumes "shape_step W (p, gate) s S s' S'" and "gates_ok W (insert p pending) s0 s S"
    and "p < length S" and "fst (S ! p) = Some gate" and "\<forall>q\<in>pending. q < p" and "later s0 s"
  shows "gates_ok W pending s0 s' S' \<and> (\<forall>q\<in>pending. S' ! q = S ! q) \<and> length S \<le> length S' \<and> later s0 s'"
proof -
  from assms(1) have sub: "later s s'" by (simp add: shape_step_def)
  have ok: "j \<in> insert p pending \<or> list_ex snd (take j S) \<or> gate_explained W s0 s' g"
    if "j < length S" "fst (S ! j) = Some g" for j g
    using assms(2) that explained_after [OF _ sub] unfolding gates_ok_def by blast
  from assms(1) consider "S' = S" "list_ex snd (take p S) \<or> gate_explained W s0 s' gate"
    | "S' = take p S @ (None, True) # drop p S" using explained_before [OF _ assms(6)] by (auto simp: shape_step_def)
  then show ?thesis
  proof cases
    case 1
    have "gates_ok W pending s0 s' S"
      unfolding gates_ok_def
    proof (intro allI impI)
      fix j g assume j: "j < length S" "fst (S ! j) = Some g"
      show "j \<in> pending \<or> list_ex snd (take j S) \<or> gate_explained W s0 s' g"
        using ok [OF j] 1(2) j(2) assms(4) by (cases "j = p") auto
    qed
    with 1(1) later_trans [OF assms(6) sub] show ?thesis by simp
  next
    case 2
    have len: "length S' = Suc (length S)" using 2 assms(3) by simp
    have before: "S' ! q = S ! q" "take q S' = take q S" if "q < p" for q
      using 2 that assms(3) by (simp_all add: nth_append)
    have after: "list_ex snd (take j S')" if "p < j" "j < length S'" for j
    proof -
      have "S' ! p = (None, True)" using 2 assms(3) by (simp add: nth_append)
      moreover have "take j S' ! p \<in> set (take j S')" using that by (intro nth_mem) simp
      ultimately show ?thesis using that by (auto simp: list_ex_iff intro!: bexI [of _ "(None, True)"])
    qed
    have "gates_ok W pending s0 s' S'"
      unfolding gates_ok_def
    proof (intro allI impI)
      fix j g assume j: "j < length S'" "fst (S' ! j) = Some g"
      consider "j < p" | "j = p" | "p < j" by linarith
      then show "j \<in> pending \<or> list_ex snd (take j S') \<or> gate_explained W s0 s' g"
      proof cases
        case 1
        with assms(3) j before [OF 1] ok [of j g] show ?thesis by simp
      next
        case 2
        with \<open>S' = take p S @ (None, True) # drop p S\<close> assms(3) j(2) show ?thesis by (simp add: nth_append)
      qed (use j after in blast)
    qed
    with len before assms(5) later_trans [OF assms(6) sub] show ?thesis by auto
  qed
qed

lemma enrich_gates:
  assumes "mfold (enrich_gate W i) gates as s = Some (Inr as', s')"
    and "gates_ok W (fst ` set gates) s0 s (map shape as)"
    and "\<forall>(p, gate)\<in>set gates. p < length as \<and> gate_of (as ! p) = Some gate"
    and "sorted_wrt (\<lambda>a b. fst b < fst a) gates" and "later s0 s"
  shows "gates_ok W {} s0 s' (map shape as')"
  using assms
proof (induction gates arbitrary: as s)
  case Nil
  then show ?case by simp
next
  case (Cons located gates)
  obtain p gate where l: "located = (p, gate)" by (cases located)
  from Cons.prems(1) obtain bs s1 where 1: "enrich_gate W i located as s = Some (Inr bs, s1)"
    and 2: "mfold (enrich_gate W i) gates bs s1 = Some (Inr as', s')" by (auto simp: mbind_Some)
  from Cons.prems(3) l have here: "p < length as" "gate_of (as ! p) = Some gate" by auto
  from here have "fst (map shape as ! p) = Some gate" by (simp add: shape_def)
  with Cons.prems(2,4,5) l here(1) enrich_gate_step [OF 1]
  have "gates_ok W (fst ` set gates) s0 s1 (map shape bs)
      \<and> (\<forall>q\<in>fst ` set gates. map shape bs ! q = map shape as ! q) \<and> length (map shape as) \<le> length (map shape bs) \<and> later s0 s1"
    by (intro gates_ok_step [where p = p and gate = gate]) auto
  then have ok: "gates_ok W (fst ` set gates) s0 s1 (map shape bs)" and later: "later s0 s1"
    and same: "q \<in> fst ` set gates \<Longrightarrow> map shape bs ! q = map shape as ! q" and len: "length as \<le> length bs" for q
    by auto
  have "\<forall>(q, g)\<in>set gates. q < length bs \<and> gate_of (bs ! q) = Some g"
  proof (intro ballI, clarify)
    fix q g assume q: "(q, g) \<in> set gates"
    with Cons.prems(3) have 3: "q < length as" "gate_of (as ! q) = Some g" by auto
    from q have "q \<in> fst ` set gates" by force
    from same [OF this] 3 len have "shape (bs ! q) = shape (as ! q)" by simp
    with 3 len show "q < length bs \<and> gate_of (bs ! q) = Some g" by (simp add: shape_def)
  qed
  with Cons.IH [OF 2 ok _ _ later] Cons.prems(4) show ?case by simp
qed

lemma in_map_filter_pairs: "(p, y) \<in> set (List.map_filter (\<lambda>(i, a). map_option (Pair i) (f a)) xs) \<longleftrightarrow> (\<exists>a. (p, a) \<in> set xs \<and> f a = Some y)"
  by (induction xs) (auto simp: List.map_filter_def)

lemma gates_of_mem: "(p, gate) \<in> set (gates_of as) \<longleftrightarrow> p < length as \<and> gate_of (as ! p) = Some gate"
  by (auto simp: gates_of_def in_map_filter_pairs in_set_enumerate_eq)

lemma gates_of_sorted: "sorted_wrt (\<lambda>a b. fst a < fst b) (gates_of as)"
proof -
  have "sorted_wrt (\<lambda>a b. fst a < fst b) (List.map_filter (\<lambda>(i, a). map_option (Pair i) (gate_of a)) (List.enumerate n as))" for n
    by (induction as arbitrary: n) (auto simp: in_map_filter_pairs in_set_enumerate_eq map_filter_simps split: option.split)
  then show ?thesis by (simp add: gates_of_def)
qed

section \<open>Property of the commands\<close>


text \<open>The first step of the example guide, \<open>.accept 7\<close> and \<open>.accept 8\<close>, and the gate of its second step.\<close>

definition STEP9 :: Step where
  "STEP9 = pg_steps GUIDE9 ! 0"

lemma STEP9_built:
  "case build_step_actions W9 STEP9 MapperState_new of
     Some (Inr actions, s) \<Rightarrow> map (quest_of \<circ> act_payload) actions = [Some 7, Some 8] \<and> length (ms_npcs s) = 1
   | _ \<Rightarrow> False"
  by code_simp



text \<open>A kill objective with nothing before it, and an objective the quest does not have.\<close>

definition GATED9 :: "Action list" where
  "GATED9 = [new_action 1 None (Condition \<lparr>cond_expression = ''Objective(7,1)'', cond_role = Completion\<rparr>),
             new_action 2 None (Condition \<lparr>cond_expression = ''Objective(7,5)'', cond_role = Completion\<rparr>)]"

lemma GATED9_enriched:
  "case enrich_unsatisfiable_gates W9 0 GATED9 MapperState_new of
     Some (Inr enriched, s) \<Rightarrow> map shape enriched = [(None, True), (Some (GateObjective 7 1), False), (Some (GateObjective 7 5), False)]
       \<and> map diag_code (ms_diagnostics s) = [''UNSATISFIABLE_GATE'', ''GATE_ENRICHED'']
   | _ \<Rightarrow> False"
  by code_simp


section \<open>A query that fails while enriching\<close>

text \<open>When the quest of an unsatisfied objective gate cannot be fetched, nothing is reported: the comment in
  \<open>enrich_unsatisfiable_gates\<close> that the failure was "diagnosed elsewhere" holds only when another command of the guide
  resolved the same quest.\<close>

lemma failed_query_is_silent:
  assumes "w_get_quest W (ms_asked s) quest = Inl e"
  shows "enrich_gate W i (p, GateObjective quest index) actions s
    = (if list_ex is_satisfying_action (take p actions)
       then mbind (gate_needed W (GateObjective quest index)) (\<lambda>needed. mret (bound_kills p needed actions)) s
       else Some (Inr actions, s\<lparr>ms_asked := ms_asked s + 1\<rparr>))"
  using assms by (simp add: enrich_gate_def enrich_objective_def mbind_def ask_def mret_def)

section \<open>A client that answers with another quest\<close>

definition W9_mismatched :: World where
  "W9_mismatched = W9\<lparr>w_get_quest := (\<lambda>_ _. Inr QUEST9)\<rparr>"

text \<open>The quest is filed under the id that was asked and searched by the id that came back: the second command panics.\<close>

lemma mismatched_quest_panics:
  "import_guide W9_mismatched
     (projr (parse_guide (''RegisterGuide([['' @ newline # ''step'' @ newline # ''.accept 5'' @ newline # ''.turnin 5'' @ newline # '']])'')))
     ''guide.lua'' = None"
  by code_simp

end
