(* ===== verification/Ordered_Map.thy ===== *)
theory Ordered_Map
  imports Prelude
begin

text \<open>
  \<open>BTreeMap\<close> as the list of its entries in the order of the keys: what iterating over the map yields. A \<open>BTreeSet\<close> is a
  sorted list (\<open>insort_insert\<close>). The locale \<open>map_interface\<close> is what a client of the map relies on.
\<close>

fun bt_insert :: "'k::linorder \<Rightarrow> 'v \<Rightarrow> ('k \<times> 'v) list \<Rightarrow> ('k \<times> 'v) list" where
  "bt_insert k v [] = [(k, v)]"
| "bt_insert k v ((k', v') # m) =
     (if k < k' then (k, v) # (k', v') # m else if k = k' then (k, v) # m else (k', v') # bt_insert k v m)"

definition bt_sorted :: "('k::linorder \<times> 'v) list \<Rightarrow> bool" where
  "bt_sorted m \<longleftrightarrow> sorted_wrt (<) (map fst m)"

lemma bt_sorted_Nil [simp, intro]: "bt_sorted []"
  by (simp add: bt_sorted_def)

lemma fst_bt_insert [simp]: "fst ` set (bt_insert k v m) = insert k (fst ` set m)"
  by (induction k v m rule: bt_insert.induct) auto

lemma bt_sorted_insert [simp, intro]: "bt_sorted m \<Longrightarrow> bt_sorted (bt_insert k v m)"
proof (induction k v m rule: bt_insert.induct)
  case (2 k v k' v' m)
  have keys: "set (map fst (bt_insert k v m)) = insert k (set (map fst m))"
    by (simp only: set_map fst_bt_insert)
  show ?case
  proof (cases "k' < k")
    case True
    with 2 have "sorted_wrt (<) (map fst (bt_insert k v m))" by (auto simp: bt_sorted_def)
    with True 2(2) keys show ?thesis by (auto simp: bt_sorted_def)
  next
    case False
    with 2(2) show ?thesis by (auto simp: bt_sorted_def)
  qed
qed (simp add: bt_sorted_def)

lemma map_of_bt_insert_other: "j \<noteq> k \<Longrightarrow> map_of (bt_insert k v m) j = map_of m j"
  by (induction k v m rule: bt_insert.induct) auto

lemma map_of_bt_insert_same: "bt_sorted m \<Longrightarrow> map_of (bt_insert k v m) k = Some v"
  by (induction k v m rule: bt_insert.induct) (auto simp: bt_sorted_def)

lemma map_of_bt_insert [simp]: "bt_sorted m \<Longrightarrow> map_of (bt_insert k v m) = (map_of m)(k \<mapsto> v)"
  by (rule ext) (simp add: map_of_bt_insert_other map_of_bt_insert_same)

lemma bt_sorted_distinct: "bt_sorted m \<Longrightarrow> distinct (map fst m)"
  by (simp add: bt_sorted_def strict_sorted_iff)

section \<open>What a client relies on\<close>

locale map_interface =
  fixes ins :: "'k \<Rightarrow> 'v \<Rightarrow> 'm \<Rightarrow> 'm" and look :: "'m \<Rightarrow> 'k \<Rightarrow> 'v option" and valid :: "'m \<Rightarrow> bool"
  assumes valid_ins: "valid m \<Longrightarrow> valid (ins k v m)"
    and look_ins: "valid m \<Longrightarrow> look (ins k v m) = (look m)(k \<mapsto> v)"
begin

text \<open>Inserting the entries of a list one after the other: the later ones win.\<close>

lemma fold_ins:
  "valid m \<Longrightarrow> valid (fold (\<lambda>(k, v). ins k v) kvs m)
    \<and> look (fold (\<lambda>(k, v). ins k v) kvs m) = look m ++ map_of (rev kvs)"
proof (induction kvs arbitrary: m)
  case (Cons kv kvs)
  obtain k v where kv: "kv = (k, v)" by (cases kv)
  from Cons.IH [OF valid_ins [OF Cons.prems]] look_ins [OF Cons.prems] kv show ?case
    by (simp add: map_add_def fun_eq_iff split: option.split)
qed simp

end

interpretation bt: map_interface bt_insert map_of bt_sorted
  by unfold_locales auto

text \<open>Building a map from a list of entries.\<close>

definition bt_of_list :: "('k::linorder \<times> 'v) list \<Rightarrow> ('k \<times> 'v) list" where
  "bt_of_list kvs = fold (\<lambda>(k, v). bt_insert k v) kvs []"

lemma bt_of_list [simp]: "bt_sorted (bt_of_list kvs)" "map_of (bt_of_list kvs) = map_of (rev kvs)"
  using bt.fold_ins [of "[]" kvs] by (simp_all add: bt_of_list_def)

end
