(* ===== verification/Platform_Model.thy ===== *)
theory Platform_Model
  imports Ordered_Map Runtime_Model Float32 "HOL-Library.List_Lexorder" "HOL-Library.Char_ord"
begin

text \<open>
  The campaign platform (\<^verbatim>\<open>shared/src/platform\<close>): entity references, task graphs with the intents of their nodes,
  campaigns that import each other, and the execution plan a graph resolves to.

  The derived JSON form of an intent value and the visitor that reads it back are modelled over JSON values; the text
  of JSON is the library's.
\<close>

section \<open>Entity references (entity_ref.rs)\<close>

datatype EntityKind = EkNpc | EkQuest | EkItem | EkObject | EkArea | EkSpell | EkMap

definition kind_as_str :: "EntityKind \<Rightarrow> string" where
  "kind_as_str kind =
     (case kind of
        EkNpc \<Rightarrow> ''npc'' | EkQuest \<Rightarrow> ''quest'' | EkItem \<Rightarrow> ''item'' | EkObject \<Rightarrow> ''object'' | EkArea \<Rightarrow> ''area''
      | EkSpell \<Rightarrow> ''spell'' | EkMap \<Rightarrow> ''map'')"

datatype EntityRefError = MissingSeparator string | UnknownKind string | InvalidId string

definition kind_from_str :: "string \<Rightarrow> EntityRefError + EntityKind" where
  "kind_from_str s =
     (if s = ''npc'' then Inr EkNpc else if s = ''quest'' then Inr EkQuest else if s = ''item'' then Inr EkItem
      else if s = ''object'' then Inr EkObject else if s = ''area'' then Inr EkArea else if s = ''spell'' then Inr EkSpell
      else if s = ''map'' then Inr EkMap else Inl (UnknownKind s))"

record EntityRef =
  er_kind :: EntityKind
  er_id :: u32
  er_label :: string

definition EntityRef_new :: "EntityKind \<Rightarrow> u32 \<Rightarrow> string \<Rightarrow> EntityRef" where
  "EntityRef_new kind n label = \<lparr>er_kind = kind, er_id = n, er_label = label\<rparr>"

definition entity_parse :: "string \<Rightarrow> EntityRefError + EntityRef" where
  "entity_parse text =
     (case split_once (CHR '':'') text of
        None \<Rightarrow> Inl (MissingSeparator text)
      | Some (kind_text, id_text) \<Rightarrow>
          case kind_from_str kind_text of
            Inl e \<Rightarrow> Inl e
          | Inr kind \<Rightarrow>
              case parse_word id_text of
                None \<Rightarrow> Inl (InvalidId id_text)
              | Some n \<Rightarrow> Inr (EntityRef_new kind n []))"

definition as_ref_string :: "EntityRef \<Rightarrow> string" where
  "as_ref_string e = kind_as_str (er_kind e) @ '':'' @ show_word (er_id e)"

lemma kind_from_as_str [simp]: "kind_from_str (kind_as_str kind) = Inr kind"
  by (cases kind) (simp_all add: kind_as_str_def kind_from_str_def)

lemma split_once_at: "d \<notin> set a \<Longrightarrow> split_once d (a @ d # b) = Some (a, b)"
  by (induction a) auto

lemma colon_not_in_kind: "CHR '':'' \<notin> set (kind_as_str kind)"
  by (cases kind) (simp_all add: kind_as_str_def)

lemma entity_parse_ref: "entity_parse (as_ref_string e) = Inr (e\<lparr>er_label := []\<rparr>)"
proof -
  have "split_once (CHR '':'') (as_ref_string e) = Some (kind_as_str (er_kind e), show_word (er_id e))"
    using split_once_at [OF colon_not_in_kind] by (simp add: as_ref_string_def)
  then show ?thesis by (simp add: entity_parse_def parse_word_show_word EntityRef_new_def)
qed

section \<open>Intents (graph.rs)\<close>

datatype IntentValue =
    IEntity EntityRef
  | IList "IntentValue list"
  | IBool bool
  | IInt "64 word"
  | IFloat f64
  | IText string

type_synonym Intent = "(string \<times> IntentValue) list"

definition Intent_new :: Intent where
  "Intent_new = []"

definition intent_insert :: "string \<Rightarrow> IntentValue \<Rightarrow> Intent \<Rightarrow> Intent" where
  "intent_insert field val intent = bt_insert field val intent"

definition intent_get :: "Intent \<Rightarrow> string \<Rightarrow> IntentValue option" where
  "intent_get intent field = map_of intent field"

definition intent_entity :: "Intent \<Rightarrow> string \<Rightarrow> EntityRef option" where
  "intent_entity intent field = (case map_of intent field of Some (IEntity e) \<Rightarrow> Some e | _ \<Rightarrow> None)"

text \<open>JSON values as the library's number type keeps them: a natural number is a \<open>u64\<close>, a negative one an \<open>i64\<close>.\<close>

datatype Json =
    JNull
  | JBool bool
  | JPosInt u64
  | JNegInt "64 word"
  | JFloat f64
  | JString string
  | JArray "Json list"
  | JObject "(string \<times> Json) list"

datatype IntentError =
    IntentRange u64
  | UnknownObjectField string
  | MissingRefField
  | BadReference EntityRefError
  | WrongJsonType

definition json_text :: "Json \<Rightarrow> IntentError + string" where
  "json_text j = (case j of JString s \<Rightarrow> Inr s | _ \<Rightarrow> Inl WrongJsonType)"

text \<open>The fields of an object in the order they come, the last one of a name winning.\<close>

fun visit_fields :: "string option \<Rightarrow> string \<Rightarrow> (string \<times> Json) list \<Rightarrow> IntentError + string option \<times> string" where
  "visit_fields reference label [] = Inr (reference, label)"
| "visit_fields reference label ((key, j) # rest) =
     (if key = ''ref''
      then (case json_text j of Inl e \<Rightarrow> Inl e | Inr s \<Rightarrow> visit_fields (Some s) label rest)
      else if key = ''label''
      then (case json_text j of Inl e \<Rightarrow> Inl e | Inr s \<Rightarrow> visit_fields reference s rest)
      else Inl (UnknownObjectField key))"

definition visit_map :: "(string \<times> Json) list \<Rightarrow> IntentError + IntentValue" where
  "visit_map entries =
     (case visit_fields None [] entries of
        Inl e \<Rightarrow> Inl e
      | Inr (None, _) \<Rightarrow> Inl MissingRefField
      | Inr (Some reference, label) \<Rightarrow>
          case entity_parse reference of
            Inl e \<Rightarrow> Inl (BadReference e)
          | Inr entity \<Rightarrow> Inr (IEntity (entity\<lparr>er_label := label\<rparr>)))"

definition visit_u64 :: "u64 \<Rightarrow> IntentError + IntentValue" where
  "visit_u64 n = (if unat n < 2 ^ 63 then Inr (IInt n) else Inl (IntentRange n))"

fun intent_of_json :: "Json \<Rightarrow> IntentError + IntentValue"
and intents_of_json :: "Json list \<Rightarrow> IntentError + IntentValue list" where
  "intent_of_json (JBool b) = Inr (IBool b)"
| "intent_of_json (JPosInt n) = visit_u64 n"
| "intent_of_json (JNegInt n) = Inr (IInt n)"
| "intent_of_json (JFloat x) = Inr (IFloat x)"
| "intent_of_json (JString s) = Inr (IText s)"
| "intent_of_json (JArray js) = map_res IList (intents_of_json js)"
| "intent_of_json (JObject entries) = visit_map entries"
| "intent_of_json JNull = Inl WrongJsonType"
| "intents_of_json [] = Inr []"
| "intents_of_json (j # js) =
     (case intent_of_json j of
        Inl e \<Rightarrow> Inl e
      | Inr v \<Rightarrow> map_res (\<lambda>vs. v # vs) (intents_of_json js))"

definition f64_is_finite :: "f64 \<Rightarrow> bool" where
  "f64_is_finite x \<longleftrightarrow> drop_bit 52 x AND 0x7FF \<noteq> 0x7FF"

text \<open>\<open>derive(Serialize)\<close> with \<open>untagged\<close>: the value alone. A float that is not finite is written as null.\<close>

fun json_of_intent :: "IntentValue \<Rightarrow> Json" where
  "json_of_intent (IEntity e) = JObject [(''ref'', JString (as_ref_string e)), (''label'', JString (er_label e))]"
| "json_of_intent (IList vs) = JArray (map json_of_intent vs)"
| "json_of_intent (IBool b) = JBool b"
| "json_of_intent (IInt n) = (if sint n < 0 then JNegInt n else JPosInt n)"
| "json_of_intent (IFloat x) = (if f64_is_finite x then JFloat x else JNull)"
| "json_of_intent (IText s) = JString s"

fun finite_intent :: "IntentValue \<Rightarrow> bool" where
  "finite_intent (IList vs) = list_all finite_intent vs"
| "finite_intent (IFloat x) = f64_is_finite x"
| "finite_intent _ = True"

lemma uint_of_nonneg: "0 \<le> sint (n :: 64 word) \<Longrightarrow> uint n = sint n \<and> sint n < 2 ^ 63"
  using sint_lt [of n] by (simp add: uint_sint take_bit_int_eq_self)

lemma visit_u64_nonneg: "0 \<le> sint n \<Longrightarrow> visit_u64 n = Inr (IInt n)"
  using uint_of_nonneg [of n] by (simp add: visit_u64_def unat_eq_nat_uint nat_less_iff)

section \<open>Graphs (graph.rs)\<close>

record Edge =
  edge_id :: uuid
  edge_from :: uuid
  edge_to :: uuid
  edge_guard :: "uuid option"

definition Edge_new :: "uuid \<Rightarrow> uuid \<Rightarrow> uuid \<Rightarrow> Edge" where
  "Edge_new u source target = \<lparr>edge_id = u, edge_from = source, edge_to = target, edge_guard = None\<rparr>"

record Resolved =
  res_actions :: "GuardedAction list"
  res_resolved_at :: string
  res_db_fingerprint :: string
  res_resolver_version :: string

record Node =
  node_id :: uuid
  node_type :: string
  node_intent :: Intent
  node_resolved :: "Resolved option"
  node_context :: "Json option"

definition Node_new :: "uuid \<Rightarrow> string \<Rightarrow> Intent \<Rightarrow> Node" where
  "Node_new u type_name intent =
     \<lparr>node_id = u, node_type = type_name, node_intent = intent, node_resolved = None, node_context = None\<rparr>"

record Graph =
  graph_id :: uuid
  graph_name :: string
  graph_entry_node :: uuid
  graph_nodes :: "Node list"
  graph_edges :: "Edge list"

definition Graph_new :: "uuid \<Rightarrow> string \<Rightarrow> uuid \<Rightarrow> Graph" where
  "Graph_new u name entry = \<lparr>graph_id = u, graph_name = name, graph_entry_node = entry, graph_nodes = [], graph_edges = []\<rparr>"

definition is_linear :: "Graph \<Rightarrow> bool" where
  "is_linear graph \<longleftrightarrow>
     list_all (\<lambda>node. case filter (\<lambda>e. edge_from e = node_id node) (graph_edges graph) of
         [] \<Rightarrow> True | [e] \<Rightarrow> edge_guard e = None | _ \<Rightarrow> False) (graph_nodes graph)"

definition graph_node :: "Graph \<Rightarrow> uuid \<Rightarrow> Node option" where
  "graph_node graph u = List.find (\<lambda>node. node_id node = u) (graph_nodes graph)"

section \<open>Campaigns (campaign.rs)\<close>

definition PLATFORM_SCHEMA_VERSION :: u32 where
  "PLATFORM_SCHEMA_VERSION = 3"

record NodeOverride =
  override_node :: uuid
  override_intent :: Intent

record CampaignImport =
  import_campaign :: uuid
  import_overrides :: "NodeOverride list"
  import_disabled_nodes :: "uuid list"

record ConditionDef =
  condef_id :: uuid
  condef_condition :: RuntimeCondition

datatype CampaignVariableType = CtBool | CtInt | CtFloat | CtText

datatype CampaignValue = CvBool bool | CvInt "64 word" | CvFloat f64 | CvText string

record CampaignVariable =
  camvar_id :: uuid
  camvar_name :: string
  camvar_type :: CampaignVariableType
  camvar_default :: CampaignValue

record Campaign =
  camp_schema_version :: u32
  camp_id :: uuid
  camp_name :: string
  camp_imports :: "CampaignImport list"
  camp_variables :: "CampaignVariable list"
  camp_conditions :: "ConditionDef list"
  camp_graphs :: "Graph list"

definition Campaign_new :: "uuid \<Rightarrow> string \<Rightarrow> Campaign" where
  "Campaign_new u name =
     \<lparr>camp_schema_version = PLATFORM_SCHEMA_VERSION, camp_id = u, camp_name = name, camp_imports = [],
      camp_variables = [], camp_conditions = [], camp_graphs = []\<rparr>"

definition campaign_graph :: "Campaign \<Rightarrow> uuid \<Rightarrow> Graph option" where
  "campaign_graph campaign u = List.find (\<lambda>g. graph_id g = u) (camp_graphs campaign)"

definition campaign_condition :: "Campaign \<Rightarrow> uuid \<Rightarrow> ConditionDef option" where
  "campaign_condition campaign u = List.find (\<lambda>c. condef_id c = u) (camp_conditions campaign)"

section \<open>Plans (plan.rs)\<close>

record PlanTransition =
  trans_to_index :: nat
  trans_guard :: "uuid option"

record PlanOperation =
  planop_node_id :: uuid
  planop_actions :: "GuardedAction list"
  planop_next :: "PlanTransition list"

record ExecutionPlan =
  plan_schema_version :: u32
  plan_campaign_id :: uuid
  plan_graph_id :: uuid
  plan_db_fingerprint :: string
  plan_content_hash :: string
  plan_operations :: "PlanOperation list"
  plan_conditions :: "ConditionDef list"

definition is_sequential_advance :: "PlanOperation \<Rightarrow> bool" where
  "is_sequential_advance op1 \<longleftrightarrow> (case planop_next op1 of [t] \<Rightarrow> trans_guard t = None | _ \<Rightarrow> False)"

text \<open>The serialised forms are the library's; \<open>None\<close> is an error, read as an empty string.\<close>

record PlanJson =
  json_operations :: "PlanOperation list \<Rightarrow> string option"
  json_conditions :: "ConditionDef list \<Rightarrow> string option"

definition or_empty :: "string option \<Rightarrow> string" where
  "or_empty s = (case s of None \<Rightarrow> [] | Some t \<Rightarrow> t)"

definition plan_hash :: "PlanJson \<Rightarrow> ExecutionPlan \<Rightarrow> string" where
  "plan_hash J plan =
     (let operations = or_empty (json_operations J (plan_operations plan));
          canonical = (if plan_conditions plan = [] then operations
                       else operations @ or_empty (json_conditions J (plan_conditions plan)))
      in show_hex_pad 16 (unat (hash_bytes 0 canonical)))"

section \<open>Properties\<close>

text \<open>C28: An intent value survives its JSON form: what the visitor reads from the JSON of a value is the value, for every value
  without an infinite or NaN float (which JSON writes as null and the visitor then refuses).\<close>

theorem intent_json_roundtrip:
  assumes "finite_intent v"
  shows "intent_of_json (json_of_intent v) = Inr v"
  using assms
proof (induction v)
  case (IEntity e)
  then show ?case by (simp add: visit_map_def json_text_def entity_parse_ref)
next
  case (IList vs)
  then have "intents_of_json (map json_of_intent vs) = Inr vs"
    by (induction vs) simp_all
  then show ?case by simp
next
  case (IInt n)
  then show ?case by (simp add: visit_u64_nonneg)
qed simp_all

lemma intent_json_roundtrip_witness:
  "intent_of_json (json_of_intent (IList [IEntity (EntityRef_new EkQuest 4294967295 ''a: b''), IInt (- 5), IInt 7, IFloat 0, IText ''x'']))
    = Inr (IList [IEntity (EntityRef_new EkQuest 4294967295 ''a: b''), IInt (- 5), IInt 7, IFloat 0, IText ''x''])"
  by (rule intent_json_roundtrip) (simp add: f64_is_finite_def)

end
