(* ===== verification/Resolver_Registry.thy ===== *)
theory Resolver_Registry
  imports Platform_Model
begin

text \<open>
  What the resolver knows about tasks and the world (\<^verbatim>\<open>resolver/src/registry.rs\<close>, \<^verbatim>\<open>db.rs\<close>, \<^verbatim>\<open>diagnostic.rs\<close>): the
  schema of a task type and the check of an intent against it, the registry, and the database it asks.

  A database is a pure function of the question (\<open>ResolverDb\<close>); \<open>InMemoryDb\<close> is the one of the source. A function that
  pushes diagnostics returns the ones it pushes.
\<close>

definition ticked :: "string \<Rightarrow> string" where
  "ticked s = [CHR 0x60] @ s @ [CHR 0x60]"

section \<open>Diagnostics (diagnostic.rs)\<close>

record ResolverDiagnostic =
  rd_severity :: Severity
  rd_code :: string
  rd_message :: string
  rd_node_id :: "uuid option"
  rd_field :: "string option"

definition rd_new :: "Severity \<Rightarrow> string \<Rightarrow> string \<Rightarrow> ResolverDiagnostic" where
  "rd_new severity code message =
     \<lparr>rd_severity = severity, rd_code = code, rd_message = message, rd_node_id = None, rd_field = None\<rparr>"

definition rd_error :: "string \<Rightarrow> string \<Rightarrow> ResolverDiagnostic" where
  "rd_error code message = rd_new Error code message"

definition rd_warning :: "string \<Rightarrow> string \<Rightarrow> ResolverDiagnostic" where
  "rd_warning code message = rd_new Warning code message"

definition with_field :: "string \<Rightarrow> ResolverDiagnostic \<Rightarrow> ResolverDiagnostic" where
  "with_field field d = d\<lparr>rd_field := Some field\<rparr>"

definition with_node :: "uuid \<Rightarrow> ResolverDiagnostic \<Rightarrow> ResolverDiagnostic" where
  "with_node u d = d\<lparr>rd_node_id := Some u\<rparr>"

lemma rd_severity_simps [simp]:
  "rd_severity (rd_new s c m) = s" "rd_severity (rd_error c m) = Error" "rd_severity (rd_warning c m) = Warning"
  "rd_severity (with_field f d) = rd_severity d" "rd_severity (with_node u d) = rd_severity d"
  "rd_code (rd_new s c m) = c" "rd_code (rd_error c m) = c" "rd_code (rd_warning c m) = c"
  "rd_code (with_field f d) = rd_code d" "rd_code (with_node u d) = rd_code d"
  "rd_node_id (with_node u d) = Some u" "rd_field (with_node u d) = rd_field d"
  "rd_field (rd_error c m) = None" "rd_field (rd_warning c m) = None" "rd_field (with_field f d) = Some f"
  by (simp_all add: rd_new_def rd_error_def rd_warning_def with_field_def with_node_def)

definition has_error :: "ResolverDiagnostic list \<Rightarrow> bool" where
  "has_error ds \<longleftrightarrow> list_ex (\<lambda>d. rd_severity d = Error) ds"

lemma has_error_simps [simp]:
  "has_error [] = False" "has_error (d # ds) = (rd_severity d = Error \<or> has_error ds)"
  "has_error (ds @ ds') = (has_error ds \<or> has_error ds')"
  "has_error (map (with_node u) ds) = has_error ds"
  by (auto simp: has_error_def list_ex_iff)

lemma has_error_concat [simp]: "has_error (concat dss) = list_ex has_error dss"
  by (induction dss) simp_all

section \<open>The database (db.rs)\<close>

record Spawn =
  spawn_map :: u32
  spawn_x :: f32
  spawn_y :: f32
  spawn_z :: f32

definition Spawn_new :: "u32 \<Rightarrow> f32 \<Rightarrow> f32 \<Rightarrow> f32 \<Rightarrow> Spawn" where
  "Spawn_new m x y z = \<lparr>spawn_map = m, spawn_x = x, spawn_y = y, spawn_z = z\<rparr>"

definition spawn_waypoint :: "Spawn \<Rightarrow> RuntimeWaypoint" where
  "spawn_waypoint s = RuntimeWaypoint_new (spawn_map s) (spawn_x s) (spawn_y s) (spawn_z s)"

record DbError =
  dberr_lookup :: string
  dberr_detail :: string

definition DbError_new :: "string \<Rightarrow> string \<Rightarrow> DbError" where
  "DbError_new lookup detail = \<lparr>dberr_lookup = lookup, dberr_detail = detail\<rparr>"

record ResolverDb =
  db_fingerprint :: string
  db_spawn :: "EntityKind \<Rightarrow> u32 \<Rightarrow> DbError + Spawn option"
  db_label :: "EntityKind \<Rightarrow> u32 \<Rightarrow> DbError + string option"
  db_quest_giver :: "u32 \<Rightarrow> DbError + u32 option"
  db_quest_ender :: "u32 \<Rightarrow> DbError + u32 option"

text \<open>A step that can fail and reports.\<close>

type_synonym 'a reported = "DbError + ('a \<times> ResolverDiagnostic list)"

definition quiet :: "'a \<Rightarrow> 'a reported" where
  "quiet x = Inr (x, [])"

definition reporting :: "ResolverDiagnostic \<Rightarrow> 'a \<Rightarrow> 'a reported" where
  "reporting d x = Inr (x, [d])"

definition lookup :: "DbError + 'a \<Rightarrow> 'a reported" where
  "lookup r = map_res (\<lambda>x. (x, [])) r"

lemma reported_simps [simp]:
  "quiet x = Inr (y, ds) \<longleftrightarrow> y = x \<and> ds = []" "reporting d x = Inr (y, ds) \<longleftrightarrow> y = x \<and> ds = [d]"
  "lookup r = Inr (y, ds) \<longleftrightarrow> r = Inr y \<and> ds = []"
  by (auto simp: quiet_def reporting_def lookup_def)

text \<open>The maps of the fixture are modelled by the functions they define.\<close>

record InMemoryDb =
  mem_fingerprint :: string
  mem_spawns :: "EntityKind \<times> u32 \<Rightarrow> Spawn option"
  mem_labels :: "EntityKind \<times> u32 \<Rightarrow> string option"
  mem_quest_givers :: "u32 \<Rightarrow> u32 option"
  mem_quest_enders :: "u32 \<Rightarrow> u32 option"
  mem_unreadable :: "string option"
  mem_unreadable_labels :: "string option"
  mem_failing_entries :: "(EntityKind \<times> u32) list"
  mem_failing_quests :: "u32 list"

definition InMemoryDb_new :: "string \<Rightarrow> InMemoryDb" where
  "InMemoryDb_new fingerprint =
     \<lparr>mem_fingerprint = fingerprint, mem_spawns = (\<lambda>_. None), mem_labels = (\<lambda>_. None), mem_quest_givers = (\<lambda>_. None),
      mem_quest_enders = (\<lambda>_. None), mem_unreadable = None, mem_unreadable_labels = None, mem_failing_entries = [],
      mem_failing_quests = []\<rparr>"

definition with_spawn :: "EntityKind \<Rightarrow> u32 \<Rightarrow> Spawn \<Rightarrow> InMemoryDb \<Rightarrow> InMemoryDb" where
  "with_spawn kind n spawn m = m\<lparr>mem_spawns := (mem_spawns m)((kind, n) \<mapsto> spawn)\<rparr>"

definition with_label :: "EntityKind \<Rightarrow> u32 \<Rightarrow> string \<Rightarrow> InMemoryDb \<Rightarrow> InMemoryDb" where
  "with_label kind n label m = m\<lparr>mem_labels := (mem_labels m)((kind, n) \<mapsto> label)\<rparr>"

definition with_quest_giver :: "u32 \<Rightarrow> u32 \<Rightarrow> InMemoryDb \<Rightarrow> InMemoryDb" where
  "with_quest_giver quest npc m = m\<lparr>mem_quest_givers := (mem_quest_givers m)(quest \<mapsto> npc)\<rparr>"

definition with_quest_ender :: "u32 \<Rightarrow> u32 \<Rightarrow> InMemoryDb \<Rightarrow> InMemoryDb" where
  "with_quest_ender quest npc m = m\<lparr>mem_quest_enders := (mem_quest_enders m)(quest \<mapsto> npc)\<rparr>"

definition mem_failing :: "string \<Rightarrow> InMemoryDb \<Rightarrow> InMemoryDb" where
  "mem_failing detail m = m\<lparr>mem_unreadable := Some detail\<rparr>"

definition entity_text :: "EntityKind \<Rightarrow> u32 \<Rightarrow> string" where
  "entity_text kind n = kind_as_str kind @ '':'' @ show_word n"

definition entry_failure :: "InMemoryDb \<Rightarrow> string \<Rightarrow> EntityKind \<Rightarrow> u32 \<Rightarrow> DbError option" where
  "entry_failure m name kind n =
     (case mem_unreadable m of
        Some detail \<Rightarrow> Some (DbError_new name detail)
      | None \<Rightarrow>
          if (kind, n) \<in> set (mem_failing_entries m)
          then Some (DbError_new name (''row for '' @ ticked (entity_text kind n) @ '' is unreadable'')) else None)"

definition quest_failure :: "InMemoryDb \<Rightarrow> string \<Rightarrow> u32 \<Rightarrow> DbError option" where
  "quest_failure m name quest =
     (case mem_unreadable m of
        Some detail \<Rightarrow> Some (DbError_new name detail)
      | None \<Rightarrow>
          if quest \<in> set (mem_failing_quests m)
          then Some (DbError_new name (''relation rows for quest '' @ show_word quest @ '' are unreadable'')) else None)"

definition unless :: "DbError option \<Rightarrow> 'a \<Rightarrow> DbError + 'a" where
  "unless failure x = (case failure of Some e \<Rightarrow> Inl e | None \<Rightarrow> Inr x)"

definition memory_db :: "InMemoryDb \<Rightarrow> ResolverDb" where
  "memory_db m =
     \<lparr>db_fingerprint = mem_fingerprint m,
      db_spawn = (\<lambda>kind n. unless (entry_failure m ''spawn'' kind n) (mem_spawns m (kind, n))),
      db_label = (\<lambda>kind n.
        case mem_unreadable_labels m of
          Some detail \<Rightarrow> Inl (DbError_new ''label'' detail)
        | None \<Rightarrow> unless (entry_failure m ''label'' kind n) (mem_labels m (kind, n))),
      db_quest_giver = (\<lambda>quest. unless (quest_failure m ''quest_giver'' quest) (mem_quest_givers m quest)),
      db_quest_ender = (\<lambda>quest. unless (quest_failure m ''quest_ender'' quest) (mem_quest_enders m quest))\<rparr>"

section \<open>Schemas (registry.rs)\<close>

datatype FieldKind = FkEntity | FkEntityList | FkInt | FkFloat | FkBool | FkText

datatype ValidationRule =
    MinInt "64 word"
  | MaxInt "64 word"
  | NonEmptyText
  | OneOf "string list"

record Field =
  field_name :: string
  field_kind :: FieldKind
  field_entity_type :: "EntityKind option"
  field_required :: bool
  field_rules :: "ValidationRule list"

definition Field_new :: "string \<Rightarrow> FieldKind \<Rightarrow> Field" where
  "Field_new name kind =
     \<lparr>field_name = name, field_kind = kind, field_entity_type = None, field_required = False, field_rules = []\<rparr>"

definition Field_entity :: "string \<Rightarrow> EntityKind \<Rightarrow> Field" where
  "Field_entity name kind = (Field_new name FkEntity)\<lparr>field_entity_type := Some kind\<rparr>"

definition Field_entity_list :: "string \<Rightarrow> EntityKind \<Rightarrow> Field" where
  "Field_entity_list name kind = (Field_new name FkEntityList)\<lparr>field_entity_type := Some kind\<rparr>"

definition Field_required :: "Field \<Rightarrow> Field" where
  "Field_required f = f\<lparr>field_required := True\<rparr>"

definition with_rules :: "ValidationRule list \<Rightarrow> Field \<Rightarrow> Field" where
  "with_rules rules f = f\<lparr>field_rules := rules\<rparr>"

record TaskType =
  tt_type_name :: string
  tt_schema :: "Field list"
  tt_lower :: "Intent \<Rightarrow> ResolverDb \<Rightarrow> GuardedAction list reported"
  tt_validate :: "Intent \<Rightarrow> ResolverDb \<Rightarrow> DbError + ResolverDiagnostic list"

definition debug_field_kind :: "FieldKind \<Rightarrow> string" where
  "debug_field_kind kind =
     (case kind of
        FkEntity \<Rightarrow> ''Entity'' | FkEntityList \<Rightarrow> ''EntityList'' | FkInt \<Rightarrow> ''Int'' | FkFloat \<Rightarrow> ''Float''
      | FkBool \<Rightarrow> ''Bool'' | FkText \<Rightarrow> ''Text'')"

definition describe :: "IntentValue \<Rightarrow> string" where
  "describe val =
     (case val of
        IEntity _ \<Rightarrow> ''an entity reference'' | IList _ \<Rightarrow> ''a list'' | IBool _ \<Rightarrow> ''a boolean'' | IInt _ \<Rightarrow> ''an integer''
      | IFloat _ \<Rightarrow> ''a float'' | IText _ \<Rightarrow> ''text'')"

definition check_entity_kind :: "Field \<Rightarrow> EntityRef \<Rightarrow> ResolverDiagnostic list" where
  "check_entity_kind field entity =
     (case field_entity_type field of
        None \<Rightarrow> []
      | Some expected \<Rightarrow>
          if er_kind entity \<noteq> expected
          then [with_field (field_name field) (rd_error ''resolver.field.entity_kind''
                 (ticked (field_name field) @ '' expects a '' @ kind_as_str expected @ '' reference, found ''
                   @ ticked (as_ref_string entity)))]
          else [])"

definition violation :: "Field \<Rightarrow> ValidationRule \<Rightarrow> IntentValue \<Rightarrow> string option" where
  "violation field rule val =
     (case (rule, val) of
        (MinInt lower, IInt n) \<Rightarrow>
          if sint n < sint lower then Some (ticked (field_name field) @ '' must be at least '' @ show_int (sint lower)) else None
      | (MaxInt upper, IInt n) \<Rightarrow>
          if sint n > sint upper then Some (ticked (field_name field) @ '' must be at most '' @ show_int (sint upper)) else None
      | (NonEmptyText, IText t) \<Rightarrow>
          if trim t = [] then Some (ticked (field_name field) @ '' must not be blank'') else None
      | (OneOf allowed, IText t) \<Rightarrow>
          if t \<notin> set allowed then Some (ticked (field_name field) @ '' must be one of '' @ join '', '' allowed) else None
      | _ \<Rightarrow> None)"

definition check_rule :: "Field \<Rightarrow> IntentValue \<Rightarrow> ValidationRule \<Rightarrow> ResolverDiagnostic list" where
  "check_rule field val rule =
     (case violation field rule val of
        None \<Rightarrow> []
      | Some message \<Rightarrow> [with_field (field_name field) (rd_new Error ''resolver.field.rule'' message)])"

definition check_item :: "Field \<Rightarrow> IntentValue \<Rightarrow> ResolverDiagnostic list" where
  "check_item field item =
     (case item of
        IEntity entity \<Rightarrow> check_entity_kind field entity
      | _ \<Rightarrow> [with_field (field_name field) (rd_error ''resolver.field.kind''
               (ticked (field_name field) @ '' must hold entity references''))])"

text \<open>Whether the value is of the kind of the field, and what is pushed while finding out.\<close>

definition check_kind :: "Field \<Rightarrow> IntentValue \<Rightarrow> bool \<times> ResolverDiagnostic list" where
  "check_kind field val =
     (case (field_kind field, val) of
        (FkEntity, IEntity entity) \<Rightarrow> (True, check_entity_kind field entity)
      | (FkEntityList, IList items) \<Rightarrow> (True, concat (map (check_item field) items))
      | (FkInt, IInt _) \<Rightarrow> (True, [])
      | (FkFloat, IInt _) \<Rightarrow> (True, [])
      | (FkFloat, IFloat _) \<Rightarrow> (True, [])
      | (FkBool, IBool _) \<Rightarrow> (True, [])
      | (FkText, IText _) \<Rightarrow> (True, [])
      | _ \<Rightarrow> (False, []))"

definition check_value :: "Field \<Rightarrow> IntentValue \<Rightarrow> ResolverDiagnostic list" where
  "check_value field val =
     (let (kind_ok, ds) = check_kind field val
      in ds @ (if \<not> kind_ok
               then [with_field (field_name field) (rd_error ''resolver.field.kind''
                      (ticked (field_name field) @ '' expects '' @ debug_field_kind (field_kind field) @ '', found ''
                        @ describe val))]
               else concat (map (check_rule field val) (field_rules field))))"

definition check_field :: "string \<Rightarrow> Intent \<Rightarrow> Field \<Rightarrow> ResolverDiagnostic list" where
  "check_field type_name intent field =
     (case intent_get intent (field_name field) of
        None \<Rightarrow>
          if field_required field
          then [with_field (field_name field) (rd_error ''resolver.field.missing''
                 (ticked type_name @ '' requires a '' @ ticked (field_name field)))]
          else []
      | Some val \<Rightarrow> check_value field val)"

definition check_unknown :: "TaskType \<Rightarrow> string \<Rightarrow> ResolverDiagnostic list" where
  "check_unknown task name =
     (if list_ex (\<lambda>field. field_name field = name) (tt_schema task) then []
      else [with_field name (rd_warning ''resolver.field.unknown''
             (ticked (tt_type_name task) @ '' has no field '' @ ticked name))])"

definition check_schema :: "TaskType \<Rightarrow> Intent \<Rightarrow> ResolverDiagnostic list" where
  "check_schema task intent =
     concat (map (check_field (tt_type_name task) intent) (tt_schema task))
     @ concat (map (check_unknown task \<circ> fst) intent)"

definition check_task :: "TaskType \<Rightarrow> Intent \<Rightarrow> ResolverDb \<Rightarrow> DbError + ResolverDiagnostic list" where
  "check_task task intent db = map_res (\<lambda>ds. check_schema task intent @ ds) (tt_validate task intent db)"

section \<open>The registry\<close>

type_synonym TaskRegistry = "(string \<times> TaskType) list"

definition registry_new :: TaskRegistry where
  "registry_new = []"

definition registry_get :: "TaskRegistry \<Rightarrow> string \<Rightarrow> TaskType option" where
  "registry_get registry type_name = map_of registry type_name"

text \<open>\<open>RegistryError::Duplicate\<close> holds the name.\<close>

definition register :: "TaskType \<Rightarrow> TaskRegistry \<Rightarrow> string + TaskRegistry" where
  "register task registry =
     (if registry_get registry (tt_type_name task) \<noteq> None then Inl (tt_type_name task)
      else Inr (bt_insert (tt_type_name task) task registry))"

definition type_names :: "TaskRegistry \<Rightarrow> string list" where
  "type_names registry = map fst registry"

section \<open>Typed intents\<close>

text \<open>What the check is for: a value fits its field, and an intent fits a schema.\<close>

definition entity_fits :: "Field \<Rightarrow> EntityRef \<Rightarrow> bool" where
  "entity_fits field entity \<longleftrightarrow> (case field_entity_type field of None \<Rightarrow> True | Some kind \<Rightarrow> er_kind entity = kind)"

definition rule_holds :: "IntentValue \<Rightarrow> ValidationRule \<Rightarrow> bool" where
  "rule_holds val rule \<longleftrightarrow>
     (case rule of
        MinInt lower \<Rightarrow> (\<forall>n. val = IInt n \<longrightarrow> sint lower \<le> sint n)
      | MaxInt upper \<Rightarrow> (\<forall>n. val = IInt n \<longrightarrow> sint n \<le> sint upper)
      | NonEmptyText \<Rightarrow> (\<forall>t. val = IText t \<longrightarrow> trim t \<noteq> [])
      | OneOf allowed \<Rightarrow> (\<forall>t. val = IText t \<longrightarrow> t \<in> set allowed))"

inductive fits :: "Field \<Rightarrow> IntentValue \<Rightarrow> bool" for field :: Field where
  fits_entity: "field_kind field = FkEntity \<Longrightarrow> entity_fits field entity \<Longrightarrow> fits field (IEntity entity)"
| fits_list: "field_kind field = FkEntityList \<Longrightarrow> \<forall>item\<in>set items. \<exists>entity. item = IEntity entity \<and> entity_fits field entity
    \<Longrightarrow> fits field (IList items)"
| fits_int: "field_kind field \<in> {FkInt, FkFloat} \<Longrightarrow> fits field (IInt n)"
| fits_float: "field_kind field = FkFloat \<Longrightarrow> fits field (IFloat x)"
| fits_bool: "field_kind field = FkBool \<Longrightarrow> fits field (IBool b)"
| fits_text: "field_kind field = FkText \<Longrightarrow> fits field (IText t)"

inductive_simps fits_simps [simp]:
  "fits field (IEntity entity)" "fits field (IList items)" "fits field (IInt n)" "fits field (IFloat x)"
  "fits field (IBool b)" "fits field (IText t)"

definition well_typed :: "Field list \<Rightarrow> Intent \<Rightarrow> bool" where
  "well_typed schema intent \<longleftrightarrow>
     (\<forall>field\<in>set schema.
        case intent_get intent (field_name field) of
          None \<Rightarrow> \<not> field_required field
        | Some val \<Rightarrow> fits field val \<and> (\<forall>rule\<in>set (field_rules field). rule_holds val rule))"

lemma entity_kind_error [simp]: "has_error (check_entity_kind field entity) \<longleftrightarrow> \<not> entity_fits field entity"
  by (simp add: check_entity_kind_def entity_fits_def split: option.split)

lemma rule_error [simp]: "has_error (check_rule field val rule) \<longleftrightarrow> \<not> rule_holds val rule"
  by (auto simp: check_rule_def rule_holds_def violation_def split: ValidationRule.splits IntentValue.splits if_splits)

lemma item_error [simp]: "has_error (check_item field item) \<longleftrightarrow> (\<nexists>entity. item = IEntity entity \<and> entity_fits field entity)"
  by (cases item) (simp_all add: check_item_def)

lemma kind_error: "fst (check_kind field val) \<and> \<not> has_error (snd (check_kind field val)) \<longleftrightarrow> fits field val"
  by (cases "field_kind field"; cases val) (auto simp: check_kind_def list_ex_iff)

lemma value_error: "has_error (check_value field val)
    \<longleftrightarrow> \<not> (fits field val \<and> (\<forall>rule\<in>set (field_rules field). rule_holds val rule))"
  using kind_error [of field val] by (auto simp: check_value_def case_prod_unfold Let_def list_ex_iff)

lemma unknown_warns [simp]: "\<not> has_error (check_unknown task name)"
  by (simp add: check_unknown_def)

lemma schema_errors: "has_error (check_schema task intent) \<longleftrightarrow> \<not> well_typed (tt_schema task) intent"
  by (auto simp: check_schema_def well_typed_def check_field_def list_ex_iff value_error split: option.splits)

section \<open>Properties\<close>

text \<open>C27: The schema check is exact: \<open>check_schema\<close> reports an error exactly when the intent is not well typed, that is, when a
  required field is missing, a value is not of the kind of its field, an entity is of the wrong kind, or a rule is broken.
  Unknown fields never block.\<close>

theorem schema_check_exact:
  "has_error (check_schema task intent) \<longleftrightarrow> \<not> well_typed (tt_schema task) intent"
  by (rule schema_errors)

end
