(* ===== verification/Float64.thy ===== *)
theory Float64
  imports Float32
begin

text \<open>
  The rest of the floating point arithmetic of the query server: binary64 on bit patterns (values from the database, the
  experience formula), its conversions, and the square root and rounding functions of binary32. As in \<^verbatim>\<open>Float32\<close>, exact
  values are natural numbers scaled by a power of two, and one rounding gives the result.
\<close>

section \<open>binary64 values\<close>

definition f64_sign :: "f64 \<Rightarrow> bool" where
  "f64_sign x \<longleftrightarrow> bit x 63"

definition f64_exp_bits :: "f64 \<Rightarrow> nat" where
  "f64_exp_bits x = unat (drop_bit 52 x AND 0x7FF)"

definition f64_fraction :: "f64 \<Rightarrow> nat" where
  "f64_fraction x = unat (x AND 0x000FFFFFFFFFFFFF)"

definition f64_is_nan :: "f64 \<Rightarrow> bool" where
  "f64_is_nan x \<longleftrightarrow> f64_exp_bits x = 0x7FF \<and> f64_fraction x \<noteq> 0"

definition f64_is_inf :: "f64 \<Rightarrow> bool" where
  "f64_is_inf x \<longleftrightarrow> f64_exp_bits x = 0x7FF \<and> f64_fraction x = 0"

definition f64_is_zero :: "f64 \<Rightarrow> bool" where
  "f64_is_zero x \<longleftrightarrow> f64_exp_bits x = 0 \<and> f64_fraction x = 0"

definition f64_mantissa :: "f64 \<Rightarrow> nat" where
  "f64_mantissa x = (if f64_exp_bits x = 0 then f64_fraction x else f64_fraction x + 2 ^ 52)"

definition f64_exponent :: "f64 \<Rightarrow> int" where
  "f64_exponent x = (if f64_exp_bits x = 0 then - 1074 else int (f64_exp_bits x) - 1075)"

definition f64_nan :: f64 where "f64_nan = 0x7FF8000000000000"

definition f64_inf :: f64 where "f64_inf = 0x7FF0000000000000"

definition with_sign64 :: "bool \<Rightarrow> f64 \<Rightarrow> f64" where
  "with_sign64 s x = (if s then x OR 0x8000000000000000 else x)"

definition f64_abs :: "f64 \<Rightarrow> f64" where
  "f64_abs x = x AND 0x7FFFFFFFFFFFFFFF"

section \<open>binary64 arithmetic\<close>

text \<open>\<open>n * 2 powr e\<close>, rounded to 53 bits or to the subnormal exponent.\<close>

definition round_scaled64 :: "bool \<Rightarrow> nat \<Rightarrow> int \<Rightarrow> f64" where
  "round_scaled64 s n e =
     with_sign64 s
       (if n = 0 then 0
        else let u = max (- 1074) (e + int (bit_count n) - 53); (a, b) = scaled n 1 (u - e);
                 bits = half_even a b + nat (u + 1074) * 2 ^ 52
             in if bits \<ge> 0x7FF0000000000000 then f64_inf else of_nat bits)"

definition f64_mul :: "f64 \<Rightarrow> f64 \<Rightarrow> f64" where
  "f64_mul x y =
     (let s = (f64_sign x \<noteq> f64_sign y)
      in if f64_is_nan x \<or> f64_is_nan y then f64_nan
         else if f64_is_inf x \<or> f64_is_inf y
         then (if f64_is_zero x \<or> f64_is_zero y then f64_nan else with_sign64 s f64_inf)
         else round_scaled64 s (f64_mantissa x * f64_mantissa y) (f64_exponent x + f64_exponent y))"

definition f64_of_nat :: "nat \<Rightarrow> f64" where
  "f64_of_nat n = round_scaled64 False n 0"

text \<open>\<open>i as f64\<close> for an \<open>i64\<close>.\<close>

definition f64_of_i64 :: "64 word \<Rightarrow> f64" where
  "f64_of_i64 i = round_scaled64 (sint i < 0) (nat \<bar>sint i\<bar>) 0"

text \<open>\<open>x as f32\<close>.\<close>

definition f32_of_f64 :: "f64 \<Rightarrow> f32" where
  "f32_of_f64 x =
     (if f64_is_nan x then f32_nan
      else if f64_is_inf x then with_sign (f64_sign x) 0x7F800000
      else round_scaled (f64_sign x) (f64_mantissa x) (f64_exponent x))"

text \<open>The integer nearest to \<open>m * 2 powr e\<close>, halves upwards.\<close>

definition round_away :: "nat \<Rightarrow> int \<Rightarrow> nat" where
  "round_away m e = (if e \<ge> 0 then m * 2 ^ nat e else (m + 2 ^ (nat (- e) - 1)) div 2 ^ nat (- e))"

text \<open>\<open>x.round().max(0.0) as u32\<close>: half away from zero, saturating, NaN is zero.\<close>

definition f64_round_u32 :: "f64 \<Rightarrow> u32" where
  "f64_round_u32 x =
     (if f64_is_nan x \<or> f64_sign x then 0
      else if f64_is_inf x then - 1
      else of_nat (min (round_away (f64_mantissa x) (f64_exponent x)) (2 ^ 32 - 1)))"

section \<open>More of binary32\<close>

text \<open>The integer square root.\<close>

definition next_root :: "nat \<Rightarrow> nat \<Rightarrow> nat" where
  "next_root n q = (if (2 * q + 1)\<^sup>2 \<le> n then 2 * q + 1 else 2 * q)"

fun isqrt :: "nat \<Rightarrow> nat" where
  "isqrt n = (if n = 0 then 0 else next_root n (isqrt (n div 4)))"

declare isqrt.simps [simp del]

text \<open>
  The square root: the mantissa is shifted so that its root has more than 25 bits and the exponent is even; a last
  bit stands for the remainder, so that rounding the root rounds the exact value.
\<close>

definition f32_sqrt :: "f32 \<Rightarrow> f32" where
  "f32_sqrt x =
     (if f32_is_nan x then f32_nan
      else if f32_is_zero x then x
      else if f32_sign x then f32_nan
      else if f32_is_inf x then x
      else let e = f32_exponent x - 52;
               (n, h) = (if even e then (f32_mantissa x * 2 ^ 52, e div 2) else (f32_mantissa x * 2 ^ 53, (e - 1) div 2));
               r = isqrt n
           in round_scaled False (2 * r + (if r\<^sup>2 = n then 0 else 1)) (h - 1))"

definition f32_min :: "f32 \<Rightarrow> f32 \<Rightarrow> f32" where
  "f32_min x y = (if f32_is_nan x then y else if f32_is_nan y then x else if f32_less y x then y else x)"

definition f32_max :: "f32 \<Rightarrow> f32 \<Rightarrow> f32" where
  "f32_max x y = (if f32_is_nan x then y else if f32_is_nan y then x else if f32_less x y then y else x)"

definition f32_of_nat :: "nat \<Rightarrow> f32" where
  "f32_of_nat n = round_ratio False n 1"

text \<open>\<open>x.ceil() as u64\<close>: saturating, NaN is zero.\<close>

definition f32_ceil_u64 :: "f32 \<Rightarrow> u64" where
  "f32_ceil_u64 x =
     (if f32_is_nan x \<or> f32_sign x then 0
      else if f32_is_inf x then - 1
      else let e = f32_exponent x; m = f32_mantissa x;
               n = (if e \<ge> 0 then m * 2 ^ nat e else (m + (2 ^ nat (- e) - 1)) div 2 ^ nat (- e))
           in of_nat (min n (2 ^ 64 - 1)))"

definition f32_max_value :: f32 where "f32_max_value = 0x7F7FFFFF"

definition f32_min_value :: f32 where "f32_min_value = 0xFF7FFFFF"

section \<open>Lemmas\<close>

lemma isqrt_spec: "(isqrt n)\<^sup>2 \<le> n \<and> n < (isqrt n + 1)\<^sup>2"
proof (induction n rule: isqrt.induct)
  case (1 n)
  show ?case
  proof (cases "n = 0")
    case False
    define q where "q = isqrt (n div 4)"
    from 1 [OF False] have q: "q\<^sup>2 \<le> n div 4" "n div 4 < (q + 1)\<^sup>2" by (simp_all add: q_def)
    then have "4 * q\<^sup>2 \<le> n" "n < 4 * (q + 1)\<^sup>2" by linarith+
    with False show ?thesis
      by (subst isqrt.simps, subst isqrt.simps) (auto simp: next_root_def q_def [symmetric] power2_eq_square algebra_simps)
  qed (simp add: isqrt.simps)
qed

lemma isqrt_square [simp]: "isqrt (n\<^sup>2) = n"
proof -
  from isqrt_spec [of "n\<^sup>2"] have "isqrt (n\<^sup>2) \<le> n" "n < isqrt (n\<^sup>2) + 1"
    using power2_nat_le_imp_le power2_less_imp_less [of n "isqrt (n\<^sup>2) + 1"] by (auto intro: power2_le_imp_le)
  then show ?thesis by simp
qed

lemma f32_less_irrefl [simp]: "\<not> f32_less x x"
  by (simp add: f32_less_def)

lemma f32_less_trans: "f32_less x y \<Longrightarrow> f32_less y z \<Longrightarrow> f32_less x z"
  by (auto simp: f32_less_def)

text \<open>Examples: 0.1 of the database as an \<open>f32\<close>, an experience value, a travel time.\<close>

lemma float_examples:
  "f32_of_f64 0x3FB999999999999A = f32_lit ''0.1''"
  "f64_round_u32 0x4036800000000000 = 23"
  "f32_ceil_u64 (f32_lit ''2.25'') = 3"
  by code_simp+

end
