(* ===== verification/Resolver_Tasks.thy ===== *)
theory Resolver_Tasks
  imports Resolver_Registry Float64
begin

text \<open>
  The questing task types (\<^verbatim>\<open>resolver/src/tasks/questing.rs\<close>): their schemas and how an intent is lowered to runtime
  actions with what the database knows.
\<close>

section \<open>Number conversions\<close>

text \<open>\<open>value as f32\<close> of an \<open>i64\<close>; of an \<open>f64\<close> it is \<open>f32_of_f64\<close>.\<close>

definition i64_as_f32 :: "64 word \<Rightarrow> f32" where
  "i64_as_f32 n = round_scaled (sint n < 0) (nat \<bar>sint n\<bar>) 0"

text \<open>\<open>u32::try_from\<close> and \<open>u8::try_from\<close> of an \<open>i64\<close>.\<close>

definition try_word :: "64 word \<Rightarrow> 'a::len word option" where
  "try_word n = (if 0 \<le> sint n \<and> sint n < 2 ^ LENGTH('a) then Some (word_of_int (sint n)) else None)"

section \<open>Fields of an intent\<close>

definition DEFAULT_TOLERANCE :: f32 where
  "DEFAULT_TOLERANCE = f32_lit ''5.0''"

definition QUEST_STATES :: "string list" where
  "QUEST_STATES = [''accepted'', ''completed'', ''rewarded'']"

definition int_of :: "Intent \<Rightarrow> string \<Rightarrow> 64 word option" where
  "int_of intent name = (case intent_get intent name of Some (IInt n) \<Rightarrow> Some n | _ \<Rightarrow> None)"

definition f32_of :: "Intent \<Rightarrow> string \<Rightarrow> f32 option" where
  "f32_of intent name =
     (case intent_get intent name of
        Some (IFloat x) \<Rightarrow> Some (f32_of_f64 x)
      | Some (IInt n) \<Rightarrow> Some (i64_as_f32 n)
      | _ \<Rightarrow> None)"

definition bool_of :: "Intent \<Rightarrow> string \<Rightarrow> bool option" where
  "bool_of intent name = (case intent_get intent name of Some (IBool b) \<Rightarrow> Some b | _ \<Rightarrow> None)"

definition text_field :: "Intent \<Rightarrow> string \<Rightarrow> string option" where
  "text_field intent name = (case intent_get intent name of Some (IText t) \<Rightarrow> Some t | _ \<Rightarrow> None)"

definition entity_ids :: "Intent \<Rightarrow> string \<Rightarrow> u32 list" where
  "entity_ids intent name =
     (case intent_get intent name of
        Some (IList items) \<Rightarrow> List.map_filter (\<lambda>item. case item of IEntity e \<Rightarrow> Some (er_id e) | _ \<Rightarrow> None) items
      | _ \<Rightarrow> [])"

definition flag_of :: "Intent \<Rightarrow> string \<Rightarrow> bool" where
  "flag_of intent name = (bool_of intent name = Some True)"

section \<open>Shared steps\<close>

definition unguarded :: "RuntimeAction \<Rightarrow> GuardedAction" where
  "unguarded action = \<lparr>ga_action = action, ga_guard = None\<rparr>"

definition display_name :: "ResolverDb \<Rightarrow> EntityKind \<Rightarrow> u32 \<Rightarrow> string \<Rightarrow> DbError + string" where
  "display_name db kind n fallback =
     map_res (\<lambda>label. case label of
         Some l \<Rightarrow> l
       | None \<Rightarrow> if fallback \<noteq> [] then fallback else entity_text kind n) (db_label db kind n)"

definition travel_to :: "ResolverDb \<Rightarrow> EntityKind \<Rightarrow> u32 \<Rightarrow> string \<Rightarrow> string \<Rightarrow> GuardedAction option reported" where
  "travel_to db kind n label field =
     wbind (lookup (db_spawn db kind n)) (\<lambda>found.
       case found of
         None \<Rightarrow>
           reporting (with_field field (rd_warning ''resolver.spawn.unknown''
             (''no spawn point for '' @ ticked (entity_text kind n) @ ''; the travel step was dropped''))) None
       | Some spawn \<Rightarrow>
           wbind (lookup (display_name db kind n label)) (\<lambda>name.
             quiet (Some (unguarded (RTravel
               \<lparr>rtravel_destination = name, rtravel_position = spawn_waypoint spawn,
                rtravel_tolerance = DEFAULT_TOLERANCE, rtravel_allow_flight = False, rtravel_timeout = None\<rparr>)))))"

definition no_validation :: "Intent \<Rightarrow> ResolverDb \<Rightarrow> DbError + ResolverDiagnostic list" where
  "no_validation intent db = Inr []"

text \<open>The travel step, when there is one, and then the task itself.\<close>

definition travel_then :: "GuardedAction option reported \<Rightarrow> RuntimeAction \<Rightarrow> GuardedAction list reported" where
  "travel_then travel action =
     wbind travel (\<lambda>t. quiet ((case t of None \<Rightarrow> [] | Some a \<Rightarrow> [a]) @ [unguarded action]))"

definition to_entity :: "ResolverDb \<Rightarrow> EntityRef \<Rightarrow> string \<Rightarrow> GuardedAction option reported" where
  "to_entity db e field = travel_to db (er_kind e) (er_id e) (er_label e) field"

section \<open>Quests\<close>

definition quest_npc :: "Intent \<Rightarrow> ResolverDb \<Rightarrow> string \<Rightarrow> u32 \<Rightarrow> u32 option reported" where
  "quest_npc intent db field quest =
     (case intent_entity intent field of
        Some npc \<Rightarrow> quiet (Some (er_id npc))
      | None \<Rightarrow>
          wbind (lookup (if field = ''from'' then db_quest_giver db quest else db_quest_ender db quest)) (\<lambda>from_db.
            case from_db of
              Some n \<Rightarrow> quiet (Some n)
            | None \<Rightarrow>
                (let (code, role) = (if field = ''from'' then (''resolver.quest.no_giver'', ''offers'')
                                     else (''resolver.quest.no_ender'', ''takes''))
                 in reporting (with_field field (rd_error code
                      (''no '' @ ticked field @ '' was authored and the database knows no npc that '' @ role @ '' quest ''
                        @ show_word quest))) None)))"

definition lower_accept_quest :: "Intent \<Rightarrow> ResolverDb \<Rightarrow> GuardedAction list reported" where
  "lower_accept_quest intent db =
     (case intent_entity intent ''quest'' of
        None \<Rightarrow> quiet []
      | Some quest \<Rightarrow>
          wbind (quest_npc intent db ''from'' (er_id quest)) (\<lambda>npc.
            case npc of
              None \<Rightarrow> quiet []
            | Some entry \<Rightarrow>
                travel_then (travel_to db EkNpc entry [] ''from'')
                  (RAcceptQuest \<lparr>raccept_quest_id = er_id quest, raccept_npc_entry = entry,
                     raccept_auto_complete_dialog = False, raccept_optional = flag_of intent ''optional''\<rparr>)))"

definition accept_quest_task :: TaskType where
  "accept_quest_task =
     \<lparr>tt_type_name = ''questing.AcceptQuest'',
      tt_schema = [Field_required (Field_entity ''quest'' EkQuest), Field_entity ''from'' EkNpc,
                   Field_new ''optional'' FkBool],
      tt_lower = lower_accept_quest, tt_validate = no_validation\<rparr>"

definition lower_turn_in :: "Intent \<Rightarrow> ResolverDb \<Rightarrow> GuardedAction list reported" where
  "lower_turn_in intent db =
     (case intent_entity intent ''quest'' of
        None \<Rightarrow> quiet []
      | Some quest \<Rightarrow>
          wbind (quest_npc intent db ''to'' (er_id quest)) (\<lambda>npc.
            case npc of
              None \<Rightarrow> quiet []
            | Some entry \<Rightarrow>
                travel_then (travel_to db EkNpc entry [] ''to'')
                  (RTurnInQuest \<lparr>rturnin_quest_id = er_id quest, rturnin_npc_entry = entry,
                     rturnin_choose_reward = Option.bind (int_of intent ''choose_reward'') try_word,
                     rturnin_optional = flag_of intent ''optional''\<rparr>)))"

definition turn_in_task :: TaskType where
  "turn_in_task =
     \<lparr>tt_type_name = ''questing.TurnIn'',
      tt_schema = [Field_required (Field_entity ''quest'' EkQuest), Field_entity ''to'' EkNpc,
                   with_rules [MinInt 0] (Field_new ''choose_reward'' FkInt), Field_new ''optional'' FkBool],
      tt_lower = lower_turn_in, tt_validate = no_validation\<rparr>"

section \<open>Creatures, objects and services\<close>

definition lower_kill :: "Intent \<Rightarrow> ResolverDb \<Rightarrow> GuardedAction list reported" where
  "lower_kill intent db =
     (case intent_entity intent ''target'' of
        None \<Rightarrow> quiet []
      | Some target \<Rightarrow>
          travel_then (to_entity db target ''target'')
            (RKill \<lparr>rkill_creature_entries = [er_id target],
               rkill_quantity = Option.bind (int_of intent ''count'') try_word,
               rkill_loot = flag_of intent ''loot'', rkill_ignore_elites = flag_of intent ''ignore_elites''\<rparr>))"

definition kill_task :: TaskType where
  "kill_task =
     \<lparr>tt_type_name = ''questing.Kill'',
      tt_schema = [Field_required (Field_entity ''target'' EkNpc), with_rules [MinInt 1] (Field_new ''count'' FkInt),
                   Field_new ''loot'' FkBool, Field_new ''ignore_elites'' FkBool],
      tt_lower = lower_kill, tt_validate = no_validation\<rparr>"

definition lower_collect :: "Intent \<Rightarrow> ResolverDb \<Rightarrow> GuardedAction list reported" where
  "lower_collect intent db =
     (case intent_entity intent ''object'' of
        None \<Rightarrow> quiet []
      | Some obj \<Rightarrow>
          travel_then (to_entity db obj ''object'')
            (RLoot \<lparr>rloot_object_entry = er_id obj, rloot_count = Option.bind (int_of intent ''count'') try_word\<rparr>))"

definition collect_task :: TaskType where
  "collect_task =
     \<lparr>tt_type_name = ''questing.Collect'',
      tt_schema = [Field_required (Field_entity ''object'' EkObject), with_rules [MinInt 1] (Field_new ''count'' FkInt)],
      tt_lower = lower_collect, tt_validate = no_validation\<rparr>"

definition lower_vendor :: "Intent \<Rightarrow> ResolverDb \<Rightarrow> GuardedAction list reported" where
  "lower_vendor intent db =
     (case intent_entity intent ''npc'' of
        None \<Rightarrow> quiet []
      | Some npc \<Rightarrow>
          travel_then (to_entity db npc ''npc'')
            (RVendor \<lparr>rvendor_npc_entry = er_id npc, rvendor_sell_grey = flag_of intent ''sell_grey'',
               rvendor_repair = flag_of intent ''repair'', rvendor_buy_items = entity_ids intent ''buy'',
               rvendor_minimum_free_slots = Option.bind (int_of intent ''minimum_free_slots'') try_word\<rparr>))"

definition vendor_task :: TaskType where
  "vendor_task =
     \<lparr>tt_type_name = ''questing.Vendor'',
      tt_schema = [Field_required (Field_entity ''npc'' EkNpc), Field_new ''sell_grey'' FkBool, Field_new ''repair'' FkBool,
                   Field_entity_list ''buy'' EkItem, with_rules [MinInt 0] (Field_new ''minimum_free_slots'' FkInt)],
      tt_lower = lower_vendor, tt_validate = no_validation\<rparr>"

definition lower_trainer :: "Intent \<Rightarrow> ResolverDb \<Rightarrow> GuardedAction list reported" where
  "lower_trainer intent db =
     (case intent_entity intent ''npc'' of
        None \<Rightarrow> quiet []
      | Some npc \<Rightarrow>
          travel_then (to_entity db npc ''npc'')
            (RTrain \<lparr>rtrain_npc_entry = er_id npc, rtrain_spells = entity_ids intent ''spells'',
               rtrain_trainer_type = text_field intent ''trainer_type'',
               rtrain_minimum_level = Option.bind (int_of intent ''minimum_level'') try_word\<rparr>))"

definition trainer_task :: TaskType where
  "trainer_task =
     \<lparr>tt_type_name = ''questing.Trainer'',
      tt_schema = [Field_required (Field_entity ''npc'' EkNpc), Field_entity_list ''spells'' EkSpell,
                   with_rules [NonEmptyText] (Field_new ''trainer_type'' FkText),
                   with_rules [MinInt 1, MaxInt 255] (Field_new ''minimum_level'' FkInt)],
      tt_lower = lower_trainer, tt_validate = no_validation\<rparr>"

definition lower_flight :: "Intent \<Rightarrow> ResolverDb \<Rightarrow> GuardedAction list reported" where
  "lower_flight intent db =
     (case (intent_entity intent ''npc'', text_field intent ''destination'') of
        (Some npc, Some destination) \<Rightarrow>
          travel_then (to_entity db npc ''npc'')
            (RFlight \<lparr>rflight_npc_entry = er_id npc, rflight_destination = destination\<rparr>)
      | _ \<Rightarrow> quiet [])"

definition flight_task :: TaskType where
  "flight_task =
     \<lparr>tt_type_name = ''questing.Flight'',
      tt_schema = [Field_required (Field_entity ''npc'' EkNpc),
                   with_rules [NonEmptyText] (Field_required (Field_new ''destination'' FkText))],
      tt_lower = lower_flight, tt_validate = no_validation\<rparr>"

definition lower_hearth :: "Intent \<Rightarrow> ResolverDb \<Rightarrow> GuardedAction list reported" where
  "lower_hearth intent db =
     quiet [unguarded (RHearth \<lparr>rhearth_innkeeper_entry = map_option er_id (intent_entity intent ''innkeeper''),
                                rhearth_destination = text_field intent ''destination''\<rparr>)]"

definition hearth_task :: TaskType where
  "hearth_task =
     \<lparr>tt_type_name = ''questing.Hearth'',
      tt_schema = [with_rules [NonEmptyText] (Field_new ''destination'' FkText), Field_entity ''innkeeper'' EkNpc],
      tt_lower = lower_hearth, tt_validate = no_validation\<rparr>"

section \<open>Gates\<close>

definition quest_clause :: "string \<Rightarrow> u32 \<Rightarrow> RuntimeCondition" where
  "quest_clause state quest =
     (if state = ''accepted'' then QuestAccepted quest
      else if state = ''rewarded'' then QuestRewarded quest
      else QuestCompleted quest)"

definition gate_clauses :: "Intent \<Rightarrow> RuntimeCondition list" where
  "gate_clauses intent =
     (case intent_entity intent ''quest'' of
        Some quest \<Rightarrow>
          [quest_clause (case text_field intent ''quest_state'' of Some s \<Rightarrow> s | None \<Rightarrow> ''completed'') (er_id quest)]
      | None \<Rightarrow> [])
     @ (case Option.bind (int_of intent ''level'') try_word of Some level \<Rightarrow> [LevelAtLeast level] | None \<Rightarrow> [])
     @ (case intent_entity intent ''item'' of Some item \<Rightarrow> [HasItem (er_id item)] | None \<Rightarrow> [])"

definition validate_gate :: "Intent \<Rightarrow> ResolverDb \<Rightarrow> DbError + ResolverDiagnostic list" where
  "validate_gate intent db =
     Inr (if gate_clauses intent = []
          then [rd_error ''resolver.gate.no_clause''
                  (''a gate needs at least one of '' @ ticked ''quest'' @ '', '' @ ticked ''level'' @ '', or '' @ ticked ''item'')]
          else [])"

definition gate_condition :: "RuntimeCondition list \<Rightarrow> RuntimeCondition" where
  "gate_condition clauses = (case clauses of [c] \<Rightarrow> c | _ \<Rightarrow> CAll clauses)"

definition lower_gate :: "Intent \<Rightarrow> ResolverDb \<Rightarrow> GuardedAction list reported" where
  "lower_gate intent db =
     (let clauses = gate_clauses intent
      in if clauses = [] then quiet []
         else quiet [unguarded (RCondition \<lparr>rcond_condition = gate_condition clauses, rcond_role = Completion\<rparr>)])"

definition gate_task :: TaskType where
  "gate_task =
     \<lparr>tt_type_name = ''questing.Gate'',
      tt_schema = [Field_entity ''quest'' EkQuest, with_rules [OneOf QUEST_STATES] (Field_new ''quest_state'' FkText),
                   with_rules [MinInt 1, MaxInt 255] (Field_new ''level'' FkInt), Field_entity ''item'' EkItem],
      tt_lower = lower_gate, tt_validate = validate_gate\<rparr>"

section \<open>Travel\<close>

definition explicit_position :: "Intent \<Rightarrow> RuntimeWaypoint option" where
  "explicit_position intent =
     (case (int_of intent ''map'', f32_of intent ''x'', f32_of intent ''y'', f32_of intent ''z'') of
        (Some m, Some x, Some y, Some z) \<Rightarrow> map_option (\<lambda>mp. RuntimeWaypoint_new mp x y z) (try_word m)
      | _ \<Rightarrow> None)"

definition travel_position :: "Intent \<Rightarrow> ResolverDb \<Rightarrow> RuntimeWaypoint option reported" where
  "travel_position intent db =
     (case (explicit_position intent, intent_entity intent ''to'') of
        (Some waypoint, _) \<Rightarrow> quiet (Some waypoint)
      | (None, Some entity) \<Rightarrow>
          wbind (lookup (db_spawn db (er_kind entity) (er_id entity))) (\<lambda>found.
            case found of
              Some spawn \<Rightarrow> quiet (Some (spawn_waypoint spawn))
            | None \<Rightarrow>
                reporting (with_field ''to'' (rd_error ''resolver.spawn.unknown''
                  (''no spawn point for '' @ ticked (as_ref_string entity)))) None)
      | (None, None) \<Rightarrow>
          reporting (rd_error ''resolver.travel.no_destination''
            (''a travel needs either '' @ ticked ''to'' @ '' or all of '' @ ticked ''map'' @ '', '' @ ticked ''x'' @ '', ''
              @ ticked ''y'' @ '', '' @ ticked ''z'')) None)"

definition travel_destination_name :: "Intent \<Rightarrow> ResolverDb \<Rightarrow> DbError + string" where
  "travel_destination_name intent db =
     (case (text_field intent ''destination'', intent_entity intent ''to'') of
        (Some t, _) \<Rightarrow> Inr t
      | (None, Some entity) \<Rightarrow> display_name db (er_kind entity) (er_id entity) (er_label entity)
      | (None, None) \<Rightarrow> Inr [])"

definition lower_travel :: "Intent \<Rightarrow> ResolverDb \<Rightarrow> GuardedAction list reported" where
  "lower_travel intent db =
     wbind (travel_position intent db) (\<lambda>position.
       case position of
         None \<Rightarrow> quiet []
       | Some waypoint \<Rightarrow>
           wbind (lookup (travel_destination_name intent db)) (\<lambda>destination.
             quiet [unguarded (RTravel
               \<lparr>rtravel_destination = destination, rtravel_position = waypoint,
                rtravel_tolerance = (case f32_of intent ''tolerance'' of Some t \<Rightarrow> t | None \<Rightarrow> DEFAULT_TOLERANCE),
                rtravel_allow_flight = flag_of intent ''allow_flight'', rtravel_timeout = None\<rparr>)]))"

definition travel_task :: TaskType where
  "travel_task =
     \<lparr>tt_type_name = ''questing.Travel'',
      tt_schema = [Field_new ''to'' FkEntity, with_rules [MinInt 0] (Field_new ''map'' FkInt), Field_new ''x'' FkFloat,
                   Field_new ''y'' FkFloat, Field_new ''z'' FkFloat, Field_new ''destination'' FkText,
                   Field_new ''tolerance'' FkFloat, Field_new ''allow_flight'' FkBool],
      tt_lower = lower_travel, tt_validate = no_validation\<rparr>"

definition questing_task_types :: "TaskType list" where
  "questing_task_types =
     [accept_quest_task, turn_in_task, kill_task, collect_task, vendor_task, trainer_task, flight_task, hearth_task,
      gate_task, travel_task]"

text \<open>\<open>expect\<close> panics (\<open>None\<close>) when two types share a name.\<close>

fun register_all :: "TaskType list \<Rightarrow> TaskRegistry \<Rightarrow> TaskRegistry option" where
  "register_all [] registry = Some registry"
| "register_all (task # tasks) registry =
     (case register task registry of Inl _ \<Rightarrow> None | Inr registry' \<Rightarrow> register_all tasks registry')"

definition with_questing :: "TaskRegistry option" where
  "with_questing = register_all questing_task_types registry_new"

end
