(* ===== verification/Resolver.thy ===== *)
theory Resolver
  imports Resolver_Tasks
begin

text \<open>
  Campaign to execution plan (\<^verbatim>\<open>resolver/src/resolve.rs\<close>): imports and their override layers are flattened into a list of
  graphs, the nodes of one graph are put in order, and each node is lowered through the task registry.

  The library of imported campaigns is a function from ids; the texts of uuids (\<open>uuid_text\<close>) and the serialised plan
  (\<open>PlanJson\<close>) are parameters. The vectors of the ordering are lists, its \<open>BTreeSet\<close> of ready nodes a sorted list.
\<close>

type_synonym CampaignLibrary = "uuid \<Rightarrow> Campaign option"

definition no_imports :: CampaignLibrary where
  "no_imports u = None"

definition library_of :: "Campaign list \<Rightarrow> CampaignLibrary" where
  "library_of campaigns u = List.find (\<lambda>c. camp_id c = u) campaigns"

record ResolverEnv =
  renv_uuid_text :: "uuid \<Rightarrow> string"
  renv_json :: PlanJson

section \<open>Import layering\<close>

definition merge_intent :: "Intent \<Rightarrow> Intent \<Rightarrow> Intent" where
  "merge_intent target patch = fold (\<lambda>(field, val). bt_insert field val) patch target"

text \<open>The first element that satisfies \<open>p\<close>, changed in place.\<close>

fun update_first :: "('a \<Rightarrow> bool) \<Rightarrow> ('a \<Rightarrow> 'a) \<Rightarrow> 'a list \<Rightarrow> 'a list option" where
  "update_first p f [] = None"
| "update_first p f (x # xs) = (if p x then Some (f x # xs) else map_option (\<lambda>ys. x # ys) (update_first p f xs))"

fun apply_overrides :: "ResolverEnv \<Rightarrow> NodeOverride list \<Rightarrow> Graph \<Rightarrow> Graph \<times> ResolverDiagnostic list" where
  "apply_overrides E [] graph = (graph, [])"
| "apply_overrides E (entry # overrides) graph =
     (case update_first (\<lambda>node. node_id node = override_node entry)
             (\<lambda>node. node\<lparr>node_intent := merge_intent (node_intent node) (override_intent entry)\<rparr>) (graph_nodes graph) of
        None \<Rightarrow>
          (let (graph', ds) = apply_overrides E overrides graph
           in (graph', rd_warning ''resolver.override.unknown_node''
                 (''override targets node '' @ ticked (renv_uuid_text E (override_node entry))
                   @ '', which this graph does not contain'') # ds))
      | Some nodes \<Rightarrow> apply_overrides E overrides (graph\<lparr>graph_nodes := nodes\<rparr>))"

definition spliced_edge :: "Edge \<Rightarrow> Edge \<Rightarrow> Edge" where
  "spliced_edge predecessor successor =
     \<lparr>edge_id = edge_id predecessor XOR edge_id successor, edge_from = edge_from predecessor, edge_to = edge_to successor,
      edge_guard = or_else (edge_guard predecessor) (edge_guard successor)\<rparr>"

definition splice_out :: "ResolverEnv \<Rightarrow> uuid \<Rightarrow> Graph \<Rightarrow> Graph \<times> ResolverDiagnostic list" where
  "splice_out E disabled graph =
     (let incoming = filter (\<lambda>e. edge_to e = disabled) (graph_edges graph);
          outgoing = filter (\<lambda>e. edge_from e = disabled) (graph_edges graph);
          kept = filter (\<lambda>e. edge_from e \<noteq> disabled \<and> edge_to e \<noteq> disabled) (graph_edges graph);
          edges = kept @ concat (map (\<lambda>p. map (spliced_edge p) outgoing) incoming);
          (entry, ds) =
            (if graph_entry_node graph = disabled
             then (case outgoing of
                     successor # _ \<Rightarrow> (edge_to successor, [])
                   | [] \<Rightarrow> (graph_entry_node graph,
                       [rd_warning ''resolver.disabled.entry_node''
                          (''entry node '' @ ticked (renv_uuid_text E disabled) @ '' was disabled and has no successor'')]))
             else (graph_entry_node graph, []))
      in (graph\<lparr>graph_edges := edges, graph_entry_node := entry,
                graph_nodes := filter (\<lambda>node. node_id node \<noteq> disabled) (graph_nodes graph)\<rparr>, ds))"

fun remove_disabled :: "ResolverEnv \<Rightarrow> uuid list \<Rightarrow> Graph \<Rightarrow> Graph \<times> ResolverDiagnostic list" where
  "remove_disabled E [] graph = (graph, [])"
| "remove_disabled E (disabled # rest) graph =
     (if \<not> list_ex (\<lambda>node. node_id node = disabled) (graph_nodes graph) then remove_disabled E rest graph
      else let (graph1, ds1) = splice_out E disabled graph; (graph2, ds2) = remove_disabled E rest graph1
           in (graph2, ds1 @ ds2))"

definition layer_graph :: "ResolverEnv \<Rightarrow> CampaignImport \<Rightarrow> Graph \<Rightarrow> Graph \<times> ResolverDiagnostic list" where
  "layer_graph E imported graph =
     (let (graph1, ds1) = apply_overrides E (import_overrides imported) graph;
          (graph2, ds2) = remove_disabled E (import_disabled_nodes imported) graph1
      in (graph2, ds1 @ ds2))"

fun layer_graphs :: "ResolverEnv \<Rightarrow> CampaignImport \<Rightarrow> Graph list \<Rightarrow> Graph list \<times> ResolverDiagnostic list" where
  "layer_graphs E imported [] = ([], [])"
| "layer_graphs E imported (g # gs) =
     (let (g', ds1) = layer_graph E imported g; (gs', ds2) = layer_graphs E imported gs in (g' # gs', ds1 @ ds2))"

text \<open>The chain of imports is as long as there are ids at most.\<close>

lemma unseen_decreases: "u \<notin> seen \<Longrightarrow> card (UNIV - seen) - Suc 0 < card (UNIV - seen :: uuid set)"
  by (metis Diff_iff UNIV_I card_gt_0_iff diff_less empty_iff finite zero_less_Suc)

text \<open>A call inserts the id of its campaign into \<open>seen\<close> and removes it again before it returns, so every call
  leaves \<open>seen\<close> as it found it: it is an argument.\<close>

function flatten_into :: "ResolverEnv \<Rightarrow> CampaignLibrary \<Rightarrow> uuid set \<Rightarrow> Campaign \<Rightarrow> Graph list \<times> ResolverDiagnostic list"
and flatten_imports :: "ResolverEnv \<Rightarrow> CampaignLibrary \<Rightarrow> uuid set \<Rightarrow> CampaignImport list
    \<Rightarrow> Graph list \<times> ResolverDiagnostic list" where
  "flatten_into E library seen campaign =
     (if camp_id campaign \<in> seen
      then ([], [rd_error ''resolver.import.cycle''
                   (''campaign '' @ ticked (renv_uuid_text E (camp_id campaign)) @ '' is already in its own import chain'')])
      else let (graphs, ds) = flatten_imports E library (insert (camp_id campaign) seen) (camp_imports campaign)
           in (graphs @ camp_graphs campaign, ds))"
| "flatten_imports E library seen [] = ([], [])"
| "flatten_imports E library seen (imported # rest) =
     (case library (import_campaign imported) of
        None \<Rightarrow>
          (let (graphs, ds) = flatten_imports E library seen rest
           in (graphs, rd_error ''resolver.import.unknown_campaign''
                 (''imported campaign '' @ ticked (renv_uuid_text E (import_campaign imported)) @ '' was not found'') # ds))
      | Some campaign \<Rightarrow>
          (let (graphs1, ds1) = flatten_into E library seen campaign;
               (graphs2, ds2) = layer_graphs E imported graphs1;
               (graphs3, ds3) = flatten_imports E library seen rest
           in (graphs2 @ graphs3, ds1 @ ds2 @ ds3)))"
  by pat_completeness auto

termination
  by (relation "measures
      [\<lambda>x. case x of Inl (_, _, seen, _) \<Rightarrow> card (UNIV - seen) | Inr (_, _, seen, _) \<Rightarrow> card (UNIV - seen),
       \<lambda>x. case x of Inl _ \<Rightarrow> 0 | Inr (_, _, _, imports) \<Rightarrow> Suc (length imports)]")
    (auto intro: unseen_decreases)

definition flatten :: "ResolverEnv \<Rightarrow> CampaignLibrary \<Rightarrow> Campaign \<Rightarrow> Graph list \<times> ResolverDiagnostic list" where
  "flatten E library campaign = flatten_into E library {} campaign"

section \<open>Ordering\<close>

text \<open>The index of a node: of the last one with its id.\<close>

definition node_index :: "Graph \<Rightarrow> uuid \<Rightarrow> nat option" where
  "node_index graph u = map_of (rev (map (\<lambda>(i, node). (node_id node, i)) (List.enumerate 0 (graph_nodes graph)))) u"

definition edge_ends :: "Graph \<Rightarrow> Edge \<Rightarrow> (nat \<times> nat) option" where
  "edge_ends graph e =
     (case (node_index graph (edge_from e), node_index graph (edge_to e)) of
        (Some f, Some t) \<Rightarrow> Some (f, t)
      | _ \<Rightarrow> None)"

text \<open>The edges between nodes of the graph, as pairs of indices.\<close>

definition graph_links :: "Graph \<Rightarrow> (nat \<times> nat) list" where
  "graph_links graph = List.map_filter (edge_ends graph) (graph_edges graph)"

definition successors_of :: "(nat \<times> nat) list \<Rightarrow> nat \<Rightarrow> nat list" where
  "successors_of links i = map snd (filter (\<lambda>l. fst l = i) links)"

definition indegree_of :: "(nat \<times> nat) list \<Rightarrow> nat \<Rightarrow> nat" where
  "indegree_of links i = length (filter (\<lambda>l. snd l = i) links)"

record Traversal =
  tr_order :: "nat list"
  tr_visited :: "bool list"
  tr_indegree :: "nat list"
  tr_ready :: "nat list"

text \<open>The loop of \<open>emit\<close> over the successors.\<close>

definition release :: "nat \<Rightarrow> Traversal \<Rightarrow> Traversal" where
  "release successor st =
     (if tr_visited st ! successor then st
      else let degree = tr_indegree st ! successor - 1
           in st\<lparr>tr_indegree := (tr_indegree st)[successor := degree],
                 tr_ready := (if degree = 0 then insort_insert successor (tr_ready st) else tr_ready st)\<rparr>)"

definition emit_node :: "(nat \<times> nat) list \<Rightarrow> nat \<Rightarrow> Traversal \<Rightarrow> Traversal" where
  "emit_node links i st =
     fold release (successors_of links i)
       (st\<lparr>tr_visited := (tr_visited st)[i := True], tr_order := tr_order st @ [i], tr_ready := remove1 i (tr_ready st)\<rparr>)"

definition next_node :: "nat \<Rightarrow> Traversal \<Rightarrow> nat option" where
  "next_node count st =
     or_else (List.find (\<lambda>i. \<not> tr_visited st ! i) (tr_ready st)) (List.find (\<lambda>i. \<not> tr_visited st ! i) [0..<count])"

lemma order_release [simp]: "tr_order (release j st) = tr_order st"
  by (simp add: release_def Let_def)

lemma order_emit: "tr_order (emit_node links i st) = tr_order st @ [i]"
proof -
  have "tr_order (fold release js st) = tr_order st" for js st by (induction js arbitrary: st) simp_all
  then show ?thesis by (simp add: emit_node_def)
qed

function traverse :: "(nat \<times> nat) list \<Rightarrow> nat \<Rightarrow> Traversal \<Rightarrow> Traversal" where
  "traverse links count st =
     (if length (tr_order st) < count
      then (case next_node count st of
              Some i \<Rightarrow> traverse links count (emit_node links i st)
            | None \<Rightarrow> st)
      else st)"
  by auto

termination
  by (relation "measure (\<lambda>(_, count, st). count - length (tr_order st))") (auto simp: order_emit)

declare traverse.simps [simp del]

definition traversal_start :: "(nat \<times> nat) list \<Rightarrow> nat \<Rightarrow> Traversal" where
  "traversal_start links count =
     \<lparr>tr_order = [], tr_visited = replicate count False, tr_indegree = map (indegree_of links) [0..<count],
      tr_ready = filter (\<lambda>i. indegree_of links i = 0) [0..<count]\<rparr>"

definition position_in :: "nat list \<Rightarrow> nat \<Rightarrow> nat" where
  "position_in order i = (case position_of (\<lambda>j. j = i) order of Some p \<Rightarrow> p | None \<Rightarrow> 0)"

definition report_back_edges :: "Graph \<Rightarrow> nat list \<Rightarrow> ResolverDiagnostic list" where
  "report_back_edges graph order =
     (if list_ex (\<lambda>(f, t). position_in order t \<le> position_in order f) (graph_links graph)
      then [rd_warning ''resolver.graph.cycle''
              (''graph '' @ ticked (graph_name graph) @ '' has a backward edge; operations are in entry-first traversal order, ''
                @ ''not topological order'')]
      else [])"

definition visit_order :: "Graph \<Rightarrow> nat list" where
  "visit_order graph =
     (let count = length (graph_nodes graph); links = graph_links graph; start = traversal_start links count;
          st = (case node_index graph (graph_entry_node graph) of
                  Some entry \<Rightarrow> emit_node links entry start
                | None \<Rightarrow> start)
      in tr_order (traverse links count st))"

definition topological_order :: "Graph \<Rightarrow> nat list \<times> ResolverDiagnostic list" where
  "topological_order graph = (let order = visit_order graph in (order, report_back_edges graph order))"

section \<open>Lowering\<close>

definition lower_node :: "TaskRegistry \<Rightarrow> Node \<Rightarrow> ResolverDb \<Rightarrow> GuardedAction list reported" where
  "lower_node registry node db =
     (case registry_get registry (node_type node) of
        None \<Rightarrow>
          reporting (with_node (node_id node) (rd_error ''resolver.task.unknown''
            (''no registered task type '' @ ticked (node_type node)))) []
      | Some task \<Rightarrow>
          (case check_task task (node_intent node) db of
             Inl e \<Rightarrow> Inl e
           | Inr checks \<Rightarrow>
               if has_error checks then Inr ([], map (with_node (node_id node)) checks)
               else map_res (\<lambda>(actions, lowering).
                 (actions, map (with_node (node_id node)) checks @ map (with_node (node_id node)) lowering))
                 (tt_lower task (node_intent node) db)))"

fun transitions :: "ResolverEnv \<Rightarrow> Campaign \<Rightarrow> uuid \<Rightarrow> (uuid \<Rightarrow> nat option) \<Rightarrow> Edge list
    \<Rightarrow> PlanTransition list \<times> ResolverDiagnostic list" where
  "transitions E campaign source index_of [] = ([], [])"
| "transitions E campaign source index_of (e # edges) =
     (let (rest, ds) = transitions E campaign source index_of edges
      in if edge_from e \<noteq> source then (rest, ds)
         else case index_of (edge_to e) of
                None \<Rightarrow>
                  (rest, with_node source (rd_error ''resolver.edge.dangling''
                     (''edge points at node '' @ ticked (renv_uuid_text E (edge_to e)) @ '', which is not in this graph'')) # ds)
              | Some to_index \<Rightarrow>
                  (\<lparr>trans_to_index = to_index, trans_guard = edge_guard e\<rparr> # rest,
                   (case edge_guard e of
                      Some guard \<Rightarrow>
                        if campaign_condition campaign guard = None
                        then [with_node source (rd_error ''resolver.guard.unknown_condition''
                                (''edge guard '' @ ticked (renv_uuid_text E guard) @ '' names no condition in this campaign''))]
                        else []
                    | None \<Rightarrow> []) @ ds))"

text \<open>The position of each node in the order; of two nodes with one id, the later position.\<close>

definition plan_index :: "Graph \<Rightarrow> nat list \<Rightarrow> uuid \<Rightarrow> nat option" where
  "plan_index graph order u =
     map_of (rev (map (\<lambda>(position, i). (node_id (graph_nodes graph ! i), position)) (List.enumerate 0 order))) u"

fun lower_nodes :: "ResolverEnv \<Rightarrow> TaskRegistry \<Rightarrow> Campaign \<Rightarrow> Graph \<Rightarrow> (uuid \<Rightarrow> nat option) \<Rightarrow> ResolverDb \<Rightarrow> nat list
    \<Rightarrow> PlanOperation list reported" where
  "lower_nodes E registry campaign graph index_of db [] = quiet []"
| "lower_nodes E registry campaign graph index_of db (i # order) =
     (let node = graph_nodes graph ! i
      in wbind (lower_node registry node db) (\<lambda>actions.
         wbind (Inr (transitions E campaign (node_id node) index_of (graph_edges graph))) (\<lambda>next_ops.
         wbind (lower_nodes E registry campaign graph index_of db order) (\<lambda>ops.
           quiet (\<lparr>planop_node_id = node_id node, planop_actions = actions, planop_next = next_ops\<rparr> # ops)))))"

definition plan_guards :: "PlanOperation list \<Rightarrow> uuid list" where
  "plan_guards ops = concat (map (\<lambda>op1. List.map_filter trans_guard (planop_next op1)) ops)"

fun first_definitions :: "uuid list \<Rightarrow> uuid set \<Rightarrow> ConditionDef list \<Rightarrow> ConditionDef list" where
  "first_definitions referenced emitted [] = []"
| "first_definitions referenced emitted (c # cs) =
     (if condef_id c \<in> set referenced \<and> condef_id c \<notin> emitted
      then c # first_definitions referenced (insert (condef_id c) emitted) cs
      else first_definitions referenced emitted cs)"

definition referenced_conditions :: "Campaign \<Rightarrow> PlanOperation list \<Rightarrow> ConditionDef list" where
  "referenced_conditions campaign ops = first_definitions (plan_guards ops) {} (camp_conditions campaign)"

definition finish_plan :: "ResolverEnv \<Rightarrow> uuid \<Rightarrow> uuid \<Rightarrow> ResolverDb \<Rightarrow> PlanOperation list \<Rightarrow> ConditionDef list \<Rightarrow> ExecutionPlan" where
  "finish_plan E campaign graph db ops conditions =
     (let plan = \<lparr>plan_schema_version = PLATFORM_SCHEMA_VERSION, plan_campaign_id = campaign, plan_graph_id = graph,
                  plan_db_fingerprint = db_fingerprint db, plan_content_hash = [], plan_operations = ops,
                  plan_conditions = conditions\<rparr>
      in plan\<lparr>plan_content_hash := plan_hash (renv_json E) plan\<rparr>)"

definition empty_plan :: "ResolverEnv \<Rightarrow> uuid \<Rightarrow> uuid \<Rightarrow> ResolverDb \<Rightarrow> ExecutionPlan" where
  "empty_plan E campaign graph db = finish_plan E campaign graph db [] []"

definition lower_graph :: "ResolverEnv \<Rightarrow> TaskRegistry \<Rightarrow> Campaign \<Rightarrow> Graph \<Rightarrow> ResolverDb \<Rightarrow> ExecutionPlan reported" where
  "lower_graph E registry campaign graph db =
     wbind (Inr (topological_order graph)) (\<lambda>order.
     wbind (lower_nodes E registry campaign graph (plan_index graph order) db order) (\<lambda>ops.
       quiet (finish_plan E (camp_id campaign) (graph_id graph) db ops (referenced_conditions campaign ops))))"

definition resolve_campaign :: "ResolverEnv \<Rightarrow> TaskRegistry \<Rightarrow> CampaignLibrary \<Rightarrow> Campaign \<Rightarrow> ResolverDb
    \<Rightarrow> ExecutionPlan reported" where
  "resolve_campaign E registry library campaign db =
     wbind (Inr (flatten E library campaign)) (\<lambda>graphs.
       case graphs of
         [] \<Rightarrow>
           reporting (rd_error ''resolver.campaign.no_graph''
             (''campaign '' @ ticked (camp_name campaign) @ '' has no graph to resolve''))
             (empty_plan E (camp_id campaign) 0 db)
       | graph # _ \<Rightarrow> lower_graph E registry campaign graph db)"

definition resolve_graph :: "ResolverEnv \<Rightarrow> TaskRegistry \<Rightarrow> CampaignLibrary \<Rightarrow> Campaign \<Rightarrow> uuid \<Rightarrow> ResolverDb
    \<Rightarrow> ExecutionPlan reported" where
  "resolve_graph E registry library campaign graph db =
     wbind (Inr (flatten E library campaign)) (\<lambda>graphs.
       case List.find (\<lambda>g. graph_id g = graph) graphs of
         None \<Rightarrow>
           reporting (rd_error ''resolver.campaign.no_graph''
             (''campaign '' @ ticked (camp_name campaign) @ '' has no graph '' @ ticked (renv_uuid_text E graph)))
             (empty_plan E (camp_id campaign) graph db)
       | Some g \<Rightarrow> lower_graph E registry campaign g db)"

text \<open>\<open>resolve\<close>: the questing tasks and no imports; \<open>None\<close> would be the panic of the registration.\<close>

definition resolve_questing :: "ResolverEnv \<Rightarrow> Campaign \<Rightarrow> ResolverDb \<Rightarrow> ExecutionPlan reported option" where
  "resolve_questing E campaign db =
     map_option (\<lambda>registry. resolve_campaign E registry no_imports campaign db) with_questing"

end
