(* ===== verification/Resolver_Order.thy ===== *)
theory Resolver_Order
  imports Resolver
begin

text \<open>
  The order of the operations of a plan: every node once, and the warning about backward edges says exactly when the graph
  has a cycle or its entry node has predecessors.
\<close>

section \<open>The traversal\<close>

text \<open>\<open>unvisited st i\<close>: a node of the graph that is not in the order yet.\<close>

definition unvisited :: "Traversal \<Rightarrow> nat \<Rightarrow> bool" where
  "unvisited st i \<longleftrightarrow> i < length (tr_visited st) \<and> \<not> tr_visited st ! i"

definition ready_exact :: "Traversal \<Rightarrow> bool" where
  "ready_exact st \<longleftrightarrow>
     length (tr_indegree st) = length (tr_visited st) \<and> sorted (tr_ready st) \<and> distinct (tr_ready st)
     \<and> set (tr_ready st) = {i. unvisited st i \<and> tr_indegree st ! i = 0}"

text \<open>The edges into \<open>i\<close> that come from nodes not visited yet.\<close>

definition open_links :: "(nat \<times> nat) list \<Rightarrow> Traversal \<Rightarrow> nat \<Rightarrow> nat" where
  "open_links links st i = length (filter (\<lambda>l. snd l = i \<and> \<not> tr_visited st ! fst l) links)"

definition traversal_ok :: "(nat \<times> nat) list \<Rightarrow> nat \<Rightarrow> Traversal \<Rightarrow> bool" where
  "traversal_ok links count st \<longleftrightarrow>
     length (tr_visited st) = count \<and> distinct (tr_order st) \<and> set (tr_order st) = {i. i < count \<and> tr_visited st ! i}
     \<and> ready_exact st \<and> (\<forall>i. unvisited st i \<longrightarrow> tr_indegree st ! i = open_links links st i)"

lemma release_exact:
  assumes "ready_exact st" and "j < length (tr_visited st)" and "unvisited st j \<Longrightarrow> 0 < tr_indegree st ! j"
  shows "ready_exact (release j st) \<and> tr_visited (release j st) = tr_visited st
    \<and> (\<forall>i. unvisited st i \<longrightarrow> tr_indegree (release j st) ! i = tr_indegree st ! i - (if i = j then 1 else 0))"
proof (cases "tr_visited st ! j")
  case True
  then show ?thesis using assms(1) by (auto simp: release_def unvisited_def)
next
  case False
  with assms(2) have u: "unvisited st j" by (simp add: unvisited_def)
  from assms(1) have len: "length (tr_indegree st) = length (tr_visited st)" by (simp add: ready_exact_def)
  let ?st = "release j st"
  have v: "tr_visited ?st = tr_visited st" by (simp add: release_def Let_def)
  have d: "tr_indegree ?st = (tr_indegree st)[j := tr_indegree st ! j - 1]" using False by (simp add: release_def Let_def)
  have r: "tr_ready ?st = (if tr_indegree st ! j - 1 = 0 then insort_insert j (tr_ready st) else tr_ready st)"
    using False by (simp add: release_def Let_def)
  have un: "unvisited ?st i \<longleftrightarrow> unvisited st i" for i by (simp add: unvisited_def v)
  from assms(1) have ready: "i \<in> set (tr_ready st) \<longleftrightarrow> unvisited st i \<and> tr_indegree st ! i = 0" for i
    by (auto simp: ready_exact_def)
  have "i \<in> set (tr_ready ?st) \<longleftrightarrow> unvisited ?st i \<and> tr_indegree ?st ! i = 0" for i
    using u len assms(2) by (cases "i = j") (simp_all add: r un d set_insort_insert ready)
  then have "set (tr_ready ?st) = {i. unvisited ?st i \<and> tr_indegree ?st ! i = 0}" by blast
  with assms(1) have "ready_exact ?st"
    by (auto simp: ready_exact_def r d v sorted_insort_insert distinct_insort_insert)
  with v d len show ?thesis by (auto simp: nth_list_update unvisited_def)
qed

lemma releases_exact:
  assumes "ready_exact st" and "\<forall>j\<in>set js. j < length (tr_visited st)"
    and "\<forall>i. unvisited st i \<longrightarrow> count_list js i \<le> tr_indegree st ! i"
  shows "ready_exact (fold release js st) \<and> tr_visited (fold release js st) = tr_visited st
    \<and> tr_order (fold release js st) = tr_order st
    \<and> (\<forall>i. unvisited st i \<longrightarrow> tr_indegree (fold release js st) ! i = tr_indegree st ! i - count_list js i)"
  using assms
proof (induction js arbitrary: st)
  case Nil
  then show ?case by simp
next
  case (Cons j js)
  have pos: "unvisited st j \<Longrightarrow> 0 < tr_indegree st ! j" using Cons.prems(3) by fastforce
  have j: "j < length (tr_visited st)" using Cons.prems(2) by simp
  from release_exact [OF Cons.prems(1) j pos]
  have 1: "ready_exact (release j st)" and v: "tr_visited (release j st) = tr_visited st"
    and d: "unvisited st i \<Longrightarrow> tr_indegree (release j st) ! i = tr_indegree st ! i - (if i = j then 1 else 0)" for i
    by auto
  have un: "unvisited (release j st) i \<longleftrightarrow> unvisited st i" for i by (simp add: unvisited_def v)
  have "\<forall>i. unvisited (release j st) i \<longrightarrow> count_list js i \<le> tr_indegree (release j st) ! i"
    using Cons.prems(3) d un by (fastforce split: if_splits)
  from Cons.IH [OF 1 _ this] Cons.prems(2) show ?case by (auto simp: v un d)
qed

lemma count_successors:
  "count_list (successors_of links i) j = length (filter (\<lambda>l. snd l = j \<and> fst l = i) links)"
  by (induction links) (auto simp: successors_of_def)

lemma open_links_visit:
  assumes "\<not> vs ! i" and "i < length vs"
  shows "length (filter (\<lambda>l. snd l = j \<and> \<not> vs ! fst l) links)
    = length (filter (\<lambda>l. snd l = j \<and> \<not> vs[i := True] ! fst l) links) + length (filter (\<lambda>l. snd l = j \<and> fst l = i) links)"
  using assms by (induction links) (auto simp: nth_list_update)

lemma emit_ok:
  assumes "traversal_ok links count st" and "unvisited st i" and "\<forall>l\<in>set links. fst l < count \<and> snd l < count"
  shows "traversal_ok links count (emit_node links i st)"
proof -
  let ?st = "st\<lparr>tr_visited := (tr_visited st)[i := True], tr_order := tr_order st @ [i], tr_ready := remove1 i (tr_ready st)\<rparr>"
  from assms(1,2) have i: "i < count" "\<not> tr_visited st ! i" and len: "length (tr_visited st) = count"
    by (auto simp: traversal_ok_def unvisited_def)
  have un: "unvisited ?st j \<longleftrightarrow> unvisited st j \<and> j \<noteq> i" for j
    using i len by (cases "j = i") (auto simp: unvisited_def)
  have exact: "ready_exact ?st"
    using assms(1) by (auto simp: traversal_ok_def ready_exact_def un sorted_remove1)
  have degree: "tr_indegree ?st ! j = open_links links ?st j + count_list (successors_of links i) j" if "unvisited ?st j" for j
    using that assms(1) open_links_visit [of "tr_visited st" i j links] i len
    by (simp add: un traversal_ok_def open_links_def count_successors)
  have "\<forall>j\<in>set (successors_of links i). j < length (tr_visited ?st)"
    using assms(3) len by (auto simp: successors_of_def)
  from releases_exact [OF exact this] degree
  have r: "ready_exact (emit_node links i st)" and v: "tr_visited (emit_node links i st) = (tr_visited st)[i := True]"
    and d: "unvisited ?st j \<Longrightarrow> tr_indegree (emit_node links i st) ! j = open_links links ?st j" for j
    by (auto simp: emit_node_def)
  have "unvisited (emit_node links i st) j \<longleftrightarrow> unvisited ?st j" for j by (simp add: unvisited_def v)
  with d have "\<forall>j. unvisited (emit_node links i st) j \<longrightarrow> tr_indegree (emit_node links i st) ! j = open_links links (emit_node links i st) j"
    by (simp add: open_links_def v)
  moreover have "set (tr_order (emit_node links i st)) = {j. j < count \<and> tr_visited (emit_node links i st) ! j}"
    "distinct (tr_order (emit_node links i st))"
    using assms(1) i len by (auto simp: order_emit v traversal_ok_def nth_list_update)
  ultimately show ?thesis using r v len by (simp add: traversal_ok_def)
qed

lemma start_ok:
  assumes "\<forall>l\<in>set links. fst l < count \<and> snd l < count"
  shows "traversal_ok links count (traversal_start links count)"
proof -
  let ?st = "traversal_start links count"
  have un: "unvisited ?st i \<longleftrightarrow> i < count" for i by (auto simp: unvisited_def traversal_start_def)
  have "ready_exact ?st"
    unfolding ready_exact_def un by (auto simp: traversal_start_def sorted_wrt_filter)
  moreover have "tr_indegree ?st ! i = open_links links ?st i" if "i < count" for i
  proof -
    have "filter (\<lambda>l. snd l = i \<and> \<not> tr_visited ?st ! fst l) links = filter (\<lambda>l. snd l = i) links"
      using assms by (intro filter_cong) (auto simp: traversal_start_def)
    then have "open_links links ?st i = indegree_of links i" by (simp add: open_links_def indegree_of_def)
    with that show ?thesis by (simp add: traversal_start_def)
  qed
  moreover have "length (tr_visited ?st) = count" "tr_order ?st = []" "{i. i < count \<and> tr_visited ?st ! i} = {}"
    by (auto simp: traversal_start_def)
  ultimately show ?thesis by (simp add: traversal_ok_def un)
qed

lemma order_card: "traversal_ok links count st \<Longrightarrow> length (tr_order st) = card {i. i < count \<and> tr_visited st ! i}"
  unfolding traversal_ok_def using distinct_card [of "tr_order st"] by simp

lemma next_unvisited:
  assumes "traversal_ok links count st" and "length (tr_order st) < count"
  shows "\<exists>i. next_node count st = Some i \<and> unvisited st i"
proof -
  have "\<exists>i<count. \<not> tr_visited st ! i"
  proof (rule ccontr)
    assume "\<not> (\<exists>i<count. \<not> tr_visited st ! i)"
    then have "{i. i < count \<and> tr_visited st ! i} = {..<count}" by auto
    with order_card [OF assms(1)] assms(2) show False by simp
  qed
  then obtain k where "List.find (\<lambda>i. \<not> tr_visited st ! i) [0..<count] = Some k"
    by (cases "List.find (\<lambda>i. \<not> tr_visited st ! i) [0..<count]") (auto simp: find_None_iff)
  moreover from this have "k < count" "\<not> tr_visited st ! k" by (auto simp: find_Some_iff)
  moreover have "unvisited st j" if "List.find (\<lambda>i. \<not> tr_visited st ! i) (tr_ready st) = Some j" for j
  proof -
    from that have "j \<in> set (tr_ready st)" by (auto simp: find_Some_iff)
    with assms(1) show ?thesis by (auto simp: traversal_ok_def ready_exact_def)
  qed
  ultimately show ?thesis
    using assms(1)
    by (cases "List.find (\<lambda>i. \<not> tr_visited st ! i) (tr_ready st)") (auto simp: next_node_def unvisited_def traversal_ok_def)
qed

lemma traverse_ok:
  assumes "traversal_ok links count st" and "\<forall>l\<in>set links. fst l < count \<and> snd l < count"
  shows "traversal_ok links count (traverse links count st) \<and> length (tr_order (traverse links count st)) = count"
  using assms
proof (induction links count st rule: traverse.induct)
  case (1 links count st)
  show ?case
  proof (cases "length (tr_order st) < count")
    case True
    from next_unvisited [OF 1(2) True] obtain i where i: "next_node count st = Some i" "unvisited st i" by blast
    from 1(1) [OF True i(1) emit_ok [OF 1(2) i(2) 1(3)] 1(3)] True i(1) show ?thesis by (simp add: traverse.simps)
  next
    case False
    have "length (tr_order st) \<le> card {..<count}"
      unfolding order_card [OF 1(2)] by (intro card_mono) auto
    then show ?thesis using False 1(2) by (simp add: traverse.simps)
  qed
qed

section \<open>Links\<close>

lemma node_index_Some: "node_index graph u = Some i \<Longrightarrow> i < length (graph_nodes graph) \<and> node_id (graph_nodes graph ! i) = u"
  unfolding node_index_def by (drule map_of_SomeD) (auto simp: in_set_enumerate_eq)

lemma node_index_None: "node_index graph u = None \<longleftrightarrow> u \<notin> node_id ` set (graph_nodes graph)"
proof -
  have "(\<lambda>x. node_id (snd x)) ` set (List.enumerate 0 (graph_nodes graph)) = node_id ` snd ` set (List.enumerate 0 (graph_nodes graph))"
    by (simp add: image_image)
  also have "snd ` set (List.enumerate 0 (graph_nodes graph)) = set (graph_nodes graph)"
    by (metis list.set_map map_snd_enumerate)
  finally show ?thesis by (simp add: node_index_def map_of_eq_None_iff case_prod_unfold image_image)
qed

lemma in_map_filter_iff: "y \<in> set (List.map_filter f xs) \<longleftrightarrow> (\<exists>x\<in>set xs. f x = Some y)"
  by (induction xs) (auto simp: List.map_filter_def split: option.splits)

lemma links_bound: "l \<in> set (graph_links graph) \<Longrightarrow> fst l < length (graph_nodes graph) \<and> snd l < length (graph_nodes graph)"
proof -
  assume "l \<in> set (graph_links graph)"
  then obtain e where "edge_ends graph e = Some l" by (auto simp: graph_links_def in_map_filter_iff)
  then obtain f t where "node_index graph (edge_from e) = Some f" "node_index graph (edge_to e) = Some t" "l = (f, t)"
    by (auto simp: edge_ends_def split: option.splits)
  with node_index_Some show ?thesis by auto
qed

definition after_entry :: "Graph \<Rightarrow> Traversal" where
  "after_entry graph =
     (let links = graph_links graph; start = traversal_start links (length (graph_nodes graph))
      in case node_index graph (graph_entry_node graph) of Some entry \<Rightarrow> emit_node links entry start | None \<Rightarrow> start)"

lemma visit_order_traverse:
  "visit_order graph = tr_order (traverse (graph_links graph) (length (graph_nodes graph)) (after_entry graph))"
  by (simp add: visit_order_def after_entry_def Let_def)

lemma after_entry_ok: "traversal_ok (graph_links graph) (length (graph_nodes graph)) (after_entry graph)"
proof (cases "node_index graph (graph_entry_node graph)")
  case None
  with start_ok [of "graph_links graph" "length (graph_nodes graph)"] links_bound [of _ graph] show ?thesis
    by (simp add: after_entry_def Let_def)
next
  case (Some entry)
  then have "unvisited (traversal_start (graph_links graph) (length (graph_nodes graph))) entry"
    using node_index_Some [OF Some] by (simp add: unvisited_def traversal_start_def)
  from emit_ok [OF start_ok this] links_bound [of _ graph] Some show ?thesis by (simp add: after_entry_def Let_def)
qed

lemma visit_order_perm: "distinct (visit_order graph) \<and> set (visit_order graph) = {..<length (graph_nodes graph)}"
proof -
  let ?n = "length (graph_nodes graph)"
  have "traversal_ok (graph_links graph) ?n (traverse (graph_links graph) ?n (after_entry graph))"
    and len: "length (visit_order graph) = ?n"
    using traverse_ok [OF after_entry_ok, of graph] links_bound [of _ graph] by (auto simp: visit_order_traverse)
  then have d: "distinct (visit_order graph)" and s: "set (visit_order graph) \<subseteq> {..<?n}"
    by (auto simp: traversal_ok_def visit_order_traverse)
  from d len have "card (set (visit_order graph)) = card {..<?n}" by (simp add: distinct_card)
  with s have "set (visit_order graph) = {..<?n}" by (intro card_subset_eq) auto
  with d show ?thesis by simp
qed

section \<open>Topological order\<close>

text \<open>Every edge into a visited node comes from a node before it.\<close>

definition forward :: "(nat \<times> nat) list \<Rightarrow> nat list \<Rightarrow> bool" where
  "forward links order \<longleftrightarrow> (\<forall>k<length order. \<forall>l\<in>set links. snd l = order ! k \<longrightarrow> fst l \<in> set (take k order))"

lemma forward_snoc:
  "forward links (order @ [i]) \<longleftrightarrow> forward links order \<and> (\<forall>l\<in>set links. snd l = i \<longrightarrow> fst l \<in> set order)"
  by (auto simp: forward_def nth_append less_Suc_eq)

lemma ready_predecessors:
  assumes "traversal_ok links count st" and "unvisited st i" and "tr_indegree st ! i = 0"
    and "\<forall>l\<in>set links. fst l < count \<and> snd l < count"
  shows "\<forall>l\<in>set links. snd l = i \<longrightarrow> fst l \<in> set (tr_order st)"
proof -
  from assms(1-3) have "open_links links st i = 0" by (auto simp: traversal_ok_def)
  then have "\<forall>l\<in>set links. snd l = i \<longrightarrow> tr_visited st ! fst l" by (auto simp: open_links_def filter_empty_conv)
  with assms(1,4) show ?thesis by (auto simp: traversal_ok_def)
qed

lemma acyclic_ready:
  assumes "traversal_ok links count st" and "acyclic (set links)" and "unvisited st j"
    and "\<forall>l\<in>set links. fst l < count \<and> snd l < count"
  shows "tr_ready st \<noteq> []"
proof -
  let ?U = "{i. unvisited st i}"
  have "wf (set links)" using assms(2) by (simp add: finite_acyclic_wf)
  with assms(3) obtain m where m: "unvisited st m" "\<And>y. (y, m) \<in> set links \<Longrightarrow> \<not> unvisited st y"
    by (metis (no_types, lifting) mem_Collect_eq wf_eq_minimal)
  have "open_links links st m = 0"
    using m(2) assms(1,4) by (fastforce simp: open_links_def filter_empty_conv traversal_ok_def unvisited_def)
  with m(1) assms(1) have "m \<in> set (tr_ready st)" by (auto simp: traversal_ok_def ready_exact_def)
  then show ?thesis by auto
qed

lemma next_is_ready:
  assumes "traversal_ok links count st" and "tr_ready st \<noteq> []" and "next_node count st = Some i"
  shows "unvisited st i \<and> tr_indegree st ! i = 0"
proof -
  obtain j js where r: "tr_ready st = j # js" using assms(2) by (cases "tr_ready st") auto
  with assms(1) have j: "unvisited st j" "tr_indegree st ! j = 0" by (auto simp: traversal_ok_def ready_exact_def)
  with assms(3) r have "i = j" by (simp add: next_node_def unvisited_def)
  with j show ?thesis by simp
qed

lemma traverse_forward:
  assumes "traversal_ok links count st" and "\<forall>l\<in>set links. fst l < count \<and> snd l < count"
    and "acyclic (set links)" and "forward links (tr_order st)"
  shows "forward links (tr_order (traverse links count st))"
  using assms
proof (induction links count st rule: traverse.induct)
  case (1 links count st)
  show ?case
  proof (cases "length (tr_order st) < count")
    case True
    from next_unvisited [OF 1(2) True] obtain i where i: "next_node count st = Some i" "unvisited st i" by blast
    from acyclic_ready [OF 1(2) 1(4) i(2) 1(3)] have "tr_ready st \<noteq> []" .
    from next_is_ready [OF 1(2) this i(1)] have "tr_indegree st ! i = 0" by simp
    from ready_predecessors [OF 1(2) i(2) this 1(3)] 1(5) have "forward links (tr_order (emit_node links i st))"
      by (simp add: order_emit forward_snoc)
    from 1(1) [OF True i(1) emit_ok [OF 1(2) i(2) 1(3)] 1(3) 1(4) this] True i(1) show ?thesis by (simp add: traverse.simps)
  next
    case False
    with 1(5) show ?thesis by (simp add: traverse.simps)
  qed
qed

lemma position_in_nth: "distinct order \<Longrightarrow> k < length order \<Longrightarrow> position_in order (order ! k) = k"
proof -
  assume d: "distinct order" and k: "k < length order"
  then obtain p where p: "position_of (\<lambda>j. j = order ! k) order = Some p"
    by (cases "position_of (\<lambda>j. j = order ! k) order") (auto simp: position_of_None)
  then have "p < length order" "order ! p = order ! k" by (auto dest: position_of_Some)
  with d k have "p = k" by (simp add: nth_eq_iff_index_eq)
  with p show ?thesis by (simp add: position_in_def)
qed

lemma forward_positions:
  assumes "distinct order" and "set order = {..<n}" and "\<forall>l\<in>set links. fst l < n \<and> snd l < n"
  shows "forward links order \<longleftrightarrow> (\<forall>l\<in>set links. position_in order (fst l) < position_in order (snd l))"
proof
  assume fw: "forward links order"
  show "\<forall>l\<in>set links. position_in order (fst l) < position_in order (snd l)"
  proof
    fix l assume l: "l \<in> set links"
    with assms(2,3) have "snd l \<in> set order" by auto
    then obtain k where k: "k < length order" "snd l = order ! k" by (metis in_set_conv_nth)
    with fw l have "fst l \<in> set (take k order)" by (auto simp: forward_def)
    then obtain m where "m < k" "fst l = order ! m" by (auto simp: in_set_conv_nth)
    with k assms(1) show "position_in order (fst l) < position_in order (snd l)" by (simp add: position_in_nth)
  qed
next
  assume pos: "\<forall>l\<in>set links. position_in order (fst l) < position_in order (snd l)"
  show "forward links order"
    unfolding forward_def
  proof (intro allI impI ballI)
    fix k l assume k: "k < length order" and l: "l \<in> set links" "snd l = order ! k"
    from l(1) assms(2,3) have "fst l \<in> set order" by auto
    then obtain m where m: "m < length order" "fst l = order ! m" by (metis in_set_conv_nth)
    with pos l k assms(1) have "m < k" by (metis position_in_nth)
    with m k show "fst l \<in> set (take k order)" by (auto simp: in_set_conv_nth intro: exI [of _ m])
  qed
qed

lemma positions_acyclic:
  assumes "\<forall>l\<in>set links. (p :: nat \<Rightarrow> nat) (fst l) < p (snd l)"
  shows "acyclic (set links)"
proof -
  have "set links \<subseteq> inv_image less_than p" using assms by (auto simp: inv_image_def)
  then show ?thesis by (meson acyclic_subset wf_acyclic wf_inv_image wf_less_than)
qed

text \<open>The entry node of the graph, when it is one of its nodes, has no predecessor in the graph.\<close>

definition entry_is_source :: "Graph \<Rightarrow> bool" where
  "entry_is_source graph \<longleftrightarrow>
     (case node_index graph (graph_entry_node graph) of
        None \<Rightarrow> True | Some entry \<Rightarrow> indegree_of (graph_links graph) entry = 0)"

lemma order_prefix: "\<exists>more. tr_order (traverse links count st) = tr_order st @ more"
proof (induction links count st rule: traverse.induct)
  case (1 links count st)
  show ?case
  proof (cases "length (tr_order st) < count")
    case True
    then show ?thesis using 1 by (fastforce simp: traverse.simps [of links count st] order_emit split: option.split)
  qed (simp add: traverse.simps)
qed

lemma forward_entry_source:
  assumes "forward (graph_links graph) (visit_order graph)"
  shows "entry_is_source graph"
proof (cases "node_index graph (graph_entry_node graph)")
  case None
  then show ?thesis by (simp add: entry_is_source_def)
next
  case (Some entry)
  then have "tr_order (after_entry graph) = [entry]"
    by (simp add: after_entry_def order_emit Let_def) (simp add: traversal_start_def)
  with order_prefix obtain more where "visit_order graph = entry # more" by (metis append_Cons append_Nil visit_order_traverse)
  with assms have "\<forall>l\<in>set (graph_links graph). snd l \<noteq> entry" by (fastforce simp: forward_def)
  with Some show ?thesis by (simp add: entry_is_source_def indegree_of_def filter_empty_conv)
qed

lemma acyclic_forward:
  assumes "acyclic (set (graph_links graph))" and "entry_is_source graph"
  shows "forward (graph_links graph) (visit_order graph)"
proof -
  have start: "tr_order (traversal_start links n) = []" for links n by (simp add: traversal_start_def)
  have "forward (graph_links graph) (tr_order (after_entry graph))"
  proof (cases "node_index graph (graph_entry_node graph)")
    case None
    then show ?thesis by (simp add: after_entry_def start forward_def Let_def)
  next
    case (Some entry)
    with assms(2) have "\<forall>l\<in>set (graph_links graph). snd l \<noteq> entry"
      by (auto simp: entry_is_source_def indegree_of_def filter_empty_conv)
    with Some show ?thesis by (simp add: after_entry_def order_emit start forward_def Let_def)
  qed
  with traverse_forward [OF after_entry_ok _ assms(1)] links_bound [of _ graph] show ?thesis
    by (auto simp: visit_order_traverse)
qed

lemma report_empty:
  "report_back_edges graph (visit_order graph) = [] \<longleftrightarrow> forward (graph_links graph) (visit_order graph)"
proof -
  have "\<forall>l\<in>set (graph_links graph). fst l < length (graph_nodes graph) \<and> snd l < length (graph_nodes graph)"
    using links_bound by blast
  from forward_positions [OF _ _ this, of "visit_order graph"] visit_order_perm [of graph]
  show ?thesis by (auto simp: report_back_edges_def list_ex_iff case_prod_unfold not_le [symmetric])
qed

section \<open>Properties\<close>

text \<open>C25: The order of a plan takes every node of the graph once, also in cyclic and disconnected graphs, and the warning about
  backward edges is exact: there is none exactly when the graph is acyclic and its entry node has no predecessor, and then
  every edge goes from an earlier operation to a later one.\<close>

theorem topological_order_exact:
  "distinct (fst (topological_order graph)) \<and> set (fst (topological_order graph)) = {..<length (graph_nodes graph)}
    \<and> (snd (topological_order graph) = [] \<longleftrightarrow> acyclic (set (graph_links graph)) \<and> entry_is_source graph)
    \<and> (snd (topological_order graph) = [] \<longleftrightarrow>
        list_all (\<lambda>(f, t). position_in (fst (topological_order graph)) f < position_in (fst (topological_order graph)) t)
          (graph_links graph))"
proof -
  let ?order = "visit_order graph"
  have bound: "\<forall>l\<in>set (graph_links graph). fst l < length (graph_nodes graph) \<and> snd l < length (graph_nodes graph)"
    using links_bound by blast
  have d: "distinct ?order" and s: "set ?order = {..<length (graph_nodes graph)}" using visit_order_perm by auto
  note positions = forward_positions [OF d s bound]
  have "forward (graph_links graph) ?order \<longleftrightarrow> acyclic (set (graph_links graph)) \<and> entry_is_source graph"
    using acyclic_forward forward_entry_source positions positions_acyclic by blast
  moreover have "list_all (\<lambda>(f, t). position_in ?order f < position_in ?order t) (graph_links graph)
      \<longleftrightarrow> forward (graph_links graph) ?order"
    unfolding positions by (auto simp: list_all_iff)
  ultimately show ?thesis using d s by (simp add: topological_order_def Let_def report_empty)
qed

end
