(* ===== verification/Resolver_Plan.thy ===== *)
theory Resolver_Plan
  imports Resolver_Order
begin

text \<open>
  What a plan promises: its operations are the nodes of the graph, its transitions lead to the operations of their edges,
  its conditions are the ones its guards name, and an operation that does nothing is explained.
\<close>

section \<open>The registry\<close>

lemma register_sorted: "register task r = Inr r' \<Longrightarrow> bt_sorted r \<Longrightarrow> bt_sorted r'"
  by (auto simp: register_def split: if_splits)

lemma register_all_get:
  assumes "register_all tasks r = Some r'" and "bt_sorted r" and "registry_get r' n = Some task"
  shows "registry_get r n = Some task \<or> task \<in> set tasks \<and> tt_type_name task = n"
  using assms
proof (induction tasks arbitrary: r)
  case Nil
  then show ?case by simp
next
  case (Cons t tasks)
  then obtain r1 where r1: "register t r = Inr r1" "register_all tasks r1 = Some r'" by (auto split: sum.splits)
  from Cons.IH [OF r1(2) register_sorted [OF r1(1) Cons.prems(2)] Cons.prems(3)] r1(1) Cons.prems(2) show ?case
    by (auto simp: register_def registry_get_def split: if_splits)
qed

lemma register_all_distinct:
  assumes "distinct (map tt_type_name tasks)" and "\<forall>task\<in>set tasks. registry_get r (tt_type_name task) = None" and "bt_sorted r"
  shows "\<exists>r'. register_all tasks r = Some r'"
  using assms
proof (induction tasks arbitrary: r)
  case Nil
  then show ?case by simp
next
  case (Cons t tasks)
  then have r1: "register t r = Inr (bt_insert (tt_type_name t) t r)" by (simp add: register_def)
  have "\<forall>task\<in>set tasks. registry_get (bt_insert (tt_type_name t) t r) (tt_type_name task) = None"
  proof
    fix task assume "task \<in> set tasks"
    then have "tt_type_name task \<in> tt_type_name ` set tasks" by (rule imageI)
    moreover have "tt_type_name t \<notin> tt_type_name ` set tasks" using Cons.prems(1) by simp
    ultimately have "tt_type_name task \<noteq> tt_type_name t" by metis
    moreover have "registry_get r (tt_type_name task) = None" using Cons.prems(2) \<open>task \<in> set tasks\<close> by simp
    ultimately show "registry_get (bt_insert (tt_type_name t) t r) (tt_type_name task) = None"
      using Cons.prems(3) by (simp add: registry_get_def)
  qed
  from Cons.IH [OF _ this] Cons.prems r1 show ?case by simp
qed

lemma questing_registered: "\<exists>registry. with_questing = Some registry"
  unfolding with_questing_def
  by (rule register_all_distinct)
    (simp_all add: questing_task_types_def accept_quest_task_def turn_in_task_def kill_task_def collect_task_def vendor_task_def
      trainer_task_def flight_task_def hearth_task_def gate_task_def travel_task_def registry_new_def registry_get_def)

lemma questing_get: "with_questing = Some registry \<Longrightarrow> registry_get registry n = Some task \<Longrightarrow> task \<in> set questing_task_types"
  unfolding with_questing_def using register_all_get [of questing_task_types registry_new registry n task]
  by (auto simp: registry_new_def registry_get_def)

section \<open>Lowering a checked intent\<close>

text \<open>The action a task type is for.\<close>

definition performs :: "string \<Rightarrow> RuntimeAction \<Rightarrow> bool" where
  "performs type_name action \<longleftrightarrow>
     (case action of
        RAcceptQuest _ \<Rightarrow> type_name = ''questing.AcceptQuest''
      | RTurnInQuest _ \<Rightarrow> type_name = ''questing.TurnIn''
      | RKill _ \<Rightarrow> type_name = ''questing.Kill''
      | RLoot _ \<Rightarrow> type_name = ''questing.Collect''
      | RVendor _ \<Rightarrow> type_name = ''questing.Vendor''
      | RTrain _ \<Rightarrow> type_name = ''questing.Trainer''
      | RFlight _ \<Rightarrow> type_name = ''questing.Flight''
      | RHearth _ \<Rightarrow> type_name = ''questing.Hearth''
      | RCondition _ \<Rightarrow> type_name = ''questing.Gate''
      | RTravel _ \<Rightarrow> type_name = ''questing.Travel''
      | _ \<Rightarrow> False)"

text \<open>A travel step goes to a spawn point the database knows.\<close>

definition to_spawn :: "ResolverDb \<Rightarrow> GuardedAction \<Rightarrow> bool" where
  "to_spawn db a \<longleftrightarrow>
     (\<exists>kind n spawn t. db_spawn db kind n = Inr (Some spawn) \<and> a = unguarded (RTravel t)
       \<and> rtravel_position t = spawn_waypoint spawn)"

definition task_actions :: "ResolverDb \<Rightarrow> string \<Rightarrow> GuardedAction list \<Rightarrow> bool" where
  "task_actions db type_name actions \<longleftrightarrow>
     (\<exists>travel action. actions = travel @ [unguarded action] \<and> performs type_name action \<and> length travel \<le> 1
       \<and> list_all (to_spawn db) travel)"

lemma to_spawnI:
  "db_spawn db kind n = Inr (Some spawn) \<Longrightarrow> rtravel_position t = spawn_waypoint spawn \<Longrightarrow> to_spawn db (unguarded (RTravel t))"
  unfolding to_spawn_def by blast

lemma travel_to_spawn: "travel_to db kind n label field = Inr (Some a, ds) \<Longrightarrow> to_spawn db a"
proof -
  assume "travel_to db kind n label field = Inr (Some a, ds)"
  then obtain spawn t where spawn: "db_spawn db kind n = Inr (Some spawn)" and a: "a = unguarded (RTravel t)"
    and t: "rtravel_position t = spawn_waypoint spawn"
    by (auto simp: travel_to_def split: option.splits)
  show ?thesis unfolding a using spawn t by (rule to_spawnI)
qed

lemma travel_then_actions:
  assumes "travel_then (travel_to db kind n label field) action = Inr (actions, ds)" and "performs type_name action"
  shows "task_actions db type_name actions"
proof -
  from assms(1) obtain t ds' where t: "travel_to db kind n label field = Inr (t, ds')"
    and a: "actions = (case t of None \<Rightarrow> [] | Some a \<Rightarrow> [a]) @ [unguarded action]"
    by (auto simp: travel_then_def)
  from t have "list_all (to_spawn db) (case t of None \<Rightarrow> [] | Some a \<Rightarrow> [a])"
    by (cases t) (auto dest: travel_to_spawn)
  with a assms(2) show ?thesis unfolding task_actions_def
    by (intro exI [of _ "case t of None \<Rightarrow> [] | Some a \<Rightarrow> [a]"] exI [of _ action]) (simp split: option.split)
qed

lemma checked_typed:
  assumes "check_task task intent db = Inr checks" and "\<not> has_error checks"
  shows "well_typed (tt_schema task) intent"
  using assms schema_errors [of task intent] by (auto simp: check_task_def)

lemma required_entity:
  assumes "well_typed schema intent" and "f \<in> set schema" and "field_required f" and "field_kind f = FkEntity"
  shows "\<exists>e. intent_entity intent (field_name f) = Some e"
proof -
  from assms obtain v where "map_of intent (field_name f) = Some v" "fits f v"
    by (force simp: well_typed_def intent_get_def split: option.splits)
  with assms(4) show ?thesis by (cases v) (auto simp: intent_entity_def)
qed

lemma required_text:
  assumes "well_typed schema intent" and "f \<in> set schema" and "field_required f" and "field_kind f = FkText"
  shows "\<exists>t. text_field intent (field_name f) = Some t"
proof -
  from assms obtain v where "map_of intent (field_name f) = Some v" "fits f v"
    by (force simp: well_typed_def intent_get_def split: option.splits)
  with assms(4) show ?thesis by (cases v) (auto simp: text_field_def intent_get_def)
qed

lemmas field_simps = Field_new_def Field_entity_def Field_entity_list_def Field_required_def with_rules_def

lemma task_name_is:
  "tt_type_name accept_quest_task = ''questing.AcceptQuest''" "tt_type_name turn_in_task = ''questing.TurnIn''"
  "tt_type_name kill_task = ''questing.Kill''" "tt_type_name collect_task = ''questing.Collect''"
  "tt_type_name vendor_task = ''questing.Vendor''" "tt_type_name trainer_task = ''questing.Trainer''"
  "tt_type_name flight_task = ''questing.Flight''" "tt_type_name hearth_task = ''questing.Hearth''"
  "tt_type_name gate_task = ''questing.Gate''" "tt_type_name travel_task = ''questing.Travel''"
  by (simp_all add: accept_quest_task_def turn_in_task_def kill_task_def collect_task_def vendor_task_def
      trainer_task_def flight_task_def hearth_task_def gate_task_def travel_task_def)

lemma quest_npc_explained: "quest_npc intent db field quest = Inr (None, ds) \<Longrightarrow> has_error ds"
  by (auto simp: quest_npc_def split: option.splits if_splits prod.splits)

lemma accept_lowers:
  assumes "well_typed (tt_schema accept_quest_task) intent" and "lower_accept_quest intent db = Inr (actions, ds)"
  shows "task_actions db ''questing.AcceptQuest'' actions \<or> has_error ds"
proof -
  obtain quest where q: "intent_entity intent ''quest'' = Some quest"
    using required_entity [OF assms(1), of "Field_required (Field_entity ''quest'' EkQuest)"]
    by (auto simp: accept_quest_task_def field_simps)
  with assms(2) obtain npc ds1 where n: "quest_npc intent db ''from'' (er_id quest) = Inr (npc, ds1)" and sub: "set ds1 \<subseteq> set ds"
    by (auto simp: lower_accept_quest_def)
  show ?thesis
  proof (cases npc)
    case None
    with n have "has_error ds1" using quest_npc_explained by auto
    with sub show ?thesis by (auto simp: has_error_def list_ex_iff)
  next
    case (Some entry)
    with assms(2) q n show ?thesis
      by (auto simp: lower_accept_quest_def performs_def intro!: travel_then_actions)
  qed
qed

lemma turn_in_lowers:
  assumes "well_typed (tt_schema turn_in_task) intent" and "lower_turn_in intent db = Inr (actions, ds)"
  shows "task_actions db ''questing.TurnIn'' actions \<or> has_error ds"
proof -
  obtain quest where q: "intent_entity intent ''quest'' = Some quest"
    using required_entity [OF assms(1), of "Field_required (Field_entity ''quest'' EkQuest)"]
    by (auto simp: turn_in_task_def field_simps)
  with assms(2) obtain npc ds1 where n: "quest_npc intent db ''to'' (er_id quest) = Inr (npc, ds1)" and sub: "set ds1 \<subseteq> set ds"
    by (auto simp: lower_turn_in_def)
  show ?thesis
  proof (cases npc)
    case None
    with n have "has_error ds1" using quest_npc_explained by auto
    with sub show ?thesis by (auto simp: has_error_def list_ex_iff)
  next
    case (Some entry)
    with assms(2) q n show ?thesis
      by (auto simp: lower_turn_in_def performs_def intro!: travel_then_actions)
  qed
qed

text \<open>The tasks at one entity.\<close>

lemma entity_task_lowers:
  assumes "well_typed (tt_schema task) intent" and "Field_required (Field_entity name kind) \<in> set (tt_schema task)"
    and "lower = (case intent_entity intent name of
        None \<Rightarrow> quiet [] | Some e \<Rightarrow> travel_then (to_entity db e field) (action e))"
    and "lower = Inr (actions, ds)" and "\<And>e. performs type_name (action e)"
  shows "task_actions db type_name actions"
proof -
  obtain e where "intent_entity intent name = Some e"
    using required_entity [OF assms(1,2)] by (auto simp: field_simps)
  with assms(3,4) have "travel_then (to_entity db e field) (action e) = Inr (actions, ds)" by simp
  then show ?thesis unfolding to_entity_def by (rule travel_then_actions) (rule assms(5))
qed

lemma travel_task_lowers:
  assumes "lower_travel intent db = Inr (actions, ds)"
  shows "task_actions db ''questing.Travel'' actions \<or> has_error ds"
proof -
  from assms obtain position ds1 where p: "travel_position intent db = Inr (position, ds1)" and sub: "set ds1 \<subseteq> set ds"
    by (auto simp: lower_travel_def)
  show ?thesis
  proof (cases position)
    case None
    with p have "has_error ds1" by (auto simp: travel_position_def split: option.splits)
    with sub show ?thesis by (auto simp: has_error_def list_ex_iff)
  next
    case (Some waypoint)
    with assms p obtain t where "actions = [] @ [unguarded (RTravel t)]" by (auto simp: lower_travel_def)
    then show ?thesis unfolding task_actions_def
      by (intro disjI1 exI [of _ "[]"] exI [of _ "RTravel t"]) (simp add: performs_def)
  qed
qed

lemma single_action: "performs type_name action \<Longrightarrow> task_actions db type_name [unguarded action]"
  unfolding task_actions_def by (intro exI [of _ "[]"] exI [of _ action]) simp

lemma questing_lowers:
  assumes task: "task \<in> set questing_task_types" and check: "check_task task intent db = Inr checks" "\<not> has_error checks"
    and lower: "tt_lower task intent db = Inr (actions, ds)"
  shows "task_actions db (tt_type_name task) actions \<or> has_error ds"
proof -
  note typed = checked_typed [OF check]
  consider "task = accept_quest_task" | "task = turn_in_task" | "task = kill_task" | "task = collect_task" | "task = vendor_task"
    | "task = trainer_task" | "task = flight_task" | "task = hearth_task" | "task = gate_task" | "task = travel_task"
    using task by (auto simp: questing_task_types_def)
  then show ?thesis
  proof cases
    case 1
    with accept_lowers typed lower show ?thesis by (simp add: task_name_is) (simp add: accept_quest_task_def)
  next
    case 2
    with turn_in_lowers typed lower show ?thesis by (simp add: task_name_is) (simp add: turn_in_task_def)
  next
    case 3
    have "Field_required (Field_entity ''target'' EkNpc) \<in> set (tt_schema task)" by (simp add: 3 kill_task_def)
    from entity_task_lowers [OF typed this, of "tt_lower task intent db"] lower show ?thesis
      by (simp add: 3 kill_task_def lower_kill_def performs_def)
  next
    case 4
    have "Field_required (Field_entity ''object'' EkObject) \<in> set (tt_schema task)" by (simp add: 4 collect_task_def)
    from entity_task_lowers [OF typed this, of "tt_lower task intent db"] lower show ?thesis
      by (simp add: 4 collect_task_def lower_collect_def performs_def)
  next
    case 5
    have "Field_required (Field_entity ''npc'' EkNpc) \<in> set (tt_schema task)" by (simp add: 5 vendor_task_def)
    from entity_task_lowers [OF typed this, of "tt_lower task intent db"] lower show ?thesis
      by (simp add: 5 vendor_task_def lower_vendor_def performs_def)
  next
    case 6
    have "Field_required (Field_entity ''npc'' EkNpc) \<in> set (tt_schema task)" by (simp add: 6 trainer_task_def)
    from entity_task_lowers [OF typed this, of "tt_lower task intent db"] lower show ?thesis
      by (simp add: 6 trainer_task_def lower_trainer_def performs_def)
  next
    case 7
    have n: "Field_required (Field_entity ''npc'' EkNpc) \<in> set (tt_schema task)"
      and d: "with_rules [NonEmptyText] (Field_required (Field_new ''destination'' FkText)) \<in> set (tt_schema task)"
      by (simp_all add: 7 flight_task_def)
    obtain t where "text_field intent ''destination'' = Some t"
      using required_text [OF typed d] by (auto simp: field_simps)
    moreover obtain npc where "intent_entity intent ''npc'' = Some npc"
      using required_entity [OF typed n] by (auto simp: field_simps)
    ultimately show ?thesis using lower
      by (auto simp: 7 flight_task_def lower_flight_def to_entity_def performs_def intro!: travel_then_actions)
  next
    case 8
    with lower show ?thesis by (auto simp: hearth_task_def lower_hearth_def performs_def intro: single_action)
  next
    case 9
    with check have "gate_clauses intent \<noteq> []"
      by (auto simp: check_task_def gate_task_def validate_gate_def split: if_splits)
    with lower 9 show ?thesis by (auto simp: gate_task_def lower_gate_def performs_def intro: single_action)
  next
    case 10
    with travel_task_lowers lower show ?thesis by (simp add: task_name_is) (simp add: travel_task_def)
  qed
qed

section \<open>Operations\<close>

text \<open>What is known of one operation of a plan.\<close>

definition lowered_at ::
  "ResolverEnv \<Rightarrow> TaskRegistry \<Rightarrow> Campaign \<Rightarrow> Graph \<Rightarrow> (uuid \<Rightarrow> nat option) \<Rightarrow> ResolverDb \<Rightarrow> ResolverDiagnostic list
    \<Rightarrow> nat \<Rightarrow> PlanOperation \<Rightarrow> bool" where
  "lowered_at E registry campaign graph index_of db ds i op1 \<longleftrightarrow>
     planop_node_id op1 = node_id (graph_nodes graph ! i)
     \<and> (\<exists>ds1. lower_node registry (graph_nodes graph ! i) db = Inr (planop_actions op1, ds1) \<and> set ds1 \<subseteq> set ds)
     \<and> planop_next op1 = fst (transitions E campaign (planop_node_id op1) index_of (graph_edges graph))
     \<and> set (snd (transitions E campaign (planop_node_id op1) index_of (graph_edges graph))) \<subseteq> set ds"

lemma lowered_at_mono:
  "lowered_at E registry campaign graph index_of db ds i op1 \<Longrightarrow> set ds \<subseteq> set ds'
    \<Longrightarrow> lowered_at E registry campaign graph index_of db ds' i op1"
  unfolding lowered_at_def by blast

lemma lower_nodes_lowered:
  "lower_nodes E registry campaign graph index_of db order = Inr (ops, ds)
    \<Longrightarrow> list_all2 (lowered_at E registry campaign graph index_of db ds) order ops"
proof (induction order arbitrary: ops ds)
  case Nil
  then show ?case by simp
next
  case (Cons i order)
  let ?node = "graph_nodes graph ! i"
  let ?next = "transitions E campaign (node_id ?node) index_of (graph_edges graph)"
  obtain next_ops ds2 where t: "?next = (next_ops, ds2)" by (cases ?next)
  from Cons.prems t obtain actions ds1 rest ds3 where 1: "lower_node registry ?node db = Inr (actions, ds1)"
    and 3: "lower_nodes E registry campaign graph index_of db order = Inr (rest, ds3)"
    and ops: "ops = \<lparr>planop_node_id = node_id ?node, planop_actions = actions, planop_next = next_ops\<rparr> # rest"
    and ds: "ds = ds1 @ ds2 @ ds3"
    by (auto simp: Let_def)
  have "list_all2 (lowered_at E registry campaign graph index_of db ds) order rest"
    using Cons.IH [OF 3] ds by (auto elim!: list_all2_mono intro: lowered_at_mono)
  moreover have "lowered_at E registry campaign graph index_of db ds i
      \<lparr>planop_node_id = node_id ?node, planop_actions = actions, planop_next = next_ops\<rparr>"
    using 1 t ds by (auto simp: lowered_at_def)
  ultimately show ?case by (simp add: ops)
qed

lemma lower_graph_ops:
  assumes "lower_graph E registry campaign graph db = Inr (plan, ds)"
  shows "list_all2 (lowered_at E registry campaign graph (plan_index graph (visit_order graph)) db ds)
      (visit_order graph) (plan_operations plan)
    \<and> plan_conditions plan = referenced_conditions campaign (plan_operations plan)"
proof -
  from assms obtain ops ds2 where ops: "lower_nodes E registry campaign graph (plan_index graph (visit_order graph)) db (visit_order graph)
      = Inr (ops, ds2)" and plan: "plan_operations plan = ops" "plan_conditions plan = referenced_conditions campaign ops"
    and sub: "set ds2 \<subseteq> set ds"
    by (auto simp: lower_graph_def topological_order_def Let_def finish_plan_def)
  from lower_nodes_lowered [OF ops] have "list_all2 (lowered_at E registry campaign graph
      (plan_index graph (visit_order graph)) db ds) (visit_order graph) ops"
    by (rule list_all2_mono) (rule lowered_at_mono [OF _ sub])
  with plan show ?thesis by simp
qed

lemma operation_lowered:
  assumes "lower_graph E registry campaign graph db = Inr (plan, ds)" and "op1 \<in> set (plan_operations plan)"
  shows "\<exists>i<length (graph_nodes graph).
    lowered_at E registry campaign graph (plan_index graph (visit_order graph)) db ds i op1"
proof -
  from assms(2) obtain p where p: "p < length (plan_operations plan)" "op1 = plan_operations plan ! p"
    by (auto simp: in_set_conv_nth)
  from lower_graph_ops [OF assms(1)] have all: "list_all2 (lowered_at E registry campaign graph
      (plan_index graph (visit_order graph)) db ds) (visit_order graph) (plan_operations plan)" by blast
  have "visit_order graph ! p \<in> set (visit_order graph)" using p(1) list_all2_lengthD [OF all] by simp
  with visit_order_perm [of graph] list_all2_nthD2 [OF all p(1)] p(2) show ?thesis by auto
qed

lemma lower_node_explained:
  assumes "with_questing = Some registry" and "lower_node registry node db = Inr (actions, ds)"
  shows "task_actions db (node_type node) actions \<or> (\<exists>d\<in>set ds. rd_severity d = Error \<and> rd_node_id d = Some (node_id node))"
proof (cases "registry_get registry (node_type node)")
  case None
  with assms(2) show ?thesis by (simp add: lower_node_def)
next
  case (Some task)
  from questing_get [OF assms(1) Some] have task: "task \<in> set questing_task_types" .
  from assms(1) Some have name: "tt_type_name task = node_type node"
    using register_all_get [of questing_task_types registry_new registry "node_type node" task]
    by (auto simp: with_questing_def registry_new_def registry_get_def)
  from assms(2) Some obtain checks where checks: "check_task task (node_intent node) db = Inr checks"
    by (auto simp: lower_node_def split: sum.splits)
  have tagged: "\<exists>d\<in>set (map (with_node (node_id node)) es). rd_severity d = Error \<and> rd_node_id d = Some (node_id node)"
    if "has_error es" for es
    using that by (force simp: has_error_def list_ex_iff)
  show ?thesis
  proof (cases "has_error checks")
    case True
    with assms(2) Some checks tagged [OF True] show ?thesis by (simp add: lower_node_def)
  next
    case False
    with assms(2) Some checks obtain lowering where low: "tt_lower task (node_intent node) db = Inr (actions, lowering)"
      and ds: "ds = map (with_node (node_id node)) checks @ map (with_node (node_id node)) lowering"
      by (auto simp: lower_node_def)
    from questing_lowers [OF task checks False low] show ?thesis
    proof
      assume "task_actions db (tt_type_name task) actions"
      then show ?thesis by (simp add: name)
    next
      assume "has_error lowering"
      from tagged [OF this] ds show ?thesis by (metis Un_iff set_append)
    qed
  qed
qed

section \<open>Transitions and guards\<close>

lemma transitions_sound:
  assumes "t \<in> set (fst (transitions E campaign source index_of edges))"
  shows "\<exists>e\<in>set edges. edge_from e = source \<and> index_of (edge_to e) = Some (trans_to_index t) \<and> trans_guard t = edge_guard e"
  using assms by (induction edges) (auto simp: case_prod_unfold Let_def split: if_splits option.splits)

lemma transitions_complete:
  assumes "e \<in> set edges" and "edge_from e = source"
  shows "(\<exists>t\<in>set (fst (transitions E campaign source index_of edges)).
      index_of (edge_to e) = Some (trans_to_index t) \<and> trans_guard t = edge_guard e)
    \<or> (\<exists>d\<in>set (snd (transitions E campaign source index_of edges)).
      rd_code d = ''resolver.edge.dangling'' \<and> rd_node_id d = Some source)"
  using assms by (induction edges) (auto simp: case_prod_unfold Let_def split: option.splits)

lemma transitions_guards:
  assumes "t \<in> set (fst (transitions E campaign source index_of edges))" and "trans_guard t = Some g"
    and "campaign_condition campaign g = None"
  shows "\<exists>d\<in>set (snd (transitions E campaign source index_of edges)).
    rd_code d = ''resolver.guard.unknown_condition'' \<and> rd_node_id d = Some source"
  using assms by (induction edges) (auto simp: case_prod_unfold Let_def split: if_splits option.splits)

lemma plan_index_Some:
  "plan_index graph order u = Some p \<Longrightarrow> p < length order \<and> node_id (graph_nodes graph ! (order ! p)) = u"
  unfolding plan_index_def by (drule map_of_SomeD) (auto simp: in_set_enumerate_eq)

lemma first_definitions_find:
  "List.find (\<lambda>c. condef_id c = g) (first_definitions referenced emitted cs)
    = (if g \<in> set referenced \<and> g \<notin> emitted then List.find (\<lambda>c. condef_id c = g) cs else None)"
  by (induction cs arbitrary: emitted) auto

lemma first_definitions_distinct:
  "distinct (map condef_id (first_definitions referenced emitted cs))
    \<and> set (map condef_id (first_definitions referenced emitted cs)) \<subseteq> set referenced - emitted"
proof (induction cs arbitrary: emitted)
  case Nil
  then show ?case by simp
next
  case (Cons c cs)
  from Cons.IH [of emitted] Cons.IH [of "insert (condef_id c) emitted"] show ?case by auto
qed

lemma flatten_no_imports: "fst (flatten E no_imports campaign) = camp_graphs campaign"
proof -
  have "fst (flatten_imports E no_imports seen layers) = []" for seen layers
    by (induction layers) (simp_all add: no_imports_def case_prod_unfold Let_def)
  then show ?thesis by (simp add: flatten_def case_prod_unfold Let_def)
qed

text \<open>The operations of a plan follow the order of the nodes.\<close>

lemma plan_nodes:
  assumes "lower_graph E registry campaign graph db = Inr (plan, ds)"
  shows "length (plan_operations plan) = length (graph_nodes graph)"
    and "planop_node_id ` set (plan_operations plan) = node_id ` set (graph_nodes graph)"
    and "plan_index graph (visit_order graph) u = Some p
      \<Longrightarrow> p < length (plan_operations plan) \<and> planop_node_id (plan_operations plan ! p) = u"
proof -
  let ?ops = "plan_operations plan" let ?order = "visit_order graph"
  let ?L = "lowered_at E registry campaign graph (plan_index graph ?order) db ds"
  from lower_graph_ops [OF assms] have all: "list_all2 ?L ?order ?ops" by simp
  have perm: "distinct ?order" "set ?order = {..<length (graph_nodes graph)}" using visit_order_perm by auto
  then have len_order: "length ?order = length (graph_nodes graph)" by (metis card_lessThan distinct_card)
  with all show len: "length ?ops = length (graph_nodes graph)" by (simp add: list_all2_lengthD [symmetric])
  have ids: "planop_node_id (?ops ! p) = node_id (graph_nodes graph ! (?order ! p))" if "p < length ?ops" for p
    using all that by (simp add: list_all2_conv_all_nth lowered_at_def)
  show "p < length ?ops \<and> planop_node_id (?ops ! p) = u" if "plan_index graph ?order u = Some p"
    using plan_index_Some [OF that] ids len len_order by auto
  have "map planop_node_id ?ops = map (\<lambda>i. node_id (graph_nodes graph ! i)) ?order"
    using len len_order ids by (intro nth_equalityI) auto
  then have "planop_node_id ` set ?ops = (\<lambda>i. node_id (graph_nodes graph ! i)) ` {..<length (graph_nodes graph)}"
    using perm(2) by (metis list.set_map)
  also have "\<dots> = node_id ` set (graph_nodes graph)" by (auto simp: set_conv_nth)
  finally show "planop_node_id ` set ?ops = node_id ` set (graph_nodes graph)" .
qed

lemma plan_transition_edge:
  assumes "lower_graph E registry campaign graph db = Inr (plan, ds)"
    and "op1 \<in> set (plan_operations plan)" "t \<in> set (planop_next op1)"
  shows "trans_to_index t < length (plan_operations plan)
    \<and> (\<exists>e\<in>set (graph_edges graph). edge_from e = planop_node_id op1
        \<and> edge_to e = planop_node_id (plan_operations plan ! trans_to_index t) \<and> edge_guard e = trans_guard t)"
proof -
  obtain i where "lowered_at E registry campaign graph (plan_index graph (visit_order graph)) db ds i op1"
    using operation_lowered [OF assms(1,2)] by blast
  with assms(3) obtain e where e: "e \<in> set (graph_edges graph)" "edge_from e = planop_node_id op1"
    "plan_index graph (visit_order graph) (edge_to e) = Some (trans_to_index t)" "trans_guard t = edge_guard e"
    unfolding lowered_at_def using transitions_sound by metis
  with plan_nodes(3) [OF assms(1) e(3)] show ?thesis by auto
qed

lemma plan_edge_transition:
  assumes "lower_graph E registry campaign graph db = Inr (plan, ds)"
    and "op1 \<in> set (plan_operations plan)" "e \<in> set (graph_edges graph)" "edge_from e = planop_node_id op1"
  shows "(\<exists>t\<in>set (planop_next op1). edge_to e = planop_node_id (plan_operations plan ! trans_to_index t)
        \<and> trans_guard t = edge_guard e)
    \<or> (\<exists>d\<in>set ds. rd_code d = ''resolver.edge.dangling'' \<and> rd_node_id d = Some (planop_node_id op1))"
proof -
  let ?index = "plan_index graph (visit_order graph)"
  let ?t = "transitions E campaign (planop_node_id op1) ?index (graph_edges graph)"
  obtain i where "lowered_at E registry campaign graph ?index db ds i op1"
    using operation_lowered [OF assms(1,2)] by blast
  then have nxt: "planop_next op1 = fst ?t" and sub: "set (snd ?t) \<subseteq> set ds" by (auto simp: lowered_at_def)
  from transitions_complete [OF assms(3,4), of E campaign ?index] show ?thesis
  proof
    assume "\<exists>t\<in>set (fst ?t). ?index (edge_to e) = Some (trans_to_index t) \<and> trans_guard t = edge_guard e"
    then obtain t where t: "t \<in> set (planop_next op1)" "?index (edge_to e) = Some (trans_to_index t)"
      "trans_guard t = edge_guard e" unfolding nxt by blast
    with plan_nodes(3) [OF assms(1) t(2)] show ?thesis by auto
  next
    assume "\<exists>d\<in>set (snd ?t). rd_code d = ''resolver.edge.dangling'' \<and> rd_node_id d = Some (planop_node_id op1)"
    with sub show ?thesis by blast
  qed
qed

section \<open>Properties\<close>


text \<open>C23: A plan mirrors its graph. It has one operation for each node; every transition leads to an operation of the plan and
  comes from an edge of its node to the node of that operation, with the guard of the edge; and every edge from a node of the
  graph is such a transition or is reported as dangling.\<close>

theorem plan_mirrors_graph:
  assumes "lower_graph E registry campaign graph db = Inr (plan, ds)"
  shows "length (plan_operations plan) = length (graph_nodes graph)
    \<and> planop_node_id ` set (plan_operations plan) = node_id ` set (graph_nodes graph)
    \<and> (\<forall>op1\<in>set (plan_operations plan). \<forall>t\<in>set (planop_next op1).
        trans_to_index t < length (plan_operations plan)
        \<and> (\<exists>e\<in>set (graph_edges graph). edge_from e = planop_node_id op1
            \<and> edge_to e = planop_node_id (plan_operations plan ! trans_to_index t) \<and> edge_guard e = trans_guard t))
    \<and> (\<forall>op1\<in>set (plan_operations plan). \<forall>e\<in>set (graph_edges graph). edge_from e = planop_node_id op1 \<longrightarrow>
        (\<exists>t\<in>set (planop_next op1). edge_to e = planop_node_id (plan_operations plan ! trans_to_index t)
            \<and> trans_guard t = edge_guard e)
        \<or> (\<exists>d\<in>set ds. rd_code d = ''resolver.edge.dangling'' \<and> rd_node_id d = Some (planop_node_id op1)))"
  using plan_nodes(1,2) [OF assms] plan_transition_edge [OF assms] plan_edge_transition [OF assms] by blast

text \<open>C24: A plan carries the conditions its guards need: looking a guard of a transition up in the plan gives what it means in the
  campaign, no condition is there twice or unused, and a guard the campaign does not define is reported.\<close>

theorem plan_conditions_exact:
  assumes "lower_graph E registry campaign graph db = Inr (plan, ds)"
  shows "List.find (\<lambda>c. condef_id c = g) (plan_conditions plan)
      = (if g \<in> set (plan_guards (plan_operations plan)) then campaign_condition campaign g else None)
    \<and> distinct (map condef_id (plan_conditions plan))
    \<and> set (map condef_id (plan_conditions plan)) \<subseteq> set (plan_guards (plan_operations plan))
    \<and> (g \<in> set (plan_guards (plan_operations plan)) \<and> campaign_condition campaign g = None \<longrightarrow>
        (\<exists>d\<in>set ds. rd_code d = ''resolver.guard.unknown_condition''))"
proof -
  let ?ops = "plan_operations plan"
  from lower_graph_ops [OF assms] have c: "plan_conditions plan = first_definitions (plan_guards ?ops) {} (camp_conditions campaign)"
    by (simp add: referenced_conditions_def)
  have "\<exists>d\<in>set ds. rd_code d = ''resolver.guard.unknown_condition''"
    if g: "g \<in> set (plan_guards ?ops)" and none: "campaign_condition campaign g = None"
  proof -
    from g obtain op1 t where op1: "op1 \<in> set ?ops" and t: "t \<in> set (planop_next op1)" "trans_guard t = Some g"
      by (auto simp: plan_guards_def in_map_filter_iff)
    from operation_lowered [OF assms op1] t(1) obtain source index_of where
      "t \<in> set (fst (transitions E campaign source index_of (graph_edges graph)))"
      "set (snd (transitions E campaign source index_of (graph_edges graph))) \<subseteq> set ds"
      unfolding lowered_at_def by metis
    with transitions_guards [OF this(1) t(2) none] show ?thesis by blast
  qed
  with first_definitions_distinct [of "plan_guards ?ops" "{}" "camp_conditions campaign"] show ?thesis
    by (auto simp: c first_definitions_find campaign_condition_def)
qed

section \<open>An example\<close>

definition E7 :: ResolverEnv where
  "E7 = \<lparr>renv_uuid_text = show_word, renv_json = \<lparr>json_operations = (\<lambda>_. Some ''ops''), json_conditions = (\<lambda>_. None)\<rparr>\<rparr>"

definition DB7 :: ResolverDb where
  "DB7 = memory_db (with_quest_giver 7 197 (with_label EkNpc 197 ''Marshal McBride''
     (with_spawn EkNpc 197 (Spawn_new 0 0xC60B7000 0xC3250000 0x42A40000) (InMemoryDb_new ''fp''))))"

text \<open>An accept, a kill whose target is not a creature, and a gate; the first edge is guarded, the last one dangles.\<close>

definition G7 :: Graph where
  "G7 = \<lparr>graph_id = 10, graph_name = ''g'', graph_entry_node = 1,
     graph_nodes =
       [Node_new 1 ''questing.AcceptQuest'' [(''quest'', IEntity (EntityRef_new EkQuest 7 []))],
        Node_new 2 ''questing.Kill'' [(''target'', IEntity (EntityRef_new EkQuest 7 []))],
        Node_new 3 ''questing.Gate'' [(''level'', IInt 5)]],
     graph_edges =
       [\<lparr>edge_id = 20, edge_from = 1, edge_to = 2, edge_guard = Some 30\<rparr>, Edge_new 21 2 3, Edge_new 22 3 99]\<rparr>"

definition C7 :: Campaign where
  "C7 = (Campaign_new 5 ''c'')\<lparr>camp_graphs := [G7], camp_conditions :=
     [\<lparr>condef_id = 31, condef_condition = AlwaysTrue\<rparr>, \<lparr>condef_id = 30, condef_condition = LevelAtLeast 5\<rparr>]\<rparr>"

lemma G7_order: "topological_order G7 = ([0, 1, 2], [])"
  by code_simp

lemma C7_nodes:
  "case lower_nodes E7 (the with_questing) C7 G7 (plan_index G7 [0, 1, 2]) DB7 [0, 1, 2] of
     Inr (ops, ds) \<Rightarrow>
       map planop_node_id ops = [1, 2, 3] \<and> map (length \<circ> planop_actions) ops = [2, 0, 1]
       \<and> map condef_id (referenced_conditions C7 ops) = [30]
       \<and> map rd_code ds = [''resolver.field.entity_kind'', ''resolver.edge.dangling'']
   | Inl _ \<Rightarrow> False"
  by code_simp

lemma C7_lowered:
  obtains plan ds where "lower_graph E7 (the with_questing) C7 G7 DB7 = Inr (plan, ds)"
    and "map planop_node_id (plan_operations plan) = [1, 2, 3]" and "map condef_id (plan_conditions plan) = [30]"
    and "map (length \<circ> planop_actions) (plan_operations plan) = [2, 0, 1]"
proof -
  let ?low = "lower_nodes E7 (the with_questing) C7 G7 (plan_index G7 [0, 1, 2]) DB7 [0, 1, 2]"
  have "\<exists>ops ds. ?low = Inr (ops, ds)"
    by (rule ccontr) (use C7_nodes in \<open>simp split: sum.splits prod.splits\<close>)
  then obtain ops ds where low: "?low = Inr (ops, ds)" by (elim exE)
  define plan where "plan = finish_plan E7 (camp_id C7) (graph_id G7) DB7 ops (referenced_conditions C7 ops)"
  have "lower_graph E7 (the with_questing) C7 G7 DB7 = Inr (plan, ds)"
    unfolding lower_graph_def G7_order wbind.simps low by (simp add: quiet_def plan_def)
  moreover have plan: "plan_operations plan = ops" "plan_conditions plan = referenced_conditions C7 ops"
    by (simp_all add: plan_def finish_plan_def)
  note nodes = C7_nodes [unfolded low sum.case prod.case, folded plan]
  ultimately show ?thesis
    using that conjunct1 [OF nodes] conjunct1 [OF conjunct2 [OF nodes]] conjunct1 [OF conjunct2 [OF conjunct2 [OF nodes]]] by iprover
qed

lemma C7_plan:
  obtains plan ds where "resolve_questing E7 C7 DB7 = Some (Inr (plan, ds))"
    and "map planop_node_id (plan_operations plan) = [1, 2, 3]"
    and "map (length \<circ> planop_actions) (plan_operations plan) = [2, 0, 1]"
proof -
  obtain plan ds where p: "lower_graph E7 (the with_questing) C7 G7 DB7 = Inr (plan, ds)"
    "map planop_node_id (plan_operations plan) = [1, 2, 3]" "map (length \<circ> planop_actions) (plan_operations plan) = [2, 0, 1]"
    by (rule C7_lowered)
  obtain graphs fds where flat: "flatten E7 no_imports C7 = (graphs, fds)" by (cases "flatten E7 no_imports C7")
  with flatten_no_imports [of E7 C7] have "graphs = [G7]" by (simp add: C7_def)
  with flat p(1) have r: "resolve_campaign E7 (the with_questing) no_imports C7 DB7 = Inr (plan, fds @ ds)"
    by (simp add: resolve_campaign_def)
  have "with_questing = Some (the with_questing)" using questing_registered by auto
  then have "resolve_questing E7 C7 DB7 = Some (resolve_campaign E7 (the with_questing) no_imports C7 DB7)"
    unfolding resolve_questing_def by (metis option.map(2))
  from that [OF this [unfolded r] p(2,3)] show ?thesis .
qed


lemma plan_mirrors_graph_witness:
  "\<exists>plan ds. lower_graph E7 (the with_questing) C7 G7 DB7 = Inr (plan, ds) \<and> length (plan_operations plan) = 3
    \<and> planop_node_id ` set (plan_operations plan) = {1, 2, 3}
    \<and> list_all (\<lambda>op1. list_all (\<lambda>t. trans_to_index t < 3) (planop_next op1)) (plan_operations plan)"
proof -
  obtain plan ds where p: "lower_graph E7 (the with_questing) C7 G7 DB7 = Inr (plan, ds)" by (rule C7_lowered)
  have nodes: "length (graph_nodes G7) = 3" "node_id ` set (graph_nodes G7) = {1, 2, 3}" by (simp_all add: G7_def Node_new_def)
  note mirrors = plan_mirrors_graph [OF p, unfolded nodes]
  then have "list_all (\<lambda>op1. list_all (\<lambda>t. trans_to_index t < 3) (planop_next op1)) (plan_operations plan)"
    unfolding list_all_iff by (elim conjE) simp
  with mirrors p show ?thesis by (intro exI [of _ plan] exI [of _ ds]) (elim conjE, simp)
qed

lemma plan_conditions_exact_witness:
  "\<exists>plan ds. lower_graph E7 (the with_questing) C7 G7 DB7 = Inr (plan, ds)
    \<and> List.find (\<lambda>c. condef_id c = 30) (plan_conditions plan) = campaign_condition C7 30
    \<and> map condef_id (plan_conditions plan) = [30]"
proof -
  obtain plan ds where p: "lower_graph E7 (the with_questing) C7 G7 DB7 = Inr (plan, ds)" "map condef_id (plan_conditions plan) = [30]"
    by (rule C7_lowered)
  from plan_conditions_exact [OF p(1), of 30] p(2) have "List.find (\<lambda>c. condef_id c = 30) (plan_conditions plan) = campaign_condition C7 30"
    by (elim conjE) simp
  with p show ?thesis by (intro exI [of _ plan] exI [of _ ds] conjI)
qed

end
