(* ===== verification/Resolver_Layers.thy ===== *)
theory Resolver_Layers
  imports Resolver
begin

text \<open>
  Disabled nodes: taking nodes out of an imported graph keeps the route connected (ADR 09), as long as the graph has no cycle.
\<close>

definition edge_rel :: "Graph \<Rightarrow> (uuid \<times> uuid) set" where
  "edge_rel graph = (\<lambda>e. (edge_from e, edge_to e)) ` set (graph_edges graph)"

definition node_ids :: "Graph \<Rightarrow> uuid set" where
  "node_ids graph = node_id ` set (graph_nodes graph)"

text \<open>What splicing a point out does to a relation.\<close>

definition bypass :: "'a \<Rightarrow> ('a \<times> 'a) set \<Rightarrow> ('a \<times> 'a) set" where
  "bypass d R = {(a, b) \<in> R. a \<noteq> d \<and> b \<noteq> d} \<union> {(a, b). (a, d) \<in> R \<and> (d, b) \<in> R}"

lemma bypass_trancl: "bypass d R \<subseteq> R\<^sup>+"
  unfolding bypass_def by (auto intro: trancl_trans)

lemma bypass_avoids: "(d, d) \<notin> R \<Longrightarrow> (a, b) \<in> bypass d R \<Longrightarrow> a \<noteq> d \<and> b \<noteq> d"
  by (auto simp: bypass_def)

lemma bypass_path:
  assumes "(a, b) \<in> R\<^sup>*" and "a \<noteq> d" and "(d, d) \<notin> R"
  shows "(b \<noteq> d \<longrightarrow> (a, b) \<in> (bypass d R)\<^sup>*) \<and> (b = d \<longrightarrow> (\<exists>p. (a, p) \<in> (bypass d R)\<^sup>* \<and> (p, d) \<in> R))"
  using assms(1)
proof (induction rule: rtrancl_induct)
  case base
  then show ?case using assms(2) by simp
next
  case (step b c)
  show ?case
  proof (cases "b = d")
    case True
    with step(3) obtain p where p: "(a, p) \<in> (bypass d R)\<^sup>*" "(p, d) \<in> R" by blast
    from True step(2) assms(3) have "c \<noteq> d" by blast
    moreover from p(2) step(2) True have "(p, c) \<in> bypass d R" by (simp add: bypass_def)
    ultimately show ?thesis using p(1) by (simp add: rtrancl.rtrancl_into_rtrancl)
  next
    case False
    with step(3) have ab: "(a, b) \<in> (bypass d R)\<^sup>*" by blast
    show ?thesis
    proof (cases "c = d")
      case True
      with ab step(2) show ?thesis by blast
    next
      case c: False
      with False step(2) have "(b, c) \<in> bypass d R" by (simp add: bypass_def)
      with ab c show ?thesis by (simp add: rtrancl.rtrancl_into_rtrancl)
    qed
  qed
qed

lemma bypass_reach: "a \<noteq> d \<Longrightarrow> b \<noteq> d \<Longrightarrow> (d, d) \<notin> R \<Longrightarrow> (a, b) \<in> (bypass d R)\<^sup>* \<longleftrightarrow> (a, b) \<in> R\<^sup>*"
  using bypass_path [of a b R d] rtrancl_mono [OF bypass_trancl, of d R] by auto

lemma bypass_acyclic: "acyclic R \<Longrightarrow> acyclic (bypass d R)"
  unfolding acyclic_def
proof (intro allI notI)
  fix x assume no: "\<forall>x. (x, x) \<notin> R\<^sup>+" and "(x, x) \<in> (bypass d R)\<^sup>+"
  from trancl_mono [OF this(2) bypass_trancl] have "(x, x) \<in> R\<^sup>+" by (simp add: trancl_id)
  with no show False by blast
qed

lemma in_edge_rel: "(a, b) \<in> edge_rel graph \<longleftrightarrow> (\<exists>e\<in>set (graph_edges graph). edge_from e = a \<and> edge_to e = b)"
  by (auto simp: edge_rel_def)

lemma splice_edges:
  "e \<in> set (graph_edges (fst (splice_out E d graph))) \<longleftrightarrow>
     e \<in> set (graph_edges graph) \<and> edge_from e \<noteq> d \<and> edge_to e \<noteq> d
     \<or> (\<exists>p\<in>set (graph_edges graph). \<exists>s\<in>set (graph_edges graph). edge_to p = d \<and> edge_from s = d \<and> e = spliced_edge p s)"
  by (auto simp: splice_out_def case_prod_unfold Let_def)

lemma splice_rel: "edge_rel (fst (splice_out E d graph)) = bypass d (edge_rel graph)"
proof (rule set_eqI, clarify)
  fix a b
  have ends: "edge_from (spliced_edge p s) = edge_from p" "edge_to (spliced_edge p s) = edge_to s" for p s
    by (simp_all add: spliced_edge_def)
  let ?G = "fst (splice_out E d graph)"
  show "(a, b) \<in> edge_rel ?G \<longleftrightarrow> (a, b) \<in> bypass d (edge_rel graph)"
  proof
    assume "(a, b) \<in> edge_rel ?G"
    then obtain e where e: "e \<in> set (graph_edges ?G)" "edge_from e = a" "edge_to e = b" unfolding in_edge_rel by blast
    from e(1) consider "e \<in> set (graph_edges graph)" "edge_from e \<noteq> d" "edge_to e \<noteq> d"
      | p s where "p \<in> set (graph_edges graph)" "s \<in> set (graph_edges graph)" "edge_to p = d" "edge_from s = d" "e = spliced_edge p s"
      unfolding splice_edges by blast
    then show "(a, b) \<in> bypass d (edge_rel graph)"
      by cases (use e ends in \<open>auto simp: bypass_def in_edge_rel\<close>)
  next
    assume "(a, b) \<in> bypass d (edge_rel graph)"
    then consider "(a, b) \<in> edge_rel graph" "a \<noteq> d" "b \<noteq> d" | "(a, d) \<in> edge_rel graph" "(d, b) \<in> edge_rel graph"
      by (auto simp: bypass_def)
    then show "(a, b) \<in> edge_rel ?G"
    proof cases
      case 1
      then show ?thesis unfolding in_edge_rel using splice_edges by blast
    next
      case 2
      then obtain p s where ps: "p \<in> set (graph_edges graph)" "edge_to p = d" "edge_from p = a"
        "s \<in> set (graph_edges graph)" "edge_from s = d" "edge_to s = b"
        unfolding in_edge_rel by blast
      then have "spliced_edge p s \<in> set (graph_edges ?G)" unfolding splice_edges by blast
      with ps ends show ?thesis unfolding in_edge_rel by blast
    qed
  qed
qed

lemma splice_nodes:
  "graph_nodes (fst (splice_out E d graph)) = filter (\<lambda>node. node_id node \<noteq> d) (graph_nodes graph)"
  by (simp add: splice_out_def case_prod_unfold Let_def)

lemma splice_entry:
  "graph_entry_node (fst (splice_out E d graph)) = graph_entry_node graph \<and> graph_entry_node graph \<noteq> d
    \<or> graph_entry_node graph = d \<and> (d, graph_entry_node (fst (splice_out E d graph))) \<in> edge_rel graph
    \<or> graph_entry_node graph = d \<and> graph_entry_node (fst (splice_out E d graph)) = d
      \<and> (\<exists>x\<in>set (snd (splice_out E d graph)). rd_code x = ''resolver.disabled.entry_node'')"
proof (cases "filter (\<lambda>e. edge_from e = d) (graph_edges graph)")
  case Nil
  then show ?thesis by (simp add: splice_out_def case_prod_unfold Let_def)
next
  case (Cons e es)
  then have "e \<in> set (graph_edges graph)" "edge_from e = d" by (auto simp: filter_eq_Cons_iff)
  then have "(d, edge_to e) \<in> edge_rel graph" by (auto simp: edge_rel_def)
  with Cons show ?thesis by (simp add: splice_out_def case_prod_unfold Let_def)
qed

text \<open>The nodes a list of disabled ids takes out.\<close>

definition removed :: "uuid list \<Rightarrow> Graph \<Rightarrow> uuid set" where
  "removed disabled graph = set disabled \<inter> node_ids graph"

lemma remove_disabled_bypasses:
  assumes "acyclic (edge_rel graph)" and "remove_disabled E disabled graph = (graph', ds)"
  shows "graph_nodes graph' = filter (\<lambda>node. node_id node \<notin> set disabled) (graph_nodes graph)
    \<and> (\<forall>a b. a \<notin> removed disabled graph \<longrightarrow> b \<notin> removed disabled graph \<longrightarrow>
        ((a, b) \<in> (edge_rel graph')\<^sup>* \<longleftrightarrow> (a, b) \<in> (edge_rel graph)\<^sup>*))
    \<and> Field (edge_rel graph') \<subseteq> Field (edge_rel graph) - removed disabled graph
    \<and> (graph_entry_node graph, graph_entry_node graph') \<in> (edge_rel graph)\<^sup>*
    \<and> (graph_entry_node graph' \<in> removed disabled graph \<longrightarrow> (\<exists>x\<in>set ds. rd_code x = ''resolver.disabled.entry_node''))"
  using assms
proof (induction disabled arbitrary: graph graph' ds)
  case Nil
  then show ?case by (simp add: removed_def)
next
  case (Cons d disabled)
  show ?case
  proof (cases "d \<in> node_ids graph")
    case False
    then have same: "removed (d # disabled) graph = removed disabled graph" by (auto simp: removed_def)
    from False have absent: "\<forall>node\<in>set (graph_nodes graph). node_id node \<noteq> d" by (auto simp: node_ids_def)
    then have "remove_disabled E disabled graph = (graph', ds)"
      using Cons.prems(2) by (auto simp: list_ex_iff split: if_splits)
    from Cons.IH [OF Cons.prems(1) this] absent show ?thesis
      unfolding same by (auto intro: filter_cong)
  next
    case True
    obtain g1 ds1 where g1: "splice_out E d graph = (g1, ds1)" by (cases "splice_out E d graph")
    obtain g2 ds2 where g2: "remove_disabled E disabled g1 = (g2, ds2)" by (cases "remove_disabled E disabled g1")
    from True have "list_ex (\<lambda>node. node_id node = d) (graph_nodes graph)" by (auto simp: node_ids_def list_ex_iff)
    with Cons.prems(2) g1 g2 have rest: "remove_disabled E disabled g1 = (graph', ds2)" and ds: "ds = ds1 @ ds2" by auto
    have rel: "edge_rel g1 = bypass d (edge_rel graph)" using splice_rel [of E d graph] g1 by simp
    have nodes: "graph_nodes g1 = filter (\<lambda>node. node_id node \<noteq> d) (graph_nodes graph)" using splice_nodes [of E d graph] g1 by simp
    have no_loop: "(d, d) \<notin> edge_rel graph" using Cons.prems(1) by (auto simp: acyclic_def)
    have ac: "acyclic (edge_rel g1)" unfolding rel by (rule bypass_acyclic [OF Cons.prems(1)])
    note IH = Cons.IH [OF ac rest]
    have rem: "removed (d # disabled) graph = insert d (removed disabled g1)"
      using True nodes by (auto simp: removed_def node_ids_def)
    have field1: "Field (edge_rel g1) \<subseteq> Field (edge_rel graph) - {d}"
      using bypass_avoids [OF no_loop] unfolding rel by (fastforce simp: Field_def bypass_def)
    have n: "graph_nodes graph' = filter (\<lambda>node. node_id node \<notin> set (d # disabled)) (graph_nodes graph)"
      using IH nodes by (simp add: conj_commute)
    have reach: "(a, b) \<in> (edge_rel graph')\<^sup>* \<longleftrightarrow> (a, b) \<in> (edge_rel graph)\<^sup>*"
      if "a \<notin> removed (d # disabled) graph" "b \<notin> removed (d # disabled) graph" for a b
      using that IH bypass_reach [OF _ _ no_loop, of a b] unfolding rem rel by auto
    have field2: "Field (edge_rel graph') \<subseteq> Field (edge_rel graph) - removed (d # disabled) graph"
      using IH field1 unfolding rem by auto
    have sub: "(edge_rel g1)\<^sup>* \<subseteq> (edge_rel graph)\<^sup>*"
      unfolding rel using rtrancl_mono [OF bypass_trancl, of d "edge_rel graph"] by simp
    note entry = splice_entry [of E d graph, unfolded g1 fst_conv snd_conv]
    have "(graph_entry_node graph, graph_entry_node g1) \<in> (edge_rel graph)\<^sup>*" using entry by auto
    moreover have "(graph_entry_node g1, graph_entry_node graph') \<in> (edge_rel graph)\<^sup>*" using IH sub by blast
    ultimately have path: "(graph_entry_node graph, graph_entry_node graph') \<in> (edge_rel graph)\<^sup>*" by (rule rtrancl_trans)
    have warned: "\<exists>x\<in>set ds. rd_code x = ''resolver.disabled.entry_node''"
      if e: "graph_entry_node graph' \<in> removed (d # disabled) graph"
    proof (cases "graph_entry_node graph' \<in> removed disabled g1")
      case True
      with IH ds show ?thesis by auto
    next
      case False
      with e rem have last: "graph_entry_node graph' = d" by simp
      have "(graph_entry_node g1, d) \<in> (edge_rel g1)\<^sup>*" using IH last by auto
      then have "graph_entry_node g1 = d" using field1 by (cases rule: rtranclE) (auto simp: Field_def)
      with entry no_loop have "\<exists>x\<in>set ds1. rd_code x = ''resolver.disabled.entry_node''" by auto
      with ds show ?thesis by auto
    qed
    from n reach field2 path warned show ?thesis by blast
  qed
qed

section \<open>Properties\<close>

text \<open>C26: Disabling nodes keeps an acyclic route connected: exactly the disabled nodes are gone, no edge touches them any more, a
  remaining node reaches another one exactly when it did before, and the entry moves forward along the route to a remaining
  node or a warning says that there is none.\<close>

theorem disabled_nodes_bypassed:
  assumes "acyclic (edge_rel graph)" and "remove_disabled E disabled graph = (graph', ds)"
  shows "graph_nodes graph' = filter (\<lambda>node. node_id node \<notin> set disabled) (graph_nodes graph)
    \<and> (\<forall>a b. a \<notin> removed disabled graph \<longrightarrow> b \<notin> removed disabled graph \<longrightarrow>
        ((a, b) \<in> (edge_rel graph')\<^sup>* \<longleftrightarrow> (a, b) \<in> (edge_rel graph)\<^sup>*))
    \<and> Field (edge_rel graph') \<subseteq> Field (edge_rel graph) - removed disabled graph
    \<and> (graph_entry_node graph, graph_entry_node graph') \<in> (edge_rel graph)\<^sup>*
    \<and> (graph_entry_node graph' \<in> removed disabled graph \<longrightarrow> (\<exists>x\<in>set ds. rd_code x = ''resolver.disabled.entry_node''))"
  by (rule remove_disabled_bypasses [OF assms])

text \<open>A route 1, 2, 3 whose first two nodes are disabled: the entry moves to 3.\<close>

definition ROUTE3 :: Graph where
  "ROUTE3 = \<lparr>graph_id = 9, graph_name = ''r'', graph_entry_node = 1,
     graph_nodes = [Node_new 1 ''a'' [], Node_new 2 ''b'' [], Node_new 3 ''c'' []],
     graph_edges = [Edge_new 11 1 2, Edge_new 12 2 3]\<rparr>"

definition uuid_env :: ResolverEnv where
  "uuid_env = \<lparr>renv_uuid_text = show_word, renv_json = \<lparr>json_operations = (\<lambda>_. None), json_conditions = (\<lambda>_. None)\<rparr>\<rparr>"

lemma disabled_nodes_bypassed_witness:
  "\<exists>graph' ds. remove_disabled uuid_env [1, 2] ROUTE3 = (graph', ds) \<and> map node_id (graph_nodes graph') = [3]
    \<and> (1, graph_entry_node graph') \<in> (edge_rel ROUTE3)\<^sup>*"
proof -
  obtain graph' ds where r: "remove_disabled uuid_env [1, 2] ROUTE3 = (graph', ds)" by (cases "remove_disabled uuid_env [1, 2] ROUTE3")
  have "edge_rel ROUTE3 \<subseteq> inv_image less_than unat" by (auto simp: edge_rel_def ROUTE3_def Edge_new_def)
  then have "acyclic (edge_rel ROUTE3)" by (meson acyclic_subset wf_acyclic wf_inv_image wf_less_than)
  from disabled_nodes_bypassed [OF this r] r show ?thesis by (auto simp: ROUTE3_def Node_new_def)
qed

section \<open>Cycles\<close>

text \<open>A loop between two nodes that are both disabled: the first splice makes a self loop of the second node, and splicing that
  node out puts back an edge to it. The plan then reports the edge of the node before the loop as dangling.\<close>

definition LOOP4 :: Graph where
  "LOOP4 = \<lparr>graph_id = 9, graph_name = ''l'', graph_entry_node = 1,
     graph_nodes = [Node_new 1 ''a'' [], Node_new 2 ''b'' [], Node_new 3 ''c'' [], Node_new 4 ''d'' []],
     graph_edges = [Edge_new 11 1 2, Edge_new 12 2 3, Edge_new 13 3 2, Edge_new 14 2 4]\<rparr>"

lemma disabled_loop_dangles:
  "map (\<lambda>e. (edge_from e, edge_to e)) (graph_edges (fst (remove_disabled uuid_env [3, 2] LOOP4)))
    = [(1, 4), (1, 2), (2, 4), (2, 2)]"
  by code_simp

text \<open>An override that names a node of a sibling graph warns for every other graph of the import, also when a graph carries the node.\<close>

lemma override_of_sibling_warns:
  "map rd_code (snd (layer_graphs uuid_env
      \<lparr>import_campaign = 5, import_overrides = [\<lparr>override_node = 4, override_intent = []\<rparr>], import_disabled_nodes = []\<rparr>
      [ROUTE3, LOOP4])) = [''resolver.override.unknown_node'']"
  by code_simp

end
