(* ===== verification/Campaign_History.thy ===== *)
theory Campaign_History
  imports Command_History Platform_Model
begin

text \<open>
  The commands on a campaign and their undo history (\<^verbatim>\<open>editor/src/campaign_history.rs\<close>). The history itself is the
  one of \<open>Command_History\<close>; the trait object of a campaign command is \<open>CampaignCommands\<close>.

  An undo of a removal appends what was removed, so it restores the campaign only up to the order of its nodes,
  edges, graphs and conditions. \<open>CampaignView\<close> is what remains when the order is forgotten: finite maps by id. The
  commands refine plain updates of these maps, as long as ids are unique; this is what the interpretation of
  \<open>reversible_commands\<close> rests on. \<open>uuid_text\<close> is the text form of an id.
\<close>

datatype CampaignCommand =
    AddNode string uuid Node
  | RemoveNode string uuid Node
  | ModifyNode string uuid Node Node
  | AddEdge string uuid Edge
  | RemoveEdge string uuid Edge
  | AddGraph string Graph
  | RemoveGraph string Graph
  | AddCondition string ConditionDef
  | RemoveCondition string ConditionDef

text \<open>\<open>iter_mut().find\<close> on the graphs, with the error when there is none.\<close>

definition with_graph ::
  "(uuid \<Rightarrow> string) \<Rightarrow> uuid \<Rightarrow> (Graph \<Rightarrow> string + Graph) \<Rightarrow> Campaign \<Rightarrow> string + Campaign" where
  "with_graph uuid_text u f campaign =
     (case position_of (\<lambda>g. graph_id g = u) (camp_graphs campaign) of
        None \<Rightarrow> Inl (''Graph '' @ uuid_text u @ '' not found'')
      | Some i \<Rightarrow> map_res (\<lambda>g. campaign\<lparr>camp_graphs := (camp_graphs campaign)[i := g]\<rparr>) (f (camp_graphs campaign ! i)))"

text \<open>\<open>position\<close> of an id in a vector, with the error when there is none.\<close>

definition locate :: "(uuid \<Rightarrow> string) \<Rightarrow> string \<Rightarrow> ('a \<Rightarrow> uuid) \<Rightarrow> uuid \<Rightarrow> 'a list \<Rightarrow> string + nat" where
  "locate uuid_text what key u xs = ok_or (what @ '' '' @ uuid_text u @ '' not found'') (position_of (\<lambda>x. key x = u) xs)"

fun campaign_apply :: "(uuid \<Rightarrow> string) \<Rightarrow> CampaignCommand \<Rightarrow> Campaign \<Rightarrow> string + Campaign" where
  "campaign_apply uuid_text (AddNode name u node) campaign =
     with_graph uuid_text u (\<lambda>g. Inr (g\<lparr>graph_nodes := graph_nodes g @ [node]\<rparr>)) campaign"
| "campaign_apply uuid_text (RemoveNode name u node) campaign =
     with_graph uuid_text u
       (\<lambda>g. map_res (\<lambda>pos. g\<lparr>graph_nodes := vec_remove pos (graph_nodes g)\<rparr>)
              (locate uuid_text ''Node'' node_id (node_id node) (graph_nodes g))) campaign"
| "campaign_apply uuid_text (ModifyNode name u old_node new_node) campaign =
     with_graph uuid_text u
       (\<lambda>g. map_res (\<lambda>pos. g\<lparr>graph_nodes := (graph_nodes g)[pos := new_node]\<rparr>)
              (locate uuid_text ''Node'' node_id (node_id old_node) (graph_nodes g))) campaign"
| "campaign_apply uuid_text (AddEdge name u edge) campaign =
     with_graph uuid_text u (\<lambda>g. Inr (g\<lparr>graph_edges := graph_edges g @ [edge]\<rparr>)) campaign"
| "campaign_apply uuid_text (RemoveEdge name u edge) campaign =
     with_graph uuid_text u
       (\<lambda>g. map_res (\<lambda>pos. g\<lparr>graph_edges := vec_remove pos (graph_edges g)\<rparr>)
              (locate uuid_text ''Edge'' edge_id (edge_id edge) (graph_edges g))) campaign"
| "campaign_apply uuid_text (AddGraph name graph) campaign =
     (if list_ex (\<lambda>g. graph_id g = graph_id graph) (camp_graphs campaign)
      then Inl (''Graph '' @ uuid_text (graph_id graph) @ '' already exists'')
      else Inr (campaign\<lparr>camp_graphs := camp_graphs campaign @ [graph]\<rparr>))"
| "campaign_apply uuid_text (RemoveGraph name graph) campaign =
     map_res (\<lambda>pos. campaign\<lparr>camp_graphs := vec_remove pos (camp_graphs campaign)\<rparr>)
       (locate uuid_text ''Graph'' graph_id (graph_id graph) (camp_graphs campaign))"
| "campaign_apply uuid_text (AddCondition name condition) campaign =
     (if list_ex (\<lambda>c. condef_id c = condef_id condition) (camp_conditions campaign)
      then Inl (''Condition '' @ uuid_text (condef_id condition) @ '' already exists'')
      else Inr (campaign\<lparr>camp_conditions := camp_conditions campaign @ [condition]\<rparr>))"
| "campaign_apply uuid_text (RemoveCondition name condition) campaign =
     map_res (\<lambda>pos. campaign\<lparr>camp_conditions := vec_remove pos (camp_conditions campaign)\<rparr>)
       (locate uuid_text ''Condition'' condef_id (condef_id condition) (camp_conditions campaign))"

fun campaign_inverse :: "CampaignCommand \<Rightarrow> CampaignCommand" where
  "campaign_inverse (AddNode name u node) = RemoveNode name u node"
| "campaign_inverse (RemoveNode name u node) = AddNode name u node"
| "campaign_inverse (ModifyNode name u old_node new_node) = ModifyNode name u new_node old_node"
| "campaign_inverse (AddEdge name u edge) = RemoveEdge name u edge"
| "campaign_inverse (RemoveEdge name u edge) = AddEdge name u edge"
| "campaign_inverse (AddGraph name graph) = RemoveGraph name graph"
| "campaign_inverse (RemoveGraph name graph) = AddGraph name graph"
| "campaign_inverse (AddCondition name condition) = RemoveCondition name condition"
| "campaign_inverse (RemoveCondition name condition) = AddCondition name condition"

fun campaign_description :: "(uuid \<Rightarrow> string) \<Rightarrow> CampaignCommand \<Rightarrow> string" where
  "campaign_description uuid_text (AddNode name u node) =
     ''Add Node '' @ quoted (node_type node) @ '' to graph '' @ uuid_text u"
| "campaign_description uuid_text (RemoveNode name u node) =
     ''Remove Node '' @ quoted (node_type node) @ '' from graph '' @ uuid_text u"
| "campaign_description uuid_text (ModifyNode name u old_node new_node) =
     ''Modify Node '' @ uuid_text (node_id old_node) @ '' in graph '' @ uuid_text u"
| "campaign_description uuid_text (AddEdge name u edge) =
     ''Add Edge '' @ uuid_text (edge_from edge) @ '' '' @ right_arrow @ '' '' @ uuid_text (edge_to edge)
       @ '' in graph '' @ uuid_text u"
| "campaign_description uuid_text (RemoveEdge name u edge) =
     ''Remove Edge '' @ uuid_text (edge_id edge) @ '' from graph '' @ uuid_text u"
| "campaign_description uuid_text (AddGraph name graph) = ''Add Graph '' @ quoted (graph_name graph)"
| "campaign_description uuid_text (RemoveGraph name graph) = ''Remove Graph '' @ quoted (graph_name graph)"
| "campaign_description uuid_text (AddCondition name condition) = ''Add Condition '' @ uuid_text (condef_id condition)"
| "campaign_description uuid_text (RemoveCondition name condition) =
     ''Remove Condition '' @ uuid_text (condef_id condition)"

definition CampaignCommands :: "(uuid \<Rightarrow> string) \<Rightarrow> (CampaignCommand, Campaign) CommandTrait" where
  "CampaignCommands uuid_text =
     \<lparr>cmd_apply = campaign_apply uuid_text, cmd_inverse = campaign_inverse, cmd_description = campaign_description uuid_text\<rparr>"

lemma CampaignCommands_simps [simp]:
  "cmd_apply (CampaignCommands U) = campaign_apply U" "cmd_inverse (CampaignCommands U) = campaign_inverse"
  "cmd_description (CampaignCommands U) = campaign_description U"
  by (simp_all add: CampaignCommands_def)

section \<open>Vectors looked up by id\<close>

definition by_id :: "('a \<Rightarrow> uuid) \<Rightarrow> ('a \<Rightarrow> 'b) \<Rightarrow> 'a list \<Rightarrow> uuid \<Rightarrow> 'b option" where
  "by_id key f xs = map_of (map (\<lambda>x. (key x, f x)) xs)"

lemma by_id_Nil [simp]: "by_id key f [] = Map.empty"
  by (simp add: by_id_def)

lemma by_id_Cons [simp]: "by_id key f (x # xs) = (by_id key f xs)(key x \<mapsto> f x)"
  by (simp add: by_id_def)

lemma by_id_None: "by_id key f xs u = None \<longleftrightarrow> u \<notin> key ` set xs"
  by (induction xs) auto

lemma by_id_snoc: "key x \<notin> key ` set xs \<Longrightarrow> by_id key f (xs @ [x]) = (by_id key f xs)(key x \<mapsto> f x)"
  by (induction xs) (auto simp: fun_upd_twist)

lemma position_of_key: "position_of (\<lambda>x. key x = u) xs = None \<longleftrightarrow> u \<notin> key ` set xs"
  by (auto simp: position_of_None)

lemma by_id_position:
  "position_of (\<lambda>x. key x = u) xs = Some i \<Longrightarrow> by_id key f xs u = Some (f (xs ! i))"
  by (induction xs arbitrary: i) (auto split: if_splits)

lemma by_id_remove:
  assumes "distinct (map key xs)" "position_of (\<lambda>x. key x = u) xs = Some i"
  shows "by_id key f (vec_remove i xs) = (by_id key f xs)(u := None) \<and> distinct (map key (vec_remove i xs))
    \<and> set (vec_remove i xs) \<subseteq> set xs"
  using assms
proof (induction xs arbitrary: i)
  case (Cons x xs)
  show ?case
  proof (cases "key x = u")
    case True
    with Cons.prems have "by_id key f xs u = None" "i = 0" by (auto simp: by_id_None)
    with True Cons.prems show ?thesis by (auto simp: vec_remove_def fun_upd_idem)
  next
    case False
    with Cons.prems obtain j where j: "position_of (\<lambda>x. key x = u) xs = Some j" "i = Suc j" by auto
    from Cons.IH [OF _ j(1)] Cons.prems(1) False j(2) show ?thesis
      by (auto simp: vec_remove_def fun_upd_twist)
  qed
qed simp

lemma by_id_update:
  assumes "distinct (map key xs)" "position_of (\<lambda>x. key x = u) xs = Some i" "key y = u \<or> key y \<notin> key ` set xs"
  shows "by_id key f (xs[i := y]) = (by_id key f xs)(u := None, key y \<mapsto> f y) \<and> distinct (map key (xs[i := y]))"
  using assms
proof (induction xs arbitrary: i)
  case (Cons x xs)
  show ?case
  proof (cases "key x = u")
    case True
    with Cons.prems have "by_id key f xs u = None" "i = 0" by (auto simp: by_id_None)
    with True Cons.prems show ?thesis by (auto simp: fun_upd_idem image_iff)
  next
    case False
    with Cons.prems obtain j where j: "position_of (\<lambda>x. key x = u) xs = Some j" "i = Suc j" by auto
    have "key x \<notin> key ` set (xs[j := y])"
      using Cons.prems(1,3) False set_update_subset_insert [of xs j y] by auto
    moreover have "key y \<noteq> key x" using Cons.prems(3) False by auto
    ultimately show ?thesis using Cons.IH [OF _ j(1)] Cons.prems(1,3) False j(2)
      by (auto simp: fun_upd_twist)
  qed
qed simp

lemma by_id_position_None: "position_of (\<lambda>x. key x = u) xs = None \<Longrightarrow> by_id key f xs u = None"
  by (simp add: position_of_key by_id_None)

lemma locate_Inl: "locate U what key u xs = Inl e \<Longrightarrow> by_id key f xs u = None"
  by (simp add: locate_def by_id_position_None)

lemma locate_Inr: "locate U what key u xs = Inr i \<Longrightarrow> by_id key f xs u = Some (f (xs ! i))"
  by (simp add: locate_def by_id_position)

lemma locate_remove:
  assumes "locate U what key u xs = Inr i" "distinct (map key xs)"
  shows "by_id key f (vec_remove i xs) = (by_id key f xs)(u := None)" "distinct (map key (vec_remove i xs))"
    "set (vec_remove i xs) \<subseteq> set xs"
  using by_id_remove [OF assms(2), of u i f] assms(1) by (auto simp: locate_def)

lemma locate_update:
  assumes "locate U what key u xs = Inr i" "distinct (map key xs)" "key y = u \<or> by_id key f xs (key y) = None"
  shows "by_id key f (xs[i := y]) = (by_id key f xs)(u := None, key y \<mapsto> f y)"
  using by_id_update [OF assms(2), of u i y f] assms(1,3) by (auto simp: locate_def by_id_None)

lemma locate_update_distinct:
  assumes "locate U what key u xs = Inr i" "distinct (map key xs)" "key y = u \<or> by_id key (\<lambda>x. x) xs (key y) = None"
  shows "distinct (map key (xs[i := y]))"
  using by_id_update [OF assms(2), of u i y "\<lambda>x. x"] assms(1,3) by (auto simp: locate_def by_id_None)

section \<open>Campaigns up to order\<close>

record GraphView =
  gv_name :: string
  gv_entry :: uuid
  gv_nodes :: "uuid \<Rightarrow> Node option"
  gv_edges :: "uuid \<Rightarrow> Edge option"

definition view_graph :: "Graph \<Rightarrow> GraphView" where
  "view_graph g = \<lparr>gv_name = graph_name g, gv_entry = graph_entry_node g,
     gv_nodes = by_id node_id (\<lambda>n. n) (graph_nodes g), gv_edges = by_id edge_id (\<lambda>e. e) (graph_edges g)\<rparr>"

record CampaignView =
  cv_rest :: Campaign
  cv_graphs :: "uuid \<Rightarrow> GraphView option"
  cv_conditions :: "uuid \<Rightarrow> ConditionDef option"

definition view_campaign :: "Campaign \<Rightarrow> CampaignView" where
  "view_campaign c = \<lparr>cv_rest = c\<lparr>camp_graphs := [], camp_conditions := []\<rparr>,
     cv_graphs = by_id graph_id view_graph (camp_graphs c), cv_conditions = by_id condef_id (\<lambda>d. d) (camp_conditions c)\<rparr>"

definition ids_unique_graph :: "Graph \<Rightarrow> bool" where
  "ids_unique_graph g \<longleftrightarrow> distinct (map node_id (graph_nodes g)) \<and> distinct (map edge_id (graph_edges g))"

definition ids_unique :: "Campaign \<Rightarrow> bool" where
  "ids_unique c \<longleftrightarrow> list_all ids_unique_graph (camp_graphs c) \<and> distinct (map graph_id (camp_graphs c))
    \<and> distinct (map condef_id (camp_conditions c))"

text \<open>The commands on views.\<close>

definition on_graph :: "uuid \<Rightarrow> (GraphView \<Rightarrow> GraphView option) \<Rightarrow> CampaignView \<Rightarrow> CampaignView option" where
  "on_graph u f v =
     (case cv_graphs v u of
        None \<Rightarrow> None
      | Some g \<Rightarrow> map_option (\<lambda>g'. v\<lparr>cv_graphs := (cv_graphs v)(u \<mapsto> g')\<rparr>) (f g))"

fun view_apply :: "CampaignCommand \<Rightarrow> CampaignView \<Rightarrow> CampaignView option" where
  "view_apply (AddNode name u n) v = on_graph u (\<lambda>g. Some (g\<lparr>gv_nodes := (gv_nodes g)(node_id n \<mapsto> n)\<rparr>)) v"
| "view_apply (RemoveNode name u n) v =
     on_graph u (\<lambda>g. if gv_nodes g (node_id n) = None then None
                      else Some (g\<lparr>gv_nodes := (gv_nodes g)(node_id n := None)\<rparr>)) v"
| "view_apply (ModifyNode name u old_node new_node) v =
     on_graph u (\<lambda>g. if gv_nodes g (node_id old_node) = None then None
                      else Some (g\<lparr>gv_nodes := (gv_nodes g)(node_id old_node := None, node_id new_node \<mapsto> new_node)\<rparr>)) v"
| "view_apply (AddEdge name u e) v = on_graph u (\<lambda>g. Some (g\<lparr>gv_edges := (gv_edges g)(edge_id e \<mapsto> e)\<rparr>)) v"
| "view_apply (RemoveEdge name u e) v =
     on_graph u (\<lambda>g. if gv_edges g (edge_id e) = None then None
                      else Some (g\<lparr>gv_edges := (gv_edges g)(edge_id e := None)\<rparr>)) v"
| "view_apply (AddGraph name g) v =
     (if cv_graphs v (graph_id g) \<noteq> None then None
      else Some (v\<lparr>cv_graphs := (cv_graphs v)(graph_id g \<mapsto> view_graph g)\<rparr>))"
| "view_apply (RemoveGraph name g) v =
     (if cv_graphs v (graph_id g) = None then None else Some (v\<lparr>cv_graphs := (cv_graphs v)(graph_id g := None)\<rparr>))"
| "view_apply (AddCondition name c) v =
     (if cv_conditions v (condef_id c) \<noteq> None then None
      else Some (v\<lparr>cv_conditions := (cv_conditions v)(condef_id c \<mapsto> c)\<rparr>))"
| "view_apply (RemoveCondition name c) v =
     (if cv_conditions v (condef_id c) = None then None
      else Some (v\<lparr>cv_conditions := (cv_conditions v)(condef_id c := None)\<rparr>))"

text \<open>A command is admissible when the ids it adds are new and the contents it stores are those it is about to change.\<close>

definition graph_admits :: "uuid \<Rightarrow> (GraphView \<Rightarrow> bool) \<Rightarrow> CampaignView \<Rightarrow> bool" where
  "graph_admits u p v \<longleftrightarrow> (case cv_graphs v u of None \<Rightarrow> True | Some g \<Rightarrow> p g)"

fun admissible :: "CampaignCommand \<Rightarrow> CampaignView \<Rightarrow> bool" where
  "admissible (AddNode name u n) v \<longleftrightarrow> graph_admits u (\<lambda>g. gv_nodes g (node_id n) = None) v"
| "admissible (RemoveNode name u n) v \<longleftrightarrow>
     graph_admits u (\<lambda>g. gv_nodes g (node_id n) = None \<or> gv_nodes g (node_id n) = Some n) v"
| "admissible (ModifyNode name u old_node new_node) v \<longleftrightarrow>
     graph_admits u (\<lambda>g. (gv_nodes g (node_id old_node) = None \<or> gv_nodes g (node_id old_node) = Some old_node)
       \<and> (node_id new_node = node_id old_node \<or> gv_nodes g (node_id new_node) = None)) v"
| "admissible (AddEdge name u e) v \<longleftrightarrow> graph_admits u (\<lambda>g. gv_edges g (edge_id e) = None) v"
| "admissible (RemoveEdge name u e) v \<longleftrightarrow>
     graph_admits u (\<lambda>g. gv_edges g (edge_id e) = None \<or> gv_edges g (edge_id e) = Some e) v"
| "admissible (AddGraph name g) v \<longleftrightarrow> ids_unique_graph g"
| "admissible (RemoveGraph name g) v \<longleftrightarrow>
     ids_unique_graph g \<and> graph_admits (graph_id g) (\<lambda>gv. gv = view_graph g) v"
| "admissible (AddCondition name c) v \<longleftrightarrow> True"
| "admissible (RemoveCondition name c) v \<longleftrightarrow>
     cv_conditions v (condef_id c) = None \<or> cv_conditions v (condef_id c) = Some c"

definition campaign_recorded :: "CampaignCommand \<Rightarrow> Campaign \<Rightarrow> bool" where
  "campaign_recorded c campaign \<longleftrightarrow> ids_unique campaign \<and> admissible c (view_campaign campaign)"

definition same_campaign :: "Campaign \<Rightarrow> Campaign \<Rightarrow> bool" where
  "same_campaign c d \<longleftrightarrow> ids_unique c \<and> ids_unique d \<and> view_campaign c = view_campaign d"

lemma ids_unique_nth: "ids_unique c \<Longrightarrow> i < length (camp_graphs c) \<Longrightarrow> ids_unique_graph (camp_graphs c ! i)"
  by (simp add: ids_unique_def list_all_length)

text \<open>A change of the graph that is found, one that keeps its id.\<close>

lemma with_graph_view:
  assumes u: "ids_unique c" and admits: "graph_admits gid p (view_campaign c)"
    and step: "\<And>g. ids_unique_graph g \<Longrightarrow> graph_id g = gid \<Longrightarrow> p (view_graph g) \<Longrightarrow>
      (case f g of Inl e \<Rightarrow> f' (view_graph g) = None
       | Inr g' \<Rightarrow> graph_id g' = gid \<and> ids_unique_graph g' \<and> f' (view_graph g) = Some (view_graph g'))"
  shows "case with_graph U gid f c of
      Inl e \<Rightarrow> on_graph gid f' (view_campaign c) = None
    | Inr c' \<Rightarrow> ids_unique c' \<and> on_graph gid f' (view_campaign c) = Some (view_campaign c')"
proof (cases "position_of (\<lambda>g. graph_id g = gid) (camp_graphs c)")
  case None
  then show ?thesis
    by (simp add: with_graph_def on_graph_def view_campaign_def by_id_position_None)
next
  case (Some i)
  let ?g = "camp_graphs c ! i"
  note i = position_of_Some [OF Some]
  have g: "by_id graph_id view_graph (camp_graphs c) gid = Some (view_graph ?g)" by (rule by_id_position [OF Some])
  have p: "p (view_graph ?g)" using admits g by (simp add: graph_admits_def view_campaign_def)
  note s = step [OF ids_unique_nth [OF u] _ p]
  show ?thesis
  proof (cases "f ?g")
    case (Inl e)
    with s i g Some show ?thesis by (simp add: with_graph_def on_graph_def view_campaign_def)
  next
    case (Inr g')
    with s i have g': "graph_id g' = gid" "ids_unique_graph g'" "f' (view_graph ?g) = Some (view_graph g')" by auto
    have d: "distinct (map graph_id (camp_graphs c))" using u by (simp add: ids_unique_def)
    from by_id_update [OF d Some, of g' view_graph] g'(1)
    have upd: "by_id graph_id view_graph ((camp_graphs c)[i := g']) = (by_id graph_id view_graph (camp_graphs c))(gid \<mapsto> view_graph g')"
      "distinct (map graph_id ((camp_graphs c)[i := g']))" by auto
    have "list_all ids_unique_graph ((camp_graphs c)[i := g'])"
      using u g'(2) set_update_subset_insert [of "camp_graphs c" i g'] by (auto simp: ids_unique_def list_all_iff)
    with u upd Inr g'(3) g Some show ?thesis
      by (simp add: with_graph_def on_graph_def view_campaign_def ids_unique_def)
  qed
qed

lemmas locating = locate_Inl locate_Inr locate_remove locate_update locate_update_distinct

lemma campaign_apply_view:
  assumes "ids_unique c" and "admissible cmd (view_campaign c)"
  shows "case campaign_apply U cmd c of
      Inl e \<Rightarrow> view_apply cmd (view_campaign c) = None
    | Inr c' \<Rightarrow> ids_unique c' \<and> view_apply cmd (view_campaign c) = Some (view_campaign c')"
proof (cases cmd)
  case (AddNode name gid n)
  show ?thesis unfolding AddNode campaign_apply.simps view_apply.simps
    by (rule with_graph_view [OF assms(1) assms(2) [unfolded AddNode admissible.simps]])
      (simp add: ids_unique_graph_def view_graph_def by_id_snoc by_id_None)
next
  case (AddEdge name gid e)
  show ?thesis unfolding AddEdge campaign_apply.simps view_apply.simps
    by (rule with_graph_view [OF assms(1) assms(2) [unfolded AddEdge admissible.simps]])
      (simp add: ids_unique_graph_def view_graph_def by_id_snoc by_id_None)
next
  case (RemoveNode name gid n)
  show ?thesis unfolding RemoveNode campaign_apply.simps view_apply.simps
    by (rule with_graph_view [OF assms(1) assms(2) [unfolded RemoveNode admissible.simps]])
      (auto simp: ids_unique_graph_def view_graph_def locating split: sum.split)
next
  case (RemoveEdge name gid e)
  show ?thesis unfolding RemoveEdge campaign_apply.simps view_apply.simps
    by (rule with_graph_view [OF assms(1) assms(2) [unfolded RemoveEdge admissible.simps]])
      (auto simp: ids_unique_graph_def view_graph_def locating split: sum.split)
next
  case (ModifyNode name gid n n')
  show ?thesis unfolding ModifyNode campaign_apply.simps view_apply.simps
    by (rule with_graph_view [OF assms(1) assms(2) [unfolded ModifyNode admissible.simps]])
      (auto simp: ids_unique_graph_def view_graph_def locating split: sum.split)
next
  case (AddGraph name g)
  with assms show ?thesis
    by (auto simp: view_campaign_def ids_unique_def by_id_None by_id_snoc list_ex_iff image_iff)
next
  case (RemoveGraph name g)
  with assms show ?thesis
    by (auto simp: view_campaign_def ids_unique_def locating list_all_iff split: sum.split dest: locate_remove(3) [THEN subsetD])
next
  case (AddCondition name d)
  with assms show ?thesis
    by (auto simp: view_campaign_def ids_unique_def by_id_None by_id_snoc list_ex_iff image_iff)
next
  case (RemoveCondition name d)
  with assms show ?thesis
    by (auto simp: view_campaign_def ids_unique_def locating split: sum.split)
qed

lemma on_graph_back:
  assumes "on_graph u f v = Some v'" and "graph_admits u p v"
    and "\<And>g g'. p g \<Longrightarrow> f g = Some g' \<Longrightarrow> p' g' \<and> f' g' = Some g"
  shows "graph_admits u p' v' \<and> on_graph u f' v' = Some v"
  using assms by (auto simp: on_graph_def graph_admits_def fun_upd_idem split: option.splits)

lemma gv_update_id [simp]:
  "gv_nodes g u = x \<Longrightarrow> g\<lparr>gv_nodes := (gv_nodes g)(u := x)\<rparr> = g"
  "gv_nodes g u = x \<Longrightarrow> gv_nodes g w = z \<Longrightarrow> g\<lparr>gv_nodes := (gv_nodes g)(w := z, u := x)\<rparr> = g"
  "gv_edges g u = y \<Longrightarrow> g\<lparr>gv_edges := (gv_edges g)(u := y)\<rparr> = g"
  by (cases g; auto)+

lemma view_inverts:
  assumes "admissible cmd v" and "view_apply cmd v = Some v'"
  shows "admissible (campaign_inverse cmd) v' \<and> view_apply (campaign_inverse cmd) v' = Some v"
proof (cases cmd)
  case (AddNode name gid n)
  with assms show ?thesis by (auto elim!: on_graph_back)
next
  case (AddEdge name gid e)
  with assms show ?thesis by (auto elim!: on_graph_back)
next
  case (RemoveNode name gid n)
  with assms show ?thesis by (auto elim!: on_graph_back split: if_splits)
next
  case (RemoveEdge name gid e)
  with assms show ?thesis by (auto elim!: on_graph_back split: if_splits)
next
  case (ModifyNode name gid n n')
  with assms show ?thesis by (auto elim!: on_graph_back split: if_splits)
next
  case (RemoveGraph name g)
  with assms show ?thesis by (auto simp: graph_admits_def fun_upd_idem split: if_splits option.splits)
qed (use assms in \<open>auto simp: graph_admits_def fun_upd_idem split: if_splits\<close>)

interpretation campaign: reversible_commands "CampaignCommands U" campaign_recorded same_campaign for U
proof unfold_locales
  fix c :: CampaignCommand and s s' t :: Campaign
  assume r: "campaign_recorded c s" and a: "cmd_apply (CampaignCommands U) c s = Inr s'"
  then have u: "ids_unique s" "admissible c (view_campaign s)" by (simp_all add: campaign_recorded_def)
  from campaign_apply_view [OF u, of U] a
  have s': "ids_unique s'" "view_apply c (view_campaign s) = Some (view_campaign s')" by simp_all
  show "\<exists>t'. cmd_apply (CampaignCommands U) c t = Inr t' \<and> same_campaign s' t'" if "same_campaign s t"
  proof -
    from that u have "ids_unique t" "admissible c (view_campaign t)" by (simp_all add: same_campaign_def)
    from campaign_apply_view [OF this, of U] s' that show ?thesis
      by (auto simp: same_campaign_def split: sum.splits)
  qed
  show "\<exists>t. cmd_apply (CampaignCommands U) (cmd_inverse (CampaignCommands U) c) t' = Inr t \<and> same_campaign s t"
    if "same_campaign s' t'" for t'
  proof -
    from view_inverts [OF u(2) s'(2)] that
    have "ids_unique t'" "admissible (campaign_inverse c) (view_campaign t')"
      "view_apply (campaign_inverse c) (view_campaign t') = Some (view_campaign s)"
      by (simp_all add: same_campaign_def)
    from campaign_apply_view [OF this(1,2), of U] this(3) u(1) show ?thesis
      by (auto simp: same_campaign_def split: sum.splits)
  qed
qed (auto simp: same_campaign_def campaign_recorded_def)

lemma fresh_campaign: "ids_unique p \<Longrightarrow> campaign.timeline U (with_max limit, p)"
  by (rule campaign.fresh_timeline) (simp_all add: with_max_def same_campaign_def)

lemma campaign_session_timeline:
  "session (CampaignCommands U) campaign_recorded (with_max limit, p0) x \<Longrightarrow> ids_unique p0 \<Longrightarrow> campaign.timeline U x"
  by (erule campaign.session_timeline) (rule fresh_campaign)

section \<open>Properties\<close>

definition node4 :: "uuid \<Rightarrow> Node" where
  "node4 u = Node_new u ''questing.Hearth'' Intent_new"

definition route4 :: Campaign where
  "route4 = (Campaign_new 1 ''route'')\<lparr>camp_graphs := [(Graph_new 2 ''main'' 3)\<lparr>graph_nodes := [node4 3, node4 4]\<rparr>]\<rparr>"

definition edits4 :: "CampaignCommand list" where
  "edits4 = [AddNode ''route'' 2 (node4 5), RemoveNode ''route'' 2 (node4 3), AddGraph ''route'' (Graph_new 6 ''side'' 7),
             AddEdge ''route'' 2 (Edge_new 8 4 5), ModifyNode ''route'' 2 (node4 4) (Node_new 9 ''questing.Travel'' Intent_new)]"

lemma edits4_admitted: "admitted (CampaignCommands (\<lambda>u. [])) campaign_recorded edits4 route4"
  by code_simp

text \<open>In every editing session of a campaign whose ids are unique, an undo that is offered succeeds and the redo after it
  restores both stacks exactly and the campaign up to the order of its parts, and so does the undo after a redo.\<close>

theorem campaign_undo_redo:
  assumes "session (CampaignCommands U) campaign_recorded (with_max limit, p0) (h, p)" and "ids_unique p0"
  shows "(can_undo h \<longrightarrow> (\<exists>d h' p' q. undo (CampaignCommands U) h p = (Inr d, h', p')
      \<and> redo (CampaignCommands U) h' p' = (Inr d, h, q) \<and> same_campaign p q))
    \<and> (can_redo h \<longrightarrow> (\<exists>d h' p' q. redo (CampaignCommands U) h p = (Inr d, h', p')
      \<and> undo (CampaignCommands U) h' p' = (Inr d, h, q) \<and> same_campaign p q))"
proof -
  note t = campaign_session_timeline [OF assms]
  show ?thesis using campaign.undo_redo [OF t] campaign.redo_undo [OF t] by blast
qed

lemma campaign_undo_redo_witness:
  "let (h, p) = execute_all (CampaignCommands (\<lambda>u. [])) edits4 (with_max 3, route4)
   in length (undo_stack h) = 3
    \<and> (\<exists>d h' p' q. undo (CampaignCommands (\<lambda>u. [])) h p = (Inr d, h', p')
      \<and> redo (CampaignCommands (\<lambda>u. [])) h' p' = (Inr d, h, q) \<and> same_campaign p q)"
proof -
  let ?T = "CampaignCommands (\<lambda>u. [])"
  obtain h p where x: "execute_all ?T edits4 (with_max 3, route4) = (h, p)" by (metis surj_pair)
  have n: "length (undo_stack (fst (execute_all ?T edits4 (with_max 3, route4)))) = 3" by code_simp
  have u: "ids_unique route4" by code_simp
  from execute_all_session [OF session_start edits4_admitted, of "with_max 3"] x
  have "session ?T campaign_recorded (with_max 3, route4) (h, p)" by simp
  from campaign_undo_redo [OF this u] n x show ?thesis by (auto simp: can_undo_def)
qed

text \<open>Any run of recorded commands within the depth is undone, up to order, by as many undo calls.\<close>

lemma campaign_revert:
  assumes "admitted (CampaignCommands U) campaign_recorded cs p" and "ids_unique p" and "limit = 0 \<or> length cs \<le> limit"
  shows "same_campaign p
    (snd ((undo_call (CampaignCommands U) ^^ length cs) (execute_all (CampaignCommands U) cs (with_max limit, p))))"
proof -
  obtain h1 p1 where x: "execute_all (CampaignCommands U) cs (with_max limit, p) = (h1, p1)" by (metis surj_pair)
  have t: "session (CampaignCommands U) campaign_recorded (with_max limit, p) (h1, p1)"
    using execute_all_session [OF session_start assms(1), of "with_max limit"] x by simp
  have "same_campaign p1 p1"
    using campaign_session_timeline [OF t assms(2)] campaign.undoable_same by (fastforce simp: campaign.timeline_def)
  moreover from assms(3) have "fits (with_max limit) (length cs)" by (simp add: fits_def with_max_def)
  ultimately show ?thesis using campaign.revert [OF assms(1) _ x] x assms(2)
    by (cases "cs = []") (auto simp: same_campaign_def)
qed

lemma position_of_append: "position_of p xs = Some k \<Longrightarrow> position_of p (xs @ ys) = Some k"
  by (induction xs arbitrary: k) (auto split: if_splits)

lemma position_of_update: "position_of p xs = Some k \<Longrightarrow> p y \<Longrightarrow> position_of p (xs[k := y]) = Some k"
  by (induction xs arbitrary: k) (auto split: if_splits)

text \<open>Adding a node does not check that its id is new. The undo of such an addition removes the node that was there before
  and leaves the added one.\<close>

lemma duplicate_node_undo:
  assumes "position_of (\<lambda>g. graph_id g = u) (camp_graphs p) = Some i"
    and "position_of (\<lambda>n. node_id n = node_id node) (graph_nodes (camp_graphs p ! i)) = Some j"
    and "execute (CampaignCommands U) (AddNode name u node) h p = (r, h1, p1)"
  shows "\<exists>d h2 p2. r = Inr () \<and> undo (CampaignCommands U) h1 p1 = (Inr d, h2, p2)
    \<and> graph_nodes (camp_graphs p2 ! i) = vec_remove j (graph_nodes (camp_graphs p ! i)) @ [node]"
proof -
  let ?gs = "camp_graphs p" and ?g = "camp_graphs p ! i"
  let ?g1 = "?g\<lparr>graph_nodes := graph_nodes ?g @ [node]\<rparr>"
  have i: "i < length ?gs" "graph_id ?g = u" and j: "j < length (graph_nodes ?g)"
    using position_of_Some [OF assms(1)] position_of_Some [OF assms(2)] by auto
  have p1: "r = Inr ()" "p1 = p\<lparr>camp_graphs := ?gs[i := ?g1]\<rparr>"
    "last (undo_stack h1) = AddNode name u node" "undo_stack h1 \<noteq> []"
    using assms(1,3) by (auto simp: execute_def with_graph_def Let_def vec_remove_def split: if_splits)
  show ?thesis using i j position_of_update [OF assms(1), of ?g1] position_of_append [OF assms(2)] p1
    by (simp add: undo_def with_graph_def locate_def vec_remove_def)
qed

end
