(* ===== verification/Campaign_Store.thy ===== *)
theory Campaign_Store
  imports Editor_Api Zone_Map Campaign_History Resolver_Tasks
begin

text \<open>
  Campaign storage (\<^verbatim>\<open>editor/src/campaign_store.rs\<close>): one JSON file per campaign in a flat directory, named by the
  slug of the campaign's name.

  The directory is the list of its \<^verbatim>\<open>.json\<close> files by stem; a directory that does not exist is one without files.
  File operations succeed. The temporary file of \<open>atomic_write\<close> has another extension, so a write is the replacement
  of the file. Parameters (\<open>CampaignEnv\<close>) are the JSON library, the Unicode tables of the standard library for
  characters that are not ASCII, the modification times, the order of a directory scan and the text of ids.
\<close>

type_synonym CampaignFiles = "(string \<times> string) list"

record CampaignEnv =
  ce_lowercase :: "string \<Rightarrow> string"
  ce_alphanumeric :: "uchar \<Rightarrow> bool"
  ce_enc :: "Campaign \<Rightarrow> string + string"
  ce_dec :: "string \<Rightarrow> string + Campaign"
  ce_value :: "Campaign \<Rightarrow> Json option"
  ce_node :: "Json \<Rightarrow> string + Node"
  ce_edge :: "Json \<Rightarrow> string + Edge"
  ce_graph :: "Json \<Rightarrow> string + Graph"
  ce_condition :: "Json \<Rightarrow> string + ConditionDef"
  ce_uuid_text :: "uuid \<Rightarrow> string"
  ce_parse_uuid :: "string \<Rightarrow> uuid option"
  ce_modified :: "string \<Rightarrow> string option"
  ce_scan :: "CampaignFiles \<Rightarrow> CampaignFiles"

definition is_ascii :: "string \<Rightarrow> bool" where
  "is_ascii s \<longleftrightarrow> list_all (\<lambda>c. (of_char c :: nat) < 128) s"

definition to_lowercase :: "CampaignEnv \<Rightarrow> string \<Rightarrow> string" where
  "to_lowercase E s = (if is_ascii s then to_ascii_lowercase s else ce_lowercase E s)"

definition is_alphanumeric :: "CampaignEnv \<Rightarrow> uchar \<Rightarrow> bool" where
  "is_alphanumeric E c =
     (case c of [b] \<Rightarrow> if (of_char b :: nat) < 128 then ascii_alnum b else ce_alphanumeric E c | _ \<Rightarrow> ce_alphanumeric E c)"

definition slugify :: "CampaignEnv \<Rightarrow> string \<Rightarrow> string" where
  "slugify E name =
     concat (map (\<lambda>c. if is_alphanumeric E c \<or> c = ''-'' \<or> c = ''_'' then c else ''_'') (utf8_chars (to_lowercase E name)))"

definition format_timestamp :: "string option \<Rightarrow> string" where
  "format_timestamp modified = (case modified of Some t \<Rightarrow> t | None \<Rightarrow> ''unknown'')"

record CampaignSummary =
  csum_name :: string
  csum_id :: uuid
  csum_updated_at :: string
  csum_node_count :: nat
  csum_edge_count :: nat

definition node_count :: "Campaign \<Rightarrow> nat" where
  "node_count campaign = sum_list (map (\<lambda>g. length (graph_nodes g)) (camp_graphs campaign))"

definition edge_count :: "Campaign \<Rightarrow> nat" where
  "edge_count campaign = sum_list (map (\<lambda>g. length (graph_edges g)) (camp_graphs campaign))"

definition campaign_valid_name :: "string \<Rightarrow> EditorError + unit" where
  "campaign_valid_name name =
     (if name = [] \<or> str_contains name ''/'' \<or> str_contains name backslash \<or> str_contains name ''..''
      then Inl (InvalidName name) else Inr ())"

definition campaign_load_inner :: "CampaignEnv \<Rightarrow> CampaignFiles \<Rightarrow> string \<Rightarrow> EditorError + Campaign" where
  "campaign_load_inner E disk stem =
     (case map_of disk stem of
        None \<Rightarrow> Inl (NotFound stem)
      | Some json \<Rightarrow> (case ce_dec E json of Inl m \<Rightarrow> Inl (Serde m) | Inr campaign \<Rightarrow> Inr campaign))"

definition campaign_load :: "CampaignEnv \<Rightarrow> CampaignFiles \<Rightarrow> string \<Rightarrow> EditorError + Campaign" where
  "campaign_load E disk name =
     (case campaign_valid_name name of Inl e \<Rightarrow> Inl e | Inr _ \<Rightarrow> campaign_load_inner E disk (slugify E name))"

definition campaign_summary :: "string \<Rightarrow> Campaign \<Rightarrow> CampaignSummary" where
  "campaign_summary updated_at campaign =
     \<lparr>csum_name = camp_name campaign, csum_id = camp_id campaign, csum_updated_at = updated_at,
      csum_node_count = node_count campaign, csum_edge_count = edge_count campaign\<rparr>"

definition summary_entry :: "CampaignEnv \<Rightarrow> CampaignFiles \<Rightarrow> string \<Rightarrow> CampaignSummary" where
  "summary_entry E disk stem =
     (case campaign_load_inner E disk stem of
        Inr campaign \<Rightarrow> campaign_summary (format_timestamp (ce_modified E stem)) campaign
      | Inl _ \<Rightarrow>
          \<lparr>csum_name = stem, csum_id = 0, csum_updated_at = format_timestamp (ce_modified E stem),
           csum_node_count = 0, csum_edge_count = 0\<rparr>)"

definition campaign_list :: "CampaignEnv \<Rightarrow> CampaignFiles \<Rightarrow> CampaignSummary list" where
  "campaign_list E disk = sort_key csum_name (map (\<lambda>(stem, json). summary_entry E disk stem) (ce_scan E disk))"

definition campaign_create :: "CampaignEnv \<Rightarrow> uuid \<Rightarrow> CampaignFiles \<Rightarrow> string \<Rightarrow> (EditorError + Campaign) \<times> CampaignFiles" where
  "campaign_create E fresh disk name =
     (case campaign_valid_name name of
        Inl e \<Rightarrow> (Inl e, disk)
      | Inr _ \<Rightarrow>
          if map_of disk (slugify E name) \<noteq> None then (Inl (AlreadyExists name), disk)
          else let campaign = Campaign_new fresh name
               in case ce_enc E campaign of
                    Inl m \<Rightarrow> (Inl (Serde m), disk)
                  | Inr json \<Rightarrow> (Inr campaign, AList.update (slugify E name) json disk))"

definition campaign_save :: "CampaignEnv \<Rightarrow> CampaignFiles \<Rightarrow> Campaign \<Rightarrow> (EditorError + unit) \<times> CampaignFiles" where
  "campaign_save E disk campaign =
     (case campaign_valid_name (camp_name campaign) of
        Inl e \<Rightarrow> (Inl e, disk)
      | Inr _ \<Rightarrow>
          (case ce_enc E campaign of
             Inl m \<Rightarrow> (Inl (Serde m), disk)
           | Inr json \<Rightarrow> (Inr (), AList.update (slugify E (camp_name campaign)) json disk)))"

definition campaign_delete :: "CampaignEnv \<Rightarrow> CampaignFiles \<Rightarrow> string \<Rightarrow> (EditorError + unit) \<times> CampaignFiles" where
  "campaign_delete E disk name =
     (case campaign_valid_name name of
        Inl e \<Rightarrow> (Inl e, disk)
      | Inr _ \<Rightarrow>
          if map_of disk (slugify E name) = None then (Inl (NotFound name), disk)
          else (Inr (), AList.delete (slugify E name) disk))"

section \<open>What the operations promise\<close>

text \<open>A campaign with a JSON form that is read back as it was.\<close>

definition storable :: "CampaignEnv \<Rightarrow> Campaign \<Rightarrow> bool" where
  "storable E campaign \<longleftrightarrow> survives (ce_enc E) (ce_dec E) campaign"

lemma storableE:
  assumes "storable E campaign"
  obtains json where "ce_enc E campaign = Inr json" "ce_dec E json = Inr campaign"
  using assms unfolding storable_def by (rule survivesE)

text \<open>A campaign saved under a name is what every name with the same slug loads; other files are untouched.\<close>

lemma campaign_save_load:
  assumes "storable E campaign" "campaign_valid_name (camp_name campaign) = Inr ()"
  obtains disk' where "campaign_save E disk campaign = (Inr (), disk')"
    "\<And>stem. campaign_load_inner E disk' stem
      = (if stem = slugify E (camp_name campaign) then Inr campaign else campaign_load_inner E disk stem)"
proof -
  from assms(1) obtain json where json: "ce_enc E campaign = Inr json" "ce_dec E json = Inr campaign" by (rule storableE)
  show ?thesis
  proof (rule that)
    show "campaign_save E disk campaign = (Inr (), AList.update (slugify E (camp_name campaign)) json disk)"
      using assms(2) json by (simp add: campaign_save_def)
  qed (simp add: campaign_load_inner_def update_conv' json)
qed

lemma campaign_save_error: "campaign_save E disk campaign = (Inl e, disk') \<Longrightarrow> disk' = disk"
  by (auto simp: campaign_save_def split: sum.splits)

lemma campaign_create_load:
  assumes "campaign_create E fresh disk name = (Inr campaign, disk')" "storable E campaign"
  shows "campaign = Campaign_new fresh name" "campaign_valid_name name = Inr ()"
    "campaign_load_inner E disk' stem = (if stem = slugify E name then Inr campaign else campaign_load_inner E disk stem)"
proof -
  from assms(2) obtain json where json: "ce_enc E campaign = Inr json" "ce_dec E json = Inr campaign" by (rule storableE)
  with assms(1) show "campaign = Campaign_new fresh name" "campaign_valid_name name = Inr ()"
    "campaign_load_inner E disk' stem = (if stem = slugify E name then Inr campaign else campaign_load_inner E disk stem)"
    by (auto simp: campaign_create_def campaign_load_inner_def update_conv' Let_def split: sum.splits if_splits)
qed

lemma campaign_create_error: "campaign_create E fresh disk name = (Inl e, disk') \<Longrightarrow> disk' = disk"
  by (auto simp: campaign_create_def Let_def split: sum.splits if_splits)

lemma campaign_delete_load:
  assumes "campaign_delete E disk name = (r, disk')"
  shows "campaign_load_inner E disk' stem
    = (if r = Inr () \<and> stem = slugify E name then Inl (NotFound stem) else campaign_load_inner E disk stem)"
  using assms
  by (auto simp: campaign_delete_def campaign_load_inner_def delete_conv' split: sum.splits if_splits)

lemma campaign_delete_error: "campaign_delete E disk name = (Inl e, disk') \<Longrightarrow> disk' = disk"
  by (auto simp: campaign_delete_def split: sum.splits if_splits)

end
