(* ===== verification/Campaign_Handlers.thy ===== *)
theory Campaign_Handlers
  imports Campaign_Store
begin

text \<open>
  The HTTP handlers of the campaign editor (\<^verbatim>\<open>editor/src/campaign_handlers.rs\<close>): a state machine over the sessions
  in memory and the files on disk. A request is what its handler gets from the router after the framework has taken
  it apart; the reply of a failed request is its status code and message.

  A handler that changes a campaign holds the lock on the sessions from its first look at them until the file is
  written, so it is one step. \<open>handle_create_campaign\<close> and \<open>handle_delete_campaign\<close> touch the file and the sessions
  in two separate steps, which are definitions of their own.
\<close>

record CampaignSession =
  cs_campaign :: Campaign
  cs_history :: "CampaignCommand CommandHistory"

record CampaignState =
  cst_sessions :: "string \<Rightarrow> CampaignSession option"
  cst_disk :: CampaignFiles

record CompileCampaignResult =
  ccr_campaign_id :: uuid
  ccr_campaign_name :: string
  ccr_graph_count :: nat
  ccr_node_count :: nat
  ccr_edge_count :: nat
  ccr_message :: string

record CampaignDiagnostic =
  cdg_severity :: string
  cdg_code :: string
  cdg_message :: string
  cdg_node_id :: "uuid option"

datatype CampaignReply =
    ListReply "CampaignSummary list"
  | CreatedReply CampaignSummary
  | CampaignReply Json
  | DeleteReply bool
  | CompileReply CompileCampaignResult
  | ValidateReply "CampaignDiagnostic list"
  | UndoRedoReply string

type_synonym HttpError = "nat \<times> string"

definition editor_error_to_response :: "EditorError \<Rightarrow> HttpError" where
  "editor_error_to_response e =
     ((case e of NotFound _ \<Rightarrow> 404 | AlreadyExists _ \<Rightarrow> 409 | InvalidName _ \<Rightarrow> 400
       | Io _ \<Rightarrow> 500 | Serde _ \<Rightarrow> 500 | Compile _ \<Rightarrow> 500), error_text e)"

definition bad_request :: "string \<Rightarrow> HttpError" where
  "bad_request message = (400, message)"

definition internal_error :: "string \<Rightarrow> HttpError" where
  "internal_error message = (500, message)"

definition not_loaded :: "string \<Rightarrow> HttpError" where
  "not_loaded name = (404, ''Campaign '' @ quoted name @ '' not loaded. Load it first.'')"

section \<open>Listing, creating, loading, deleting\<close>

definition fresh_session :: "Campaign \<Rightarrow> CampaignSession" where
  "fresh_session campaign = \<lparr>cs_campaign = campaign, cs_history = history_new\<rparr>"

definition put_session :: "string \<Rightarrow> CampaignSession \<Rightarrow> CampaignState \<Rightarrow> CampaignState" where
  "put_session name sess st = st\<lparr>cst_sessions := (cst_sessions st)(name \<mapsto> sess)\<rparr>"

definition drop_session :: "string \<Rightarrow> CampaignState \<Rightarrow> CampaignState" where
  "drop_session name st = st\<lparr>cst_sessions := (cst_sessions st)(name := None)\<rparr>"

definition handle_list_campaigns :: "CampaignEnv \<Rightarrow> CampaignState \<Rightarrow> HttpError + CampaignReply" where
  "handle_list_campaigns E st = Inr (ListReply (campaign_list E (cst_disk st)))"

definition create_file :: "CampaignEnv \<Rightarrow> uuid \<Rightarrow> string \<Rightarrow> CampaignState \<Rightarrow> (HttpError + Campaign) \<times> CampaignState" where
  "create_file E fresh name st =
     (let (r, disk) = campaign_create E fresh (cst_disk st) name
      in (case r of Inl e \<Rightarrow> Inl (editor_error_to_response e) | Inr campaign \<Rightarrow> Inr campaign, st\<lparr>cst_disk := disk\<rparr>))"

definition handle_create_campaign ::
  "CampaignEnv \<Rightarrow> uuid \<Rightarrow> string \<Rightarrow> string \<Rightarrow> CampaignState \<Rightarrow> (HttpError + CampaignReply) \<times> CampaignState" where
  "handle_create_campaign E fresh now name st =
     (case create_file E fresh name st of
        (Inl e, st') \<Rightarrow> (Inl e, st')
      | (Inr campaign, st') \<Rightarrow>
          (Inr (CreatedReply (campaign_summary now campaign)), put_session (camp_name campaign) (fresh_session campaign) st'))"

definition campaign_value :: "CampaignEnv \<Rightarrow> Campaign \<Rightarrow> CampaignReply" where
  "campaign_value E campaign = CampaignReply (case ce_value E campaign of None \<Rightarrow> JNull | Some v \<Rightarrow> v)"

definition handle_load_campaign :: "CampaignEnv \<Rightarrow> string \<Rightarrow> CampaignState \<Rightarrow> (HttpError + CampaignReply) \<times> CampaignState" where
  "handle_load_campaign E name st =
     (case (case cst_sessions st name of
              Some _ \<Rightarrow> Inr st
            | None \<Rightarrow>
                (case campaign_load E (cst_disk st) name of
                   Inl e \<Rightarrow> Inl (editor_error_to_response e)
                 | Inr campaign \<Rightarrow> Inr (put_session name (fresh_session campaign) st))) of
        Inl e \<Rightarrow> (Inl e, st)
      | Inr st' \<Rightarrow>
          (case cst_sessions st' name of
             None \<Rightarrow> (Inl (404, ''Campaign '' @ quoted name @ '' not found''), st')
           | Some sess \<Rightarrow> (Inr (campaign_value E (cs_campaign sess)), st')))"

definition delete_file :: "CampaignEnv \<Rightarrow> string \<Rightarrow> CampaignState \<Rightarrow> (HttpError + CampaignReply) \<times> CampaignState" where
  "delete_file E name st =
     (let (r, disk) = campaign_delete E (cst_disk st) name
      in (case r of Inl e \<Rightarrow> Inl (editor_error_to_response e) | Inr _ \<Rightarrow> Inr (DeleteReply True), st\<lparr>cst_disk := disk\<rparr>))"

definition handle_delete_campaign :: "CampaignEnv \<Rightarrow> string \<Rightarrow> CampaignState \<Rightarrow> (HttpError + CampaignReply) \<times> CampaignState" where
  "handle_delete_campaign E name st = delete_file E name (drop_session name st)"

section \<open>Changing a campaign\<close>

text \<open>The auto-save: the session keeps its change also when the file is not written.\<close>

definition persist ::
  "CampaignEnv \<Rightarrow> string \<Rightarrow> CampaignSession \<Rightarrow> CampaignReply \<Rightarrow> CampaignState \<Rightarrow> (HttpError + CampaignReply) \<times> CampaignState" where
  "persist E name sess reply st =
     (let (r, disk) = campaign_save E (cst_disk st) (cs_campaign sess)
      in (case r of Inl e \<Rightarrow> Inl (editor_error_to_response e) | Inr _ \<Rightarrow> Inr reply,
          (put_session name sess st)\<lparr>cst_disk := disk\<rparr>))"

text \<open>The common part of the mutations: find the session, build the command from its campaign, execute it, save.\<close>

definition mutate ::
  "CampaignEnv \<Rightarrow> string \<Rightarrow> (Campaign \<Rightarrow> HttpError + CampaignCommand) \<Rightarrow> CampaignState
    \<Rightarrow> (HttpError + CampaignReply) \<times> CampaignState" where
  "mutate E name make_cmd st =
     (case cst_sessions st name of
        None \<Rightarrow> (Inl (not_loaded name), st)
      | Some sess \<Rightarrow>
          (case make_cmd (cs_campaign sess) of
             Inl e \<Rightarrow> (Inl e, st)
           | Inr cmd \<Rightarrow>
               (let (r, history, campaign) =
                      execute (CampaignCommands (ce_uuid_text E)) cmd (cs_history sess) (cs_campaign sess);
                    sess' = \<lparr>cs_campaign = campaign, cs_history = history\<rparr>
                in case r of
                     Inl m \<Rightarrow> (Inl (internal_error m), put_session name sess' st)
                   | Inr _ \<Rightarrow> persist E name sess' (campaign_value E campaign) st)))"

text \<open>\<open>from_value\<close> and \<open>parse_str\<close>, with the reply when they fail.\<close>

definition from_value :: "string \<Rightarrow> (Json \<Rightarrow> string + 'a) \<Rightarrow> Json \<Rightarrow> HttpError + 'a" where
  "from_value what dec v =
     (case dec v of Inl m \<Rightarrow> Inl (bad_request (''Invalid '' @ what @ '' JSON: '' @ m)) | Inr x \<Rightarrow> Inr x)"

definition parse_id :: "CampaignEnv \<Rightarrow> string \<Rightarrow> string \<Rightarrow> HttpError + uuid" where
  "parse_id E what text = ok_or (bad_request (''Invalid '' @ what @ '' UUID: '' @ text)) (ce_parse_uuid E text)"

definition find_graph :: "CampaignEnv \<Rightarrow> uuid \<Rightarrow> Campaign \<Rightarrow> HttpError + Graph" where
  "find_graph E u campaign =
     ok_or (bad_request (''Graph '' @ ce_uuid_text E u @ '' not found'')) (List.find (\<lambda>g. graph_id g = u) (camp_graphs campaign))"

definition find_node :: "CampaignEnv \<Rightarrow> uuid \<Rightarrow> uuid \<Rightarrow> Campaign \<Rightarrow> HttpError + Node" where
  "find_node E u n campaign =
     (case find_graph E u campaign of
        Inl e \<Rightarrow> Inl e
      | Inr g \<Rightarrow> ok_or (bad_request (''Node '' @ ce_uuid_text E n @ '' not found'')) (List.find (\<lambda>x. node_id x = n) (graph_nodes g)))"

definition find_edge :: "CampaignEnv \<Rightarrow> uuid \<Rightarrow> uuid \<Rightarrow> Campaign \<Rightarrow> HttpError + Edge" where
  "find_edge E u e campaign =
     (case find_graph E u campaign of
        Inl err \<Rightarrow> Inl err
      | Inr g \<Rightarrow> ok_or (bad_request (''Edge '' @ ce_uuid_text E e @ '' not found'')) (List.find (\<lambda>x. edge_id x = e) (graph_edges g)))"

definition handle_add_node ::
  "CampaignEnv \<Rightarrow> string \<Rightarrow> uuid \<Rightarrow> Json \<Rightarrow> CampaignState \<Rightarrow> (HttpError + CampaignReply) \<times> CampaignState" where
  "handle_add_node E name u v st =
     (case from_value ''Node'' (ce_node E) v of
        Inl e \<Rightarrow> (Inl e, st)
      | Inr node \<Rightarrow> mutate E name (\<lambda>campaign. Inr (AddNode name u node)) st)"

definition handle_update_node ::
  "CampaignEnv \<Rightarrow> string \<Rightarrow> string \<Rightarrow> uuid \<Rightarrow> Json \<Rightarrow> CampaignState \<Rightarrow> (HttpError + CampaignReply) \<times> CampaignState" where
  "handle_update_node E name node_text u v st =
     (case parse_id E ''node_id'' node_text of
        Inl e \<Rightarrow> (Inl e, st)
      | Inr n \<Rightarrow>
     (case from_value ''Node'' (ce_node E) v of
        Inl e \<Rightarrow> (Inl e, st)
      | Inr new_node \<Rightarrow>
          mutate E name (\<lambda>campaign. map_res (\<lambda>old_node. ModifyNode name u old_node new_node) (find_node E u n campaign)) st))"

definition handle_remove_node ::
  "CampaignEnv \<Rightarrow> string \<Rightarrow> string \<Rightarrow> uuid \<Rightarrow> CampaignState \<Rightarrow> (HttpError + CampaignReply) \<times> CampaignState" where
  "handle_remove_node E name node_text u st =
     (case parse_id E ''node_id'' node_text of
        Inl e \<Rightarrow> (Inl e, st)
      | Inr n \<Rightarrow> mutate E name (\<lambda>campaign. map_res (RemoveNode name u) (find_node E u n campaign)) st)"

definition handle_add_edge ::
  "CampaignEnv \<Rightarrow> string \<Rightarrow> uuid \<Rightarrow> Json \<Rightarrow> CampaignState \<Rightarrow> (HttpError + CampaignReply) \<times> CampaignState" where
  "handle_add_edge E name u v st =
     (case from_value ''Edge'' (ce_edge E) v of
        Inl e \<Rightarrow> (Inl e, st)
      | Inr edge \<Rightarrow> mutate E name (\<lambda>campaign. Inr (AddEdge name u edge)) st)"

definition handle_remove_edge ::
  "CampaignEnv \<Rightarrow> string \<Rightarrow> string \<Rightarrow> uuid \<Rightarrow> CampaignState \<Rightarrow> (HttpError + CampaignReply) \<times> CampaignState" where
  "handle_remove_edge E name edge_text u st =
     (case parse_id E ''edge_id'' edge_text of
        Inl e \<Rightarrow> (Inl e, st)
      | Inr n \<Rightarrow> mutate E name (\<lambda>campaign. map_res (RemoveEdge name u) (find_edge E u n campaign)) st)"

definition handle_add_graph ::
  "CampaignEnv \<Rightarrow> string \<Rightarrow> Json \<Rightarrow> CampaignState \<Rightarrow> (HttpError + CampaignReply) \<times> CampaignState" where
  "handle_add_graph E name v st =
     (case from_value ''Graph'' (ce_graph E) v of
        Inl e \<Rightarrow> (Inl e, st)
      | Inr graph \<Rightarrow> mutate E name (\<lambda>campaign. Inr (AddGraph name graph)) st)"

definition handle_add_condition ::
  "CampaignEnv \<Rightarrow> string \<Rightarrow> Json \<Rightarrow> CampaignState \<Rightarrow> (HttpError + CampaignReply) \<times> CampaignState" where
  "handle_add_condition E name v st =
     (case from_value ''ConditionDef'' (ce_condition E) v of
        Inl e \<Rightarrow> (Inl e, st)
      | Inr condition \<Rightarrow> mutate E name (\<lambda>campaign. Inr (AddCondition name condition)) st)"

text \<open>Undo and redo: a failed one has taken its command off the stack, and nothing is saved.\<close>

definition step_history ::
  "CampaignEnv \<Rightarrow> string \<Rightarrow> (CampaignCommand CommandHistory \<Rightarrow> Campaign \<Rightarrow> (string + string) \<times> CampaignCommand CommandHistory \<times> Campaign)
    \<Rightarrow> CampaignState \<Rightarrow> (HttpError + CampaignReply) \<times> CampaignState" where
  "step_history E name move st =
     (case cst_sessions st name of
        None \<Rightarrow> (Inl (not_loaded name), st)
      | Some sess \<Rightarrow>
          (let (r, history, campaign) = move (cs_history sess) (cs_campaign sess);
               sess' = \<lparr>cs_campaign = campaign, cs_history = history\<rparr>
           in case r of
                Inl m \<Rightarrow> (Inl (bad_request m), put_session name sess' st)
              | Inr description \<Rightarrow> persist E name sess' (UndoRedoReply description) st))"

definition handle_undo_campaign ::
  "CampaignEnv \<Rightarrow> string \<Rightarrow> CampaignState \<Rightarrow> (HttpError + CampaignReply) \<times> CampaignState" where
  "handle_undo_campaign E name st = step_history E name (undo (CampaignCommands (ce_uuid_text E))) st"

definition handle_redo_campaign ::
  "CampaignEnv \<Rightarrow> string \<Rightarrow> CampaignState \<Rightarrow> (HttpError + CampaignReply) \<times> CampaignState" where
  "handle_redo_campaign E name st = step_history E name (redo (CampaignCommands (ce_uuid_text E))) st"

section \<open>Compile and validate\<close>

definition handle_compile_campaign :: "CampaignEnv \<Rightarrow> string \<Rightarrow> CampaignState \<Rightarrow> HttpError + CampaignReply" where
  "handle_compile_campaign E name st =
     (case campaign_load E (cst_disk st) name of
        Inl e \<Rightarrow> Inl (editor_error_to_response e)
      | Inr campaign \<Rightarrow>
          Inr (CompileReply \<lparr>ccr_campaign_id = camp_id campaign, ccr_campaign_name = camp_name campaign,
            ccr_graph_count = length (camp_graphs campaign), ccr_node_count = node_count campaign,
            ccr_edge_count = edge_count campaign,
            ccr_message = ''Campaign compile '' @ em_dash @ '' full pipeline available in a later phase''\<rparr>))"

text \<open>\<open>f64 as i64\<close>: truncated and saturated, a NaN is 0.\<close>

definition f64_as_i64 :: "f64 \<Rightarrow> int" where
  "f64_as_i64 x =
     (let lower = - (2 ^ 63); upper = 2 ^ 63 - 1
      in if \<not> f64_is_finite x then (if f64_fraction x \<noteq> 0 then 0 else if f64_sign x then lower else upper)
         else let m = int (f64_mantissa x); e = f64_exponent x;
                  magnitude = (if 0 \<le> e then m * 2 ^ nat e else m div 2 ^ nat (- e));
                  signed = (if f64_sign x then - magnitude else magnitude)
              in if signed < lower then lower else if signed > upper then upper else signed)"

definition quest_id_of :: "Node \<Rightarrow> int option" where
  "quest_id_of node =
     (case intent_get (node_intent node) ''quest_id'' of
        Some (IInt v) \<Rightarrow> Some (sint v)
      | Some (IFloat v) \<Rightarrow> Some (f64_as_i64 v)
      | Some (IText v) \<Rightarrow> parse_i64 v
      | _ \<Rightarrow> None)"

definition accepted_quests :: "Graph \<Rightarrow> int list" where
  "accepted_quests graph = List.map_filter quest_id_of (filter (\<lambda>n. node_type n = ''questing.AcceptQuest'') (graph_nodes graph))"

definition missing_accept :: "Graph \<Rightarrow> Node \<Rightarrow> CampaignDiagnostic list" where
  "missing_accept graph node =
     (if node_type node \<noteq> ''questing.TurnInQuest'' then []
      else case quest_id_of node of
             None \<Rightarrow> []
           | Some quest \<Rightarrow>
               if quest \<in> set (accepted_quests graph) then []
               else [\<lparr>cdg_severity = ''error'', cdg_code = ''MISSING_ACCEPT'',
                      cdg_message = ''TurnInQuest('' @ show_int quest @ '') has no AcceptQuest('' @ show_int quest
                        @ '') in graph '' @ quoted (graph_name graph),
                      cdg_node_id = Some (node_id node)\<rparr>])"

definition validate_campaign :: "Campaign \<Rightarrow> CampaignDiagnostic list" where
  "validate_campaign campaign =
     concat (map (\<lambda>graph. concat (map (missing_accept graph) (graph_nodes graph))) (camp_graphs campaign))"

definition handle_validate_campaign :: "CampaignEnv \<Rightarrow> string \<Rightarrow> CampaignState \<Rightarrow> HttpError + CampaignReply" where
  "handle_validate_campaign E name st =
     (case cst_sessions st name of
        Some sess \<Rightarrow> Inr (ValidateReply (validate_campaign (cs_campaign sess)))
      | None \<Rightarrow>
          (case campaign_load E (cst_disk st) name of
             Inl e \<Rightarrow> Inl (editor_error_to_response e)
           | Inr campaign \<Rightarrow> Inr (ValidateReply (validate_campaign campaign))))"

section \<open>The routes\<close>

datatype CampaignRequest =
    ListCampaigns
  | CreateCampaign uuid string string
  | LoadCampaign string
  | DeleteCampaign string
  | PostNode string uuid Json
  | PutNode string string uuid Json
  | DeleteNode string string uuid
  | PostEdge string uuid Json
  | DeleteEdge string string uuid
  | PostGraph string Json
  | PostCondition string Json
  | CompileCampaign string
  | ValidateCampaign string
  | UndoCampaign string
  | RedoCampaign string

fun campaign_request :: "CampaignEnv \<Rightarrow> CampaignRequest \<Rightarrow> CampaignState \<Rightarrow> (HttpError + CampaignReply) \<times> CampaignState" where
  "campaign_request E ListCampaigns st = (handle_list_campaigns E st, st)"
| "campaign_request E (CreateCampaign fresh now name) st = handle_create_campaign E fresh now name st"
| "campaign_request E (LoadCampaign name) st = handle_load_campaign E name st"
| "campaign_request E (DeleteCampaign name) st = handle_delete_campaign E name st"
| "campaign_request E (PostNode name u v) st = handle_add_node E name u v st"
| "campaign_request E (PutNode name n u v) st = handle_update_node E name n u v st"
| "campaign_request E (DeleteNode name n u) st = handle_remove_node E name n u st"
| "campaign_request E (PostEdge name u v) st = handle_add_edge E name u v st"
| "campaign_request E (DeleteEdge name n u) st = handle_remove_edge E name n u st"
| "campaign_request E (PostGraph name v) st = handle_add_graph E name v st"
| "campaign_request E (PostCondition name v) st = handle_add_condition E name v st"
| "campaign_request E (CompileCampaign name) st = (handle_compile_campaign E name st, st)"
| "campaign_request E (ValidateCampaign name) st = (handle_validate_campaign E name st, st)"
| "campaign_request E (UndoCampaign name) st = handle_undo_campaign E name st"
| "campaign_request E (RedoCampaign name) st = handle_redo_campaign E name st"

end
