(* ===== verification/Campaign_Server.thy ===== *)
theory Campaign_Server
  imports Campaign_Handlers
begin

text \<open>
  The campaign editor as a state machine: the states reached by a sequence of requests, and what holds in all of them.
  Sessions and files agree as long as no two names in use share a slug; an error leaves campaigns and files as they
  were; an undo that is offered succeeds when the ids clients add are new.
\<close>

section \<open>Requests that change a campaign\<close>

fun request_target :: "CampaignRequest \<Rightarrow> string option" where
  "request_target ListCampaigns = None"
| "request_target (CreateCampaign fresh now name) = Some name"
| "request_target (LoadCampaign name) = Some name"
| "request_target (DeleteCampaign name) = Some name"
| "request_target (PostNode name u v) = Some name"
| "request_target (PutNode name n u v) = Some name"
| "request_target (DeleteNode name n u) = Some name"
| "request_target (PostEdge name u v) = Some name"
| "request_target (DeleteEdge name n u) = Some name"
| "request_target (PostGraph name v) = Some name"
| "request_target (PostCondition name v) = Some name"
| "request_target (CompileCampaign name) = Some name"
| "request_target (ValidateCampaign name) = Some name"
| "request_target (UndoCampaign name) = Some name"
| "request_target (RedoCampaign name) = Some name"

text \<open>The command a mutation executes on the campaign of its session.\<close>

fun request_command :: "CampaignEnv \<Rightarrow> CampaignRequest \<Rightarrow> Campaign \<Rightarrow> HttpError + CampaignCommand" where
  "request_command E (PostNode name u v) campaign = map_res (AddNode name u) (from_value ''Node'' (ce_node E) v)"
| "request_command E (PutNode name n u v) campaign =
     (case (parse_id E ''node_id'' n, from_value ''Node'' (ce_node E) v) of
        (Inr n, Inr new_node) \<Rightarrow> map_res (\<lambda>old_node. ModifyNode name u old_node new_node) (find_node E u n campaign)
      | _ \<Rightarrow> Inl (bad_request []))"
| "request_command E (DeleteNode name n u) campaign =
     (case parse_id E ''node_id'' n of Inl e \<Rightarrow> Inl e | Inr n \<Rightarrow> map_res (RemoveNode name u) (find_node E u n campaign))"
| "request_command E (PostEdge name u v) campaign = map_res (AddEdge name u) (from_value ''Edge'' (ce_edge E) v)"
| "request_command E (DeleteEdge name n u) campaign =
     (case parse_id E ''edge_id'' n of Inl e \<Rightarrow> Inl e | Inr n \<Rightarrow> map_res (RemoveEdge name u) (find_edge E u n campaign))"
| "request_command E (PostGraph name v) campaign = map_res (AddGraph name) (from_value ''Graph'' (ce_graph E) v)"
| "request_command E (PostCondition name v) campaign =
     map_res (AddCondition name) (from_value ''ConditionDef'' (ce_condition E) v)"
| "request_command E _ campaign = Inl (bad_request [])"

definition is_mutation :: "CampaignRequest \<Rightarrow> bool" where
  "is_mutation req \<longleftrightarrow>
     (case req of PostNode _ _ _ \<Rightarrow> True | PutNode _ _ _ _ \<Rightarrow> True | DeleteNode _ _ _ \<Rightarrow> True | PostEdge _ _ _ \<Rightarrow> True
      | DeleteEdge _ _ _ \<Rightarrow> True | PostGraph _ _ \<Rightarrow> True | PostCondition _ _ \<Rightarrow> True | _ \<Rightarrow> False)"

lemma mutate_command: "(\<And>c. f c = g c) \<Longrightarrow> mutate E name f st = mutate E name g st"
  by (rule arg_cong [of _ _ "\<lambda>f. mutate E name f st"]) (rule ext)

lemma mutation_is_mutate:
  assumes "is_mutation req" "request_target req = Some name"
  shows "campaign_request E req st = mutate E name (request_command E req) st
    \<or> (\<exists>e. campaign_request E req st = (Inl e, st))"
  using assms
  by (cases req)
    (auto simp: is_mutation_def handle_add_node_def handle_update_node_def handle_remove_node_def handle_add_edge_def
      handle_remove_edge_def handle_add_graph_def handle_add_condition_def intro!: mutate_command split: sum.split)

lemma put_session_same: "cst_sessions st name = Some s \<Longrightarrow> put_session name s st = st"
  by (simp add: put_session_def fun_upd_idem)

lemma mutate_cases:
  assumes "mutate E name make_cmd st = (r, st')"
  obtains (unchanged) e where "r = Inl e" "st' = st"
  | (saved) s cmd h c where "cst_sessions st name = Some s" "make_cmd (cs_campaign s) = Inr cmd"
      "execute (CampaignCommands (ce_uuid_text E)) cmd (cs_history s) (cs_campaign s) = (Inr (), h, c)"
      "persist E name \<lparr>cs_campaign = c, cs_history = h\<rparr> (campaign_value E c) st = (r, st')"
proof (cases "cst_sessions st name")
  case None
  with assms show ?thesis by (auto simp: mutate_def intro: unchanged)
next
  case (Some s)
  show ?thesis
  proof (cases "make_cmd (cs_campaign s)")
    case (Inl e)
    with Some assms show ?thesis by (auto simp: mutate_def intro: unchanged)
  next
    case (Inr cmd)
    obtain q h c where q: "execute (CampaignCommands (ce_uuid_text E)) cmd (cs_history s) (cs_campaign s) = (q, h, c)"
      by (metis prod_cases3)
    show ?thesis
    proof (cases q)
      case (Inl m)
      with q have "h = cs_history s" "c = cs_campaign s" by (auto simp: execute_def Let_def split: sum.splits)
      with Some Inr Inl q assms have "r = Inl (internal_error m)" "st' = st"
        by (auto simp: mutate_def put_session_same)
      then show ?thesis by (rule unchanged)
    next
      case (Inr u)
      with Some \<open>make_cmd (cs_campaign s) = Inr cmd\<close> q assms show ?thesis
        by (intro saved) (auto simp: mutate_def)
    qed
  qed
qed

lemma with_graph_name: "with_graph U u f c = Inr c' \<Longrightarrow> camp_name c' = camp_name c"
  by (auto simp: with_graph_def split: option.splits)

lemma campaign_apply_name: "campaign_apply U cmd c = Inr c' \<Longrightarrow> camp_name c' = camp_name c"
  by (cases cmd) (auto dest: with_graph_name split: if_splits)

lemma execute_name: "execute (CampaignCommands U) cmd h c = (r, h', c') \<Longrightarrow> camp_name c' = camp_name c"
  by (auto simp: execute_def Let_def dest: campaign_apply_name split: sum.splits)

lemma undo_name: "undo (CampaignCommands U) h c = (r, h', c') \<Longrightarrow> camp_name c' = camp_name c \<and> (isl r \<longrightarrow> c' = c)"
  by (auto simp: undo_def Let_def dest: campaign_apply_name split: sum.splits if_splits)

lemma redo_name: "redo (CampaignCommands U) h c = (r, h', c') \<Longrightarrow> camp_name c' = camp_name c \<and> (isl r \<longrightarrow> c' = c)"
  by (auto simp: redo_def Let_def dest: campaign_apply_name split: sum.splits if_splits)

section \<open>Sessions and files in step\<close>

definition files_named :: "CampaignEnv \<Rightarrow> CampaignFiles \<Rightarrow> bool" where
  "files_named E disk \<longleftrightarrow> (\<forall>stem c. campaign_load_inner E disk stem = Inr c
     \<longrightarrow> slugify E (camp_name c) = stem \<and> campaign_valid_name (camp_name c) = Inr ())"

definition session_synced :: "CampaignEnv \<Rightarrow> CampaignFiles \<Rightarrow> string \<Rightarrow> CampaignSession \<Rightarrow> bool" where
  "session_synced E disk name s \<longleftrightarrow> campaign_valid_name name = Inr ()
     \<and> campaign_load_inner E disk (slugify E name) = Inr (cs_campaign s)"

definition in_sync :: "CampaignEnv \<Rightarrow> string set \<Rightarrow> CampaignState \<Rightarrow> bool" where
  "in_sync E N st \<longleftrightarrow> files_named E (cst_disk st)
     \<and> (\<forall>name s. cst_sessions st name = Some s \<longrightarrow> name \<in> N \<and> session_synced E (cst_disk st) name s)"

lemma in_sync_session:
  assumes "in_sync E N st" "cst_sessions st name = Some s"
  shows "name \<in> N" "session_synced E (cst_disk st) name s" "slugify E (camp_name (cs_campaign s)) = slugify E name"
    "campaign_valid_name (camp_name (cs_campaign s)) = Inr ()"
  using assms by (auto simp: in_sync_def session_synced_def files_named_def)

lemma synced_load: "session_synced E disk name s \<Longrightarrow> campaign_load E disk name = Inr (cs_campaign s)"
  by (simp add: session_synced_def campaign_load_def)

text \<open>The file of a session is replaced by the campaign that the session holds from then on.\<close>

lemma write_sync:
  assumes sync: "in_sync E N st" and N: "inj_on (slugify E) N" "name \<in> N"
    and name: "campaign_valid_name name = Inr ()" "slugify E (camp_name c) = slugify E name"
      "campaign_valid_name (camp_name c) = Inr ()"
    and disk: "\<And>stem. campaign_load_inner E disk stem
      = (if stem = slugify E name then Inr c else campaign_load_inner E (cst_disk st) stem)"
    and s: "cs_campaign s = c"
  shows "in_sync E N ((put_session name s st)\<lparr>cst_disk := disk\<rparr>)"
proof -
  have "slugify E m \<noteq> slugify E name" if "cst_sessions st m = Some t" "m \<noteq> name" for m t
    using in_sync_session(1) [OF sync that(1)] that(2) N by (auto dest: inj_onD)
  then show ?thesis using sync N(2) name disk s
    by (auto simp: in_sync_def put_session_def session_synced_def files_named_def)
qed

lemma put_sync:
  assumes "in_sync E N st" "name \<in> N" "session_synced E (cst_disk st) name s"
  shows "in_sync E N (put_session name s st)"
  using assms by (auto simp: in_sync_def put_session_def)

lemma persist_sync:
  assumes sync: "in_sync E N st" and N: "inj_on (slugify E) N"
    and s: "cst_sessions st name = Some s" "camp_name (cs_campaign s') = camp_name (cs_campaign s)"
      "storable E (cs_campaign s')"
    and st': "persist E name s' reply st = (r, st')"
  shows "r = Inr reply \<and> in_sync E N st'"
proof -
  note i = in_sync_session [OF sync s(1)]
  have v: "campaign_valid_name (camp_name (cs_campaign s')) = Inr ()" using i(4) s(2) by simp
  obtain disk where d: "campaign_save E (cst_disk st) (cs_campaign s') = (Inr (), disk)"
    "\<And>stem. campaign_load_inner E disk stem
      = (if stem = slugify E (camp_name (cs_campaign s')) then Inr (cs_campaign s') else campaign_load_inner E (cst_disk st) stem)"
    using campaign_save_load [OF s(3) v, of "cst_disk st"] by blast
  have "in_sync E N ((put_session name s' st)\<lparr>cst_disk := disk\<rparr>)"
    using i s(2) d(2) v by (intro write_sync [OF sync N, of _ "cs_campaign s'"]) (auto simp: session_synced_def)
  with d(1) st' show ?thesis by (auto simp: persist_def)
qed

definition held_storable :: "CampaignEnv \<Rightarrow> string \<Rightarrow> CampaignState \<Rightarrow> bool" where
  "held_storable E name st \<longleftrightarrow> (case cst_sessions st name of None \<Rightarrow> True | Some s \<Rightarrow> storable E (cs_campaign s))"

lemma persist_session:
  "persist E name s reply st = (r, st') \<Longrightarrow> cst_sessions st' = (cst_sessions st)(name \<mapsto> s)"
  by (auto simp: persist_def put_session_def Let_def split: prod.splits)

lemma mutate_sync:
  assumes "in_sync E N st" "inj_on (slugify E) N" "mutate E name make_cmd st = (r, st')" "held_storable E name st'"
  shows "in_sync E N st' \<and> (isl r \<longrightarrow> st' = st)"
  using assms(3)
proof (cases rule: mutate_cases)
  case (saved s cmd h c)
  have "storable E c" using persist_session [OF saved(4)] assms(4) by (simp add: held_storable_def)
  with persist_sync [OF assms(1,2) saved(1) _ _ saved(4)] execute_name [OF saved(3)]
  show ?thesis by auto
qed (use assms(1) in auto)

lemma step_history_sync:
  assumes sync: "in_sync E N st" and N: "inj_on (slugify E) N" and st': "step_history E name step st = (r, st')"
    and held: "held_storable E name st'"
    and step: "\<And>h c r h' c'. step h c = (r, h', c') \<Longrightarrow> camp_name c' = camp_name c \<and> (isl r \<longrightarrow> c' = c)"
  shows "in_sync E N st' \<and> (isl r \<longrightarrow> cst_disk st' = cst_disk st
    \<and> (\<forall>m. map_option cs_campaign (cst_sessions st' m) = map_option cs_campaign (cst_sessions st m)))"
proof (cases "cst_sessions st name")
  case None
  with st' sync show ?thesis by (auto simp: step_history_def)
next
  case (Some s)
  obtain q h c where q: "step (cs_history s) (cs_campaign s) = (q, h, c)" by (metis prod_cases3)
  let ?s = "\<lparr>cs_campaign = c, cs_history = h\<rparr>"
  show ?thesis
  proof (cases q)
    case (Inl m)
    with step [OF q] have c: "c = cs_campaign s" by simp
    with Some q Inl st' have eq: "r = Inl (bad_request m)" "st' = put_session name ?s st" by (auto simp: step_history_def)
    have "session_synced E (cst_disk st) name ?s"
      using in_sync_session(2) [OF sync Some] c by (simp add: session_synced_def)
    with put_sync [OF sync in_sync_session(1) [OF sync Some], of ?s] eq Some c show ?thesis
      by (simp add: put_session_def)
  next
    case (Inr d)
    with Some q st' have eq: "persist E name ?s (UndoRedoReply d) st = (r, st')" by (auto simp: step_history_def)
    have "storable E c" using persist_session [OF eq] held by (simp add: held_storable_def)
    with persist_sync [OF sync N Some _ _ eq] step [OF q] show ?thesis by auto
  qed
qed

lemma load_synced:
  assumes "files_named E disk" "campaign_load E disk name = Inr c"
  shows "campaign_valid_name name = Inr ()" "campaign_load_inner E disk (slugify E name) = Inr c"
  using assms by (auto simp: campaign_load_def split: sum.splits)

lemma create_sync:
  assumes sync: "in_sync E N st" and N: "inj_on (slugify E) N" "name \<in> N"
    and st': "handle_create_campaign E fresh now name st = (r, st')" and held: "held_storable E name st'"
  shows "in_sync E N st' \<and> (isl r \<longrightarrow> st' = st)"
proof -
  obtain q disk where q: "campaign_create E fresh (cst_disk st) name = (q, disk)" by (metis surj_pair)
  show ?thesis
  proof (cases q)
    case (Inl e)
    with q have "disk = cst_disk st" by (auto dest: campaign_create_error)
    with q Inl st' sync show ?thesis by (auto simp: handle_create_campaign_def create_file_def)
  next
    case (Inr c)
    have c: "c = Campaign_new fresh name"
      using q Inr by (auto simp: campaign_create_def Let_def split: sum.splits if_splits)
    with q Inr st' have r: "r = Inr (CreatedReply (campaign_summary now c))"
      and eq: "st' = (put_session name (fresh_session c) st)\<lparr>cst_disk := disk\<rparr>"
      by (auto simp: handle_create_campaign_def create_file_def put_session_def Campaign_new_def)
    have "storable E c" using held eq by (simp add: held_storable_def put_session_def fresh_session_def)
    note l = campaign_create_load [OF q [unfolded Inr] this]
    have "in_sync E N st'"
      unfolding eq using l c by (intro write_sync [OF sync N, of c]) (auto simp: Campaign_new_def fresh_session_def)
    with r show ?thesis by simp
  qed
qed

lemma load_sync:
  assumes sync: "in_sync E N st" and N: "name \<in> N" and st': "handle_load_campaign E name st = (r, st')"
  shows "in_sync E N st' \<and> (isl r \<longrightarrow> st' = st)"
proof (cases "cst_sessions st name")
  case (Some s)
  with st' sync show ?thesis by (auto simp: handle_load_campaign_def)
next
  case None
  show ?thesis
  proof (cases "campaign_load E (cst_disk st) name")
    case (Inl e)
    with None st' sync show ?thesis by (auto simp: handle_load_campaign_def)
  next
    case (Inr c)
    have "session_synced E (cst_disk st) name (fresh_session c)"
      using load_synced [OF _ Inr] sync by (auto simp: in_sync_def session_synced_def fresh_session_def)
    with put_sync [OF sync N, of "fresh_session c"] None Inr st' show ?thesis
      by (auto simp: handle_load_campaign_def put_session_def)
  qed
qed

lemma delete_sync:
  assumes sync: "in_sync E N st" and N: "inj_on (slugify E) N" "name \<in> N"
    and st': "handle_delete_campaign E name st = (r, st')"
  shows "in_sync E N st' \<and> (isl r \<longrightarrow> cst_disk st' = cst_disk st)
    \<and> (\<forall>m. m \<noteq> name \<longrightarrow> cst_sessions st' m = cst_sessions st m)"
proof -
  obtain q disk where q: "campaign_delete E (cst_disk st) name = (q, disk)" by (metis surj_pair)
  with st' have eq: "st' = (drop_session name st)\<lparr>cst_disk := disk\<rparr>" and r: "isl r \<longleftrightarrow> isl q"
    by (auto simp: handle_delete_campaign_def delete_file_def drop_session_def split: sum.splits)
  note l = campaign_delete_load [OF q]
  have ne: "slugify E m \<noteq> slugify E name" if "cst_sessions st m = Some t" "m \<noteq> name" for m t
    using in_sync_session(1) [OF sync that(1)] that(2) N by (auto dest: inj_onD)
  have "in_sync E N st'"
    using sync eq l ne by (auto simp: in_sync_def drop_session_def session_synced_def files_named_def split: if_splits)
  moreover have "cst_disk st' = cst_disk st" if "isl r"
    using that r q eq by (cases q) (auto dest: campaign_delete_error)
  ultimately show ?thesis using eq by (simp add: drop_session_def)
qed

section \<open>Runs\<close>

text \<open>A request about a name in \<open>N\<close> after which the session of that name, when there is one, can be written and read back.\<close>

definition serves :: "CampaignEnv \<Rightarrow> string set \<Rightarrow> CampaignRequest \<Rightarrow> CampaignState \<Rightarrow> bool" where
  "serves E N req st \<longleftrightarrow>
     (case request_target req of
        None \<Rightarrow> True
      | Some name \<Rightarrow> name \<in> N \<and> held_storable E name (snd (campaign_request E req st)))"

inductive served :: "CampaignEnv \<Rightarrow> (CampaignRequest \<Rightarrow> CampaignState \<Rightarrow> bool) \<Rightarrow> CampaignState \<Rightarrow> bool"
  for E :: CampaignEnv and ok :: "CampaignRequest \<Rightarrow> CampaignState \<Rightarrow> bool" where
  served_start: "served E ok \<lparr>cst_sessions = Map.empty, cst_disk = []\<rparr>"
| served_step: "served E ok st \<Longrightarrow> ok req st \<Longrightarrow> campaign_request E req st = (r, st') \<Longrightarrow> served E ok st'"

lemma served_mono: "served E ok st \<Longrightarrow> (\<And>req st. ok req st \<Longrightarrow> ok' req st) \<Longrightarrow> served E ok' st"
  by (induction rule: served.induct) (auto intro: served.intros)

lemma request_sync:
  assumes "in_sync E N st" "inj_on (slugify E) N" "serves E N req st" "campaign_request E req st = (r, st')"
  shows "in_sync E N st' \<and> (isl r \<longrightarrow> cst_disk st' = cst_disk st \<and> (\<forall>m. req \<noteq> DeleteCampaign m
    \<longrightarrow> map_option cs_campaign (cst_sessions st' m) = map_option cs_campaign (cst_sessions st m)))"
proof (cases "is_mutation req")
  case True
  then obtain name where name: "request_target req = Some name" by (cases req) (auto simp: is_mutation_def)
  with assms(3,4) have held: "held_storable E name st'" by (simp add: serves_def)
  from mutation_is_mutate [OF True name, of E st] show ?thesis
  proof
    assume "campaign_request E req st = mutate E name (request_command E req) st"
    with mutate_sync [OF assms(1,2) _ held, of "request_command E req" r] assms(4) show ?thesis by auto
  next
    assume "\<exists>e. campaign_request E req st = (Inl e, st)"
    with assms(1,4) show ?thesis by auto
  qed
next
  case False
  then show ?thesis
  proof (cases req)
    case (CreateCampaign fresh now name)
    with assms create_sync [OF assms(1,2), of name fresh now r st'] show ?thesis by (auto simp: serves_def)
  next
    case (LoadCampaign name)
    with assms load_sync [OF assms(1), of name r st'] show ?thesis by (auto simp: serves_def)
  next
    case (DeleteCampaign name)
    with assms delete_sync [OF assms(1,2), of name r st'] show ?thesis by (auto simp: serves_def)
  next
    case (UndoCampaign name)
    with assms step_history_sync [OF assms(1,2), of name _ r st'] show ?thesis
      by (auto simp: serves_def handle_undo_campaign_def dest: undo_name)
  next
    case (RedoCampaign name)
    with assms step_history_sync [OF assms(1,2), of name _ r st'] show ?thesis
      by (auto simp: serves_def handle_redo_campaign_def dest: redo_name)
  qed (use assms False in \<open>auto simp: is_mutation_def\<close>)
qed

lemma served_in_sync:
  assumes "served E ok st" "\<And>req st. ok req st \<Longrightarrow> serves E N req st" "inj_on (slugify E) N"
  shows "in_sync E N st"
  using assms(1)
proof (induction rule: served.induct)
  case served_start
  then show ?case by (simp add: in_sync_def files_named_def campaign_load_inner_def)
next
  case (served_step st req r st')
  with request_sync [OF served_step.IH assms(3) assms(2)] show ?case by blast
qed

section \<open>Sessions on their time line\<close>

text \<open>Clients whose additions have new ids and whose updates keep the id of the node.\<close>

definition fresh_ids :: "CampaignCommand \<Rightarrow> CampaignView \<Rightarrow> bool" where
  "fresh_ids cmd v \<longleftrightarrow>
     (case cmd of
        AddNode _ _ _ \<Rightarrow> admissible cmd v
      | AddEdge _ _ _ \<Rightarrow> admissible cmd v
      | AddGraph _ _ \<Rightarrow> admissible cmd v
      | ModifyNode _ _ old_node new_node \<Rightarrow> node_id new_node = node_id old_node
      | _ \<Rightarrow> True)"

definition adds_fresh :: "CampaignEnv \<Rightarrow> CampaignRequest \<Rightarrow> CampaignState \<Rightarrow> bool" where
  "adds_fresh E req st \<longleftrightarrow>
     (case Option.bind (request_target req) (cst_sessions st) of
        None \<Rightarrow> True
      | Some s \<Rightarrow>
          (case request_command E req (cs_campaign s) of
             Inl _ \<Rightarrow> True
           | Inr cmd \<Rightarrow> fresh_ids cmd (view_campaign (cs_campaign s))))"

lemma by_id_find: "List.find (\<lambda>x. key x = u) xs = Some x \<Longrightarrow> by_id key f xs u = Some (f x) \<and> key x = u"
  by (induction xs) (auto split: if_splits)

lemma find_graph_view:
  "find_graph E u c = Inr g \<Longrightarrow> cv_graphs (view_campaign c) u = Some (view_graph g)"
  by (auto simp: find_graph_def view_campaign_def dest: by_id_find)

lemma find_node_view:
  "find_node E u n c = Inr x \<Longrightarrow> \<exists>g. cv_graphs (view_campaign c) u = Some g \<and> gv_nodes g (node_id x) = Some x"
  by (auto simp: find_node_def view_graph_def dest!: find_graph_view by_id_find [of node_id _ _ _ "\<lambda>x. x"] split: sum.splits)

lemma find_edge_view:
  "find_edge E u n c = Inr x \<Longrightarrow> \<exists>g. cv_graphs (view_campaign c) u = Some g \<and> gv_edges g (edge_id x) = Some x"
  by (auto simp: find_edge_def view_graph_def dest!: find_graph_view by_id_find [of edge_id _ _ _ "\<lambda>x. x"] split: sum.splits)

lemma command_recorded:
  assumes "ids_unique c" "request_command E req c = Inr cmd" "fresh_ids cmd (view_campaign c)"
  shows "campaign_recorded cmd c"
  using assms
  by (cases req)
    (auto simp: campaign_recorded_def fresh_ids_def graph_admits_def dest!: find_node_view find_edge_view
      split: sum.splits option.splits)

definition tracked :: "CampaignEnv \<Rightarrow> CampaignState \<Rightarrow> bool" where
  "tracked E st \<longleftrightarrow>
     (\<forall>name s. cst_sessions st name = Some s \<longrightarrow> campaign.timeline (ce_uuid_text E) (cs_history s, cs_campaign s))
     \<and> (\<forall>stem c. campaign_load_inner E (cst_disk st) stem = Inr c \<longrightarrow> ids_unique c)"

lemma timeline_unique: "campaign.timeline U (h, c) \<Longrightarrow> ids_unique c"
  using campaign.undoable_same by (fastforce simp: campaign.timeline_def same_campaign_def)

lemma fresh_session_timeline:
  "ids_unique c \<Longrightarrow> campaign.timeline U (cs_history (fresh_session c), cs_campaign (fresh_session c))"
  by (simp add: fresh_session_def history_new_def campaign.fresh_timeline same_campaign_def)

lemma persist_tracked:
  assumes t: "tracked E st" and s: "campaign.timeline (ce_uuid_text E) (cs_history s, cs_campaign s)"
    and st': "persist E name s reply st = (r, st')" and held: "held_storable E name st'"
  shows "tracked E st'"
proof -
  obtain q disk where q: "campaign_save E (cst_disk st) (cs_campaign s) = (q, disk)" by (metis surj_pair)
  with st' have eq: "st' = (put_session name s st)\<lparr>cst_disk := disk\<rparr>" by (auto simp: persist_def)
  have "storable E (cs_campaign s)" using held eq by (simp add: held_storable_def put_session_def)
  then obtain json where json: "ce_enc E (cs_campaign s) = Inr json" "ce_dec E json = Inr (cs_campaign s)" by (rule storableE)
  have "ids_unique c" if "campaign_load_inner E disk stem = Inr c" for stem c
    using that q t timeline_unique [OF s] json
    by (auto simp: campaign_save_def tracked_def campaign_load_inner_def update_conv' split: sum.splits if_splits)
  with t s eq show ?thesis by (auto simp: tracked_def put_session_def)
qed

lemma step_history_tracked:
  assumes t: "tracked E st" and st': "step_history E name step st = (r, st')" and held: "held_storable E name st'"
    and step: "\<And>h c r h' c'. step h c = (r, h', c') \<Longrightarrow> session_step (CampaignCommands (ce_uuid_text E)) campaign_recorded (h, c) (h', c')"
  shows "tracked E st'"
proof (cases "cst_sessions st name")
  case None
  with st' t show ?thesis by (auto simp: step_history_def)
next
  case (Some s)
  obtain q h c where q: "step (cs_history s) (cs_campaign s) = (q, h, c)" by (metis prod_cases3)
  have tl: "campaign.timeline (ce_uuid_text E) (h, c)"
    using campaign.step_timeline [OF step [OF q]] t Some by (simp add: tracked_def)
  show ?thesis
  proof (cases q)
    case (Inl m)
    with Some q st' t tl show ?thesis by (auto simp: step_history_def tracked_def put_session_def split: if_splits)
  next
    case (Inr d)
    with Some q st' have "persist E name \<lparr>cs_campaign = c, cs_history = h\<rparr> (UndoRedoReply d) st = (r, st')"
      by (auto simp: step_history_def)
    with persist_tracked [OF t _ this held] tl show ?thesis by simp
  qed
qed

lemma mutate_tracked:
  assumes t: "tracked E st" and st': "mutate E name (request_command E req) st = (r, st')"
    and held: "held_storable E name st'" and fresh: "request_target req = Some name" "adds_fresh E req st"
  shows "tracked E st'"
  using st'
proof (cases rule: mutate_cases)
  case (saved s cmd h c)
  have tl: "campaign.timeline (ce_uuid_text E) (cs_history s, cs_campaign s)" using t saved(1) by (simp add: tracked_def)
  have "campaign_recorded cmd (cs_campaign s)"
    using fresh saved(1,2) by (intro command_recorded [OF timeline_unique [OF tl] saved(2)]) (simp add: adds_fresh_def)
  from campaign.execute_timeline [OF tl this saved(3)] have "campaign.timeline (ce_uuid_text E) (h, c)" .
  with persist_tracked [OF t _ saved(4) held] show ?thesis by simp
qed (use t in auto)

lemma request_tracked:
  assumes t: "tracked E st" and ok: "serves E N req st" "adds_fresh E req st"
    and st': "campaign_request E req st = (r, st')"
  shows "tracked E st'"
proof (cases "is_mutation req")
  case True
  then obtain name where name: "request_target req = Some name" by (cases req) (auto simp: is_mutation_def)
  with ok(1) st' have held: "held_storable E name st'" by (simp add: serves_def)
  from mutation_is_mutate [OF True name, of E st] show ?thesis
  proof
    assume "campaign_request E req st = mutate E name (request_command E req) st"
    with st' have "mutate E name (request_command E req) st = (r, st')" by simp
    then show ?thesis by (rule mutate_tracked [OF t _ held name ok(2)])
  next
    assume "\<exists>e. campaign_request E req st = (Inl e, st)"
    with st' t show ?thesis by auto
  qed
next
  case False
  then show ?thesis
  proof (cases req)
    case (CreateCampaign fresh now name)
    obtain q disk where q: "campaign_create E fresh (cst_disk st) name = (q, disk)" by (metis surj_pair)
    show ?thesis
    proof (cases q)
      case (Inl e)
      with q st' CreateCampaign t show ?thesis
        by (auto simp: handle_create_campaign_def create_file_def dest: campaign_create_error)
    next
      case (Inr c)
      have c: "c = Campaign_new fresh name"
        using q Inr by (auto simp: campaign_create_def Let_def split: sum.splits if_splits)
      have u: "ids_unique c" by (simp add: c ids_unique_def Campaign_new_def)
      from q Inr st' CreateCampaign c have eq: "st' = (put_session name (fresh_session c) st)\<lparr>cst_disk := disk\<rparr>"
        by (auto simp: handle_create_campaign_def create_file_def put_session_def Campaign_new_def)
      have "storable E c" using ok(1) st' eq CreateCampaign
        by (simp add: serves_def held_storable_def put_session_def fresh_session_def)
      note l = campaign_create_load [OF q [unfolded Inr] this]
      from t u fresh_session_timeline [OF u] eq l(3) show ?thesis
        by (auto simp: tracked_def put_session_def split: if_splits)
    qed
  next
    case (LoadCampaign name)
    with st' t show ?thesis
      by (auto simp: handle_load_campaign_def put_session_def tracked_def campaign_load_def fresh_session_timeline
          split: option.splits sum.splits if_splits)
  next
    case (DeleteCampaign name)
    obtain q disk where q: "campaign_delete E (cst_disk st) name = (q, disk)" by (metis surj_pair)
    with st' DeleteCampaign have eq: "st' = (drop_session name st)\<lparr>cst_disk := disk\<rparr>"
      by (auto simp: handle_delete_campaign_def delete_file_def drop_session_def)
    with t campaign_delete_load [OF q] show ?thesis by (auto simp: tracked_def drop_session_def split: if_splits)
  next
    case (UndoCampaign name)
    with ok(1) st' step_history_tracked [OF t, of name _ r st'] show ?thesis
      by (auto simp: serves_def handle_undo_campaign_def intro: step_undo)
  next
    case (RedoCampaign name)
    with ok(1) st' step_history_tracked [OF t, of name _ r st'] show ?thesis
      by (auto simp: serves_def handle_redo_campaign_def intro: step_redo)
  qed (use assms False in \<open>auto simp: is_mutation_def\<close>)
qed

lemma served_tracked:
  assumes "served E ok st" "\<And>req st. ok req st \<Longrightarrow> serves E N req st \<and> adds_fresh E req st"
  shows "tracked E st"
  using assms(1)
proof (induction rule: served.induct)
  case served_start
  then show ?case by (simp add: tracked_def campaign_load_inner_def)
next
  case (served_step st req r st')
  with request_tracked [OF served_step.IH] assms(2) show ?case by blast
qed

lemma persist_reply:
  assumes "in_sync E N st" "inj_on (slugify E) N" "cst_sessions st name = Some s"
    "camp_name (cs_campaign s') = camp_name (cs_campaign s)" "persist E name s' reply st = (r, st')"
    "held_storable E name st'"
  shows "r = Inr reply \<and> cst_sessions st' name = Some s' \<and> in_sync E N st'"
  using persist_sync [OF assms(1-4) _ assms(5)] persist_session [OF assms(5)] assms(6)
  by (simp add: held_storable_def)

lemma undo_request:
  assumes sync: "in_sync E N st" and N: "inj_on (slugify E) N" and s: "cst_sessions st name = Some s"
    and undo: "undo (CampaignCommands (ce_uuid_text E)) (cs_history s) (cs_campaign s) = (Inr d, h, c)"
    and ok: "serves E N (UndoCampaign name) st"
  shows "\<exists>st'. campaign_request E (UndoCampaign name) st = (Inr (UndoRedoReply d), st') \<and> in_sync E N st'
    \<and> cst_sessions st' name = Some \<lparr>cs_campaign = c, cs_history = h\<rparr>"
proof -
  obtain r st' where st': "campaign_request E (UndoCampaign name) st = (r, st')" by (metis surj_pair)
  with s undo have p: "persist E name \<lparr>cs_campaign = c, cs_history = h\<rparr> (UndoRedoReply d) st = (r, st')"
    by (simp add: handle_undo_campaign_def step_history_def)
  have "held_storable E name st'" using ok st' by (simp add: serves_def)
  with persist_reply [OF sync N s _ p] undo_name [OF undo] st' show ?thesis by simp
qed

lemma redo_request:
  assumes sync: "in_sync E N st" and N: "inj_on (slugify E) N" and s: "cst_sessions st name = Some s"
    and redo: "redo (CampaignCommands (ce_uuid_text E)) (cs_history s) (cs_campaign s) = (Inr d, h, c)"
    and ok: "serves E N (RedoCampaign name) st"
  shows "\<exists>st'. campaign_request E (RedoCampaign name) st = (Inr (UndoRedoReply d), st') \<and> in_sync E N st'
    \<and> cst_sessions st' name = Some \<lparr>cs_campaign = c, cs_history = h\<rparr>"
proof -
  obtain r st' where st': "campaign_request E (RedoCampaign name) st = (r, st')" by (metis surj_pair)
  with s redo have p: "persist E name \<lparr>cs_campaign = c, cs_history = h\<rparr> (UndoRedoReply d) st = (r, st')"
    by (simp add: handle_redo_campaign_def step_history_def)
  have "held_storable E name st'" using ok st' by (simp add: serves_def)
  with persist_reply [OF sync N s _ p] redo_name [OF redo] st' show ?thesis by simp
qed

section \<open>An example server\<close>

definition serve_all :: "CampaignEnv \<Rightarrow> CampaignRequest list \<Rightarrow> CampaignState \<Rightarrow> CampaignState" where
  "serve_all E reqs st = fold (\<lambda>req st. snd (campaign_request E req st)) reqs st"

fun all_ok :: "CampaignEnv \<Rightarrow> (CampaignRequest \<Rightarrow> CampaignState \<Rightarrow> bool) \<Rightarrow> CampaignRequest list \<Rightarrow> CampaignState \<Rightarrow> bool" where
  "all_ok E ok [] st \<longleftrightarrow> True"
| "all_ok E ok (req # reqs) st \<longleftrightarrow> ok req st \<and> all_ok E ok reqs (snd (campaign_request E req st))"

lemma serve_all_served: "served E ok st \<Longrightarrow> all_ok E ok reqs st \<Longrightarrow> served E ok (serve_all E reqs st)"
proof (induction reqs arbitrary: st)
  case (Cons req reqs)
  from Cons.prems have "served E ok st" "ok req st" by simp_all
  then have "served E ok (snd (campaign_request E req st))"
    by (rule served_step [of E ok st req "fst (campaign_request E req st)"]) simp
  from Cons.IH [OF this] Cons.prems(2) show ?case by (simp add: serve_all_def)
qed (simp add: serve_all_def)

definition camp8 :: "Graph list \<Rightarrow> Campaign" where
  "camp8 graphs = (Campaign_new 1 ''Elwynn'')\<lparr>camp_graphs := graphs\<rparr>"

definition main8 :: Graph where
  "main8 = Graph_new 2 ''main'' 5"

definition hearth8 :: Graph where
  "hearth8 = main8\<lparr>graph_nodes := [Node_new 5 ''questing.Hearth'' Intent_new]\<rparr>"

definition E8 :: CampaignEnv where
  "E8 = \<lparr>ce_lowercase = (\<lambda>s. s), ce_alphanumeric = (\<lambda>c. False),
     ce_enc = (\<lambda>c. Inr (case camp_graphs c of [] \<Rightarrow> ''0'' | g # _ \<Rightarrow> (case graph_nodes g of [] \<Rightarrow> ''1'' | _ \<Rightarrow> ''2''))),
     ce_dec = (\<lambda>json. Inr (camp8 (if json = ''0'' then [] else if json = ''1'' then [main8] else [hearth8]))),
     ce_value = (\<lambda>c. None),
     ce_node = (\<lambda>j. case j of JString t \<Rightarrow> Inr (Node_new 5 t Intent_new) | _ \<Rightarrow> Inl ''expected a node''),
     ce_edge = (\<lambda>j. Inl ''expected an edge''),
     ce_graph = (\<lambda>j. case j of JString t \<Rightarrow> Inr (Graph_new 2 t 5) | _ \<Rightarrow> Inl ''expected a graph''),
     ce_condition = (\<lambda>j. Inl ''expected a condition''),
     ce_uuid_text = (\<lambda>u. ''u''), ce_parse_uuid = (\<lambda>t. None), ce_modified = (\<lambda>stem. None), ce_scan = (\<lambda>fs. fs)\<rparr>"

definition start8 :: CampaignState where
  "start8 = \<lparr>cst_sessions = Map.empty, cst_disk = []\<rparr>"

definition requests8 :: "CampaignRequest list" where
  "requests8 = [CreateCampaign 1 ''now'' ''Elwynn'', PostGraph ''Elwynn'' (JString ''main''),
                PostNode ''Elwynn'' 2 (JString ''questing.Hearth'')]"

definition state8 :: CampaignState where
  "state8 = serve_all E8 requests8 start8"

lemma all_ok8: "all_ok E8 (\<lambda>req st. serves E8 (set [''Elwynn'']) req st \<and> adds_fresh E8 req st) requests8 start8"
  by code_simp

lemma served8: "served E8 (\<lambda>req st. serves E8 (set [''Elwynn'']) req st \<and> adds_fresh E8 req st) state8"
  unfolding state8_def by (rule serve_all_served [OF _ all_ok8]) (simp add: start8_def served_start)

lemma served8': "served E8 (serves E8 (set [''Elwynn''])) state8"
  by (rule served_mono [OF served8]) simp

lemma inj8: "inj_on (slugify E8) (set [''Elwynn''])"
  by simp

lemma session8: "cst_sessions state8 ''Elwynn'' = Some (the (cst_sessions state8 ''Elwynn''))"
proof -
  have "\<not> Option.is_none (cst_sessions state8 ''Elwynn'')" by code_simp
  then show ?thesis by (cases "cst_sessions state8 ''Elwynn''") auto
qed

text \<open>Two names with one slug have sessions of their own for one file: after a change through the first, the second session
  still holds the old campaign, and its next change will write it over the file.\<close>

lemma aliased_sessions_diverge:
  "let st = serve_all E8 [CreateCampaign 1 ''now'' ''Elwynn'', LoadCampaign ''elwynn'', PostGraph ''Elwynn'' (JString ''main'')] start8
   in map_option cs_campaign (cst_sessions st ''elwynn'') = Some (camp8 [])
    \<and> campaign_load E8 (cst_disk st) ''elwynn'' = Inr (camp8 [main8])"
  by code_simp

text \<open>Between the two steps of a creation other requests can load the new file and change it; the session that is then
  installed is the empty campaign.\<close>

lemma create_race:
  "let (r, st1) = create_file E8 1 ''Elwynn'' start8;
       st2 = serve_all E8 [LoadCampaign ''Elwynn'', PostGraph ''Elwynn'' (JString ''main'')] st1;
       st3 = put_session ''Elwynn'' (fresh_session (projr r)) st2
   in map_option cs_campaign (cst_sessions st3 ''Elwynn'') = Some (camp8 [])
    \<and> campaign_load E8 (cst_disk st3) ''Elwynn'' = Inr (camp8 [main8])"
  by code_simp

text \<open>A change that cannot be saved is answered with an error and stays in the session.\<close>

lemma failed_save_keeps_edit:
  assumes "cst_sessions st name = Some s" "make_cmd (cs_campaign s) = Inr cmd"
    and "execute (CampaignCommands (ce_uuid_text E)) cmd (cs_history s) (cs_campaign s) = (Inr (), h, c)"
    and "campaign_save E (cst_disk st) c = (Inl e, disk)"
  shows "mutate E name make_cmd st
    = (Inl (editor_error_to_response e), put_session name \<lparr>cs_campaign = c, cs_history = h\<rparr> st)"
  using assms campaign_save_error [OF assms(4)] by (simp add: mutate_def persist_def put_session_def)

section \<open>Properties\<close>


text \<open>A request that is answered with an error has written no file and changed no campaign, except that a failed deletion
  has dropped its session.\<close>

theorem failed_requests_keep:
  assumes "served E (serves E N) st" and "inj_on (slugify E) N" and "serves E N req st"
    and "campaign_request E req st = (Inl e, st')"
  shows "cst_disk st' = cst_disk st
    \<and> (req \<noteq> DeleteCampaign name
       \<longrightarrow> map_option cs_campaign (cst_sessions st' name) = map_option cs_campaign (cst_sessions st name))"
  using request_sync [OF served_in_sync [OF assms(1) _ assms(2)] assms(2-4)] by auto


text \<open>The validator of the editor is silent about every campaign the resolver can plan: when each node has a task type the
  resolver registers, \<open>validate_campaign\<close> reports nothing, whatever is turned in without having been accepted. (It looks for
  nodes of the type \<^verbatim>\<open>questing.TurnInQuest\<close>; the registered type is \<^verbatim>\<open>questing.TurnIn\<close>.)\<close>

theorem validator_misses_registered:
  assumes "with_questing = Some registry"
    and "\<forall>g\<in>set (camp_graphs campaign). \<forall>node\<in>set (graph_nodes g). registry_get registry (node_type node) \<noteq> None"
  shows "validate_campaign campaign = []"
proof -
  have "registry_get (the with_questing) ''questing.TurnInQuest'' = None" by code_simp
  moreover have "the with_questing = registry" unfolding assms(1) by (rule option.sel)
  ultimately have "registry_get registry ''questing.TurnInQuest'' = None" by (rule back_subst)
  note missing = this
  have "node_type node \<noteq> ''questing.TurnInQuest''"
    if "g \<in> set (camp_graphs campaign)" "node \<in> set (graph_nodes g)" for g node
  proof
    assume "node_type node = ''questing.TurnInQuest''"
    from missing [folded this] bspec [OF bspec [OF assms(2) that(1)] that(2)] show False by contradiction
  qed
  then show ?thesis by (auto simp: validate_campaign_def missing_accept_def)
qed

lemma validator_misses_registered_witness:
  "validate_campaign (camp8 [main8\<lparr>graph_nodes :=
     [Node_new 5 ''questing.TurnIn'' [(''quest_id'', IInt 7)]]\<rparr>]) = []"
proof -
  let ?c = "camp8 [main8\<lparr>graph_nodes := [Node_new 5 ''questing.TurnIn'' [(''quest_id'', IInt 7)]]\<rparr>]"
  have "\<not> Option.is_none with_questing" by code_simp
  then obtain registry where r: "with_questing = Some registry" by (cases with_questing) auto
  have "\<not> Option.is_none (registry_get (the with_questing) ''questing.TurnIn'')" by code_simp
  moreover have "the with_questing = registry" unfolding r by (rule option.sel)
  ultimately have "\<not> Option.is_none (registry_get registry ''questing.TurnIn'')" by iprover
  then have "registry_get registry ''questing.TurnIn'' \<noteq> None" unfolding Option.is_none_def .
  then show ?thesis by (intro validator_misses_registered [OF r]) (simp add: camp8_def main8_def Node_new_def)
qed


lemma failed_requests_keep_witness:
  "let st' = snd (campaign_request E8 (PostGraph ''Elwynn'' (JString ''again'')) state8)
   in cst_disk st' = cst_disk state8
    \<and> map_option cs_campaign (cst_sessions st' ''Elwynn'') = map_option cs_campaign (cst_sessions state8 ''Elwynn'')"
proof -
  let ?r = "campaign_request E8 (PostGraph ''Elwynn'' (JString ''again'')) state8"
  have ok: "serves E8 (set [''Elwynn'']) (PostGraph ''Elwynn'' (JString ''again'')) state8" by code_simp
  have "isl (fst ?r)" by code_simp
  then have "?r = (Inl (projl (fst ?r)), snd ?r)" by (cases ?r; cases "fst ?r") auto
  from failed_requests_keep [OF served8' inj8 ok this, of "''Elwynn''"] show ?thesis by (simp add: Let_def)
qed


end
