(* ===== verification/Import_Coverage.thy ===== *)
theory Import_Coverage
  imports Authoring Ordered_Map Zone_Map "HOL-Library.List_Lexorder" "HOL-Library.Char_ord"
begin

text \<open>
  The coverage report of an import (\<^verbatim>\<open>importer/src/coverage.rs\<close>): every action of a project counted as typed, preserved
  without effect, or unresolved, per command and in total. A project whose action has a diagnostic is recognised by the
  text of the action's id (\<open>uuid_text\<close>). \<open>alnum\<close> is \<open>char::is_alphanumeric\<close> on characters that are not ASCII, \<open>pct\<close> the
  \<open>f64\<close> percentage of two counts with one decimal.
\<close>

datatype CoverageKind = Typed | InertPreserved | Unresolved

record CommandTally =
  tally_typed :: nat
  tally_inert_preserved :: nat
  tally_unresolved :: nat

definition tally_default :: CommandTally where
  "tally_default = \<lparr>tally_typed = 0, tally_inert_preserved = 0, tally_unresolved = 0\<rparr>"

definition tally_total :: "CommandTally \<Rightarrow> nat" where
  "tally_total t = tally_typed t + tally_inert_preserved t + tally_unresolved t"

definition tally_record :: "CoverageKind \<Rightarrow> CommandTally \<Rightarrow> CommandTally" where
  "tally_record kind t =
     (case kind of
        Typed \<Rightarrow> t\<lparr>tally_typed := tally_typed t + 1\<rparr>
      | InertPreserved \<Rightarrow> t\<lparr>tally_inert_preserved := tally_inert_preserved t + 1\<rparr>
      | Unresolved \<Rightarrow> t\<lparr>tally_unresolved := tally_unresolved t + 1\<rparr>)"

record CoverageReport =
  cov_per_command :: "(string \<times> CommandTally) list"
  cov_totals :: CommandTally

definition report_default :: CoverageReport where
  "report_default = \<lparr>cov_per_command = [], cov_totals = tally_default\<rparr>"

section \<open>Classifying an action\<close>

text \<open>What follows the first occurrence of a pattern.\<close>

fun after_first :: "string \<Rightarrow> string \<Rightarrow> string option" where
  "after_first pat [] = (if pat = [] then Some [] else None)"
| "after_first pat (c # cs) = (if has_prefix pat (c # cs) then Some (drop (length pat) (c # cs)) else after_first pat cs)"

definition quote_char :: char where
  "quote_char = char_of (39::nat)"

definition char_is_alphanumeric :: "(uchar \<Rightarrow> bool) \<Rightarrow> uchar \<Rightarrow> bool" where
  "char_is_alphanumeric alnum c = (case c of [b] \<Rightarrow> if (of_char b :: nat) < 128 then ascii_alnum b else alnum c | _ \<Rightarrow> alnum c)"

definition quoted_command :: "Diagnostic \<Rightarrow> string option" where
  "quoted_command d =
     (case after_first [quote_char, CHR ''.''] (diag_message d) of
        None \<Rightarrow> None
      | Some rest \<Rightarrow> if quote_char \<in> set rest then Some (takeWhile (\<lambda>c. c \<noteq> quote_char) rest) else None)"

definition leading_command :: "(uchar \<Rightarrow> bool) \<Rightarrow> string \<Rightarrow> string option" where
  "leading_command alnum text =
     (case text of
        c # rest \<Rightarrow>
          if c \<noteq> CHR ''.'' then None
          else let name = concat (takeWhile (char_is_alphanumeric alnum) (utf8_chars rest)) in if name = [] then None else Some name
      | [] \<Rightarrow> None)"

definition command_name :: "(uchar \<Rightarrow> bool) \<Rightarrow> Diagnostic option \<Rightarrow> string \<Rightarrow> string" where
  "command_name alnum diag remark =
     (case Option.bind diag quoted_command of
        Some name \<Rightarrow> name
      | None \<Rightarrow> (case leading_command alnum remark of Some name \<Rightarrow> name | None \<Rightarrow> ''unknown''))"

fun typed_command_name :: "ActionPayload \<Rightarrow> string option" where
  "typed_command_name (AcceptQuest _) = Some ''accept''"
| "typed_command_name (TurnInQuest _) = Some ''turnin''"
| "typed_command_name (Travel _) = Some ''goto''"
| "typed_command_name (Kill _) = Some ''mob''"
| "typed_command_name (GrindArea _) = Some ''grind_area''"
| "typed_command_name (LootObject _) = Some ''loot_object''"
| "typed_command_name (InteractNPC _) = Some ''interact_npc''"
| "typed_command_name (Vendor _) = Some ''vendor''"
| "typed_command_name (Repair _) = Some ''repair''"
| "typed_command_name (Train _) = Some ''train''"
| "typed_command_name (LearnFlightPath _) = Some ''fp''"
| "typed_command_name (UseItem _) = Some ''item''"
| "typed_command_name (Flight _) = Some ''fly''"
| "typed_command_name (SetHearth _) = Some ''set_hearth''"
| "typed_command_name (Hearth _) = Some ''hs''"
| "typed_command_name (Wait _) = Some ''wait''"
| "typed_command_name (Escort _) = Some ''escort''"
| "typed_command_name (Patrol _) = Some ''patrol''"
| "typed_command_name (Mailbox _) = Some ''mailbox''"
| "typed_command_name (Bank _) = Some ''bank''"
| "typed_command_name (Condition _) = Some ''condition''"
| "typed_command_name (SetVariable _) = Some ''set_variable''"
| "typed_command_name (Comment _) = None"

text \<open>\<open>None\<close> would be the \<open>unreachable!\<close> of \<open>typed_command_name\<close>.\<close>

definition classify :: "(uuid \<Rightarrow> string) \<Rightarrow> (uchar \<Rightarrow> bool) \<Rightarrow> Project \<Rightarrow> Action \<Rightarrow> (string \<times> CoverageKind) option" where
  "classify uuid_text alnum project action =
     (case act_payload action of
        Comment c \<Rightarrow>
          (let diag = List.find (\<lambda>d. diag_action d = Some (uuid_text (act_id action))) (prj_diagnostics project);
               name = command_name alnum diag (comment_text c)
           in Some (name, if map_option diag_code diag = Some ''COMMAND_PRESERVED_INERT'' then InertPreserved else Unresolved))
      | payload \<Rightarrow> map_option (\<lambda>name. (name, Typed)) (typed_command_name payload))"

section \<open>The report\<close>

definition count_command :: "string \<times> CoverageKind \<Rightarrow> CoverageReport \<Rightarrow> CoverageReport" where
  "count_command entry report =
     (let (name, kind) = entry;
          tally = (case map_of (cov_per_command report) name of None \<Rightarrow> tally_default | Some t \<Rightarrow> t)
      in report\<lparr>cov_per_command := bt_insert name (tally_record kind tally) (cov_per_command report),
                cov_totals := tally_record kind (cov_totals report)\<rparr>)"

fun absorb_actions :: "(uuid \<Rightarrow> string) \<Rightarrow> (uchar \<Rightarrow> bool) \<Rightarrow> Project \<Rightarrow> Action list \<Rightarrow> CoverageReport \<Rightarrow> CoverageReport option" where
  "absorb_actions uuid_text alnum project [] report = Some report"
| "absorb_actions uuid_text alnum project (action # actions) report =
     Option.bind (classify uuid_text alnum project action)
       (\<lambda>entry. absorb_actions uuid_text alnum project actions (count_command entry report))"

definition absorb :: "(uuid \<Rightarrow> string) \<Rightarrow> (uchar \<Rightarrow> bool) \<Rightarrow> Project \<Rightarrow> CoverageReport \<Rightarrow> CoverageReport option" where
  "absorb uuid_text alnum project report =
     absorb_actions uuid_text alnum project (concat (map op_actions (prj_operations project))) report"

definition from_project :: "(uuid \<Rightarrow> string) \<Rightarrow> (uchar \<Rightarrow> bool) \<Rightarrow> Project \<Rightarrow> CoverageReport option" where
  "from_project uuid_text alnum project = absorb uuid_text alnum project report_default"

fun absorb_all :: "(uuid \<Rightarrow> string) \<Rightarrow> (uchar \<Rightarrow> bool) \<Rightarrow> Project list \<Rightarrow> CoverageReport \<Rightarrow> CoverageReport option" where
  "absorb_all uuid_text alnum [] report = Some report"
| "absorb_all uuid_text alnum (project # projects) report =
     Option.bind (absorb uuid_text alnum project report) (absorb_all uuid_text alnum projects)"

definition from_projects :: "(uuid \<Rightarrow> string) \<Rightarrow> (uchar \<Rightarrow> bool) \<Rightarrow> Project list \<Rightarrow> CoverageReport option" where
  "from_projects uuid_text alnum projects = absorb_all uuid_text alnum projects report_default"

definition newline :: string where "newline = [char_of (10::nat)]"

definition text_summary :: "(nat \<Rightarrow> nat \<Rightarrow> string) \<Rightarrow> CoverageReport \<Rightarrow> string" where
  "text_summary pct report =
     (let t = cov_totals report; total = max (tally_total t) 1
      in ''Coverage: '' @ show_nat (tally_typed t) @ '' typed ('' @ pct (tally_typed t) total @ ''%), ''
           @ show_nat (tally_inert_preserved t) @ '' inert-preserved ('' @ pct (tally_inert_preserved t) total @ ''%), ''
           @ show_nat (tally_unresolved t) @ '' unresolved ('' @ pct (tally_unresolved t) total @ ''%) of ''
           @ show_nat (tally_total t) @ '' commands'' @ newline
           @ concat (map (\<lambda>(name, tally). ''  .'' @ name @ '': '' @ show_nat (tally_typed tally) @ '' typed, ''
               @ show_nat (tally_inert_preserved tally) @ '' inert-preserved, ''
               @ show_nat (tally_unresolved tally) @ '' unresolved'' @ newline) (cov_per_command report)))"

section \<open>What the report counts\<close>

definition occurrences :: "(string \<times> CoverageKind \<Rightarrow> bool) \<Rightarrow> (string \<times> CoverageKind) list \<Rightarrow> nat" where
  "occurrences p entries = length (filter p entries)"

definition tally_of :: "(string \<Rightarrow> bool) \<Rightarrow> (string \<times> CoverageKind) list \<Rightarrow> CommandTally" where
  "tally_of p entries =
     \<lparr>tally_typed = occurrences (\<lambda>(name, kind). p name \<and> kind = Typed) entries,
      tally_inert_preserved = occurrences (\<lambda>(name, kind). p name \<and> kind = InertPreserved) entries,
      tally_unresolved = occurrences (\<lambda>(name, kind). p name \<and> kind = Unresolved) entries\<rparr>"

text \<open>The report of a list of classified actions.\<close>

definition counts :: "CoverageReport \<Rightarrow> (string \<times> CoverageKind) list \<Rightarrow> bool" where
  "counts report entries \<longleftrightarrow> bt_sorted (cov_per_command report)
     \<and> (\<forall>name. map_of (cov_per_command report) name
          = (if name \<in> fst ` set entries then Some (tally_of (\<lambda>n. n = name) entries) else None))
     \<and> cov_totals report = tally_of (\<lambda>n. True) entries"

lemma tally_of_snoc:
  "tally_of p (entries @ [(name, kind)]) = (if p name then tally_record kind (tally_of p entries) else tally_of p entries)"
  by (cases kind) (simp_all add: tally_of_def tally_record_def occurrences_def)

lemma tally_of_absent: "name \<notin> fst ` set entries \<Longrightarrow> tally_of (\<lambda>n. n = name) entries = tally_default"
  by (auto simp: tally_of_def tally_default_def occurrences_def filter_empty_conv image_iff)

lemma counts_default: "counts report_default []"
  by (simp add: counts_def report_default_def tally_of_def tally_default_def occurrences_def)

lemma counts_command:
  assumes "counts report entries"
  shows "counts (count_command (name, kind) report) (entries @ [(name, kind)])"
proof -
  have "(case map_of (cov_per_command report) name of None \<Rightarrow> tally_default | Some t \<Rightarrow> t) = tally_of (\<lambda>n. n = name) entries"
    using assms by (auto simp: counts_def tally_of_absent)
  then show ?thesis using assms by (auto simp: counts_def count_command_def tally_of_snoc)
qed

lemma classify_Some: "\<exists>entry. classify uuid_text alnum project action = Some entry"
  by (cases "act_payload action") (simp_all add: classify_def Let_def)

definition classified :: "(uuid \<Rightarrow> string) \<Rightarrow> (uchar \<Rightarrow> bool) \<Rightarrow> Project \<Rightarrow> (string \<times> CoverageKind) list" where
  "classified uuid_text alnum project =
     map (\<lambda>action. the (classify uuid_text alnum project action)) (concat (map op_actions (prj_operations project)))"

lemma absorb_actions_counts:
  assumes "counts report entries"
  shows "\<exists>report'. absorb_actions uuid_text alnum project actions report = Some report'
    \<and> counts report' (entries @ map (\<lambda>action. the (classify uuid_text alnum project action)) actions)"
  using assms
proof (induction actions arbitrary: report entries)
  case (Cons action actions)
  obtain name kind where e: "classify uuid_text alnum project action = Some (name, kind)"
    using classify_Some [of uuid_text alnum project action] by auto
  from Cons.IH [OF counts_command [OF Cons.prems, of name kind]] e show ?case by simp
qed simp

lemma absorb_all_counts:
  assumes "counts report entries"
  shows "\<exists>report'. absorb_all uuid_text alnum projects report = Some report'
    \<and> counts report' (entries @ concat (map (classified uuid_text alnum) projects))"
  using assms
proof (induction projects arbitrary: report entries)
  case (Cons project projects)
  from absorb_actions_counts [OF Cons.prems, of uuid_text alnum project "concat (map op_actions (prj_operations project))"]
  obtain r where r: "absorb uuid_text alnum project report = Some r"
    "counts r (entries @ classified uuid_text alnum project)"
    unfolding absorb_def classified_def by blast
  from Cons.IH [OF r(2)] r(1) show ?case by simp
qed simp

lemma occurrences_total:
  "tally_total (tally_of p entries) = occurrences (\<lambda>(name, kind). p name) entries"
proof (induction entries)
  case (Cons e entries)
  then show ?case by (cases e; cases "snd e") (auto simp: tally_total_def tally_of_def occurrences_def)
qed (simp add: tally_total_def tally_of_def occurrences_def)

section \<open>Properties\<close>

text \<open>C34: The coverage report counts every action exactly once. It never panics; a command is listed exactly when an action is
  classified under it, with its numbers of typed, preserved and unresolved actions; and the totals add up to the number of
  actions in the projects.\<close>

theorem coverage_exact:
  "\<exists>report. from_projects uuid_text alnum projects = Some report
    \<and> counts report (concat (map (classified uuid_text alnum) projects))
    \<and> tally_total (cov_totals report)
      = length (concat (map op_actions (concat (map prj_operations projects))))"
proof -
  from absorb_all_counts [OF counts_default, of uuid_text alnum projects] obtain report where
    r: "from_projects uuid_text alnum projects = Some report" "counts report (concat (map (classified uuid_text alnum) projects))"
    by (auto simp: from_projects_def)
  have "length (concat (map (classified uuid_text alnum) projects))
    = length (concat (map op_actions (concat (map prj_operations projects))))"
    by (induction projects) (simp_all add: classified_def)
  with r occurrences_total [of "\<lambda>n. True" "concat (map (classified uuid_text alnum) projects)"] show ?thesis
    by (auto simp: counts_def occurrences_def case_prod_unfold)
qed

end
