(* ===== verification/Editor_Server.thy ===== *)
theory Editor_Server
  imports Editor_Api Editor_History Platform_Model
begin

text \<open>
  The HTTP handlers of the project editor (\<^verbatim>\<open>editor/src/server.rs\<close>): a state machine over the sessions in memory
  and the files on disk. A request is what its handler gets from the router after the framework has taken it apart; the
  reply of a failed request is its status code and message.

  The editing handlers hold the lock on the sessions throughout and touch no file, so each is one step. Saving, deleting
  and renaming touch the sessions and the files in two separate steps, which are definitions of their own.

  \<open>ServerEnv\<close> holds what is not in the repository: the JSON library (\<open>Codec\<close> for the files, \<open>sv_project\<close> and its
  siblings for the values in requests and replies), the text formats of the compiler and the validator, and what the
  operating system lists. The campaign routes mounted beside these ones use the other two fields of the server's state
  and are modelled in \<^verbatim>\<open>Campaign_Handlers\<close>.
\<close>

record ProjectSession =
  ps_project :: Project
  ps_history :: "EditorCommand CommandHistory"

record AppState =
  app_store :: "string \<Rightarrow> ProjectSession option"
  app_disk :: Disk

definition AppState_new :: "Disk \<Rightarrow> AppState" where
  "AppState_new disk = \<lparr>app_store = Map.empty, app_disk = disk\<rparr>"

record ServerEnv =
  sv_codec :: Codec
  sv_projects_dir :: string
  sv_modified :: "string \<Rightarrow> string"
  sv_listing :: "Disk \<Rightarrow> (bool \<times> string) list"
  sv_formatters :: Formatters
  sv_ops_json :: "RuntimeOperation list \<Rightarrow> string option"
  sv_lowering_text :: "LoweringError \<Rightarrow> string"
  sv_validator :: ValidatorEnv
  sv_value :: "Project \<Rightarrow> Json option"
  sv_project :: "Json \<Rightarrow> string + Project"
  sv_operation :: "Json \<Rightarrow> string + Operation"
  sv_action :: "Json \<Rightarrow> string + Action"

record HistoryResponse =
  hr_can_undo :: bool
  hr_can_redo :: bool
  hr_undo_description :: "string option"
  hr_redo_description :: "string option"

datatype ProjectReply =
    ProjectsReply "ProjectSummary list"
  | ProjectCreated ProjectSummary
  | SummaryReply ProjectSummary
  | ProjectValue Json
  | SaveProjectResponse bool
  | DeleteProjectResponse bool
  | CompiledReply CompileResult
  | DiagnosticsReply "Diagnostic list"
  | UndoRedoResponse string
  | HistoryReply HistoryResponse

type_synonym ErrorResponse = "nat \<times> string"

type_synonym Handled = "(ErrorResponse + ProjectReply) \<times> AppState"

definition editor_error_to_response :: "EditorError \<Rightarrow> ErrorResponse" where
  "editor_error_to_response e =
     (case e of
        NotFound _ \<Rightarrow> (404, error_text e)
      | AlreadyExists _ \<Rightarrow> (409, error_text e)
      | InvalidName _ \<Rightarrow> (400, error_text e)
      | Io _ \<Rightarrow> (500, error_text e)
      | Serde _ \<Rightarrow> (500, error_text e)
      | Compile _ \<Rightarrow> (500, error_text e))"

definition bad_request :: "string \<Rightarrow> ErrorResponse" where
  "bad_request message = (400, message)"

definition internal_error :: "string \<Rightarrow> ErrorResponse" where
  "internal_error message = (500, message)"

definition not_loaded :: "string \<Rightarrow> ErrorResponse" where
  "not_loaded name = (404, ''Project '' @ quoted name @ '' not loaded. Load it first.'')"

definition map_error :: "EditorError + 'a \<Rightarrow> ErrorResponse + 'a" where
  "map_error r = (case r of Inl e \<Rightarrow> Inl (editor_error_to_response e) | Inr x \<Rightarrow> Inr x)"

section \<open>Projects on disk\<close>

definition fresh_session :: "Project \<Rightarrow> ProjectSession" where
  "fresh_session project = \<lparr>ps_project = project, ps_history = history_new\<rparr>"

definition store_insert :: "string \<Rightarrow> ProjectSession \<Rightarrow> AppState \<Rightarrow> AppState" where
  "store_insert name sess st = st\<lparr>app_store := (app_store st)(name \<mapsto> sess)\<rparr>"

definition store_remove :: "string \<Rightarrow> AppState \<Rightarrow> AppState" where
  "store_remove name st = st\<lparr>app_store := (app_store st)(name := None)\<rparr>"

definition project_value :: "ServerEnv \<Rightarrow> Project \<Rightarrow> ProjectReply" where
  "project_value E project = ProjectValue (case sv_value E project of None \<Rightarrow> JNull | Some v \<Rightarrow> v)"

definition summary_at :: "ServerEnv \<Rightarrow> string \<Rightarrow> Project \<Rightarrow> ProjectSummary" where
  "summary_at E stem project =
     \<lparr>sum_name = meta_name (prj_metadata project),
      sum_path = sv_projects_dir E @ ''/'' @ stem @ ''.json'',
      sum_created_at = meta_created_at (prj_metadata project),
      sum_updated_at = meta_updated_at (prj_metadata project),
      sum_operation_count = length (prj_operations project)\<rparr>"

definition handle_list_projects :: "ServerEnv \<Rightarrow> AppState \<Rightarrow> ErrorResponse + ProjectReply" where
  "handle_list_projects E st =
     Inr (ProjectsReply (list_projects (sv_codec E) (sv_projects_dir E) (sv_modified E) (sv_listing E (app_disk st)) (app_disk st)))"

definition handle_create_project :: "ServerEnv \<Rightarrow> uuid \<Rightarrow> string \<Rightarrow> string \<Rightarrow> AppState \<Rightarrow> Handled" where
  "handle_create_project E fresh now name st =
     (case create_project (sv_codec E) fresh now (app_disk st) name of
        (Inl e, disk) \<Rightarrow> (Inl (editor_error_to_response e), st\<lparr>app_disk := disk\<rparr>)
      | (Inr project, disk) \<Rightarrow>
          (Inr (ProjectCreated (summary_at E (meta_name (prj_metadata project)) project)), st\<lparr>app_disk := disk\<rparr>))"

definition handle_load_project :: "ServerEnv \<Rightarrow> string \<Rightarrow> AppState \<Rightarrow> Handled" where
  "handle_load_project E name st =
     (case (case app_store st name of
              Some _ \<Rightarrow> Inr st
            | None \<Rightarrow>
                map_res (\<lambda>project. store_insert name (fresh_session project) st)
                  (map_error (load_project (sv_codec E) (app_disk st) name))) of
        Inl e \<Rightarrow> (Inl e, st)
      | Inr st' \<Rightarrow>
          (case app_store st' name of
             None \<Rightarrow> (Inl (404, ''Project '' @ quoted name @ '' not found''), st')
           | Some sess \<Rightarrow> (Inr (project_value E (ps_project sess)), st')))"

text \<open>The project of a \<^verbatim>\<open>PUT\<close>, which has to carry the name in the path.\<close>

definition body_project :: "ServerEnv \<Rightarrow> string \<Rightarrow> Json \<Rightarrow> ErrorResponse + Project" where
  "body_project E name v =
     (case sv_project E v of
        Inl m \<Rightarrow> Inl (bad_request (''Invalid project JSON: '' @ m))
      | Inr project \<Rightarrow>
          if meta_name (prj_metadata project) \<noteq> name
          then Inl (bad_request (''Name mismatch: path has '' @ quoted name @ '' but project has ''
                 @ quoted (meta_name (prj_metadata project))))
          else Inr project)"

text \<open>The second step of a save: the session already holds the project when its file is written.\<close>

definition write_project :: "ServerEnv \<Rightarrow> Project \<Rightarrow> AppState \<Rightarrow> Handled" where
  "write_project E project st =
     (let (r, disk) = save_project (sv_codec E) (app_disk st) project
      in (map_res (\<lambda>_. SaveProjectResponse True) (map_error r), st\<lparr>app_disk := disk\<rparr>))"

definition handle_save_project :: "ServerEnv \<Rightarrow> string \<Rightarrow> Json \<Rightarrow> AppState \<Rightarrow> Handled" where
  "handle_save_project E name v st =
     (case body_project E name v of
        Inl e \<Rightarrow> (Inl e, st)
      | Inr project \<Rightarrow> write_project E project (store_insert name (fresh_session project) st))"

definition remove_project :: "string \<Rightarrow> AppState \<Rightarrow> Handled" where
  "remove_project name st =
     (let (r, disk) = delete_project (app_disk st) name
      in (map_res (\<lambda>_. DeleteProjectResponse True) (map_error r), st\<lparr>app_disk := disk\<rparr>))"

definition handle_delete_project :: "string \<Rightarrow> AppState \<Rightarrow> Handled" where
  "handle_delete_project name st = remove_project name (store_remove name st)"

text \<open>The second step of a rename: the session moves to the new key as it is.\<close>

definition move_session :: "string \<Rightarrow> string \<Rightarrow> AppState \<Rightarrow> AppState" where
  "move_session name new_name st =
     (case app_store st name of
        None \<Rightarrow> st
      | Some sess \<Rightarrow> store_insert new_name sess (store_remove name st))"

definition handle_rename_project :: "ServerEnv \<Rightarrow> string \<Rightarrow> string \<Rightarrow> string \<Rightarrow> AppState \<Rightarrow> Handled" where
  "handle_rename_project E now name new_name st =
     (case rename_project (sv_codec E) now (app_disk st) name new_name of
        (Inl e, disk) \<Rightarrow> (Inl (editor_error_to_response e), st\<lparr>app_disk := disk\<rparr>)
      | (Inr project, disk) \<Rightarrow>
          (Inr (SummaryReply (summary_at E new_name project)), move_session name new_name (st\<lparr>app_disk := disk\<rparr>)))"

definition handle_duplicate_project ::
  "ServerEnv \<Rightarrow> uuid \<Rightarrow> string \<Rightarrow> string \<Rightarrow> string \<Rightarrow> string \<Rightarrow> AppState \<Rightarrow> Handled" where
  "handle_duplicate_project E fresh now later name new_name st =
     (case duplicate_project (sv_codec E) fresh now later (app_disk st) name new_name of
        (Inl e, disk) \<Rightarrow> (Inl (editor_error_to_response e), st\<lparr>app_disk := disk\<rparr>)
      | (Inr project, disk) \<Rightarrow> (Inr (SummaryReply (summary_at E new_name project)), st\<lparr>app_disk := disk\<rparr>))"

text \<open>Both of these read the file, not the session.\<close>

definition handle_compile_project :: "ServerEnv \<Rightarrow> string \<Rightarrow> AppState \<Rightarrow> ErrorResponse + ProjectReply" where
  "handle_compile_project E name st =
     map_res CompiledReply
       (map_error (compile_project (sv_codec E) (sv_formatters E) (sv_ops_json E) (sv_lowering_text E) (app_disk st) name))"

definition handle_validate_project :: "ServerEnv \<Rightarrow> string \<Rightarrow> AppState \<Rightarrow> ErrorResponse + ProjectReply" where
  "handle_validate_project E name st =
     map_res DiagnosticsReply (map_error (validate_project_file (sv_codec E) (sv_validator E) (app_disk st) name))"

section \<open>Editing\<close>

text \<open>\<open>from_value\<close> of the JSON library, with the reply when it fails.\<close>

definition parsed :: "string \<Rightarrow> (Json \<Rightarrow> string + 'a) \<Rightarrow> Json \<Rightarrow> ErrorResponse + 'a" where
  "parsed what dec v =
     (case dec v of Inl m \<Rightarrow> Inl (bad_request (''Invalid '' @ what @ '' JSON: '' @ m)) | Inr x \<Rightarrow> Inr x)"

text \<open>The common part of the editing handlers: find the session, build the command from its project, execute it.\<close>

definition edit :: "ServerEnv \<Rightarrow> string \<Rightarrow> (Project \<Rightarrow> ErrorResponse + EditorCommand) \<Rightarrow> AppState \<Rightarrow> Handled" where
  "edit E name make_cmd st =
     (case app_store st name of
        None \<Rightarrow> (Inl (not_loaded name), st)
      | Some sess \<Rightarrow>
          (case make_cmd (ps_project sess) of
             Inl e \<Rightarrow> (Inl e, st)
           | Inr cmd \<Rightarrow>
               (let (r, history, project) = execute EditorCommands cmd (ps_history sess) (ps_project sess)
                in (case r of Inl m \<Rightarrow> Inl (internal_error m) | Inr _ \<Rightarrow> Inr (project_value E project),
                    store_insert name \<lparr>ps_project = project, ps_history = history\<rparr> st))))"

definition out_of_range :: "string \<Rightarrow> nat \<Rightarrow> string" where
  "out_of_range what index = what @ '' index '' @ show_nat index @ '' out of range''"

definition add_operation_cmd :: "Operation \<Rightarrow> Project \<Rightarrow> ErrorResponse + EditorCommand" where
  "add_operation_cmd operation project = Inr (AddOperation (length (prj_operations project)) operation)"

definition handle_add_operation :: "ServerEnv \<Rightarrow> string \<Rightarrow> Json \<Rightarrow> AppState \<Rightarrow> Handled" where
  "handle_add_operation E name v st =
     (case parsed ''operation'' (sv_operation E) v of
        Inl e \<Rightarrow> (Inl e, st)
      | Inr operation \<Rightarrow> edit E name (add_operation_cmd operation) st)"

definition remove_operation_cmd :: "nat \<Rightarrow> Project \<Rightarrow> ErrorResponse + EditorCommand" where
  "remove_operation_cmd index project =
     (if index \<ge> length (prj_operations project)
      then Inl (bad_request (out_of_range ''Operation'' index @ len_text (length (prj_operations project))))
      else Inr (RemoveOperation index (prj_operations project ! index)))"

definition handle_remove_operation :: "ServerEnv \<Rightarrow> string \<Rightarrow> nat \<Rightarrow> AppState \<Rightarrow> Handled" where
  "handle_remove_operation E name index st = edit E name (remove_operation_cmd index) st"

definition modify_operation_cmd :: "nat \<Rightarrow> Operation \<Rightarrow> Project \<Rightarrow> ErrorResponse + EditorCommand" where
  "modify_operation_cmd index new_op project =
     (if index \<ge> length (prj_operations project)
      then Inl (bad_request (out_of_range ''Operation'' index @ len_text (length (prj_operations project))))
      else Inr (ModifyOperation index (prj_operations project ! index) new_op))"

definition handle_modify_operation :: "ServerEnv \<Rightarrow> string \<Rightarrow> nat \<Rightarrow> Json \<Rightarrow> AppState \<Rightarrow> Handled" where
  "handle_modify_operation E name index v st =
     (case parsed ''operation'' (sv_operation E) v of
        Inl e \<Rightarrow> (Inl e, st)
      | Inr new_op \<Rightarrow> edit E name (modify_operation_cmd index new_op) st)"

text \<open>Adding an action checks nothing: an index out of range is an error of the command.\<close>

definition add_action_cmd :: "nat \<Rightarrow> Action \<Rightarrow> Project \<Rightarrow> ErrorResponse + EditorCommand" where
  "add_action_cmd op_index action project = Inr (AddAction op_index action)"

definition handle_add_action :: "ServerEnv \<Rightarrow> string \<Rightarrow> nat \<Rightarrow> Json \<Rightarrow> AppState \<Rightarrow> Handled" where
  "handle_add_action E name op_index v st =
     (case parsed ''action'' (sv_action E) v of
        Inl e \<Rightarrow> (Inl e, st)
      | Inr action \<Rightarrow> edit E name (add_action_cmd op_index action) st)"

definition remove_action_cmd :: "nat \<Rightarrow> nat \<Rightarrow> Project \<Rightarrow> ErrorResponse + EditorCommand" where
  "remove_action_cmd op_index index project =
     (if op_index \<ge> length (prj_operations project)
      then Inl (bad_request (out_of_range ''Operation'' op_index))
      else
        let actions = op_actions (prj_operations project ! op_index);
            actual_index = (if index = usize_max then length actions - 1 else index)
        in if actual_index \<ge> length actions
           then Inl (bad_request (out_of_range ''Action'' actual_index @ len_text (length actions)))
           else Inr (RemoveAction op_index actual_index (actions ! actual_index)))"

definition handle_remove_action :: "ServerEnv \<Rightarrow> string \<Rightarrow> nat \<Rightarrow> nat \<Rightarrow> AppState \<Rightarrow> Handled" where
  "handle_remove_action E name op_index index st = edit E name (remove_action_cmd op_index index) st"

definition modify_action_cmd :: "nat \<Rightarrow> nat \<Rightarrow> Action \<Rightarrow> Project \<Rightarrow> ErrorResponse + EditorCommand" where
  "modify_action_cmd op_index act_index new_action project =
     (if op_index \<ge> length (prj_operations project)
      then Inl (bad_request (out_of_range ''Operation'' op_index))
      else
        let actions = op_actions (prj_operations project ! op_index)
        in if act_index \<ge> length actions
           then Inl (bad_request (out_of_range ''Action'' act_index @ len_text (length actions)))
           else Inr (ModifyAction op_index act_index (actions ! act_index) new_action))"

definition handle_modify_action :: "ServerEnv \<Rightarrow> string \<Rightarrow> nat \<Rightarrow> nat \<Rightarrow> Json \<Rightarrow> AppState \<Rightarrow> Handled" where
  "handle_modify_action E name op_index act_index v st =
     (case parsed ''action'' (sv_action E) v of
        Inl e \<Rightarrow> (Inl e, st)
      | Inr new_action \<Rightarrow> edit E name (modify_action_cmd op_index act_index new_action) st)"

section \<open>Undo, redo and the history\<close>

definition step_history ::
  "string \<Rightarrow> (EditorCommand CommandHistory \<Rightarrow> Project \<Rightarrow> (string + string) \<times> EditorCommand CommandHistory \<times> Project)
    \<Rightarrow> AppState \<Rightarrow> Handled" where
  "step_history name move st =
     (case app_store st name of
        None \<Rightarrow> (Inl (not_loaded name), st)
      | Some sess \<Rightarrow>
          (let (r, history, project) = move (ps_history sess) (ps_project sess)
           in (case r of Inl m \<Rightarrow> Inl (bad_request m) | Inr desc \<Rightarrow> Inr (UndoRedoResponse desc),
               store_insert name \<lparr>ps_project = project, ps_history = history\<rparr> st)))"

definition handle_undo :: "string \<Rightarrow> AppState \<Rightarrow> Handled" where
  "handle_undo name st = step_history name (undo EditorCommands) st"

definition handle_redo :: "string \<Rightarrow> AppState \<Rightarrow> Handled" where
  "handle_redo name st = step_history name (redo EditorCommands) st"

definition handle_get_history :: "string \<Rightarrow> AppState \<Rightarrow> ErrorResponse + ProjectReply" where
  "handle_get_history name st =
     (case app_store st name of
        None \<Rightarrow> Inl (not_loaded name)
      | Some sess \<Rightarrow>
          Inr (HistoryReply
            \<lparr>hr_can_undo = can_undo (ps_history sess), hr_can_redo = can_redo (ps_history sess),
             hr_undo_description = undo_description EditorCommands (ps_history sess),
             hr_redo_description = redo_description EditorCommands (ps_history sess)\<rparr>))"

section \<open>The directory form\<close>

text \<open>
  These two build the path from the name without \<open>validate_name\<close>. The model keeps a directory under the name, so for
  names with a path separator, where two names can be one directory, it says nothing.
\<close>

definition handle_save_project_dir :: "ServerEnv \<Rightarrow> string \<Rightarrow> Json \<Rightarrow> AppState \<Rightarrow> Handled" where
  "handle_save_project_dir E name v st =
     (case body_project E name v of
        Inl e \<Rightarrow> (Inl e, st)
      | Inr project \<Rightarrow>
          (let (r, disk) = save_dir_as (sv_codec E) (app_disk st) name project
           in (map_res (\<lambda>_. SaveProjectResponse True) (map_error r), st\<lparr>app_disk := disk\<rparr>)))"

definition handle_load_project_dir :: "ServerEnv \<Rightarrow> string \<Rightarrow> AppState \<Rightarrow> ErrorResponse + ProjectReply" where
  "handle_load_project_dir E name st =
     map_res (project_value E) (map_error (load_project_dir (sv_codec E) name (map_of (project_dirs (app_disk st)) name)))"

section \<open>The router\<close>

datatype ProjectRequest =
    GetProjects
  | PostProject uuid string string
  | GetProject string
  | PutProject string Json
  | DeleteProject string
  | PostRename string string string
  | PostDuplicate uuid string string string string
  | PostCompile string
  | PostValidate string
  | PostAddOperation string Json
  | PostRemoveOperation string nat
  | PostModifyOperation string nat Json
  | PostAddAction string nat Json
  | PostRemoveAction string nat nat
  | PostModifyAction string nat nat Json
  | PostUndo string
  | PostRedo string
  | GetHistory string
  | PutProjectDir string Json
  | GetProjectDir string

text \<open>A handler that only reads the state.\<close>

definition reads :: "(AppState \<Rightarrow> ErrorResponse + ProjectReply) \<Rightarrow> AppState \<Rightarrow> Handled" where
  "reads handler st = (handler st, st)"

fun build_router :: "ServerEnv \<Rightarrow> ProjectRequest \<Rightarrow> AppState \<Rightarrow> Handled" where
  "build_router E GetProjects = reads (handle_list_projects E)"
| "build_router E (PostProject fresh now name) = handle_create_project E fresh now name"
| "build_router E (GetProject name) = handle_load_project E name"
| "build_router E (PutProject name v) = handle_save_project E name v"
| "build_router E (DeleteProject name) = handle_delete_project name"
| "build_router E (PostRename now name new_name) = handle_rename_project E now name new_name"
| "build_router E (PostDuplicate fresh now later name new_name) = handle_duplicate_project E fresh now later name new_name"
| "build_router E (PostCompile name) = reads (handle_compile_project E name)"
| "build_router E (PostValidate name) = reads (handle_validate_project E name)"
| "build_router E (PostAddOperation name v) = handle_add_operation E name v"
| "build_router E (PostRemoveOperation name index) = handle_remove_operation E name index"
| "build_router E (PostModifyOperation name index v) = handle_modify_operation E name index v"
| "build_router E (PostAddAction name op_index v) = handle_add_action E name op_index v"
| "build_router E (PostRemoveAction name op_index index) = handle_remove_action E name op_index index"
| "build_router E (PostModifyAction name op_index act_index v) = handle_modify_action E name op_index act_index v"
| "build_router E (PostUndo name) = handle_undo name"
| "build_router E (PostRedo name) = handle_redo name"
| "build_router E (GetHistory name) = reads (handle_get_history name)"
| "build_router E (PutProjectDir name v) = handle_save_project_dir E name v"
| "build_router E (GetProjectDir name) = reads (handle_load_project_dir E name)"

section \<open>Reachable states\<close>

text \<open>The states the server reaches from a start without sessions, when every request satisfies \<open>ok\<close>.\<close>

inductive reached :: "ServerEnv \<Rightarrow> (ProjectRequest \<Rightarrow> AppState \<Rightarrow> bool) \<Rightarrow> AppState \<Rightarrow> bool"
  for E :: ServerEnv and ok :: "ProjectRequest \<Rightarrow> AppState \<Rightarrow> bool" where
  reached_start: "reached E ok (AppState_new disk)"
| reached_step: "reached E ok st \<Longrightarrow> ok req st \<Longrightarrow> build_router E req st = (r, st') \<Longrightarrow> reached E ok st'"

text \<open>A client that removes actions only from the end of an operation.\<close>

definition removes_last :: "ProjectRequest \<Rightarrow> AppState \<Rightarrow> bool" where
  "removes_last req st \<longleftrightarrow>
     (case req of
        PostRemoveAction name op_index index \<Rightarrow>
          (case app_store st name of
             None \<Rightarrow> True
           | Some sess \<Rightarrow>
               let ops = prj_operations (ps_project sess)
               in index = usize_max \<or> op_index \<ge> length ops \<or> Suc index \<ge> length (op_actions (ops ! op_index)))
      | _ \<Rightarrow> True)"

text \<open>Every session's history lies on a time line through its project.\<close>

definition tracked :: "AppState \<Rightarrow> bool" where
  "tracked st \<longleftrightarrow> (\<forall>name sess. app_store st name = Some sess \<longrightarrow> editor.timeline (ps_history sess, ps_project sess))"

lemma trackedD: "tracked st \<Longrightarrow> app_store st name = Some sess \<Longrightarrow> editor.timeline (ps_history sess, ps_project sess)"
  by (simp add: tracked_def)

named_theorems handlers

declare handle_list_projects_def [handlers] handle_create_project_def [handlers] handle_load_project_def [handlers]
  handle_save_project_def [handlers] write_project_def [handlers] handle_delete_project_def [handlers]
  remove_project_def [handlers] handle_rename_project_def [handlers] handle_duplicate_project_def [handlers]
  handle_add_operation_def [handlers] handle_remove_operation_def [handlers] handle_modify_operation_def [handlers]
  handle_add_action_def [handlers] handle_remove_action_def [handlers] handle_modify_action_def [handlers]
  handle_undo_def [handlers] handle_redo_def [handlers] handle_save_project_dir_def [handlers] reads_def [handlers]

lemma app_store_simps [simp]:
  "app_store (store_insert name sess st) = (app_store st)(name \<mapsto> sess)"
  "app_store (store_remove name st) = (app_store st)(name := None)"
  "app_disk (store_insert name sess st) = app_disk st" "app_disk (store_remove name st) = app_disk st"
  by (simp_all add: store_insert_def store_remove_def)

lemma store_insert_same [simp]: "app_store st name = Some sess \<Longrightarrow> store_insert name sess st = st"
  by (cases st) (auto simp: store_insert_def)

lemma fresh_tracked: "editor.timeline (ps_history (fresh_session project), ps_project (fresh_session project))"
  by (simp add: fresh_session_def history_new_def editor.timeline_def)

lemma tracked_disk [simp]: "tracked (st\<lparr>app_disk := disk\<rparr>) = tracked st"
  by (simp add: tracked_def)

lemma tracked_insert:
  "tracked st \<Longrightarrow> editor.timeline (ps_history sess, ps_project sess) \<Longrightarrow> tracked (store_insert name sess st)"
  by (simp add: tracked_def)

lemma tracked_remove: "tracked st \<Longrightarrow> tracked (store_remove name st)"
  by (simp add: tracked_def)

lemma tracked_move: "tracked st \<Longrightarrow> tracked (move_session name new_name st)"
  by (auto simp: move_session_def intro: tracked_insert tracked_remove trackedD split: option.split)

lemmas tracked_intros = tracked_insert tracked_remove tracked_move fresh_tracked

lemma edit_tracked:
  assumes "tracked st" "edit E name make_cmd st = (r, st')"
    and "\<And>sess cmd. app_store st name = Some sess \<Longrightarrow> make_cmd (ps_project sess) = Inr cmd \<Longrightarrow> recorded cmd (ps_project sess)"
  shows "tracked st'"
proof (cases "app_store st name")
  case (Some sess)
  show ?thesis
  proof (cases "make_cmd (ps_project sess)")
    case (Inr cmd)
    obtain q h p where x: "execute EditorCommands cmd (ps_history sess) (ps_project sess) = (q, h, p)" by (metis prod_cases3)
    from editor.execute_timeline [OF trackedD [OF assms(1) Some] assms(3) [OF Some Inr] x] Some Inr x assms(1,2)
    show ?thesis by (auto simp: edit_def intro!: tracked_insert)
  qed (use Some assms(1,2) in \<open>simp add: edit_def\<close>)
qed (use assms(1,2) in \<open>simp add: edit_def\<close>)

lemma project_step_tracked:
  assumes "tracked st" "step_history name move st = (r, st')"
    and "\<And>h p q h' p'. editor.timeline (h, p) \<Longrightarrow> move h p = (q, h', p') \<Longrightarrow> editor.timeline (h', p')"
  shows "tracked st'"
proof (cases "app_store st name")
  case (Some sess)
  obtain q h p where x: "move (ps_history sess) (ps_project sess) = (q, h, p)" by (metis prod_cases3)
  from assms(3) [OF trackedD [OF assms(1) Some] x] Some x assms(1,2)
  show ?thesis by (auto simp: step_history_def intro!: tracked_insert)
qed (use assms(1,2) in \<open>simp add: step_history_def\<close>)

lemma undo_timeline: "editor.timeline (h, p) \<Longrightarrow> undo EditorCommands h p = (q, h', p') \<Longrightarrow> editor.timeline (h', p')"
  by (rule editor.step_timeline [OF step_undo])

lemma redo_timeline: "editor.timeline (h, p) \<Longrightarrow> redo EditorCommands h p = (q, h', p') \<Longrightarrow> editor.timeline (h', p')"
  by (rule editor.step_timeline [OF step_redo])

text \<open>The commands the handlers build are recorded for the project they are built from.\<close>

lemma built_recorded:
  "add_operation_cmd operation p = Inr cmd \<Longrightarrow> recorded cmd p"
  "remove_operation_cmd index p = Inr cmd \<Longrightarrow> recorded cmd p"
  "modify_operation_cmd index new_op p = Inr cmd \<Longrightarrow> recorded cmd p"
  "add_action_cmd op_index action p = Inr cmd \<Longrightarrow> recorded cmd p"
  "modify_action_cmd op_index act_index new_action p = Inr cmd \<Longrightarrow> recorded cmd p"
  by (auto simp: add_action_cmd_def add_operation_cmd_def remove_operation_cmd_def modify_operation_cmd_def modify_action_cmd_def Let_def
      split: if_splits)

lemma remove_action_recorded:
  assumes "remove_action_cmd op_index index (ps_project sess) = Inr cmd" "app_store st name = Some sess"
    and "removes_last (PostRemoveAction name op_index index) st"
  shows "recorded cmd (ps_project sess)"
proof -
  let ?ops = "prj_operations (ps_project sess)"
  let ?n = "length (op_actions (?ops ! op_index))"
  define i where "i = (if index = usize_max then ?n - 1 else index)"
  from assms(1) have c: "cmd = RemoveAction op_index i (op_actions (?ops ! op_index) ! i)" "op_index < length ?ops" "i < ?n"
    by (auto simp: remove_action_cmd_def Let_def i_def split: if_splits)
  moreover from assms(2,3) c(2,3) have "Suc i = ?n" by (auto simp: removes_last_def Let_def i_def)
  moreover have "action_index i (op_actions (?ops ! op_index)) = i" using calculation(4) by (auto simp: action_index_def)
  ultimately show ?thesis by (simp add: Let_def)
qed

lemma edits_tracked:
  assumes "tracked st" "edit E name make_cmd st = (r, st')" "\<And>p cmd. make_cmd p = Inr cmd \<Longrightarrow> recorded cmd p"
  shows "tracked st'"
  using edit_tracked [OF assms(1,2)] assms(3) by blast

lemma project_request_tracked:
  assumes t: "tracked st" and ok: "removes_last req st" and r: "build_router E req st = (r, st')"
  shows "tracked st'"
proof (cases req)
  case (PostRemoveAction name op_index index)
  with r have "edit E name (remove_action_cmd op_index index) st = (r, st')" by (simp add: handlers)
  from edit_tracked [OF t this] remove_action_recorded ok PostRemoveAction show ?thesis by blast
next
  case (GetProject name)
  with r t show ?thesis
    by (auto simp: handlers map_res_Inr_iff intro!: tracked_intros split: option.splits sum.splits)
next
  case (PostUndo name)
  with r project_step_tracked [OF t _ undo_timeline] show ?thesis by (simp add: handlers)
next
  case (PostRedo name)
  with r project_step_tracked [OF t _ redo_timeline] show ?thesis by (simp add: handlers)
qed (use r t built_recorded edits_tracked [OF t] in
    \<open>auto simp: handlers intro!: tracked_intros split: prod.splits sum.splits\<close>)

lemma reached_tracked: "reached E ok st \<Longrightarrow> (\<And>req st. ok req st \<Longrightarrow> removes_last req st) \<Longrightarrow> tracked st"
proof (induction rule: reached.induct)
  case (reached_step st req r st')
  then show ?case by (blast intro: project_request_tracked)
qed (simp add: tracked_def AppState_new_def)

section \<open>What a request can change\<close>

text \<open>The names whose files a request writes or removes.\<close>

fun writes :: "ProjectRequest \<Rightarrow> string list" where
  "writes (PostProject fresh now name) = [name]"
| "writes (PutProject name v) = [name]"
| "writes (DeleteProject name) = [name]"
| "writes (PostRename now name new_name) = [name, new_name]"
| "writes (PostDuplicate fresh now later name new_name) = [new_name]"
| "writes (PutProjectDir name v) = [name]"
| "writes _ = []"

lemma edit_disk: "edit E name make_cmd st = (r, st') \<Longrightarrow> app_disk st' = app_disk st"
  by (auto simp: edit_def split: option.splits sum.splits prod.splits)

lemma step_history_disk: "step_history name move st = (r, st') \<Longrightarrow> app_disk st' = app_disk st"
  by (auto simp: step_history_def split: option.splits prod.splits)

lemma edit_error: "edit E name make_cmd st = (Inl e, st') \<Longrightarrow> st' = st"
  by (auto simp: edit_def execute_def Let_def split: option.splits sum.splits prod.splits)

lemma undo_error:
  assumes "tracked st" "handle_undo name st = (Inl e, st')"
  shows "st' = st"
proof (cases "app_store st name")
  case (Some sess)
  show ?thesis
  proof (cases "can_undo (ps_history sess)")
    case True
    from editor.undo_redo [OF trackedD [OF assms(1) Some] this] Some assms(2) show ?thesis
      by (auto simp: handle_undo_def step_history_def)
  qed (use Some assms(2) in \<open>simp add: handle_undo_def step_history_def undo_def can_undo_def\<close>)
qed (use assms(2) in \<open>simp add: handle_undo_def step_history_def\<close>)

lemma redo_error:
  assumes "tracked st" "handle_redo name st = (Inl e, st')"
  shows "st' = st"
proof (cases "app_store st name")
  case (Some sess)
  show ?thesis
  proof (cases "can_redo (ps_history sess)")
    case True
    from editor.redo_undo [OF trackedD [OF assms(1) Some] this] Some assms(2) show ?thesis
      by (auto simp: handle_redo_def step_history_def)
  qed (use Some assms(2) in \<open>simp add: handle_redo_def step_history_def redo_def can_redo_def\<close>)
qed (use assms(2) in \<open>simp add: handle_redo_def step_history_def\<close>)

text \<open>The description an undo or a redo answers with is the one the history announces.\<close>

lemma undo_names: "undo T h s = (Inr d, h', s') \<Longrightarrow> undo_description T h = Some d"
  by (auto simp: undo_def undo_description_def last_description_def Let_def split: if_splits sum.splits)

lemma redo_names: "redo T h s = (Inr d, h', s') \<Longrightarrow> redo_description T h = Some d"
  by (auto simp: redo_def redo_description_def last_description_def Let_def split: if_splits sum.splits)

definition files_of :: "Disk \<Rightarrow> string \<Rightarrow> string option \<times> ProjectDir option" where
  "files_of disk name = (map_of (json_files disk) name, map_of (project_dirs disk) name)"

lemma files_of_saved:
  "save_project_to_path C disk n project = (r, disk') \<Longrightarrow> name \<noteq> n \<Longrightarrow> files_of disk' name = files_of disk name"
  "save_dir_as C disk n project = (r, disk') \<Longrightarrow> name \<noteq> n \<Longrightarrow> files_of disk' name = files_of disk name"
  by (auto simp: save_project_to_path_def save_dir_as_def files_of_def update_conv' split: sum.splits prod.splits)

lemma files_of_save:
  "save_project C disk project = (r, disk') \<Longrightarrow> name \<noteq> meta_name (prj_metadata project) \<Longrightarrow> files_of disk' name = files_of disk name"
  by (auto simp: save_project_def Let_def dest: files_of_saved split: sum.splits if_splits)

lemma files_of_create:
  "create_project C fresh now disk n = (r, disk') \<Longrightarrow> name \<noteq> n \<Longrightarrow> files_of disk' name = files_of disk name"
  by (auto simp: create_project_def Let_def dest: files_of_saved split: sum.splits if_splits prod.splits)

lemma files_of_delete:
  "delete_project disk n = (r, disk') \<Longrightarrow> name \<noteq> n \<Longrightarrow> files_of disk' name = files_of disk name"
  by (auto simp: delete_project_def files_of_def delete_conv' split: sum.splits if_splits PathResolution.splits)

lemma files_of_rename:
  "rename_project C now disk n n' = (r, disk') \<Longrightarrow> name \<noteq> n \<Longrightarrow> name \<noteq> n' \<Longrightarrow> files_of disk' name = files_of disk name"
  by (auto simp: rename_project_def Let_def files_of_def delete_conv' dest!: files_of_saved [of _ _ _ _ _ _ name]
      split: sum.splits if_splits prod.splits)

text \<open>A duplicate is written under the name its new project has after a round trip through the file.\<close>

fun stores_duplicates :: "ServerEnv \<Rightarrow> ProjectRequest \<Rightarrow> bool" where
  "stores_duplicates E (PostDuplicate fresh now later name new_name) \<longleftrightarrow>
     survives (enc_project (sv_codec E)) (dec_project (sv_codec E)) (new_project fresh now new_name)"
| "stores_duplicates E _ \<longleftrightarrow> True"

lemma load_created:
  assumes "create_project C fresh now disk n = (Inr created, disk')" "survives (enc_project C) (dec_project C) (new_project fresh now n)"
  shows "load_project C disk' n = Inr (new_project fresh now n)"
  using created_disk [OF assms(1)] survives_dec [OF assms(2)]
  by (auto simp: load_project_def load_resolved_def resolve_project_path_def load_project_from_path_def update_conv')

lemma files_of_duplicate:
  assumes "duplicate_project C fresh now later disk n n' = (r, disk')" "name \<noteq> n'"
    and "survives (enc_project C) (dec_project C) (new_project fresh now n')"
  shows "files_of disk' name = files_of disk name"
proof (cases "load_project C disk n")
  case (Inr project)
  obtain q disk1 where c: "create_project C fresh now disk n' = (q, disk1)" by (metis surj_pair)
  note d1 = files_of_create [OF c assms(2)]
  show ?thesis
  proof (cases q)
    case r: (Inr created)
    from load_created [OF c [unfolded r] assms(3)] Inr c r assms(1) obtain x where
      "save_project C disk1 (copy_contents later project (new_project fresh now n')) = (x, disk')"
      by (auto simp: duplicate_project_def Let_def split: prod.splits)
    from files_of_save [OF this, of name] assms(2) d1 show ?thesis by (simp add: copy_contents_def new_project_def)
  qed (use c d1 Inr assms(1) in \<open>simp add: duplicate_project_def\<close>)
qed (use assms(1) in \<open>simp add: duplicate_project_def\<close>)

lemma request_files:
  assumes r: "build_router E req st = (r, st')" and n: "name \<notin> set (writes req)" and c: "stores_duplicates E req"
  shows "files_of (app_disk st') name = files_of (app_disk st) name"
proof (cases req)
  case (GetProject n)
  with r show ?thesis by (auto simp: handlers map_res_Inr_iff split: option.splits sum.splits)
next
  case (PutProject n v)
  with r \<open>name \<notin> _\<close> show ?thesis
    by (auto simp: handlers body_project_def Let_def dest!: files_of_save [of _ _ _ _ _ name] split: sum.splits if_splits prod.splits)
next
  case (PostRename now n n')
  with r \<open>name \<notin> _\<close> show ?thesis
    by (auto simp: handlers move_session_def dest!: files_of_rename [of _ _ _ _ _ _ _ name] split: sum.splits prod.splits option.splits)
next
  case (PostDuplicate fresh now later n n')
  with r \<open>name \<notin> _\<close> c show ?thesis
    by (auto simp: handlers dest!: files_of_duplicate [of _ _ _ _ _ _ _ _ _ name] split: sum.splits prod.splits)
qed (use r n in \<open>auto simp: handlers dest: edit_disk step_history_disk files_of_delete [of _ _ _ _ name]
      files_of_create [of _ _ _ _ _ _ _ name] files_of_saved [of _ _ _ _ _ _ name] split: sum.splits prod.splits\<close>)

lemma requests_files:
  "(\<And>req. req \<in> set reqs \<Longrightarrow> name \<notin> set (writes req) \<and> stores_duplicates E req)
     \<Longrightarrow> files_of (app_disk (fold (\<lambda>req st. snd (build_router E req st)) reqs st)) name = files_of (app_disk st) name"
proof (induction reqs arbitrary: st)
  case (Cons req reqs)
  from request_files [of E req st "fst (build_router E req st)" "snd (build_router E req st)" name] Cons.prems [of req]
  have "files_of (app_disk (snd (build_router E req st))) name = files_of (app_disk st) name" by simp
  with Cons.IH [of "snd (build_router E req st)"] Cons.prems show ?case by simp
qed simp

lemma load_files_cong: "files_of d name = files_of d' name \<Longrightarrow> load_project C d name = load_project C d' name"
  by (intro load_project_cong) (auto simp: files_of_def)

text \<open>What a save leaves on disk, in the file form.\<close>

lemma load_saved:
  assumes "validate_name (meta_name (prj_metadata p)) = Inr ()" "map_of (project_dirs disk) (meta_name (prj_metadata p)) = None"
    and "survives (enc_project C) (dec_project C) p"
  shows "fst (save_project C disk p) = Inr ()"
    "load_project C (snd (save_project C disk p)) (meta_name (prj_metadata p)) = Inr p"
  using assms
  by (auto simp: save_project_def save_project_to_path_def load_project_def load_resolved_def resolve_project_path_def
      load_project_from_path_def survives_def update_conv' split: sum.splits)

section \<open>Observations\<close>

text \<open>A save that is refused because of the name has already installed the session: later requests serve a project that
  no file holds.\<close>

lemma refused_save_is_served:
  assumes "sv_project E v = Inr p" "meta_name (prj_metadata p) = name" "validate_name name = Inl e" "sv_value E p = Some w"
  shows "\<exists>st1. build_router E (PutProject name v) st = (Inl (editor_error_to_response e), st1)
    \<and> app_disk st1 = app_disk st \<and> build_router E (GetProject name) st1 = (Inr (ProjectValue w), st1)"
  using assms
  by (auto simp: handlers body_project_def save_project_def map_error_def project_value_def fresh_session_def)

text \<open>\<^verbatim>\<open>save-dir\<close> takes any name, \<^verbatim>\<open>..\<close> among them; every other route refuses what it has written.\<close>

lemma dir_routes_skip_validation:
  assumes "sv_project E v = Inr p" "meta_name (prj_metadata p) = name" "validate_name name = Inl e"
    and "fst (save_project_dir (sv_codec E) (map_of (project_dirs (app_disk st)) name) p) = Inr ()"
  shows "\<exists>st1. build_router E (PutProjectDir name v) st = (Inr (SaveProjectResponse True), st1)
    \<and> map_of (project_dirs (app_disk st1)) name \<noteq> None
    \<and> build_router E (PostCompile name) st1 = (Inl (editor_error_to_response e), st1)
    \<and> fst (build_router E (DeleteProject name) st1) = Inl (editor_error_to_response e)"
  using assms
  by (auto simp: handlers body_project_def save_dir_as_def map_error_def handle_compile_project_def compile_project_def
      load_project_def delete_project_def update_conv' split: prod.splits)

text \<open>Two saves of one name can interleave so that the session holds the later project and the file the earlier one.\<close>

lemma save_race:
  assumes "fst (save_project (sv_codec E) (app_disk st) p) = Inr ()" "validate_name name = Inr ()"
    and "meta_name (prj_metadata p) = name" "meta_name (prj_metadata q) = name" "p \<noteq> q"
    and "map_of (project_dirs (app_disk st)) name = None"
    and "survives (enc_project (sv_codec E)) (dec_project (sv_codec E)) p"
    and "survives (enc_project (sv_codec E)) (dec_project (sv_codec E)) q"
  shows "let st1 = store_insert name (fresh_session q) (store_insert name (fresh_session p) st);
             st2 = snd (write_project E p (snd (write_project E q st1)))
         in map_option ps_project (app_store st2 name) = Some q \<and> load_project (sv_codec E) (app_disk st2) name = Inr p"
  using assms load_saved(2) [of p "snd (save_project (sv_codec E) (app_disk st) q)" "sv_codec E"]
  by (auto simp: write_project_def fresh_session_def save_project_def save_project_to_path_def survives_def
      split: prod.splits sum.splits)

text \<open>An index the client got wrong is its error in every editing handler but one.\<close>

lemma add_action_blames_server:
  assumes "app_store st name = Some sess" "sv_action E v = Inr action" "op_index \<ge> length (prj_operations (ps_project sess))"
  shows "\<exists>m. build_router E (PostAddAction name op_index v) st = (Inl (500, m), st)"
    "\<exists>m. build_router E (PostModifyAction name op_index i v) st = (Inl (400, m), st)"
  using assms
  by (auto simp: handlers parsed_def edit_def add_action_cmd_def modify_action_cmd_def execute_def internal_error_def bad_request_def)

section \<open>An example server\<close>

definition J9 :: "Json \<Rightarrow> string + string" where
  "J9 j = (case j of JString t \<Rightarrow> Inr t | _ \<Rightarrow> Inl ''expected a string'')"

definition E9 :: ServerEnv where
  "E9 = \<lparr>sv_codec = C4\<lparr>enc_project := (\<lambda>p. Inr (meta_name (prj_metadata p))),
                         dec_project := (\<lambda>json. Inr (new_project 7 ''now'' json))\<rparr>,
     sv_projects_dir = ''projects'', sv_modified = (\<lambda>path. ''now''), sv_listing = (\<lambda>disk. []),
     sv_formatters = \<lparr>fmt_uuid = (\<lambda>u. ''u''), fmt_uuid_debug = (\<lambda>u. ''u''), fmt_escape = (\<lambda>c. [])\<rparr>,
     sv_ops_json = (\<lambda>ops. None), sv_lowering_text = (\<lambda>e. ''refused''),
     sv_validator = \<lparr>show_uuid = (\<lambda>u. ''u''), show_f32 = (\<lambda>x. ''x''), hash_order = (\<lambda>n names. names)\<rparr>,
     sv_value = (\<lambda>p. Some (JString (meta_name (prj_metadata p)))),
     sv_project = (\<lambda>j. map_res (new_project 7 ''now'') (J9 j)),
     sv_operation = (\<lambda>j. map_res (Operation_new 2) (J9 j)),
     sv_action = (\<lambda>j. Inl ''expected an action'')\<rparr>"

definition disk9 :: Disk where
  "disk9 = \<lparr>json_files = [], project_dirs = []\<rparr>"

definition route9 :: Project where
  "route9 = new_project 7 ''now'' ''route''"

definition st9 :: AppState where
  "st9 = snd (build_router E9 (PostAddOperation ''route'' (JString ''walk''))
           (snd (build_router E9 (PutProject ''route'' (JString ''route'')) (AppState_new disk9))))"

lemma reached9: "reached E9 removes_last st9"
proof -
  let ?st = "snd (build_router E9 (PutProject ''route'' (JString ''route'')) (AppState_new disk9))"
  have "reached E9 removes_last ?st"
    by (rule reached_step [of E9 removes_last "AppState_new disk9" "PutProject ''route'' (JString ''route'')"
        "fst (build_router E9 (PutProject ''route'' (JString ''route'')) (AppState_new disk9))", OF reached_start])
      (simp_all add: removes_last_def)
  then show ?thesis
    by (rule reached_step [of E9 removes_last ?st "PostAddOperation ''route'' (JString ''walk'')"
        "fst (build_router E9 (PostAddOperation ''route'' (JString ''walk'')) ?st)"])
      (simp_all add: removes_last_def st9_def)
qed

lemma some_the: "\<not> Option.is_none x \<Longrightarrow> x = Some (the x)"
  by (cases x) auto

lemma session9: "app_store st9 ''route'' = Some (the (app_store st9 ''route''))"
  by (rule some_the) code_simp

lemma saved9:
  "sv_project E9 (JString ''route'') = Inr route9" "validate_name (meta_name (prj_metadata route9)) = Inr ()"
  "meta_name (prj_metadata route9) = ''route''"
  "survives (enc_project (sv_codec E9)) (dec_project (sv_codec E9)) route9"
proof -
  show "validate_name (meta_name (prj_metadata route9)) = Inr ()" by code_simp
qed (simp_all add: E9_def J9_def route9_def new_project_def survives_def)

section \<open>Properties\<close>


text \<open>A request that fails leaves things as they were. In every such reachable state, an error reply to a request that writes
  no file means that nothing has changed; an error reply to any other request, except the saving or deletion of a project, means
  that no session has.\<close>

theorem failed_project_requests_keep:
  assumes "reached E removes_last st" and "build_router E req st = (Inl e, st')"
  shows "(writes req = [] \<longrightarrow> st' = st)
    \<and> ((\<forall>name v. req \<noteq> PutProject name v) \<and> (\<forall>name. req \<noteq> DeleteProject name) \<longrightarrow> app_store st' = app_store st)"
proof -
  have tracked: "tracked st" by (rule reached_tracked [OF assms(1)])
  show ?thesis
  proof (cases req)
    case (GetProject name)
    with assms(2) show ?thesis by (auto simp: handlers map_res_Inr_iff split: option.splits sum.splits)
  next
    case (PostUndo name)
    with assms(2) have "handle_undo name st = (Inl e, st')" by simp
    then have "st' = st" by (rule undo_error [OF tracked])
    then show ?thesis by simp
  next
    case (PostRedo name)
    with assms(2) have "handle_redo name st = (Inl e, st')" by simp
    then have "st' = st" by (rule redo_error [OF tracked])
    then show ?thesis by simp
  qed (use assms(2) in \<open>auto simp: handlers dest: edit_error split: prod.splits sum.splits\<close>)
qed


text \<open>C33: A renamed project can no longer be saved from what the server sends. When a loaded project is renamed, its session moves to
  the new name with the old name still in its metadata: reading the project under the new name gives the old one, and writing that
  back is refused.\<close>

theorem renamed_project_unsaveable:
  assumes "app_store st name = Some sess" and "meta_name (prj_metadata (ps_project sess)) = name"
    and "build_router E (PostRename now name new_name) st = (Inr reply, st1)"
    and "sv_value E (ps_project sess) = Some v" and "sv_project E v = Inr (ps_project sess)"
  shows "build_router E (GetProject new_name) st1 = (Inr (ProjectValue v), st1)
    \<and> build_router E (PutProject new_name v) st1 =
        (Inl (400, ''Name mismatch: path has '' @ quoted new_name @ '' but project has '' @ quoted name), st1)"
proof -
  from assms(3) obtain project disk where r: "rename_project (sv_codec E) now (app_disk st) name new_name = (Inr project, disk)"
    and st1: "st1 = move_session name new_name (st\<lparr>app_disk := disk\<rparr>)"
    by (auto simp: handlers split: prod.splits sum.splits)
  from r have "name \<noteq> new_name"
    by (auto simp: rename_project_def load_resolved_def resolve_project_path_def load_project_from_path_def name_taken_def
        split: sum.splits if_splits)
  moreover from st1 assms(1) have "app_store st1 new_name = Some sess" by (simp add: move_session_def)
  ultimately show ?thesis
    using assms(2,4,5) by (auto simp: handlers body_project_def project_value_def bad_request_def)
qed


lemma failed_project_requests_keep_witness:
  "snd (build_router E9 (PostRemoveOperation ''route'' 1) st9) = st9"
proof -
  let ?r = "build_router E9 (PostRemoveOperation ''route'' 1) st9"
  have "isl (fst ?r)" by code_simp
  then have "?r = (Inl (projl (fst ?r)), snd ?r)" by (cases ?r; cases "fst ?r") auto
  from failed_project_requests_keep [OF reached9 this] show ?thesis by simp
qed


lemma renamed_project_unsaveable_witness:
  "\<exists>m. fst (build_router E9 (PutProject ''loop'' (JString ''route''))
        (snd (build_router E9 (PostRename ''later'' ''route'' ''loop'') (snd (build_router E9 (PutProject ''route'' (JString ''route''))
           (AppState_new disk9)))))) = Inl (400, m)"
proof -
  let ?st = "snd (build_router E9 (PutProject ''route'' (JString ''route'')) (AppState_new disk9))"
  let ?r = "build_router E9 (PostRename ''later'' ''route'' ''loop'') ?st"
  have s: "app_store ?st ''route'' = Some (fresh_session route9)"
    using saved9(1,3) by (simp add: handlers body_project_def case_prod_unfold Let_def)
  have "\<not> isl (fst ?r)" by code_simp
  then have r: "?r = (Inr (projr (fst ?r)), snd ?r)" by (cases ?r; cases "fst ?r") auto
  have v: "sv_value E9 (ps_project (fresh_session route9)) = Some (JString ''route'')"
    using saved9(3) by (simp add: E9_def fresh_session_def)
  have n: "meta_name (prj_metadata (ps_project (fresh_session route9))) = ''route''"
    "sv_project E9 (JString ''route'') = Inr (ps_project (fresh_session route9))"
    using saved9(1,3) by (simp_all add: fresh_session_def)
  from renamed_project_unsaveable [OF s n(1) r v n(2)] show ?thesis by (simp only: fst_conv) blast
qed

end
