(* ===== verification/Query_Db.thy ===== *)
theory Query_Db
  imports Query_Model Float64
begin

text \<open>
  What the query server reads from its database (\<^verbatim>\<open>SentinelQueryServer/src/db.rs\<close>): quests with their chains and
  objectives, NPCs, vendors, trainers, items, objects, and the check of references.

  The SQL engine is the parameter \<open>Sqlite\<close>: \<open>sq_query\<close> maps the text of a statement and its parameters to an error
  (preparing or binding) or to the rows, each of which may be an error of reading on. The statements are those of the
  code, letter by letter. Reading a column of a row as a Rust type is \<open>col\<close>, with the conversions of the binding library:
  an \<open>i64\<close> is read from an integer only, an \<open>f64\<close> from a real or an integer, an \<open>Option\<close> also from \<open>NULL\<close>.
  Every \<open>as\<close> conversion to a narrower integer keeps the low bits, as in Rust. A poisoned lock is not modelled.
\<close>

type_synonym i64 = "64 word"

type_synonym i32 = "32 word"

section \<open>Answer types of the server\<close>

record QuestChainLink =
  ql_quest_id :: u32
  ql_title :: string
  ql_exclusive_group :: i32

record QuestChain =
  qc_quest_id :: u32
  qc_title :: string
  qc_prerequisites :: "QuestChainLink list"
  qc_follow_ups :: "QuestChainLink list"
  qc_chain_depth :: u32
  qc_branches :: "QuestChainLink list"

record ObjectiveResponseItem =
  ori_index :: u8
  ori_kind :: string
  ori_entry :: u32
  ori_name :: string
  ori_count :: u32
  ori_source_creatures :: "u32 list"

record QuestObjectivesResponse =
  qor_quest_id :: u32
  qor_objectives :: "ObjectiveResponseItem list"
  qor_objective_text :: string

record ItemInfo =
  ii_entry :: u32
  ii_name :: string
  ii_quality :: i32
  ii_sell_price :: u32

record ValidationDiagnostic =
  vdg_severity :: string
  vdg_code :: string
  vdg_message :: string

section \<open>Rows\<close>

datatype SqlValue = SqlNull | SqlInt i64 | SqlReal f64 | SqlText string | SqlBlob "u8 list"

record Sqlite =
  sq_query :: "string \<Rightarrow> SqlValue list \<Rightarrow> string + (string + SqlValue list) list"
  sq_bad_column :: "string \<Rightarrow> SqlValue list \<Rightarrow> nat \<Rightarrow> string"
  sq_no_rows :: string

text \<open>A reader turns a row of a statement into a value or the text of the binding library's error.\<close>

type_synonym 'a reader = "Sqlite \<Rightarrow> string \<Rightarrow> SqlValue list \<Rightarrow> string + 'a"

definition and_then :: "'e + 'a \<Rightarrow> ('a \<Rightarrow> 'e + 'b) \<Rightarrow> 'e + 'b" where
  "and_then r f = (case r of Inl e \<Rightarrow> Inl e | Inr x \<Rightarrow> f x)"

definition col :: "(SqlValue \<Rightarrow> 'a option) \<Rightarrow> nat \<Rightarrow> 'a reader" where
  "col conv n S sql cells =
     (case (if n < length cells then conv (cells ! n) else None) of
        None \<Rightarrow> Inl (sq_bad_column S sql cells n)
      | Some x \<Rightarrow> Inr x)"

definition as_i64 :: "SqlValue \<Rightarrow> i64 option" where
  "as_i64 v = (case v of SqlInt i \<Rightarrow> Some i | _ \<Rightarrow> None)"

definition sql_i32 :: "SqlValue \<Rightarrow> i32 option" where
  "sql_i32 v =
     (case v of SqlInt i \<Rightarrow> if - (2 ^ 31) \<le> sint i \<and> sint i < 2 ^ 31 then Some (ucast i) else None | _ \<Rightarrow> None)"

definition as_f64 :: "SqlValue \<Rightarrow> f64 option" where
  "as_f64 v = (case v of SqlReal x \<Rightarrow> Some x | SqlInt i \<Rightarrow> Some (f64_of_i64 i) | _ \<Rightarrow> None)"

definition as_string :: "SqlValue \<Rightarrow> string option" where
  "as_string v = (case v of SqlText s \<Rightarrow> Some s | _ \<Rightarrow> None)"

definition nullable :: "(SqlValue \<Rightarrow> 'a option) \<Rightarrow> SqlValue \<Rightarrow> 'a option option" where
  "nullable conv v = (case v of SqlNull \<Rightarrow> Some None | _ \<Rightarrow> map_option Some (conv v))"

definition both :: "'a reader \<Rightarrow> 'b reader \<Rightarrow> ('a \<times> 'b) reader" where
  "both f g S sql cells = and_then (f S sql cells) (\<lambda>x. map_res (Pair x) (g S sql cells))"

definition reading :: "('a \<Rightarrow> 'b) \<Rightarrow> 'a reader \<Rightarrow> 'b reader" where
  "reading h f S sql cells = map_res h (f S sql cells)"

definition int_col :: "nat \<Rightarrow> i64 reader" where
  "int_col = col as_i64"

definition text_col :: "nat \<Rightarrow> string option reader" where
  "text_col = col (nullable as_string)"

definition or_empty :: "string option \<Rightarrow> string" where
  "or_empty t = (case t of None \<Rightarrow> [] | Some s \<Rightarrow> s)"

text \<open>\<open>query_map\<close>: the first error, of a row or of its conversion, ends the reading.\<close>

fun read_rows :: "'a reader \<Rightarrow> Sqlite \<Rightarrow> string \<Rightarrow> (string + SqlValue list) list \<Rightarrow> string + 'a list" where
  "read_rows f S sql [] = Inr []"
| "read_rows f S sql (Inl e # rows) = Inl e"
| "read_rows f S sql (Inr cells # rows) = and_then (f S sql cells) (\<lambda>x. map_res (Cons x) (read_rows f S sql rows))"

definition query_map :: "Sqlite \<Rightarrow> string \<Rightarrow> SqlValue list \<Rightarrow> 'a reader \<Rightarrow> string + 'a list" where
  "query_map S sql params f = and_then (sq_query S sql params) (read_rows f S sql)"

text \<open>\<open>rows.next().transpose()\<close>: only the first row is read.\<close>

definition query_first :: "Sqlite \<Rightarrow> string \<Rightarrow> SqlValue list \<Rightarrow> 'a reader \<Rightarrow> string + 'a option" where
  "query_first S sql params f =
     and_then (sq_query S sql params)
       (\<lambda>rows. case rows of [] \<Rightarrow> Inr None | r # _ \<Rightarrow> and_then r (\<lambda>cells. map_res Some (f S sql cells)))"

text \<open>\<open>query_row\<close>: a result without rows is an error.\<close>

definition query_row :: "Sqlite \<Rightarrow> string \<Rightarrow> SqlValue list \<Rightarrow> 'a reader \<Rightarrow> string + 'a" where
  "query_row S sql params f =
     and_then (query_first S sql params f) (\<lambda>x. case x of None \<Rightarrow> Inl (sq_no_rows S) | Some y \<Rightarrow> Inr y)"

definition first_of :: "'a list \<Rightarrow> 'a option" where
  "first_of xs = (case xs of [] \<Rightarrow> None | x # _ \<Rightarrow> Some x)"

definition or_nothing :: "string + 'a list \<Rightarrow> 'a list" where
  "or_nothing r = (case r of Inl _ \<Rightarrow> [] | Inr xs \<Rightarrow> xs)"

definition sql_u32 :: "u32 \<Rightarrow> SqlValue" where
  "sql_u32 n = SqlInt (ucast n)"

definition backslash :: string where "backslash = [char_of (92::nat)]"

definition low32 :: "i64 \<Rightarrow> u32" where "low32 i = ucast i"

definition low8 :: "i64 \<Rightarrow> u8" where "low8 i = ucast i"

section \<open>Quests\<close>

definition sql_quest :: string where
  "sql_quest = ''SELECT entry, Title, QuestLevel, MinLevel, PrevQuestId, NextQuestId, NextQuestInChain, '' @
     ''ExclusiveGroup FROM quest_template WHERE entry = ?1''"

definition sql_quest_giver :: string where
  "sql_quest_giver = ''SELECT id FROM creature_questrelation WHERE quest = ?1 LIMIT 1''"

definition sql_quest_finisher :: string where
  "sql_quest_finisher = ''SELECT id FROM creature_involvedrelation WHERE quest = ?1 LIMIT 1''"

definition sql_creature_ids :: string where
  "sql_creature_ids =
     ''SELECT ReqCreatureOrGOId1, ReqCreatureOrGOId2, ReqCreatureOrGOId3, ReqCreatureOrGOId4 FROM '' @
     ''quest_template WHERE entry = ?1''"

definition sql_creature_slots :: string where
  "sql_creature_slots =
     ''SELECT ReqCreatureOrGOId1, ReqCreatureOrGOCount1, ReqCreatureOrGOId2, '' @
     ''ReqCreatureOrGOCount2, ReqCreatureOrGOId3, ReqCreatureOrGOCount3, ReqCreatureOrGOId4, '' @
     ''ReqCreatureOrGOCount4 FROM quest_template WHERE entry = ?1''"

definition sql_item_slots :: string where
  "sql_item_slots =
     ''SELECT ReqItemId1, ReqItemCount1, ReqItemId2, ReqItemCount2, ReqItemId3, ReqItemCount3, '' @
     ''ReqItemId4, ReqItemCount4 FROM quest_template WHERE entry = ?1''"

definition sql_dropped_by :: string where
  "sql_dropped_by = ''SELECT entry FROM creature_loot_template WHERE item = ?1''"

text \<open>Four pairs of columns: the target and the count of each objective slot.\<close>

definition pair_cols :: "nat \<Rightarrow> (i64 \<times> i64) reader" where
  "pair_cols n = both (int_col n) (int_col (Suc n))"

definition slots_row :: "(i64 \<times> i64) list reader" where
  "slots_row =
     reading (\<lambda>(a, b, c, d). [a, b, c, d]) (both (pair_cols 0) (both (pair_cols 2) (both (pair_cols 4) (pair_cols 6))))"

definition creature_objective :: "nat \<times> i64 \<times> i64 \<Rightarrow> QuestObjective option" where
  "creature_objective slot =
     (let (i, target, required) = slot
      in if target = 0 \<or> sint required \<le> 0 then None
         else Some \<lparr>qo_index = of_nat (i + 1),
                    qo_kind = (if sint target > 0 then KillCreature else InteractObject),
                    qo_target_entry = (if sint target > 0 then low32 target else low32 (- target)),
                    qo_required = low32 required, qo_sources = []\<rparr>)"

definition item_sources :: "Sqlite \<Rightarrow> i64 \<Rightarrow> u32 list" where
  "item_sources S item = map low32 (or_nothing (query_map S sql_dropped_by [SqlInt item] (int_col 0)))"

definition item_objective :: "Sqlite \<Rightarrow> nat \<times> i64 \<times> i64 \<Rightarrow> QuestObjective option" where
  "item_objective S slot =
     (let (i, item, required) = slot
      in if sint item \<le> 0 \<or> sint required \<le> 0 then None
         else Some \<lparr>qo_index = of_nat (i + 1), qo_kind = CollectItem, qo_target_entry = low32 item,
                    qo_required = low32 required, qo_sources = item_sources S item\<rparr>)"

definition objective_names :: "i64 \<times> i64 \<times> i64 \<times> i64 \<Rightarrow> string list" where
  "objective_names ids =
     (let (c1, c2, c3, c4) = ids in map (\<lambda>c. ''Objective '' @ show_int (sint c)) (filter (\<lambda>c. sint c > 0) [c1, c2, c3, c4]))"

text \<open>The numbered slots of the first row, if there is one.\<close>

definition first_slots :: "(i64 \<times> i64) list list \<Rightarrow> (nat \<times> i64 \<times> i64) list" where
  "first_slots rows = (case rows of [] \<Rightarrow> [] | slots # _ \<Rightarrow> List.enumerate 0 slots)"

definition positive_ids :: "i64 list \<Rightarrow> u32 list" where
  "positive_ids ids = map low32 (filter (\<lambda>x. sint x > 0) ids)"

definition quest_row :: "(i64 \<times> string option \<times> i64 \<times> i64 \<times> i64 \<times> i64 \<times> i64 \<times> i64) reader" where
  "quest_row =
     both (int_col 0) (both (text_col 1) (both (int_col 2) (both (int_col 3)
       (both (int_col 4) (both (int_col 5) (both (int_col 6) (int_col 7)))))))"

definition get_quest :: "Sqlite \<Rightarrow> u32 \<Rightarrow> string + QuestDetail option" where
  "get_quest S n =
     and_then (query_map S sql_quest [sql_u32 n] quest_row) (\<lambda>rows.
       case rows of
         [] \<Rightarrow> Inr None
       | (entry, title, quest_level, min_level, prev_quest, next_quest, next_in_chain, _) # _ \<Rightarrow>
     and_then (query_map S sql_quest_giver [sql_u32 n] (int_col 0)) (\<lambda>givers.
     and_then (query_map S sql_quest_finisher [sql_u32 n] (int_col 0)) (\<lambda>finishers.
     and_then (query_map S sql_creature_ids [sql_u32 n]
         (both (int_col 0) (both (int_col 1) (both (int_col 2) (int_col 3))))) (\<lambda>ids.
     and_then (query_map S sql_creature_slots [sql_u32 n] slots_row) (\<lambda>creature_rows.
     and_then (query_map S sql_item_slots [sql_u32 n] slots_row) (\<lambda>item_rows.
       Inr (Some
         \<lparr>qd_id = low32 entry, qd_title = or_empty title, qd_level = low8 quest_level, qd_min_level = low8 min_level,
          qd_required_quests = positive_ids [prev_quest], qd_next_quests = positive_ids [next_quest, next_in_chain],
          qd_giver_entry = map_option low32 (first_of givers), qd_finisher_entry = map_option low32 (first_of finishers),
          qd_objectives = (case ids of [] \<Rightarrow> [] | c # _ \<Rightarrow> objective_names c),
          qd_structured_objectives =
            List.map_filter creature_objective (first_slots creature_rows)
            @ List.map_filter (item_objective S) (first_slots item_rows)\<rparr>)))))))"

subsection \<open>Chains\<close>

definition sql_chain_quest :: string where
  "sql_chain_quest =
     ''SELECT entry, Title, PrevQuestId, NextQuestId, NextQuestInChain, ExclusiveGroup FROM '' @
     ''quest_template WHERE entry = ?1''"

definition sql_chain_link :: string where
  "sql_chain_link = ''SELECT Title, ExclusiveGroup FROM quest_template WHERE entry = ?1''"

definition sql_prerequisites :: string where
  "sql_prerequisites =
     ''SELECT entry, Title, ExclusiveGroup FROM quest_template WHERE NextQuestId = ?1 AND entry != '' @ ''?2''"

definition sql_branches :: string where
  "sql_branches =
     ''SELECT entry, Title, ExclusiveGroup FROM quest_template WHERE ExclusiveGroup = ?1 AND entry '' @ ''!= ?2''"

definition sql_prev_quest :: string where
  "sql_prev_quest = ''SELECT PrevQuestId FROM quest_template WHERE entry = ?1''"

text \<open>A link that cannot be read counts as absent.\<close>

definition resolve_link :: "Sqlite \<Rightarrow> i64 \<Rightarrow> QuestChainLink option" where
  "resolve_link S quest =
     (if sint quest \<le> 0 then None
      else case query_map S sql_chain_link [SqlInt quest] (both (text_col 0) (int_col 1)) of
             Inl _ \<Rightarrow> None
           | Inr rows \<Rightarrow>
               map_option (\<lambda>(title, grp). \<lparr>ql_quest_id = low32 quest, ql_title = or_empty title,
                  ql_exclusive_group = low32 grp\<rparr>) (first_of rows))"

definition link_row :: "QuestChainLink reader" where
  "link_row =
     reading (\<lambda>(entry, title, grp). \<lparr>ql_quest_id = low32 entry, ql_title = or_empty title, ql_exclusive_group = low32 grp\<rparr>)
       (both (int_col 0) (both (text_col 1) (int_col 2)))"

definition push_link :: "QuestChainLink \<Rightarrow> QuestChainLink list \<Rightarrow> QuestChainLink list" where
  "push_link link links =
     (if \<exists>l\<in>set links. ql_quest_id l = ql_quest_id link then links else links @ [link])"

definition push_maybe :: "QuestChainLink option \<Rightarrow> QuestChainLink list \<Rightarrow> QuestChainLink list" where
  "push_maybe link links = (case link of None \<Rightarrow> links | Some l \<Rightarrow> push_link l links)"

text \<open>The loop of \<open>compute_chain_depth\<close>: at most as many steps as the first argument.\<close>

fun depth_steps :: "nat \<Rightarrow> Sqlite \<Rightarrow> i64 \<Rightarrow> u32 \<Rightarrow> u32" where
  "depth_steps 0 S prev depth = depth"
| "depth_steps (Suc n) S prev depth =
     (case query_row S sql_prev_quest [SqlInt prev] (col (nullable as_i64) 0) of
        Inr (Some next) \<Rightarrow> if sint next > 0 then depth_steps n S next (depth + 1) else depth + 1
      | _ \<Rightarrow> depth + 1)"

definition compute_chain_depth :: "Sqlite \<Rightarrow> i64 \<Rightarrow> u32" where
  "compute_chain_depth S prev = (if sint prev \<le> 0 then 1 else depth_steps 100 S prev 1)"

definition get_quest_chain :: "Sqlite \<Rightarrow> u32 \<Rightarrow> string + QuestChain option" where
  "get_quest_chain S n =
     and_then (query_map S sql_chain_quest [sql_u32 n]
         (both (int_col 0) (both (text_col 1) (both (int_col 2) (both (int_col 3) (both (int_col 4) (int_col 5))))))) (\<lambda>rows.
       case rows of
         [] \<Rightarrow> Inr None
       | (entry, title, prev_quest, next_quest, next_in_chain, grp) # _ \<Rightarrow>
           let own = (if sint prev_quest > 0 then push_maybe (resolve_link S prev_quest) [] else [])
           in and_then (query_map S sql_prerequisites [sql_u32 n, SqlInt prev_quest] link_row) (\<lambda>others.
              let prerequisites = fold push_link others own;
                  follow_ups = fold (\<lambda>quest. push_maybe (resolve_link S quest)) [next_quest, next_in_chain] []
              in and_then
                   (if sint grp > 0 then query_map S sql_branches [SqlInt grp, sql_u32 n] link_row else Inr []) (\<lambda>branches.
                   Inr (Some
                     \<lparr>qc_quest_id = low32 entry, qc_title = or_empty title, qc_prerequisites = prerequisites,
                      qc_follow_ups = follow_ups, qc_chain_depth = compute_chain_depth S prev_quest,
                      qc_branches = branches\<rparr>))))"

subsection \<open>Objectives\<close>

definition sql_objectives :: string where
  "sql_objectives = ''SELECT entry, Title, Objectives FROM quest_template WHERE entry = ?1''"

definition sql_creature_name :: string where
  "sql_creature_name = ''SELECT Name FROM creature_template WHERE Entry = ?1''"

definition sql_item_name :: string where
  "sql_item_name = ''SELECT name FROM item_template WHERE entry = ?1''"

definition sql_object_name :: string where
  "sql_object_name = ''SELECT name FROM gameobject_template WHERE entry = ?1''"

text \<open>\<open>creature_name\<close>, \<open>item_name\<close> and \<open>go_name\<close>: the first name that is not \<open>NULL\<close>, or a stand-in.\<close>

definition name_or :: "Sqlite \<Rightarrow> string \<Rightarrow> string \<Rightarrow> u32 \<Rightarrow> string" where
  "name_or S sql what entry =
     (case List.map_filter (\<lambda>x. x) (or_nothing (query_map S sql [sql_u32 entry] (text_col 0))) of
        [] \<Rightarrow> what @ '' '' @ show_word entry
      | name # _ \<Rightarrow> name)"

definition count_label :: "i64 \<Rightarrow> string" where
  "count_label required = (if sint required > 1 then show_int (sint required) @ '' '' else [])"

definition creature_item :: "Sqlite \<Rightarrow> nat \<times> i64 \<times> i64 \<Rightarrow> (ObjectiveResponseItem \<times> string) option" where
  "creature_item S slot =
     (let (i, target, required) = slot
      in if target = 0 \<or> sint required \<le> 0 then None
         else let kill = (sint target > 0);
                  entry = (if kill then low32 target else low32 (- target));
                  name = (if kill then name_or S sql_creature_name ''Creature'' entry
                          else name_or S sql_object_name ''Object'' entry)
              in Some (\<lparr>ori_index = of_nat (i + 1), ori_kind = (if kill then ''kill'' else ''interact''), ori_entry = entry,
                        ori_name = name, ori_count = low32 required, ori_source_creatures = []\<rparr>,
                       (if kill then ''Kill'' else ''Interact with'') @ '' '' @ count_label required @ name))"

definition item_item :: "Sqlite \<Rightarrow> u8 \<Rightarrow> nat \<times> i64 \<times> i64 \<Rightarrow> (ObjectiveResponseItem \<times> string) option" where
  "item_item S base_index slot =
     (let (i, item, required) = slot
      in if sint item \<le> 0 \<or> sint required \<le> 0 then None
         else let name = name_or S sql_item_name ''Item'' (low32 item)
              in Some (\<lparr>ori_index = base_index + of_nat i + 1, ori_kind = ''collect'', ori_entry = low32 item,
                        ori_name = name, ori_count = low32 required, ori_source_creatures = item_sources S item\<rparr>,
                       ''Collect '' @ count_label required @ name))"

definition get_quest_objectives :: "Sqlite \<Rightarrow> u32 \<Rightarrow> string + QuestObjectivesResponse option" where
  "get_quest_objectives S n =
     and_then (query_map S sql_objectives [sql_u32 n] (both (int_col 0) (both (text_col 1) (text_col 2)))) (\<lambda>rows.
       case rows of
         [] \<Rightarrow> Inr None
       | (entry, _, obj_text) # _ \<Rightarrow>
           and_then (query_map S sql_creature_slots [sql_u32 n] slots_row) (\<lambda>creature_rows.
           and_then (query_map S sql_item_slots [sql_u32 n] slots_row) (\<lambda>item_rows.
             let creatures = List.map_filter (creature_item S) (first_slots creature_rows);
                 base_index = of_nat (length creatures);
                 items = List.map_filter (item_item S base_index) (first_slots item_rows);
                 objectives = creatures @ items
             in Inr (Some
                  \<lparr>qor_quest_id = low32 entry, qor_objectives = map fst objectives,
                   qor_objective_text =
                     (if objectives \<noteq> [] then join '', '' (map snd objectives) else or_empty obj_text)\<rparr>))))"

definition sql_distinct_sources :: string where
  "sql_distinct_sources = ''SELECT DISTINCT entry FROM creature_loot_template WHERE item = ?1''"

definition get_item_sources :: "Sqlite \<Rightarrow> u32 \<Rightarrow> string + u32 list" where
  "get_item_sources S item = map_res (map low32) (query_map S sql_distinct_sources [sql_u32 item] (int_col 0))"

definition sql_quest_search :: string where
  "sql_quest_search =
     ''SELECT entry, Title, QuestLevel, MinLevel, ZoneOrSort FROM quest_template WHERE Title LIKE '' @ ''?1''"

text \<open>\<open>zone_name\<close> is the zone catalog's, of the theory of the spawns.\<close>

definition search_quests :: "(i64 \<Rightarrow> string) \<Rightarrow> Sqlite \<Rightarrow> string \<Rightarrow> string + QuestSummary list" where
  "search_quests zone_name S query =
     query_map S sql_quest_search [SqlText (''%'' @ query @ ''%'')]
       (reading (\<lambda>(entry, title, level, min_level, zone).
            \<lparr>qs_id = low32 entry, qs_title = or_empty title, qs_level = low8 level, qs_min_level = low8 min_level,
             qs_zone = zone_name zone\<rparr>)
         (both (int_col 0) (both (text_col 1) (both (int_col 2) (both (int_col 3) (int_col 4))))))"

section \<open>Creatures\<close>

definition sql_npc :: string where
  "sql_npc =
     ''SELECT ct.Entry, ct.Name, ct.Faction, ct.NpcFlags, c.position_x, c.position_y, '' @
     ''c.position_z, c.map, ct.MinLevel, ct.Rank FROM creature_template ct LEFT JOIN creature c ON '' @
     ''c.id = ct.Entry WHERE ct.Entry = ?1''"

definition sql_npc_loot :: string where
  "sql_npc_loot =
     ''SELECT clt.item, it.name, clt.ChanceOrQuestChance FROM creature_loot_template clt LEFT JOIN '' @
     ''item_template it ON it.entry = clt.item WHERE clt.entry = ?1 ORDER BY '' @
     ''ABS(clt.ChanceOrQuestChance) DESC, clt.item''"

definition sql_npc_quests :: string where
  "sql_npc_quests =
     ''SELECT r.quest, qt.Title, r.role FROM ( SELECT quest, 'starter' AS role FROM '' @
     ''creature_questrelation WHERE id = ?1 UNION ALL SELECT quest, 'finisher' AS role FROM '' @
     ''creature_involvedrelation WHERE id = ?1 ) r LEFT JOIN quest_template qt ON qt.entry = '' @
     ''r.quest ORDER BY r.role, r.quest''"

definition npc_roles :: "i64 \<Rightarrow> string list" where
  "npc_roles flags =
     map snd (filter (\<lambda>(mask, role). flags AND mask \<noteq> 0)
       [(2, ''QuestGiver''), (128, ''Vendor''), (16, ''Trainer''), (4096, ''Repairer''), (64, ''Innkeeper''),
        (8192, ''FlightMaster''), (131072, ''Banker''), (262144, ''Auctioneer'')])"

text \<open>\<open>level.clamp(0, u8::MAX as i64) as u8\<close>.\<close>

definition clamp_u8 :: "i64 \<Rightarrow> u8" where
  "clamp_u8 i = (if sint i < 0 then 0 else if sint i > 255 then 255 else low8 i)"

definition classification_from_rank :: "i64 \<Rightarrow> string" where
  "classification_from_rank rank =
     (if rank = 1 then ''elite'' else if rank = 2 then ''rare elite'' else if rank = 3 then ''boss''
      else if rank = 4 then ''rare'' else ''normal'')"

definition loot_row :: "LootEntry reader" where
  "loot_row =
     reading (\<lambda>(item, name, chance). \<lparr>le_item = low32 item, le_name = or_empty name, le_drop_chance = f32_of_f64 (f64_abs chance)\<rparr>)
       (both (int_col 0) (both (text_col 1) (col as_f64 2)))"

definition npc_quest_row :: "NpcQuestRef reader" where
  "npc_quest_row =
     reading (\<lambda>(quest, title, role). \<lparr>nq_quest_id = low32 quest, nq_title = or_empty title, nq_role = role\<rparr>)
       (both (int_col 0) (both (text_col 1) (col as_string 2)))"

definition coord :: "f64 option \<Rightarrow> f32" where
  "coord x = f32_of_f64 (case x of None \<Rightarrow> 0 | Some y \<Rightarrow> y)"

definition map_or_0 :: "i64 option \<Rightarrow> u32" where
  "map_or_0 m = low32 (case m of None \<Rightarrow> 0 | Some x \<Rightarrow> x)"

definition real_col :: "nat \<Rightarrow> f64 option reader" where
  "real_col = col (nullable as_f64)"

definition get_npc :: "Sqlite \<Rightarrow> u32 \<Rightarrow> string + NpcDetail option" where
  "get_npc S n =
     and_then (query_first S sql_npc [sql_u32 n]
         (both (int_col 0) (both (text_col 1) (both (int_col 2) (both (int_col 3) (both (real_col 4) (both (real_col 5)
           (both (real_col 6) (both (col (nullable as_i64) 7) (both (int_col 8) (int_col 9))))))))))) (\<lambda>row.
       case row of
         None \<Rightarrow> Inr None
       | Some (entry, name, faction, flags, x, y, z, wmap, min_level, rank) \<Rightarrow>
           and_then (query_map S sql_npc_loot [sql_u32 n] loot_row) (\<lambda>loot.
           and_then (query_map S sql_npc_quests [sql_u32 n] npc_quest_row) (\<lambda>quests.
             Inr (Some
               \<lparr>nd_entry = low32 entry, nd_name = or_empty name, nd_faction = show_int (sint faction),
                nd_positions = [\<lparr>wp_map = map_or_0 wmap, wp_x = coord x, wp_y = coord y, wp_z = coord z\<rparr>],
                nd_roles = npc_roles flags, nd_level = clamp_u8 min_level,
                nd_classification = classification_from_rank rank, nd_loot = loot, nd_quests = quests\<rparr>))))"

definition sql_npc_search :: string where
  "sql_npc_search = ''SELECT Entry, Name, Faction FROM creature_template WHERE Name LIKE ?1''"

definition search_npcs :: "Sqlite \<Rightarrow> string \<Rightarrow> string + NpcSummary list" where
  "search_npcs S query =
     query_map S sql_npc_search [SqlText (''%'' @ query @ ''%'')]
       (reading (\<lambda>(entry, name, faction).
            \<lparr>ns_entry = low32 entry, ns_name = or_empty name, ns_faction = show_int (sint faction)\<rparr>)
         (both (int_col 0) (both (text_col 1) (int_col 2))))"

definition sql_vendor_items :: string where
  "sql_vendor_items =
     ''SELECT nv.item, it.name, it.BuyPrice, nv.ExtendedCost FROM npc_vendor nv LEFT JOIN '' @
     ''item_template it ON it.entry = nv.item WHERE nv.entry = ?1 ORDER BY nv.slot, nv.item''"

definition sql_npc_flags :: string where
  "sql_npc_flags = ''SELECT NpcFlags FROM creature_template WHERE Entry = ?1''"

text \<open>The price of an item with an extended cost is 0; the column \<open>BuyPrice\<close> is only read for the others.\<close>

definition vendor_row :: "VendorItem reader" where
  "vendor_row S sql cells =
     and_then (int_col 3 S sql cells) (\<lambda>extended_cost.
     and_then (both (int_col 0) (text_col 1) S sql cells) (\<lambda>(item, name).
       map_res (\<lambda>price. \<lparr>vi_item_entry = low32 item, vi_name = or_empty name, vi_price = price\<rparr>)
         (if extended_cost \<noteq> 0 then Inr 0
          else map_res (\<lambda>p. case p of None \<Rightarrow> 0 | Some i \<Rightarrow> if sint i < 0 then 0 else low32 i)
                 (col (nullable as_i64) 2 S sql cells))))"

definition get_vendor :: "Sqlite \<Rightarrow> u32 \<Rightarrow> string + VendorInfo option" where
  "get_vendor S n =
     and_then (query_row S sql_creature_name [sql_u32 n] (text_col 0)) (\<lambda>name.
     and_then (query_map S sql_vendor_items [sql_u32 n] vendor_row) (\<lambda>items.
     and_then (query_row S sql_npc_flags [sql_u32 n] (int_col 0)) (\<lambda>flags.
       Inr (Some \<lparr>vd_entry = n, vd_name = or_empty name, vd_sells = items, vd_repairs = (flags AND 4096 \<noteq> 0)\<rparr>))))"

definition sql_trainer :: string where
  "sql_trainer = ''SELECT spell FROM npc_trainer WHERE entry = ?1''"

definition get_trainer :: "Sqlite \<Rightarrow> u32 \<Rightarrow> string + TrainerInfo option" where
  "get_trainer S n =
     and_then (query_row S sql_creature_name [sql_u32 n] (text_col 0)) (\<lambda>name.
     and_then (query_map S sql_trainer [sql_u32 n] (int_col 0)) (\<lambda>spells.
       Inr (Some \<lparr>tr_entry = n, tr_name = or_empty name, tr_trains = map (\<lambda>s. show_word (low32 s)) spells\<rparr>)))"

section \<open>Items, objects, polygons\<close>

definition sql_item :: string where
  "sql_item = ''SELECT entry, name, Quality, SellPrice FROM item_template WHERE entry = ?1''"

definition get_item :: "Sqlite \<Rightarrow> u32 \<Rightarrow> string + ItemInfo option" where
  "get_item S n =
     map_res (map_option (\<lambda>(entry, name, quality, price).
         \<lparr>ii_entry = low32 entry, ii_name = or_empty name,
          ii_quality = (case quality of None \<Rightarrow> 0 | Some q \<Rightarrow> low32 q),
          ii_sell_price = (case price of None \<Rightarrow> 0 | Some p \<Rightarrow> if sint p < 0 then 0 else low32 p)\<rparr>))
       (query_first S sql_item [sql_u32 n]
         (both (int_col 0) (both (text_col 1) (both (col (nullable as_i64) 2) (col (nullable as_i64) 3)))))"

definition sql_object :: string where
  "sql_object =
     ''SELECT gt.entry, gt.name, gt.type, g.position_x, g.position_y, g.position_z, g.map FROM '' @
     ''gameobject_template gt JOIN gameobject g ON g.id = gt.entry WHERE gt.entry = ?1''"

definition get_object :: "Sqlite \<Rightarrow> u32 \<Rightarrow> string + ObjectInfo option" where
  "get_object S n =
     map_res (map_option (\<lambda>(entry, name, kind, x, y, z, wmap).
         \<lparr>ob_entry = low32 entry, ob_name = or_empty name, ob_kind = show_int (sint kind),
          ob_position = \<lparr>wp_map = map_or_0 wmap, wp_x = coord x, wp_y = coord y, wp_z = coord z\<rparr>\<rparr>))
       (query_first S sql_object [sql_u32 n]
         (both (int_col 0) (both (text_col 1) (both (col sql_i32 2) (both (real_col 3) (both (real_col 4)
           (both (real_col 5) (col (nullable as_i64) 6))))))))"

definition sql_polygon :: string where
  "sql_polygon = ''SELECT position_x, position_y, position_z, map FROM creature WHERE id = ?1''"

text \<open>The map column is read first.\<close>

definition polygon_row :: "WorldPos reader" where
  "polygon_row =
     reading (\<lambda>(wmap, x, y, z). \<lparr>wp_map = low32 wmap, wp_x = f32_of_f64 x, wp_y = f32_of_f64 y, wp_z = f32_of_f64 z\<rparr>)
       (both (int_col 3) (both (col as_f64 0) (both (col as_f64 1) (col as_f64 2))))"

definition creatures_polygon :: "Sqlite \<Rightarrow> u32 \<Rightarrow> string + CreaturePolygon option" where
  "creatures_polygon S n =
     map_res (\<lambda>polygon. if polygon = [] then None else Some \<lparr>cp_creature_entry = n, cp_polygon = polygon\<rparr>)
       (query_map S sql_polygon [sql_u32 n] polygon_row)"

section \<open>Checking references\<close>

definition sql_npc_exists :: string where
  "sql_npc_exists = ''SELECT COUNT(*) > 0 FROM creature_template WHERE Entry = ?1''"

definition sql_quest_exists :: string where
  "sql_quest_exists = ''SELECT COUNT(*) > 0 FROM quest_template WHERE entry = ?1''"

definition sql_object_exists :: string where
  "sql_object_exists = ''SELECT COUNT(*) > 0 FROM gameobject_template WHERE entry = ?1''"

definition error_diag :: "string \<Rightarrow> string \<Rightarrow> ValidationDiagnostic" where
  "error_diag code message = \<lparr>vdg_severity = ''Error'', vdg_code = code, vdg_message = message\<rparr>"

definition exists_row :: "bool reader" where
  "exists_row = reading (\<lambda>n. sint n > 0) (int_col 0)"

text \<open>The diagnostic unless the statement finds the entry.\<close>

definition unless_exists :: "Sqlite \<Rightarrow> string \<Rightarrow> int \<Rightarrow> ValidationDiagnostic \<Rightarrow> string + ValidationDiagnostic list" where
  "unless_exists S sql n diag =
     map_res (\<lambda>found. if first_of found = Some True then [] else [diag])
       (query_map S sql [SqlInt (of_int n)] exists_row)"

definition check_reference :: "Sqlite \<Rightarrow> string \<Rightarrow> string + ValidationDiagnostic list" where
  "check_reference S reference =
     (case split_char (CHR '':'') reference of
        [kind, id_str] \<Rightarrow>
          (case parse_i64 id_str of
             None \<Rightarrow> Inr [error_diag ''INVALID_ID'' (''Invalid ID in reference: '' @ reference)]
           | Some n \<Rightarrow>
               if kind = ''npc''
               then unless_exists S sql_npc_exists n
                      (error_diag ''NPC_NOT_FOUND'' (''NPC with entry '' @ show_int n @ '' not found''))
               else if kind = ''quest''
               then unless_exists S sql_quest_exists n
                      (error_diag ''QUEST_NOT_FOUND'' (''Quest with id '' @ show_int n @ '' not found''))
               else if kind = ''object''
               then unless_exists S sql_object_exists n
                      (error_diag ''OBJECT_NOT_FOUND'' (''Object with entry '' @ show_int n @ '' not found''))
               else Inr [error_diag ''UNKNOWN_REFERENCE_TYPE'' (''Unknown reference type: '' @ kind)])
      | _ \<Rightarrow> Inr [error_diag ''INVALID_REFERENCE'' (''Invalid reference format: '' @ reference)])"

fun db_validate :: "Sqlite \<Rightarrow> string list \<Rightarrow> string + ValidationDiagnostic list" where
  "db_validate S [] = Inr []"
| "db_validate S (reference # references) =
     and_then (check_reference S reference) (\<lambda>ds. map_res (\<lambda>rest. ds @ rest) (db_validate S references))"

section \<open>Lemmas\<close>

lemma db_and_then_simps [simp]: "and_then (Inl e) f = Inl e" "and_then (Inr x) f = f x"
  by (simp_all add: and_then_def)

lemma and_then_Inr: "and_then r f = Inr y \<longleftrightarrow> (\<exists>x. r = Inr x \<and> f x = Inr y)"
  by (cases r) simp_all

lemma query_row_answer:
  "sq_query S sql params = Inr [Inr cells] \<Longrightarrow> query_row S sql params f = f S sql cells"
  "sq_query S sql params = Inr [] \<Longrightarrow> query_row S sql params f = Inl (sq_no_rows S)"
  by (cases "f S sql cells") (simp_all add: query_row_def query_first_def)

lemma query_map_answer:
  "sq_query S sql params = Inr [Inr cells] \<Longrightarrow> query_map S sql params f = map_res (\<lambda>x. [x]) (f S sql cells)"
  "sq_query S sql params = Inr [] \<Longrightarrow> query_map S sql params f = Inr []"
  by (cases "f S sql cells") (simp_all add: query_map_def)

subsection \<open>Chains\<close>

text \<open>The engine answers the previous quest of every quest as \<open>prev\<close> says: no row for an unknown quest.\<close>

definition answers_prev :: "Sqlite \<Rightarrow> (i64 \<Rightarrow> i64 option) \<Rightarrow> bool" where
  "answers_prev S prev \<longleftrightarrow>
     (\<forall>q. sq_query S sql_prev_quest [SqlInt q] = Inr (case prev q of None \<Rightarrow> [] | Some p \<Rightarrow> [Inr [SqlInt p]]))"

text \<open>Each quest of the list is followed by the one it requires.\<close>

fun linked :: "(i64 \<Rightarrow> i64 option) \<Rightarrow> i64 list \<Rightarrow> bool" where
  "linked prev (q # q' # qs) \<longleftrightarrow> prev q = Some q' \<and> sint q' > 0 \<and> linked prev (q' # qs)"
| "linked prev _ \<longleftrightarrow> True"

definition starts_chain :: "(i64 \<Rightarrow> i64 option) \<Rightarrow> i64 \<Rightarrow> bool" where
  "starts_chain prev q \<longleftrightarrow> (case prev q of None \<Rightarrow> True | Some p \<Rightarrow> sint p \<le> 0)"

lemma prev_row:
  assumes "answers_prev S prev"
  shows "query_row S sql_prev_quest [SqlInt q] (col (nullable as_i64) 0)
    = (case prev q of None \<Rightarrow> Inl (sq_no_rows S) | Some p \<Rightarrow> Inr (Some p))"
  using assms
  by (auto simp: answers_prev_def query_row_answer col_def nullable_def as_i64_def split: option.split)

lemma depth_steps_chain:
  assumes "answers_prev S prev" "linked prev (q # qs)" "n > 0"
    and "starts_chain prev (last (q # qs)) \<or> n \<le> length (q # qs)"
  shows "depth_steps n S q d = d + of_nat (min n (length (q # qs)))"
  using assms(2-4)
proof (induction qs arbitrary: q n d)
  case Nil
  then obtain m where n: "n = Suc m" by (cases n) auto
  show ?case
  proof (cases "starts_chain prev q")
    case True
    then show ?thesis by (auto simp: n prev_row [OF assms(1)] starts_chain_def split: option.splits)
  next
    case False
    with Nil n have "m = 0" by simp
    with False show ?thesis by (auto simp: n prev_row [OF assms(1)] starts_chain_def split: option.splits)
  qed
next
  case (Cons q' qs)
  then obtain m where n: "n = Suc m" by (cases n) auto
  from Cons.prems have q: "prev q = Some q'" "sint q' > 0" "linked prev (q' # qs)" by auto
  show ?case
  proof (cases "m = 0")
    case False
    with Cons.IH [of q' m "d + 1"] q Cons.prems(3) n have "depth_steps m S q' (d + 1) = d + 1 + of_nat (min m (length (q' # qs)))"
      by simp
    with q show ?thesis by (simp add: n prev_row [OF assms(1)] add.assoc)
  qed (use q in \<open>simp add: n prev_row [OF assms(1)]\<close>)
qed

subsection \<open>References\<close>

text \<open>The engine knows which entries exist.\<close>

definition answers_exists :: "Sqlite \<Rightarrow> string \<Rightarrow> (int \<Rightarrow> bool) \<Rightarrow> bool" where
  "answers_exists S sql present \<longleftrightarrow>
     (\<forall>n. sq_query S sql [SqlInt (of_int n)] = Inr [Inr [SqlInt (if present n then 1 else 0)]])"

lemma unless_exists_answer:
  "answers_exists S sql present \<Longrightarrow> unless_exists S sql n diag = Inr (if present n then [] else [diag])"
  by (simp add: answers_exists_def unless_exists_def query_map_answer exists_row_def reading_def int_col_def col_def as_i64_def
      first_of_def)

text \<open>A reference is valid when it is \<^verbatim>\<open>kind:id\<close> for one of the three kinds and the id of an entry that exists.\<close>

definition valid_reference :: "(int \<Rightarrow> bool) \<Rightarrow> (int \<Rightarrow> bool) \<Rightarrow> (int \<Rightarrow> bool) \<Rightarrow> string \<Rightarrow> bool" where
  "valid_reference npcs quests objects reference \<longleftrightarrow>
     (\<exists>kind id_str n. split_char (CHR '':'') reference = [kind, id_str] \<and> parse_i64 id_str = Some n
        \<and> (kind = ''npc'' \<and> npcs n \<or> kind = ''quest'' \<and> quests n \<or> kind = ''object'' \<and> objects n))"

lemma check_reference_exact:
  assumes "answers_exists S sql_npc_exists npcs" "answers_exists S sql_quest_exists quests"
    and "answers_exists S sql_object_exists objects"
  shows "\<exists>ds. check_reference S reference = Inr ds \<and> length ds = (if valid_reference npcs quests objects reference then 0 else 1)"
proof -
  note a = assms [THEN unless_exists_answer]
  consider (two) kind id_str where "split_char (CHR '':'') reference = [kind, id_str]"
    | (other) "\<And>kind id_str. split_char (CHR '':'') reference \<noteq> [kind, id_str]" by blast
  then show ?thesis
  proof cases
    case two
    then show ?thesis
      by (cases "parse_i64 id_str") (auto simp: check_reference_def valid_reference_def a)
  next
    case other
    then have "\<not> valid_reference npcs quests objects reference" by (simp add: valid_reference_def)
    moreover have "\<exists>d. check_reference S reference = Inr [d]"
      using other by (auto simp: check_reference_def split: list.split)
    ultimately show ?thesis by auto
  qed
qed

subsection \<open>Objectives\<close>

text \<open>What the two answers say about an objective apart from its number, its name and its text.\<close>

definition quest_objective_facts :: "QuestObjective \<Rightarrow> string \<times> u32 \<times> u32 \<times> u32 list" where
  "quest_objective_facts ob =
     (case qo_kind ob of KillCreature \<Rightarrow> ''kill'' | InteractObject \<Rightarrow> ''interact'' | CollectItem \<Rightarrow> ''collect'',
      qo_target_entry ob, qo_required ob, qo_sources ob)"

definition item_facts :: "ObjectiveResponseItem \<Rightarrow> string \<times> u32 \<times> u32 \<times> u32 list" where
  "item_facts item = (ori_kind item, ori_entry item, ori_count item, ori_source_creatures item)"

lemma map_map_filter: "map f (List.map_filter g xs) = List.map_filter (map_option f \<circ> g) xs"
  by (induction xs) (auto simp: List.map_filter_simps split: option.split)

lemma creature_facts:
  "map_option quest_objective_facts (creature_objective slot) = map_option (item_facts \<circ> fst) (creature_item S slot)"
  by (simp add: creature_objective_def creature_item_def quest_objective_facts_def item_facts_def Let_def split: prod.split)

lemma item_item_facts:
  "map_option quest_objective_facts (item_objective S slot) = map_option (item_facts \<circ> fst) (item_item S base slot)"
  by (simp add: item_objective_def item_item_def quest_objective_facts_def item_facts_def Let_def split: prod.split)

lemma quest_structured:
  assumes "get_quest S n = Inr (Some quest)"
  shows "\<exists>creature_rows item_rows. query_map S sql_creature_slots [sql_u32 n] slots_row = Inr creature_rows
    \<and> query_map S sql_item_slots [sql_u32 n] slots_row = Inr item_rows
    \<and> qd_structured_objectives quest = List.map_filter creature_objective (first_slots creature_rows)
        @ List.map_filter (item_objective S) (first_slots item_rows)"
proof -
  from assms obtain qs where q: "query_map S sql_quest [sql_u32 n] quest_row = Inr qs"
    by (auto simp: get_quest_def and_then_Inr)
  with assms obtain entry rows where "qs = entry # rows" by (cases qs) (simp_all add: get_quest_def)
  with q have r: "query_map S sql_quest [sql_u32 n] quest_row = Inr (entry # rows)" by simp
  obtain a b c d e f g h where entry: "entry = (a, b, c, d, e, f, g, h)" by (cases entry) auto
  from assms show ?thesis by (auto simp: get_quest_def r entry and_then_Inr)
qed

lemma response_objectives:
  assumes "get_quest_objectives S n = Inr (Some response)"
  shows "\<exists>creature_rows item_rows base. query_map S sql_creature_slots [sql_u32 n] slots_row = Inr creature_rows
    \<and> query_map S sql_item_slots [sql_u32 n] slots_row = Inr item_rows
    \<and> qor_objectives response = map fst (List.map_filter (creature_item S) (first_slots creature_rows)
        @ List.map_filter (item_item S base) (first_slots item_rows))"
proof -
  let ?row = "both (int_col 0) (both (text_col 1) (text_col 2))"
  from assms obtain qs where q: "query_map S sql_objectives [sql_u32 n] ?row = Inr qs"
    by (auto simp: get_quest_objectives_def and_then_Inr)
  with assms obtain entry rows where qs: "qs = entry # rows" by (cases qs) (simp_all add: get_quest_objectives_def)
  obtain a b c where "entry = (a, b, c)" by (metis prod_cases3)
  with q qs have r: "query_map S sql_objectives [sql_u32 n] ?row = Inr ((a, b, c) # rows)" by simp
  from assms obtain creature_rows item_rows where
    "query_map S sql_creature_slots [sql_u32 n] slots_row = Inr creature_rows"
    "query_map S sql_item_slots [sql_u32 n] slots_row = Inr item_rows"
    unfolding get_quest_objectives_def r by (auto simp: and_then_Inr)
  with assms show ?thesis unfolding get_quest_objectives_def r by (auto simp: Let_def)
qed

text \<open>The indices of the objectives in the answer for the panel are not unique: items are numbered by their slot on top of the
  number of creature objectives, creatures by their slot alone.\<close>

lemma objective_indices_clash:
  "let creatures = List.map_filter (creature_item S) (List.enumerate 0 [(0, 0), (0, 0), (0, 0), (299, 8)]);
       items = List.map_filter (item_item S (of_nat (length creatures))) (List.enumerate 0 [(0, 0), (0, 0), (750, 5), (0, 0)])
   in map (ori_index \<circ> fst) (creatures @ items) = [4, 4]"
  by (simp add: creature_item_def item_item_def Let_def List.map_filter_simps)

text \<open>A level below 0, as the database has for quests that scale, is read as one above 200.\<close>

lemma negative_level: "low8 (- 1) = 255"
  by code_simp

section \<open>Properties\<close>

text \<open>C38: The depth of a quest chain is the length of the chain, capped. When the database answers the previous quest of every quest,
  and \<open>qs\<close> is the chain of required quests from the one before the quest on - complete, or at least 100 long, as every cycle
  is - the depth is one more than its length, and 101 at most.\<close>

theorem chain_depth_exact:
  assumes "answers_prev S prev" and "linked prev (q # qs)" and "sint q > 0"
    and "starts_chain prev (last (q # qs)) \<or> 100 \<le> length (q # qs)"
  shows "unat (compute_chain_depth S q) = Suc (min 100 (length (q # qs)))"
proof -
  have "compute_chain_depth S q = 1 + of_nat (min 100 (length (q # qs)))"
    using depth_steps_chain [OF assms(1,2) _ assms(4)] assms(3) by (simp add: compute_chain_depth_def)
  also have "\<dots> = of_nat (Suc (min 100 (length (q # qs))))" by (simp only: of_nat_Suc add.commute)
  finally have "unat (compute_chain_depth S q) = unat (of_nat (Suc (min 100 (length (q # qs)))) :: u32)" by simp
  also have "\<dots> = Suc (min 100 (length (q # qs)))" by (simp only: unat_of_nat) simp
  finally show ?thesis .
qed

text \<open>The check of references is exact. When the database answers which entries exist, the check succeeds with one diagnostic for
  each reference that is not valid, so with none exactly when all references are.\<close>

theorem db_validate_exact:
  assumes "answers_exists S sql_npc_exists npcs" and "answers_exists S sql_quest_exists quests"
    and "answers_exists S sql_object_exists objects"
  shows "\<exists>ds. db_validate S references = Inr ds
    \<and> length ds = length (filter (\<lambda>r. \<not> valid_reference npcs quests objects r) references)"
proof (induction references)
  case (Cons reference references)
  from check_reference_exact [OF assms, of reference] Cons.IH show ?case by auto
qed simp

text \<open>The two answers about a quest agree. When both the quest and its objectives are answered, they list the same objectives in
  the same order - what to do, to which entry, how often, and who drops it - although they are computed apart.\<close>

theorem objectives_agree:
  assumes "get_quest S n = Inr (Some quest)" and "get_quest_objectives S n = Inr (Some response)"
  shows "map quest_objective_facts (qd_structured_objectives quest) = map item_facts (qor_objectives response)"
proof -
  from quest_structured [OF assms(1)] response_objectives [OF assms(2)] obtain creature_rows item_rows base where
    quest: "qd_structured_objectives quest = List.map_filter creature_objective (first_slots creature_rows)
      @ List.map_filter (item_objective S) (first_slots item_rows)"
    and response: "qor_objectives response = map fst (List.map_filter (creature_item S) (first_slots creature_rows)
      @ List.map_filter (item_item S base) (first_slots item_rows))"
    by auto
  have "map_option quest_objective_facts (creature_objective slot) = map_option item_facts (map_option fst (creature_item S slot))"
    "map_option quest_objective_facts (item_objective S slot) = map_option item_facts (map_option fst (item_item S base slot))" for slot
    using creature_facts item_item_facts by (simp_all add: option.map_comp)
  with quest response show ?thesis by (simp add: map_map_filter comp_def)
qed

section \<open>An example database\<close>

definition prev7 :: "i64 \<Rightarrow> i64 option" where
  "prev7 q = (if q = 7 then Some 5 else if q = 5 then Some 3 else if q = 3 then Some 0 else None)"

text \<open>A database with the quests 3, 5, 7 (to kill 8 of 299 and collect 5 of 750) and the NPC 823.\<close>

definition S7 :: Sqlite where
  "S7 = \<lparr>sq_query = (\<lambda>sql params.
       if sql = sql_prev_quest
       then Inr (case params of [SqlInt q] \<Rightarrow> (case prev7 q of None \<Rightarrow> [] | Some p \<Rightarrow> [Inr [SqlInt p]]) | _ \<Rightarrow> [])
       else if sql = sql_npc_exists
       then Inr (case params of [SqlInt n] \<Rightarrow> [Inr [SqlInt (if n = 823 then 1 else 0)]] | _ \<Rightarrow> [])
       else if sql = sql_quest_exists \<or> sql = sql_object_exists then Inr [Inr [SqlInt 0]]
       else if sql = sql_quest
       then Inr [Inr [SqlInt 7, SqlText ''Wolves'', SqlInt 5, SqlInt 3, SqlInt 5, SqlInt 0, SqlInt 0, SqlInt 0]]
       else if sql = sql_objectives then Inr [Inr [SqlInt 7, SqlText ''Wolves'', SqlNull]]
       else if sql = sql_creature_ids then Inr [Inr [SqlInt 299, SqlInt 0, SqlInt 0, SqlInt 0]]
       else if sql = sql_creature_slots
       then Inr [Inr [SqlInt 299, SqlInt 8, SqlInt 0, SqlInt 0, SqlInt 0, SqlInt 0, SqlInt 0, SqlInt 0]]
       else if sql = sql_item_slots
       then Inr [Inr [SqlInt 750, SqlInt 5, SqlInt 0, SqlInt 0, SqlInt 0, SqlInt 0, SqlInt 0, SqlInt 0]]
       else if sql = sql_dropped_by then Inr [Inr [SqlInt 299]]
       else Inr []),
     sq_bad_column = (\<lambda>sql cells n. ''Invalid column type''), sq_no_rows = ''Query returned no rows''\<rparr>"

lemma some_answer: "\<not> isl r \<Longrightarrow> \<not> Option.is_none (projr r) \<Longrightarrow> r = Inr (Some (the (projr r)))"
  by (cases r; cases "projr r") auto

lemma answers_prev7: "answers_prev S7 prev7"
  by (simp add: answers_prev_def S7_def split: option.split)

lemma chain_depth_exact_witness: "unat (compute_chain_depth S7 7) = 4"
  using chain_depth_exact [OF answers_prev7, of 7 "[5, 3]"] by (simp add: prev7_def starts_chain_def)

lemma db_validate_exact_witness:
  "\<exists>ds. db_validate S7 [''npc:823'', ''npc:1'', ''spell:1''] = Inr ds \<and> length ds = 2"
proof -
  have ne: "sql_npc_exists \<noteq> sql_prev_quest" "sql_quest_exists \<noteq> sql_prev_quest" "sql_quest_exists \<noteq> sql_npc_exists"
    "sql_object_exists \<noteq> sql_prev_quest" "sql_object_exists \<noteq> sql_npc_exists"
    by (simp_all add: sql_npc_exists_def sql_prev_quest_def sql_quest_exists_def sql_object_exists_def)
  have "answers_exists S7 sql_npc_exists (\<lambda>n. (of_int n :: i64) = 823)" "answers_exists S7 sql_quest_exists (\<lambda>n. False)"
    "answers_exists S7 sql_object_exists (\<lambda>n. False)"
    by (simp_all add: answers_exists_def S7_def ne)
  from db_validate_exact [OF this, of "[''npc:823'', ''npc:1'', ''spell:1'']"]
  obtain ds where ds: "db_validate S7 [''npc:823'', ''npc:1'', ''spell:1''] = Inr ds" and
    n: "length ds = length (filter (\<lambda>r. \<not> valid_reference (\<lambda>n. (of_int n :: i64) = 823) (\<lambda>n. False) (\<lambda>n. False) r)
      [''npc:823'', ''npc:1'', ''spell:1''])" by blast
  have "split_char (CHR '':'') ''npc:823'' = [''npc'', ''823'']" "split_char (CHR '':'') ''npc:1'' = [''npc'', ''1'']"
    "split_char (CHR '':'') ''spell:1'' = [''spell'', ''1'']" "parse_i64 ''823'' = Some 823" "parse_i64 ''1'' = Some 1"
    by code_simp+
  with n have "length ds = 2" by (simp add: valid_reference_def)
  with ds show ?thesis by blast
qed

lemma objectives_agree_witness:
  "map item_facts (qor_objectives (the (projr (get_quest_objectives S7 7)))) = [(''kill'', 299, 8, []), (''collect'', 750, 5, [299])]"
proof -
  let ?q = "get_quest S7 7" and ?r = "get_quest_objectives S7 7"
  have "?q = Inr (Some (the (projr ?q)))" by (rule some_answer) code_simp+
  moreover have "?r = Inr (Some (the (projr ?r)))" by (rule some_answer) code_simp+
  moreover note objectives_agree [OF calculation]
  ultimately have
    "map item_facts (qor_objectives (the (projr ?r))) = map quest_objective_facts (qd_structured_objectives (the (projr ?q)))" by simp
  also have "\<dots> = [(''kill'', 299, 8, []), (''collect'', 750, 5, [299])]" by code_simp
  finally show ?thesis .
qed

end
