(* ===== verification/Query_Search.thy ===== *)
theory Query_Search
  imports Query_Db Resolver_Registry "HOL-Library.Product_Lexorder" "HOL-Library.Sublist" "HOL-Library.Multiset"
begin

text \<open>
  Searching (\<^verbatim>\<open>SentinelQueryServer/src/search.rs\<close> and the search of \<^verbatim>\<open>db.rs\<close>): the search over all kinds of entities with
  its merge of the hits, the spawn points, and the database the resolver asks (\<^verbatim>\<open>resolve.rs\<close>).

  The merge is shown to be the first part of a reference definition, \<open>round_robin\<close> per tier; the escaping of search terms
  is shown to neutralise the pattern characters of SQL's \<^verbatim>\<open>LIKE\<close>, whose documented meaning is \<open>like\<close>.
\<close>

section \<open>Types (search.rs)\<close>

definition DEFAULT_SEARCH_LIMIT :: nat where "DEFAULT_SEARCH_LIMIT = 25"

definition MAX_SEARCH_LIMIT :: nat where "MAX_SEARCH_LIMIT = 100"

datatype SearchKind = SkNpc | SkQuest | SkItem | SkObject | SkArea

record SearchHit =
  sh_kind :: SearchKind
  sh_id :: u32
  sh_name :: string
  sh_context :: string
  sh_score :: u8

datatype SpawnType = StNpc | StObject

definition spawn_tables :: "SpawnType \<Rightarrow> string \<times> string" where
  "spawn_tables kind =
     (case kind of
        StNpc \<Rightarrow> (''creature'', ''creature_template'')
      | StObject \<Rightarrow> (''gameobject'', ''gameobject_template''))"

definition spawn_type_from_str :: "string \<Rightarrow> string + SpawnType" where
  "spawn_type_from_str s =
     (if s = ''npc'' then Inr StNpc else if s = ''object'' then Inr StObject else Inl (''Unknown spawn type: '' @ s))"

record SpawnPoint =
  spp_guid :: u32
  spp_map :: u32
  spp_x :: f32
  spp_y :: f32
  spp_z :: f32
  spp_orientation :: f32

text \<open>The three characters are ASCII, so they are bytes of the text on their own.\<close>

definition like_special :: "char \<Rightarrow> bool" where
  "like_special c \<longleftrightarrow> [c] = backslash \<or> c = CHR ''%'' \<or> c = CHR ''_''"

definition escape_like :: "string \<Rightarrow> string" where
  "escape_like term = concat (map (\<lambda>c. if like_special c then backslash @ [c] else [c]) term)"

text \<open>\<open>parse::<usize>\<close> of a 64-bit target.\<close>

definition parse_usize :: "string \<Rightarrow> nat option" where
  "parse_usize s = map_option unat (parse_word s :: u64 option)"

definition clamp_limit :: "nat \<Rightarrow> nat" where
  "clamp_limit n = min (max n 1) MAX_SEARCH_LIMIT"

definition parse_limit :: "string option \<Rightarrow> string + nat" where
  "parse_limit raw =
     (case raw of
        None \<Rightarrow> Inr DEFAULT_SEARCH_LIMIT
      | Some text \<Rightarrow>
          (case parse_usize (trim text) of
             None \<Rightarrow> Inl (''Invalid '' @ quoted ''limit'' @ '' parameter: '' @ text)
           | Some n \<Rightarrow> Inr (clamp_limit n)))"

section \<open>Merging the hits (db.rs)\<close>

definition SCORE_TIERS :: nat where "SCORE_TIERS = 3"

definition KINDS :: nat where "KINDS = 5"

definition kind_order :: "SearchKind \<Rightarrow> nat" where
  "kind_order kind = (case kind of SkNpc \<Rightarrow> 0 | SkQuest \<Rightarrow> 1 | SkItem \<Rightarrow> 2 | SkObject \<Rightarrow> 3 | SkArea \<Rightarrow> 4)"

definition clamp_score :: "u8 \<Rightarrow> nat" where
  "clamp_score score = min (max (unat score) 1) SCORE_TIERS"

definition bucket_of :: "SearchHit \<Rightarrow> nat" where
  "bucket_of hit = (SCORE_TIERS - clamp_score (sh_score hit)) * KINDS + kind_order (sh_kind hit)"

definition push_hit :: "SearchHit \<Rightarrow> SearchHit list list \<Rightarrow> SearchHit list list" where
  "push_hit hit buckets = buckets[bucket_of hit := buckets ! bucket_of hit @ [hit]]"

definition hit_key :: "SearchHit \<Rightarrow> nat \<times> u32" where
  "hit_key hit = (length (utf8_chars (sh_name hit)), sh_id hit)"

definition sorted_buckets :: "SearchHit list \<Rightarrow> SearchHit list list" where
  "sorted_buckets hits = map (sort_key hit_key) (fold push_hit hits (replicate (SCORE_TIERS * KINDS) []))"

text \<open>One pass over the kinds of a tier: whether the page is full, the page, the cursors, and whether a hit was emitted.\<close>

fun kind_pass :: "nat \<Rightarrow> 'a list list \<Rightarrow> nat list \<Rightarrow> nat list \<Rightarrow> 'a list \<Rightarrow> bool \<Rightarrow> bool \<times> 'a list \<times> nat list \<times> bool" where
  "kind_pass limit bs [] cursors page emitted = (False, page, cursors, emitted)"
| "kind_pass limit bs (kind # kinds) cursors page emitted =
     (if length page = limit then (True, page, cursors, emitted)
      else if cursors ! kind < length (bs ! kind)
      then kind_pass limit bs kinds (cursors[kind := cursors ! kind + 1]) (page @ [bs ! kind ! (cursors ! kind)]) True
      else kind_pass limit bs kinds cursors page emitted)"

text \<open>The \<open>loop\<close> of a tier. It ends because every pass but the last moves a cursor.\<close>

definition left_over :: "'a list list \<Rightarrow> nat list \<Rightarrow> nat" where
  "left_over bs cursors = (\<Sum>kind<KINDS. length (bs ! kind) - cursors ! kind)"

lemma kind_pass_left:
  assumes "kind_pass limit bs kinds cursors page emitted = (full, page', cursors', emitted')"
    and "\<forall>kind\<in>set kinds. kind < KINDS" and "length cursors = KINDS"
  shows "left_over bs cursors' \<le> left_over bs cursors \<and> (emitted' \<longrightarrow> emitted \<or> left_over bs cursors' < left_over bs cursors)
    \<and> length cursors' = KINDS"
  using assms
proof (induction kinds arbitrary: cursors page emitted)
  case (Cons kind kinds)
  show ?case
  proof (cases "length page = limit \<or> \<not> cursors ! kind < length (bs ! kind)")
    case False
    let ?c = "cursors[kind := cursors ! kind + 1]"
    from False Cons.prems(1) have r: "kind_pass limit bs kinds ?c (page @ [bs ! kind ! (cursors ! kind)]) True = (full, page', cursors', emitted')"
      by simp
    have "left_over bs ?c < left_over bs cursors"
      unfolding left_over_def using Cons.prems(2,3) False
      by (intro sum_strict_mono_ex1) (auto simp: nth_list_update)
    with Cons.IH [OF r] Cons.prems(2,3) show ?thesis by auto
  qed (use Cons.IH [of cursors page emitted] Cons.prems in \<open>auto split: if_splits\<close>)
qed simp

function tier_loop :: "nat \<Rightarrow> 'a list list \<Rightarrow> nat list \<Rightarrow> 'a list \<Rightarrow> bool \<times> 'a list" where
  "tier_loop limit bs cursors page =
     (if length cursors = KINDS
      then case kind_pass limit bs [0..<KINDS] cursors page False of
             (full, page', cursors', emitted) \<Rightarrow>
               if full then (True, page') else if emitted then tier_loop limit bs cursors' page' else (False, page')
      else (False, page))"
  by pat_completeness auto
termination
  by (relation "measure (\<lambda>(limit, bs, cursors, page). left_over bs cursors)") (auto dest!: kind_pass_left [OF sym])

definition interleave_tier :: "nat \<Rightarrow> SearchHit list list \<Rightarrow> nat \<Rightarrow> SearchHit list \<Rightarrow> bool \<times> SearchHit list" where
  "interleave_tier limit buckets tier page =
     tier_loop limit (map (\<lambda>kind. buckets ! (tier * KINDS + kind)) [0..<KINDS]) (replicate KINDS 0) page"

fun interleave_tiers :: "nat \<Rightarrow> SearchHit list list \<Rightarrow> nat list \<Rightarrow> SearchHit list \<Rightarrow> SearchHit list" where
  "interleave_tiers limit buckets [] page = page"
| "interleave_tiers limit buckets (tier # tiers) page =
     (case interleave_tier limit buckets tier page of
        (full, page') \<Rightarrow> if full then page' else interleave_tiers limit buckets tiers page')"

definition interleave_by_kind :: "SearchHit list \<Rightarrow> nat \<Rightarrow> SearchHit list" where
  "interleave_by_kind hits limit = interleave_tiers limit (sorted_buckets hits) [0..<SCORE_TIERS] []"

section \<open>The search over all kinds\<close>

definition sql_search_npcs :: string where
  "sql_search_npcs =
     ''SELECT t.Entry, t.Name, t.SubName, t.MinLevel, t.MaxLevel, t.rank, (SELECT c.map FROM '' @
     ''creature c WHERE c.id = t.Entry LIMIT 1) FROM ( SELECT Entry, Name, SubName, MinLevel, '' @
     ''MaxLevel, CASE WHEN lower(Name) = lower(?1) THEN 3 WHEN Name LIKE ?2 ESCAPE '' @ quoted backslash @
     '' THEN 2 ELSE 1 END AS rank FROM creature_template WHERE Name LIKE ?3 ESCAPE '' @ quoted backslash @
     '' ORDER BY rank DESC, length(Name) ASC, Entry ASC LIMIT ?4 ) t''"

definition sql_search_quests :: string where
  "sql_search_quests =
     ''SELECT entry, Title, QuestLevel, MinLevel, CASE WHEN lower(Title) = lower(?1) THEN 3 WHEN '' @
     ''Title LIKE ?2 ESCAPE '' @ quoted backslash @
     '' THEN 2 ELSE 1 END AS rank FROM quest_template WHERE Title LIKE ?3 ESCAPE '' @ quoted backslash @
     '' ORDER BY rank DESC, length(Title) ASC, entry ASC LIMIT ?4''"

definition sql_search_items :: string where
  "sql_search_items =
     ''SELECT entry, name, ItemLevel, Quality, CASE WHEN lower(name) = lower(?1) THEN 3 WHEN name '' @ ''LIKE ?2 ESCAPE '' @
     quoted backslash @ '' THEN 2 ELSE 1 END AS rank FROM item_template WHERE name LIKE ?3 ESCAPE '' @
     quoted backslash @ '' ORDER BY rank DESC, length(name) ASC, entry ASC LIMIT ?4''"

definition sql_search_objects :: string where
  "sql_search_objects =
     ''SELECT t.entry, t.name, t.type, t.rank, (SELECT g.map FROM gameobject g WHERE g.id = '' @
     ''t.entry LIMIT 1) FROM ( SELECT entry, name, type, CASE WHEN lower(name) = lower(?1) THEN 3 '' @
     ''WHEN name LIKE ?2 ESCAPE '' @ quoted backslash @
     '' THEN 2 ELSE 1 END AS rank FROM gameobject_template WHERE name LIKE ?3 ESCAPE '' @ quoted backslash @
     '' ORDER BY rank DESC, length(name) ASC, entry ASC LIMIT ?4 ) t''"

definition sql_search_areas :: string where
  "sql_search_areas =
     ''SELECT id, name, map, CASE WHEN lower(name) = lower(?1) THEN 3 WHEN name LIKE ?2 ESCAPE '' @ quoted backslash @
     '' THEN 2 ELSE 1 END AS rank FROM game_tele WHERE name LIKE ?3 ESCAPE '' @ quoted backslash @
     '' ORDER BY rank DESC, length(name) ASC, id ASC LIMIT ?4''"

definition show_i64 :: "i64 \<Rightarrow> string" where
  "show_i64 i = show_int (sint i)"

definition npc_context :: "string option \<Rightarrow> i64 \<Rightarrow> i64 \<Rightarrow> i64 option \<Rightarrow> string" where
  "npc_context subname min_level max_level wmap =
     (let level = (if min_level = max_level then ''Level '' @ show_i64 min_level
                   else ''Level '' @ show_i64 min_level @ ''-'' @ show_i64 max_level);
          sub = (case map_option trim subname of None \<Rightarrow> [] | Some s \<Rightarrow> if s = [] then [] else [''<'' @ s @ ''>''])
      in join '' - ''
           (sub @ [level, case wmap of None \<Rightarrow> ''not spawned'' | Some m \<Rightarrow> ''map '' @ show_i64 m]))"

definition npc_hit :: "SearchHit reader" where
  "npc_hit S sql cells =
     and_then (both (text_col 2) (both (int_col 3) (both (int_col 4) (col (nullable as_i64) 6))) S sql cells)
       (\<lambda>(sub, min_level, max_level, wmap).
         map_res (\<lambda>(entry, name, rank).
             \<lparr>sh_kind = SkNpc, sh_id = low32 entry, sh_name = or_empty name,
              sh_context = npc_context sub min_level max_level wmap, sh_score = low8 rank\<rparr>)
           (both (int_col 0) (both (text_col 1) (int_col 5)) S sql cells))"

definition quest_hit :: "SearchHit reader" where
  "quest_hit =
     reading (\<lambda>(entry, name, level, min_level, rank).
         \<lparr>sh_kind = SkQuest, sh_id = low32 entry, sh_name = or_empty name,
          sh_context = ''Quest level '' @ show_i64 level @ '' - min level '' @ show_i64 min_level, sh_score = low8 rank\<rparr>)
       (both (int_col 0) (both (text_col 1) (both (int_col 2) (both (int_col 3) (int_col 4)))))"

definition item_hit :: "SearchHit reader" where
  "item_hit =
     reading (\<lambda>(entry, name, level, quality, rank).
         \<lparr>sh_kind = SkItem, sh_id = low32 entry, sh_name = or_empty name,
          sh_context = ''Item level '' @ show_i64 level @ '' - quality '' @ show_i64 quality, sh_score = low8 rank\<rparr>)
       (both (int_col 0) (both (text_col 1) (both (int_col 2) (both (int_col 3) (int_col 4)))))"

definition object_hit :: "SearchHit reader" where
  "object_hit S sql cells =
     and_then (col (nullable as_i64) 4 S sql cells) (\<lambda>wmap.
       map_res (\<lambda>(entry, name, kind, rank).
           \<lparr>sh_kind = SkObject, sh_id = low32 entry, sh_name = or_empty name,
            sh_context = ''Object type '' @ show_i64 kind @
              (case wmap of Some m \<Rightarrow> '' - map '' @ show_i64 m | None \<Rightarrow> '' - not spawned''),
            sh_score = low8 rank\<rparr>)
         (both (int_col 0) (both (text_col 1) (both (int_col 2) (int_col 3))) S sql cells))"

definition area_hit :: "SearchHit reader" where
  "area_hit =
     reading (\<lambda>(entry, name, wmap, rank).
         \<lparr>sh_kind = SkArea, sh_id = low32 entry, sh_name = or_empty name, sh_context = ''Map '' @ show_i64 wmap,
          sh_score = low8 rank\<rparr>)
       (both (int_col 0) (both (text_col 1) (both (int_col 2) (int_col 3))))"

definition search_statements :: "(string \<times> SearchHit reader) list" where
  "search_statements =
     [(sql_search_npcs, npc_hit), (sql_search_quests, quest_hit), (sql_search_items, item_hit),
      (sql_search_objects, object_hit), (sql_search_areas, area_hit)]"

fun all_hits :: "Sqlite \<Rightarrow> SqlValue list \<Rightarrow> (string \<times> SearchHit reader) list \<Rightarrow> string + SearchHit list" where
  "all_hits S params [] = Inr []"
| "all_hits S params ((sql, row) # rest) =
     and_then (query_map S sql params row) (\<lambda>hits. map_res (\<lambda>more. hits @ more) (all_hits S params rest))"

definition federated_search :: "Sqlite \<Rightarrow> string \<Rightarrow> nat \<Rightarrow> string + SearchHit list" where
  "federated_search S raw_term limit =
     (let limit = clamp_limit limit; term = trim raw_term; escaped = escape_like term
      in if term = [] then Inr []
         else map_res (\<lambda>hits. interleave_by_kind hits limit)
                (all_hits S [SqlText term, SqlText (escaped @ ''%''), SqlText (''%'' @ escaped @ ''%''), SqlInt (of_nat limit)]
                   search_statements))"

section \<open>Spawn points, names and relations\<close>

definition sql_spawns :: "string \<Rightarrow> string" where
  "sql_spawns spawn_table =
     ''SELECT guid, map, position_x, position_y, position_z, orientation FROM '' @ spawn_table @ '' WHERE id = ?1 ORDER BY guid ASC''"

definition spawn_row :: "SpawnPoint reader" where
  "spawn_row =
     reading (\<lambda>(guid, wmap, x, y, z, facing).
         \<lparr>spp_guid = low32 guid, spp_map = low32 wmap, spp_x = f32_of_f64 x, spp_y = f32_of_f64 y, spp_z = f32_of_f64 z,
          spp_orientation = f32_of_f64 facing\<rparr>)
       (both (int_col 0) (both (int_col 1) (both (col as_f64 2) (both (col as_f64 3) (both (col as_f64 4) (col as_f64 5))))))"

definition db_spawns :: "Sqlite \<Rightarrow> SpawnType \<Rightarrow> u32 \<Rightarrow> string + SpawnPoint list" where
  "db_spawns S kind entry = query_map S (sql_spawns (fst (spawn_tables kind))) [sql_u32 entry] spawn_row"

definition label_statement :: "EntityKind \<Rightarrow> string option" where
  "label_statement kind =
     (case kind of
        EkNpc \<Rightarrow> Some ''SELECT Name FROM creature_template WHERE Entry = ?1''
      | EkQuest \<Rightarrow> Some ''SELECT Title FROM quest_template WHERE entry = ?1''
      | EkItem \<Rightarrow> Some ''SELECT name FROM item_template WHERE entry = ?1''
      | EkObject \<Rightarrow> Some ''SELECT name FROM gameobject_template WHERE entry = ?1''
      | EkArea \<Rightarrow> Some ''SELECT name FROM game_tele WHERE id = ?1''
      | EkSpell \<Rightarrow> Some ''SELECT SpellName FROM spell_template WHERE Id = ?1''
      | EkMap \<Rightarrow> None)"

definition entity_label :: "Sqlite \<Rightarrow> EntityKind \<Rightarrow> u32 \<Rightarrow> string + string option" where
  "entity_label S kind n =
     (case label_statement kind of
        None \<Rightarrow> Inr None
      | Some sql \<Rightarrow>
          map_res (\<lambda>names. first_of (List.map_filter (\<lambda>x. x) names)) (query_map S sql [sql_u32 n] (text_col 0)))"

definition first_related_npc :: "Sqlite \<Rightarrow> string \<Rightarrow> u32 \<Rightarrow> string + u32 option" where
  "first_related_npc S relation quest =
     map_res (\<lambda>ids. map_option low32 (first_of ids))
       (query_map S (''SELECT id FROM '' @ relation @ '' WHERE quest = ?1 ORDER BY id ASC LIMIT 1'') [sql_u32 quest] (int_col 0))"

definition quest_giver :: "Sqlite \<Rightarrow> u32 \<Rightarrow> string + u32 option" where
  "quest_giver S = first_related_npc S ''creature_questrelation''"

definition quest_ender :: "Sqlite \<Rightarrow> u32 \<Rightarrow> string + u32 option" where
  "quest_ender S = first_related_npc S ''creature_involvedrelation''"

section \<open>The fingerprint of the snapshot\<close>

definition FINGERPRINTED_TABLES :: "string list" where
  "FINGERPRINTED_TABLES =
     [''creature'', ''creature_template'', ''creature_involvedrelation'', ''creature_questrelation'', ''game_tele'',
      ''gameobject'', ''gameobject_template'', ''item_template'', ''quest_template'', ''spell_template'']"

text \<open>\<open>name=value;\<close> for each statement that yields one integer.\<close>

fun count_material :: "Sqlite \<Rightarrow> string \<Rightarrow> string list \<Rightarrow> string + string" where
  "count_material S before [] = Inr []"
| "count_material S before (name # names) =
     and_then (query_row S (before @ name) [] (int_col 0)) (\<lambda>n.
       map_res (\<lambda>rest. name @ ''='' @ show_i64 n @ '';'' @ rest) (count_material S before names))"

definition sql_db_version :: string where
  "sql_db_version = ''SELECT COALESCE(MIN(version), '' @ quoted [] @ '') FROM db_version''"

definition fingerprint :: "Sqlite \<Rightarrow> string + string" where
  "fingerprint S =
     and_then (count_material S ''PRAGMA '' [''schema_version'', ''page_count'']) (\<lambda>pragmas.
     and_then (query_row S sql_db_version [] (col as_string 0)) (\<lambda>version.
     map_res (\<lambda>counts.
         ''tbcmangos@'' @ show_hex_pad 16 (unat (hash_bytes 0 (pragmas @ ''db_version='' @ version @ '';'' @ counts))))
       (count_material S ''SELECT COUNT(*) FROM '' FINGERPRINTED_TABLES)))"

section \<open>The resolver's database (resolve.rs)\<close>

definition map_db_error :: "string \<Rightarrow> string + 'a \<Rightarrow> DbError + 'a" where
  "map_db_error what r = (case r of Inl e \<Rightarrow> Inl (DbError_new what e) | Inr x \<Rightarrow> Inr x)"

definition sqlite_spawn :: "Sqlite \<Rightarrow> EntityKind \<Rightarrow> u32 \<Rightarrow> DbError + Spawn option" where
  "sqlite_spawn S kind n =
     (let placed = (\<lambda>spawn_table.
            map_res (\<lambda>spawns. map_option (\<lambda>p. Spawn_new (spp_map p) (spp_x p) (spp_y p) (spp_z p)) (first_of spawns))
              (map_db_error ''spawn'' (db_spawns S spawn_table n)))
      in case kind of EkNpc \<Rightarrow> placed StNpc | EkObject \<Rightarrow> placed StObject | _ \<Rightarrow> Inr None)"

text \<open>The fingerprint is computed once, when the adapter is made.\<close>

definition SqliteResolverDb :: "Sqlite \<Rightarrow> string + ResolverDb" where
  "SqliteResolverDb S =
     map_res (\<lambda>fp.
         \<lparr>db_fingerprint = fp, db_spawn = sqlite_spawn S,
          db_label = (\<lambda>kind n. map_db_error ''label'' (entity_label S kind n)),
          db_quest_giver = (\<lambda>quest. map_db_error ''quest_giver'' (quest_giver S quest)),
          db_quest_ender = (\<lambda>quest. map_db_error ''quest_ender'' (quest_ender S quest))\<rparr>)
       (fingerprint S)"

section \<open>Lemmas\<close>

lemma tl_shorter:
  assumes "b \<in> set bs" "b \<noteq> []"
  shows "(\<Sum>b\<leftarrow>bs. length (tl b)) < (\<Sum>b\<leftarrow>bs. length b)"
proof -
  have le: "(\<Sum>b\<leftarrow>cs. length (tl b)) \<le> (\<Sum>b\<leftarrow>cs. length b)" for cs :: "'a list list"
    by (rule sum_list_mono) simp
  from assms obtain as cs where "bs = as @ b # cs" by (auto dest: split_list)
  moreover from assms(2) have "length (tl b) < length b" by (cases b) auto
  ultimately show ?thesis using le [of as] le [of cs] by simp
qed

section \<open>The merge and its reference\<close>

text \<open>Taking turns: the first of every list that has one, then the same with the rests.\<close>

function round_robin :: "'a list list \<Rightarrow> 'a list" where
  "round_robin bs = (if concat bs = [] then [] else map hd (filter (\<lambda>b. b \<noteq> []) bs) @ round_robin (map tl bs))"
  by pat_completeness auto
termination
  by (relation "measure (\<lambda>bs. length (concat bs))") (auto simp: length_concat comp_def dest: tl_shorter [simplified])

declare round_robin.simps [simp del] tier_loop.simps [simp del]

lemma heads_nil: "map hd (filter (\<lambda>b. b \<noteq> []) bs) = [] \<longleftrightarrow> concat bs = []"
  by (induction bs) auto

lemma round_robin_rec: "round_robin bs = map hd (filter (\<lambda>b. b \<noteq> []) bs) @ (if concat bs = [] then [] else round_robin (map tl bs))"
  by (subst round_robin.simps) (use heads_nil [of bs] in auto)

lemma mset_heads: "mset (concat bs) = mset (map hd (filter (\<lambda>b. b \<noteq> []) bs)) + mset (concat (map tl bs))"
proof (induction bs)
  case (Cons b bs)
  then show ?case by (cases b) auto
qed simp

lemma mset_round_robin: "mset (round_robin bs) = mset (concat bs)"
proof (induction bs rule: round_robin.induct)
  case (1 bs)
  then show ?case using mset_heads [of bs] by (subst round_robin_rec) (auto simp del: mset_concat)
qed

text \<open>What a tier has left, and what a pass emits.\<close>

definition remaining :: "'a list list \<Rightarrow> nat list \<Rightarrow> 'a list list" where
  "remaining bs cursors = map (\<lambda>kind. drop (cursors ! kind) (bs ! kind)) [0..<KINDS]"

definition emits :: "'a list list \<Rightarrow> nat list \<Rightarrow> nat list \<Rightarrow> 'a list" where
  "emits bs kinds cursors =
     map (\<lambda>kind. bs ! kind ! (cursors ! kind)) (filter (\<lambda>kind. cursors ! kind < length (bs ! kind)) kinds)"

definition advanced :: "'a list list \<Rightarrow> nat list \<Rightarrow> nat list \<Rightarrow> nat list" where
  "advanced bs kinds cursors =
     map (\<lambda>kind. if kind \<in> set kinds \<and> cursors ! kind < length (bs ! kind) then cursors ! kind + 1 else cursors ! kind)
       [0..<length cursors]"

lemma emits_other:
  "kind \<notin> set kinds \<Longrightarrow> emits bs kinds (cursors[kind := n]) = emits bs kinds cursors"
proof -
  assume k: "kind \<notin> set kinds"
  have same: "cursors[kind := n] ! j = cursors ! j" if "j \<in> set kinds" for j
    using k that by (metis nth_list_update_neq)
  then have "filter (\<lambda>j. cursors[kind := n] ! j < length (bs ! j)) kinds = filter (\<lambda>j. cursors ! j < length (bs ! j)) kinds"
    by (intro filter_cong) simp_all
  with same show ?thesis by (simp add: emits_def)
qed

lemma kind_pass_spec:
  assumes "kind_pass limit bs kinds cursors page emitted = (full, page', cursors', emitted')"
    and "distinct kinds" and "\<forall>kind\<in>set kinds. kind < length cursors" and "length page \<le> limit"
  shows "page' = take limit (page @ emits bs kinds cursors)
    \<and> (full \<longrightarrow> length page' = limit)
    \<and> (\<not> full \<longrightarrow> page' = page @ emits bs kinds cursors \<and> cursors' = advanced bs kinds cursors
        \<and> emitted' = (emitted \<or> emits bs kinds cursors \<noteq> []))"
  using assms
proof (induction kinds arbitrary: cursors page emitted)
  case Nil
  then show ?case by (auto simp: emits_def advanced_def map_nth)
next
  case (Cons kind kinds)
  consider "length page = limit" | "length page \<noteq> limit" "\<not> cursors ! kind < length (bs ! kind)"
    | "length page \<noteq> limit" "cursors ! kind < length (bs ! kind)" by blast
  then show ?case
  proof cases
    case 1
    with Cons.prems show ?thesis by auto
  next
    case 2
    then have e: "emits bs (kind # kinds) cursors = emits bs kinds cursors" "advanced bs (kind # kinds) cursors = advanced bs kinds cursors"
      by (auto simp: emits_def advanced_def)
    from Cons.prems 2 have "kind_pass limit bs kinds cursors page emitted = (full, page', cursors', emitted')" by simp
    then show ?thesis unfolding e by (rule Cons.IH) (use Cons.prems in auto)
  next
    case 3
    let ?c = "cursors[kind := cursors ! kind + 1]" and ?hit = "bs ! kind ! (cursors ! kind)"
    from Cons.prems have k: "kind \<notin> set kinds" "kind < length cursors" by auto
    with 3 have e: "emits bs (kind # kinds) cursors = ?hit # emits bs kinds ?c"
      "advanced bs (kind # kinds) cursors = advanced bs kinds ?c"
      by (auto simp: emits_other) (auto simp: emits_def advanced_def nth_list_update)
    from Cons.prems 3 have "kind_pass limit bs kinds ?c (page @ [?hit]) True = (full, page', cursors', emitted')" by simp
    then have "page' = take limit ((page @ [?hit]) @ emits bs kinds ?c) \<and> (full \<longrightarrow> length page' = limit)
      \<and> (\<not> full \<longrightarrow> page' = (page @ [?hit]) @ emits bs kinds ?c \<and> cursors' = advanced bs kinds ?c
          \<and> emitted' = (True \<or> emits bs kinds ?c \<noteq> []))"
      by (rule Cons.IH) (use Cons.prems 3 in auto)
    then show ?thesis unfolding e append_assoc append.simps by blast
  qed
qed

lemma emits_remaining: "length cursors = KINDS \<Longrightarrow> emits bs [0..<KINDS] cursors = map hd (filter (\<lambda>b. b \<noteq> []) (remaining bs cursors))"
  by (auto simp: emits_def remaining_def filter_map comp_def hd_drop_conv_nth not_le intro!: arg_cong2 [where f = map] filter_cong)

lemma remaining_advanced:
  "length cursors = KINDS \<Longrightarrow> remaining bs (advanced bs [0..<KINDS] cursors) = map tl (remaining bs cursors)"
  by (auto simp: remaining_def advanced_def drop_Suc tl_drop)

lemma tier_loop_spec:
  assumes "length cursors = KINDS" "length page \<le> limit"
  shows "\<exists>full page'. tier_loop limit bs cursors page = (full, page')
    \<and> page' = take limit (page @ round_robin (remaining bs cursors))
    \<and> (full \<longrightarrow> length page' = limit) \<and> (\<not> full \<longrightarrow> page' = page @ round_robin (remaining bs cursors))"
  using assms
proof (induction limit bs cursors page rule: tier_loop.induct)
  case (1 limit bs cursors page)
  obtain full page' cursors' emitted where
    p: "kind_pass limit bs [0..<KINDS] cursors page False = (full, page', cursors', emitted)" by (metis prod_cases4)
  let ?rs = "remaining bs cursors" and ?es = "emits bs [0..<KINDS] cursors"
  from kind_pass_spec [OF p] "1.prems" have s: "page' = take limit (page @ ?es)" "full \<longrightarrow> length page' = limit"
    "\<not> full \<longrightarrow> page' = page @ ?es \<and> cursors' = advanced bs [0..<KINDS] cursors \<and> emitted = (?es \<noteq> [])" by auto
  have rr: "round_robin ?rs = ?es @ (if ?es = [] then [] else round_robin (map tl ?rs))"
    using "1.prems"(1) heads_nil [of ?rs] by (subst round_robin_rec) (auto simp: emits_remaining)
  consider "full" | "\<not> full" "\<not> emitted" | "\<not> full" "emitted" by blast
  then show ?case
  proof cases
    case 1
    with s p rr "1.prems" show ?thesis by (subst tier_loop.simps) auto
  next
    case 2
    with s p rr "1.prems" show ?thesis by (subst tier_loop.simps) auto
  next
    case 3
    from s(1) "1.prems"(2) have "length page' \<le> limit" by simp
    moreover from s(3) 3 "1.prems"(1) have "length cursors' = KINDS" by (simp add: advanced_def)
    moreover note calculation
    ultimately have small: "length cursors' = KINDS" "length page' \<le> limit" by simp_all
    have loop: "tier_loop limit bs cursors page = tier_loop limit bs cursors' page'"
      using p 3 "1.prems"(1) by (subst tier_loop.simps) simp
    have page: "page @ round_robin ?rs = page' @ round_robin (remaining bs cursors')"
      using s(3) 3 rr by (simp add: remaining_advanced [OF "1.prems"(1)])
    show ?thesis unfolding loop page
      by (rule "1.IH" [OF "1.prems"(1) p [symmetric] refl refl 3 small])
  qed
qed

subsection \<open>The whole page\<close>

definition bucket :: "SearchHit list \<Rightarrow> nat \<Rightarrow> nat \<Rightarrow> SearchHit list" where
  "bucket hits tier kind = sort_key hit_key (filter (\<lambda>h. bucket_of h = tier * KINDS + kind) hits)"

text \<open>The reference: tier after tier, the kinds of a tier taking turns, each in the order of \<open>hit_key\<close>.\<close>

definition tier_order :: "SearchHit list \<Rightarrow> nat \<Rightarrow> SearchHit list" where
  "tier_order hits tier = round_robin (map (bucket hits tier) [0..<KINDS])"

definition search_order :: "SearchHit list \<Rightarrow> SearchHit list" where
  "search_order hits = concat (map (tier_order hits) [0..<SCORE_TIERS])"

lemma bucket_bound: "bucket_of hit < SCORE_TIERS * KINDS"
proof -
  have "kind_order (sh_kind hit) < 5" by (simp add: kind_order_def split: SearchKind.split)
  moreover have "1 \<le> clamp_score (sh_score hit)" by (simp add: clamp_score_def SCORE_TIERS_def)
  ultimately show ?thesis by (simp add: bucket_of_def SCORE_TIERS_def KINDS_def)
qed

lemma push_hits:
  "length bs = SCORE_TIERS * KINDS \<Longrightarrow> i < SCORE_TIERS * KINDS
     \<Longrightarrow> fold push_hit hits bs ! i = bs ! i @ filter (\<lambda>h. bucket_of h = i) hits \<and> length (fold push_hit hits bs) = SCORE_TIERS * KINDS"
proof (induction hits arbitrary: bs)
  case (Cons hit hits)
  from Cons.IH [of "push_hit hit bs"] Cons.prems bucket_bound [of hit] show ?case
    by (auto simp: push_hit_def nth_list_update)
qed simp

lemma sorted_buckets_nth:
  "tier < SCORE_TIERS \<Longrightarrow> kind < KINDS \<Longrightarrow> sorted_buckets hits ! (tier * KINDS + kind) = bucket hits tier kind"
  using push_hits [of "replicate (SCORE_TIERS * KINDS) []" "tier * KINDS + kind" hits]
  by (simp add: sorted_buckets_def bucket_def SCORE_TIERS_def KINDS_def)

lemma interleave_tier_spec:
  assumes "tier < SCORE_TIERS" "length page \<le> limit"
  shows "\<exists>full page'. interleave_tier limit (sorted_buckets hits) tier page = (full, page')
    \<and> page' = take limit (page @ tier_order hits tier)
    \<and> (full \<longrightarrow> length page' = limit) \<and> (\<not> full \<longrightarrow> page' = page @ tier_order hits tier)"
proof -
  have bs: "map (\<lambda>kind. sorted_buckets hits ! (tier * KINDS + kind)) [0..<KINDS] = map (bucket hits tier) [0..<KINDS]"
    using sorted_buckets_nth [OF assms(1)] by simp
  have r: "remaining (map (bucket hits tier) [0..<KINDS]) (replicate KINDS 0) = map (bucket hits tier) [0..<KINDS]"
    by (simp add: remaining_def cong: map_cong)
  show ?thesis
    unfolding interleave_tier_def tier_order_def bs
    using tier_loop_spec [of "replicate KINDS 0" page limit "map (bucket hits tier) [0..<KINDS]", unfolded r] assms(2) by simp
qed

lemma interleave_tiers_spec:
  "\<forall>tier\<in>set tiers. tier < SCORE_TIERS \<Longrightarrow> length page \<le> limit
     \<Longrightarrow> interleave_tiers limit (sorted_buckets hits) tiers page = take limit (page @ concat (map (tier_order hits) tiers))"
proof (induction tiers arbitrary: page)
  case (Cons tier tiers)
  from interleave_tier_spec [of tier page limit hits] Cons.prems obtain full page' where
    t: "interleave_tier limit (sorted_buckets hits) tier page = (full, page')"
    "page' = take limit (page @ tier_order hits tier)" "full \<longrightarrow> length page' = limit"
    "\<not> full \<longrightarrow> page' = page @ tier_order hits tier" by auto
  show ?case
  proof (cases full)
    case True
    with t have "limit \<le> length (page @ tier_order hits tier)" by auto
    then have "take limit ((page @ tier_order hits tier) @ concat (map (tier_order hits) tiers)) = page'"
      unfolding take_append t(2) by simp
    with t(1) True show ?thesis by (simp del: take_append)
  next
    case False
    from t(2) have "length page' \<le> limit" by simp
    with Cons.IH [of page'] Cons.prems t False show ?thesis by (simp del: take_append)
  qed
qed simp

lemma interleave_prefix: "interleave_by_kind hits limit = take limit (search_order hits)"
  using interleave_tiers_spec [of "[0..<SCORE_TIERS]" "[]" limit hits] by (simp add: interleave_by_kind_def search_order_def)

lemma kind_order_bound: "kind_order kind < 5"
  by (simp add: kind_order_def split: SearchKind.split)

lemma kind_order_inj: "kind_order kind = kind_order kind' \<longleftrightarrow> kind = kind'"
  by (cases kind; cases kind') (simp_all add: kind_order_def)

lemma digits: "i < 5 \<Longrightarrow> j < 5 \<Longrightarrow> a * 5 + i = b * 5 + j \<longleftrightarrow> a = b \<and> i = (j :: nat)"
  by presburger

lemma mset_tier: "mset (tier_order hits tier) = {# h \<in># mset hits. SCORE_TIERS - clamp_score (sh_score h) = tier #}"
proof -
  have k: "kind_order (sh_kind h) < KINDS" for h :: SearchHit by (simp add: kind_order_def KINDS_def split: SearchKind.split)
  have "mset (concat (map (bucket hits tier) [0..<n]))
    = {# h \<in># mset hits. SCORE_TIERS - clamp_score (sh_score h) = tier \<and> kind_order (sh_kind h) < n #}" if "n \<le> KINDS" for n
    using that
  proof (induction n)
    case (Suc n)
    have "bucket_of h = tier * KINDS + n \<longleftrightarrow> SCORE_TIERS - clamp_score (sh_score h) = tier \<and> kind_order (sh_kind h) = n" for h
      using digits [of "kind_order (sh_kind h)" n] k [of h] Suc.prems by (simp add: bucket_of_def KINDS_def)
    then have "mset (bucket hits tier n) = {# h \<in># mset hits. SCORE_TIERS - clamp_score (sh_score h) = tier \<and> kind_order (sh_kind h) = n #}"
      by (simp add: bucket_def)
    with Suc show ?case
      by (auto simp: less_Suc_eq multiset_eq_iff)
  qed simp
  from this [of KINDS] show ?thesis using k
    by (simp add: tier_order_def mset_round_robin multiset_eq_iff del: mset_concat)
qed

lemma mset_search_order: "mset (search_order hits) = mset hits"
proof -
  have t: "SCORE_TIERS - clamp_score s = 0 \<or> SCORE_TIERS - clamp_score s = 1 \<or> SCORE_TIERS - clamp_score s = 2" for s
    by (auto simp: clamp_score_def SCORE_TIERS_def)
  have u: "[0..<SCORE_TIERS] = [0, 1, 2]" by (simp add: SCORE_TIERS_def upt_rec)
  show ?thesis
    using t by (auto simp: search_order_def u mset_tier multiset_eq_iff)
qed

lemma tier_of_order: "h \<in> set (tier_order hits tier) \<longleftrightarrow> h \<in> set hits \<and> SCORE_TIERS - clamp_score (sh_score h) = tier"
  using arg_cong [OF mset_tier [of hits tier], of set_mset] by auto

lemma clamp_score_bounds: "1 \<le> clamp_score s" "clamp_score s \<le> SCORE_TIERS"
  by (simp_all add: clamp_score_def SCORE_TIERS_def)

lemma tiers_sorted:
  "sorted_wrt (\<lambda>h h'. clamp_score (sh_score h') \<le> clamp_score (sh_score h)) (concat (map (tier_order hits) [m..<n]))"
proof (induction "n - m" arbitrary: m)
  case (Suc d)
  have same: "sorted_wrt (\<lambda>h h'. clamp_score (sh_score h') \<le> clamp_score (sh_score h)) (tier_order hits m)"
  proof (rule sorted_wrt_mono_rel [of _ "\<lambda>_ _. True"])
    fix h h' assume "h \<in> set (tier_order hits m)" "h' \<in> set (tier_order hits m)"
    then have "SCORE_TIERS - clamp_score (sh_score h) = SCORE_TIERS - clamp_score (sh_score h')" by (simp add: tier_of_order)
    then show "clamp_score (sh_score h') \<le> clamp_score (sh_score h)"
      using clamp_score_bounds [of "sh_score h"] clamp_score_bounds [of "sh_score h'"] by linarith
  qed (simp add: sorted_wrt_iff_nth_less)
  have later: "clamp_score (sh_score h') \<le> clamp_score (sh_score h)"
    if "h \<in> set (tier_order hits m)" "h' \<in> set (concat (map (tier_order hits) [Suc m..<n]))" for h h'
    using that clamp_score_bounds [of "sh_score h"] clamp_score_bounds [of "sh_score h'"] by (auto simp: tier_of_order)
  from Suc have "[m..<n] = m # [Suc m..<n]" by (simp add: upt_rec)
  with Suc.hyps(1) [of "Suc m"] Suc.hyps(2) same later show ?case by (simp add: sorted_wrt_append)
qed simp

lemma round_robin_first:
  assumes "b \<in> set bs" "b \<noteq> []"
  shows "hd b \<in> set (take (length bs) (round_robin bs))"
proof -
  have "hd b \<in> set (map hd (filter (\<lambda>b. b \<noteq> []) bs))" using assms by auto
  moreover have "length (map hd (filter (\<lambda>b. b \<noteq> []) bs)) \<le> length bs" by simp
  ultimately show ?thesis by (subst round_robin_rec) (simp add: take_append)
qed

lemma split_upt:
  assumes "t < n"
  shows "[0..<n] = [0..<t] @ t # [Suc t..<n]"
proof -
  from assms obtain k where k: "n = t + Suc k" by (auto dest: less_imp_Suc_add)
  have "[0..<n] = [0..<t] @ [t..<n]" unfolding k by (rule upt_add_eq_append) simp
  with assms show ?thesis by (simp add: upt_conv_Cons)
qed

lemma search_order_starts:
  assumes "h \<in> set hits" "\<And>h'. h' \<in> set hits \<Longrightarrow> clamp_score (sh_score h') \<le> clamp_score (sh_score h)"
  shows "\<exists>rest. search_order hits = tier_order hits (SCORE_TIERS - clamp_score (sh_score h)) @ rest"
proof -
  let ?t = "SCORE_TIERS - clamp_score (sh_score h)"
  have t: "?t < SCORE_TIERS" using clamp_score_bounds [of "sh_score h"] by (simp add: SCORE_TIERS_def)
  have "tier_order hits t = []" if "t < ?t" for t
  proof -
    have "h' \<notin> set (tier_order hits t)" for h'
      using assms(2) [of h'] that by (auto simp: tier_of_order)
    then show ?thesis by (metis last_in_set)
  qed
  then have "concat (map (tier_order hits) [0..<?t]) = []" by simp
  moreover have "[0..<SCORE_TIERS] = [0..<?t] @ ?t # [Suc ?t..<SCORE_TIERS]"
    using t by (rule split_upt)
  ultimately have "search_order hits = tier_order hits ?t @ concat (map (tier_order hits) [Suc ?t..<SCORE_TIERS])"
    by (simp only: search_order_def map_append concat_append list.map concat.simps append_Nil)
  then show ?thesis by blast
qed

text \<open>A kind with only weaker hits does not appear when the better ones fill the page, although the comment of the merge promises
  every kind on the first page.\<close>

lemma weaker_kind_starved:
  assumes "limit \<le> length (filter (\<lambda>h. clamp_score (sh_score h) > s) hits)"
    and "\<And>h. h \<in> set hits \<Longrightarrow> sh_kind h = kind \<Longrightarrow> clamp_score (sh_score h) \<le> s" and "h \<in> set (interleave_by_kind hits limit)"
  shows "sh_kind h \<noteq> kind"
proof
  assume "sh_kind h = kind"
  have h: "h \<in> set (take limit (search_order hits))" using assms(3) by (simp add: interleave_prefix)
  then obtain i where i: "i < limit" "i < length (search_order hits)" "search_order hits ! i = h"
    by (auto simp: in_set_conv_nth)
  have "h \<in> set hits" using in_set_takeD [OF h] mset_search_order [of hits] by (metis set_mset_mset)
  with assms(2) \<open>sh_kind h = kind\<close> have low: "clamp_score (sh_score h) \<le> s" by blast
  let ?P = "\<lambda>h. clamp_score (sh_score h) > s"
  have sorted: "sorted_wrt (\<lambda>h h'. clamp_score (sh_score h') \<le> clamp_score (sh_score h)) (search_order hits)"
    unfolding search_order_def by (rule tiers_sorted)
  have "\<not> ?P (search_order hits ! j)" if "i \<le> j" "j < length (search_order hits)" for j
    using sorted_wrt_nth_less [OF sorted, of i j] that i low by (cases "i = j") auto
  then have "filter ?P (drop i (search_order hits)) = []" by (auto simp: filter_empty_conv in_set_conv_nth)
  then have "length (filter ?P (search_order hits)) = length (filter ?P (take i (search_order hits)))"
    by (metis append_Nil2 append_take_drop_id filter_append)
  also have "\<dots> \<le> i" using length_filter_le [of ?P "take i (search_order hits)"] by simp
  also have "i < limit" by (rule i)
  finally have "length (filter ?P (search_order hits)) < limit" .
  moreover have "length (filter ?P (search_order hits)) = length (filter ?P hits)"
    using mset_search_order [of hits] by (metis mset_filter size_mset)
  ultimately show False using assms(1) by simp
qed

section \<open>LIKE\<close>

text \<open>
  The documented meaning of SQL's \<^verbatim>\<open>LIKE\<close> with the escape character, on the bytes of a str: letters of ASCII match
  in either case. (A lone \<^verbatim>\<open>_\<close> matches a character, which for the patterns below does not come up.)
\<close>

fun like :: "string \<Rightarrow> string \<Rightarrow> bool" where
  "like [] str \<longleftrightarrow> str = []"
| "like (c # pattern) [] \<longleftrightarrow> c = CHR ''%'' \<and> like pattern []"
| "like (c # pattern) (x # str) \<longleftrightarrow>
     (if c = CHR ''%'' then like pattern (x # str) \<or> like (c # pattern) str
      else if [c] = backslash
      then (case pattern of [] \<Rightarrow> False | d # rest \<Rightarrow> to_lower_char d = to_lower_char x \<and> like rest str)
      else if c = CHR ''_'' then like pattern str
      else to_lower_char c = to_lower_char x \<and> like pattern str)"

lemma like_percent: "like (CHR ''%'' # pattern) str \<longleftrightarrow> (\<exists>before after. str = before @ after \<and> like pattern after)"
proof (induction str)
  case (Cons c str)
  have "like (CHR ''%'' # pattern) (c # str) \<longleftrightarrow> like pattern (c # str) \<or> like (CHR ''%'' # pattern) str" by simp
  also have "\<dots> \<longleftrightarrow> (\<exists>before after. c # str = before @ after \<and> like pattern after)"
    unfolding Cons.IH by (auto simp: Cons_eq_append_conv)
  finally show ?case .
qed simp

lemma escape_like_simps [simp]:
  "escape_like [] = []"
  "escape_like (c # needle) = (if like_special c then backslash @ [c] else [c]) @ escape_like needle"
  by (simp_all add: escape_like_def)

lemma to_ascii_lowercase_simps [simp]:
  "to_ascii_lowercase [] = []" "to_ascii_lowercase (c # s) = to_lower_char c # to_ascii_lowercase s"
  by (simp_all add: to_ascii_lowercase_def)

lemma backslash_char: "backslash = [CHR 0x5C]"
  by code_simp

lemma lowercase_appendE:
  assumes "to_ascii_lowercase s = u @ v"
  obtains b a where "s = b @ a" "to_ascii_lowercase b = u" "to_ascii_lowercase a = v"
proof -
  have "take (length u) (to_ascii_lowercase s) = u" "drop (length u) (to_ascii_lowercase s) = v" using assms by simp_all
  then show ?thesis
    by (intro that [of "take (length u) s" "drop (length u) s"]) (simp_all add: to_ascii_lowercase_def take_map drop_map)
qed

lemma like_escaped_Cons:
  "like (escape_like (c # needle) @ pattern) [] \<longleftrightarrow> False"
  "like (escape_like (c # needle) @ pattern) (x # str) \<longleftrightarrow>
     to_lower_char c = to_lower_char x \<and> like (escape_like needle @ pattern) str"
  by (auto simp: like_special_def backslash_char)

lemma like_escaped:
  "like (escape_like needle @ pattern) str \<longleftrightarrow>
     (\<exists>before after. str = before @ after \<and> to_ascii_lowercase before = to_ascii_lowercase needle \<and> like pattern after)"
proof (induction needle arbitrary: str)
  case Nil
  then show ?case by (auto simp: to_ascii_lowercase_def)
next
  case (Cons c needle)
  show ?case
  proof (cases str)
    case (Cons d rest)
    show ?thesis unfolding Cons like_escaped_Cons Cons.IH
    proof safe
      fix before after
      assume "to_lower_char c = to_lower_char d" "to_ascii_lowercase before = to_ascii_lowercase needle" "like pattern after"
      then show "\<exists>b a. d # before @ after = b @ a \<and> to_ascii_lowercase b = to_ascii_lowercase (c # needle) \<and> like pattern a"
        by (intro exI [of _ "d # before"] exI [of _ after]) simp
    next
      fix before after
      assume "d # rest = before @ after" "to_ascii_lowercase before = to_ascii_lowercase (c # needle)" "like pattern after"
      then show "to_lower_char c = to_lower_char d"
        "\<exists>b a. rest = b @ a \<and> to_ascii_lowercase b = to_ascii_lowercase needle \<and> like pattern a"
        by (cases before; auto)+
    qed
  qed (auto simp: like_escaped_Cons simp del: escape_like_simps)
qed

text \<open>The searches of quests and of NPCs do not escape: a lone \<^verbatim>\<open>%\<close> matches every title.\<close>

lemma unescaped_matches_all: "like (''%'' @ ''%'' @ ''%'') str"
proof -
  have "like (CHR ''%'' # ''%%'') str" unfolding like_percent by (intro exI [of _ str] exI [of _ "[]"]) simp
  then show ?thesis by simp
qed

section \<open>Properties\<close>

text \<open>C35: The page of a search is the beginning of one fixed order of all hits: a permutation of them, better scores first, and within
  one score the kinds taking turns.\<close>

theorem search_page:
  "interleave_by_kind hits limit = take limit (search_order hits)
    \<and> mset (search_order hits) = mset hits
    \<and> sorted_wrt (\<lambda>h h'. clamp_score (sh_score h') \<le> clamp_score (sh_score h)) (search_order hits)"
proof (intro conjI)
  show "sorted_wrt (\<lambda>h h'. clamp_score (sh_score h') \<le> clamp_score (sh_score h)) (search_order hits)"
    unfolding search_order_def by (rule tiers_sorted)
qed (rule interleave_prefix mset_search_order)+

text \<open>C36: No kind with a best hit is starved: on a page for at least one hit per kind, every kind that has a hit with the best score
  of all hits appears among the first five.\<close>

theorem no_best_kind_starved:
  assumes "h \<in> set hits" and "\<And>h'. h' \<in> set hits \<Longrightarrow> clamp_score (sh_score h') \<le> clamp_score (sh_score h)" and "KINDS \<le> limit"
  shows "\<exists>h'\<in>set (take KINDS (interleave_by_kind hits limit)). sh_kind h' = sh_kind h"
proof -
  let ?t = "SCORE_TIERS - clamp_score (sh_score h)" and ?k = "kind_order (sh_kind h)"
  let ?b = "bucket hits ?t ?k"
  from search_order_starts [OF assms(1,2)] obtain rest where r: "search_order hits = tier_order hits ?t @ rest" by blast
  have k: "?k < KINDS" by (simp add: kind_order_def KINDS_def split: SearchKind.split)
  have "h \<in> set ?b" using assms(1) by (simp add: bucket_def bucket_of_def)
  then have b: "hd ?b \<in> set ?b" "?b \<noteq> []" by (auto intro: hd_in_set)
  from b k have "hd ?b \<in> set (take KINDS (tier_order hits ?t))"
    using round_robin_first [of ?b "map (bucket hits ?t) [0..<KINDS]"] by (auto simp: tier_order_def)
  then have "hd ?b \<in> set (take KINDS (interleave_by_kind hits limit))"
    unfolding interleave_prefix r using assms(3) by (simp add: min_absorb1)
  moreover from b(1) k have "kind_order (sh_kind (hd ?b)) = ?k"
    using digits [of "kind_order (sh_kind (hd ?b))" ?k] by (simp add: bucket_def bucket_of_def KINDS_def kind_order_bound)
  then have "sh_kind (hd ?b) = sh_kind h" by (simp add: kind_order_inj)
  ultimately show ?thesis by blast
qed

text \<open>Search terms are matched literally. Whatever pattern characters a term contains, the three patterns built from it match
  exactly the names that are the term, start with it, or contain it, letters compared without regard to ASCII case.\<close>

theorem escaped_terms_literal:
  "(like (escape_like needle) str \<longleftrightarrow> to_ascii_lowercase str = to_ascii_lowercase needle)
    \<and> (like (escape_like needle @ ''%'') str \<longleftrightarrow> prefix (to_ascii_lowercase needle) (to_ascii_lowercase str))
    \<and> (like (''%'' @ escape_like needle @ ''%'') str \<longleftrightarrow> sublist (to_ascii_lowercase needle) (to_ascii_lowercase str))"
proof -
  have any: "like ''%'' after" for after by (subst like_percent) simp
  have lower: "to_ascii_lowercase (a @ b) = to_ascii_lowercase a @ to_ascii_lowercase b" for a b
    by (simp add: to_ascii_lowercase_def)
  have prefixed: "prefix (to_ascii_lowercase needle) (to_ascii_lowercase s)
      \<longleftrightarrow> (\<exists>before after. s = before @ after \<and> to_ascii_lowercase before = to_ascii_lowercase needle)" for s
  proof
    assume "prefix (to_ascii_lowercase needle) (to_ascii_lowercase s)"
    then obtain ss where "to_ascii_lowercase s = to_ascii_lowercase needle @ ss" by (auto simp: prefix_def)
    then obtain b a where "s = b @ a" "to_ascii_lowercase b = to_ascii_lowercase needle" by (rule lowercase_appendE)
    then show "\<exists>before after. s = before @ after \<and> to_ascii_lowercase before = to_ascii_lowercase needle"
      by (intro exI [of _ b] exI [of _ a] conjI) simp_all
  next
    assume "\<exists>before after. s = before @ after \<and> to_ascii_lowercase before = to_ascii_lowercase needle"
    then obtain b a where "s = b @ a" "to_ascii_lowercase b = to_ascii_lowercase needle" by blast
    then show "prefix (to_ascii_lowercase needle) (to_ascii_lowercase s)" by (simp add: lower prefix_def)
  qed
  have starts: "like (escape_like needle @ ''%'') s \<longleftrightarrow> prefix (to_ascii_lowercase needle) (to_ascii_lowercase s)" for s
    unfolding like_escaped prefixed using any by simp
  have "sublist (to_ascii_lowercase needle) (to_ascii_lowercase s)
    \<longleftrightarrow> (\<exists>before after. s = before @ after \<and> prefix (to_ascii_lowercase needle) (to_ascii_lowercase after))" for s
  proof
    assume "sublist (to_ascii_lowercase needle) (to_ascii_lowercase s)"
    then obtain ps ss where "to_ascii_lowercase s = ps @ to_ascii_lowercase needle @ ss"
      by (auto simp: sublist_def)
    then obtain b a where "s = b @ a" "to_ascii_lowercase a = to_ascii_lowercase needle @ ss" by (rule lowercase_appendE)
    then show "\<exists>before after. s = before @ after \<and> prefix (to_ascii_lowercase needle) (to_ascii_lowercase after)"
      by (intro exI [of _ b] exI [of _ a] conjI) simp_all
  next
    assume "\<exists>before after. s = before @ after \<and> prefix (to_ascii_lowercase needle) (to_ascii_lowercase after)"
    then show "sublist (to_ascii_lowercase needle) (to_ascii_lowercase s)" by (auto simp: lower prefix_def)
  qed
  then have "like (''%'' @ escape_like needle @ ''%'') str \<longleftrightarrow> sublist (to_ascii_lowercase needle) (to_ascii_lowercase str)"
    using like_percent [of "escape_like needle @ ''%''" str] starts by simp
  with starts like_escaped [of needle "[]" str] show ?thesis by auto
qed

definition hit9 :: "SearchKind \<Rightarrow> u32 \<Rightarrow> u8 \<Rightarrow> SearchHit" where
  "hit9 kind n score = \<lparr>sh_kind = kind, sh_id = n, sh_name = ''Fang'', sh_context = [], sh_score = score\<rparr>"

lemma no_best_kind_starved_witness:
  "\<exists>h'\<in>set (take KINDS (interleave_by_kind [hit9 SkItem 1 2, hit9 SkItem 2 2, hit9 SkQuest 3 2, hit9 SkNpc 4 1] 5)).
     sh_kind h' = SkQuest"
proof -
  have "clamp_score (sh_score h') \<le> clamp_score (sh_score (hit9 SkQuest 3 2))"
    if "h' \<in> set [hit9 SkItem 1 2, hit9 SkItem 2 2, hit9 SkQuest 3 2, hit9 SkNpc 4 1]" for h'
    using that by (auto simp: hit9_def clamp_score_def SCORE_TIERS_def)
  from no_best_kind_starved [OF _ this, of "[hit9 SkItem 1 2, hit9 SkItem 2 2, hit9 SkQuest 3 2, hit9 SkNpc 4 1]" 5] show ?thesis by (simp add: KINDS_def) (simp add: hit9_def)
qed

end
