(* ===== verification/Query_Spawns.thy ===== *)
theory Query_Spawns
  imports Query_Db Compiler_Runtime "HOL-Library.AList" "HOL-Library.Product_Lexorder" "HOL-Library.Multiset"
begin

text \<open>
  Where things are (\<^verbatim>\<open>SentinelQueryServer/src/zone_names.rs\<close>, \<^verbatim>\<open>spawn_zones.rs\<close> and the spawns and routes of
  \<^verbatim>\<open>db.rs\<close>): the zone catalog, the spawns of a zone and around a point, the density of a zone, travel times.

  The two generated catalogs, which the server includes as JSON text, are parameters: \<open>ZoneCatalog\<close> and
  \<open>SpawnZones\<close>, with the functions that build them. A \<open>HashMap\<close> is an association list; what the code makes of its keys
  does not depend on their order. Sums of \<open>u32\<close> and \<open>u8\<close> wrap around, as they do in a release build.
\<close>

section \<open>The zone catalog (zone_names.rs)\<close>

record RawArea =
  ra_id :: u32
  ra_name :: string
  ra_parent :: u32

record ZoneCatalog =
  zc_names :: "u32 \<Rightarrow> string option"
  zc_parents :: "u32 \<Rightarrow> u32 option"

definition catalog_of :: "RawArea list \<Rightarrow> ZoneCatalog" where
  "catalog_of areas =
     fold (\<lambda>a z. z\<lparr>zc_parents := (zc_parents z)(ra_id a \<mapsto> ra_parent a), zc_names := (zc_names z)(ra_id a \<mapsto> ra_name a)\<rparr>)
       areas \<lparr>zc_names = Map.empty, zc_parents = Map.empty\<rparr>"

definition zone_name :: "ZoneCatalog \<Rightarrow> i64 \<Rightarrow> string" where
  "zone_name Z n = (if sint n \<le> 0 \<or> sint n \<ge> 2 ^ 32 then [] else or_empty (zc_names Z (low32 n)))"

definition zone_exists :: "ZoneCatalog \<Rightarrow> u32 \<Rightarrow> bool" where
  "zone_exists Z n \<longleftrightarrow> zc_names Z n \<noteq> None"

definition zone_of :: "ZoneCatalog \<Rightarrow> u32 \<Rightarrow> u32 option" where
  "zone_of Z n = map_option (\<lambda>parent. if parent = 0 then n else parent) (zc_parents Z n)"

section \<open>The spawn index (spawn_zones.rs)\<close>

type_synonym ZoneIndex = "(u32 \<times> (u32 \<times> u32) list) list"

record SpawnZones =
  sz_creatures :: ZoneIndex
  sz_objects :: ZoneIndex

definition has_zone :: "SpawnZones \<Rightarrow> u32 \<Rightarrow> bool" where
  "has_zone I zone \<longleftrightarrow> map_of (sz_creatures I) zone \<noteq> None \<or> map_of (sz_objects I) zone \<noteq> None"

text \<open>Entries whose key is not a number are dropped; of two keys for one number the later one wins.\<close>

fun parse_entries :: "(string \<times> u32) list \<Rightarrow> (u32 \<times> u32) list \<Rightarrow> (u32 \<times> u32) list" where
  "parse_entries [] entries = entries"
| "parse_entries ((key, n) # rest) entries =
     parse_entries rest (case parse_word key of None \<Rightarrow> entries | Some entry \<Rightarrow> AList.update entry n entries)"

fun parse_zones :: "(string \<times> (string \<times> u32) list) list \<Rightarrow> ZoneIndex \<Rightarrow> ZoneIndex" where
  "parse_zones [] zones = zones"
| "parse_zones ((key, entries) # rest) zones =
     parse_zones rest (case parse_word key of None \<Rightarrow> zones | Some zone \<Rightarrow> AList.update zone (parse_entries entries []) zones)"

definition parse_section :: "(string \<times> (string \<times> u32) list) list \<Rightarrow> ZoneIndex" where
  "parse_section raw = parse_zones raw []"

section \<open>Groups of spawns (db.rs)\<close>

record SpawnGroup =
  sg_entry :: u32
  sg_name :: string
  sg_spawn_count :: u32
  sg_avg_level :: u8
  sg_classification :: string
  sg_xp_reward :: u32
  sg_nearest_distance :: "f32 option"
  sg_positions :: "WorldPos list"

definition MAX_SAMPLE_POSITIONS :: nat where "MAX_SAMPLE_POSITIONS = 8"

definition RUN_SPEED :: f32 where "RUN_SPEED = f32_lit ''7.0''"

definition TAXI_SPEED :: f32 where "TAXI_SPEED = f32_lit ''32.0''"

text \<open>\<open>i / 2\<close> for an \<open>i64\<close>, towards zero.\<close>

definition half_i64 :: "i64 \<Rightarrow> i64" where
  "half_i64 i = of_int (if sint i < 0 then - ((- sint i) div 2) else sint i div 2)"

definition average_level :: "i64 \<Rightarrow> i64 \<Rightarrow> u8" where
  "average_level low high =
     (let mn = (if sint low < 0 then 0 else low); mx = (if sint high < 0 then 0 else high)
      in clamp_u8 (if sint mx \<ge> sint mn then half_i64 (mn + mx) else mn))"

definition xp_reward :: "u8 \<Rightarrow> i64 \<Rightarrow> i64 \<Rightarrow> f64 \<Rightarrow> u32" where
  "xp_reward level rank expansion xp_multiplier =
     (let base = f64_of_nat (unat level * 5 + (if sint expansion \<ge> 1 then 235 else 45));
          elite = (if rank \<noteq> 0 \<and> rank \<noteq> 4 then 0x4004000000000000 else 0x3FF0000000000000)
      in f64_round_u32 (f64_mul (f64_mul base elite) xp_multiplier))"

definition id_list :: "u32 list \<Rightarrow> string" where
  "id_list ids = join '','' (map show_word (sort ids))"

definition f64_of_f32 :: "f32 \<Rightarrow> f64" where
  "f64_of_f32 x =
     (if f32_is_nan x then f64_nan
      else if f32_is_inf x then with_sign64 (f32_sign x) f64_inf
      else round_scaled64 (f32_sign x) (f32_mantissa x) (f32_exponent x))"

definition square :: "f32 \<Rightarrow> f32" where
  "square x = f32_mul x x"

subsection \<open>Around a point\<close>

definition sql_nearby :: string where
  "sql_nearby =
     ''SELECT c.id, t.Name, t.MinLevel, t.MaxLevel, t.Rank, t.Expansion, t.ExperienceMultiplier, '' @
     ''c.position_x, c.position_y, c.position_z FROM creature c JOIN creature_template t ON '' @
     ''t.Entry = c.id WHERE c.map = ?1 AND c.position_x BETWEEN ?2 AND ?3 AND c.position_y BETWEEN '' @ ''?4 AND ?5''"

record NearbyRow =
  nr_entry :: u32
  nr_name :: string
  nr_min :: i64
  nr_max :: i64
  nr_rank :: i64
  nr_expansion :: i64
  nr_xp_mult :: f64
  nr_x :: f32
  nr_y :: f32
  nr_z :: f32

definition nearby_row :: "NearbyRow reader" where
  "nearby_row =
     reading (\<lambda>(entry, name, mn, mx, rank, expansion, mult, x, y, z).
         \<lparr>nr_entry = low32 entry, nr_name = or_empty name, nr_min = mn, nr_max = mx, nr_rank = rank, nr_expansion = expansion,
          nr_xp_mult = mult, nr_x = f32_of_f64 x, nr_y = f32_of_f64 y, nr_z = f32_of_f64 z\<rparr>)
       (both (int_col 0) (both (text_col 1) (both (int_col 2) (both (int_col 3) (both (int_col 4) (both (int_col 5)
         (both (col as_f64 6) (both (col as_f64 7) (both (col as_f64 8) (col as_f64 9))))))))))"

definition distance_to :: "f32 \<Rightarrow> f32 \<Rightarrow> NearbyRow \<Rightarrow> f32" where
  "distance_to x y row = f32_sqrt (f32_add (square (f32_sub (nr_x row) x)) (square (f32_sub (nr_y row) y)))"

definition new_group :: "NearbyRow \<Rightarrow> SpawnGroup" where
  "new_group row =
     (let level = average_level (nr_min row) (nr_max row)
      in \<lparr>sg_entry = nr_entry row, sg_name = nr_name row, sg_spawn_count = 0, sg_avg_level = level,
          sg_classification = classification_from_rank (nr_rank row),
          sg_xp_reward = xp_reward level (nr_rank row) (nr_expansion row) (nr_xp_mult row),
          sg_nearest_distance = None, sg_positions = []\<rparr>)"

definition add_to_group :: "u32 \<Rightarrow> f32 \<Rightarrow> NearbyRow \<Rightarrow> SpawnGroup \<Rightarrow> SpawnGroup" where
  "add_to_group wmap distance row g =
     g\<lparr>sg_spawn_count := sg_spawn_count g + 1,
       sg_nearest_distance :=
         (case sg_nearest_distance g of
            None \<Rightarrow> Some distance
          | Some d \<Rightarrow> if f32_less distance d then Some distance else Some d),
       sg_positions :=
         (if length (sg_positions g) < MAX_SAMPLE_POSITIONS
          then sg_positions g @ [WorldPos.make wmap (nr_x row) (nr_y row) (nr_z row)]
          else sg_positions g)\<rparr>"

text \<open>One row of the loop; \<open>index\<close> maps an entry to the place of its group.\<close>

definition group_row ::
  "u32 \<Rightarrow> f32 \<Rightarrow> f32 \<Rightarrow> f32 \<Rightarrow> NearbyRow \<Rightarrow> SpawnGroup list \<times> (u32 \<Rightarrow> nat option) \<Rightarrow> SpawnGroup list \<times> (u32 \<Rightarrow> nat option)" where
  "group_row wmap x y radius row acc =
     (let (groups, index) = acc; distance = distance_to x y row
      in if f32_less radius distance then (groups, index)
         else
           let (groups, index, slot) =
                 (case index (nr_entry row) of
                    Some slot \<Rightarrow> (groups, index, slot)
                  | None \<Rightarrow> (groups @ [new_group row], index(nr_entry row \<mapsto> length groups), length groups))
           in (groups[slot := add_to_group wmap distance row (groups ! slot)], index))"

definition nearest_or_max :: "SpawnGroup \<Rightarrow> f32" where
  "nearest_or_max g = (case sg_nearest_distance g of None \<Rightarrow> f32_max_value | Some d \<Rightarrow> d)"

text \<open>The comparison of the code is this order as long as no distance is NaN.\<close>

definition group_nearby :: "u32 \<Rightarrow> f32 \<Rightarrow> f32 \<Rightarrow> f32 \<Rightarrow> nat \<Rightarrow> NearbyRow list \<Rightarrow> SpawnGroup list" where
  "group_nearby wmap x y radius limit rows =
     take limit (sort_key (\<lambda>g. (f32_key (nearest_or_max g), sg_entry g))
       (fst (fold (group_row wmap x y radius) rows ([], Map.empty))))"

definition spawns_nearby :: "Sqlite \<Rightarrow> u32 \<Rightarrow> f32 \<Rightarrow> f32 \<Rightarrow> f32 \<Rightarrow> nat \<Rightarrow> string + SpawnGroup list" where
  "spawns_nearby S wmap x y radius limit =
     map_res (group_nearby wmap x y radius limit)
       (query_map S sql_nearby
          [sql_u32 wmap, SqlReal (f64_of_f32 (f32_sub x radius)), SqlReal (f64_of_f32 (f32_add x radius)),
           SqlReal (f64_of_f32 (f32_sub y radius)), SqlReal (f64_of_f32 (f32_add y radius))] nearby_row)"

subsection \<open>In a zone\<close>

record ZoneObject =
  zo_entry :: u32
  zo_name :: string
  zo_spawn_count :: u32
  zo_kind :: u32

record ZoneSpawns =
  zs_zone_id :: u32
  zs_zone_name :: string
  zs_creatures :: "SpawnGroup list"
  zs_objects :: "ZoneObject list"

definition sql_zone_creatures :: "u32 list \<Rightarrow> string" where
  "sql_zone_creatures ids =
     ''SELECT Entry, Name, MinLevel, MaxLevel, Rank, Expansion, ExperienceMultiplier FROM creature_template WHERE Entry IN ('' @
     id_list ids @ '')''"

definition sql_zone_objects :: "u32 list \<Rightarrow> string" where
  "sql_zone_objects ids = ''SELECT entry, name, type FROM gameobject_template WHERE entry IN ('' @ id_list ids @ '')''"

definition count_of :: "(u32 \<times> u32) list \<Rightarrow> u32 \<Rightarrow> u32" where
  "count_of counts entry = (case map_of counts entry of None \<Rightarrow> 0 | Some n \<Rightarrow> n)"

definition zone_creature_row :: "(u32 \<times> u32) list \<Rightarrow> SpawnGroup reader" where
  "zone_creature_row counts =
     reading (\<lambda>(entry, mn, mx, rank, expansion, name, mult).
         let level = average_level mn mx
         in \<lparr>sg_entry = low32 entry, sg_name = or_empty name, sg_spawn_count = count_of counts (low32 entry), sg_avg_level = level,
             sg_classification = classification_from_rank rank, sg_xp_reward = xp_reward level rank expansion mult,
             sg_nearest_distance = None, sg_positions = []\<rparr>)
       (both (int_col 0) (both (int_col 2) (both (int_col 3) (both (int_col 4) (both (int_col 5)
         (both (text_col 1) (col as_f64 6)))))))"

definition zone_object_row :: "(u32 \<times> u32) list \<Rightarrow> ZoneObject reader" where
  "zone_object_row counts =
     reading (\<lambda>(entry, name, kind).
         \<lparr>zo_entry = low32 entry, zo_name = or_empty name, zo_spawn_count = count_of counts (low32 entry), zo_kind = low32 kind\<rparr>)
       (both (int_col 0) (both (text_col 1) (int_col 2)))"

text \<open>Most spawns first, then by entry.\<close>

definition by_count :: "('a \<Rightarrow> u32) \<Rightarrow> ('a \<Rightarrow> u32) \<Rightarrow> 'a list \<Rightarrow> 'a list" where
  "by_count spawns entry = sort_key (\<lambda>g. (- int (unat (spawns g)), entry g))"

definition zone_spawns :: "ZoneCatalog \<Rightarrow> SpawnZones \<Rightarrow> Sqlite \<Rightarrow> u32 \<Rightarrow> string + ZoneSpawns option" where
  "zone_spawns Z I S zone =
     (if \<not> zone_exists Z zone then Inr None
      else Query_Db.and_then
        (case map_of (sz_creatures I) zone of
           None \<Rightarrow> Inr []
         | Some counts \<Rightarrow>
             map_res (by_count sg_spawn_count sg_entry)
               (query_map S (sql_zone_creatures (map fst counts)) [] (zone_creature_row counts))) (\<lambda>creatures.
        Query_Db.and_then
          (case map_of (sz_objects I) zone of
             None \<Rightarrow> Inr []
           | Some counts \<Rightarrow>
               map_res (by_count zo_spawn_count zo_entry)
                 (query_map S (sql_zone_objects (map fst counts)) [] (zone_object_row counts))) (\<lambda>objects.
          Inr (Some \<lparr>zs_zone_id = zone, zs_zone_name = zone_name Z (ucast zone), zs_creatures = creatures, zs_objects = objects\<rparr>))))"

section \<open>Density\<close>

record DensityRegion =
  dr_min_level :: u8
  dr_max_level :: u8
  dr_density_per_km2 :: f32
  dr_avg_xp_per_hour :: u32

record SafeSpot =
  ss_x :: f32
  ss_y :: f32
  ss_z :: f32
  ss_distance_from_spawns :: f32

record SpawnDensityResponse =
  sd_zone_id :: u32
  sd_density_regions :: "DensityRegion list"
  sd_safe_spots :: "SafeSpot list"

record Template =
  tp_entry :: u32
  tp_min_level :: i64
  tp_max_level :: i64
  tp_rank :: i64
  tp_expansion :: i64
  tp_xp_mult :: f64

record SpawnPos =
  sp_x :: f32
  sp_y :: f32
  sp_z :: f32

record Band =
  bd_min_level :: u8
  bd_max_level :: u8
  bd_spawn_count :: u32
  bd_total_xp_per_kill :: u64

definition template_row :: "Template reader" where
  "template_row =
     reading (\<lambda>(entry, mn, mx, rank, expansion, mult).
         \<lparr>tp_entry = low32 entry, tp_min_level = mn, tp_max_level = mx, tp_rank = rank, tp_expansion = expansion, tp_xp_mult = mult\<rparr>)
       (both (int_col 0) (both (int_col 2) (both (int_col 3) (both (int_col 4) (both (int_col 5) (col as_f64 6))))))"

definition position_row :: "SpawnPos reader" where
  "position_row =
     reading (\<lambda>(x, y, z). \<lparr>sp_x = f32_of_f64 x, sp_y = f32_of_f64 y, sp_z = f32_of_f64 z\<rparr>)
       (both (col as_f64 1) (both (col as_f64 2) (col as_f64 3)))"

definition template_level :: "Template \<Rightarrow> u8" where
  "template_level t = average_level (tp_min_level t) (tp_max_level t)"

definition template_xp :: "Template \<Rightarrow> u32" where
  "template_xp t = xp_reward (template_level t) (tp_rank t) (tp_expansion t) (tp_xp_mult t)"

definition unplaced_region :: "(u32 \<times> u32) list \<Rightarrow> Template \<Rightarrow> DensityRegion" where
  "unplaced_region counts t =
     (let spawns = count_of counts (tp_entry t)
      in \<lparr>dr_min_level = template_level t, dr_max_level = template_level t, dr_density_per_km2 = f32_of_nat (unat spawns),
          dr_avg_xp_per_hour = template_xp t * spawns * 30\<rparr>)"

definition extent :: "SpawnPos list \<Rightarrow> f32 \<times> f32 \<times> f32 \<times> f32" where
  "extent positions =
     fold (\<lambda>p (min_x, max_x, min_y, max_y). (f32_min min_x (sp_x p), f32_max max_x (sp_x p), f32_min min_y (sp_y p), f32_max max_y (sp_y p)))
       positions (f32_max_value, f32_min_value, f32_max_value, f32_min_value)"

definition band_start :: "u8 \<Rightarrow> u8" where
  "band_start level = (level div 5) * 5 + 1"

definition add_template :: "(u32 \<times> u32) list \<Rightarrow> Template \<Rightarrow> (u8 \<times> Band) list \<Rightarrow> (u8 \<times> Band) list" where
  "add_template counts t bands =
     (let start = band_start (template_level t); spawns = count_of counts (tp_entry t);
          band = (case map_of bands start of
                    None \<Rightarrow> \<lparr>bd_min_level = start, bd_max_level = start + 4, bd_spawn_count = 0, bd_total_xp_per_kill = 0\<rparr>
                  | Some b \<Rightarrow> b)
      in AList.update start
           (band\<lparr>bd_spawn_count := bd_spawn_count band + spawns,
                 bd_total_xp_per_kill := bd_total_xp_per_kill band + ucast (template_xp t) * ucast spawns\<rparr>) bands)"

definition band_region :: "f32 \<Rightarrow> Band \<Rightarrow> DensityRegion" where
  "band_region area_km2 band =
     (let avg_xp_per_kill = (if bd_spawn_count band = 0 then 0
                             else ucast (bd_total_xp_per_kill band div ucast (bd_spawn_count band)))
      in \<lparr>dr_min_level = bd_min_level band, dr_max_level = bd_max_level band,
          dr_density_per_km2 = f32_div (f32_of_nat (unat (bd_spawn_count band))) area_km2,
          dr_avg_xp_per_hour = avg_xp_per_kill * 30\<rparr>)"

text \<open>The nearest spawn to a point, and its height.\<close>

definition nearest_spawn :: "f32 \<Rightarrow> f32 \<Rightarrow> SpawnPos list \<Rightarrow> f32 \<times> f32" where
  "nearest_spawn cx cy positions =
     fold (\<lambda>p (nearest, z).
         let d = f32_sqrt (f32_add (square (f32_sub (sp_x p) cx)) (square (f32_sub (sp_y p) cy)))
         in if f32_less d nearest then (d, sp_z p) else (nearest, z))
       positions (f32_max_value, 0)"

definition grid_cells :: nat where "grid_cells = 4"

definition cell_spot :: "f32 \<Rightarrow> f32 \<Rightarrow> f32 \<Rightarrow> f32 \<Rightarrow> SpawnPos list \<Rightarrow> nat \<times> nat \<Rightarrow> SafeSpot option" where
  "cell_spot min_x min_y cell_w cell_h positions cell =
     (let (gx, gy) = cell;
          cx = f32_add min_x (f32_mul cell_w (f32_add (f32_of_nat gx) (f32_lit ''0.5'')));
          cy = f32_add min_y (f32_mul cell_h (f32_add (f32_of_nat gy) (f32_lit ''0.5'')));
          (nearest, z) = nearest_spawn cx cy positions
      in if f32_less (f32_lit ''50.0'') nearest
         then Some \<lparr>ss_x = cx, ss_y = cy, ss_z = z, ss_distance_from_spawns = nearest\<rparr> else None)"

definition zone_density :: "u32 \<Rightarrow> (u32 \<times> u32) list \<Rightarrow> Template list \<Rightarrow> SpawnPos list \<Rightarrow> SpawnDensityResponse" where
  "zone_density zone counts templates positions =
     (if positions = []
      then \<lparr>sd_zone_id = zone,
            sd_density_regions = sort_key (\<lambda>r. (dr_min_level r, dr_max_level r)) (map (unplaced_region counts) templates),
            sd_safe_spots = []\<rparr>
      else
        let (min_x, max_x, min_y, max_y) = extent positions;
            width = f32_max (f32_sub max_x min_x) (f32_lit ''1.0'');
            height = f32_max (f32_sub max_y min_y) (f32_lit ''1.0'');
            area_km2 = f32_div (f32_mul width height) (f32_lit ''1000000.0'');
            bands = fold (add_template counts) templates [];
            cell_w = f32_div width (f32_of_nat grid_cells);
            cell_h = f32_div height (f32_of_nat grid_cells);
            spots = List.map_filter (cell_spot min_x min_y cell_w cell_h positions)
                      (List.product [0..<grid_cells] [0..<grid_cells])
        in \<lparr>sd_zone_id = zone,
            sd_density_regions = sort_key dr_min_level (map (\<lambda>(_, band). band_region area_km2 band) bands),
            sd_safe_spots = take 8 (sort_key (\<lambda>s. - f32_key (ss_distance_from_spawns s)) spots)\<rparr>)"

definition sql_zone_positions :: "u32 list \<Rightarrow> string" where
  "sql_zone_positions ids = ''SELECT id, position_x, position_y, position_z FROM creature WHERE id IN ('' @ id_list ids @ '')''"

definition spawn_density :: "ZoneCatalog \<Rightarrow> SpawnZones \<Rightarrow> Sqlite \<Rightarrow> u32 \<Rightarrow> string + SpawnDensityResponse option" where
  "spawn_density Z I S zone =
     (if \<not> zone_exists Z zone then Inr None
      else case map_of (sz_creatures I) zone of
             Some (c # cs) \<Rightarrow>
               Query_Db.and_then (query_map S (sql_zone_creatures (map fst (c # cs))) [] template_row) (\<lambda>templates.
               Query_Db.and_then (query_map S (sql_zone_positions (map fst (c # cs))) [] position_row) (\<lambda>positions.
                 Inr (Some (zone_density zone (c # cs) templates positions))))
           | _ \<Rightarrow> Inr (Some \<lparr>sd_zone_id = zone, sd_density_regions = [], sd_safe_spots = []\<rparr>))"

section \<open>Travel times\<close>

definition distance3 :: "WorldPos \<Rightarrow> WorldPos \<Rightarrow> f32" where
  "distance3 a b =
     f32_sqrt (f32_add (f32_add (square (f32_sub (WorldPos.wp_x a) (WorldPos.wp_x b))) (square (f32_sub (WorldPos.wp_y a) (WorldPos.wp_y b))))
       (square (f32_sub (WorldPos.wp_z a) (WorldPos.wp_z b))))"

definition travel_estimate :: "WorldPos \<Rightarrow> WorldPos \<Rightarrow> u64" where
  "travel_estimate src dest = f32_ceil_u64 (f32_div (distance3 src dest) (f32_lit ''7.0''))"

record TravelRouteSegmentRequest =
  rs_kind :: "string option"
  rs_from :: "WorldPos option"
  rs_to :: "WorldPos option"
  rs_from_node :: "u32 option"
  rs_to_node :: "u32 option"

record TravelRouteSegment =
  ts_kind :: string
  ts_distance_m :: "f32 option"
  ts_estimated_s :: u64

record TravelRouteResponse =
  tr_segments :: "TravelRouteSegment list"
  tr_total_s :: u64

definition segment_text :: "nat \<Rightarrow> string" where
  "segment_text i = ''segment '' @ show_nat i @ '': ''"

definition plan_segment :: "Formatters \<Rightarrow> nat \<Rightarrow> TravelRouteSegmentRequest \<Rightarrow> string + TravelRouteSegment" where
  "plan_segment F i seg =
     (let taxi = (rs_kind seg = Some ''taxi'')
      in if rs_kind seg \<notin> {None, Some ''walk'', Some ''taxi''}
         then Inl (segment_text i @ ''unknown type '' @ debug_str F (or_empty (rs_kind seg)))
         else case (rs_from seg, rs_to seg) of
                (Some src, Some dest) \<Rightarrow>
                  if WorldPos.wp_map src \<noteq> WorldPos.wp_map dest
                  then Inl (segment_text i @ ''from and to are on different maps ('' @ show_word (WorldPos.wp_map src) @ '' and ''
                         @ show_word (WorldPos.wp_map dest) @ '')'')
                  else let distance = distance3 dest src
                       in Inr \<lparr>ts_kind = (if taxi then ''taxi'' else ''walk''), ts_distance_m = Some distance,
                               ts_estimated_s = f32_ceil_u64 (f32_div distance (if taxi then TAXI_SPEED else RUN_SPEED))\<rparr>
              | _ \<Rightarrow>
                  if taxi
                  then Inl (segment_text i @ ''a taxi segment needs from/to positions for its nodes ('' @
                         debug_option show_word (rs_from_node seg) @ '' -> '' @ debug_option show_word (rs_to_node seg) @
                         ''); this server has no taxi tables'')
                  else Inl (segment_text i @ ''a walk segment needs both from and to''))"

fun plan_segments :: "Formatters \<Rightarrow> nat \<Rightarrow> TravelRouteSegmentRequest list \<Rightarrow> string + TravelRouteSegment list" where
  "plan_segments F i [] = Inr []"
| "plan_segments F i (seg # segs) =
     Query_Db.and_then (plan_segment F i seg) (\<lambda>s. map_res (Cons s) (plan_segments F (Suc i) segs))"

definition plan_route :: "Formatters \<Rightarrow> TravelRouteSegmentRequest list \<Rightarrow> string + TravelRouteResponse" where
  "plan_route F segs =
     map_res (\<lambda>segments. \<lparr>tr_segments = segments, tr_total_s = sum_list (map ts_estimated_s segments)\<rparr>) (plan_segments F 0 segs)"

section \<open>What the endpoints return\<close>

subsection \<open>Groups around a point\<close>

text \<open>The entries in the order of their first row.\<close>

definition first_seen :: "'a list \<Rightarrow> 'a list" where
  "first_seen xs = rev (remdups (rev xs))"

lemma first_seen_simps [simp]:
  "first_seen [] = []"
  "first_seen (xs @ [x]) = (if x \<in> set xs then first_seen xs else first_seen xs @ [x])"
  "set (first_seen xs) = set xs" "distinct (first_seen xs)"
  by (simp_all add: first_seen_def)

definition nearest_of :: "f32 list \<Rightarrow> f32 option" where
  "nearest_of ds = fold (\<lambda>d best. case best of None \<Rightarrow> Some d | Some b \<Rightarrow> if f32_less d b then Some d else Some b) ds None"

text \<open>The group of an entry, from the rows of that entry in range: a reference definition with no running state.\<close>

definition spawn_summary :: "u32 \<Rightarrow> f32 \<Rightarrow> f32 \<Rightarrow> NearbyRow list \<Rightarrow> SpawnGroup" where
  "spawn_summary wmap x y mine =
     (new_group (hd mine))\<lparr>sg_spawn_count := of_nat (length mine),
       sg_nearest_distance := nearest_of (map (distance_to x y) mine),
       sg_positions := map (\<lambda>row. WorldPos.make wmap (nr_x row) (nr_y row) (nr_z row)) (take MAX_SAMPLE_POSITIONS mine)\<rparr>"

definition rows_of :: "NearbyRow list \<Rightarrow> u32 \<Rightarrow> NearbyRow list" where
  "rows_of rows entry = filter (\<lambda>row. nr_entry row = entry) rows"

definition in_range :: "f32 \<Rightarrow> f32 \<Rightarrow> f32 \<Rightarrow> NearbyRow list \<Rightarrow> NearbyRow list" where
  "in_range x y radius rows = filter (\<lambda>row. \<not> f32_less radius (distance_to x y row)) rows"

definition groups_of :: "u32 \<Rightarrow> f32 \<Rightarrow> f32 \<Rightarrow> NearbyRow list \<Rightarrow> SpawnGroup list" where
  "groups_of wmap x y rows = map (\<lambda>entry. spawn_summary wmap x y (rows_of rows entry)) (first_seen (map nr_entry rows))"

definition slot_of :: "'a list \<Rightarrow> 'a \<Rightarrow> nat option" where
  "slot_of es = map_of (zip es [0..<length es])"

lemma summary_start: "add_to_group wmap (distance_to x y row) row (new_group row) = spawn_summary wmap x y [row]"
  by (simp add: add_to_group_def spawn_summary_def new_group_def nearest_of_def MAX_SAMPLE_POSITIONS_def Let_def)

lemma summary_step:
  assumes "mine \<noteq> []"
  shows "add_to_group wmap (distance_to x y row) row (spawn_summary wmap x y mine) = spawn_summary wmap x y (mine @ [row])"
  using assms by (simp add: add_to_group_def spawn_summary_def nearest_of_def MAX_SAMPLE_POSITIONS_def Let_def)

lemma rows_of_snoc: "rows_of (rows @ [row]) e = rows_of rows e @ (if nr_entry row = e then [row] else [])"
  by (simp add: rows_of_def)

lemma rows_of_none: "e \<notin> nr_entry ` set rows \<Longrightarrow> rows_of rows e = []"
  by (auto simp: rows_of_def filter_empty_conv)

lemma rows_of_some: "e \<in> nr_entry ` set rows \<Longrightarrow> rows_of rows e \<noteq> []"
  by (auto simp: rows_of_def filter_empty_conv)

lemma slot_of_none: "e \<notin> set es \<Longrightarrow> slot_of es e = None"
  by (auto simp: slot_of_def map_of_eq_None_iff dest: set_zip_leftD)

lemma slot_of_nth: "distinct es \<Longrightarrow> i < length es \<Longrightarrow> slot_of es (es ! i) = Some i"
  by (simp add: slot_of_def map_of_zip_nth)

lemma slot_of_snoc: "e \<notin> set es \<Longrightarrow> (slot_of es)(e \<mapsto> length es) = slot_of (es @ [e])"
  by (auto simp: slot_of_def map_add_def fun_eq_iff map_of_eq_None_iff split: option.split dest: map_of_SomeD set_zip_leftD)

lemma list_update_map:
  assumes "distinct es" and "i < length es" and "\<And>e. e \<noteq> es ! i \<Longrightarrow> f e = g e"
  shows "(map f es)[i := g (es ! i)] = map g es"
  using assms by (intro nth_equalityI) (auto simp: nth_list_update nth_eq_iff_index_eq)

lemma group_row_step:
  assumes "\<not> f32_less radius (distance_to x y row)"
  shows "group_row wmap x y radius row (groups_of wmap x y rows, slot_of (first_seen (map nr_entry rows)))
    = (groups_of wmap x y (rows @ [row]), slot_of (first_seen (map nr_entry (rows @ [row]))))"
proof (cases "nr_entry row \<in> nr_entry ` set rows")
  case True
  let ?es = "first_seen (map nr_entry rows)"
  obtain i where i: "i < length ?es" "?es ! i = nr_entry row"
    using True by (metis first_seen_simps(3) in_set_conv_nth list.set_map)
  have slot: "slot_of ?es (nr_entry row) = Some i"
    using slot_of_nth [of ?es i] i by simp
  have "(groups_of wmap x y rows)[i := spawn_summary wmap x y (rows_of (rows @ [row]) (?es ! i))]
      = map (\<lambda>e. spawn_summary wmap x y (rows_of (rows @ [row]) e)) ?es"
    unfolding groups_of_def by (rule list_update_map) (use i in \<open>auto simp: rows_of_snoc\<close>)
  then show ?thesis
    using assms i slot True rows_of_some [OF True]
    by (simp add: group_row_def groups_of_def summary_step rows_of_snoc)
next
  case False
  let ?es = "first_seen (map nr_entry rows)"
  have new: "nr_entry row \<notin> set ?es"
    using False by simp
  have same: "map (\<lambda>e. spawn_summary wmap x y (rows_of (rows @ [row]) e)) ?es = groups_of wmap x y rows"
    using False by (auto simp: groups_of_def rows_of_snoc intro!: map_cong)
  show ?thesis
    using assms False new slot_of_none [OF new] slot_of_snoc [OF new] same rows_of_none [OF False]
    by (simp add: group_row_def Let_def summary_start rows_of_snoc) (simp add: groups_of_def rows_of_snoc nth_append summary_start)
qed

lemma fold_group_row:
  "fold (group_row wmap x y radius) rows ([], Map.empty)
     = (groups_of wmap x y (in_range x y radius rows), slot_of (first_seen (map nr_entry (in_range x y radius rows))))"
proof (induction rows rule: rev_induct)
  case Nil
  then show ?case by (simp add: groups_of_def in_range_def slot_of_def)
next
  case (snoc row rows)
  show ?case
  proof (cases "f32_less radius (distance_to x y row)")
    case True
    then show ?thesis using snoc by (simp add: in_range_def group_row_def Let_def)
  next
    case False
    then show ?thesis using snoc group_row_step [OF False] by (simp add: in_range_def)
  qed
qed

subsection \<open>The level bands of a zone\<close>

text \<open>A band is \<open>start .. start + 4\<close>; a level that is a multiple of five is counted in the band above it.\<close>

lemma band_start_nat: "unat l < 255 \<Longrightarrow> unat (band_start l) = unat l div 5 * 5 + 1"
proof -
  assume "unat l < 255"
  then have "unat l div 5 * 5 + 1 < 256" by linarith
  then show ?thesis
    by (simp add: band_start_def unat_word_ariths unat_div)
qed

lemma band_misses_level:
  assumes "unat l < 255"
  shows "band_start l \<le> l \<longleftrightarrow> unat l mod 5 \<noteq> 0"
proof -
  have "unat (band_start l) \<le> unat l \<longleftrightarrow> unat l mod 5 \<noteq> 0"
    unfolding band_start_nat [OF assms] using div_mult_mod_eq [of "unat l" 5] by linarith
  then show ?thesis by (simp add: word_le_nat_alt)
qed

lemma band_of_level_five: "band_start 5 = 6" "band_start 10 = 11" "band_start 255 = 0"
  by (simp_all add: band_start_def)

subsection \<open>Routes\<close>

definition good_segment :: "TravelRouteSegmentRequest \<Rightarrow> bool" where
  "good_segment seg \<longleftrightarrow>
     rs_kind seg \<in> {None, Some ''walk'', Some ''taxi''} \<and>
     (case (rs_from seg, rs_to seg) of (Some src, Some dest) \<Rightarrow> WorldPos.wp_map src = WorldPos.wp_map dest | _ \<Rightarrow> False)"

definition timed_segment :: "TravelRouteSegmentRequest \<Rightarrow> TravelRouteSegment" where
  "timed_segment seg =
     (let taxi = (rs_kind seg = Some ''taxi''); d = distance3 (the (rs_to seg)) (the (rs_from seg))
      in \<lparr>ts_kind = (if taxi then ''taxi'' else ''walk''), ts_distance_m = Some d,
          ts_estimated_s = f32_ceil_u64 (f32_div d (if taxi then TAXI_SPEED else RUN_SPEED))\<rparr>)"

lemma plan_segment_good: "good_segment seg \<Longrightarrow> plan_segment F i seg = Inr (timed_segment seg)"
  by (auto simp: plan_segment_def good_segment_def timed_segment_def Let_def split: option.splits)

lemma plan_segment_bad: "\<not> good_segment seg \<Longrightarrow> \<exists>why. plan_segment F i seg = Inl (segment_text i @ why)"
  by (auto simp: plan_segment_def good_segment_def Let_def split: option.splits)

lemma plan_segments_ok: "list_all good_segment segs \<Longrightarrow> plan_segments F i segs = Inr (map timed_segment segs)"
  by (induction segs arbitrary: i) (simp_all add: plan_segment_good)

lemma plan_segments_bad:
  "list_all good_segment before \<Longrightarrow> \<not> good_segment seg \<Longrightarrow>
     \<exists>why. plan_segments F i (before @ seg # after) = Inl (segment_text (i + length before) @ why)"
proof (induction before arbitrary: i)
  case Nil
  then show ?case using plan_segment_bad [of seg F i] by auto
next
  case (Cons b before)
  have "\<exists>why. plan_segments F (Suc i) (before @ seg # after) = Inl (segment_text (Suc i + length before) @ why)"
    using Cons.prems by (intro Cons.IH) simp_all
  then obtain why where "plan_segments F (Suc i) (before @ seg # after) = Inl (segment_text (Suc i + length before) @ why)"
    by (rule exE)
  then show ?case using Cons.prems by (simp add: plan_segment_good)
qed

lemma first_fault:
  assumes "\<not> list_all P xs"
  obtains x after where "xs = takeWhile P xs @ x # after" and "\<not> P x"
proof (cases "dropWhile P xs")
  case Nil
  then show ?thesis using assms by (simp add: dropWhile_eq_Nil_conv list_all_iff)
next
  case (Cons x after)
  then show ?thesis
    using that [of x after] takeWhile_dropWhile_id [of P xs] hd_dropWhile [of P xs] by simp
qed

section \<open>Properties\<close>

text \<open>C37: The loop that groups the creatures around a point computes its reference: for the rows within the radius, one group
  per entry, holding the number of its rows (as a \<open>u32\<close>), the nearest distance and the first eight positions, with the
  name, level and reward of its first row; the groups sorted by nearest distance and entry, and cut at the limit.
\<close>
theorem nearby_groups_exact:
  "group_nearby wmap x y radius limit rows =
     take limit (sort_key (\<lambda>g. (f32_key (nearest_or_max g), sg_entry g))
       (map (\<lambda>entry. spawn_summary wmap x y (rows_of (in_range x y radius rows) entry))
         (first_seen (map nr_entry (in_range x y radius rows)))))"
  by (simp add: group_nearby_def fold_group_row groups_of_def)

text \<open>A route is planned segment by segment: when every segment is of a known kind and has both ends on one map, the plan
  has one timed segment for each, in order, and its total is their sum in \<open>u64\<close>; otherwise the request fails, and the
  message names the first segment at fault by its position.
\<close>
theorem route_planned_or_first_fault:
  "(if list_all good_segment segs
    then plan_route F segs = Inr \<lparr>tr_segments = map timed_segment segs, tr_total_s = sum_list (map (ts_estimated_s \<circ> timed_segment) segs)\<rparr>
    else \<exists>why. plan_route F segs = Inl (segment_text (length (takeWhile good_segment segs)) @ why))"
proof (cases "list_all good_segment segs")
  case True
  then show ?thesis by (simp add: plan_route_def plan_segments_ok)
next
  case False
  let ?before = "takeWhile good_segment segs"
  obtain seg after where split: "segs = ?before @ seg # after" and bad: "\<not> good_segment seg"
    using first_fault [OF False] .
  have "list_all good_segment ?before"
    by (auto simp: list_all_iff dest: set_takeWhileD)
  then obtain why where "plan_segments F 0 (?before @ seg # after) = Inl (segment_text (length ?before) @ why)"
    using plan_segments_bad [of ?before seg F 0 after] bad by auto
  then show ?thesis using False split by (simp add: plan_route_def)
qed

end
