(* ===== verification/Query_Server.thy ===== *)
theory Query_Server
  imports Query_Search Query_Spawns Resolver_Plan
begin

text \<open>
  The endpoints of the query server (\<^verbatim>\<open>SentinelQueryServer/src/handlers.rs\<close>): each takes the decoded path, the query
  parameters or the body, and replies with a value (status 200) or with a status and the text of \<open>{"error": ...}\<close>.

  The routes, and the extraction of path and body, are axum's; a body that does not decode is a parameter's answer. The
  lemmas give the status of unknown entries, what a request for the spawns around a point is checked for, and what a plan
  served by \<open>/resolve\<close> carries.
\<close>

type_synonym 'a reply = "(nat \<times> string) + 'a"

type_synonym params = "string \<Rightarrow> string option"

text \<open>The three shapes the handlers' matches have: a value, a value that may be absent, a value with its own check.\<close>

definition value_reply :: "string + 'a \<Rightarrow> 'a reply" where
  "value_reply r = (case r of Inl e \<Rightarrow> Inl (500, e) | Inr x \<Rightarrow> Inr x)"

definition found_reply :: "string \<Rightarrow> u32 \<Rightarrow> string + 'a option \<Rightarrow> 'a reply" where
  "found_reply what n r =
     (case r of
        Inr (Some x) \<Rightarrow> Inr x
      | Inr None \<Rightarrow> Inl (404, what @ '' not found: '' @ show_word n)
      | Inl e \<Rightarrow> Inl (500, e))"

definition checked :: "string + 'a \<Rightarrow> 'a reply" where
  "checked r = (case r of Inl e \<Rightarrow> Inl (400, e) | Inr x \<Rightarrow> Inr x)"

section \<open>Quests, NPCs, items and objects\<close>

definition search_quests_reply :: "ZoneCatalog \<Rightarrow> Sqlite \<Rightarrow> params \<Rightarrow> QuestSummary list reply" where
  "search_quests_reply Z S params = value_reply (search_quests (zone_name Z) S (Query_Db.or_empty (params ''q'')))"

definition get_quest_reply :: "Sqlite \<Rightarrow> u32 \<Rightarrow> QuestDetail reply" where
  "get_quest_reply S n = found_reply ''Quest'' n (Query_Db.get_quest S n)"

definition search_npcs_reply :: "Sqlite \<Rightarrow> params \<Rightarrow> NpcSummary list reply" where
  "search_npcs_reply S params = value_reply (search_npcs S (Query_Db.or_empty (params ''q'')))"

definition get_npc_reply :: "Sqlite \<Rightarrow> u32 \<Rightarrow> NpcDetail reply" where
  "get_npc_reply S n = found_reply ''NPC'' n (Query_Db.get_npc S n)"

definition get_vendor_reply :: "Sqlite \<Rightarrow> u32 \<Rightarrow> VendorInfo reply" where
  "get_vendor_reply S n = found_reply ''Vendor'' n (Query_Db.get_vendor S n)"

definition get_trainer_reply :: "Sqlite \<Rightarrow> u32 \<Rightarrow> TrainerInfo reply" where
  "get_trainer_reply S n = found_reply ''Trainer'' n (Query_Db.get_trainer S n)"

definition sql_flight :: string where
  "sql_flight = ''SELECT Name FROM creature_template WHERE Entry = ?1 AND (NpcFlags & 8192) != 0''"

definition get_flight_reply :: "Sqlite \<Rightarrow> u32 \<Rightarrow> FlightInfo reply" where
  "get_flight_reply S n =
     (case query_row S sql_flight [sql_u32 n] (text_col 0) of
        Inr (Some name) \<Rightarrow> Inr \<lparr>fl_entry = n, fl_name = name, fl_destinations = []\<rparr>
      | Inr None \<Rightarrow> Inl (404, ''Flight master not found: '' @ show_word n)
      | Inl e \<Rightarrow> Inl (500, e))"

definition get_item_sources_reply :: "Sqlite \<Rightarrow> u32 \<Rightarrow> u32 list reply" where
  "get_item_sources_reply S n = value_reply (Query_Db.get_item_sources S n)"

definition get_item_reply :: "Sqlite \<Rightarrow> u32 \<Rightarrow> ItemInfo reply" where
  "get_item_reply S n = found_reply ''Item'' n (get_item S n)"

definition get_object_reply :: "Sqlite \<Rightarrow> u32 \<Rightarrow> ObjectInfo reply" where
  "get_object_reply S n = found_reply ''Object'' n (Query_Db.get_object S n)"

definition creatures_polygon_reply :: "Sqlite \<Rightarrow> params \<Rightarrow> CreaturePolygon reply" where
  "creatures_polygon_reply S params =
     (case params ''entry'' of
        None \<Rightarrow> Inl (400, ''Missing '' @ quoted ''entry'' @ '' parameter'')
      | Some raw \<Rightarrow>
          (case parse_word raw of
             None \<Rightarrow> Inl (400, ''Invalid '' @ quoted ''entry'' @ '' parameter'')
           | Some n \<Rightarrow> found_reply ''Creature'' n (Query_Db.creatures_polygon S n)))"

definition get_quest_chain_reply :: "Sqlite \<Rightarrow> u32 \<Rightarrow> QuestChain reply" where
  "get_quest_chain_reply S n = found_reply ''Quest'' n (get_quest_chain S n)"

definition get_quest_objectives_reply :: "Sqlite \<Rightarrow> u32 \<Rightarrow> QuestObjectivesResponse reply" where
  "get_quest_objectives_reply S n = found_reply ''Quest'' n (get_quest_objectives S n)"

definition validate_reply :: "Sqlite \<Rightarrow> string list \<Rightarrow> ValidationDiagnostic list reply" where
  "validate_reply S references = value_reply (db_validate S references)"

definition travel_estimate_reply :: "WorldPos \<times> WorldPos \<Rightarrow> u64 reply" where
  "travel_estimate_reply request = value_reply (Inr (travel_estimate (fst request) (snd request)))"

section \<open>Search, spawns and routes\<close>

definition search_reply :: "Sqlite \<Rightarrow> params \<Rightarrow> SearchHit list reply" where
  "search_reply S params =
     (let wanted = trim (Query_Db.or_empty (params ''q''))
      in if wanted = [] then Inl (400, ''Missing '' @ quoted ''q'' @ '' parameter'')
         else Query_Db.and_then (checked (parse_limit (params ''limit''))) (\<lambda>limit.
                value_reply (federated_search S wanted limit)))"

definition kind_label :: "SpawnType \<Rightarrow> string" where
  "kind_label kind = (case kind of StNpc \<Rightarrow> ''npc'' | StObject \<Rightarrow> ''object'')"

definition get_spawns_reply :: "Sqlite \<Rightarrow> string \<times> u32 \<Rightarrow> SpawnPoint list reply" where
  "get_spawns_reply S path =
     Query_Db.and_then (checked (spawn_type_from_str (fst path))) (\<lambda>kind.
       case db_spawns S kind (snd path) of
         Inr [] \<Rightarrow> Inl (404, ''No spawns found for '' @ kind_label kind @ '': '' @ show_word (snd path))
       | Inr spawns \<Rightarrow> Inr spawns
       | Inl e \<Rightarrow> Inl (500, e))"

definition travel_route_reply :: "Formatters \<Rightarrow> TravelRouteSegmentRequest list \<Rightarrow> TravelRouteResponse reply" where
  "travel_route_reply F segments = checked (plan_route F segments)"

record NearbySpawnsResponse =
  ns_map :: u32
  ns_center :: WorldPos
  ns_radius :: f32
  ns_creatures :: "SpawnGroup list"

definition MAX_NEARBY_RADIUS :: f32 where "MAX_NEARBY_RADIUS = f32_lit ''2000.0''"

definition required_param :: "(string \<Rightarrow> 'a option) \<Rightarrow> params \<Rightarrow> string \<Rightarrow> 'a reply" where
  "required_param parse params name =
     (case params name of
        None \<Rightarrow> Inl (400, ''Missing '' @ quoted name @ '' parameter'')
      | Some raw \<Rightarrow>
          (case parse raw of
             None \<Rightarrow> Inl (400, ''Invalid '' @ quoted name @ '' parameter: '' @ raw)
           | Some x \<Rightarrow> Inr x))"

definition bad_radius :: "f32 \<Rightarrow> bool" where
  "bad_radius radius \<longleftrightarrow> \<not> (f32_is_finite radius \<and> f32_less 0 radius) \<or> f32_less MAX_NEARBY_RADIUS radius"

definition spawns_nearby_reply :: "Sqlite \<Rightarrow> params \<Rightarrow> NearbySpawnsResponse reply" where
  "spawns_nearby_reply S params =
     Query_Db.and_then (required_param parse_word params ''map'') (\<lambda>wmap.
     Query_Db.and_then (required_param parse_f32 params ''x'') (\<lambda>x.
     Query_Db.and_then (required_param parse_f32 params ''y'') (\<lambda>y.
     Query_Db.and_then (required_param parse_f32 params ''radius'') (\<lambda>radius.
       if bad_radius radius
       then Inl (400, quoted ''radius'' @ '' must be between 0 and 2000 yards'')
       else Query_Db.and_then (checked (parse_limit (params ''limit''))) (\<lambda>limit.
              value_reply (map_res
                (\<lambda>creatures. \<lparr>ns_map = wmap, ns_center = WorldPos.make wmap x y 0, ns_radius = radius, ns_creatures = creatures\<rparr>)
                (spawns_nearby S wmap x y radius limit)))))))"

definition zone_spawns_reply :: "ZoneCatalog \<Rightarrow> SpawnZones \<Rightarrow> Sqlite \<Rightarrow> u32 \<Rightarrow> ZoneSpawns reply" where
  "zone_spawns_reply Z I S zone = found_reply ''Zone'' zone (zone_spawns Z I S zone)"

definition spawn_density_reply :: "ZoneCatalog \<Rightarrow> SpawnZones \<Rightarrow> Sqlite \<Rightarrow> u32 \<Rightarrow> SpawnDensityResponse reply" where
  "spawn_density_reply Z I S zone = found_reply ''Zone'' zone (spawn_density Z I S zone)"

section \<open>Resolution\<close>

definition show_db_error :: "DbError \<Rightarrow> string" where
  "show_db_error e = ''`'' @ dberr_lookup e @ ''` lookup failed: '' @ dberr_detail e"

text \<open>\<open>parse\<close> is serde's reading of the body; \<open>None\<close> is the panic of the task registration.\<close>

definition resolve_reply ::
  "ResolverEnv \<Rightarrow> (u8 list \<Rightarrow> string + Campaign) \<Rightarrow> Sqlite \<Rightarrow> u8 list \<Rightarrow> (ExecutionPlan \<times> ResolverDiagnostic list) reply option" where
  "resolve_reply E parse S body =
     (case checked (parse body) of
        Inl e \<Rightarrow> Some (Inl e)
      | Inr campaign \<Rightarrow>
          (case SqliteResolverDb S of
             Inl e \<Rightarrow> Some (Inl (500, e))
           | Inr db \<Rightarrow>
               map_option (\<lambda>r. case r of Inl e \<Rightarrow> Inl (500, show_db_error e) | Inr plan \<Rightarrow> Inr plan)
                 (resolve_questing E campaign db)))"

section \<open>Lemmas\<close>

lemma reply_simps [simp]:
  "value_reply (Inl e) = Inl (500, e)" "value_reply (Inr x) = Inr x"
  "found_reply what n (Inl e) = Inl (500, e)"
  "found_reply what n (Inr None) = Inl (404, what @ '' not found: '' @ show_word n)"
  "found_reply what n (Inr (Some x)) = Inr x"
  "checked (Inl e) = Inl (400, e)" "checked (Inr y) = Inr y"
  by (simp_all add: value_reply_def found_reply_def checked_def)

lemma reply_Inr:
  "value_reply r = Inr x \<longleftrightarrow> r = Inr x" "checked r = Inr x \<longleftrightarrow> r = Inr x" "found_reply what n q = Inr x \<longleftrightarrow> q = Inr (Some x)"
  by (auto simp: value_reply_def found_reply_def checked_def split: sum.splits option.splits)

lemma map_res_Inr: "map_res f r = Inr y \<longleftrightarrow> (\<exists>x. r = Inr x \<and> y = f x)"
  by (cases r) auto

text \<open>The entry \<open>n\<close> has no row in the statements that look an entry up.\<close>

definition entry_lookups :: "string list" where
  "entry_lookups = [sql_quest, sql_chain_quest, sql_objectives, sql_npc, sql_item, sql_object, sql_polygon, sql_creature_name, sql_flight]"

definition unknown_entry :: "Sqlite \<Rightarrow> u32 \<Rightarrow> bool" where
  "unknown_entry S n \<longleftrightarrow> list_all (\<lambda>sql. sq_query S sql [sql_u32 n] = Inr []) entry_lookups"

lemma no_rows:
  assumes "sq_query S sql args = Inr []"
  shows "query_map S sql args f = Inr []" "query_first S sql args f = Inr None" "query_row S sql args f = Inl (sq_no_rows S)"
  using assms by (simp_all add: query_map_def query_first_def query_row_def)

lemma parse_limit_range: "parse_limit raw = Inr n \<Longrightarrow> 1 \<le> n \<and> n \<le> 100"
  by (auto simp: parse_limit_def clamp_limit_def MAX_SEARCH_LIMIT_def DEFAULT_SEARCH_LIMIT_def split: option.splits)

lemma positions_sampled: "length (sg_positions (spawn_summary wmap x y mine)) \<le> 8"
  by (simp add: spawn_summary_def MAX_SAMPLE_POSITIONS_def)

lemma summary_entry: "mine \<noteq> [] \<Longrightarrow> list_all (\<lambda>row. nr_entry row = entry) mine \<Longrightarrow> sg_entry (spawn_summary wmap x y mine) = entry"
  by (cases mine) (simp_all add: spawn_summary_def new_group_def Let_def)

lemma groups_of_entries: "map sg_entry (groups_of wmap x y rows) = first_seen (map nr_entry rows)"
proof -
  have "sg_entry (spawn_summary wmap x y (rows_of rows entry)) = entry" if "entry \<in> set (first_seen (map nr_entry rows))" for entry
    using that rows_of_some [of entry rows] by (intro summary_entry) (auto simp: rows_of_def list_all_iff)
  then show ?thesis
    unfolding groups_of_def map_map by (intro map_idI) simp
qed

lemma take_sorted: "sorted (map f xs) \<Longrightarrow> sorted (map f (take n xs))"
  by (metis sorted_wrt_take take_map)

lemma distinct_map_take: "distinct (map f xs) \<Longrightarrow> distinct (map f (take n xs))"
  by (metis distinct_take take_map)

lemma distinct_map_sort: "distinct (map f (sort_key k xs)) = distinct (map f xs)"
  by (simp add: distinct_map)

lemma group_nearby_page:
  fixes limit :: nat
  defines "gs \<equiv> \<lambda>wmap x y radius rows. group_nearby wmap x y radius limit rows"
  shows "length (gs wmap x y radius rows) \<le> limit" "distinct (map sg_entry (gs wmap x y radius rows))"
    "sorted (map (\<lambda>g. (f32_key (nearest_or_max g), sg_entry g)) (gs wmap x y radius rows))"
    "list_all (\<lambda>g. length (sg_positions g) \<le> 8) (gs wmap x y radius rows)"
proof -
  let ?G = "groups_of wmap x y (in_range x y radius rows)"
  let ?k = "\<lambda>g. (f32_key (nearest_or_max g), sg_entry g)"
  have eq: "gs wmap x y radius rows = take limit (sort_key ?k ?G)"
    by (simp add: gs_def group_nearby_def fold_group_row)
  show "length (gs wmap x y radius rows) \<le> limit" by (simp add: eq)
  show "distinct (map sg_entry (gs wmap x y radius rows))"
    unfolding eq by (intro distinct_map_take) (simp add: distinct_map_sort groups_of_entries)
  show "sorted (map ?k (gs wmap x y radius rows))"
    unfolding eq by (intro take_sorted) simp
  have "list_all (\<lambda>g. length (sg_positions g) \<le> 8) ?G"
    by (simp add: groups_of_def list_all_iff positions_sampled)
  then show "list_all (\<lambda>g. length (sg_positions g) \<le> 8) (gs wmap x y radius rows)"
    unfolding eq list_all_iff by (auto dest: in_set_takeD)
qed

text \<open>What the loop over the nodes keeps out of the plan: its stamps come from the campaign and the database alone.\<close>

definition stamped :: "ResolverEnv \<Rightarrow> uuid \<Rightarrow> string \<Rightarrow> ExecutionPlan \<Rightarrow> bool" where
  "stamped E campaign fp plan \<longleftrightarrow>
     plan_schema_version plan = PLATFORM_SCHEMA_VERSION \<and> plan_campaign_id plan = campaign \<and> plan_db_fingerprint plan = fp \<and>
     plan_content_hash plan = plan_hash (renv_json E) plan"

lemma finish_plan_stamped: "stamped E campaign (db_fingerprint db) (finish_plan E campaign graph db ops conditions)"
  by (simp add: stamped_def finish_plan_def plan_hash_def Let_def)

lemma lower_graph_stamped:
  assumes "lower_graph E registry campaign graph db = Inr (plan, ds)"
  shows "stamped E (camp_id campaign) (db_fingerprint db) plan"
  using assms unfolding lower_graph_def by (auto simp: finish_plan_stamped)

lemma resolve_campaign_stamped:
  assumes "resolve_campaign E registry library campaign db = Inr (plan, ds)"
  shows "stamped E (camp_id campaign) (db_fingerprint db) plan"
proof -
  obtain graphs ds1 where "flatten E library campaign = (graphs, ds1)"
    by (cases "flatten E library campaign")
  then show ?thesis
    using assms unfolding resolve_campaign_def
    by (cases graphs) (auto simp: empty_plan_def finish_plan_stamped dest: lower_graph_stamped)
qed

section \<open>Properties\<close>

text \<open>C39: The status of an entry the database has no row for: quests, their chains and objectives, NPCs, items, objects and
  polygons are not found (404, with the entry); vendors, trainers and flight masters, whose name is read with a statement
  that requires a row, are an internal error (500) with SQLite's text instead.
\<close>
theorem unknown_entry_status:
  assumes "unknown_entry S n"
  shows "get_quest_reply S n = Inl (404, ''Quest not found: '' @ show_word n) \<and>
    get_quest_chain_reply S n = Inl (404, ''Quest not found: '' @ show_word n) \<and>
    get_quest_objectives_reply S n = Inl (404, ''Quest not found: '' @ show_word n) \<and>
    get_npc_reply S n = Inl (404, ''NPC not found: '' @ show_word n) \<and>
    get_item_reply S n = Inl (404, ''Item not found: '' @ show_word n) \<and>
    get_object_reply S n = Inl (404, ''Object not found: '' @ show_word n) \<and>
    creatures_polygon_reply S [''entry'' \<mapsto> show_word n] = Inl (404, ''Creature not found: '' @ show_word n) \<and>
    get_vendor_reply S n = Inl (500, sq_no_rows S) \<and> get_trainer_reply S n = Inl (500, sq_no_rows S) \<and>
    get_flight_reply S n = Inl (500, sq_no_rows S)"
proof -
  have q: "sq_query S sql [sql_u32 n] = Inr []" if "sql \<in> set entry_lookups" for sql
    using assms that by (auto simp: unknown_entry_def list_all_iff)
  note empty = q [unfolded entry_lookups_def, simplified] no_rows
  show ?thesis
    by (simp add: empty parse_word_show_word get_quest_reply_def Query_Db.get_quest_def get_quest_chain_reply_def get_quest_chain_def
        get_quest_objectives_reply_def get_quest_objectives_def get_npc_reply_def Query_Db.get_npc_def get_item_reply_def get_item_def
        get_object_reply_def Query_Db.get_object_def creatures_polygon_reply_def Query_Db.creatures_polygon_def
        get_vendor_reply_def Query_Db.get_vendor_def get_trainer_reply_def Query_Db.get_trainer_def get_flight_reply_def)
qed

text \<open>A request for the spawns around a point that is answered had a finite radius above 0 and at most 2000 yards, and its
  page has at most 100 groups, one per entry, each with at most eight positions, sorted by distance and entry.
\<close>
theorem nearby_reply_bounded:
  assumes "spawns_nearby_reply S params = Inr r"
  shows "\<not> bad_radius (ns_radius r) \<and> length (ns_creatures r) \<le> 100 \<and> distinct (map sg_entry (ns_creatures r)) \<and>
    sorted (map (\<lambda>g. (f32_key (nearest_or_max g), sg_entry g)) (ns_creatures r)) \<and>
    list_all (\<lambda>g. length (sg_positions g) \<le> 8) (ns_creatures r)"
proof -
  from assms obtain wmap x y radius limit rows where
    radius: "\<not> bad_radius radius" and limit: "parse_limit (params ''limit'') = Inr limit"
    and r: "r = \<lparr>ns_map = wmap, ns_center = WorldPos.make wmap x y 0, ns_radius = radius,
                 ns_creatures = group_nearby wmap x y radius limit rows\<rparr>"
    unfolding spawns_nearby_reply_def spawns_nearby_def
    by (auto simp: Query_Db.and_then_Inr reply_Inr map_res_Inr split: if_splits)
  show ?thesis
    using radius parse_limit_range [OF limit] group_nearby_page [of wmap x y radius limit rows]
    by (auto simp: r)
qed

text \<open>C40: A plan \<open>/resolve\<close> serves carries the fingerprint of the snapshot it was resolved against, the id of the campaign of the
  body, the schema version, and the hash of its own content; a body that does not parse is a 400 and a snapshot without
  fingerprint a 500, so neither yields a plan.
\<close>
theorem served_plan_stamped:
  assumes "resolve_reply E parse S body = Some (Inr (plan, ds))"
  shows "\<exists>campaign. parse body = Inr campaign \<and> fingerprint S = Inr (plan_db_fingerprint plan) \<and>
    stamped E (camp_id campaign) (plan_db_fingerprint plan) plan"
proof -
  from assms obtain campaign where campaign: "parse body = Inr campaign"
    by (auto simp: resolve_reply_def reply_Inr split: sum.splits)
  moreover from assms campaign obtain db where db: "SqliteResolverDb S = Inr db"
    by (auto simp: resolve_reply_def split: sum.splits)
  ultimately have plan: "resolve_questing E campaign db = Some (Inr (plan, ds))"
    using assms by (cases "resolve_questing E campaign db") (auto simp: resolve_reply_def split: sum.splits)
  have stamped: "stamped E (camp_id campaign) (db_fingerprint db) plan"
    using plan by (auto simp: resolve_questing_def dest: resolve_campaign_stamped)
  have "fingerprint S = Inr (db_fingerprint db)"
    using db by (auto simp: SqliteResolverDb_def map_res_Inr)
  with stamped campaign show ?thesis by (simp add: stamped_def)
qed

text \<open>A database with two creatures at the origin of map 0, one row in every table, and no row for the entry 99.\<close>

definition S9 :: Sqlite where
  "S9 = \<lparr>sq_query = (\<lambda>sql params.
       if params = [sql_u32 99] then Inr []
       else if sql = sql_db_version then Inr [Inr [SqlText ''2.4.3'']]
       else if params = [] then Inr [Inr [SqlInt 1]]
       else Inr
         [Inr [SqlInt 69, SqlText ''Timber Wolf'', SqlInt 2, SqlInt 2, SqlInt 0, SqlInt 0, SqlReal 0x3FF0000000000000,
               SqlReal 0, SqlReal 0, SqlReal 0],
          Inr [SqlInt 6, SqlText ''Kobold'', SqlInt 1, SqlInt 3, SqlInt 0, SqlInt 0, SqlReal 0x3FF0000000000000,
               SqlReal 0, SqlReal 0, SqlReal 0]]),
     sq_bad_column = (\<lambda>sql cells n. ''Invalid column type''), sq_no_rows = ''Query returned no rows''\<rparr>"

definition P9 :: params where
  "P9 = [''map'' \<mapsto> ''0'', ''x'' \<mapsto> ''0'', ''y'' \<mapsto> ''0'', ''radius'' \<mapsto> ''100'']"




lemma text_99: "show_word (99 :: u32) = ''99''"
  by (simp add: show_word_def show_nat.simps digit_char_def) code_simp

lemma unknown_entry_status_witness:
  "get_quest_reply S9 99 = Inl (404, ''Quest not found: 99'') \<and> get_vendor_reply S9 99 = Inl (500, ''Query returned no rows'')"
proof -
  have "unknown_entry S9 99"
    by (simp add: unknown_entry_def entry_lookups_def S9_def)
  moreover have "sq_no_rows S9 = ''Query returned no rows''"
    by (simp add: S9_def)
  ultimately show ?thesis
    using unknown_entry_status [of S9 99] by (simp add: text_99)
qed

lemma origin_distance: "\<not> f32_less 0x42C80000 (f32_sqrt (f32_add (square (f32_sub 0 0)) (square (f32_sub 0 0))))"
  by code_simp

lemma origin_coordinate: "f32_of_f64 0 = 0"
proof -
  have "\<not> f64_is_nan 0 \<and> \<not> f64_is_inf 0 \<and> \<not> Float64.f64_sign 0 \<and> Float64.f64_mantissa 0 = 0"
    by code_simp
  then show ?thesis
    by (simp add: f32_of_f64_def round_scaled_def round_ratio_def with_sign_def)
qed

lemma P9_request:
  "required_param parse_word P9 ''map'' = Inr (0 :: u32) \<and> required_param parse_f32 P9 ''x'' = Inr 0 \<and>
   required_param parse_f32 P9 ''y'' = Inr 0 \<and> required_param parse_f32 P9 ''radius'' = Inr 0x42C80000 \<and> P9 ''limit'' = None"
  by code_simp

lemma S9_nearby: "\<exists>rows. query_map S9 sql_nearby (sql_u32 0 # bounds) nearby_row = Inr rows \<and> map nr_entry rows = [69, 6]
    \<and> list_all (\<lambda>row. nr_x row = 0 \<and> nr_y row = 0) rows"
  by (simp add: S9_def query_map_def nearby_row_def reading_def both_def int_col_def text_col_def col_def as_i64_def as_string_def
      as_f64_def nullable_def sql_u32_def sql_db_version_def sql_nearby_def low32_def origin_coordinate)

lemma nearby_reply_bounded_witness:
  "\<exists>r. spawns_nearby_reply S9 P9 = Inr r \<and> length (ns_creatures r) = 2 \<and> distinct (map sg_entry (ns_creatures r))"
proof -
  let ?B = "[SqlReal (f64_of_f32 (f32_sub 0 0x42C80000)), SqlReal (f64_of_f32 (f32_add 0 0x42C80000)),
             SqlReal (f64_of_f32 (f32_sub 0 0x42C80000)), SqlReal (f64_of_f32 (f32_add 0 0x42C80000))]"
  obtain rows where rows: "query_map S9 sql_nearby (sql_u32 0 # ?B) nearby_row = Inr rows" "map nr_entry rows = [69, 6]"
    and origin: "list_all (\<lambda>row. nr_x row = 0 \<and> nr_y row = 0) rows"
    using S9_nearby [of ?B] by (elim exE conjE) (rule that)
  let ?gs = "group_nearby 0 0 0 0x42C80000 25 rows"
  have "in_range 0 0 0x42C80000 rows = rows"
    unfolding in_range_def
  proof (rule filter_True, rule ballI)
    fix row
    assume "row \<in> set rows"
    then have "nr_x row = 0" and "nr_y row = 0"
      using origin by (auto simp: list_all_iff)
    then show "\<not> f32_less 0x42C80000 (distance_to 0 0 row)"
      unfolding distance_to_def using origin_distance by simp
  qed
  then have "length ?gs = 2"
    using rows(2) by (simp add: group_nearby_def fold_group_row groups_of_def first_seen_def)
  moreover have "\<not> bad_radius 0x42C80000"
    by code_simp
  ultimately have "\<exists>r. spawns_nearby_reply S9 P9 = Inr r \<and> ns_creatures r = ?gs"
    using P9_request rows(1) by (simp add: spawns_nearby_reply_def spawns_nearby_def parse_limit_def DEFAULT_SEARCH_LIMIT_def)
  then show ?thesis using nearby_reply_bounded [of S9 P9] \<open>length ?gs = 2\<close> by auto
qed

lemma S9_fingerprint: "\<exists>fp. fingerprint S9 = Inr fp"
  by (simp add: fingerprint_def query_row_def query_first_def S9_def sql_db_version_def quoted_def int_col_def col_def as_i64_def
     as_string_def FINGERPRINTED_TABLES_def sql_u32_def)

lemma served_plan_stamped_witness:
  "\<exists>plan ds. resolve_reply E7 (\<lambda>_. Inr (Campaign_new 5 ''c'')) S9 [] = Some (Inr (plan, ds)) \<and>
     fingerprint S9 = Inr (plan_db_fingerprint plan)"
proof -
  let ?C = "Campaign_new 5 ''c''"
  obtain fp where fp: "fingerprint S9 = Inr fp"
    using S9_fingerprint by auto
  then obtain db where db: "SqliteResolverDb S9 = Inr db"
    by (simp add: SqliteResolverDb_def)
  obtain registry where registry: "with_questing = Some registry"
    using questing_registered by auto
  have "flatten E7 no_imports ?C = ([], [])"
    by (simp add: flatten_def Campaign_new_def)
  then obtain plan ds where "resolve_campaign E7 registry no_imports ?C db = Inr (plan, ds)"
    by (simp add: resolve_campaign_def reporting_def)
  then have "resolve_reply E7 (\<lambda>_. Inr ?C) S9 [] = Some (Inr (plan, ds))"
    by (simp add: resolve_reply_def db resolve_questing_def registry)
  then show ?thesis using served_plan_stamped [of E7 "\<lambda>_. Inr ?C" S9 "[]" plan ds] by blast
qed

end
