(* ===== verification/Spec2Isabelle.thy ===== *)
theory Spec2Isabelle
  imports Prelude Authoring Runtime_Model Kernel_Model Condition Condition_Spec Kernel_Predicate
    Archetype_Gates Waypoint_Route Combat_Policy Task_Graph Task_Graph_Props Kernel_Compile Kernel_Artifact
    Command_History Editor_History Compiler_Runtime Validator Editor_Api
    Float32 Zone_Map Guide_Text Guide_Source Guide_Parse Guide_Lines Guide_Dsl Query_Model
    Import_State Import_Actions Import_Project Import_Props Import_Steps
    Ordered_Map Platform_Model Resolver_Registry Resolver_Tasks Resolver Resolver_Order Resolver_Plan Resolver_Layers
    Campaign_History Campaign_Store Campaign_Handlers Campaign_Server Import_Coverage Editor_Server
    Float64 Query_Db Query_Search Query_Spawns Query_Server
begin

text \<open>
  A verification development for the questing stack of this repository: what turns a guide text or an authored campaign into
  the artifact the in-game runtime executes, and the editors that change them. The source is Rust; the paths below are
  relative to \<^verbatim>\<open>src/SentinelQuesting\<close> unless another directory is named.

  \<^bold>\<open>The program and its parts.\<close> A guide in the RXP text format is parsed (\<^verbatim>\<open>importer/src\<close>: bundle, blocks, lines, steps, labels) into a
  \<open>ParsedGuide\<close>; the project builder turns that into an authoring project, asking the game database through a query client.
  Projects are stored, edited with undo and redo, validated and compiled: into the ADR-05 runtime profile (\<open>compile\<close>) or the
  ADR-07 kernel artifact (\<open>compile_kernel\<close>), the latter resolved for one archetype (faction, race, class, experience rate). The
  newer campaign platform keeps graphs of typed nodes; the resolver checks them against a registry of task types and lowers
  a graph to an execution plan. Two HTTP editors (projects, campaigns) hold sessions in memory over files on disk. The query
  server (\<^verbatim>\<open>src/SentinelQueryServer\<close>) answers from the game database and resolves campaigns against it. The parts meet in the data
  types of \<^verbatim>\<open>shared/src\<close>, in the condition language (written by the importer, read by both compilers) and in the
  diagnostics every stage returns beside its result.

  \<^bold>\<open>Theories and code.\<close>
  \<^item> \<open>Prelude\<close>, \<open>Float32\<close>, \<open>Float64\<close>, \<open>Ordered_Map\<close>: the machine integers, UTF-8 strings, number formats, vectors, binary32 and
    binary64 arithmetic and ordered maps of the Rust standard library, as far as the code uses them.
  \<^item> \<open>Authoring\<close>, \<open>Runtime_Model\<close>, \<open>Kernel_Model\<close>, \<open>Platform_Model\<close>: the data of \<^verbatim>\<open>shared/src/authoring\<close>, \<^verbatim>\<open>runtime\<close>, \<^verbatim>\<open>kernel\<close>,
    \<^verbatim>\<open>platform\<close>; \<open>Zone_Map\<close>: \<^verbatim>\<open>zone.rs\<close>, \<^verbatim>\<open>movement.rs\<close>, \<^verbatim>\<open>source.rs\<close>; \<open>Query_Model\<close>: \<^verbatim>\<open>query-types\<close> and the in-memory client.
  \<^item> \<open>Condition\<close>, \<open>Condition_Spec\<close>: the condition language (\<^verbatim>\<open>compiler/src/condition.rs\<close>), generic in what it builds (a
    \<open>ConditionSink\<close>); \<open>Kernel_Predicate\<close>: its kernel target.
  \<^item> \<open>Archetype_Gates\<close>, \<open>Waypoint_Route\<close>, \<open>Combat_Policy\<close>, \<open>Task_Graph\<close>, \<open>Task_Graph_Props\<close>, \<open>Kernel_Compile\<close>, \<open>Kernel_Artifact\<close>:
    \<^verbatim>\<open>compiler/src/kernel\<close>, one theory per module, and what holds of the artifact as a whole.
  \<^item> \<open>Compiler_Runtime\<close>: \<^verbatim>\<open>compiler/src/lib.rs\<close>; \<open>Validator\<close>: \<^verbatim>\<open>validator/src/lib.rs\<close>.
  \<^item> \<open>Guide_Text\<close>, \<open>Guide_Source\<close>, \<open>Guide_Parse\<close>, \<open>Guide_Lines\<close>, \<open>Guide_Dsl\<close>: the importer's front end and the conditions it writes;
    \<open>Import_State\<close>, \<open>Import_Actions\<close>, \<open>Import_Project\<close>: the project builder as a state transformer; \<open>Import_Props\<close>, \<open>Import_Steps\<close>:
    what every import keeps; \<open>Import_Coverage\<close>: the tallies of \<^verbatim>\<open>coverage.rs\<close>.
  \<^item> \<open>Command_History\<close>: undo and redo over any command trait; \<open>Editor_History\<close>: the project commands; \<open>Editor_Api\<close>: project
    storage; \<open>Editor_Server\<close>: the handlers and the states of the project editor (\<^verbatim>\<open>editor/src/history.rs\<close>, \<^verbatim>\<open>lib.rs\<close>,
    \<^verbatim>\<open>server.rs\<close>).
  \<^item> \<open>Resolver_Registry\<close>, \<open>Resolver_Tasks\<close>, \<open>Resolver\<close>: \<^verbatim>\<open>resolver/src\<close>; \<open>Resolver_Order\<close>, \<open>Resolver_Plan\<close>, \<open>Resolver_Layers\<close>: its ordering,
    its plans, its import layers.
  \<^item> \<open>Campaign_History\<close>, \<open>Campaign_Store\<close>, \<open>Campaign_Handlers\<close>: \<^verbatim>\<open>editor/src/campaign_history.rs\<close>, \<^verbatim>\<open>campaign_store.rs\<close>,
    \<^verbatim>\<open>campaign_handlers.rs\<close>; \<open>Campaign_Server\<close>: the states that server reaches.
  \<^item> \<open>Query_Db\<close>, \<open>Query_Search\<close>, \<open>Query_Spawns\<close>, \<open>Query_Server\<close>: \<^verbatim>\<open>SentinelQueryServer/src\<close> - the queries about quests, creatures, items
    and objects with their SQL text and row mappings; the federated search with its merge, the fingerprint and the adapter of
    the resolver; zones, spawn groups, densities and routes; the endpoints with their status codes.

  \<^bold>\<open>How state and operations correspond.\<close> A struct is a \<open>record\<close>, an enum a \<open>datatype\<close>, a \<open>w\<close>-bit integer a \<open>w word\<close> (an \<open>i64\<close> is read by
  \<open>sint\<close>), a \<open>usize\<close> a natural number, a string its UTF-8 bytes. \<open>Result\<close> is a sum with the error left; a panic is \<open>None\<close>. A
  \<open>&mut Vec<Diagnostic>\<close> argument is a returned list; the importer's \<open>MapperState\<close> and the servers' sessions and files are passed
  through. A \<open>HashMap\<close> that is only looked up is a function, one that is iterated takes its order as a parameter; a \<open>BTreeMap\<close>
  is the sorted list of its entries. Operations keep the names of their functions; an arm of a long match is a definition
  of its own, named after what it handles.

  \<^bold>\<open>Interfaces.\<close> The locales are the contracts between components: \<open>condition_semantics\<close> and \<open>sink_height\<close> (what a condition sink
  gives the parser, interpreted for both targets), \<open>append_pool\<close> (the waypoint pool), \<open>reversible_commands\<close> (what a history needs
  of its commands, interpreted for project and campaign commands), \<open>honest_client\<close> (what the importer relies on from a query
  client, interpreted for the in-memory one) and \<open>map_interface\<close> (ordered maps).

  \<^bold>\<open>What the lemmas show.\<close> The parser returns on every text, accepts exactly what the grammar prints, and both targets give a
  condition one meaning; the emitted conditions of the importer are read back as meant. A kernel artifact is coherent: every
  index in range, every label and completion link resolved, every coordinate and op from an action the archetype runs; its
  bands and completion chains are bounded. The validator's checks are exact and explain what the compiler refuses. An import
  never fails, keeps every directive and command, stays inside its libraries, and explains gates it cannot satisfy. A plan
  mirrors its graph, carries its conditions, and explains every operation that does nothing. Histories undo and redo along a
  time line; the servers' sessions agree with the files they were saved to. A search page is the beginning of a fixed order of
  the hits; the loop over spawn rows computes its reference; a served plan carries the fingerprint of its snapshot. Where the code does not do what a comment or the
  design says, a lemma states what it does instead.

  \<^bold>\<open>Bounds and fuel.\<close> The condition parser is called with fuel \<open>4 * length + 4\<close> of the tokens; \<open>parser_returns\<close> proves that this is
  always enough. All other loops are structural or have a measure; the import chain of the resolver ends because ids are
  finitely many. Integers keep their width where the code relies on it (counts, bands, waypoint indices, content hashes).

  \<^bold>\<open>Parameters.\<close> What is not under \<^verbatim>\<open>src\<close> is an argument: uuids, clocks, JSON text of the serialisation library (\<open>Codec\<close>,
  \<open>Formatters\<close>, \<open>PlanJson\<close>, \<open>CampaignEnv\<close>), the answers of a query server (\<open>World\<close>, \<open>ResolverDb\<close>), what SQLite
  answers to a statement (\<open>Sqlite\<close>), the committed zone catalogs, the order of hash sets and
  directory scans (\<open>ValidatorEnv\<close>), Unicode tables beyond ASCII. Hypotheses about them are named (\<open>survives\<close>, \<open>storable\<close>,
  \<open>honest_client\<close>) and every property that has one has a witness.

  \<^bold>\<open>Not modelled.\<close> Serialisation attributes beyond the forms named above, logging, command line and start-up code, file system
  errors other than a missing file, and the concurrency of HTTP handlers beyond the steps their locks make (two races are
  stated as lemmas). Outside \<^verbatim>\<open>SentinelQuesting\<close>: the Lua runtimes and clients (another language), the Detour bindings and the
  path finding over them (a vendored C++ library does the work).
\<close>

end
